(* ===== verification/Prelude.thy ===== *)
theory Prelude
  imports Main "HOL-Library.Word"
begin

text \<open>
  Shared vocabulary of the development: errors as the left of a sum, tables as lists of rows
  (an SQL table read in row order), the two ways the code scans a table, and the collections
  the component proofs add their facts to.
\<close>

section \<open>Collections\<close>

named_theorems err_simps \<open>rewriting of sequenced fallible steps\<close>

named_theorems table_simps \<open>rewriting of table reads after table writes\<close>

section \<open>Fallible steps\<close>

text \<open>
  A raise is \<open>Inl e\<close>, a return is \<open>Inr x\<close>; \<open>sbind\<close> is "call, and propagate the exception".
\<close>

definition sbind :: "'e + 'a \<Rightarrow> ('a \<Rightarrow> 'e + 'b) \<Rightarrow> 'e + 'b" where
  "sbind m f = (case m of Inl e \<Rightarrow> Inl e | Inr x \<Rightarrow> f x)"

definition ensure :: "bool \<Rightarrow> 'e \<Rightarrow> 'e + unit" where
  "ensure b e = (if b then Inr () else Inl e)"

definition from_option :: "'e \<Rightarrow> 'a option \<Rightarrow> 'e + 'a" where
  "from_option e m = (case m of None \<Rightarrow> Inl e | Some x \<Rightarrow> Inr x)"

lemma sbind_simps [simp, code]:
  "sbind (Inl e) f = Inl e"
  "sbind (Inr x) f = f x"
  by (simp_all add: sbind_def)

lemma sbind_Inr_iff [err_simps]:
  "sbind m f = Inr y \<longleftrightarrow> (\<exists>x. m = Inr x \<and> f x = Inr y)"
  by (cases m) simp_all

lemma sbind_Inl_iff [err_simps]:
  "sbind m f = Inl e \<longleftrightarrow> m = Inl e \<or> (\<exists>x. m = Inr x \<and> f x = Inl e)"
  by (cases m) auto

lemma sbind_InrE:
  assumes "sbind m f = Inr y"
  obtains x where "m = Inr x" and "f x = Inr y"
  using assms by (cases m) auto

lemma sbind_cong [fundef_cong]:
  "m = m' \<Longrightarrow> (\<And>x. m' = Inr x \<Longrightarrow> f x = g x) \<Longrightarrow> sbind m f = sbind m' g"
  by (cases m') auto

lemma ensure_Inr_iff [err_simps, simp]: "ensure b e = Inr u \<longleftrightarrow> b"
  by (simp add: ensure_def)

lemma ensure_Inl_iff [err_simps, simp]: "ensure b e = Inl e' \<longleftrightarrow> \<not> b \<and> e' = e"
  by (auto simp: ensure_def)

lemma ensure_simps [simp]: "ensure True e = Inr ()" "ensure False e = Inl e"
  by (simp_all add: ensure_def)

lemma from_option_Inr_iff [err_simps, simp]: "from_option e m = Inr x \<longleftrightarrow> m = Some x"
  by (simp add: from_option_def split: option.split)

lemma from_option_Inl_iff [err_simps, simp]: "from_option e m = Inl e' \<longleftrightarrow> m = None \<and> e' = e"
  by (auto simp: from_option_def split: option.split)

lemma from_option_simps [simp]: "from_option e None = Inl e" "from_option e (Some x) = Inr x"
  by (simp_all add: from_option_def)

section \<open>Tables\<close>

text \<open>
  \<open>find_row p t\<close> is \<open>SELECT ... WHERE p\<close> read as one row (the first in row order),
  \<open>update_rows p f t\<close> is \<open>UPDATE ... SET f WHERE p\<close>, and \<open>first_min key t\<close> is
  \<open>ORDER BY key ASC LIMIT 1\<close>.
\<close>

abbreviation find_row :: "('r \<Rightarrow> bool) \<Rightarrow> 'r list \<Rightarrow> 'r option" where
  "find_row \<equiv> List.find"

definition update_rows :: "('r \<Rightarrow> bool) \<Rightarrow> ('r \<Rightarrow> 'r) \<Rightarrow> 'r list \<Rightarrow> 'r list" where
  "update_rows p f t = map (\<lambda>r. if p r then f r else r) t"

fun first_min :: "('r \<Rightarrow> 'k::linorder) \<Rightarrow> 'r list \<Rightarrow> 'r option" where
  "first_min key [] = None"
| "first_min key (r # rs) =
     (case first_min key rs of
        None \<Rightarrow> Some r
      | Some s \<Rightarrow> if key r \<le> key s then Some r else Some s)"

lemma find_row_SomeD: "find_row p t = Some r \<Longrightarrow> r \<in> set t \<and> p r"
  by (auto simp: find_Some_iff)

lemma find_row_None_iff: "find_row p t = None \<longleftrightarrow> (\<forall>r\<in>set t. \<not> p r)"
  by (auto simp: find_None_iff)

lemma length_update_rows [table_simps, simp]: "length (update_rows p f t) = length t"
  by (simp add: update_rows_def)

lemma update_rows_simps [simp]:
  "update_rows p f [] = []"
  "update_rows p f (r # rs) = (if p r then f r else r) # update_rows p f rs"
  by (simp_all add: update_rows_def)

lemma in_update_rows_iff:
  "s \<in> set (update_rows p f t) \<longleftrightarrow> (\<exists>r\<in>set t. s = (if p r then f r else r))"
  by (auto simp: update_rows_def)

lemma update_rows_idle: "(\<And>r. r \<in> set t \<Longrightarrow> \<not> p r) \<Longrightarrow> update_rows p f t = t"
  by (simp add: update_rows_def map_idI)

lemma map_key_update_rows [table_simps]:
  "(\<And>r. key (f r) = key r) \<Longrightarrow> map key (update_rows p f t) = map key t"
  by (simp add: update_rows_def)

lemma first_min_None_iff [simp]: "first_min key t = None \<longleftrightarrow> t = []"
  by (cases t) (auto split: option.splits)

lemma first_min_in: "first_min key t = Some r \<Longrightarrow> r \<in> set t"
  by (induction t arbitrary: r) (auto split: option.splits if_splits)

lemma first_min_le: "first_min key t = Some r \<Longrightarrow> s \<in> set t \<Longrightarrow> key r \<le> key s"
proof (induction t arbitrary: r)
  case Nil
  then show ?case by simp
next
  case (Cons a t)
  then show ?case
    by (cases "first_min key t") (fastforce split: if_splits)+
qed

text \<open>
  Rows carry a key that is unique in the table; a row is then determined by its key, and a
  write at one key leaves the rows at every other key alone.
\<close>

definition unique_key :: "('r \<Rightarrow> 'k) \<Rightarrow> 'r list \<Rightarrow> bool" where
  "unique_key key t \<longleftrightarrow> distinct (map key t)"

lemma unique_key_eqD:
  "unique_key key t \<Longrightarrow> r \<in> set t \<Longrightarrow> s \<in> set t \<Longrightarrow> key r = key s \<Longrightarrow> r = s"
  by (auto simp: unique_key_def distinct_map inj_on_def)

lemma unique_key_find:
  assumes "unique_key key t" and "r \<in> set t"
  shows "find_row (\<lambda>x. key x = key r) t = Some r"
proof (cases "find_row (\<lambda>x. key x = key r) t")
  case None
  with assms(2) show ?thesis by (auto simp: find_row_None_iff)
next
  case (Some s)
  then have "s \<in> set t" and "key s = key r" by (auto dest: find_row_SomeD)
  with assms have "s = r" by (blast intro: unique_key_eqD)
  with Some show ?thesis by simp
qed

lemma unique_key_update_rows [table_simps]:
  "(\<And>r. key (f r) = key r) \<Longrightarrow> unique_key key (update_rows p f t) = unique_key key t"
  by (simp add: unique_key_def map_key_update_rows)

lemma unique_key_snoc [table_simps]:
  "unique_key key (t @ [r]) \<longleftrightarrow> unique_key key t \<and> key r \<notin> key ` set t"
  by (auto simp: unique_key_def)

lemma find_update_rows_same [table_simps]:
  assumes "find_row (\<lambda>r. key r = k) t = Some r" and "p r"
    and "\<And>x. key (f x) = key x"
  shows "find_row (\<lambda>r. key r = k) (update_rows p f t) = Some (f r)"
  using assms by (induction t) (auto split: if_splits)

lemma find_update_rows_other [table_simps]:
  assumes "\<And>r. key (f r) = key r" and "\<And>r. key r = k \<Longrightarrow> \<not> p r"
  shows "find_row (\<lambda>r. key r = k) (update_rows p f t) = find_row (\<lambda>r. key r = k) t"
  using assms by (induction t) auto

lemma find_update_rows_key:
  assumes "\<And>x. key (f x) = key x"
  shows "find_row (\<lambda>r. key r = k) (update_rows p f t) =
    map_option (\<lambda>r. if p r then f r else r) (find_row (\<lambda>r. key r = k) t)"
  using assms by (induction t) auto

lemma find_update_hit:
  "find_row (\<lambda>r. key r = k) t = Some r \<Longrightarrow> key (f r) = k \<Longrightarrow>
     find_row (\<lambda>r. key r = k) (update_rows (\<lambda>r. key r = k) f t) = Some (f r)"
  by (induction t) (auto split: if_splits)

lemma update_rows_unique:
  assumes "unique_key key t" and "r \<in> set t"
  shows "update_rows (\<lambda>x. key x = key r) f t = update_rows (\<lambda>x. key x = key r) (\<lambda>_. f r) t"
  using assms unique_key_eqD [OF assms(1) _ assms(2)] by (auto simp: update_rows_def)

lemma update_rows_twice:
  "(\<And>r. key (f r) = key r) \<Longrightarrow>
   update_rows (\<lambda>x. key x = k) g (update_rows (\<lambda>x. key x = k) f t) =
     update_rows (\<lambda>x. key x = k) (\<lambda>r. g (f r)) t"
  by (simp add: update_rows_def)

section \<open>Related rows\<close>

lemma list_all2_left: "list_all2 P xs ys \<Longrightarrow> x \<in> set xs \<Longrightarrow> \<exists>y\<in>set ys. P x y"
  by (induction rule: list_all2_induct) auto

lemma list_all2_right: "list_all2 P xs ys \<Longrightarrow> y \<in> set ys \<Longrightarrow> \<exists>x\<in>set xs. P x y"
  by (induction rule: list_all2_induct) auto

end
