(* ===== verification/PyData.thy ===== *)
theory PyData
  imports Prelude "HOL-Library.Char_ord"
begin

text \<open>
  The Python and JSON values the modelled code stores and compares: UUIDs (128-bit integers
  with their textual form, as \<open>uuid.UUID\<close> reads and prints them), decimal rendering of
  integers, and JSON documents (the \<open>detail\<close>, \<open>input_refs\<close>, \<open>evidence\<close> columns). JSON
  floats do not occur in the modelled columns and have no constructor.
\<close>

section \<open>Decimal rendering\<close>

fun nat_str :: "nat \<Rightarrow> string" where
  "nat_str n =
     (if n < 10 then [char_of (48 + n)] else nat_str (n div 10) @ [char_of (48 + n mod 10)])"

declare nat_str.simps [simp del]

definition int_str :: "int \<Rightarrow> string" where
  "int_str i = (if i < 0 then CHR ''-'' # nat_str (nat (- i)) else nat_str (nat i))"

section \<open>UUIDs\<close>

type_synonym uuid = "128 word"

definition hex_digit :: "nat \<Rightarrow> char" where
  "hex_digit n = (if n < 10 then char_of (48 + n) else char_of (87 + n))"

fun hex_fixed :: "nat \<Rightarrow> nat \<Rightarrow> string" where
  "hex_fixed 0 n = []"
| "hex_fixed (Suc k) n = hex_fixed k (n div 16) @ [hex_digit (n mod 16)]"

text \<open>\<open>str(uuid)\<close>: 32 lower-case hex digits in groups of 8-4-4-4-12.\<close>

definition uuid_str :: "uuid \<Rightarrow> string" where
  "uuid_str u =
     (let h = hex_fixed 32 (unat u)
      in take 8 h @ ''-'' @ take 4 (drop 8 h) @ ''-'' @ take 4 (drop 12 h) @ ''-'' @
         take 4 (drop 16 h) @ ''-'' @ drop 20 h)"

text \<open>
  \<open>uuid.UUID(s)\<close>: drops \<open>urn:\<close> and \<open>uuid:\<close>, strips braces, drops hyphens, wants 32 characters
  and reads them with \<open>int(_, 16)\<close> (which allows surrounding white space, a \<open>+\<close>, a \<open>0x\<close>
  prefix and single underscores between digits); \<open>None\<close> is the \<open>ValueError\<close>.
\<close>

fun remove_sub :: "string \<Rightarrow> string \<Rightarrow> string" where
  "remove_sub pat [] = []"
| "remove_sub pat (c # cs) =
     (if pat \<noteq> [] \<and> take (length pat) (c # cs) = pat
      then remove_sub pat (drop (length pat - 1) cs)
      else c # remove_sub pat cs)"

definition strip_chars :: "(char \<Rightarrow> bool) \<Rightarrow> string \<Rightarrow> string" where
  "strip_chars p s = rev (dropWhile p (rev (dropWhile p s)))"

definition hex_val :: "char \<Rightarrow> nat option" where
  "hex_val c =
     (let n = of_char c :: nat
      in if 48 \<le> n \<and> n \<le> 57 then Some (n - 48)
         else if 97 \<le> n \<and> n \<le> 102 then Some (n - 87)
         else if 65 \<le> n \<and> n \<le> 70 then Some (n - 55)
         else None)"

fun hex_acc :: "nat \<Rightarrow> bool \<Rightarrow> string \<Rightarrow> nat option" where
  "hex_acc a d [] = (if d then Some a else None)"
| "hex_acc a d (c # cs) =
     (case hex_val c of
        Some v \<Rightarrow> hex_acc (16 * a + v) True cs
      | None \<Rightarrow> if c = CHR ''_'' \<and> d then hex_acc a False cs else None)"

definition is_space :: "char \<Rightarrow> bool" where
  "is_space c = (let n = of_char c :: nat in n = 32 \<or> (9 \<le> n \<and> n \<le> 13) \<or> (28 \<le> n \<and> n \<le> 31))"

definition drop_prefix_char :: "char \<Rightarrow> string \<Rightarrow> string" where
  "drop_prefix_char c s = (case s of x # xs \<Rightarrow> (if x = c then xs else s) | [] \<Rightarrow> [])"

definition int16 :: "string \<Rightarrow> nat option" where
  "int16 s =
     (let t = drop_prefix_char CHR ''+'' (strip_chars is_space s);
          b = take 2 t = ''0x'' \<or> take 2 t = ''0X''
      in hex_acc 0 False (if b then drop_prefix_char CHR ''_'' (drop 2 t) else t))"

definition uuid_parse :: "string \<Rightarrow> uuid option" where
  "uuid_parse s =
     (let h = filter (\<lambda>c. c \<noteq> CHR ''-'')
                (strip_chars (\<lambda>c. c = CHR ''{'' \<or> c = CHR ''}'')
                  (remove_sub ''uuid:'' (remove_sub ''urn:'' s)))
      in if length h = 32 then map_option of_nat (int16 h) else None)"

subsection \<open>Reading back a printed UUID\<close>

lemma of_char_hex_digit: "n < 16 \<Longrightarrow> (of_char (hex_digit n) :: nat) = (if n < 10 then 48 + n else 87 + n)"
  by (simp add: hex_digit_def)

lemma hex_val_hex_digit [simp]: "n < 16 \<Longrightarrow> hex_val (hex_digit n) = Some n"
  by (auto simp: hex_val_def of_char_hex_digit Let_def)

lemma length_hex_fixed [simp]: "length (hex_fixed k n) = k"
  by (induction k arbitrary: n) auto

definition is_lower_hex :: "char \<Rightarrow> bool" where
  "is_lower_hex c = (let n = of_char c :: nat in (48 \<le> n \<and> n \<le> 57) \<or> (97 \<le> n \<and> n \<le> 102))"

lemma is_lower_hex_digit: "n < 16 \<Longrightarrow> is_lower_hex (hex_digit n)"
  by (auto simp: is_lower_hex_def Let_def of_char_hex_digit)

lemma hex_fixed_lower_hex: "c \<in> set (hex_fixed k n) \<Longrightarrow> is_lower_hex c"
proof (induction k arbitrary: n)
  case 0
  then show ?case by simp
next
  case (Suc k)
  then show ?case using is_lower_hex_digit [of "n mod 16"] by auto
qed

lemma hex_acc_append:
  "\<forall>c\<in>set xs. hex_val c \<noteq> None \<Longrightarrow> xs \<noteq> [] \<Longrightarrow>
   hex_acc a d (xs @ ys) =
     hex_acc (foldl (\<lambda>a c. 16 * a + the (hex_val c)) a xs) True ys"
proof (induction xs arbitrary: a d)
  case Nil
  then show ?case by simp
next
  case (Cons x xs)
  then show ?case by (cases "xs = []") auto
qed

lemma foldl_hex_fixed:
  "n < 16 ^ k \<Longrightarrow>
   foldl (\<lambda>a c. 16 * a + the (hex_val c)) a (hex_fixed k n) = a * 16 ^ k + n"
proof (induction k arbitrary: n)
  case 0
  then show ?case by simp
next
  case (Suc k)
  have "n div 16 < 16 ^ k" using Suc.prems by (simp add: less_mult_imp_div_less mult.commute)
  then have "foldl (\<lambda>a c. 16 * a + the (hex_val c)) a (hex_fixed k (n div 16)) =
      a * 16 ^ k + n div 16"
    by (rule Suc.IH)
  then show ?case by (simp add: algebra_simps)
qed

lemma hex_val_lower_hex: "is_lower_hex c \<Longrightarrow> hex_val c \<noteq> None"
  by (auto simp: is_lower_hex_def hex_val_def Let_def)

lemma hex_acc_hex_fixed:
  assumes "n < 16 ^ k" and "0 < k"
  shows "hex_acc 0 False (hex_fixed k n) = Some n"
proof -
  have "\<forall>c\<in>set (hex_fixed k n). hex_val c \<noteq> None"
    using hex_fixed_lower_hex hex_val_lower_hex by blast
  moreover have "hex_fixed k n \<noteq> []"
    using assms(2) by (metis length_0_conv length_hex_fixed less_not_refl)
  ultimately show ?thesis
    using hex_acc_append [of "hex_fixed k n" 0 False "[]"] foldl_hex_fixed [OF assms(1), of 0]
    by simp
qed

lemma dropWhile_none: "\<forall>c\<in>set s. \<not> p c \<Longrightarrow> dropWhile p s = s"
  by (cases s) auto

lemma strip_chars_none: "\<forall>c\<in>set s. \<not> p c \<Longrightarrow> strip_chars p s = s"
  by (simp add: strip_chars_def dropWhile_none)

lemma remove_sub_absent: "pat = c # p \<Longrightarrow> c \<notin> set s \<Longrightarrow> remove_sub pat s = s"
  by (induction s) auto

lemma lower_hex_not:
  "is_lower_hex c \<Longrightarrow> c \<noteq> CHR ''u'' \<and> c \<noteq> CHR ''{'' \<and> c \<noteq> CHR ''}'' \<and> c \<noteq> CHR ''-'' \<and>
     c \<noteq> CHR ''+'' \<and> c \<noteq> CHR ''x'' \<and> c \<noteq> CHR ''X'' \<and> \<not> is_space c"
  by (auto simp: is_lower_hex_def is_space_def Let_def)

lemma int16_hex_fixed:
  assumes "n < 16 ^ 32"
  shows "int16 (hex_fixed 32 n) = Some n"
proof -
  let ?h = "hex_fixed 32 n"
  have lh: "\<forall>c\<in>set ?h. is_lower_hex c" by (simp add: hex_fixed_lower_hex)
  have len: "length ?h = 32" by (rule length_hex_fixed)
  obtain a t where t: "?h = a # t"
    using len by (cases ?h) simp_all
  obtain b r where "t = b # r"
    using len unfolding t by (cases t) simp_all
  with t have h: "?h = a # b # r" by simp
  have "strip_chars is_space ?h = ?h"
    by (rule strip_chars_none) (use lh lower_hex_not in blast)
  moreover have "drop_prefix_char CHR ''+'' ?h = ?h"
    unfolding h using lh h lower_hex_not by (auto simp: drop_prefix_char_def)
  moreover have "take 2 ?h \<noteq> ''0x'' \<and> take 2 ?h \<noteq> ''0X''"
    unfolding h using lh h lower_hex_not by auto
  ultimately show ?thesis
    using hex_acc_hex_fixed [OF assms] by (simp add: int16_def Let_def)
qed

lemma uuid_split:
  assumes "length h = 32"
  shows "take 8 h @ take 4 (drop 8 h) @ take 4 (drop 12 h) @ take 4 (drop 16 h) @ drop 20 h = h"
proof -
  have "take 4 (drop 16 h) @ drop 20 h = drop 16 h"
    using append_take_drop_id [of 4 "drop 16 h"] by simp
  moreover have "take 4 (drop 12 h) @ drop 16 h = drop 12 h"
    using append_take_drop_id [of 4 "drop 12 h"] by simp
  moreover have "take 4 (drop 8 h) @ drop 12 h = drop 8 h"
    using append_take_drop_id [of 4 "drop 8 h"] by simp
  ultimately show ?thesis by simp
qed

lemma filter_no_hyphen: "\<forall>c\<in>set s. is_lower_hex c \<Longrightarrow> filter (\<lambda>c. c \<noteq> CHR ''-'') s = s"
  by (rule filter_True) (use lower_hex_not in blast)

lemma uuid_parse_str: "uuid_parse (uuid_str u) = Some u"
proof -
  let ?h = "hex_fixed 32 (unat u)"
  have lh: "\<forall>c\<in>set ?h. is_lower_hex c" by (simp add: hex_fixed_lower_hex)
  have sub: "\<forall>c\<in>set (take i (drop j ?h)). is_lower_hex c" "\<forall>c\<in>set (drop j ?h). is_lower_hex c"
    "\<forall>c\<in>set (take i ?h). is_lower_hex c" for i j
    using lh by (meson in_set_dropD in_set_takeD)+
  have ok: "\<forall>c\<in>set (uuid_str u). is_lower_hex c \<or> c = CHR ''-''"
    using sub by (auto simp: uuid_str_def Let_def)
  have nu: "CHR ''u'' \<notin> set (uuid_str u)"
    using ok lower_hex_not by fastforce
  have "strip_chars (\<lambda>c. c = CHR ''{'' \<or> c = CHR ''}'') (uuid_str u) = uuid_str u"
    by (rule strip_chars_none) (use ok lower_hex_not in fastforce)
  moreover have "remove_sub ''uuid:'' (remove_sub ''urn:'' (uuid_str u)) = uuid_str u"
    using nu by (simp add: remove_sub_absent)
  moreover have "filter (\<lambda>c. c \<noteq> CHR ''-'') (uuid_str u) = ?h"
  proof -
    have "filter (\<lambda>c. c \<noteq> CHR ''-'') (uuid_str u) =
        take 8 ?h @ take 4 (drop 8 ?h) @ take 4 (drop 12 ?h) @ take 4 (drop 16 ?h) @ drop 20 ?h"
      by (simp only: uuid_str_def Let_def filter_append filter_no_hyphen [OF sub(1)]
            filter_no_hyphen [OF sub(2)] filter_no_hyphen [OF sub(3)]) simp
    also have "\<dots> = ?h" by (rule uuid_split) (rule length_hex_fixed)
    finally show ?thesis .
  qed
  moreover have "int16 ?h = Some (unat u)"
  proof (rule int16_hex_fixed)
    have "unat u < 2 ^ LENGTH(128)" by (rule unsigned_less)
    then show "unat u < 16 ^ 32" by simp
  qed
  ultimately show ?thesis
    unfolding uuid_parse_def Let_def
    by (simp only: length_hex_fixed) simp
qed

lemma uuid_str_inject: "uuid_str u = uuid_str v \<longleftrightarrow> u = v"
  by (metis option.inject uuid_parse_str)

section \<open>JSON\<close>

datatype json =
    JNull
  | JBool bool
  | JInt int
  | JStr string
  | JArr "json list"
  | JObj "(string \<times> json) list"

type_synonym jdict = "(string \<times> json) list"

text \<open>\<open>d.get(k)\<close>: \<open>None\<close> (JSON null) for a missing key.\<close>

definition jget :: "jdict \<Rightarrow> string \<Rightarrow> json" where
  "jget d k = (case map_of d k of None \<Rightarrow> JNull | Some v \<Rightarrow> v)"

text \<open>Python truthiness of a JSON value.\<close>

fun truthy :: "json \<Rightarrow> bool" where
  "truthy JNull = False"
| "truthy (JBool b) = b"
| "truthy (JInt i) = (i \<noteq> 0)"
| "truthy (JStr s) = (s \<noteq> [])"
| "truthy (JArr xs) = (xs \<noteq> [])"
| "truthy (JObj d) = (d \<noteq> [])"

text \<open>
  \<open>uuid.UUID(str(v))\<close>. The text of a boolean, null, list or dict is never 32 hex digits
  (it holds a letter or a bracket that \<open>int(_, 16)\<close> rejects), so these are the \<open>ValueError\<close>.
\<close>

definition json_uuid :: "json \<Rightarrow> uuid option" where
  "json_uuid v =
     (case v of
        JStr s \<Rightarrow> uuid_parse s
      | JInt i \<Rightarrow> uuid_parse (int_str i)
      | _ \<Rightarrow> None)"

lemma json_uuid_str [simp]: "json_uuid (JStr (uuid_str u)) = Some u"
  by (simp add: json_uuid_def uuid_parse_str)

lemma uuid_str_nonempty [simp]: "uuid_str u \<noteq> []"
  by (simp add: uuid_str_def Let_def)

end
