(* ===== verification/Store.thy ===== *)
theory Store
  imports PyData
begin

text \<open>
  The database schema of the runtime: the closed vocabularies (\<open>enum.Enum\<close> classes) and rows
  (SQLAlchemy models) of \<open>app/models/mainai_job.py\<close>, \<open>app/models/mainai_execution.py\<close>,
  \<open>app/models/mainai_wait.py\<close> and \<open>app/models/mainai_recovery.py\<close>, one field per column the
  modelled code reads or writes, and the record \<open>db\<close> of all tables. A table is the list of its rows in insertion
  order; timestamps are integers in seconds; \<open>None\<close> is SQL \<open>NULL\<close>.
\<close>

type_synonym time = int

section \<open>Jobs\<close>

datatype job_status =
    JQueued | JRunning | JPaused | JCompleted | JFailed | JCancelled | JSuperseded

definition claimable_job_statuses :: "job_status set" where
  "claimable_job_statuses = {JQueued}"

definition retryable_job_statuses :: "job_status set" where
  "retryable_job_statuses = {JFailed}"

definition cancellable_job_statuses :: "job_status set" where
  "cancellable_job_statuses = {JQueued, JRunning, JPaused}"

datatype job_event_type =
    EvCreated | EvClaimed | EvHeartbeat | EvPhaseChanged | EvProgressUpdated
  | EvCancelRequested | EvCancelAcknowledged | EvCompleted | EvFailed | EvCancelled
  | EvRetryScheduled | EvDocumentSkipped

datatype proposal_status = PropProposed | PropDismissed

datatype job_error =
    ErrTransientIo | ErrPermanent | ErrCapabilityUnavailable | ErrCancelledByOwner
  | ErrTimeout | ErrUnexpected

fun job_error_value :: "job_error \<Rightarrow> string" where
  "job_error_value ErrTransientIo = ''transient_io''"
| "job_error_value ErrPermanent = ''permanent''"
| "job_error_value ErrCapabilityUnavailable = ''capability_unavailable''"
| "job_error_value ErrCancelledByOwner = ''cancelled_by_owner''"
| "job_error_value ErrTimeout = ''timeout''"
| "job_error_value ErrUnexpected = ''unexpected''"

record mainai_job =
  j_id :: uuid
  j_owner :: uuid
  j_type :: string
  j_status :: job_status
  j_created_at :: time
  j_started_at :: "time option"
  j_last_heartbeat_at :: "time option"
  j_completed_at :: "time option"
  j_progress_current :: int
  j_progress_total :: "int option"
  j_current_phase :: "string option"
  j_public_message :: "string option"
  j_error_category :: "job_error option"
  j_retry_count :: int
  j_max_retries :: int
  j_input_refs :: "jdict list"
  j_output_refs :: "jdict list"
  j_locked_by :: "string option"
  j_lease_expires_at :: "time option"
  j_lease_generation :: int
  j_provider :: "string option"
  j_model :: "string option"
  j_cancel_requested :: bool
  j_cancel_acknowledged :: bool
  j_idempotency_key :: "string option"
  j_created_by :: string
  j_superseded_by :: "uuid option"

text \<open>An event row; its own primary key is a fresh UUID nothing reads, and is left out.\<close>

record job_event =
  ev_job :: uuid
  ev_owner :: uuid
  ev_type :: job_event_type
  ev_detail :: jdict
  ev_created_at :: time

record proposal =
  p_id :: uuid
  p_job :: uuid
  p_owner :: uuid
  p_source_document :: "uuid option"
  p_source_chunk :: "uuid option"
  p_type :: string
  p_text :: string
  p_status :: proposal_status
  p_created_at :: time

record audit_entry =
  au_user :: "uuid option"
  au_action :: string
  au_entity_type :: "string option"
  au_entity_id :: "string option"
  au_detail :: "string option"

section \<open>Documents\<close>

text \<open>
  \<open>IndexStatus\<close> has many pipeline states; the job runtime only asks whether a document is
  \<open>indexed\<close>, so every other state is carried by its name.
\<close>

datatype index_status = Indexed | NotIndexed string

record document =
  d_id :: uuid
  d_uploaded_by :: uuid
  d_deleted_at :: "time option"
  d_status :: index_status
  d_title :: string
  d_content_preview :: "string option"

record doc_chunk =
  dc_document :: uuid
  dc_owner :: uuid
  dc_index :: int
  dc_text :: string

section \<open>Goals, plans and tasks\<close>

datatype goal_status =
    GPending | GPlanning | GRunning | GWaiting | GBlocked | GFailed | GCompleted | GCancelled

definition active_goal_statuses :: "goal_status set" where
  "active_goal_statuses = {GPending, GPlanning, GRunning, GWaiting, GBlocked}"

definition terminal_goal_statuses :: "goal_status set" where
  "terminal_goal_statuses = {GFailed, GCompleted, GCancelled}"

datatype risk_level = RiskLow | RiskMedium | RiskHigh

datatype plan_status = PlanDraft | PlanActive | PlanSuperseded

datatype task_status =
    TPending | TReady | TRunning | TWaitingExternal | TWaitingCi | TBlocked
  | TRetryableFailed | TFailed | TCompleted | TCancelled

fun task_status_value :: "task_status \<Rightarrow> string" where
  "task_status_value TPending = ''pending''"
| "task_status_value TReady = ''ready''"
| "task_status_value TRunning = ''running''"
| "task_status_value TWaitingExternal = ''waiting_external''"
| "task_status_value TWaitingCi = ''waiting_ci''"
| "task_status_value TBlocked = ''blocked''"
| "task_status_value TRetryableFailed = ''retryable_failed''"
| "task_status_value TFailed = ''failed''"
| "task_status_value TCompleted = ''completed''"
| "task_status_value TCancelled = ''cancelled''"

definition terminal_task_statuses :: "task_status set" where
  "terminal_task_statuses = {TCompleted, TFailed, TCancelled}"

definition retryable_task_statuses :: "task_status set" where
  "retryable_task_statuses = {TRetryableFailed}"

datatype task_event_type =
    TeCreated | TeReady | TeDispatched | TeProgressUpdated | TeVerificationStarted
  | TeVerificationPassed | TeVerificationFailed | TeBlocked | TeReplanned | TeRetryScheduled
  | TeApprovalRequired | TeApprovalGranted | TeCompleted | TeFailed | TeCancelled
  | TeWaitStarted | TeWaitSatisfied | TeWaitFailed | TeWaitTimedOut | TeCancelRequested
  | TeCancelling | TeAutoRecoveryTriggered | TeLessonConflictDetected

record mainai_goal =
  g_id :: uuid
  g_owner :: uuid
  g_title :: string
  g_original_instruction :: string
  g_status :: goal_status
  g_created_at :: time
  g_started_at :: "time option"
  g_completed_at :: "time option"
  g_current_plan_version :: int
  g_risk :: risk_level
  g_approval_policy :: string
  g_final_outcome :: "json option"
  g_created_by :: string

record mainai_plan =
  pl_id :: uuid
  pl_goal :: uuid
  pl_owner :: uuid
  pl_version :: int
  pl_status :: plan_status
  pl_rationale :: string
  pl_created_by :: string

record mainai_task =
  t_id :: uuid
  t_goal :: uuid
  t_plan :: uuid
  t_owner :: uuid
  t_description :: string
  t_type :: string
  t_status :: task_status
  t_priority :: int
  t_risk :: risk_level
  t_approval_required :: bool
  t_verification_plan :: "json list"
  t_attempts :: int
  t_max_attempts :: int
  t_blocker_reason :: "string option"
  t_job :: "uuid option"
  t_created_at :: time
  t_started_at :: "time option"
  t_completed_at :: "time option"
  t_next_retry_at :: "time option"

record task_dependency =
  dep_task :: uuid
  dep_on :: uuid
  dep_owner :: uuid

record task_event =
  te_task :: uuid
  te_owner :: uuid
  te_type :: task_event_type
  te_detail :: jdict
  te_created_at :: time

record checkpoint =
  c_goal :: uuid
  c_task :: "uuid option"
  c_owner :: uuid
  c_plan_version :: int
  c_state :: jdict
  c_created_at :: time

section \<open>Waits and recovery\<close>

datatype wait_status = WPending | WSatisfied | WFailed | WTimedOut | WCancelled

record task_wait =
  w_id :: uuid
  w_task :: uuid
  w_owner :: uuid
  w_job :: uuid
  w_resource_ref :: jdict
  w_status :: wait_status
  w_poll_count :: int
  w_last_polled_at :: "time option"
  w_next_poll_at :: time
  w_backoff_seconds :: int
  w_deadline_at :: time
  w_evidence :: jdict
  w_created_at :: time
  w_resolved_at :: "time option"

datatype recovery_status =
    RDetected | RInspecting | RInspected | RClassified | RSalvaging | RSalvaged
  | RTakingOver | RTakenOver | RBlocked | RCompleted

datatype classification =
    NothingDone | CheckpointedWork | LocalUncommittedWork | LocalCommittedNotPushed
  | PushedNoPr | PrExists | VerifiedWork | ConflictedState | UnsafeToAutoRecover

fun classification_value :: "classification \<Rightarrow> string" where
  "classification_value NothingDone = ''NOTHING_DONE''"
| "classification_value CheckpointedWork = ''CHECKPOINTED_WORK''"
| "classification_value LocalUncommittedWork = ''LOCAL_UNCOMMITTED_WORK''"
| "classification_value LocalCommittedNotPushed = ''LOCAL_COMMITTED_NOT_PUSHED''"
| "classification_value PushedNoPr = ''PUSHED_NO_PR''"
| "classification_value PrExists = ''PR_EXISTS''"
| "classification_value VerifiedWork = ''VERIFIED_WORK''"
| "classification_value ConflictedState = ''CONFLICTED_STATE''"
| "classification_value UnsafeToAutoRecover = ''UNSAFE_TO_AUTO_RECOVER''"

definition auto_salvageable :: "classification set" where
  "auto_salvageable =
     {NothingDone, CheckpointedWork, LocalUncommittedWork, LocalCommittedNotPushed,
      PushedNoPr, PrExists, VerifiedWork}"

datatype recovery_event_type =
    ReStalledDetected | ReDeadDetected | ReRecoveryStarted | ReRecoveryInspected
  | ReRecoveryClassified | ReSalvageStarted | ReSalvageCompleted | ReTakeoverStarted
  | ReTakeoverCompleted | ReRecoveryBlocked | ReManualReviewRequired | ReApprovalGranted
  | ReTakeoverDeclinedGoverned

record recovery_record =
  r_id :: uuid
  r_task :: uuid
  r_owner :: uuid
  r_job :: uuid
  r_classification :: "classification option"
  r_evidence :: jdict
  r_salvage_action :: "string option"
  r_takeover_executor :: "string option"
  r_takeover_job :: "uuid option"
  r_status :: recovery_status
  r_blocker :: "string option"
  r_manual_review_required :: bool
  r_completed_at :: "time option"
  r_created_at :: time

record recovery_event =
  re_record :: uuid
  re_task :: uuid
  re_owner :: uuid
  re_type :: recovery_event_type
  re_detail :: jdict
  re_created_at :: time

section \<open>The database\<close>

text \<open>
  Execution-authorization envelopes are only ever asked for existence, so a row is its
  (owner, goal) pair.
\<close>

record db =
  jobs :: "mainai_job list"
  job_events :: "job_event list"
  proposals :: "proposal list"
  audits :: "audit_entry list"
  documents :: "document list"
  doc_chunks :: "doc_chunk list"
  goals :: "mainai_goal list"
  plans :: "mainai_plan list"
  tasks :: "mainai_task list"
  task_deps :: "task_dependency list"
  task_events :: "task_event list"
  checkpoints :: "checkpoint list"
  task_waits :: "task_wait list"
  recovery_records :: "recovery_record list"
  recovery_events :: "recovery_event list"
  envelopes :: "(uuid \<times> uuid) list"

definition empty_db :: db where
  "empty_db =
     \<lparr>jobs = [], job_events = [], proposals = [], audits = [], documents = [], doc_chunks = [],
      goals = [], plans = [], tasks = [], task_deps = [], task_events = [], checkpoints = [],
      task_waits = [], recovery_records = [], recovery_events = [], envelopes = []\<rparr>"

section \<open>Errors\<close>

text \<open>The exceptions of the runtime; those the database itself raises come last.\<close>

datatype ref_problem =
    NoRefs | RefCount nat | BadRef jdict | BadId json | Missing uuid | NotIndexedYet uuid
  | WrongTaskStatus uuid task_status | GoalMissing uuid | NeedsApproval uuid | RefsNotAllowed

datatype error =
    JobNotFound uuid
  | InvalidJobTransition job_status
  | RetryBudgetExhausted uuid int int
  | InvalidInputRefs ref_problem
  | IdempotencyConflict string uuid
  | CapabilityUnavailable string string
  | JobLeaseLost uuid string int
  | JobNotSupersedable uuid
  | JobNotDeclinable uuid
  | ProposalNotFound uuid
  | InvalidProposalTransition uuid
  | TaskNotFound uuid
  | TaskNotReady uuid task_status
  | TaskNotRetryable uuid task_status
  | TaskNotCancellable uuid task_status
  | ApprovalRequired uuid
  | GoalNotFound uuid
  | PlanValidation string
  | PlanCycle "nat list"
  | TakeoverFailed string
  | RecoveryApprovalRequired uuid classification
  | SalvageFailed string
  | WorktreeFailed string
  | KeyMissing string
  | RowMissing uuid
  | CheckViolation
  | UniqueViolation string
  | ForeignKeyViolation
  | MultipleRows

end
