(* ===== verification/JobLease.thy ===== *)
theory JobLease
  imports Store
begin

text \<open>
  \<open>app/jobs/mainai_job_lease.py\<close> over the \<open>mainai_jobs\<close> table: the table's own CHECK
  constraints and progress trigger (migrations 0026, 0028, 0029, 0034), the atomic UPDATE every
  operation is made of, the claim, heartbeat and takeover statements, and the relation
  \<open>evolves\<close> between two states of a row that all of them respect.
\<close>

section \<open>What the table itself enforces\<close>

definition checks_0026 :: "mainai_job \<Rightarrow> bool" where
  "checks_0026 j \<longleftrightarrow>
     0 \<le> j_progress_current j \<and>
     (case j_progress_total j of None \<Rightarrow> True | Some n \<Rightarrow> 0 \<le> n) \<and>
     0 \<le> j_retry_count j \<and> 0 \<le> j_max_retries j"

definition checks_0028 :: "mainai_job \<Rightarrow> bool" where
  "checks_0028 j \<longleftrightarrow>
     (case j_progress_total j of None \<Rightarrow> True | Some n \<Rightarrow> j_progress_current j \<le> n) \<and>
     (j_status j = JQueued \<or> j_started_at j \<noteq> None) \<and>
     j_retry_count j \<le> j_max_retries j"

definition terminal_job_status :: "job_status \<Rightarrow> bool" where
  "terminal_job_status s \<longleftrightarrow> s \<in> {JCompleted, JFailed, JCancelled, JSuperseded}"

definition checks_0034 :: "mainai_job \<Rightarrow> bool" where
  "checks_0034 j \<longleftrightarrow>
     (terminal_job_status (j_status j) \<longleftrightarrow> j_completed_at j \<noteq> None) \<and>
     (j_status j = JSuperseded \<longleftrightarrow> j_superseded_by j \<noteq> None)"

definition job_checks :: "mainai_job \<Rightarrow> bool" where
  "job_checks j \<longleftrightarrow> checks_0026 j \<and> checks_0028 j \<and> checks_0034 j"

text \<open>Migration 0029's BEFORE UPDATE trigger: progress only falls in a retry's reset to 0.\<close>

definition progress_trigger_ok :: "mainai_job \<Rightarrow> mainai_job \<Rightarrow> bool" where
  "progress_trigger_ok old new \<longleftrightarrow>
     \<not> j_progress_current new < j_progress_current old \<or>
     (j_status old = JFailed \<and> j_status new = JQueued \<and> j_progress_current new = 0)"

text \<open>
  One UPDATE statement: every matching row is rewritten, or, when a rewritten row violates a
  constraint, the statement raises and nothing is written. The result carries the row count.
\<close>

definition job_update_ok :: "db \<Rightarrow> mainai_job \<Rightarrow> mainai_job \<Rightarrow> bool" where
  "job_update_ok d old new \<longleftrightarrow> progress_trigger_ok old new \<and> job_checks new"

definition superseded_fk_ok :: "db \<Rightarrow> mainai_job \<Rightarrow> bool" where
  "superseded_fk_ok d new \<longleftrightarrow>
     (case j_superseded_by new of None \<Rightarrow> True | Some i \<Rightarrow> i \<in> j_id ` set (jobs d))"

definition sql_update_jobs ::
  "(mainai_job \<Rightarrow> bool) \<Rightarrow> (mainai_job \<Rightarrow> mainai_job) \<Rightarrow> db \<Rightarrow> error + (db \<times> nat)" where
  "sql_update_jobs p f d =
     (let hit = filter p (jobs d)
      in if \<not> list_all (\<lambda>j. job_update_ok d j (f j)) hit then Inl CheckViolation
         else if \<not> list_all (\<lambda>j. superseded_fk_ok d (f j)) hit then Inl ForeignKeyViolation
         else Inr (d\<lparr>jobs := update_rows p f (jobs d)\<rparr>, length hit))"

lemma sql_update_jobs_Inr_iff:
  "sql_update_jobs p f d = Inr (d', n) \<longleftrightarrow>
     (\<forall>j\<in>set (jobs d). p j \<longrightarrow> job_update_ok d j (f j) \<and> superseded_fk_ok d (f j)) \<and>
     d' = d\<lparr>jobs := update_rows p f (jobs d)\<rparr> \<and> n = length (filter p (jobs d))"
  by (auto simp: sql_update_jobs_def Let_def list_all_iff)

section \<open>Claiming\<close>

definition lease_expired :: "time \<Rightarrow> mainai_job \<Rightarrow> bool" where
  "lease_expired now j \<longleftrightarrow> (case j_lease_expires_at j of None \<Rightarrow> False | Some e \<Rightarrow> e < now)"

definition mainai_claimable :: "time \<Rightarrow> uuid set \<Rightarrow> mainai_job \<Rightarrow> bool" where
  "mainai_claimable now locked j \<longleftrightarrow>
     (j_status j \<in> claimable_job_statuses \<or>
      (j_status j = JRunning \<and> lease_expired now j \<and> j_type j \<noteq> ''task_execution'')) \<and>
     j_id j \<notin> locked"

definition claim_set :: "time \<Rightarrow> string \<Rightarrow> int \<Rightarrow> mainai_job \<Rightarrow> mainai_job" where
  "claim_set now worker secs j =
     j\<lparr>j_status := JRunning,
       j_locked_by := Some worker,
       j_lease_generation := j_lease_generation j + 1,
       j_lease_expires_at := Some (now + secs),
       j_last_heartbeat_at := Some now,
       j_started_at := (case j_started_at j of None \<Rightarrow> Some now | Some t \<Rightarrow> Some t)\<rparr>"

text \<open>
  \<open>locked\<close> are the rows another transaction holds (SKIP LOCKED passes over them). Where two
  rows tie on \<open>created_at\<close> the statement may take either; the model takes the first.
\<close>

definition claim_next_mainai_job ::
  "time \<Rightarrow> uuid set \<Rightarrow> string \<Rightarrow> int \<Rightarrow> db \<Rightarrow> error + (db \<times> (uuid \<times> uuid \<times> int) option)" where
  "claim_next_mainai_job now locked worker secs d =
     (case first_min j_created_at (filter (mainai_claimable now locked) (jobs d)) of
        None \<Rightarrow> Inr (d, None)
      | Some j \<Rightarrow>
          sbind (sql_update_jobs (\<lambda>r. j_id r = j_id j) (claim_set now worker secs) d)
            (\<lambda>(d', n). Inr (d', Some (j_id j, j_owner j, j_lease_generation j + 1))))"

definition claim_specific_mainai_job ::
  "time \<Rightarrow> uuid \<Rightarrow> string \<Rightarrow> int \<Rightarrow> db \<Rightarrow> error + (db \<times> int option)" where
  "claim_specific_mainai_job now jid worker secs d =
     (let p = (\<lambda>r. j_id r = jid \<and> j_status r \<in> claimable_job_statuses)
      in case find_row p (jobs d) of
           None \<Rightarrow> Inr (d, None)
         | Some j \<Rightarrow>
             sbind (sql_update_jobs p (claim_set now worker secs) d)
               (\<lambda>(d', n). Inr (d', Some (j_lease_generation j + 1))))"

section \<open>The fencing check\<close>

text \<open>
  The WHERE clause of every worker-driven write: this worker, this generation, still running.
\<close>

definition holds_claim :: "uuid \<Rightarrow> string \<Rightarrow> int \<Rightarrow> mainai_job \<Rightarrow> bool" where
  "holds_claim jid worker gen j \<longleftrightarrow>
     j_id j = jid \<and> j_locked_by j = Some worker \<and> j_lease_generation j = gen \<and>
     j_status j = JRunning"

definition renew_mainai_job_lease ::
  "time \<Rightarrow> uuid \<Rightarrow> string \<Rightarrow> int \<Rightarrow> int \<Rightarrow> db \<Rightarrow> error + db" where
  "renew_mainai_job_lease now jid worker gen secs d =
     sbind (sql_update_jobs (holds_claim jid worker gen)
              (\<lambda>j. j\<lparr>j_lease_expires_at := Some (now + secs), j_last_heartbeat_at := Some now\<rparr>) d)
       (\<lambda>(d', n). if n = 0 then Inl (JobLeaseLost jid worker gen) else Inr d')"

section \<open>Retiring a dead job\<close>

definition taking_over :: "db \<Rightarrow> uuid \<Rightarrow> bool" where
  "taking_over d jid \<longleftrightarrow>
     list_ex (\<lambda>r. r_job r = jid \<and> r_status r = RTakingOver) (recovery_records d)"

definition dead_job :: "time \<Rightarrow> db \<Rightarrow> uuid \<Rightarrow> mainai_job \<Rightarrow> bool" where
  "dead_job now d jid j \<longleftrightarrow>
     j_id j = jid \<and>
     ((j_status j = JRunning \<and> lease_expired now j) \<or>
      (j_status j \<in> {JFailed, JCompleted, JCancelled} \<and> taking_over d jid))"

definition coalesce_now :: "time \<Rightarrow> time option \<Rightarrow> time option" where
  "coalesce_now now t = (case t of None \<Rightarrow> Some now | Some s \<Rightarrow> Some s)"

definition mark_job_superseded :: "time \<Rightarrow> uuid \<Rightarrow> uuid \<Rightarrow> db \<Rightarrow> error + db" where
  "mark_job_superseded now jid by d =
     sbind (sql_update_jobs (dead_job now d jid)
              (\<lambda>j. j\<lparr>j_status := JSuperseded,
                     j_completed_at := coalesce_now now (j_completed_at j),
                     j_superseded_by := Some by\<rparr>) d)
       (\<lambda>(d', n). if n = 0 then Inl (JobNotSupersedable jid) else Inr d')"

definition mark_job_failed_after_governed_recovery_decline ::
  "time \<Rightarrow> uuid \<Rightarrow> db \<Rightarrow> error + db" where
  "mark_job_failed_after_governed_recovery_decline now jid d =
     sbind (sql_update_jobs (dead_job now d jid)
              (\<lambda>j. j\<lparr>j_status := JFailed,
                     j_completed_at := coalesce_now now (j_completed_at j),
                     j_error_category := Some ErrPermanent\<rparr>) d)
       (\<lambda>(d', n). if n = 0 then Inl (JobNotDeclinable jid) else Inr d')"

section \<open>The lifecycle of a row\<close>

text \<open>
  The status changes the runtime makes, and what a row keeps through every one of them. A
  generation grows by one exactly when a claim takes the row; without a claim, a row that is
  \<open>running\<close> was already running under the same worker.
\<close>

fun job_transition :: "job_status \<Rightarrow> job_status \<Rightarrow> bool" where
  "job_transition JQueued t = (t \<in> {JQueued, JRunning})"
| "job_transition JRunning t = (t \<in> {JRunning, JCompleted, JFailed, JCancelled, JSuperseded})"
| "job_transition JFailed t = (t \<in> {JFailed, JQueued, JSuperseded})"
| "job_transition JCompleted t = (t \<in> {JCompleted, JFailed, JSuperseded})"
| "job_transition JCancelled t = (t \<in> {JCancelled, JFailed, JSuperseded})"
| "job_transition JPaused t = (t = JPaused)"
| "job_transition JSuperseded t = (t = JSuperseded)"

definition evolves :: "mainai_job \<Rightarrow> mainai_job \<Rightarrow> bool" where
  "evolves j j' \<longleftrightarrow>
     j_id j' = j_id j \<and> j_owner j' = j_owner j \<and> j_type j' = j_type j \<and>
     j_created_at j' = j_created_at j \<and> j_input_refs j' = j_input_refs j \<and>
     j_idempotency_key j' = j_idempotency_key j \<and> j_max_retries j' = j_max_retries j \<and>
     job_transition (j_status j) (j_status j') \<and>
     j_retry_count j \<le> j_retry_count j' \<and>
     (j_started_at j = None \<or> j_started_at j' = j_started_at j) \<and>
     (j_lease_generation j' = j_lease_generation j + 1 \<and> j_status j' = JRunning \<and>
        (j_status j = JQueued \<or> j_type j \<noteq> ''task_execution'') \<or>
      j_lease_generation j' = j_lease_generation j \<and>
        (j_status j' = JRunning \<longrightarrow> j_status j = JRunning \<and> j_locked_by j' = j_locked_by j))"

definition jobs_evolve :: "mainai_job list \<Rightarrow> mainai_job list \<Rightarrow> bool" where
  "jobs_evolve js js' \<longleftrightarrow> (\<exists>new. list_all2 evolves js (take (length js) js') \<and>
     js' = take (length js) js' @ new \<and> (\<forall>j\<in>set new. j_status j = JQueued))"

lemma job_transition_refl [simp]: "job_transition s s"
  by (cases s) simp_all

lemma evolves_refl [simp]: "evolves j j"
  by (simp add: evolves_def)

lemma list_all2_evolves_refl [simp]: "list_all2 evolves js js"
  by (simp add: list_all2_same)

lemma jobs_evolve_refl [simp]: "jobs_evolve js js"
  by (simp add: jobs_evolve_def)

lemma jobs_evolve_update:
  assumes "\<And>j. j \<in> set js \<Longrightarrow> p j \<Longrightarrow> evolves j (f j)"
  shows "jobs_evolve js (update_rows p f js)"
proof -
  have "list_all2 evolves js (update_rows p f js)"
    using assms by (induction js) auto
  then show ?thesis by (simp add: jobs_evolve_def)
qed

lemma jobs_evolve_append: "j_status j = JQueued \<Longrightarrow> jobs_evolve js (js @ [j])"
  by (simp add: jobs_evolve_def)

lemma list_all2_find:
  assumes "list_all2 evolves js js'" and "find_row (\<lambda>r. j_id r = k) js = Some j"
  shows "\<exists>j'. find_row (\<lambda>r. j_id r = k) (js' @ new) = Some j' \<and> evolves j j'"
  using assms by (induction rule: list_all2_induct) (auto split: if_splits simp: evolves_def)

lemma jobs_evolve_find:
  assumes "jobs_evolve js js'" and "find_row (\<lambda>r. j_id r = k) js = Some j"
  obtains j' where "find_row (\<lambda>r. j_id r = k) js' = Some j'" and "evolves j j'"
proof -
  from assms(1) obtain new where all: "list_all2 evolves js (take (length js) js')"
    and js': "js' = take (length js) js' @ new" by (auto simp: jobs_evolve_def)
  from list_all2_find [OF all assms(2), of new] show ?thesis
    unfolding js' [symmetric] using that by auto
qed

lemma list_all2_origin:
  assumes "list_all2 evolves js js'" and "j' \<in> set js'"
  shows "\<exists>j\<in>set js. evolves j j'"
  using assms by (metis in_set_conv_nth list_all2_conv_all_nth)

text \<open>A row of the later table is an earlier row evolved, or a new one, which is queued.\<close>

lemma jobs_evolve_origin:
  assumes "jobs_evolve js js'" and "j' \<in> set js'"
  shows "(\<exists>j\<in>set js. evolves j j') \<or> j_status j' = JQueued"
proof -
  from assms(1) obtain new where all: "list_all2 evolves js (take (length js) js')"
    and js': "js' = take (length js) js' @ new" and q: "\<forall>j\<in>set new. j_status j = JQueued"
    by (auto simp: jobs_evolve_def)
  from assms(2) have "j' \<in> set (take (length js) js') \<or> j' \<in> set new"
    by (subst (asm) js') auto
  with list_all2_origin [OF all] q show ?thesis by blast
qed

lemma jobs_evolve_row:
  assumes "jobs_evolve js js'" and "j \<in> set js"
  obtains j' where "j' \<in> set js'" and "evolves j j'"
proof -
  from assms(1) have "list_all2 evolves js (take (length js) js')"
    by (auto simp: jobs_evolve_def)
  with assms(2) obtain j' where "j' \<in> set (take (length js) js')" and "evolves j j'"
    by (metis in_set_conv_nth list_all2_conv_all_nth)
  then show ?thesis using that in_set_takeD by fastforce
qed

subsection \<open>Every lease operation respects it\<close>

lemma evolves_claim:
  assumes "j_status j = JQueued \<or> j_status j = JRunning \<and> j_type j \<noteq> ''task_execution''"
  shows "evolves j (claim_set now worker secs j)"
  using assms by (auto simp: evolves_def claim_set_def split: option.splits)

lemma sql_update_evolves:
  assumes "sql_update_jobs p f d = Inr (d', n)"
    and "\<And>j. j \<in> set (jobs d) \<Longrightarrow> p j \<Longrightarrow> evolves j (f j)"
  shows "jobs_evolve (jobs d) (jobs d')"
  using assms by (auto simp: sql_update_jobs_Inr_iff intro: jobs_evolve_update)

lemma first_claimable:
  assumes "first_min j_created_at (filter (mainai_claimable now locked) (jobs d)) = Some j"
  shows "j \<in> set (jobs d)" and "mainai_claimable now locked j"
    and "\<And>i. i \<in> set (jobs d) \<Longrightarrow> mainai_claimable now locked i \<Longrightarrow> j_created_at j \<le> j_created_at i"
  using first_min_in [OF assms] first_min_le [OF assms] by auto

lemma claim_next_cases:
  assumes "claim_next_mainai_job now locked worker secs d = Inr (d', r)"
  obtains "r = None" and "d' = d" and "\<forall>j\<in>set (jobs d). \<not> mainai_claimable now locked j"
  | j where "j \<in> set (jobs d)" and "mainai_claimable now locked j"
      and "first_min j_created_at (filter (mainai_claimable now locked) (jobs d)) = Some j"
      and "r = Some (j_id j, j_owner j, j_lease_generation j + 1)"
      and "d' = d\<lparr>jobs := update_rows (\<lambda>i. j_id i = j_id j) (claim_set now worker secs) (jobs d)\<rparr>"
proof (cases "first_min j_created_at (filter (mainai_claimable now locked) (jobs d))")
  case None
  with assms that(1) show ?thesis
    by (auto simp: claim_next_mainai_job_def filter_empty_conv)
next
  case (Some j)
  with assms that(2) [OF first_claimable(1,2) [OF Some] Some] show ?thesis
    by (auto simp: claim_next_mainai_job_def err_simps sql_update_jobs_Inr_iff)
qed

lemma claim_next_evolves:
  assumes "unique_key j_id (jobs d)"
    and "claim_next_mainai_job now locked worker secs d = Inr (d', r)"
  shows "jobs_evolve (jobs d) (jobs d')"
  using assms(2)
proof (cases rule: claim_next_cases)
  case 1
  then show ?thesis by simp
next
  case (2 j)
  have "evolves i (claim_set now worker secs i)" if "i \<in> set (jobs d)" "j_id i = j_id j" for i
  proof -
    from assms(1) that 2(1) have "i = j" by (blast intro: unique_key_eqD)
    with 2(2) show ?thesis
      by (intro evolves_claim) (auto simp: mainai_claimable_def claimable_job_statuses_def)
  qed
  with 2(5) show ?thesis by (auto intro: jobs_evolve_update)
qed

lemma claim_specific_cases:
  assumes "claim_specific_mainai_job now jid worker secs d = Inr (d', r)"
  obtains "r = None" and "d' = d"
  | j where "j \<in> set (jobs d)" and "j_id j = jid" and "j_status j = JQueued"
      and "r = Some (j_lease_generation j + 1)"
      and "d' = d\<lparr>jobs := update_rows (\<lambda>i. j_id i = jid \<and> j_status i \<in> claimable_job_statuses)
                  (claim_set now worker secs) (jobs d)\<rparr>"
proof (cases "find_row (\<lambda>r. j_id r = jid \<and> j_status r \<in> claimable_job_statuses) (jobs d)")
  case None
  with assms that(1) show ?thesis by (simp add: claim_specific_mainai_job_def)
next
  case (Some j)
  then have "j \<in> set (jobs d)" "j_id j = jid" "j_status j = JQueued"
    by (auto dest: find_row_SomeD simp: claimable_job_statuses_def)
  with assms that(2) Some show ?thesis
    by (auto simp: claim_specific_mainai_job_def err_simps sql_update_jobs_Inr_iff)
qed

lemma claim_specific_evolves:
  assumes "claim_specific_mainai_job now jid worker secs d = Inr (d', r)"
  shows "jobs_evolve (jobs d) (jobs d')"
  using assms
  by (cases rule: claim_specific_cases)
    (auto intro!: jobs_evolve_update evolves_claim simp: claimable_job_statuses_def)

lemma renew_Inr_iff:
  "renew_mainai_job_lease now jid worker gen secs d = Inr d' \<longleftrightarrow>
     (\<exists>n. sql_update_jobs (holds_claim jid worker gen)
        (\<lambda>j. j\<lparr>j_lease_expires_at := Some (now + secs), j_last_heartbeat_at := Some now\<rparr>) d =
        Inr (d', n) \<and> 0 < n)"
  by (auto simp: renew_mainai_job_lease_def err_simps split: if_splits)

lemma renew_evolves:
  "renew_mainai_job_lease now jid worker gen secs d = Inr d' \<Longrightarrow> jobs_evolve (jobs d) (jobs d')"
  by (auto simp: renew_Inr_iff intro!: sql_update_evolves simp: evolves_def)

lemma dead_job_transition:
  "dead_job now d jid j \<Longrightarrow> job_transition (j_status j) JSuperseded \<and> job_transition (j_status j) JFailed"
  by (auto simp: dead_job_def)

lemma superseded_evolves:
  "mark_job_superseded now jid by d = Inr d' \<Longrightarrow> jobs_evolve (jobs d) (jobs d')"
  by (auto simp: mark_job_superseded_def err_simps evolves_def dest: dead_job_transition
      split: if_splits intro!: sql_update_evolves)

lemma declined_evolves:
  "mark_job_failed_after_governed_recovery_decline now jid d = Inr d' \<Longrightarrow>
     jobs_evolve (jobs d) (jobs d')"
  by (auto simp: mark_job_failed_after_governed_recovery_decline_def err_simps evolves_def
      dest: dead_job_transition split: if_splits intro!: sql_update_evolves)

end
