(* ===== verification/Capability.thy ===== *)
theory Capability
  imports Store
begin

text \<open>
  The capability policy of \<open>app/mainai_runtime_contract.py\<close>: which job types exist, which
  provider role each needs, what each writes, and the one check (\<open>require_capability\<close>) that job
  creation and job execution share. What the deployment provides (whether a provider role
  resolves to a configured provider, and whether the environment is production) is the
  record \<open>runtime_env\<close>.
\<close>

record runtime_env =
  role_configured :: "string \<Rightarrow> bool"
  in_production :: bool

definition capability_manifest :: "string set" where
  "capability_manifest =
     {''corpus_review'', ''message_sequence_backfill'', ''message_source_backfill'',
      ''task_execution''}"

text \<open>
  \<open>Some None\<close> is a capability reviewed as needing no provider; a missing entry is \<open>None\<close> and
  fails closed.
\<close>

definition capability_provider_role :: "string \<Rightarrow> string option option" where
  "capability_provider_role c =
     map_of [(''corpus_review'', Some ''chat''),
             (''message_sequence_backfill'', None),
             (''message_source_backfill'', None),
             (''task_execution'', Some ''chat'')] c"

record write_profile =
  wp_modifies_existing_data :: bool
  wp_writes_new_records :: bool
  wp_sandbox_only :: bool
  wp_production_prohibited :: bool

definition capability_write_profile :: "string \<Rightarrow> write_profile option" where
  "capability_write_profile c =
     map_of [(''corpus_review'', \<lparr>wp_modifies_existing_data = False, wp_writes_new_records = True,
                wp_sandbox_only = False, wp_production_prohibited = False\<rparr>),
             (''message_sequence_backfill'', \<lparr>wp_modifies_existing_data = True,
                wp_writes_new_records = False, wp_sandbox_only = False,
                wp_production_prohibited = False\<rparr>),
             (''message_source_backfill'', \<lparr>wp_modifies_existing_data = False,
                wp_writes_new_records = True, wp_sandbox_only = False,
                wp_production_prohibited = False\<rparr>),
             (''task_execution'', \<lparr>wp_modifies_existing_data = False,
                wp_writes_new_records = True, wp_sandbox_only = False,
                wp_production_prohibited = False\<rparr>)] c"

record capability_status =
  cs_capability :: string
  cs_implemented :: bool
  cs_configured :: bool
  cs_currently_available :: bool
  cs_modifies_existing_data :: "bool option"
  cs_writes_new_records :: "bool option"
  cs_sandbox_only :: "bool option"
  cs_production_prohibited :: "bool option"
  cs_requires_user_action :: bool
  cs_unavailable_reason :: "string option"

definition get_capability_status :: "runtime_env \<Rightarrow> string \<Rightarrow> capability_status" where
  "get_capability_status env c =
     (if c \<notin> capability_manifest then
        \<lparr>cs_capability = c, cs_implemented = False, cs_configured = False,
         cs_currently_available = False, cs_modifies_existing_data = None,
         cs_writes_new_records = None, cs_sandbox_only = None, cs_production_prohibited = None,
         cs_requires_user_action = False, cs_unavailable_reason = Some ''not_implemented''\<rparr>
      else
        let configured = (case capability_provider_role c of
                            None \<Rightarrow> False
                          | Some None \<Rightarrow> True
                          | Some (Some role) \<Rightarrow> role_configured env role);
            profile = capability_write_profile c;
            sandbox = (case profile of None \<Rightarrow> False | Some w \<Rightarrow> wp_sandbox_only w);
            prohibited = (case profile of None \<Rightarrow> False | Some w \<Rightarrow> wp_production_prohibited w);
            reason = (if \<not> configured then Some ''not_configured''
                      else if in_production env \<and> prohibited then Some ''production_prohibited''
                      else if in_production env \<and> sandbox then Some ''sandbox_only''
                      else None)
        in \<lparr>cs_capability = c, cs_implemented = True, cs_configured = configured,
            cs_currently_available = (configured \<and> reason = None),
            cs_modifies_existing_data = map_option wp_modifies_existing_data profile,
            cs_writes_new_records = map_option wp_writes_new_records profile,
            cs_sandbox_only = map_option wp_sandbox_only profile,
            cs_production_prohibited = map_option wp_production_prohibited profile,
            cs_requires_user_action = (\<not> configured), cs_unavailable_reason = reason\<rparr>)"

definition require_capability :: "runtime_env \<Rightarrow> string \<Rightarrow> error + unit" where
  "require_capability env c =
     (let s = get_capability_status env c
      in if cs_currently_available s then Inr ()
         else Inl (CapabilityUnavailable c
                (case cs_unavailable_reason s of None \<Rightarrow> ''not_implemented'' | Some r \<Rightarrow> r)))"

text \<open>
  The policy in one line: a listed capability runs exactly when it needs no provider or its
  role is configured, and every refusal names a reason.
\<close>

lemma require_capability_Inr_iff:
  "require_capability env c = Inr () \<longleftrightarrow>
     c \<in> {''message_sequence_backfill'', ''message_source_backfill''} \<or>
     c \<in> {''corpus_review'', ''task_execution''} \<and> role_configured env ''chat''"
  unfolding require_capability_def get_capability_status_def capability_manifest_def
    capability_provider_role_def capability_write_profile_def Let_def
  by auto

lemma require_capability_cases:
  "require_capability env c = Inr () \<or>
   require_capability env c = Inl (CapabilityUnavailable c ''not_implemented'') \<and>
     c \<notin> capability_manifest \<or>
   require_capability env c = Inl (CapabilityUnavailable c ''not_configured'') \<and>
     c \<in> {''corpus_review'', ''task_execution''} \<and> \<not> role_configured env ''chat''"
  unfolding require_capability_def get_capability_status_def capability_manifest_def
    capability_provider_role_def capability_write_profile_def Let_def
  by auto

end
