(* ===== verification/Approval.thy ===== *)
theory Approval
  imports Store
begin

text \<open>
  The two approval gates: \<open>app/mainai_execution/approval.py\<close> (may this task be dispatched) and
  \<open>app/mainai_execution/recovery_approval.py\<close> (may this dead job be taken over). Both look a
  named policy up, fail closed on anything the policy does not know, and are satisfied only by
  an \<open>approval_granted\<close> event that nothing but the grant operation appends.
\<close>

section \<open>Task approval\<close>

definition approval_policies :: "string \<Rightarrow> (string \<Rightarrow> bool option) option" where
  "approval_policies name =
     map_of [(''standard_repo_work'',
                map_of [(''read_only_audit'', False), (''repo_edit'', False),
                        (''run_tests'', False), (''open_pr'', False)]),
             (''autonomous_development_work'',
                map_of [(''read_only_audit'', False), (''repo_edit'', True),
                        (''run_tests'', False), (''open_pr'', True)])] name"

definition requires_approval :: "string \<Rightarrow> string \<Rightarrow> bool \<Rightarrow> bool" where
  "requires_approval policy_name task_type task_approval_required =
     (if task_approval_required then True
      else case approval_policies policy_name of
             None \<Rightarrow> True
           | Some policy \<Rightarrow> (case policy task_type of None \<Rightarrow> True | Some b \<Rightarrow> b))"

definition approval_granted :: "db \<Rightarrow> uuid \<Rightarrow> bool" where
  "approval_granted d tid \<longleftrightarrow>
     list_ex (\<lambda>e. te_task e = tid \<and> te_type e = TeApprovalGranted) (task_events d)"

definition require_task_approval :: "db \<Rightarrow> mainai_task \<Rightarrow> string \<Rightarrow> error + unit" where
  "require_task_approval d t policy =
     (if \<not> requires_approval policy (t_type t) (t_approval_required t) then Inr ()
      else ensure (approval_granted d (t_id t)) (ApprovalRequired (t_id t)))"

definition grant_task_approval :: "time \<Rightarrow> mainai_task \<Rightarrow> string \<Rightarrow> db \<Rightarrow> db" where
  "grant_task_approval now t approved_by d =
     d\<lparr>task_events := task_events d @
        [\<lparr>te_task = t_id t, te_owner = t_owner t, te_type = TeApprovalGranted,
          te_detail = [(''approved_by'', JStr approved_by)], te_created_at = now\<rparr>]\<rparr>"

lemma require_task_approval_Inr_iff:
  "require_task_approval d t policy = Inr () \<longleftrightarrow>
     (requires_approval policy (t_type t) (t_approval_required t) \<longrightarrow> approval_granted d (t_id t))"
  by (simp add: require_task_approval_def)

lemma require_task_approval_Inl_iff:
  "require_task_approval d t policy = Inl e \<longleftrightarrow>
     requires_approval policy (t_type t) (t_approval_required t) \<and>
     \<not> approval_granted d (t_id t) \<and> e = ApprovalRequired (t_id t)"
  by (auto simp: require_task_approval_def)

lemma approval_granted_append [simp]:
  "approval_granted (d\<lparr>task_events := task_events d @ es\<rparr>) tid \<longleftrightarrow>
     approval_granted d tid \<or> list_ex (\<lambda>e. te_task e = tid \<and> te_type e = TeApprovalGranted) es"
  by (auto simp: approval_granted_def)

lemma grant_task_approval_satisfies:
  "require_task_approval (grant_task_approval now t who d) t policy = Inr ()"
  by (simp add: require_task_approval_Inr_iff grant_task_approval_def)

lemma requires_approval_unknown_policy:
  "p \<notin> {''standard_repo_work'', ''autonomous_development_work''} \<Longrightarrow> requires_approval p ty b"
  by (simp add: requires_approval_def approval_policies_def)

lemma requires_approval_unknown_type:
  "ty \<notin> {''read_only_audit'', ''repo_edit'', ''run_tests'', ''open_pr''} \<Longrightarrow>
     requires_approval p ty b"
  by (simp add: requires_approval_def approval_policies_def)

section \<open>Recovery approval\<close>

definition recovery_approval_policies :: "string \<Rightarrow> (string \<Rightarrow> bool option) option" where
  "recovery_approval_policies name =
     map_of [(''standard_recovery'',
                map_of [(''NOTHING_DONE'', False), (''CHECKPOINTED_WORK'', False),
                        (''LOCAL_UNCOMMITTED_WORK'', False),
                        (''LOCAL_COMMITTED_NOT_PUSHED'', False),
                        (''VERIFIED_WORK'', False), (''PUSHED_NO_PR'', True),
                        (''PR_EXISTS'', True), (''CONFLICTED_STATE'', True),
                        (''UNSAFE_TO_AUTO_RECOVER'', True)])] name"

definition recovery_requires_approval :: "string \<Rightarrow> classification \<Rightarrow> bool" where
  "recovery_requires_approval policy_name c =
     (case recovery_approval_policies policy_name of
        None \<Rightarrow> True
      | Some policy \<Rightarrow> (case policy (classification_value c) of None \<Rightarrow> True | Some b \<Rightarrow> b))"

definition recovery_approval_granted :: "db \<Rightarrow> uuid \<Rightarrow> bool" where
  "recovery_approval_granted d rid \<longleftrightarrow>
     list_ex (\<lambda>e. re_record e = rid \<and> re_type e = ReApprovalGranted) (recovery_events d)"

definition require_recovery_approval :: "db \<Rightarrow> recovery_record \<Rightarrow> string \<Rightarrow> error + unit" where
  "require_recovery_approval d r policy_name =
     (case r_classification r of
        None \<Rightarrow> Inr ()
      | Some c \<Rightarrow>
          if \<not> recovery_requires_approval policy_name c then Inr ()
          else ensure (recovery_approval_granted d (r_id r)) (RecoveryApprovalRequired (r_id r) c))"

definition grant_recovery_approval :: "time \<Rightarrow> recovery_record \<Rightarrow> string \<Rightarrow> db \<Rightarrow> db" where
  "grant_recovery_approval now r approved_by d =
     d\<lparr>recovery_events := recovery_events d @
        [\<lparr>re_record = r_id r, re_task = r_task r, re_owner = r_owner r,
          re_type = ReApprovalGranted, re_detail = [(''approved_by'', JStr approved_by)],
          re_created_at = now\<rparr>]\<rparr>"

lemma standard_recovery_requires_approval_iff:
  "recovery_requires_approval ''standard_recovery'' c \<longleftrightarrow>
     c \<in> {PushedNoPr, PrExists, ConflictedState, UnsafeToAutoRecover}"
  by (cases c) (simp_all add: recovery_requires_approval_def recovery_approval_policies_def)

lemma recovery_unknown_policy_requires:
  "p \<noteq> ''standard_recovery'' \<Longrightarrow> recovery_requires_approval p c"
  by (simp add: recovery_requires_approval_def recovery_approval_policies_def)

end
