(* ===== verification/JobService.thy ===== *)
theory JobService
  imports JobLease Capability Approval "HOL-Library.Multiset" "HOL-Library.Product_Lexorder"
begin

text \<open>
  \<open>app/jobs/service.py\<close>, the domain service of \<open>mainai_jobs\<close>: creation with its idempotency
  key, the owner's cancel and retry, listing, and the worker-driven writes that all go through
  the fencing gate \<open>guarded_job_write\<close>. An operation takes the clock reading \<open>now\<close> and the
  database and returns the database it commits, or the exception it raises, in which case
  nothing was written. \<open>ctx\<close> is the owner the session is scoped to by row-level security
  (\<open>None\<close>: the migration role, which sees every row). Error messages shown to users are
  modelled (\<open>public_error_message\<close>); texts of raised exceptions are not.
\<close>

section \<open>Public messages, events and audit\<close>

text \<open>The source's dash is U+2014, here as its three UTF-8 bytes.\<close>

definition em_dash :: string where
  "em_dash = [char_of (226::nat), char_of (128::nat), char_of (148::nat)]"

fun public_error_message :: "job_error \<Rightarrow> string" where
  "public_error_message ErrTransientIo =
     ''A temporary error occurred. This job will not retry automatically '' @ em_dash @
     '' use retry.''"
| "public_error_message ErrPermanent =
     ''This job could not complete due to a permanent error and cannot be retried.''"
| "public_error_message ErrCapabilityUnavailable =
     ''The requested capability is not currently available.''"
| "public_error_message ErrCancelledByOwner = ''This job was cancelled.''"
| "public_error_message ErrTimeout = ''This job did not complete in time.''"
| "public_error_message ErrUnexpected =
     ''An unexpected error occurred while processing this job.''"

definition record_event :: "time \<Rightarrow> mainai_job \<Rightarrow> job_event_type \<Rightarrow> jdict \<Rightarrow> db \<Rightarrow> db" where
  "record_event now j ty detail d =
     d\<lparr>job_events := job_events d @
        [\<lparr>ev_job = j_id j, ev_owner = j_owner j, ev_type = ty, ev_detail = detail,
          ev_created_at = now\<rparr>]\<rparr>"

definition record_audit :: "uuid option \<Rightarrow> string \<Rightarrow> uuid \<Rightarrow> string option \<Rightarrow> db \<Rightarrow> db" where
  "record_audit user action entity detail d =
     d\<lparr>audits := audits d @
        [\<lparr>au_user = user, au_action = action, au_entity_type = Some ''mainai_job'',
          au_entity_id = Some (uuid_str entity), au_detail = detail\<rparr>]\<rparr>"

lemma record_event_frame [simp]:
  "jobs (record_event now j ty dt d) = jobs d"
  "tasks (record_event now j ty dt d) = tasks d"
  "task_events (record_event now j ty dt d) = task_events d"
  "goals (record_event now j ty dt d) = goals d"
  "proposals (record_event now j ty dt d) = proposals d"
  "recovery_records (record_event now j ty dt d) = recovery_records d"
  "documents (record_event now j ty dt d) = documents d"
  "audits (record_event now j ty dt d) = audits d"
  "job_events (record_event now j ty dt d) = job_events d @
     [\<lparr>ev_job = j_id j, ev_owner = j_owner j, ev_type = ty, ev_detail = dt, ev_created_at = now\<rparr>]"
  by (simp_all add: record_event_def)

lemma record_audit_frame [simp]:
  "jobs (record_audit u a e dt d) = jobs d"
  "tasks (record_audit u a e dt d) = tasks d"
  "task_events (record_audit u a e dt d) = task_events d"
  "goals (record_audit u a e dt d) = goals d"
  "proposals (record_audit u a e dt d) = proposals d"
  "recovery_records (record_audit u a e dt d) = recovery_records d"
  "documents (record_audit u a e dt d) = documents d"
  "job_events (record_audit u a e dt d) = job_events d"
  by (simp_all add: record_audit_def)

section \<open>Creating a job\<close>

text \<open>
  The fingerprint of a request. The source sorts the JSON texts of the references' \<open>type\<close> and
  \<open>id\<close> and only compares fingerprints for equality, so the sorted list is the multiset.
\<close>

definition canonical_request_fingerprint ::
  "string \<Rightarrow> jdict list \<Rightarrow> string \<times> (json \<times> json) multiset" where
  "canonical_request_fingerprint ty refs =
     (ty, mset (map (\<lambda>r. (jget r ''type'', jget r ''id'')) refs))"

definition validate_document_ref :: "db \<Rightarrow> uuid \<Rightarrow> jdict \<Rightarrow> error + unit" where
  "validate_document_ref d owner ref =
     (if jget ref ''type'' \<noteq> JStr ''document'' \<or> \<not> truthy (jget ref ''id'')
      then Inl (InvalidInputRefs (BadRef ref))
      else case json_uuid (jget ref ''id'') of
             None \<Rightarrow> Inl (InvalidInputRefs (BadId (jget ref ''id'')))
           | Some doc_id \<Rightarrow>
               (case find_row (\<lambda>x. d_id x = doc_id \<and> d_uploaded_by x = owner \<and>
                                   d_deleted_at x = None) (documents d) of
                  None \<Rightarrow> Inl (InvalidInputRefs (Missing doc_id))
                | Some doc \<Rightarrow> ensure (d_status doc = Indexed)
                                (InvalidInputRefs (NotIndexedYet doc_id))))"

fun validate_each :: "('r \<Rightarrow> error + unit) \<Rightarrow> 'r list \<Rightarrow> error + unit" where
  "validate_each v [] = Inr ()"
| "validate_each v (r # rs) = sbind (v r) (\<lambda>_. validate_each v rs)"

definition validate_input_refs :: "db \<Rightarrow> uuid \<Rightarrow> jdict list \<Rightarrow> error + unit" where
  "validate_input_refs d owner refs =
     (if refs = [] then Inl (InvalidInputRefs NoRefs)
      else validate_each (validate_document_ref d owner) refs)"

definition validate_task_execution_input_refs ::
  "db \<Rightarrow> uuid \<Rightarrow> jdict list \<Rightarrow> bool \<Rightarrow> error + unit" where
  "validate_task_execution_input_refs d owner refs expect_claimed =
     (case refs of
        [ref] \<Rightarrow>
          (if jget ref ''type'' \<noteq> JStr ''mainai_task'' \<or> \<not> truthy (jget ref ''id'')
           then Inl (InvalidInputRefs (BadRef ref))
           else case json_uuid (jget ref ''id'') of
                  None \<Rightarrow> Inl (InvalidInputRefs (BadId (jget ref ''id'')))
                | Some tid \<Rightarrow>
                    (case find_row (\<lambda>t. t_id t = tid \<and> t_owner t = owner) (tasks d) of
                       None \<Rightarrow> Inl (InvalidInputRefs (Missing tid))
                     | Some t \<Rightarrow>
                         (if t_status t \<noteq> (if expect_claimed then TRunning else TReady)
                          then Inl (InvalidInputRefs (WrongTaskStatus tid (t_status t)))
                          else case find_row (\<lambda>g. g_id g = t_goal t \<and> g_owner g = owner) (goals d) of
                                 None \<Rightarrow> Inl (InvalidInputRefs (GoalMissing tid))
                               | Some g \<Rightarrow>
                                   (case require_task_approval d t (g_approval_policy g) of
                                      Inl e \<Rightarrow> Inl (InvalidInputRefs (NeedsApproval tid))
                                    | Inr u \<Rightarrow> Inr ()))))
      | _ \<Rightarrow> Inl (InvalidInputRefs (RefCount (length refs))))"

definition validate_refs_for_type ::
  "db \<Rightarrow> uuid \<Rightarrow> string \<Rightarrow> jdict list \<Rightarrow> bool \<Rightarrow> error + unit" where
  "validate_refs_for_type d owner ty refs expect_claimed =
     (if ty = ''corpus_review'' then validate_input_refs d owner refs
      else if ty = ''message_sequence_backfill'' \<or> ty = ''message_source_backfill''
        then ensure (refs = []) (InvalidInputRefs RefsNotAllowed)
      else if ty = ''task_execution''
        then validate_task_execution_input_refs d owner refs expect_claimed
      else Inr ())"

definition new_job ::
  "time \<Rightarrow> uuid \<Rightarrow> uuid \<Rightarrow> string \<Rightarrow> jdict list \<Rightarrow> string \<Rightarrow> string option \<Rightarrow> mainai_job" where
  "new_job now jid owner ty refs created_by key =
     \<lparr>j_id = jid, j_owner = owner, j_type = ty, j_status = JQueued, j_created_at = now,
      j_started_at = None, j_last_heartbeat_at = None, j_completed_at = None,
      j_progress_current = 0, j_progress_total = None, j_current_phase = None,
      j_public_message = None, j_error_category = None, j_retry_count = 0, j_max_retries = 3,
      j_input_refs = refs, j_output_refs = [], j_locked_by = None, j_lease_expires_at = None,
      j_lease_generation = 0, j_provider = None, j_model = None, j_cancel_requested = False,
      j_cancel_acknowledged = False, j_idempotency_key = key, j_created_by = created_by,
      j_superseded_by = None\<rparr>"

text \<open>INSERT under the primary key and the partial unique index on (owner, key).\<close>

definition same_key :: "uuid \<Rightarrow> string option \<Rightarrow> mainai_job \<Rightarrow> bool" where
  "same_key owner key j \<longleftrightarrow> j_owner j = owner \<and> key \<noteq> None \<and> j_idempotency_key j = key"

definition insert_job :: "mainai_job \<Rightarrow> db \<Rightarrow> error + db" where
  "insert_job j d =
     (if j_id j \<in> j_id ` set (jobs d) then Inl (UniqueViolation ''mainai_jobs_pkey'')
      else if list_ex (same_key (j_owner j) (j_idempotency_key j)) (jobs d)
        then Inl (UniqueViolation ''uq_mainai_jobs_owner_idempotency_key'')
      else if \<not> job_checks j then Inl CheckViolation
      else Inr (d\<lparr>jobs := jobs d @ [j]\<rparr>))"

definition resolve_replay ::
  "string \<times> (json \<times> json) multiset \<Rightarrow> string \<Rightarrow> mainai_job \<Rightarrow> error + mainai_job" where
  "resolve_replay fp key existing =
     (if canonical_request_fingerprint (j_type existing) (j_input_refs existing) \<noteq> fp
      then Inl (IdempotencyConflict key (j_id existing))
      else Inr existing)"

text \<open>
  \<open>fresh\<close> is the \<open>uuid4()\<close> the insert would draw, \<open>job_id\<close> the caller's pre-generated id if
  any, and \<open>others\<close> what other sessions commit between this session's key lookup and its
  insert; a sequential run has \<open>others = id\<close>.
\<close>

definition resolve_lost_race ::
  "string \<times> (json \<times> json) multiset \<Rightarrow> string option \<Rightarrow> uuid \<Rightarrow> uuid option \<Rightarrow> uuid \<Rightarrow> error \<Rightarrow> db \<Rightarrow>
   error + (db \<times> mainai_job)" where
  "resolve_lost_race fp key owner job_id jid e d1 =
     (if e \<noteq> UniqueViolation ''uq_mainai_jobs_owner_idempotency_key'' then Inl e
      else case find_row (same_key owner key) (jobs d1) of
             None \<Rightarrow> Inl e
           | Some existing \<Rightarrow>
               sbind (resolve_replay fp (case key of None \<Rightarrow> [] | Some k \<Rightarrow> k) existing) (\<lambda>x.
                 if job_id \<noteq> None \<and> j_id x \<noteq> jid
                 then Inl (IdempotencyConflict (case key of None \<Rightarrow> [] | Some k \<Rightarrow> k) (j_id x))
                 else Inr (d1, x)))"

definition insert_new_job ::
  "time \<Rightarrow> uuid option \<Rightarrow> mainai_job \<Rightarrow> db \<Rightarrow> error + (db \<times> mainai_job)" where
  "insert_new_job now job_id j d1 =
     (case insert_job j d1 of
        Inr d2 \<Rightarrow>
          Inr (record_audit (Some (j_owner j)) ''mainai_job_created'' (j_id j) None
                 (record_event now j EvCreated
                    [(''job_type'', JStr (j_type j)),
                     (''input_refs'', JArr (map JObj (j_input_refs j)))] d2), j)
      | Inl e \<Rightarrow>
          resolve_lost_race (canonical_request_fingerprint (j_type j) (j_input_refs j))
            (j_idempotency_key j) (j_owner j) job_id (j_id j) e d1)"

definition create_job ::
  "runtime_env \<Rightarrow> (db \<Rightarrow> db) \<Rightarrow> time \<Rightarrow> uuid \<Rightarrow> uuid option \<Rightarrow> uuid \<Rightarrow> string \<Rightarrow> jdict list \<Rightarrow>
   string \<Rightarrow> string option \<Rightarrow> db \<Rightarrow> error + (db \<times> mainai_job)" where
  "create_job env others now fresh job_id owner ty refs created_by key d =
     (let kstr = (case key of None \<Rightarrow> [] | Some k \<Rightarrow> k)
      in case (if kstr \<noteq> [] then find_row (same_key owner key) (jobs d) else None) of
           Some existing \<Rightarrow>
             sbind (resolve_replay (canonical_request_fingerprint ty refs) kstr existing)
               (\<lambda>j. Inr (d, j))
         | None \<Rightarrow>
             sbind (require_capability env ty) (\<lambda>_.
             sbind (validate_refs_for_type d owner ty refs (job_id \<noteq> None)) (\<lambda>_.
               insert_new_job now job_id
                 (new_job now (case job_id of None \<Rightarrow> fresh | Some i \<Rightarrow> i) owner ty refs created_by key)
                 (others d))))"

section \<open>Reading jobs\<close>

definition visible :: "uuid option \<Rightarrow> uuid \<Rightarrow> bool" where
  "visible ctx owner \<longleftrightarrow> (case ctx of None \<Rightarrow> True | Some u \<Rightarrow> u = owner)"

definition get_job :: "uuid option \<Rightarrow> uuid \<Rightarrow> db \<Rightarrow> error + mainai_job" where
  "get_job ctx jid d =
     from_option (JobNotFound jid) (find_row (\<lambda>j. j_id j = jid \<and> visible ctx (j_owner j)) (jobs d))"

definition list_jobs :: "uuid option \<Rightarrow> int \<Rightarrow> int \<Rightarrow> db \<Rightarrow> mainai_job list" where
  "list_jobs ctx lim offset d =
     (let l = max 1 (min lim 200); off = max 0 offset
      in take (nat l) (drop (nat off)
           (rev (sort_key (\<lambda>j. (j_created_at j, j_id j))
              (filter (\<lambda>j. visible ctx (j_owner j)) (jobs d))))))"

definition list_job_events ::
  "uuid option \<Rightarrow> uuid \<Rightarrow> int \<Rightarrow> db \<Rightarrow> error + job_event list" where
  "list_job_events ctx jid lim d =
     sbind (get_job ctx jid d) (\<lambda>_.
       Inr (take (nat (max 1 (min lim 1000)))
             (sort_key ev_created_at
               (filter (\<lambda>e. ev_job e = jid \<and> visible ctx (ev_owner e)) (job_events d)))))"

section \<open>The owner's operations\<close>

text \<open>Migration 0027's trigger: the only update a proposal row admits.\<close>

definition proposal_guard_ok :: "proposal \<Rightarrow> proposal \<Rightarrow> bool" where
  "proposal_guard_ok old new \<longleftrightarrow>
     p_status old = PropProposed \<and> p_status new = PropDismissed \<and>
     p_id new = p_id old \<and> p_job new = p_job old \<and> p_owner new = p_owner old \<and>
     p_source_document new = p_source_document old \<and> p_source_chunk new = p_source_chunk old \<and>
     p_type new = p_type old \<and> p_text new = p_text old \<and> p_created_at new = p_created_at old"

definition dismiss_proposal ::
  "uuid option \<Rightarrow> uuid \<Rightarrow> uuid \<Rightarrow> db \<Rightarrow> error + (db \<times> proposal)" where
  "dismiss_proposal ctx jid pid d =
     sbind (get_job ctx jid d) (\<lambda>_.
       case find_row (\<lambda>p. p_id p = pid \<and> visible ctx (p_owner p)) (proposals d) of
         None \<Rightarrow> Inl (ProposalNotFound pid)
       | Some p \<Rightarrow>
           (if p_job p \<noteq> jid then Inl (ProposalNotFound pid)
            else if p_status p = PropDismissed then Inr (d, p)
            else if p_status p \<noteq> PropProposed then Inl (InvalidProposalTransition pid)
            else Inr (d\<lparr>proposals := update_rows (\<lambda>q. p_id q = pid)
                           (\<lambda>q. q\<lparr>p_status := PropDismissed\<rparr>) (proposals d)\<rparr>,
                      p\<lparr>p_status := PropDismissed\<rparr>)))"

definition refreshed :: "uuid \<Rightarrow> db \<Rightarrow> mainai_job \<Rightarrow> mainai_job" where
  "refreshed jid d j = (case find_row (\<lambda>r. j_id r = jid) (jobs d) of None \<Rightarrow> j | Some r \<Rightarrow> r)"

definition request_cancel ::
  "uuid option \<Rightarrow> time \<Rightarrow> uuid \<Rightarrow> uuid \<Rightarrow> db \<Rightarrow> error + (db \<times> mainai_job)" where
  "request_cancel ctx now jid requested_by d =
     sbind (get_job ctx jid d) (\<lambda>j.
       if j_status j \<notin> cancellable_job_statuses then Inl (InvalidJobTransition (j_status j))
       else if j_cancel_requested j then Inr (d, j)
       else sbind (sql_update_jobs (\<lambda>r. j_id r = jid) (\<lambda>r. r\<lparr>j_cancel_requested := True\<rparr>) d)
              (\<lambda>(d1, n). Inr (record_audit (Some requested_by) ''mainai_job_cancel_requested'' jid None
                   (record_event now j EvCancelRequested [] d1), refreshed jid d1 j)))"

definition retry_set :: "mainai_job \<Rightarrow> mainai_job" where
  "retry_set r =
     r\<lparr>j_status := JQueued, j_retry_count := j_retry_count r + 1, j_error_category := None,
       j_public_message := None, j_cancel_requested := False, j_cancel_acknowledged := False,
       j_completed_at := None, j_progress_current := 0, j_progress_total := None,
       j_current_phase := None\<rparr>"

definition retry_job ::
  "uuid option \<Rightarrow> time \<Rightarrow> uuid \<Rightarrow> uuid \<Rightarrow> db \<Rightarrow> error + (db \<times> mainai_job)" where
  "retry_job ctx now jid requested_by d =
     sbind (get_job ctx jid d) (\<lambda>j.
       if j_status j \<notin> retryable_job_statuses then Inl (InvalidJobTransition (j_status j))
       else if j_max_retries j \<le> j_retry_count j
         then Inl (RetryBudgetExhausted jid (j_retry_count j) (j_max_retries j))
       else sbind (sql_update_jobs (\<lambda>r. j_id r = jid) retry_set d)
              (\<lambda>(d1, n). Inr (record_audit (Some requested_by) ''mainai_job_retry'' jid None
                   (record_event now j EvRetryScheduled
                      [(''retry_count'', JInt (j_retry_count j + 1))] d1),
                   refreshed jid d1 j)))"

section \<open>Worker-driven writes\<close>

text \<open>
  The one gate: the UPDATE is restricted to the row this (worker, generation) still holds, and
  zero rows means the lease is lost.
\<close>

definition guarded_job_write ::
  "uuid \<Rightarrow> string \<Rightarrow> int \<Rightarrow> (mainai_job \<Rightarrow> mainai_job) \<Rightarrow> db \<Rightarrow> error + db" where
  "guarded_job_write jid worker gen f d =
     sbind (sql_update_jobs (holds_claim jid worker gen) f d)
       (\<lambda>(d', n). if n = 0 then Inl (JobLeaseLost jid worker gen) else Inr d')"

definition record_claimed :: "time \<Rightarrow> mainai_job \<Rightarrow> string \<Rightarrow> int \<Rightarrow> db \<Rightarrow> error + db" where
  "record_claimed now j worker gen d =
     sbind (guarded_job_write (j_id j) worker gen (\<lambda>r. r) d) (\<lambda>d1.
       Inr (record_audit (Some (j_owner j)) ''mainai_job_claimed'' (j_id j) (Some worker)
             (record_event now j EvClaimed [(''worker_id'', JStr worker)] d1)))"

definition mark_completed ::
  "time \<Rightarrow> mainai_job \<Rightarrow> string \<Rightarrow> int \<Rightarrow> string option \<Rightarrow> db \<Rightarrow> error + db" where
  "mark_completed now j worker gen message d =
     sbind (guarded_job_write (j_id j) worker gen
              (\<lambda>r. r\<lparr>j_status := JCompleted, j_completed_at := Some now,
                     j_public_message := Some (case message of None \<Rightarrow> ''Completed.''
                                     | Some m \<Rightarrow> if m = [] then ''Completed.'' else m)\<rparr>) d) (\<lambda>d1.
       Inr (record_audit (Some (j_owner j)) ''mainai_job_completed'' (j_id j) None
             (record_event now j EvCompleted [] d1)))"

definition mark_failed_flush ::
  "time \<Rightarrow> mainai_job \<Rightarrow> string \<Rightarrow> int \<Rightarrow> job_error \<Rightarrow> db \<Rightarrow> error + db" where
  "mark_failed_flush now j worker gen category d =
     sbind (guarded_job_write (j_id j) worker gen
              (\<lambda>r. r\<lparr>j_status := JFailed, j_completed_at := Some now,
                     j_error_category := Some category,
                     j_public_message := Some (public_error_message category)\<rparr>) d) (\<lambda>d1.
       Inr (record_audit (Some (j_owner j)) ''mainai_job_failed'' (j_id j)
              (Some (job_error_value category))
             (record_event now j EvFailed
                [(''error_category'', JStr (job_error_value category))] d1)))"

definition mark_failed ::
  "time \<Rightarrow> mainai_job \<Rightarrow> string \<Rightarrow> int \<Rightarrow> job_error \<Rightarrow> db \<Rightarrow> error + db" where
  "mark_failed now j worker gen category d = mark_failed_flush now j worker gen category d"

definition mark_cancelled :: "time \<Rightarrow> mainai_job \<Rightarrow> string \<Rightarrow> int \<Rightarrow> db \<Rightarrow> error + db" where
  "mark_cancelled now j worker gen d =
     sbind (guarded_job_write (j_id j) worker gen
              (\<lambda>r. r\<lparr>j_status := JCancelled, j_completed_at := Some now,
                     j_cancel_acknowledged := True,
                     j_public_message := Some (public_error_message ErrCancelledByOwner)\<rparr>) d) (\<lambda>d1.
       Inr (record_audit (Some (j_owner j)) ''mainai_job_cancelled'' (j_id j) None
             (record_event now j EvCancelled []
               (record_event now j EvCancelAcknowledged [] d1))))"

definition opt_int_json :: "int option \<Rightarrow> json" where
  "opt_int_json v = (case v of None \<Rightarrow> JNull | Some i \<Rightarrow> JInt i)"

definition update_progress ::
  "time \<Rightarrow> mainai_job \<Rightarrow> string \<Rightarrow> int \<Rightarrow> int option \<Rightarrow> int option \<Rightarrow> string option \<Rightarrow> db \<Rightarrow>
   error + db" where
  "update_progress now j worker gen current tot phase d =
     (if current = None \<and> tot = None \<and> phase = None then Inr d
      else
        sbind (guarded_job_write (j_id j) worker gen
                 (\<lambda>r. r\<lparr>j_progress_current :=
                          (case current of None \<Rightarrow> j_progress_current r | Some c \<Rightarrow> c),
                        j_progress_total := (if tot = None then j_progress_total r else tot),
                        j_current_phase := (if phase = None then j_current_phase r else phase)\<rparr>) d) (\<lambda>d1.
          let r = refreshed (j_id j) d1 j;
              d2 = (case phase of
                      None \<Rightarrow> d1
                    | Some ph \<Rightarrow> if phase \<noteq> j_current_phase j
                                then record_event now j EvPhaseChanged [(''phase'', JStr ph)] d1
                                else d1)
          in Inr (record_event now j EvProgressUpdated
                   [(''current'', JInt (j_progress_current r)),
                    (''total'', opt_int_json (j_progress_total r))] d2)))"

definition record_document_reviewed ::
  "time \<Rightarrow> mainai_job \<Rightarrow> string \<Rightarrow> int \<Rightarrow> int \<Rightarrow> int \<Rightarrow> string \<Rightarrow> string \<Rightarrow> jdict \<Rightarrow> db \<Rightarrow> error + db" where
  "record_document_reviewed now j worker gen current tot provider model output_ref d =
     sbind (sql_update_jobs (holds_claim (j_id j) worker gen)
              (\<lambda>r. r\<lparr>j_progress_current := current, j_progress_total := Some tot,
                     j_current_phase := Some ''reviewing'', j_provider := Some provider,
                     j_model := Some model, j_output_refs := j_output_refs r @ [output_ref]\<rparr>) d)
       (\<lambda>(d1, n).
          if n = 0 then Inl (JobLeaseLost (j_id j) worker gen)
          else Inr (record_event now j EvProgressUpdated
                     [(''current'', JInt current), (''total'', JInt tot)] d1))"

definition record_document_skipped ::
  "time \<Rightarrow> mainai_job \<Rightarrow> string \<Rightarrow> int \<Rightarrow> uuid \<Rightarrow> string \<Rightarrow> job_error option \<Rightarrow> db \<Rightarrow> error + db" where
  "record_document_skipped now j worker gen doc reason category d =
     sbind (guarded_job_write (j_id j) worker gen (\<lambda>r. r) d) (\<lambda>d1.
       Inr (record_event now j EvDocumentSkipped
             ([(''document_id'', JStr (uuid_str doc)), (''reason'', JStr reason),
               (''attempt'', JInt (j_retry_count j))] @
              (case category of None \<Rightarrow> []
               | Some c \<Rightarrow> [(''error_category'', JStr (job_error_value c))])) d1))"

end
