(* ===== verification/JobFacts.thy ===== *)
theory JobFacts
  imports JobService
begin

text \<open>
  What every operation of the job service does to the \<open>mainai_jobs\<close> table: the table invariant
  \<open>jobs_ok\<close> (what the constraints of the schema say of a committed state), the row relation
  \<open>evolves\<close> for each operation, and total descriptions of the worker-driven writes, so that
  in a state satisfying the invariant no constraint ever surprises them.
\<close>

named_theorems job_evolve \<open>each operation's effect on the jobs table\<close>

section \<open>The table invariant\<close>

definition keys_unique :: "mainai_job list \<Rightarrow> bool" where
  "keys_unique js \<longleftrightarrow>
     (\<forall>i\<in>set js. \<forall>j\<in>set js. same_key (j_owner i) (j_idempotency_key i) j \<longrightarrow> j_id i = j_id j)"

definition jobs_ok :: "db \<Rightarrow> bool" where
  "jobs_ok d \<longleftrightarrow> unique_key j_id (jobs d) \<and> keys_unique (jobs d) \<and> (\<forall>j\<in>set (jobs d). job_checks j)"

lemma jobs_ok_frame [simp]:
  "jobs_ok (record_event now j ty dt d) = jobs_ok d"
  "jobs_ok (record_audit u a e det d) = jobs_ok d"
  by (simp_all add: jobs_ok_def)

lemma jobs_ok_same_jobs: "jobs_ok d \<Longrightarrow> jobs d' = jobs d \<Longrightarrow> jobs_ok d'"
  by (simp add: jobs_ok_def)

lemma jobs_okD:
  "jobs_ok d \<Longrightarrow> unique_key j_id (jobs d)"
  "jobs_ok d \<Longrightarrow> j \<in> set (jobs d) \<Longrightarrow> job_checks j"
  by (simp_all add: jobs_ok_def)

lemma keys_unique_update:
  assumes u: "keys_unique js"
    and keep: "\<And>j. j_id (f j) = j_id j \<and> j_owner (f j) = j_owner j \<and>
               j_idempotency_key (f j) = j_idempotency_key j"
  shows "keys_unique (update_rows p f js)"
  unfolding keys_unique_def
proof (intro ballI impI)
  fix i j
  assume "i \<in> set (update_rows p f js)" and "j \<in> set (update_rows p f js)"
    and same: "same_key (j_owner i) (j_idempotency_key i) j"
  then obtain i0 j0 where o: "i0 \<in> set js" "j0 \<in> set js"
    and i: "i = (if p i0 then f i0 else i0)" and j: "j = (if p j0 then f j0 else j0)"
    by (auto simp: in_update_rows_iff)
  have "same_key (j_owner i0) (j_idempotency_key i0) j0"
    using same keep [of i0] keep [of j0] by (simp add: i j same_key_def split: if_splits)
  with u o have "j_id i0 = j_id j0" by (auto simp: keys_unique_def)
  then show "j_id i = j_id j" using keep [of i0] keep [of j0] by (simp add: i j)
qed

lemma sql_update_jobs_ok:
  assumes "jobs_ok d" and "sql_update_jobs p f d = Inr (d', n)"
    and keep: "\<And>j. j_id (f j) = j_id j \<and> j_owner (f j) = j_owner j \<and>
               j_idempotency_key (f j) = j_idempotency_key j"
  shows "jobs_ok d'"
proof -
  from assms(2) have d': "d' = d\<lparr>jobs := update_rows p f (jobs d)\<rparr>"
    and upd: "\<forall>j\<in>set (jobs d). p j \<longrightarrow> job_update_ok d j (f j)"
    by (auto simp: sql_update_jobs_Inr_iff)
  have "unique_key j_id (jobs d')"
    using assms(1) keep by (simp add: d' jobs_ok_def unique_key_update_rows)
  moreover have "keys_unique (jobs d')"
    using assms(1) keys_unique_update [OF _ keep] by (simp add: d' jobs_ok_def)
  moreover have "\<forall>j\<in>set (jobs d'). job_checks j"
    using assms(1) upd
    by (auto simp: d' jobs_ok_def in_update_rows_iff job_update_ok_def split: if_splits)
  ultimately show ?thesis by (simp add: jobs_ok_def)
qed

lemma insert_job_Inr_iff:
  "insert_job j d = Inr d' \<longleftrightarrow>
     j_id j \<notin> j_id ` set (jobs d) \<and>
     \<not> list_ex (same_key (j_owner j) (j_idempotency_key j)) (jobs d) \<and> job_checks j \<and>
     d' = d\<lparr>jobs := jobs d @ [j]\<rparr>"
  by (auto simp: insert_job_def)

lemma insert_job_ok:
  assumes "jobs_ok d" and "insert_job j d = Inr d'"
  shows "jobs_ok d'"
proof -
  from assms(2) have d': "d' = d\<lparr>jobs := jobs d @ [j]\<rparr>" and new: "j_id j \<notin> j_id ` set (jobs d)"
    and chk: "job_checks j"
    and nokey: "\<forall>x\<in>set (jobs d). \<not> same_key (j_owner j) (j_idempotency_key j) x"
    by (auto simp: insert_job_Inr_iff list_ex_iff)
  have "\<not> same_key (j_owner x) (j_idempotency_key x) j" if "x \<in> set (jobs d)" for x
    using nokey that by (auto simp: same_key_def)
  with assms(1) new chk nokey show ?thesis
    by (auto simp: d' jobs_ok_def keys_unique_def unique_key_snoc)
qed

section \<open>The fencing gate\<close>

definition holder :: "db \<Rightarrow> uuid \<Rightarrow> string \<Rightarrow> int \<Rightarrow> bool" where
  "holder d jid worker gen \<longleftrightarrow> list_ex (holds_claim jid worker gen) (jobs d)"

lemma guarded_Inr_iff:
  "guarded_job_write jid worker gen f d = Inr d' \<longleftrightarrow>
     holder d jid worker gen \<and>
     (\<forall>j\<in>set (jobs d). holds_claim jid worker gen j \<longrightarrow>
        job_update_ok d j (f j) \<and> superseded_fk_ok d (f j)) \<and>
     d' = d\<lparr>jobs := update_rows (holds_claim jid worker gen) f (jobs d)\<rparr>"
  unfolding guarded_job_write_def err_simps holder_def
  by (auto simp: sql_update_jobs_Inr_iff filter_empty_conv list_ex_iff split: if_splits)

lemma guarded_lost:
  assumes "\<not> holder d jid worker gen"
  shows "guarded_job_write jid worker gen f d = Inl (JobLeaseLost jid worker gen)"
proof -
  have none: "filter (holds_claim jid worker gen) (jobs d) = []"
    using assms by (auto simp: holder_def list_ex_iff filter_empty_conv)
  then show ?thesis
    by (simp add: guarded_job_write_def sql_update_jobs_def)
qed

lemma holds_checks:
  assumes "jobs_ok d" and "j \<in> set (jobs d)" and "holds_claim jid worker gen j"
  shows "job_checks j" and "j_started_at j \<noteq> None" and "j_completed_at j = None"
    and "j_superseded_by j = None"
  using jobs_okD(2) [OF assms(1,2)] assms(3)
  by (auto simp: holds_claim_def job_checks_def checks_0028_def checks_0034_def terminal_job_status_def)

lemma guarded_total:
  assumes "jobs_ok d"
    and "\<And>j. j \<in> set (jobs d) \<Longrightarrow> holds_claim jid worker gen j \<Longrightarrow>
           job_update_ok d j (f j) \<and> j_superseded_by (f j) = None"
  shows "guarded_job_write jid worker gen f d =
    (if holder d jid worker gen
     then Inr (d\<lparr>jobs := update_rows (holds_claim jid worker gen) f (jobs d)\<rparr>)
     else Inl (JobLeaseLost jid worker gen))"
  using assms by (auto simp: guarded_lost guarded_Inr_iff superseded_fk_ok_def)

text \<open>In an invariant state the three terminal writes succeed exactly for the holder.\<close>

definition terminal_set ::
  "job_status \<Rightarrow> time \<Rightarrow> (mainai_job \<Rightarrow> mainai_job) \<Rightarrow> mainai_job \<Rightarrow> mainai_job" where
  "terminal_set s now g r = (g r)\<lparr>j_status := s, j_completed_at := Some now\<rparr>"

lemma terminal_update_ok:
  assumes "jobs_ok d" and "j \<in> set (jobs d)" and "holds_claim jid worker gen j"
    and "s \<in> {JCompleted, JFailed, JCancelled}"
    and "j_status j' = s" and "j_completed_at j' \<noteq> None" and "j_started_at j' = j_started_at j"
    and "j_progress_current j' = j_progress_current j" and "j_progress_total j' = j_progress_total j"
    and "j_retry_count j' = j_retry_count j" and "j_max_retries j' = j_max_retries j"
    and "j_superseded_by j' = j_superseded_by j"
  shows "job_update_ok d j j'"
  using holds_checks [OF assms(1-3)] assms(4-)
  unfolding job_update_ok_def progress_trigger_ok_def job_checks_def checks_0026_def
    checks_0028_def checks_0034_def terminal_job_status_def
  by (auto split: option.splits)

lemma mark_completed_total:
  assumes "jobs_ok d"
  shows "mark_completed now j worker gen message d =
    (if holder d (j_id j) worker gen
     then Inr (record_audit (Some (j_owner j)) ''mainai_job_completed'' (j_id j) None
                (record_event now j EvCompleted []
                  (d\<lparr>jobs := update_rows (holds_claim (j_id j) worker gen)
                      (\<lambda>r. r\<lparr>j_status := JCompleted, j_completed_at := Some now,
                         j_public_message := Some (case message of None \<Rightarrow> ''Completed.''
                                     | Some m \<Rightarrow> if m = [] then ''Completed.'' else m)\<rparr>) (jobs d)\<rparr>)))
     else Inl (JobLeaseLost (j_id j) worker gen))"
  unfolding mark_completed_def
  by (subst guarded_total [OF assms])
    (auto intro!: terminal_update_ok [OF assms, where s = JCompleted] simp: holds_checks(4) [OF assms])

lemma mark_failed_total:
  assumes "jobs_ok d"
  shows "mark_failed now j worker gen category d =
    (if holder d (j_id j) worker gen
     then Inr (record_audit (Some (j_owner j)) ''mainai_job_failed'' (j_id j)
                 (Some (job_error_value category))
                (record_event now j EvFailed
                   [(''error_category'', JStr (job_error_value category))]
                  (d\<lparr>jobs := update_rows (holds_claim (j_id j) worker gen)
                      (\<lambda>r. r\<lparr>j_status := JFailed, j_completed_at := Some now,
                         j_error_category := Some category,
                         j_public_message := Some (public_error_message category)\<rparr>) (jobs d)\<rparr>)))
     else Inl (JobLeaseLost (j_id j) worker gen))"
  unfolding mark_failed_def mark_failed_flush_def
  by (subst guarded_total [OF assms])
    (auto intro!: terminal_update_ok [OF assms, where s = JFailed] simp: holds_checks(4) [OF assms])

lemma mark_cancelled_total:
  assumes "jobs_ok d"
  shows "mark_cancelled now j worker gen d =
    (if holder d (j_id j) worker gen
     then Inr (record_audit (Some (j_owner j)) ''mainai_job_cancelled'' (j_id j) None
                (record_event now j EvCancelled [] (record_event now j EvCancelAcknowledged []
                  (d\<lparr>jobs := update_rows (holds_claim (j_id j) worker gen)
                      (\<lambda>r. r\<lparr>j_status := JCancelled, j_completed_at := Some now,
                         j_cancel_acknowledged := True,
                         j_public_message := Some (public_error_message ErrCancelledByOwner)\<rparr>)
                      (jobs d)\<rparr>))))
     else Inl (JobLeaseLost (j_id j) worker gen))"
  unfolding mark_cancelled_def
  by (subst guarded_total [OF assms])
    (auto intro!: terminal_update_ok [OF assms, where s = JCancelled] simp: holds_checks(4) [OF assms])

lemma same_row_update_ok:
  "jobs_ok d \<Longrightarrow> j \<in> set (jobs d) \<Longrightarrow> job_update_ok d j j"
  by (simp add: job_update_ok_def progress_trigger_ok_def jobs_okD)

lemma record_claimed_total:
  assumes "jobs_ok d"
  shows "record_claimed now j worker gen d =
    (if holder d (j_id j) worker gen
     then Inr (record_audit (Some (j_owner j)) ''mainai_job_claimed'' (j_id j) (Some worker)
                (record_event now j EvClaimed [(''worker_id'', JStr worker)] d))
     else Inl (JobLeaseLost (j_id j) worker gen))"
proof -
  have "update_rows p (\<lambda>r. r) t = t" for p :: "mainai_job \<Rightarrow> bool" and t
    by (simp add: update_rows_def)
  then show ?thesis
    unfolding record_claimed_def
    by (subst guarded_total [OF assms]) (auto simp: same_row_update_ok assms holds_checks(4) [OF assms])
qed

section \<open>Row evolution, operation by operation\<close>

lemma guarded_evolves:
  assumes "guarded_job_write jid worker gen f d = Inr d'"
    and "\<And>j. holds_claim jid worker gen j \<Longrightarrow> evolves j (f j)"
  shows "jobs_evolve (jobs d) (jobs d')"
  using assms by (auto simp: guarded_Inr_iff intro!: jobs_evolve_update)

lemma guarded_jobs_ok:
  assumes "jobs_ok d" and "guarded_job_write jid worker gen f d = Inr d'"
    and "\<And>j. j_id (f j) = j_id j \<and> j_owner (f j) = j_owner j \<and>
               j_idempotency_key (f j) = j_idempotency_key j"
  shows "jobs_ok d'"
  using assms unfolding guarded_job_write_def
  by (auto simp: err_simps split: if_splits elim!: sql_update_jobs_ok)

lemma record_claimed_evolves [job_evolve]:
  "record_claimed now j worker gen d = Inr d' \<Longrightarrow> jobs_evolve (jobs d) (jobs d')"
  by (auto simp: record_claimed_def err_simps elim!: guarded_evolves)

lemma mark_completed_evolves [job_evolve]:
  "mark_completed now j worker gen m d = Inr d' \<Longrightarrow> jobs_evolve (jobs d) (jobs d')"
  by (auto simp: mark_completed_def err_simps evolves_def holds_claim_def elim!: guarded_evolves)

lemma mark_failed_evolves [job_evolve]:
  "mark_failed now j worker gen c d = Inr d' \<Longrightarrow> jobs_evolve (jobs d) (jobs d')"
  by (auto simp: mark_failed_def mark_failed_flush_def err_simps evolves_def holds_claim_def
      elim!: guarded_evolves)

lemma mark_cancelled_evolves [job_evolve]:
  "mark_cancelled now j worker gen d = Inr d' \<Longrightarrow> jobs_evolve (jobs d) (jobs d')"
  by (auto simp: mark_cancelled_def err_simps evolves_def holds_claim_def elim!: guarded_evolves)

lemma update_progress_InrE:
  assumes "update_progress now j worker gen c t ph d = Inr d'"
  obtains "d' = d" and "c = None" and "t = None" and "ph = None"
  | d1 where "guarded_job_write (j_id j) worker gen
                (\<lambda>r. r\<lparr>j_progress_current := (case c of None \<Rightarrow> j_progress_current r | Some c \<Rightarrow> c),
                       j_progress_total := (if t = None then j_progress_total r else t),
                       j_current_phase := (if ph = None then j_current_phase r else ph)\<rparr>) d = Inr d1"
      and "jobs d' = jobs d1"
proof (cases "c = None \<and> t = None \<and> ph = None")
  case True
  with assms that(1) show ?thesis by (auto simp: update_progress_def)
next
  case False
  with assms show ?thesis
    unfolding update_progress_def if_not_P [OF False] Let_def
    by (elim sbind_InrE) (rule that(2), assumption, auto split: option.splits if_splits)
qed

lemma update_progress_evolves [job_evolve]:
  assumes "update_progress now j worker gen c t ph d = Inr d'"
  shows "jobs_evolve (jobs d) (jobs d')"
  using assms
proof (cases rule: update_progress_InrE)
  case 1
  then show ?thesis by simp
next
  case (2 d1)
  from guarded_evolves [OF 2(1)] 2(2) show ?thesis
    by (simp add: evolves_def holds_claim_def)
qed

lemma record_reviewed_evolves [job_evolve]:
  "record_document_reviewed now j worker gen c t pr m ref d = Inr d' \<Longrightarrow>
     jobs_evolve (jobs d) (jobs d')"
  by (auto simp: record_document_reviewed_def err_simps evolves_def split: if_splits
      elim!: sql_update_evolves)

lemma record_skipped_evolves [job_evolve]:
  "record_document_skipped now j worker gen doc reason c d = Inr d' \<Longrightarrow>
     jobs_evolve (jobs d) (jobs d')"
  by (auto simp: record_document_skipped_def err_simps elim!: guarded_evolves)

lemma get_job_Inr_iff:
  "get_job ctx jid d = Inr j \<longleftrightarrow>
     find_row (\<lambda>j. j_id j = jid \<and> visible ctx (j_owner j)) (jobs d) = Some j"
  by (simp add: get_job_def)

lemma get_jobD:
  "get_job ctx jid d = Inr j \<Longrightarrow> j \<in> set (jobs d) \<and> j_id j = jid \<and> visible ctx (j_owner j)"
  by (auto simp: get_job_Inr_iff dest: find_row_SomeD)

lemma request_cancel_evolves [job_evolve]:
  "request_cancel ctx now jid by d = Inr (d', j) \<Longrightarrow> jobs_evolve (jobs d) (jobs d')"
  by (auto simp: request_cancel_def err_simps evolves_def split: if_splits
      elim!: sql_update_evolves)

lemma retry_job_InrE:
  assumes "retry_job ctx now jid by d = Inr (d', r)"
  obtains j d1 n where "get_job ctx jid d = Inr j" and "j_status j = JFailed"
    and "j_retry_count j < j_max_retries j"
    and "sql_update_jobs (\<lambda>r. j_id r = jid) retry_set d = Inr (d1, n)"
    and "r = refreshed jid d1 j"
    and "d' = record_audit (Some by) ''mainai_job_retry'' jid None
                (record_event now j EvRetryScheduled [(''retry_count'', JInt (j_retry_count j + 1))] d1)"
  using assms unfolding retry_job_def
  by (elim sbind_InrE)
    (auto simp: retryable_job_statuses_def not_le split: if_splits elim!: sbind_InrE)

lemma retry_job_evolves [job_evolve]:
  assumes u: "unique_key j_id (jobs d)" and r: "retry_job ctx now jid by d = Inr (d', r)"
  shows "jobs_evolve (jobs d) (jobs d')"
  using r
proof (cases rule: retry_job_InrE)
  case (1 j d1 n)
  have "evolves i (retry_set i)" if "i \<in> set (jobs d)" "j_id i = jid" for i
  proof -
    have "i = j" using unique_key_eqD [OF u that(1)] that(2) get_jobD [OF 1(1)] by auto
    then show ?thesis using 1(2) by (simp add: evolves_def retry_set_def)
  qed
  with sql_update_evolves [OF 1(4)] 1(6) show ?thesis by simp
qed

text \<open>The four ways a creation returns: replay, a lost race, and the insert.\<close>

lemma resolve_replay_Inr_iff:
  "resolve_replay fp k x = Inr j \<longleftrightarrow>
     j = x \<and> canonical_request_fingerprint (j_type x) (j_input_refs x) = fp"
  by (auto simp: resolve_replay_def)

lemma create_job_cases:
  assumes "create_job env others now fresh job_id owner ty refs who key d = Inr (d', j)"
  obtains
    (replay) k where "key = Some k" and "k \<noteq> []"
      and "find_row (same_key owner key) (jobs d) = Some j" and "d' = d"
      and "canonical_request_fingerprint (j_type j) (j_input_refs j) =
             canonical_request_fingerprint ty refs"
  | (lost_race) "find_row (same_key owner key) (jobs (others d)) = Some j" and "d' = others d"
      and "canonical_request_fingerprint (j_type j) (j_input_refs j) =
             canonical_request_fingerprint ty refs"
      and "\<And>i. job_id = Some i \<Longrightarrow> j_id j = i"
  | (created) d2 where
      "j = new_job now (case job_id of None \<Rightarrow> fresh | Some i \<Rightarrow> i) owner ty refs who key"
      and "require_capability env ty = Inr ()"
      and "validate_refs_for_type d owner ty refs (job_id \<noteq> None) = Inr ()"
      and "insert_job j (others d) = Inr d2"
      and "d' = record_audit (Some owner) ''mainai_job_created'' (j_id j) None
             (record_event now j EvCreated
                [(''job_type'', JStr ty), (''input_refs'', JArr (map JObj refs))] d2)"
proof (cases "if (case key of None \<Rightarrow> [] | Some k \<Rightarrow> k) \<noteq> []
      then find_row (same_key owner key) (jobs d) else None")
  case (Some x)
  with assms show ?thesis
    by (cases key) (auto simp: create_job_def Let_def resolve_replay_Inr_iff elim!: sbind_InrE
        split: if_splits intro: replay)
next
  case None
  let ?j = "new_job now (case job_id of None \<Rightarrow> fresh | Some i \<Rightarrow> i) owner ty refs who key"
  from None assms have ok: "require_capability env ty = Inr ()"
      "validate_refs_for_type d owner ty refs (job_id \<noteq> None) = Inr ()"
    and ins: "insert_new_job now job_id ?j (others d) = Inr (d', j)"
    by (auto simp: create_job_def Let_def elim!: sbind_InrE)
  show ?thesis
  proof (cases "insert_job ?j (others d)")
    case (Inr d2)
    with ins show ?thesis
      by (intro created [OF _ ok, of d2]) (auto simp: insert_new_job_def new_job_def)
  next
    case (Inl e)
    with ins show ?thesis
      by (intro lost_race)
        (auto simp: insert_new_job_def resolve_lost_race_def resolve_replay_Inr_iff new_job_def
          elim!: sbind_InrE split: if_splits option.splits)
  qed
qed

section \<open>The invariant, operation by operation\<close>

named_theorems job_inv \<open>each operation keeps the table invariant\<close>

lemma claim_next_ok [job_inv]:
  assumes "claim_next_mainai_job now locked worker secs d = Inr (d', r)" and "jobs_ok d"
  shows "jobs_ok d'"
  using assms
  by (auto simp: claim_next_mainai_job_def claim_set_def split: option.splits
      elim!: sbind_InrE
      dest!: sql_update_jobs_ok [OF assms(2)])

lemma claim_specific_ok [job_inv]:
  assumes "claim_specific_mainai_job now jid worker secs d = Inr (d', r)" and "jobs_ok d"
  shows "jobs_ok d'"
  using assms
  by (auto simp: claim_specific_mainai_job_def Let_def claim_set_def split: option.splits
      elim!: sbind_InrE
      dest!: sql_update_jobs_ok [OF assms(2)])

lemma renew_ok [job_inv]:
  assumes "renew_mainai_job_lease now jid worker gen secs d = Inr d'" and "jobs_ok d"
  shows "jobs_ok d'"
  using assms by (auto simp: renew_Inr_iff dest!: sql_update_jobs_ok [OF assms(2)])

lemma superseded_ok [job_inv]:
  assumes "mark_job_superseded now jid by d = Inr d'" and "jobs_ok d"
  shows "jobs_ok d'"
  using assms
  by (auto simp: mark_job_superseded_def split: if_splits elim!: sbind_InrE
      dest!: sql_update_jobs_ok [OF assms(2)])

lemma declined_ok [job_inv]:
  assumes "mark_job_failed_after_governed_recovery_decline now jid d = Inr d'" and "jobs_ok d"
  shows "jobs_ok d'"
  using assms
  by (auto simp: mark_job_failed_after_governed_recovery_decline_def split: if_splits
      elim!: sbind_InrE
      dest!: sql_update_jobs_ok [OF assms(2)])

lemma request_cancel_ok [job_inv]:
  assumes "request_cancel ctx now jid by d = Inr (d', r)" and "jobs_ok d"
  shows "jobs_ok d'"
  using assms
  by (auto simp: request_cancel_def split: if_splits elim!: sbind_InrE
      dest!: sql_update_jobs_ok [OF assms(2)])

lemma retry_job_ok [job_inv]:
  assumes "retry_job ctx now jid by d = Inr (d', r)" and "jobs_ok d"
  shows "jobs_ok d'"
  using assms(1)
  by (cases rule: retry_job_InrE)
    (auto simp: retry_set_def intro: sql_update_jobs_ok [OF assms(2), where f = retry_set])

lemma record_claimed_ok [job_inv]:
  assumes "record_claimed now j worker gen d = Inr d'" and "jobs_ok d"
  shows "jobs_ok d'"
  using assms(1)
  by (auto simp: record_claimed_def elim!: sbind_InrE
      dest!: guarded_jobs_ok [OF assms(2)])

lemma mark_completed_ok [job_inv]:
  assumes "mark_completed now j worker gen m d = Inr d'" and "jobs_ok d"
  shows "jobs_ok d'"
  using assms(1)
  by (auto simp: mark_completed_def elim!: sbind_InrE
      dest!: guarded_jobs_ok [OF assms(2)])

lemma mark_failed_ok [job_inv]:
  assumes "mark_failed now j worker gen c d = Inr d'" and "jobs_ok d"
  shows "jobs_ok d'"
  using assms(1)
  by (auto simp: mark_failed_def mark_failed_flush_def elim!: sbind_InrE
      dest!: guarded_jobs_ok [OF assms(2)])

lemma mark_cancelled_ok [job_inv]:
  assumes "mark_cancelled now j worker gen d = Inr d'" and "jobs_ok d"
  shows "jobs_ok d'"
  using assms(1)
  by (auto simp: mark_cancelled_def elim!: sbind_InrE
      dest!: guarded_jobs_ok [OF assms(2)])

lemma update_progress_ok [job_inv]:
  assumes "update_progress now j worker gen c t ph d = Inr d'" and "jobs_ok d"
  shows "jobs_ok d'"
  using assms(1)
proof (cases rule: update_progress_InrE)
  case (2 d1)
  have "jobs_ok d1" by (rule guarded_jobs_ok [OF assms(2) 2(1)]) simp
  then show ?thesis using 2(2) by (rule jobs_ok_same_jobs)
qed (simp add: assms(2))

lemma record_reviewed_ok [job_inv]:
  assumes "record_document_reviewed now j worker gen c t pr m ref d = Inr d'" and "jobs_ok d"
  shows "jobs_ok d'"
  using assms(1)
  by (auto simp: record_document_reviewed_def split: if_splits elim!: sbind_InrE
      dest!: sql_update_jobs_ok [OF assms(2)])

lemma record_skipped_ok [job_inv]:
  assumes "record_document_skipped now j worker gen doc reason c d = Inr d'" and "jobs_ok d"
  shows "jobs_ok d'"
  using assms(1)
  by (auto simp: record_document_skipped_def elim!: sbind_InrE
      dest!: guarded_jobs_ok [OF assms(2)])

lemma insert_new_job_cases:
  assumes "insert_new_job now job_id j d = Inr (d', i)"
  obtains (inserted) d2 where "i = j" and "insert_job j d = Inr d2" and "jobs d' = jobs d2"
  | (lost) "d' = d" and "find_row (same_key (j_owner j) (j_idempotency_key j)) (jobs d) = Some i"
proof (cases "insert_job j d")
  case (Inr d2)
  with assms show ?thesis by (intro inserted [of d2]) (auto simp: insert_new_job_def)
next
  case (Inl e)
  with assms show ?thesis
    by (intro lost)
      (auto simp: insert_new_job_def resolve_lost_race_def resolve_replay_Inr_iff
        elim!: sbind_InrE split: if_splits option.splits)
qed

lemma insert_new_job_ok [job_inv]:
  assumes "insert_new_job now job_id j d = Inr (d', i)" and "jobs_ok d"
  shows "jobs_ok d'"
  using assms(1)
proof (cases rule: insert_new_job_cases)
  case (inserted d2)
  show ?thesis by (rule jobs_ok_same_jobs [OF insert_job_ok [OF assms(2) inserted(2)] inserted(3)])
qed (simp add: assms(2))

lemma insert_new_job_evolves [job_evolve]:
  assumes "insert_new_job now job_id j d = Inr (d', i)" and "j_status j = JQueued"
  shows "jobs_evolve (jobs d) (jobs d')"
  using assms(1)
  by (cases rule: insert_new_job_cases)
    (auto simp: insert_job_Inr_iff jobs_evolve_append assms(2))

lemma create_job_own:
  assumes "create_job env (\<lambda>d. d) now fresh job_id owner ty refs who key d = Inr (d', j)"
  shows "jobs_evolve (jobs d) (jobs d') \<and> (jobs_ok d \<longrightarrow> jobs_ok d')"
  using assms
proof (cases rule: create_job_cases)
  case (created d2)
  then show ?thesis
    by (auto simp: insert_job_Inr_iff new_job_def intro!: jobs_evolve_append
        dest: insert_job_ok [rotated, OF created(4)])
qed simp_all

end
