(* ===== verification/JobRuntime.thy ===== *)
theory JobRuntime
  imports JobFacts
begin

text \<open>
  The job runtime as a transition system: any interleaving of the operations of
  \<open>app/jobs/service.py\<close> and \<open>app/jobs/mainai_job_lease.py\<close> by any number of owners and
  workers, each operation one transaction. The interface \<open>lease_fencing\<close> says what makes a
  lease generation a fencing token; its interpretation on the model gives the guarantees a
  worker that lost its claim is subject to.
\<close>

section \<open>Steps\<close>

text \<open>
  A creation is one step when its lookup and insert see the same table (\<open>create\<close>), and its
  insert alone when other sessions committed in between (\<open>insert\<close>). \<open>elsewhere\<close> is any write
  that leaves the jobs table alone.
\<close>

inductive job_step :: "db \<Rightarrow> db \<Rightarrow> bool" where
  create: "create_job env (\<lambda>d. d) now fresh job_id owner ty refs who key d = Inr (d', j) \<Longrightarrow>
    job_step d d'"
| insert: "insert_new_job now job_id (new_job now jid owner ty refs who key) d = Inr (d', j) \<Longrightarrow>
    job_step d d'"
| claim_next: "claim_next_mainai_job now locked worker secs d = Inr (d', r) \<Longrightarrow> job_step d d'"
| claim_specific: "claim_specific_mainai_job now jid worker secs d = Inr (d', g) \<Longrightarrow> job_step d d'"
| renew: "renew_mainai_job_lease now jid worker gen secs d = Inr d' \<Longrightarrow> job_step d d'"
| supersede: "mark_job_superseded now jid rq d = Inr d' \<Longrightarrow> job_step d d'"
| decline: "mark_job_failed_after_governed_recovery_decline now jid d = Inr d' \<Longrightarrow> job_step d d'"
| cancel_request: "request_cancel ctx now jid rq d = Inr (d', j) \<Longrightarrow> job_step d d'"
| retry: "retry_job ctx now jid rq d = Inr (d', j) \<Longrightarrow> job_step d d'"
| claimed: "record_claimed now j worker gen d = Inr d' \<Longrightarrow> job_step d d'"
| completed: "mark_completed now j worker gen m d = Inr d' \<Longrightarrow> job_step d d'"
| failed: "mark_failed now j worker gen c d = Inr d' \<Longrightarrow> job_step d d'"
| cancelled: "mark_cancelled now j worker gen d = Inr d' \<Longrightarrow> job_step d d'"
| progress: "update_progress now j worker gen c t ph d = Inr d' \<Longrightarrow> job_step d d'"
| reviewed: "record_document_reviewed now j worker gen cu t pr m ref d = Inr d' \<Longrightarrow> job_step d d'"
| skipped: "record_document_skipped now j worker gen doc reason ec d = Inr d' \<Longrightarrow> job_step d d'"
| elsewhere: "jobs d' = jobs d \<Longrightarrow> job_step d d'"

lemma job_step_ok: "job_step d d' \<Longrightarrow> jobs_ok d \<Longrightarrow> jobs_ok d'"
  by (induction rule: job_step.induct) (blast intro: job_inv jobs_ok_same_jobs dest: create_job_own)+

lemma new_job_queued [simp]: "j_status (new_job now jid owner ty refs who key) = JQueued"
  by (simp add: new_job_def)

lemma job_step_evolves:
  assumes "job_step d d'" and "jobs_ok d"
  shows "jobs_evolve (jobs d) (jobs d')"
  using assms
proof (induction rule: job_step.induct)
  case (claim_next now locked worker secs d d' r)
  then show ?case by (blast intro: claim_next_evolves dest: jobs_okD(1))
next
  case (retry ctx now jid rq d d' j)
  then show ?case by (blast intro: retry_job_evolves dest: jobs_okD(1))
next
  case (insert now job_id jid owner ty refs who key d d' j)
  from insert_new_job_evolves [OF this(1)] show ?case by simp
next
  case (create env now fresh job_id owner ty refs who key d d' j)
  from create_job_own [OF this(1)] show ?case by blast
qed ((rule job_evolve claim_specific_evolves renew_evolves superseded_evolves declined_evolves,
      assumption) | simp)+

lemma job_steps_ok: "job_step\<^sup>*\<^sup>* d d' \<Longrightarrow> jobs_ok d \<Longrightarrow> jobs_ok d'"
  by (induction rule: rtranclp_induct) (auto intro: job_step_ok)

section \<open>Fencing tokens\<close>

locale lease_fencing =
  fixes step :: "'s \<Rightarrow> 's \<Rightarrow> bool"
    and inv :: "'s \<Rightarrow> bool"
    and gen :: "'s \<Rightarrow> 'k \<Rightarrow> int option"
    and holds :: "'s \<Rightarrow> 'k \<Rightarrow> 'w \<Rightarrow> int \<Rightarrow> bool"
  assumes inv_step: "inv s \<Longrightarrow> step s t \<Longrightarrow> inv t"
    and gen_mono: "inv s \<Longrightarrow> step s t \<Longrightarrow> gen s k = Some g \<Longrightarrow> \<exists>h\<ge>g. gen t k = Some h"
    and holds_gen: "inv s \<Longrightarrow> holds s k w g \<Longrightarrow> gen s k = Some g"
    and holds_one: "inv s \<Longrightarrow> holds s k w g \<Longrightarrow> holds s k v g \<Longrightarrow> w = v"
    and holds_new: "inv s \<Longrightarrow> step s t \<Longrightarrow> holds t k w g \<Longrightarrow> gen s k = Some g \<Longrightarrow> holds s k w g"
begin

lemma inv_steps: "step\<^sup>*\<^sup>* s t \<Longrightarrow> inv s \<Longrightarrow> inv t"
  by (induction rule: rtranclp_induct) (auto intro: inv_step)

lemma gen_mono_steps:
  assumes "step\<^sup>*\<^sup>* s t" and "inv s" and "gen s k = Some g"
  shows "\<exists>h\<ge>g. gen t k = Some h"
  using assms(1)
proof (induction rule: rtranclp_induct)
  case base
  then show ?case using assms(3) by auto
next
  case (step u t)
  then obtain h where "g \<le> h" "gen u k = Some h" by auto
  moreover have "inv u" using step(1) assms(2) by (rule inv_steps)
  ultimately show ?case using gen_mono [OF _ step(2)] by force
qed

text \<open>A token that is not held now, and not newer than the row, is never held again.\<close>

lemma stale_forever:
  assumes "step\<^sup>*\<^sup>* s t" and "inv s" and "gen s k = Some h" and "g \<le> h" and "\<not> holds s k w g"
  shows "\<not> holds t k w g"
  using assms(1)
proof (induction rule: rtranclp_induct)
  case base
  show ?case by (fact assms(5))
next
  case (step u t)
  have u: "inv u" using step(1) assms(2) by (rule inv_steps)
  from gen_mono_steps [OF step(1) assms(2,3)] obtain h' where h': "h \<le> h'" "gen u k = Some h'" by auto
  from gen_mono [OF u step(2) h'(2)] obtain h'' where h'': "h' \<le> h''" "gen t k = Some h''" by auto
  show ?case
  proof
    assume held: "holds t k w g"
    with holds_gen [OF inv_step [OF u step(2)] held] h'' have "g = h''" by simp
    with assms(4) h' h'' have "gen u k = Some g" by simp
    from holds_new [OF u step(2) held this] step(3) show False by blast
  qed
qed

text \<open>Across time, a generation is held by one worker only, and later holders are newer.\<close>

lemma held_before:
  assumes "step\<^sup>*\<^sup>* s t" and "inv s" and "gen s k = Some g" and "holds t k w g"
  shows "holds s k w g"
  using stale_forever [OF assms(1-3)] assms(4) by blast

lemma fenced:
  assumes "step\<^sup>*\<^sup>* s t" and "inv s" and "holds s k w g" and "holds t k v h"
  shows "g \<le> h \<and> (g = h \<longrightarrow> w = v)"
proof -
  have g: "gen s k = Some g" using assms(2,3) by (rule holds_gen)
  from gen_mono_steps [OF assms(1,2) g] have "g \<le> h"
    using holds_gen [OF inv_steps [OF assms(1,2)] assms(4)] by auto
  moreover have "w = v" if "g = h"
    using held_before [OF assms(1,2) g] assms(4) that holds_one [OF assms(2,3)] by blast
  ultimately show ?thesis by blast
qed

end

subsection \<open>On the jobs table\<close>

definition job_gen :: "db \<Rightarrow> uuid \<Rightarrow> int option" where
  "job_gen d jid = map_option j_lease_generation (find_row (\<lambda>j. j_id j = jid) (jobs d))"

lemma holder_find_iff:
  assumes "jobs_ok d"
  shows "holder d jid worker gen \<longleftrightarrow>
    (\<exists>j. find_row (\<lambda>j. j_id j = jid) (jobs d) = Some j \<and> holds_claim jid worker gen j)"
proof
  assume "holder d jid worker gen"
  then obtain j where j: "j \<in> set (jobs d)" "holds_claim jid worker gen j"
    by (auto simp: holder_def list_ex_iff)
  with unique_key_find [OF jobs_okD(1) [OF assms] j(1)]
  show "\<exists>j. find_row (\<lambda>j. j_id j = jid) (jobs d) = Some j \<and> holds_claim jid worker gen j"
    by (auto simp: holds_claim_def)
qed (auto simp: holder_def list_ex_iff dest: find_row_SomeD)

lemma evolves_holds:
  assumes "evolves j j'" and "holds_claim jid worker gen j'" and "j_lease_generation j = gen"
  shows "holds_claim jid worker gen j"
  using assms by (auto simp: evolves_def holds_claim_def)

interpretation job_lease: lease_fencing job_step jobs_ok job_gen holder
proof
  show "jobs_ok s \<Longrightarrow> job_step s t \<Longrightarrow> jobs_ok t" for s t
    by (rule job_step_ok)
  show "\<exists>h\<ge>g. job_gen t k = Some h" if "jobs_ok s" "job_step s t" "job_gen s k = Some g" for s t k g
  proof -
    from that(3) obtain j where "find_row (\<lambda>j. j_id j = k) (jobs s) = Some j"
      and g: "g = j_lease_generation j" by (auto simp: job_gen_def)
    from jobs_evolve_find [OF job_step_evolves [OF that(2,1)] this(1)] obtain j'
      where j': "find_row (\<lambda>j. j_id j = k) (jobs t) = Some j'" "evolves j j'" .
    then have "g \<le> j_lease_generation j'" using g by (auto simp: evolves_def)
    with j'(1) show ?thesis by (auto simp: job_gen_def)
  qed
  show "job_gen s k = Some g" if "jobs_ok s" "holder s k w g" for s k w g
    using that by (auto simp: holder_find_iff job_gen_def holds_claim_def)
  show "w = v" if "jobs_ok s" "holder s k w g" "holder s k v g" for s k w v g
    using that by (auto simp: holder_find_iff holds_claim_def)
  show "holder s k w g"
    if s: "jobs_ok s" and st: "job_step s t" and h: "holder t k w g" and g: "job_gen s k = Some g"
    for s t k w g
  proof -
    from g obtain j where j: "find_row (\<lambda>j. j_id j = k) (jobs s) = Some j" "j_lease_generation j = g"
      by (auto simp: job_gen_def)
    from jobs_evolve_find [OF job_step_evolves [OF st s] j(1)] obtain j'
      where "find_row (\<lambda>j. j_id j = k) (jobs t) = Some j'" and "evolves j j'" .
    with h j(2) have "holds_claim k w g j"
      by (auto simp: holder_find_iff job_step_ok [OF st s] intro: evolves_holds)
    with s j(1) show ?thesis by (auto simp: holder_find_iff)
  qed
qed

section \<open>What a worker that lost its claim can still write\<close>

text \<open>Every worker-driven write of the service and of the lease module, at one row.\<close>

inductive worker_write :: "mainai_job \<Rightarrow> string \<Rightarrow> int \<Rightarrow> db \<Rightarrow> error + db \<Rightarrow> bool" where
  "worker_write j worker gen d (record_claimed now j worker gen d)"
| "worker_write j worker gen d (mark_completed now j worker gen m d)"
| "worker_write j worker gen d (mark_failed now j worker gen c d)"
| "worker_write j worker gen d (mark_cancelled now j worker gen d)"
| "current \<noteq> None \<or> tot \<noteq> None \<or> phase \<noteq> None \<Longrightarrow>
   worker_write j worker gen d (update_progress now j worker gen current tot phase d)"
| "worker_write j worker gen d (record_document_reviewed now j worker gen cu t pr m ref d)"
| "worker_write j worker gen d (record_document_skipped now j worker gen doc reason ec d)"
| "worker_write j worker gen d (renew_mainai_job_lease now (j_id j) worker gen secs d)"

lemma sql_update_none:
  assumes "\<not> holder d jid worker gen"
  shows "sql_update_jobs (holds_claim jid worker gen) f d = Inr (d, 0)"
proof -
  have none: "\<forall>j\<in>set (jobs d). \<not> holds_claim jid worker gen j"
    using assms by (auto simp: holder_def list_ex_iff)
  then show ?thesis
    by (simp add: sql_update_jobs_def update_rows_idle filter_empty_conv)
qed

lemma worker_write_lost:
  assumes "worker_write j worker gen d r" and "\<not> holder d (j_id j) worker gen"
  shows "r = Inl (JobLeaseLost (j_id j) worker gen)"
  using assms
  by (cases rule: worker_write.cases)
    (auto simp: record_claimed_def mark_completed_def mark_failed_def mark_failed_flush_def
      mark_cancelled_def update_progress_def record_document_reviewed_def
      record_document_skipped_def renew_mainai_job_lease_def guarded_lost sql_update_none)

end
