(* ===== verification/JobClaims.thy ===== *)
theory JobClaims
  imports JobRuntime
begin

text \<open>
  What the job runtime promises its owners and workers, stated over \<open>job_step\<close>, with a concrete
  run (one job, claimed, its lease expired, claimed again) that the hypotheses are instantiated
  on.
\<close>

section \<open>A concrete run\<close>

definition sample_job :: mainai_job where
  "sample_job = new_job 0 1 7 ''corpus_review'' [] ''owner'' (Some ''k'')"

definition sample_claimed :: mainai_job where
  "sample_claimed = claim_set 5 ''w1'' 60 sample_job"

definition sample_reclaimed :: mainai_job where
  "sample_reclaimed = claim_set 100 ''w2'' 60 sample_claimed"

abbreviation jobs_db :: "mainai_job list \<Rightarrow> db" where
  "jobs_db js \<equiv> empty_db\<lparr>jobs := js\<rparr>"

lemmas sample_defs = sample_reclaimed_def sample_claimed_def sample_job_def claim_set_def new_job_def

lemmas check_defs = job_checks_def checks_0026_def checks_0028_def checks_0034_def
  terminal_job_status_def

lemma sample_ok [simp]:
  "jobs_ok (jobs_db [])" "jobs_ok empty_db"
  "jobs_ok (jobs_db [sample_job])" "jobs_ok (jobs_db [sample_claimed])"
  "jobs_ok (jobs_db [sample_reclaimed])"
  by (auto simp: jobs_ok_def unique_key_def keys_unique_def sample_defs check_defs empty_db_def)

lemma sample_claim:
  "claim_next_mainai_job 5 {} ''w1'' 60 (jobs_db [sample_job]) =
     Inr (jobs_db [sample_claimed], Some (1, 7, 1))"
  by (simp add: claim_next_mainai_job_def sample_defs mainai_claimable_def claimable_job_statuses_def
      sql_update_jobs_def job_update_ok_def progress_trigger_ok_def superseded_fk_ok_def check_defs)

lemma sample_reclaim:
  "claim_next_mainai_job 100 {} ''w2'' 60 (jobs_db [sample_claimed]) =
     Inr (jobs_db [sample_reclaimed], Some (1, 7, 2))"
  by (simp add: claim_next_mainai_job_def sample_defs mainai_claimable_def claimable_job_statuses_def
      lease_expired_def
      sql_update_jobs_def job_update_ok_def progress_trigger_ok_def superseded_fk_ok_def check_defs)

lemma sample_run:
  "job_step\<^sup>*\<^sup>* (jobs_db [sample_job]) (jobs_db [sample_claimed])"
  "job_step\<^sup>*\<^sup>* (jobs_db [sample_claimed]) (jobs_db [sample_reclaimed])"
  using sample_claim sample_reclaim by (blast intro: job_step.claim_next)+

lemma sample_holders [simp]:
  "holder (jobs_db [sample_claimed]) 1 ''w1'' 1" "holder (jobs_db [sample_reclaimed]) 1 ''w2'' 2"
  "\<not> holder (jobs_db [sample_reclaimed]) 1 ''w1'' 1"
  by (simp_all add: holder_def holds_claim_def sample_defs)

section \<open>Fencing\<close>

text \<open>C1: a lease generation is a fencing token. Whatever the workers and owners do between two
  moments, a claim held at the later moment carries a generation at least as large as one held at
  the earlier moment, and a generation is never held by two different workers, so two workers
  never both pass the gate with the same token, not even at different times.\<close>

theorem lease_generation_fences:
  assumes "jobs_ok d" and "job_step\<^sup>*\<^sup>* d d'"
    and "holder d jid w g" and "holder d' jid v h"
  shows "g \<le> h \<and> (g = h \<longrightarrow> w = v)"
  using assms by (blast dest: job_lease.fenced)

theorem lease_generation_fences_witness:
  "holder (jobs_db [sample_claimed]) 1 ''w1'' 1 \<and> holder (jobs_db [sample_reclaimed]) 1 ''w2'' 2 \<and>
   job_step\<^sup>*\<^sup>* (jobs_db [sample_claimed]) (jobs_db [sample_reclaimed]) \<and> (1::int) \<le> 2"
  using lease_generation_fences [OF sample_ok(4) sample_run(2) sample_holders(1,2)]
  by (simp add: sample_holders sample_run)

text \<open>C2: once a worker's claim is gone (cancelled, finished, reclaimed by anybody), every later
  write it attempts under the old generation is refused with \<open>JobLeaseLost\<close> and changes nothing:
  completion, failure, cancellation, progress, a reviewed or skipped document, the claim event and
  the heartbeat alike, after any number of steps of anybody.\<close>

theorem stale_worker_never_writes:
  assumes "jobs_ok d" and "job_gen d (j_id j) = Some h" and "g \<le> h"
    and "\<not> holder d (j_id j) w g" and "job_step\<^sup>*\<^sup>* d d'" and "worker_write j w g d' r"
  shows "r = Inl (JobLeaseLost (j_id j) w g)"
  using assms by (blast intro: worker_write_lost dest: job_lease.stale_forever)

theorem stale_worker_never_writes_witness:
  "mark_completed 130 sample_claimed ''w1'' 1 None (jobs_db [sample_reclaimed]) =
     Inl (JobLeaseLost 1 ''w1'' 1)"
proof -
  have gen: "job_gen (jobs_db [sample_reclaimed]) (j_id sample_claimed) = Some 2"
    and lost: "\<not> holder (jobs_db [sample_reclaimed]) (j_id sample_claimed) ''w1'' 1"
    and jid: "j_id sample_claimed = 1"
    by (simp_all add: job_gen_def holder_def holds_claim_def sample_defs)
  have "(1::int) \<le> 2" by simp
  from stale_worker_never_writes [OF sample_ok(5) gen this lost rtranclp.rtrancl_refl]
  show ?thesis by (metis jid worker_write.intros(2))
qed

text \<open>In every state the runtime can reach, the terminal writes do exactly what they say for
  the holder of the claim and nothing for anybody else: the row gets the terminal status and its
  completion time, the event and the audit entry are appended, no constraint of the table can
  make them fail, and a caller without the claim gets \<open>JobLeaseLost\<close>.\<close>

theorem terminal_writes_exact:
  assumes "jobs_ok d"
  shows "(mark_completed now j worker gen message d =
      (if holder d (j_id j) worker gen
       then Inr (record_audit (Some (j_owner j)) ''mainai_job_completed'' (j_id j) None
              (record_event now j EvCompleted []
                (d\<lparr>jobs := update_rows (holds_claim (j_id j) worker gen)
                    (\<lambda>r. r\<lparr>j_status := JCompleted, j_completed_at := Some now,
                       j_public_message := Some (case message of None \<Rightarrow> ''Completed.''
                                   | Some m \<Rightarrow> if m = [] then ''Completed.'' else m)\<rparr>) (jobs d)\<rparr>)))
       else Inl (JobLeaseLost (j_id j) worker gen))) \<and>
    (mark_failed now j worker gen category d =
      (if holder d (j_id j) worker gen
       then Inr (record_audit (Some (j_owner j)) ''mainai_job_failed'' (j_id j)
                   (Some (job_error_value category))
              (record_event now j EvFailed [(''error_category'', JStr (job_error_value category))]
                (d\<lparr>jobs := update_rows (holds_claim (j_id j) worker gen)
                    (\<lambda>r. r\<lparr>j_status := JFailed, j_completed_at := Some now,
                       j_error_category := Some category,
                       j_public_message := Some (public_error_message category)\<rparr>) (jobs d)\<rparr>)))
       else Inl (JobLeaseLost (j_id j) worker gen))) \<and>
    (mark_cancelled now j worker gen d =
      (if holder d (j_id j) worker gen
       then Inr (record_audit (Some (j_owner j)) ''mainai_job_cancelled'' (j_id j) None
              (record_event now j EvCancelled [] (record_event now j EvCancelAcknowledged []
                (d\<lparr>jobs := update_rows (holds_claim (j_id j) worker gen)
                    (\<lambda>r. r\<lparr>j_status := JCancelled, j_completed_at := Some now,
                       j_cancel_acknowledged := True,
                       j_public_message := Some (public_error_message ErrCancelledByOwner)\<rparr>)
                    (jobs d)\<rparr>))))
       else Inl (JobLeaseLost (j_id j) worker gen)))"
  using assms by (intro conjI mark_completed_total mark_failed_total mark_cancelled_total)

theorem terminal_writes_exact_witness:
  "(case mark_cancelled 130 sample_reclaimed ''w2'' 2 (jobs_db [sample_reclaimed]) of
      Inl e \<Rightarrow> False
    | Inr d \<Rightarrow> map j_status (jobs d) = [JCancelled] \<and>
              map ev_type (job_events d) = [EvCancelAcknowledged, EvCancelled])"
  using terminal_writes_exact [OF sample_ok(5), of 130 sample_reclaimed "''w2''" 2]
  by (simp add: holder_def holds_claim_def sample_defs empty_db_def)

section \<open>The lifecycle of a job\<close>

text \<open>What a job keeps over any number of steps.\<close>

definition same_request :: "mainai_job \<Rightarrow> mainai_job \<Rightarrow> bool" where
  "same_request j j' \<longleftrightarrow>
     j_id j' = j_id j \<and> j_owner j' = j_owner j \<and> j_type j' = j_type j \<and>
     j_created_at j' = j_created_at j \<and> j_input_refs j' = j_input_refs j \<and>
     j_idempotency_key j' = j_idempotency_key j \<and> j_max_retries j' = j_max_retries j"

definition descends :: "mainai_job \<Rightarrow> mainai_job \<Rightarrow> bool" where
  "descends j j' \<longleftrightarrow>
     same_request j j' \<and> j_retry_count j \<le> j_retry_count j' \<and>
     (j_started_at j = None \<or> j_started_at j' = j_started_at j) \<and>
     j_lease_generation j \<le> j_lease_generation j' \<and>
     (j_status j = JSuperseded \<longrightarrow> j_status j' = JSuperseded) \<and>
     (j_status j' = JPaused \<longrightarrow> j_status j = JPaused) \<and>
     (j_status j' = JRunning \<and> j_lease_generation j' = j_lease_generation j \<longrightarrow>
        j_status j = JRunning \<and> j_locked_by j' = j_locked_by j)"

lemma descends_refl: "descends j j"
  by (simp add: descends_def same_request_def)

lemma job_transition_ends:
  "job_transition JSuperseded t \<Longrightarrow> t = JSuperseded"
  "job_transition s JPaused \<Longrightarrow> s = JPaused"
  by (cases s; simp)+

lemma descends_evolves: "evolves j j' \<Longrightarrow> descends j j'"
  by (auto simp: evolves_def descends_def same_request_def dest: job_transition_ends)

lemma same_request_trans: "same_request i j \<Longrightarrow> same_request j k \<Longrightarrow> same_request i k"
  unfolding same_request_def by (elim conjE, intro conjI) (metis+)

lemma descendsD:
  assumes "descends j j'"
  shows "same_request j j'" and "j_retry_count j \<le> j_retry_count j'"
    and "j_started_at j = None \<or> j_started_at j' = j_started_at j"
    and "j_lease_generation j \<le> j_lease_generation j'"
    and "j_status j = JSuperseded \<Longrightarrow> j_status j' = JSuperseded"
    and "j_status j' = JPaused \<Longrightarrow> j_status j = JPaused"
    and "j_status j' = JRunning \<Longrightarrow> j_lease_generation j' = j_lease_generation j \<Longrightarrow>
           j_status j = JRunning \<and> j_locked_by j' = j_locked_by j"
  using assms unfolding descends_def by blast+

lemma descends_trans:
  assumes ij: "descends i j" and jk: "descends j k"
  shows "descends i k"
  unfolding descends_def
proof (intro conjI impI)
  show "same_request i k" using descendsD(1) [OF ij] descendsD(1) [OF jk] by (rule same_request_trans)
  show "j_retry_count i \<le> j_retry_count k" using descendsD(2) [OF ij] descendsD(2) [OF jk] by simp
  show "j_started_at i = None \<or> j_started_at k = j_started_at i"
    using descendsD(3) [OF ij] descendsD(3) [OF jk] by metis
  show "j_lease_generation i \<le> j_lease_generation k"
    using descendsD(4) [OF ij] descendsD(4) [OF jk] by simp
  show "j_status k = JSuperseded" if "j_status i = JSuperseded"
    using descendsD(5) [OF jk descendsD(5) [OF ij that]] .
  show "j_status i = JPaused" if "j_status k = JPaused"
    using descendsD(6) [OF ij descendsD(6) [OF jk that]] .
  assume k: "j_status k = JRunning \<and> j_lease_generation k = j_lease_generation i"
  then have g: "j_lease_generation k = j_lease_generation j" "j_lease_generation j = j_lease_generation i"
    using descendsD(4) [OF ij] descendsD(4) [OF jk] by simp_all
  have run: "j_status j = JRunning \<and> j_locked_by k = j_locked_by j"
    using k by (intro descendsD(7) [OF jk _ g(1)]) simp
  then have "j_status i = JRunning \<and> j_locked_by j = j_locked_by i"
    by (intro descendsD(7) [OF ij _ g(2)]) simp
  with run show "j_status i = JRunning" and "j_locked_by k = j_locked_by i" by simp_all
qed

lemma job_steps_descend:
  assumes "job_step\<^sup>*\<^sup>* d d'" and "jobs_ok d" and "find_row (\<lambda>j. j_id j = jid) (jobs d) = Some j"
  shows "\<exists>j'. find_row (\<lambda>j. j_id j = jid) (jobs d') = Some j' \<and> descends j j'"
  using assms(1)
proof (induction rule: rtranclp_induct)
  case base
  then show ?case using assms(3) descends_refl by blast
next
  case (step u t)
  then obtain i where i: "find_row (\<lambda>j. j_id j = jid) (jobs u) = Some i" "descends j i" by blast
  from jobs_evolve_find [OF job_step_evolves [OF step(2) job_steps_ok [OF step(1) assms(2)]] i(1)]
  obtain k where "find_row (\<lambda>j. j_id j = jid) (jobs t) = Some k" "evolves i k" .
  with i(2) show ?case by (blast intro: descends_evolves descends_trans)
qed

lemma ok_row_checks:
  assumes "jobs_ok d" and "find_row p (jobs d) = Some j"
  shows "job_checks j"
  using assms by (blast dest: find_row_SomeD jobs_okD(2))

lemma job_checksD:
  assumes "job_checks j"
  shows "0 \<le> j_progress_current j" and "j_retry_count j \<le> j_max_retries j"
    and "\<And>n. j_progress_total j = Some n \<Longrightarrow> j_progress_current j \<le> n"
    and "terminal_job_status (j_status j) \<longleftrightarrow> j_completed_at j \<noteq> None"
  using assms by (simp_all add: job_checks_def checks_0026_def checks_0028_def checks_0034_def)





section \<open>Claiming\<close>

lemma claim_update_ok:
  assumes "job_checks j" and "mainai_claimable now locked j"
  shows "job_update_ok d j (claim_set now worker secs j) \<and>
    superseded_fk_ok d (claim_set now worker secs j)"
  using assms
  by (auto simp: job_update_ok_def progress_trigger_ok_def check_defs claim_set_def
      superseded_fk_ok_def mainai_claimable_def claimable_job_statuses_def split: option.splits)

text \<open>The claim takes the oldest claimable job, or reports that there is none, and never fails:
  claimable is queued, or running under an expired lease, and not locked by another transaction; a
  dead task execution is never among them (it is left to the recovery service). Exactly that row
  is leased to the worker under the next generation, and the worker then holds it.\<close>

theorem claim_next_takes_oldest:
  assumes "jobs_ok d"
  shows "(\<forall>j\<in>set (jobs d). \<not> mainai_claimable now locked j) \<and>
           claim_next_mainai_job now locked worker secs d = Inr (d, None) \<or>
         (\<exists>j\<in>set (jobs d). mainai_claimable now locked j \<and>
            (j_type j = ''task_execution'' \<longrightarrow> j_status j = JQueued) \<and>
            (\<forall>i\<in>set (jobs d). mainai_claimable now locked i \<longrightarrow> j_created_at j \<le> j_created_at i) \<and>
            claim_next_mainai_job now locked worker secs d =
              Inr (d\<lparr>jobs := update_rows (\<lambda>r. j_id r = j_id j) (claim_set now worker secs) (jobs d)\<rparr>,
                   Some (j_id j, j_owner j, j_lease_generation j + 1)) \<and>
            holder (d\<lparr>jobs := update_rows (\<lambda>r. j_id r = j_id j) (claim_set now worker secs) (jobs d)\<rparr>)
              (j_id j) worker (j_lease_generation j + 1))"
proof (cases "first_min j_created_at (filter (mainai_claimable now locked) (jobs d))")
  case None
  then show ?thesis by (auto simp: claim_next_mainai_job_def filter_empty_conv)
next
  case (Some j)
  note c = first_claimable [OF Some]
  have only: "i = j" if "i \<in> set (jobs d)" "j_id i = j_id j" for i
    by (rule unique_key_eqD [OF jobs_okD(1) [OF assms] that(1) c(1) that(2)])
  let ?d = "d\<lparr>jobs := update_rows (\<lambda>r. j_id r = j_id j) (claim_set now worker secs) (jobs d)\<rparr>"
  have "sql_update_jobs (\<lambda>r. j_id r = j_id j) (claim_set now worker secs) d =
      Inr (?d, length (filter (\<lambda>r. j_id r = j_id j) (jobs d)))"
    unfolding sql_update_jobs_Inr_iff
    using claim_update_ok [OF jobs_okD(2) [OF assms c(1)] c(2)] only by auto
  moreover have "holder ?d (j_id j) worker (j_lease_generation j + 1)"
    using c(1) unfolding holder_def list_ex_iff
    by (intro bexI [of _ "claim_set now worker secs j"])
      (auto simp: in_update_rows_iff holds_claim_def claim_set_def)
  moreover have "j_type j = ''task_execution'' \<longrightarrow> j_status j = JQueued"
    using c(2) by (auto simp: mainai_claimable_def claimable_job_statuses_def)
  ultimately show ?thesis using c Some by (auto simp: claim_next_mainai_job_def)
qed

theorem claim_next_takes_oldest_witness:
  "\<exists>j\<in>set [sample_claimed]. mainai_claimable 100 {} j \<and>
     claim_next_mainai_job 100 {} ''w2'' 60 (jobs_db [sample_claimed]) \<noteq> Inr (jobs_db [sample_claimed], None)"
  using claim_next_takes_oldest [OF sample_ok(4), of 100 "{}" "''w2''" 60]
  by (auto simp: sample_reclaim)

section \<open>Creating\<close>

lemma keyed_row_found:
  assumes "jobs_ok d" and "j \<in> set (jobs d)" and "same_key owner key j"
  shows "find_row (same_key owner key) (jobs d) = Some j"
proof (cases "find_row (same_key owner key) (jobs d)")
  case None
  with assms(2,3) show ?thesis by (auto simp: find_row_None_iff)
next
  case (Some i)
  then have i: "i \<in> set (jobs d)" "same_key owner key i" by (auto dest: find_row_SomeD)
  with assms(3) have "same_key (j_owner i) (j_idempotency_key i) j" by (auto simp: same_key_def)
  with assms(1,2) i(1) have "j_id i = j_id j" by (auto simp: jobs_ok_def keys_unique_def)
  with jobs_okD(1) [OF assms(1)] i(1) assms(2) have "i = j" by (rule unique_key_eqD)
  with Some show ?thesis by simp
qed

lemma create_returns_row:
  assumes "create_job env (\<lambda>d. d) now fresh job_id owner ty refs who (Some k) d = Inr (d', j)"
    and "k \<noteq> []"
  shows "j \<in> set (jobs d') \<and> same_key owner (Some k) j \<and>
    canonical_request_fingerprint (j_type j) (j_input_refs j) = canonical_request_fingerprint ty refs"
  using assms(1)
  by (cases rule: create_job_cases)
    (auto dest!: find_row_SomeD simp: insert_job_Inr_iff new_job_def same_key_def)

text \<open>Creation is idempotent under its key. Once a keyed request has returned a job, every
  later request of the same owner with that key returns that same job and writes nothing if it
  asks for the same job type and the same references in any order, and is refused with the id of
  the existing job otherwise; whatever happened in between, and even if the capability or the
  references would no longer be accepted.\<close>

theorem create_job_idempotent:
  assumes "jobs_ok d"
    and "create_job env (\<lambda>d. d) now fresh job_id owner ty refs who (Some k) d = Inr (d1, j)"
    and "k \<noteq> []" and "job_step\<^sup>*\<^sup>* d1 d2"
  shows "\<exists>j2. find_row (\<lambda>r. j_id r = j_id j) (jobs d2) = Some j2 \<and>
    create_job env' others now' fresh' job_id' owner ty' refs' who' (Some k) d2 =
      (if canonical_request_fingerprint ty' refs' = canonical_request_fingerprint ty refs
       then Inr (d2, j2) else Inl (IdempotencyConflict k (j_id j)))"
proof -
  have ok1: "jobs_ok d1" using create_job_own [OF assms(2)] assms(1) by simp
  note j = create_returns_row [OF assms(2,3)]
  have "find_row (\<lambda>r. j_id r = j_id j) (jobs d1) = Some j"
    using unique_key_find [OF jobs_okD(1) [OF ok1]] j by blast
  from job_steps_descend [OF assms(4) ok1 this] obtain j2
    where j2: "find_row (\<lambda>r. j_id r = j_id j) (jobs d2) = Some j2" and "descends j j2" by blast
  then have same: "j_id j2 = j_id j" "j_type j2 = j_type j" "j_input_refs j2 = j_input_refs j"
    and k2: "same_key owner (Some k) j2"
    using j descendsD(1) [of j j2] by (auto simp: same_request_def same_key_def)
  have "find_row (same_key owner (Some k)) (jobs d2) = Some j2"
    using job_steps_ok [OF assms(4) ok1] j2 k2 by (blast intro: keyed_row_found dest: find_row_SomeD)
  with assms(3) j same j2 show ?thesis
    by (auto simp: create_job_def resolve_replay_def)
qed

definition chat_env :: runtime_env where
  "chat_env = \<lparr>role_configured = (\<lambda>r. r = ''chat''), in_production = True\<rparr>"

text \<open>A keyed backfill request, then the same request again and another one under its key.\<close>

lemma sample_create:
  "\<exists>d. create_job chat_env (\<lambda>d. d) 0 1 None 7 ''message_source_backfill'' [] ''owner'' (Some ''k'')
     empty_db = Inr (d, new_job 0 1 7 ''message_source_backfill'' [] ''owner'' (Some ''k''))"
  by (simp add: create_job_def Let_def insert_new_job_def insert_job_def new_job_def check_defs
      empty_db_def
      require_capability_Inr_iff validate_refs_for_type_def
      require_capability_def get_capability_status_def capability_manifest_def
      capability_provider_role_def capability_write_profile_def)

theorem create_job_idempotent_witness:
  "\<exists>d1. create_job chat_env (\<lambda>d. d) 0 1 None 7 ''message_source_backfill'' [] ''owner'' (Some ''k'')
       empty_db = Inr (d1, new_job 0 1 7 ''message_source_backfill'' [] ''owner'' (Some ''k'')) \<and>
     create_job chat_env (\<lambda>d. d) 9 2 None 7 ''corpus_review'' [] ''owner'' (Some ''k'') d1 =
       Inl (IdempotencyConflict ''k'' 1)"
proof -
  from sample_create obtain d1 where c: "create_job chat_env (\<lambda>d. d) 0 1 None 7
      ''message_source_backfill'' [] ''owner'' (Some ''k'') empty_db =
      Inr (d1, new_job 0 1 7 ''message_source_backfill'' [] ''owner'' (Some ''k''))" ..
  have "''k'' \<noteq> []" by simp
  from create_job_idempotent [OF sample_ok(2) c this rtranclp.rtrancl_refl,
      of chat_env "\<lambda>d. d" 9 2 None "''corpus_review''" "[]" "''owner''"]
  have "create_job chat_env (\<lambda>d. d) 9 2 None 7 ''corpus_review'' [] ''owner'' (Some ''k'') d1 =
      Inl (IdempotencyConflict ''k'' 1)"
    by (auto simp: canonical_request_fingerprint_def new_job_def)
  with c show ?thesis by blast
qed

lemma validate_each_Inr_iff: "validate_each v rs = Inr () \<longleftrightarrow> (\<forall>r\<in>set rs. v r = Inr ())"
  by (induction rs) (auto simp: err_simps)

definition owned_indexed_document :: "db \<Rightarrow> uuid \<Rightarrow> jdict \<Rightarrow> bool" where
  "owned_indexed_document d owner ref \<longleftrightarrow>
     jget ref ''type'' = JStr ''document'' \<and>
     (\<exists>doc\<in>set (documents d). json_uuid (jget ref ''id'') = Some (d_id doc) \<and>
        d_uploaded_by doc = owner \<and> d_deleted_at doc = None \<and> d_status doc = Indexed)"

lemma validate_document_ref_owned:
  "validate_document_ref d owner ref = Inr () \<Longrightarrow> owned_indexed_document d owner ref"
  by (auto simp: validate_document_ref_def owned_indexed_document_def
      dest!: find_row_SomeD split: if_splits option.splits)

text \<open>A new job only comes into being checked. If a creation adds a row, the job type is a
  listed capability whose provider is configured; a corpus review names at least one reference and
  every one is a document of that owner that is indexed and not deleted; the backfills name none;
  and a task execution names exactly one task of the owner that is in the status the caller's
  claim requires, with its goal's approval granted where the policy asks for it.\<close>

theorem created_job_is_checked:
  assumes "create_job env others now fresh job_id owner ty refs who key d = Inr (d', j)"
    and "j_id j \<notin> j_id ` set (jobs (others d))" and "j_id j \<notin> j_id ` set (jobs d)"
  shows "jobs d' = jobs (others d) @ [j] \<and> j_owner j = owner \<and> j_status j = JQueued \<and>
    ty \<in> capability_manifest \<and>
    (ty = ''corpus_review'' \<longrightarrow> refs \<noteq> [] \<and> list_all (owned_indexed_document d owner) refs) \<and>
    (ty \<in> {''message_sequence_backfill'', ''message_source_backfill''} \<longrightarrow> refs = []) \<and>
    (ty = ''task_execution'' \<longrightarrow>
       (\<exists>ref t g. refs = [ref] \<and> t \<in> set (tasks d) \<and> json_uuid (jget ref ''id'') = Some (t_id t) \<and>
          t_owner t = owner \<and> t_status t = (if job_id \<noteq> None then TRunning else TReady) \<and>
          g \<in> set (goals d) \<and> g_id g = t_goal t \<and> g_owner g = owner \<and>
          require_task_approval d t (g_approval_policy g) = Inr ()))"
  using assms(1)
proof (cases rule: create_job_cases)
  case (replay k)
  with assms(3) show ?thesis by (auto dest: find_row_SomeD)
next
  case lost_race
  with assms(2) show ?thesis by (auto dest: find_row_SomeD)
next
  case (created d2)
  note v = created(3) [unfolded validate_refs_for_type_def]
  have "ty \<in> capability_manifest"
    using created(2) by (auto simp: require_capability_Inr_iff capability_manifest_def)
  moreover have "refs \<noteq> [] \<and> list_all (owned_indexed_document d owner) refs" if "ty = ''corpus_review''"
    using v that
    by (auto simp: validate_input_refs_def validate_each_Inr_iff list_all_iff
        intro: validate_document_ref_owned split: if_splits)
  moreover have "refs = []" if "ty \<in> {''message_sequence_backfill'', ''message_source_backfill''}"
    using v that by auto
  moreover have "\<exists>ref t g. refs = [ref] \<and> t \<in> set (tasks d) \<and>
          json_uuid (jget ref ''id'') = Some (t_id t) \<and>
          t_owner t = owner \<and> t_status t = (if job_id \<noteq> None then TRunning else TReady) \<and>
          g \<in> set (goals d) \<and> g_id g = t_goal t \<and> g_owner g = owner \<and>
          require_task_approval d t (g_approval_policy g) = Inr ()" if "ty = ''task_execution''"
    using v that
    by (force simp: validate_task_execution_input_refs_def dest!: find_row_SomeD
        split: list.splits option.splits sum.splits if_splits)
  ultimately show ?thesis
    using created by (auto simp: insert_job_Inr_iff new_job_def)
qed

theorem created_job_is_checked_witness:
  "\<exists>d'. create_job chat_env (\<lambda>d. d) 0 1 None 7 ''message_source_backfill'' [] ''owner'' (Some ''k'')
       empty_db = Inr (d', new_job 0 1 7 ''message_source_backfill'' [] ''owner'' (Some ''k'')) \<and>
     jobs d' = [new_job 0 1 7 ''message_source_backfill'' [] ''owner'' (Some ''k'')]"
proof -
  from sample_create obtain d1 where c: "create_job chat_env (\<lambda>d. d) 0 1 None 7
      ''message_source_backfill'' [] ''owner'' (Some ''k'') empty_db =
      Inr (d1, new_job 0 1 7 ''message_source_backfill'' [] ''owner'' (Some ''k''))" ..
  from created_job_is_checked [OF c] c show ?thesis by (simp add: empty_db_def)
qed

section \<open>The owner's view\<close>

definition rows_of_others :: "uuid \<Rightarrow> db \<Rightarrow> mainai_job list" where
  "rows_of_others u d = filter (\<lambda>j. j_owner j \<noteq> u) (jobs d)"

lemma rows_of_others_update:
  assumes "\<And>j. j \<in> set (jobs d) \<Longrightarrow> p j \<Longrightarrow> j_owner j = u" and "\<And>j. j_owner (f j) = j_owner j"
  shows "rows_of_others u (d\<lparr>jobs := update_rows p f (jobs d)\<rparr>) = rows_of_others u d"
proof -
  have "filter (\<lambda>j. j_owner j \<noteq> u) (update_rows p f t) = filter (\<lambda>j. j_owner j \<noteq> u) t"
    if "\<forall>j\<in>set t. p j \<longrightarrow> j_owner j = u" for t
    using that assms(2) by (induction t) auto
  with assms(1) show ?thesis by (simp add: rows_of_others_def)
qed

lemma own_row:
  assumes "jobs_ok d" and "get_job (Some u) jid d = Inr j" and "i \<in> set (jobs d)" and "j_id i = jid"
  shows "i = j" and "j_owner i = u"
proof -
  from get_jobD [OF assms(2)] have j: "j \<in> set (jobs d)" "j_id j = jid" "j_owner j = u"
    by (simp_all add: visible_def)
  show "i = j" using unique_key_eqD [OF jobs_okD(1) [OF assms(1)] assms(3) j(1)] assms(4) j(2) by simp
  with j show "j_owner i = u" by simp
qed

lemma others_sql_update:
  assumes "jobs_ok d" and "get_job (Some u) jid d = Inr j"
    and "sql_update_jobs (\<lambda>r. j_id r = jid) f d = Inr (d1, n)" and "\<And>j. j_owner (f j) = j_owner j"
  shows "rows_of_others u d1 = rows_of_others u d"
  using assms(3) rows_of_others_update [OF own_row(2) [OF assms(1,2)] assms(4)]
  by (simp add: sql_update_jobs_Inr_iff)

lemma rows_of_others_frame [simp]:
  "rows_of_others u (record_event now j ty dt d) = rows_of_others u d"
  "rows_of_others u (record_audit w a e det d) = rows_of_others u d"
  by (simp_all add: rows_of_others_def)

lemma get_job_foreign:
  assumes "jobs_ok d" and "j \<in> set (jobs d)" and "j_owner j \<noteq> u"
  shows "get_job (Some u) (j_id j) d = Inl (JobNotFound (j_id j))"
proof (cases "get_job (Some u) (j_id j) d")
  case (Inl e)
  then show ?thesis by (simp add: get_job_def)
next
  case (Inr i)
  from own_row(2) [OF assms(1) Inr assms(2)] assms(3) show ?thesis by simp
qed

text \<open>A session scoped to one owner neither sees nor changes anybody else's jobs: another
  owner's job is indistinguishable from one that does not exist, for reading it, its events, for
  cancelling and for retrying it, it is never listed, and a successful cancel or retry leaves the
  rows of all other owners as they were.\<close>

theorem owner_isolation:
  assumes "jobs_ok d"
  shows "(\<forall>j\<in>set (jobs d). j_owner j \<noteq> u \<longrightarrow>
       get_job (Some u) (j_id j) d = Inl (JobNotFound (j_id j)) \<and>
       list_job_events (Some u) (j_id j) lim d = Inl (JobNotFound (j_id j)) \<and>
       request_cancel (Some u) now (j_id j) u d = Inl (JobNotFound (j_id j)) \<and>
       retry_job (Some u) now (j_id j) u d = Inl (JobNotFound (j_id j)) \<and>
       dismiss_proposal (Some u) (j_id j) pid d = Inl (JobNotFound (j_id j))) \<and>
    (\<forall>j\<in>set (list_jobs (Some u) lim offset d). j_owner j = u) \<and>
    (\<forall>d' j. request_cancel (Some u) now jid u d = Inr (d', j) \<longrightarrow>
       rows_of_others u d' = rows_of_others u d) \<and>
    (\<forall>d' j. retry_job (Some u) now jid u d = Inr (d', j) \<longrightarrow>
       rows_of_others u d' = rows_of_others u d)"
proof (intro conjI allI impI ballI)
  fix j assume "j \<in> set (list_jobs (Some u) lim offset d)"
  then show "j_owner j = u"
    by (auto simp: list_jobs_def Let_def visible_def dest!: in_set_takeD in_set_dropD)
next
  fix d' j assume "request_cancel (Some u) now jid u d = Inr (d', j)"
  then show "rows_of_others u d' = rows_of_others u d"
    unfolding request_cancel_def
    by (auto elim!: sbind_InrE split: if_splits)
      (rule others_sql_update [OF assms], assumption+, simp)
next
  fix d' j assume "retry_job (Some u) now jid u d = Inr (d', j)"
  then show "rows_of_others u d' = rows_of_others u d"
    by (cases rule: retry_job_InrE)
      (auto simp: retry_set_def dest: others_sql_update [OF assms])
qed (simp_all add: get_job_foreign [OF assms] list_job_events_def request_cancel_def retry_job_def
    dismiss_proposal_def)

theorem owner_isolation_witness:
  "request_cancel (Some 8) 50 1 8 (jobs_db [sample_claimed]) = Inl (JobNotFound 1)"
  using owner_isolation [OF sample_ok(4), of 8 1 50]
  by (simp add: sample_defs)

text \<open>Listing pages. Whatever limit is asked for, a page has at most 200 jobs; and the pages at
  offsets 0, l, 2l, ..., where l is the limit capped at 200, are consecutive cuts of one list, all
  the session's jobs, newest first, so nothing is listed twice and nothing is missed.\<close>

definition newest_first :: "uuid option \<Rightarrow> db \<Rightarrow> mainai_job list" where
  "newest_first ctx d =
     rev (sort_key (\<lambda>j. (j_created_at j, j_id j)) (filter (\<lambda>j. visible ctx (j_owner j)) (jobs d)))"

lemma concat_pages: "concat (map (\<lambda>p. take l (drop (p * l) xs)) [0..<n]) = take (n * l) xs"
  by (induction n) (simp_all add: take_add [symmetric] add.commute)

theorem list_jobs_pages:
  "length (list_jobs ctx lim offset d) \<le> 200 \<and>
   mset (newest_first ctx d) = mset (filter (\<lambda>j. visible ctx (j_owner j)) (jobs d)) \<and>
   sorted (map (\<lambda>j. (j_created_at j, j_id j)) (rev (newest_first ctx d))) \<and>
   concat (map (\<lambda>p. list_jobs ctx (int l + 1) (int (p * min (l + 1) 200)) d) [0..<n]) =
     take (n * min (l + 1) 200) (newest_first ctx d)"
proof -
  have l: "nat (max 1 (min (int l + 1) 200)) = min (l + 1) 200" by linarith
  have "list_jobs ctx (int l + 1) (int (p * min (l + 1) 200)) d =
      take (min (l + 1) 200) (drop (p * min (l + 1) 200) (newest_first ctx d))" for p
  proof -
    have "nat (max 0 (int (p * min (l + 1) 200))) = p * min (l + 1) 200" by linarith
    then show ?thesis unfolding list_jobs_def Let_def l newest_first_def by (simp only:)
  qed
  moreover have "length (list_jobs ctx lim offset d) \<le> 200"
    by (simp add: list_jobs_def Let_def)
  ultimately show ?thesis
    using concat_pages [of "min (l + 1) 200"] by (simp add: newest_first_def)
qed

section \<open>Retrying and dismissing\<close>

lemma retry_update_ok:
  assumes "jobs_ok d" and "get_job ctx jid d = Inr j" and "j_status j = JFailed"
    and "j_retry_count j < j_max_retries j" and "i \<in> set (jobs d)" and "j_id i = jid"
  shows "i = j \<and> job_update_ok d i (retry_set i) \<and> superseded_fk_ok d (retry_set i)"
proof -
  from get_jobD [OF assms(2)] have j: "j \<in> set (jobs d)" "j_id j = jid" by simp_all
  have "i = j" using unique_key_eqD [OF jobs_okD(1) [OF assms(1)] assms(5) j(1)] assms(6) j(2) by simp
  with jobs_okD(2) [OF assms(1) j(1)] assms(3,4) show ?thesis
    by (auto simp: job_update_ok_def progress_trigger_ok_def check_defs retry_set_def
        superseded_fk_ok_def)
qed

text \<open>The owner's retry, on every branch. A job the session cannot see is not found, only a
  failed job is retried, the budget is \<open>max_retries\<close>, and a retry always succeeds otherwise: the
  job goes back to the queue with its error, message, progress, phase, cancel flags and completion
  time cleared and its retry count one higher, which is the only way progress may be reset; the
  returned row is the row as stored.\<close>

theorem retry_job_exact:
  assumes "jobs_ok d"
  shows "retry_job ctx now jid rq d =
    (case get_job ctx jid d of
       Inl e \<Rightarrow> Inl e
     | Inr j \<Rightarrow>
         if j_status j \<noteq> JFailed then Inl (InvalidJobTransition (j_status j))
         else if j_max_retries j \<le> j_retry_count j
           then Inl (RetryBudgetExhausted jid (j_retry_count j) (j_max_retries j))
         else Inr (record_audit (Some rq) ''mainai_job_retry'' jid None
                     (record_event now j EvRetryScheduled [(''retry_count'', JInt (j_retry_count j + 1))]
                       (d\<lparr>jobs := update_rows (\<lambda>r. j_id r = jid) retry_set (jobs d)\<rparr>)),
                   retry_set j))"
proof (cases "get_job ctx jid d")
  case (Inr j)
  have "sql_update_jobs (\<lambda>r. j_id r = jid) retry_set d =
      Inr (d\<lparr>jobs := update_rows (\<lambda>r. j_id r = jid) retry_set (jobs d)\<rparr>,
           length (filter (\<lambda>r. j_id r = jid) (jobs d)))"
    if "j_status j = JFailed" "j_retry_count j < j_max_retries j"
    using retry_update_ok [OF assms Inr that] by (simp add: sql_update_jobs_Inr_iff)
  moreover have "find_row (\<lambda>r. j_id r = jid) (jobs d) = Some j"
    using unique_key_find [OF jobs_okD(1) [OF assms]] get_jobD [OF Inr] by blast
  then have "find_row (\<lambda>r. j_id r = jid) (update_rows (\<lambda>r. j_id r = jid) retry_set (jobs d)) =
      Some (retry_set j)"
    using get_jobD [OF Inr] by (intro find_update_rows_same) (simp_all add: retry_set_def)
  ultimately show ?thesis using Inr
    by (auto simp: retry_job_def retryable_job_statuses_def refreshed_def)
qed (simp add: retry_job_def)

definition sample_failed :: mainai_job where
  "sample_failed = sample_reclaimed\<lparr>j_status := JFailed, j_completed_at := Some 110,
     j_progress_current := 3, j_progress_total := Some 5, j_error_category := Some ErrTimeout\<rparr>"

lemma sample_failed_ok: "jobs_ok (jobs_db [sample_failed])"
  by (auto simp: jobs_ok_def unique_key_def keys_unique_def sample_failed_def sample_defs check_defs)

theorem retry_job_exact_witness:
  "\<exists>d. retry_job (Some 7) 200 1 7 (jobs_db [sample_failed]) = Inr (d, retry_set sample_failed) \<and>
     j_status (retry_set sample_failed) = JQueued \<and> j_retry_count (retry_set sample_failed) = 1"
  using retry_job_exact [OF sample_failed_ok, of "Some 7" 200 1 7]
  by (simp add: get_job_def visible_def sample_failed_def sample_defs retry_set_def)

lemma find_visible_update:
  "find_row (\<lambda>p. p_id p = pid \<and> visible ctx (p_owner p)) t = Some q \<Longrightarrow>
   find_row (\<lambda>p. p_id p = pid \<and> visible ctx (p_owner p))
     (update_rows (\<lambda>r. p_id r = pid) (\<lambda>r. r\<lparr>p_status := PropDismissed\<rparr>) t) =
     Some (q\<lparr>p_status := PropDismissed\<rparr>)"
  by (induction t) (auto split: if_splits)

text \<open>A proposal is only ever dismissed. A successful dismissal leaves every proposal as it was
  or takes it from proposed to dismissed with nothing else changed, which is exactly what the
  table's guard trigger admits, touches no job, and repeating it returns the same proposal and
  writes nothing.\<close>

theorem dismiss_proposal_guarded:
  assumes "unique_key p_id (proposals d)" and "dismiss_proposal ctx jid pid d = Inr (d', p)"
  shows "list_all2 (\<lambda>q q'. q' = q \<or> proposal_guard_ok q q') (proposals d) (proposals d') \<and>
    jobs d' = jobs d \<and> p_status p = PropDismissed \<and> p_job p = jid \<and> p_id p = pid \<and>
    dismiss_proposal ctx jid pid d' = Inr (d', p)"
proof -
  from assms(2) obtain j q where j: "get_job ctx jid d = Inr j"
    and q: "find_row (\<lambda>p. p_id p = pid \<and> visible ctx (p_owner p)) (proposals d) = Some q"
    and pj: "p_job q = jid"
    and r: "p_status q = PropDismissed \<and> d' = d \<and> p = q \<or>
       p_status q = PropProposed \<and> p = q\<lparr>p_status := PropDismissed\<rparr> \<and>
       d' = d\<lparr>proposals := update_rows (\<lambda>r. p_id r = pid) (\<lambda>r. r\<lparr>p_status := PropDismissed\<rparr>)
                (proposals d)\<rparr>"
    unfolding dismiss_proposal_def by (auto elim!: sbind_InrE split: option.splits if_splits)
  from find_row_SomeD [OF q] have q': "q \<in> set (proposals d)" "p_id q = pid" "visible ctx (p_owner q)"
    by simp_all
  have only: "r = q" if "r \<in> set (proposals d)" "p_id r = pid" for r
    using unique_key_eqD [OF assms(1) that(1) q'(1)] that(2) q'(2) by simp
  show ?thesis
    using r
  proof
    assume a: "p_status q = PropDismissed \<and> d' = d \<and> p = q"
    then show ?thesis using j q q' pj
      by (simp add: dismiss_proposal_def list_all2_same)
  next
    assume b: "p_status q = PropProposed \<and> p = q\<lparr>p_status := PropDismissed\<rparr> \<and>
       d' = d\<lparr>proposals := update_rows (\<lambda>r. p_id r = pid) (\<lambda>r. r\<lparr>p_status := PropDismissed\<rparr>)
                (proposals d)\<rparr>"
    have "list_all2 (\<lambda>q q'. q' = q \<or> proposal_guard_ok q q') t
        (update_rows (\<lambda>r. p_id r = pid) (\<lambda>r. r\<lparr>p_status := PropDismissed\<rparr>) t)"
      if "\<forall>r\<in>set t. p_id r = pid \<longrightarrow> p_status r = PropProposed" for t
      using that by (induction t) (auto simp: proposal_guard_ok_def)
    with only b have guard: "list_all2 (\<lambda>q q'. q' = q \<or> proposal_guard_ok q q') (proposals d) (proposals d')"
      by auto
    have "find_row (\<lambda>p. p_id p = pid \<and> visible ctx (p_owner p)) (proposals d') = Some p"
      using q b by (simp add: find_visible_update)
    moreover have "get_job ctx jid d' = Inr j" using j b by (simp add: get_job_def)
    ultimately show ?thesis using guard b pj q' by (simp add: dismiss_proposal_def)
  qed
qed


definition sample_proposal :: proposal where
  "sample_proposal = \<lparr>p_id = 4, p_job = 1, p_owner = 7, p_source_document = None,
     p_source_chunk = None, p_type = ''memory'', p_text = ''a fact'', p_status = PropProposed,
     p_created_at = 20\<rparr>"

theorem dismiss_proposal_guarded_witness:
  "\<exists>d'. dismiss_proposal (Some 7) 1 4 (jobs_db [sample_claimed]\<lparr>proposals := [sample_proposal]\<rparr>) =
       Inr (d', sample_proposal\<lparr>p_status := PropDismissed\<rparr>) \<and>
     dismiss_proposal (Some 7) 1 4 d' = Inr (d', sample_proposal\<lparr>p_status := PropDismissed\<rparr>)"
proof -
  let ?d = "jobs_db [sample_claimed]\<lparr>proposals := [sample_proposal]\<rparr>"
  have "dismiss_proposal (Some 7) 1 4 ?d =
      Inr (?d\<lparr>proposals := [sample_proposal\<lparr>p_status := PropDismissed\<rparr>]\<rparr>,
           sample_proposal\<lparr>p_status := PropDismissed\<rparr>)"
    by (simp add: dismiss_proposal_def get_job_def visible_def sample_proposal_def sample_defs)
  moreover have "unique_key p_id (proposals ?d)" by (simp add: unique_key_def)
  ultimately show ?thesis using dismiss_proposal_guarded by blast
qed

end
