(* ===== verification/TaskGraph.thy ===== *)
theory TaskGraph
  imports Store "HOL-Library.Product_Lexorder"
begin

text \<open>
  \<open>app/mainai_execution/graph.py\<close>: which pending tasks of a goal become ready or blocked, and
  which ready task is dispatched next. Sessions do not autoflush, so every read of a pass sees
  the statuses as they were when the pass began: the update is simultaneous.
\<close>

section \<open>Readiness of one task\<close>

definition dependency_failure_statuses :: "task_status set" where
  "dependency_failure_statuses = terminal_task_statuses - {TCompleted}"

definition dependency_ids :: "db \<Rightarrow> uuid \<Rightarrow> uuid list" where
  "dependency_ids d tid = map dep_on (filter (\<lambda>p. dep_task p = tid) (task_deps d))"

definition rows_with_ids :: "uuid list \<Rightarrow> db \<Rightarrow> mainai_task list" where
  "rows_with_ids ids d = filter (\<lambda>t. t_id t \<in> set ids) (tasks d)"

datatype readiness = BecomesReady | BecomesBlocked uuid task_status | StaysPending

definition readiness_of :: "db \<Rightarrow> mainai_task \<Rightarrow> readiness" where
  "readiness_of d t =
     (let ids = dependency_ids d (t_id t)
      in if ids = [] then BecomesReady
         else let rows = rows_with_ids ids d
              in case find_row (\<lambda>r. t_status r \<in> dependency_failure_statuses) rows of
                   Some b \<Rightarrow> BecomesBlocked (t_id b) (t_status b)
                 | None \<Rightarrow>
                     (if length rows = length ids \<and> list_all (\<lambda>r. t_status r = TCompleted) rows
                      then BecomesReady else StaysPending))"

definition apply_readiness :: "readiness \<Rightarrow> mainai_task \<Rightarrow> mainai_task" where
  "apply_readiness r t =
     (case r of
        BecomesReady \<Rightarrow> t\<lparr>t_status := TReady\<rparr>
      | BecomesBlocked i s \<Rightarrow>
          t\<lparr>t_status := TBlocked,
            t_blocker_reason := Some (''Depends on task '' @ uuid_str i @ '', which is '' @
                                 task_status_value s @ ''.'')\<rparr>
      | StaysPending \<Rightarrow> t)"

definition task_event_row :: "time \<Rightarrow> mainai_task \<Rightarrow> task_event_type \<Rightarrow> jdict \<Rightarrow> task_event" where
  "task_event_row now t ty detail =
     \<lparr>te_task = t_id t, te_owner = t_owner t, te_type = ty, te_detail = detail,
      te_created_at = now\<rparr>"

definition readiness_events :: "time \<Rightarrow> readiness \<Rightarrow> mainai_task \<Rightarrow> task_event list" where
  "readiness_events now r t =
     (case r of
        BecomesReady \<Rightarrow> [task_event_row now t TeReady []]
      | BecomesBlocked i s \<Rightarrow>
          [task_event_row now t TeBlocked
             [(''blocking_task_id'', JStr (uuid_str i)),
              (''blocking_task_status'', JStr (task_status_value s))]]
      | StaysPending \<Rightarrow> [])"

section \<open>One pass over a goal\<close>

definition pending_in :: "uuid \<Rightarrow> mainai_task \<Rightarrow> bool" where
  "pending_in gid t \<longleftrightarrow> t_goal t = gid \<and> t_status t = TPending"

definition recompute_task_readiness :: "time \<Rightarrow> uuid \<Rightarrow> db \<Rightarrow> db \<times> mainai_task list" where
  "recompute_task_readiness now gid d =
     (let pending = filter (pending_in gid) (tasks d)
      in (d\<lparr>tasks := update_rows (pending_in gid) (\<lambda>t. apply_readiness (readiness_of d t) t) (tasks d),
            task_events := task_events d @
              concat (map (\<lambda>t. readiness_events now (readiness_of d t) t) pending)\<rparr>,
          map (\<lambda>t. apply_readiness BecomesReady t)
            (filter (\<lambda>t. readiness_of d t = BecomesReady) pending)))"

abbreviation after_recompute :: "time \<Rightarrow> uuid \<Rightarrow> db \<Rightarrow> db" where
  "after_recompute now gid d \<equiv> fst (recompute_task_readiness now gid d)"

definition next_ready_task :: "uuid \<Rightarrow> db \<Rightarrow> mainai_task option" where
  "next_ready_task owner d =
     first_min (\<lambda>t. (- t_priority t, t_created_at t))
       (filter (\<lambda>t. t_owner t = owner \<and> t_status t = TReady) (tasks d))"

section \<open>What a pass does\<close>

lemma apply_readiness_fields [simp]:
  "t_id (apply_readiness r t) = t_id t" "t_goal (apply_readiness r t) = t_goal t"
  "t_owner (apply_readiness r t) = t_owner t" "t_plan (apply_readiness r t) = t_plan t"
  "t_attempts (apply_readiness r t) = t_attempts t" "t_job (apply_readiness r t) = t_job t"
  by (simp_all add: apply_readiness_def split: readiness.splits)

lemma recompute_frame [simp]:
  "jobs (after_recompute now gid d) = jobs d"
  "task_deps (after_recompute now gid d) = task_deps d"
  "goals (after_recompute now gid d) = goals d"
  "task_waits (after_recompute now gid d) = task_waits d"
  by (simp_all add: recompute_task_readiness_def Let_def)

lemma recompute_tasks:
  "tasks (after_recompute now gid d) =
     update_rows (pending_in gid) (\<lambda>t. apply_readiness (readiness_of d t) t) (tasks d)"
  by (simp add: recompute_task_readiness_def Let_def)

lemma dependency_ids_recompute [simp]:
  "dependency_ids (after_recompute now gid d) tid = dependency_ids d tid"
  by (simp add: dependency_ids_def)

text \<open>
  A pass changes neither which tasks are completed nor which have failed for good, so the
  decisions a second pass takes are the same ones.
\<close>

definition settled_view :: "mainai_task \<Rightarrow> uuid \<times> bool \<times> task_status option" where
  "settled_view t = (t_id t, t_status t = TCompleted,
     if t_status t \<in> dependency_failure_statuses then Some (t_status t) else None)"

lemma not_failure [simp]:
  "TPending \<notin> dependency_failure_statuses" "TReady \<notin> dependency_failure_statuses"
  "TBlocked \<notin> dependency_failure_statuses" "TCompleted \<notin> dependency_failure_statuses"
  "TCancelled \<in> dependency_failure_statuses" "TFailed \<in> dependency_failure_statuses"
  by (simp_all add: dependency_failure_statuses_def terminal_task_statuses_def)

lemma settled_view_apply:
  "t_status t = TPending \<Longrightarrow> settled_view (apply_readiness r t) = settled_view t"
  by (simp add: settled_view_def apply_readiness_def split: readiness.splits)

lemma settled_view_recompute:
  "map settled_view (tasks (after_recompute now gid d)) = map settled_view (tasks d)"
  by (auto simp: recompute_tasks update_rows_def pending_in_def settled_view_apply)

definition readiness_from :: "uuid list \<Rightarrow> (uuid \<times> bool \<times> task_status option) list \<Rightarrow> readiness" where
  "readiness_from ids vs =
     (if ids = [] then BecomesReady
      else case List.find (\<lambda>v. snd (snd v) \<noteq> None) vs of
             Some v \<Rightarrow> BecomesBlocked (fst v) (the (snd (snd v)))
           | None \<Rightarrow> (if length vs = length ids \<and> list_all (\<lambda>v. fst (snd v)) vs
                     then BecomesReady else StaysPending))"

lemma find_settled_view:
  "List.find (\<lambda>v. snd (snd v) \<noteq> None) (map settled_view ts) =
     map_option settled_view (find_row (\<lambda>r. t_status r \<in> dependency_failure_statuses) ts)"
  by (induction ts) (auto simp: settled_view_def)

lemma readiness_of_view:
  "readiness_of d t = readiness_from (dependency_ids d (t_id t))
     (filter (\<lambda>v. fst v \<in> set (dependency_ids d (t_id t))) (map settled_view (tasks d)))"
proof -
  let ?ids = "dependency_ids d (t_id t)"
  have rows: "filter (\<lambda>v. fst v \<in> set ?ids) (map settled_view (tasks d)) =
      map settled_view (rows_with_ids ?ids d)"
    by (simp add: rows_with_ids_def filter_map o_def settled_view_def)
  have all: "list_all (\<lambda>v. fst (snd v)) (map settled_view ts) = list_all (\<lambda>r. t_status r = TCompleted) ts"
    for ts by (induction ts) (auto simp: settled_view_def)
  have fst_view: "find_row (\<lambda>r. t_status r \<in> dependency_failure_statuses) ts = Some b \<Longrightarrow>
      t_status b \<in> dependency_failure_statuses" for ts b
    by (auto dest: find_row_SomeD)
  show ?thesis
    unfolding rows readiness_from_def find_settled_view all readiness_of_def Let_def
    by (auto simp: settled_view_def dest!: fst_view split: option.splits)
qed

lemma readiness_settled:
  assumes "map settled_view (tasks d') = map settled_view (tasks d)"
    and "task_deps d' = task_deps d" and "t_id t' = t_id t"
  shows "readiness_of d' t' = readiness_of d t"
  using assms by (simp add: readiness_of_view dependency_ids_def)

lemma readiness_recompute [simp]:
  "readiness_of (after_recompute now gid d) t = readiness_of d t"
  by (rule readiness_settled) (simp_all add: settled_view_recompute)

lemma readiness_apply [simp]: "readiness_of d (apply_readiness r t) = readiness_of d t"
  by (rule readiness_settled) simp_all

lemma pending_after_iff:
  "pending_in gid (apply_readiness r t) \<longleftrightarrow> pending_in gid t \<and> r = StaysPending"
  if "t_status t = TPending"
  using that by (auto simp: pending_in_def apply_readiness_def split: readiness.splits)

section \<open>Constraints of the task tables\<close>

text \<open>
  The CHECKs and keys of migration 0032: \<open>task_checks\<close> on one row, \<open>tasks_ok\<close> on the tables
  (primary keys of \<open>mainai_tasks\<close> and of \<open>mainai_task_dependencies\<close>).
\<close>

definition task_checks :: "mainai_task \<Rightarrow> bool" where
  "task_checks t \<longleftrightarrow>
     0 \<le> t_attempts t \<and> 0 \<le> t_max_attempts t \<and> t_attempts t \<le> t_max_attempts t \<and>
     (t_completed_at t = None \<longleftrightarrow> t_status t \<notin> terminal_task_statuses)"

definition tasks_ok :: "db \<Rightarrow> bool" where
  "tasks_ok d \<longleftrightarrow>
     unique_key t_id (tasks d) \<and> unique_key (\<lambda>p. (dep_task p, dep_on p)) (task_deps d) \<and>
     (\<forall>t\<in>set (tasks d). task_checks t)"

lemma task_checks_apply:
  "task_checks t \<Longrightarrow> t_status t = TPending \<Longrightarrow> task_checks (apply_readiness r t)"
  by (auto simp: task_checks_def apply_readiness_def terminal_task_statuses_def split: readiness.splits)

lemma recompute_ok: "tasks_ok d \<Longrightarrow> tasks_ok (after_recompute now gid d)"
  unfolding tasks_ok_def recompute_tasks
  by (auto simp: unique_key_update_rows in_update_rows_iff pending_in_def task_checks_apply)

definition dependencies_completed :: "db \<Rightarrow> uuid \<Rightarrow> bool" where
  "dependencies_completed d tid \<longleftrightarrow>
     (\<forall>i\<in>set (dependency_ids d tid). \<exists>r\<in>set (tasks d). t_id r = i \<and> t_status r = TCompleted)"

definition dependency_failed :: "db \<Rightarrow> uuid \<Rightarrow> bool" where
  "dependency_failed d tid \<longleftrightarrow>
     (\<exists>i\<in>set (dependency_ids d tid). \<exists>r\<in>set (tasks d). t_id r = i \<and>
        t_status r \<in> dependency_failure_statuses)"

lemma distinct_dependency_ids:
  "tasks_ok d \<Longrightarrow> distinct (dependency_ids d tid)"
  by (auto simp: tasks_ok_def unique_key_def dependency_ids_def distinct_map inj_on_def)

lemma rows_with_ids_ids:
  assumes "tasks_ok d"
  shows "distinct (map t_id (rows_with_ids ids d))" and "set (map t_id (rows_with_ids ids d)) \<subseteq> set ids"
  using assms by (auto simp: rows_with_ids_def tasks_ok_def unique_key_def distinct_map inj_on_def)

lemma all_rows_found_iff:
  assumes "tasks_ok d" and "distinct ids"
  shows "length (rows_with_ids ids d) = length ids \<longleftrightarrow> (\<forall>i\<in>set ids. \<exists>r\<in>set (tasks d). t_id r = i)"
proof -
  let ?found = "map t_id (rows_with_ids ids d)"
  have card: "card (set ?found) = length (rows_with_ids ids d)" "card (set ids) = length ids"
    using rows_with_ids_ids(1) [OF assms(1)] assms(2) distinct_card by fastforce+
  have "length (rows_with_ids ids d) = length ids \<longleftrightarrow> set ?found = set ids"
    using card rows_with_ids_ids(2) [OF assms(1), of ids] card_subset_eq [of "set ids" "set ?found"]
    by auto
  also have "\<dots> \<longleftrightarrow> (\<forall>i\<in>set ids. \<exists>r\<in>set (tasks d). t_id r = i)"
    by (auto simp: rows_with_ids_def set_eq_iff image_iff) metis+
  finally show ?thesis .
qed

text \<open>The decision, read off the tables.\<close>

lemma readiness_cases:
  assumes "tasks_ok d"
  shows "readiness_of d t = BecomesReady \<longleftrightarrow> dependencies_completed d (t_id t)"
    and "(\<exists>i s. readiness_of d t = BecomesBlocked i s) \<longleftrightarrow> dependency_failed d (t_id t)"
    and "readiness_of d t = BecomesBlocked i s \<Longrightarrow>
           i \<in> set (dependency_ids d (t_id t)) \<and> s \<in> dependency_failure_statuses \<and>
           (\<exists>r\<in>set (tasks d). t_id r = i \<and> t_status r = s)"
proof -
  let ?ids = "dependency_ids d (t_id t)"
  let ?rows = "rows_with_ids ?ids d"
  have failed: "find_row (\<lambda>r. t_status r \<in> dependency_failure_statuses) ?rows = None \<longleftrightarrow>
      \<not> dependency_failed d (t_id t)"
    by (auto simp: find_row_None_iff dependency_failed_def rows_with_ids_def)
  have rows: "length ?rows = length ?ids \<longleftrightarrow> (\<forall>i\<in>set ?ids. \<exists>r\<in>set (tasks d). t_id r = i)"
    by (rule all_rows_found_iff [OF assms distinct_dependency_ids [OF assms]])
  have same: "r = r'" if "r \<in> set (tasks d)" "r' \<in> set (tasks d)" "t_id r = t_id r'" for r r'
    using assms that by (auto simp: tasks_ok_def intro: unique_key_eqD)
  have excl: "\<not> dependency_failed d (t_id t)" if "dependencies_completed d (t_id t)"
    using that same not_failure(4) unfolding dependencies_completed_def dependency_failed_def by metis
  have compl: "length ?rows = length ?ids \<and> list_all (\<lambda>r. t_status r = TCompleted) ?rows \<longleftrightarrow>
      dependencies_completed d (t_id t)"
  proof
    assume a: "length ?rows = length ?ids \<and> list_all (\<lambda>r. t_status r = TCompleted) ?rows"
    then have "\<forall>i\<in>set ?ids. \<exists>r\<in>set (tasks d). t_id r = i" using rows by blast
    moreover have "\<forall>r\<in>set (tasks d). t_id r \<in> set ?ids \<longrightarrow> t_status r = TCompleted"
      using a by (auto simp: list_all_iff rows_with_ids_def)
    ultimately show "dependencies_completed d (t_id t)"
      unfolding dependencies_completed_def by fast
  next
    assume c: "dependencies_completed d (t_id t)"
    then have "t_status r = TCompleted" if "r \<in> set ?rows" for r
      using that same unfolding dependencies_completed_def rows_with_ids_def by fastforce
    with c show "length ?rows = length ?ids \<and> list_all (\<lambda>r. t_status r = TCompleted) ?rows"
      unfolding rows dependencies_completed_def by (auto simp: list_all_iff)
  qed
  have nil: "dependencies_completed d (t_id t) \<and> \<not> dependency_failed d (t_id t)" if "?ids = []"
    using that by (simp add: dependencies_completed_def dependency_failed_def)
  show "readiness_of d t = BecomesReady \<longleftrightarrow> dependencies_completed d (t_id t)"
    using nil failed compl excl
    by (auto simp: readiness_of_def Let_def split: option.splits)
  show "(\<exists>i s. readiness_of d t = BecomesBlocked i s) \<longleftrightarrow> dependency_failed d (t_id t)"
    using nil failed by (auto simp: readiness_of_def Let_def split: option.splits)
  show "i \<in> set ?ids \<and> s \<in> dependency_failure_statuses \<and> (\<exists>r\<in>set (tasks d). t_id r = i \<and> t_status r = s)"
    if "readiness_of d t = BecomesBlocked i s"
    using that by (auto simp: readiness_of_def Let_def rows_with_ids_def dest!: find_row_SomeD
        split: option.splits if_splits)
qed

section \<open>What a pass promises\<close>

lemma recompute_rows:
  assumes "tasks_ok d"
  shows "list_all2 (\<lambda>t t'.
       if \<not> pending_in gid t then t' = t
       else if dependencies_completed d (t_id t) then t' = t\<lparr>t_status := TReady\<rparr>
       else if dependency_failed d (t_id t)
         then \<exists>b\<in>set (tasks d). t_id b \<in> set (dependency_ids d (t_id t)) \<and>
                t_status b \<in> dependency_failure_statuses \<and>
                t' = t\<lparr>t_status := TBlocked, t_blocker_reason := Some (''Depends on task '' @
                       uuid_str (t_id b) @ '', which is '' @ task_status_value (t_status b) @ ''.'')\<rparr>
       else t' = t) (tasks d) (tasks (after_recompute now gid d))"
    (is "list_all2 ?R _ _")
proof -
  have "?R t (if pending_in gid t then apply_readiness (readiness_of d t) t else t)" for t
  proof (cases "readiness_of d t")
    case BecomesReady
    then show ?thesis using readiness_cases(1) [OF assms, of t] by (simp add: apply_readiness_def)
  next
    case StaysPending
    then show ?thesis using readiness_cases(1,2) [OF assms, of t] by (simp add: apply_readiness_def)
  next
    case (BecomesBlocked i s)
    from readiness_cases(3) [OF assms this] obtain b where "b \<in> set (tasks d)" "t_id b = i" "t_status b = s"
      "i \<in> set (dependency_ids d (t_id t))" "s \<in> dependency_failure_statuses" by blast
    then show ?thesis using readiness_cases(1,2) [OF assms, of t] BecomesBlocked
      by (auto simp: apply_readiness_def)
  qed
  then show ?thesis
    unfolding recompute_tasks update_rows_def list_all2_map2 by (intro list_all2_all_nthI) simp
qed

lemma recompute_returns:
  assumes "tasks_ok d"
  shows "snd (recompute_task_readiness now gid d) =
      map (\<lambda>t. t\<lparr>t_status := TReady\<rparr>)
        (filter (\<lambda>t. pending_in gid t \<and> dependencies_completed d (t_id t)) (tasks d))"
  by (simp add: recompute_task_readiness_def Let_def readiness_cases(1) [OF assms]
      apply_readiness_def conj_commute filter_filter)

text \<open>A readiness pass is safe and complete. Row by row: a task that is not pending in the goal
  is untouched; a pending one becomes ready exactly when every dependency exists and is completed,
  becomes blocked exactly when one has failed or was cancelled, naming such a dependency, and
  otherwise stays as it is. The tasks returned are exactly the newly ready ones.\<close>

theorem readiness_pass:
  assumes "tasks_ok d"
  shows "list_all2 (\<lambda>t t'.
       if \<not> pending_in gid t then t' = t
       else if dependencies_completed d (t_id t) then t' = t\<lparr>t_status := TReady\<rparr>
       else if dependency_failed d (t_id t)
         then \<exists>b\<in>set (tasks d). t_id b \<in> set (dependency_ids d (t_id t)) \<and>
                t_status b \<in> dependency_failure_statuses \<and>
                t' = t\<lparr>t_status := TBlocked, t_blocker_reason := Some (''Depends on task '' @
                       uuid_str (t_id b) @ '', which is '' @ task_status_value (t_status b) @ ''.'')\<rparr>
       else t' = t) (tasks d) (tasks (after_recompute now gid d)) \<and>
     snd (recompute_task_readiness now gid d) =
       map (\<lambda>t. t\<lparr>t_status := TReady\<rparr>)
         (filter (\<lambda>t. pending_in gid t \<and> dependencies_completed d (t_id t)) (tasks d))"
  by (intro conjI recompute_rows recompute_returns assms)

text \<open>A readiness pass is idempotent: a second pass finds nothing left to change, writes no
  event and returns no task.\<close>

theorem readiness_pass_idempotent:
  "recompute_task_readiness now' gid (after_recompute now gid d) = (after_recompute now gid d, [])"
proof -
  have stays: "readiness_of d t = StaysPending"
    if t: "t \<in> set (tasks (after_recompute now gid d))" and p: "pending_in gid t" for t
  proof -
    from t obtain t0 where t0: "t = (if pending_in gid t0 then apply_readiness (readiness_of d t0) t0 else t0)"
      by (auto simp: recompute_tasks in_update_rows_iff)
    with p have "pending_in gid t0" by (auto split: if_splits)
    with t0 p have "readiness_of d t0 = StaysPending" "t = apply_readiness (readiness_of d t0) t0"
      using pending_after_iff [of t0 gid] by (auto simp: pending_in_def)
    then show ?thesis by simp
  qed
  let ?d = "after_recompute now gid d"
  have "update_rows (pending_in gid) (\<lambda>t. apply_readiness (readiness_of ?d t) t) (tasks ?d) = tasks ?d"
    unfolding update_rows_def
    by (rule map_idI) (use stays in \<open>auto simp: apply_readiness_def\<close>)
  moreover have "concat (map (\<lambda>t. readiness_events now' (readiness_of ?d t) t)
      (filter (pending_in gid) (tasks ?d))) = []"
    using stays by (auto simp: readiness_events_def)
  moreover have "filter (\<lambda>t. readiness_of ?d t = BecomesReady) (filter (pending_in gid) (tasks ?d)) = []"
    using stays by (auto simp: filter_empty_conv)
  ultimately show ?thesis
    unfolding recompute_task_readiness_def [of now' gid ?d] Let_def by simp
qed

text \<open>The dependency relation of a database, and the tasks of a goal.\<close>

definition depends_rel :: "db \<Rightarrow> (uuid \<times> uuid) set" where
  "depends_rel d = {(dep_task p, dep_on p) | p. p \<in> set (task_deps d)}"

definition goal_tasks :: "uuid \<Rightarrow> db \<Rightarrow> mainai_task list" where
  "goal_tasks gid d = filter (\<lambda>t. t_goal t = gid) (tasks d)"

text \<open>C5: a goal never gets stuck on its own dependency graph. If the graph is acyclic, every
  dependency of the goal's tasks is a task of the goal, and all of its tasks are pending or
  completed, then either the goal is finished or the next readiness pass hands at least one task
  to the dispatcher.\<close>

theorem acyclic_goal_progresses:
  assumes "tasks_ok d" and "acyclic (depends_rel d)"
    and "\<forall>t\<in>set (goal_tasks gid d). t_status t \<in> {TPending, TCompleted}"
    and "\<forall>t\<in>set (goal_tasks gid d). set (dependency_ids d (t_id t)) \<subseteq> t_id ` set (goal_tasks gid d)"
  shows "(\<forall>t\<in>set (goal_tasks gid d). t_status t = TCompleted) \<or>
    snd (recompute_task_readiness now gid d) \<noteq> []"
proof (rule disjCI)
  assume none: "\<not> snd (recompute_task_readiness now gid d) \<noteq> []"
  have ready: "\<not> dependencies_completed d (t_id t)" if "t \<in> set (tasks d)" "pending_in gid t" for t
  proof
    assume "dependencies_completed d (t_id t)"
    with that have "t\<lparr>t_status := TReady\<rparr> \<in> set (snd (recompute_task_readiness now gid d))"
      by (auto simp: recompute_returns [OF assms(1)])
    with none show False by auto
  qed
  have fin: "finite (depends_rel d)" by (auto simp: depends_rel_def setcompr_eq_image)
  have wf: "wf ((depends_rel d)\<inverse>)"
    using finite_acyclic_wf_converse [OF fin assms(2)] .
  have done_all: "\<forall>t\<in>set (goal_tasks gid d). t_id t = i \<longrightarrow> t_status t = TCompleted" for i
    using wf
  proof (induction i rule: wf_induct_rule)
    case (less i)
    show ?case
    proof (intro ballI impI)
      fix t assume t: "t \<in> set (goal_tasks gid d)" "t_id t = i"
      show "t_status t = TCompleted"
      proof (rule ccontr)
        assume "t_status t \<noteq> TCompleted"
        with assms(3) t(1) have p: "pending_in gid t" "t \<in> set (tasks d)"
          by (auto simp: pending_in_def goal_tasks_def)
        have "\<exists>r\<in>set (tasks d). t_id r = k \<and> t_status r = TCompleted"
          if k: "k \<in> set (dependency_ids d i)" for k
        proof -
          from k have "(k, i) \<in> (depends_rel d)\<inverse>"
            by (auto simp: depends_rel_def dependency_ids_def)
          from less [OF this] have "\<forall>r\<in>set (goal_tasks gid d). t_id r = k \<longrightarrow> t_status r = TCompleted" .
          with assms(4) t k show ?thesis unfolding goal_tasks_def by fastforce
        qed
        with t(2) have "dependencies_completed d (t_id t)" by (simp add: dependencies_completed_def)
        with ready [OF p(2,1)] show False by simp
      qed
    qed
  qed
  then show "\<forall>t\<in>set (goal_tasks gid d). t_status t = TCompleted" by blast
qed

section \<open>Which task is dispatched next\<close>

text \<open>The dispatcher's choice is deterministic up to ties in both keys: it is a ready task of
  the owner, no ready task of the owner has a higher priority, and among those of the same
  priority none is older; there is no choice exactly when the owner has no ready task.\<close>

theorem next_ready_task_best:
  "case next_ready_task owner d of
     None \<Rightarrow> \<forall>t\<in>set (tasks d). \<not> (t_owner t = owner \<and> t_status t = TReady)
   | Some t \<Rightarrow> t \<in> set (tasks d) \<and> t_owner t = owner \<and> t_status t = TReady \<and>
       (\<forall>s\<in>set (tasks d). t_owner s = owner \<longrightarrow> t_status s = TReady \<longrightarrow>
          t_priority s < t_priority t \<or>
          t_priority s = t_priority t \<and> t_created_at t \<le> t_created_at s)"
proof (cases "next_ready_task owner d")
  case None
  then show ?thesis by (simp add: next_ready_task_def filter_empty_conv)
next
  case (Some t)
  then have fm: "first_min (\<lambda>t. (- t_priority t, t_created_at t))
      (filter (\<lambda>t. t_owner t = owner \<and> t_status t = TReady) (tasks d)) = Some t"
    by (simp add: next_ready_task_def)
  have "t_priority s < t_priority t \<or> t_priority s = t_priority t \<and> t_created_at t \<le> t_created_at s"
    if "s \<in> set (tasks d)" "t_owner s = owner" "t_status s = TReady" for s
    using first_min_le [OF fm, of s] that by (auto simp: less_eq_prod_def)
  with first_min_in [OF fm] Some show ?thesis by simp
qed

section \<open>A concrete plan\<close>

definition sample_task :: "uuid \<Rightarrow> task_status \<Rightarrow> mainai_task" where
  "sample_task i s =
     \<lparr>t_id = i, t_goal = 20, t_plan = 30, t_owner = 7, t_description = ''step'',
      t_type = ''run_tests'', t_status = s, t_priority = 0, t_risk = RiskLow,
      t_approval_required = False, t_verification_plan = [], t_attempts = 0, t_max_attempts = 3,
      t_blocker_reason = None, t_job = None, t_created_at = 1, t_started_at = None,
      t_completed_at = (if s \<in> terminal_task_statuses then Some 5 else None),
      t_next_retry_at = None\<rparr>"

definition sample_plan_db :: db where
  "sample_plan_db = empty_db\<lparr>
     tasks := [sample_task 1 TCompleted, sample_task 2 TPending, sample_task 3 TPending],
     task_deps := [\<lparr>dep_task = 2, dep_on = 1, dep_owner = 7\<rparr>, \<lparr>dep_task = 3, dep_on = 2, dep_owner = 7\<rparr>]\<rparr>"

lemma sample_plan_ok: "tasks_ok sample_plan_db"
  by (simp add: tasks_ok_def unique_key_def sample_plan_db_def sample_task_def task_checks_def
      terminal_task_statuses_def)

lemma sample_plan_acyclic: "acyclic (depends_rel sample_plan_db)"
proof -
  have "depends_rel sample_plan_db = {(2, 1), (3, 2)}"
    by (simp add: depends_rel_def sample_plan_db_def) force
  moreover have "acyclic {(2::uuid, 1), (3, 2)}"
    by (simp add: acyclic_insert) (auto simp: rtrancl_insert acyclic_def)
  ultimately show ?thesis by simp
qed

theorem readiness_pass_witness:
  "map t_status (tasks (after_recompute 9 20 sample_plan_db)) = [TCompleted, TReady, TPending] \<and>
   map t_id (snd (recompute_task_readiness 9 20 sample_plan_db)) = [2]"
  using readiness_pass [OF sample_plan_ok, of 20 9]
  by (simp add: sample_plan_db_def sample_task_def pending_in_def dependencies_completed_def
      dependency_ids_def dependency_failed_def dependency_failure_statuses_def
      terminal_task_statuses_def recompute_tasks)

theorem acyclic_goal_progresses_witness:
  "snd (recompute_task_readiness 9 20 sample_plan_db) \<noteq> []"
proof -
  have "\<forall>t\<in>set (goal_tasks 20 sample_plan_db). t_status t \<in> {TPending, TCompleted}"
    and "\<forall>t\<in>set (goal_tasks 20 sample_plan_db).
       set (dependency_ids sample_plan_db (t_id t)) \<subseteq> t_id ` set (goal_tasks 20 sample_plan_db)"
    and "\<not> (\<forall>t\<in>set (goal_tasks 20 sample_plan_db). t_status t = TCompleted)"
    by (auto simp: goal_tasks_def sample_plan_db_def sample_task_def dependency_ids_def)
  with acyclic_goal_progresses [OF sample_plan_ok sample_plan_acyclic] show ?thesis by blast
qed

theorem next_ready_task_best_witness:
  "\<exists>t. next_ready_task 7
       (empty_db\<lparr>tasks := [sample_task 1 TReady, sample_task 2 TReady\<lparr>t_priority := 5\<rparr>]\<rparr>) = Some t \<and>
     t_id t = 2 \<and> t_priority (sample_task 1 TReady) < t_priority t"
proof -
  let ?d = "empty_db\<lparr>tasks := [sample_task 1 TReady, sample_task 2 TReady\<lparr>t_priority := 5\<rparr>]\<rparr>"
  have "next_ready_task 7 ?d = Some (sample_task 2 TReady\<lparr>t_priority := 5\<rparr>)"
    by (simp add: next_ready_task_def sample_task_def less_eq_prod_def)
  with next_ready_task_best [of ?d 7] show ?thesis by (simp add: sample_task_def)
qed

end
