(* ===== verification/Liveness.thy ===== *)
theory Liveness
  imports JobLease TaskGraph
begin

text \<open>
  \<open>app/mainai_execution/liveness.py\<close>: the read-only classification of a task's execution from
  its own status and the lease of its job, and how it relates to what the lease module will let
  a takeover retire.
\<close>

datatype liveness =
    LiveIdle | LiveRunning | LiveStalled | LiveDead | LiveWaitingExternal | LiveWaitingCi | LiveDone

definition lease_governed_statuses :: "task_status set" where
  "lease_governed_statuses = {TRunning}"

definition task_liveness :: "mainai_task \<Rightarrow> mainai_job option \<Rightarrow> time \<Rightarrow> liveness" where
  "task_liveness t job now =
     (if t_status t = TWaitingExternal then LiveWaitingExternal
      else if t_status t = TWaitingCi then LiveWaitingCi
      else if t_status t \<in> terminal_task_statuses \<or> t_status t = TRetryableFailed then LiveDone
      else if t_status t \<notin> lease_governed_statuses then LiveIdle
      else case job of
             None \<Rightarrow> LiveDead
           | Some j \<Rightarrow>
               (if j_status j \<noteq> JRunning then LiveDead
                else case j_lease_expires_at j of
                       Some e \<Rightarrow> if e \<le> now then LiveStalled else LiveRunning
                     | None \<Rightarrow> LiveRunning))"

lemma task_liveness_running_iff:
  "task_liveness t job now \<in> {LiveRunning, LiveStalled, LiveDead} \<longleftrightarrow> t_status t = TRunning"
  by (cases "t_status t")
    (auto simp: task_liveness_def lease_governed_statuses_def terminal_task_statuses_def
      split: option.splits)

lemma task_liveness_stalled_iff:
  "task_liveness t job now = LiveStalled \<longleftrightarrow>
     t_status t = TRunning \<and>
     (\<exists>j e. job = Some j \<and> j_status j = JRunning \<and> j_lease_expires_at j = Some e \<and> e \<le> now)"
  by (cases "t_status t")
    (auto simp: task_liveness_def lease_governed_statuses_def terminal_task_statuses_def
      split: option.splits)

lemma task_liveness_dead_iff:
  "task_liveness t job now = LiveDead \<longleftrightarrow>
     t_status t = TRunning \<and> (\<forall>j. job = Some j \<longrightarrow> j_status j \<noteq> JRunning)"
  by (cases "t_status t")
    (auto simp: task_liveness_def lease_governed_statuses_def terminal_task_statuses_def
      split: option.splits)

text \<open>
  A stalled task's job is one the lease module accepts as dead from the next instant on (the
  classification counts the expiry instant itself, the lease statements do not), and a live one
  never is.
\<close>

lemma stalled_is_dead_job:
  assumes "task_liveness t (Some j) now = LiveStalled" and "now < now'"
  shows "dead_job now' d (j_id j) j"
  using assms by (auto simp: task_liveness_stalled_iff dead_job_def lease_expired_def)

lemma running_is_not_dead_job:
  assumes "task_liveness t (Some j) now = LiveRunning"
  shows "\<not> dead_job now d (j_id j) j"
  using assms
  by (auto simp: task_liveness_def dead_job_def lease_expired_def split: if_splits option.splits)

text \<open>Liveness is about running tasks only, and it agrees with the lease. A task is classified
  as running, stalled or dead exactly when its own status is running, so a task waiting for CI or
  for an external event is never taken for a crashed one; a stalled task's job is accepted as dead
  by the lease module from the next instant on; the job of a task classified as running never is;
  and a task whose job is missing or no longer running is dead.\<close>

theorem liveness_agrees_with_lease:
  assumes "now < now'"
  shows "(task_liveness t job now \<in> {LiveRunning, LiveStalled, LiveDead} \<longleftrightarrow> t_status t = TRunning) \<and>
    (task_liveness t (Some j) now = LiveStalled \<longrightarrow> dead_job now' d (j_id j) j) \<and>
    (task_liveness t (Some j) now = LiveRunning \<longrightarrow> \<not> dead_job now d (j_id j) j) \<and>
    (t_status t = TRunning \<and> j_status j \<noteq> JRunning \<longrightarrow> task_liveness t (Some j) now = LiveDead)"
  using assms task_liveness_running_iff [of t job now]
  by (auto simp: stalled_is_dead_job running_is_not_dead_job task_liveness_dead_iff)

definition leased_job :: mainai_job where
  "leased_job =
     \<lparr>j_id = 1, j_owner = 7, j_type = ''task_execution'', j_status = JRunning, j_created_at = 0,
      j_started_at = Some 5, j_last_heartbeat_at = Some 5, j_completed_at = None,
      j_progress_current = 0, j_progress_total = None, j_current_phase = None,
      j_public_message = None, j_error_category = None, j_retry_count = 0, j_max_retries = 3,
      j_input_refs = [], j_output_refs = [], j_locked_by = Some ''w1'', j_lease_expires_at = Some 65,
      j_lease_generation = 1, j_provider = None, j_model = None, j_cancel_requested = False,
      j_cancel_acknowledged = False, j_idempotency_key = None, j_created_by = ''owner'',
      j_superseded_by = None\<rparr>"

theorem liveness_agrees_with_lease_witness:
  "task_liveness (sample_task 1 TRunning) (Some leased_job) 65 = LiveStalled \<and>
   dead_job 66 empty_db 1 leased_job"
proof -
  have "task_liveness (sample_task 1 TRunning) (Some leased_job) 65 = LiveStalled"
    by (simp add: task_liveness_stalled_iff sample_task_def leased_job_def)
  moreover have "j_id leased_job = 1" by (simp add: leased_job_def)
  ultimately show ?thesis
    using liveness_agrees_with_lease [of 65 66 "sample_task 1 TRunning" None leased_job empty_db] by simp
qed

end
