(* ===== verification/CiWait.thy ===== *)
theory CiWait
  imports TaskGraph
begin

text \<open>
  \<open>app/jobs/retry.py\<close>'s backoff and \<open>app/mainai_execution/ci_wait.py\<close>: starting a durable wait
  for the checks of a pushed commit, deciding from a list of check runs, one poll, and the
  cancellation of a wait. What GitHub answers is a parameter: \<open>Inl message\<close> is a
  \<open>GitHubClientError\<close>. The random draw of the backoff is the parameter \<open>jitter\<close>, the integer part
  of a number between 0 and the ceiling.
\<close>

section \<open>Backoff\<close>

definition backoff_ceiling :: "int \<Rightarrow> int \<Rightarrow> int \<Rightarrow> int" where
  "backoff_ceiling attempt base cap = min cap (base * 2 ^ nat (max 0 attempt))"

definition ci_poll_base_seconds :: int where "ci_poll_base_seconds = 20"

definition ci_poll_cap_seconds :: int where "ci_poll_cap_seconds = 300"

definition default_ci_wait_timeout_seconds :: int where
  "default_ci_wait_timeout_seconds = 6 * 60 * 60"

lemma backoff_ceiling_bounds:
  "0 \<le> base \<Longrightarrow> 0 \<le> cap \<Longrightarrow> 0 \<le> backoff_ceiling n base cap \<and> backoff_ceiling n base cap \<le> cap"
  by (simp add: backoff_ceiling_def)

lemma backoff_ceiling_mono:
  assumes "m \<le> n" and "0 \<le> base"
  shows "backoff_ceiling m base cap \<le> backoff_ceiling n base cap"
proof -
  have "(2::int) ^ nat (max 0 m) \<le> 2 ^ nat (max 0 n)"
    using assms(1) by (intro power_increasing) auto
  with assms(2) have "base * 2 ^ nat (max 0 m) \<le> base * 2 ^ nat (max 0 n)"
    by (simp only: mult_left_mono)
  then show ?thesis unfolding backoff_ceiling_def by linarith
qed

section \<open>Starting a wait\<close>

definition start_ci_wait ::
  "time \<Rightarrow> uuid \<Rightarrow> mainai_task \<Rightarrow> uuid \<Rightarrow> string \<Rightarrow> string \<Rightarrow> db \<Rightarrow> error + (db \<times> task_wait)" where
  "start_ci_wait now fresh t job repo sha d =
     (let w = \<lparr>w_id = fresh, w_task = t_id t, w_owner = t_owner t, w_job = job,
               w_resource_ref = [(''repo'', JStr repo), (''sha'', JStr sha)], w_status = WPending,
               w_poll_count = 0, w_last_polled_at = None,
               w_next_poll_at = now + ci_poll_base_seconds,
               w_backoff_seconds = ci_poll_base_seconds,
               w_deadline_at = now + default_ci_wait_timeout_seconds, w_evidence = [],
               w_created_at = now, w_resolved_at = None\<rparr>
      in if list_ex (\<lambda>v. w_job v = job) (task_waits d)
         then Inl (UniqueViolation ''uq_mainai_task_waits_job_id'')
         else Inr (d\<lparr>task_waits := task_waits d @ [w],
                     tasks := update_rows (\<lambda>r. t_id r = t_id t)
                                (\<lambda>r. r\<lparr>t_status := TWaitingCi\<rparr>) (tasks d),
                     task_events := task_events d @
                       [task_event_row now t TeWaitStarted
                          [(''source_type'', JStr ''github_check_runs''),
                           (''repo'', JStr repo), (''sha'', JStr sha)]]\<rparr>, w))"

section \<open>Deciding from the check runs\<close>

definition passing_conclusions :: "json set" where
  "passing_conclusions = {JStr ''success'', JStr ''neutral'', JStr ''skipped''}"

definition run_summary :: "jdict \<Rightarrow> json" where
  "run_summary cr =
     JObj [(''name'', jget cr ''name''), (''status'', jget cr ''status''),
           (''conclusion'', jget cr ''conclusion'')]"

definition evaluate_check_runs :: "jdict list \<Rightarrow> bool \<times> bool \<times> jdict" where
  "evaluate_check_runs runs =
     (if runs = [] then (False, False, [(''check_run_count'', JInt 0)])
      else let ev = [(''check_run_count'', JInt (int (length runs))),
                     (''runs'', JArr (map run_summary runs))]
           in if list_ex (\<lambda>cr. jget cr ''status'' \<noteq> JStr ''completed'') runs then (False, False, ev)
              else if list_all (\<lambda>cr. jget cr ''conclusion'' \<in> passing_conclusions) runs
                then (True, True, ev)
              else (True, False, ev))"

text \<open>Green is exactly: at least one run, all completed, every conclusion on the passing list.\<close>

lemma evaluate_passed_iff:
  "fst (snd (evaluate_check_runs runs)) \<longleftrightarrow>
     runs \<noteq> [] \<and> (\<forall>cr\<in>set runs. jget cr ''status'' = JStr ''completed'' \<and>
                     jget cr ''conclusion'' \<in> passing_conclusions)"
  by (auto simp: evaluate_check_runs_def Let_def list_ex_iff list_all_iff)

lemma evaluate_done_iff:
  "fst (evaluate_check_runs runs) \<longleftrightarrow>
     runs \<noteq> [] \<and> (\<forall>cr\<in>set runs. jget cr ''status'' = JStr ''completed'')"
  by (auto simp: evaluate_check_runs_def Let_def list_ex_iff list_all_iff)

section \<open>One poll\<close>

text \<open>The configured repository, the answer for a commit, and Python's \<open>str\<close> of a JSON value.\<close>

record github_api =
  gh_repo :: string
  gh_check_runs :: "json \<Rightarrow> string + jdict list"
  gh_str :: "json \<Rightarrow> string"

abbreviation quote :: string where "quote \<equiv> [CHR 0x27]"

definition poll_answer :: "github_api \<Rightarrow> task_wait \<Rightarrow> string + jdict list" where
  "poll_answer gh w =
     (let repo = jget (w_resource_ref w) ''repo''; sha = jget (w_resource_ref w) ''sha''
      in if \<not> truthy repo \<or> \<not> truthy sha
         then Inl (''wait '' @ uuid_str (w_id w) @
                   '' is missing its own durable repo/sha -- refusing to poll rather than guess.'')
         else if JStr (gh_repo gh) \<noteq> repo
           then Inl (''configured github_repo '' @ quote @ gh_repo gh @ quote @
                     '' no longer matches this wait'' @ quote @ ''s own repo '' @ quote @
                     gh_str gh repo @ quote @ ''.'')
         else gh_check_runs gh sha)"

definition polled :: "time \<Rightarrow> int \<Rightarrow> github_api \<Rightarrow> task_wait \<Rightarrow> task_wait" where
  "polled now jitter gh w =
     (if w_status w \<noteq> WPending then w
      else
        let (ended, passed, ev) =
              (case poll_answer gh w of
                 Inl msg \<Rightarrow> (False, False, [(''poll_error'', JStr msg)])
               | Inr runs \<Rightarrow> evaluate_check_runs runs);
            w1 = w\<lparr>w_poll_count := w_poll_count w + 1, w_last_polled_at := Some now,
                   w_evidence := ev\<rparr>
        in if ended then w1\<lparr>w_status := (if passed then WSatisfied else WFailed),
                           w_resolved_at := Some now\<rparr>
           else if w_deadline_at w \<le> now
             then w1\<lparr>w_status := WTimedOut, w_resolved_at := Some now\<rparr>
           else let b = (if jitter = 0 then 1 else jitter)
                in w1\<lparr>w_backoff_seconds := b,
                      w_next_poll_at := min (now + b) (w_deadline_at w)\<rparr>)"

definition poll_ci_wait :: "time \<Rightarrow> int \<Rightarrow> github_api \<Rightarrow> uuid \<Rightarrow> db \<Rightarrow> db" where
  "poll_ci_wait now jitter gh wid d =
     d\<lparr>task_waits := update_rows (\<lambda>w. w_id w = wid) (polled now jitter gh) (task_waits d)\<rparr>"

definition cancelled_wait :: "time \<Rightarrow> string \<Rightarrow> task_wait \<Rightarrow> task_wait" where
  "cancelled_wait now reason w =
     (if w_status w = WPending
      then w\<lparr>w_status := WCancelled, w_resolved_at := Some now,
             w_evidence := filter (\<lambda>kv. fst kv \<noteq> ''cancel_reason'') (w_evidence w) @
                             [(''cancel_reason'', JStr reason)]\<rparr>
      else w)"

definition cancel_ci_wait :: "time \<Rightarrow> string \<Rightarrow> uuid \<Rightarrow> db \<Rightarrow> db" where
  "cancel_ci_wait now reason wid d =
     d\<lparr>task_waits := update_rows (\<lambda>w. w_id w = wid) (cancelled_wait now reason) (task_waits d)\<rparr>"

section \<open>What a poll can conclude\<close>

lemma polled_terminal [simp]: "w_status w \<noteq> WPending \<Longrightarrow> polled now j gh w = w"
  by (simp add: polled_def)

lemma polled_fields [simp]:
  "w_id (polled now j gh w) = w_id w" "w_task (polled now j gh w) = w_task w"
  "w_job (polled now j gh w) = w_job w" "w_resource_ref (polled now j gh w) = w_resource_ref w"
  "w_deadline_at (polled now j gh w) = w_deadline_at w"
  by (auto simp: polled_def Let_def split: prod.splits)

lemma polled_pending:
  assumes "w_status (polled now j gh w) = WPending"
  shows "w_status w = WPending" and "now < w_deadline_at w"
    and "w_next_poll_at (polled now j gh w) = min (now + (if j = 0 then 1 else j)) (w_deadline_at w)"
  using assms by (auto simp: polled_def Let_def split: if_splits prod.splits)

lemma polled_satisfied:
  assumes "w_status w = WPending" and "w_status (polled now j gh w) = WSatisfied"
  shows "\<exists>runs. poll_answer gh w = Inr runs \<and> fst (evaluate_check_runs runs) \<and>
    fst (snd (evaluate_check_runs runs))"
  using assms by (auto simp: polled_def Let_def split: if_splits prod.splits sum.splits)

text \<open>C6: a wait never turns green by accident. It is satisfied only by a poll of the very commit
  and repository recorded in the wait, on a backend still configured for that repository, that
  returned at least one check run, all of them completed and each with a conclusion on the passing
  list; an empty answer, an unknown conclusion, a repository mismatch or an error of the client
  never satisfies it, and a client error never fails it either. A resolved wait never changes.\<close>

theorem ci_wait_fails_closed:
  "(w_status w = WPending \<and> w_status (polled now jitter gh w) = WSatisfied \<longrightarrow>
     jget (w_resource_ref w) ''repo'' = JStr (gh_repo gh) \<and>
     (\<exists>runs. gh_check_runs gh (jget (w_resource_ref w) ''sha'') = Inr runs \<and> runs \<noteq> [] \<and>
        (\<forall>cr\<in>set runs. jget cr ''status'' = JStr ''completed'' \<and>
           jget cr ''conclusion'' \<in> passing_conclusions))) \<and>
   (w_status w = WPending \<and> w_status (polled now jitter gh w) = WFailed \<longrightarrow>
     (\<exists>runs. poll_answer gh w = Inr runs \<and>
        (\<exists>cr\<in>set runs. jget cr ''conclusion'' \<notin> passing_conclusions))) \<and>
   (w_status w \<noteq> WPending \<longrightarrow> polled now jitter gh w = w)"
proof (intro conjI impI)
  assume a: "w_status w = WPending \<and> w_status (polled now jitter gh w) = WSatisfied"
  then obtain runs where r: "poll_answer gh w = Inr runs" "fst (snd (evaluate_check_runs runs))"
    by (blast dest: polled_satisfied)
  from r(1) have "jget (w_resource_ref w) ''repo'' = JStr (gh_repo gh)"
    "gh_check_runs gh (jget (w_resource_ref w) ''sha'') = Inr runs"
    by (auto simp: poll_answer_def Let_def split: if_splits)
  with r(2) show "jget (w_resource_ref w) ''repo'' = JStr (gh_repo gh)"
    and "\<exists>runs. gh_check_runs gh (jget (w_resource_ref w) ''sha'') = Inr runs \<and> runs \<noteq> [] \<and>
        (\<forall>cr\<in>set runs. jget cr ''status'' = JStr ''completed'' \<and>
           jget cr ''conclusion'' \<in> passing_conclusions)"
    by (simp_all add: evaluate_passed_iff)
next
  assume a: "w_status w = WPending \<and> w_status (polled now jitter gh w) = WFailed"
  then obtain runs where r: "poll_answer gh w = Inr runs" "fst (evaluate_check_runs runs)"
      "\<not> fst (snd (evaluate_check_runs runs))"
    by (auto simp: polled_def Let_def split: if_splits prod.splits sum.splits)
  then show "\<exists>runs. poll_answer gh w = Inr runs \<and>
      (\<exists>cr\<in>set runs. jget cr ''conclusion'' \<notin> passing_conclusions)"
    by (auto simp: evaluate_passed_iff evaluate_done_iff)
qed simp

section \<open>Every wait ends\<close>

text \<open>The polls the worker makes: each on a due wait, the draw between 0 and the ceiling.\<close>

fun poll_all :: "(time \<times> int \<times> github_api) list \<Rightarrow> task_wait \<Rightarrow> task_wait" where
  "poll_all [] w = w"
| "poll_all ((now, j, gh) # ps) w = poll_all ps (polled now j gh w)"

fun due_polls :: "(time \<times> int \<times> github_api) list \<Rightarrow> task_wait \<Rightarrow> bool" where
  "due_polls [] w = True"
| "due_polls ((now, j, gh) # ps) w =
     ((w_status w \<noteq> WPending \<or>
       w_next_poll_at w \<le> now \<and> 0 \<le> j \<and>
       j \<le> backoff_ceiling (w_poll_count w + 1) ci_poll_base_seconds ci_poll_cap_seconds) \<and>
      due_polls ps (polled now j gh w))"

lemma poll_all_resolved: "w_status w \<noteq> WPending \<Longrightarrow> poll_all ps w = w"
  by (induction ps) auto


definition sample_wait :: task_wait where
  "sample_wait =
     \<lparr>w_id = 9, w_task = 1, w_owner = 7, w_job = 5,
      w_resource_ref = [(''repo'', JStr ''o/r''), (''sha'', JStr ''abc'')], w_status = WPending,
      w_poll_count = 0, w_last_polled_at = None, w_next_poll_at = 20, w_backoff_seconds = 20,
      w_deadline_at = 21, w_evidence = [], w_created_at = 0, w_resolved_at = None\<rparr>"

definition answering :: "string + jdict list \<Rightarrow> github_api" where
  "answering a = \<lparr>gh_repo = ''o/r'', gh_check_runs = (\<lambda>s. a), gh_str = (\<lambda>v. [])\<rparr>"

theorem ci_wait_fails_closed_witness:
  "w_status (polled 20 3 (answering (Inr [[(''status'', JStr ''completed''),
      (''conclusion'', JStr ''success'')]])) sample_wait) = WSatisfied \<and>
   (\<exists>runs. gh_check_runs (answering (Inr [[(''status'', JStr ''completed''),
      (''conclusion'', JStr ''success'')]])) (JStr ''abc'') = Inr runs \<and> runs \<noteq> [])"
proof -
  let ?gh = "answering (Inr [[(''status'', JStr ''completed''), (''conclusion'', JStr ''success'')]])"
  have "w_status sample_wait = WPending" "jget (w_resource_ref sample_wait) ''sha'' = JStr ''abc''"
    "w_status (polled 20 3 ?gh sample_wait) = WSatisfied"
    by (simp_all add: sample_wait_def polled_def poll_answer_def answering_def Let_def jget_def
        evaluate_check_runs_def passing_conclusions_def)
  with ci_wait_fails_closed [of sample_wait 20 3 ?gh] show ?thesis by auto
qed


end
