(* ===== verification/Executor.thy ===== *)
theory Executor
  imports JobFacts CiWait
begin

text \<open>
  \<open>app/mainai_execution/executor.py\<close>: the only way a task leaves \<open>ready\<close> (dispatch, behind the
  approval gate), the retry of a failed attempt, the reset of a task whose job died, and the
  cancellation of a task with the cascade over its blocked dependents. Each operation locks the
  task row first, so it works on the row as stored. The result of an operation that raises is
  the exception alone: its caller rolls the transaction back.
\<close>

section \<open>The task row\<close>

definition lock_task :: "uuid \<Rightarrow> db \<Rightarrow> error + mainai_task" where
  "lock_task tid d = from_option (TaskNotFound tid) (find_row (\<lambda>t. t_id t = tid) (tasks d))"

definition write_task ::
  "uuid \<Rightarrow> (mainai_task \<Rightarrow> mainai_task) \<Rightarrow> task_event list \<Rightarrow> db \<Rightarrow> error + db" where
  "write_task tid f evs d =
     (if list_all (\<lambda>t. t_id t = tid \<longrightarrow> task_checks (f t)) (tasks d)
      then Inr (d\<lparr>tasks := update_rows (\<lambda>t. t_id t = tid) f (tasks d),
                  task_events := task_events d @ evs\<rparr>)
      else Inl CheckViolation)"

section \<open>Dispatch\<close>

definition dispatch_key :: "uuid \<Rightarrow> int \<Rightarrow> string" where
  "dispatch_key tid attempts = ''mainai_task_execution:'' @ uuid_str tid @ '':'' @ int_str attempts"

definition task_ref :: "uuid \<Rightarrow> jdict" where
  "task_ref tid = [(''type'', JStr ''mainai_task''), (''id'', JStr (uuid_str tid))]"

definition dispatched :: "time \<Rightarrow> mainai_task \<Rightarrow> mainai_task" where
  "dispatched now r =
     r\<lparr>t_status := TRunning,
       t_started_at := (case t_started_at r of None \<Rightarrow> Some now | Some s \<Rightarrow> Some s),
       t_attempts := t_attempts r + 1\<rparr>"

definition dispatch_ready_task ::
  "runtime_env \<Rightarrow> (db \<Rightarrow> db) \<Rightarrow> time \<Rightarrow> uuid \<Rightarrow> uuid \<Rightarrow> mainai_goal \<Rightarrow> string \<Rightarrow> db \<Rightarrow>
   error + (db \<times> mainai_job)" where
  "dispatch_ready_task env others now fresh tid goal dispatched_by d =
     sbind (lock_task tid d) (\<lambda>t.
       if t_status t \<noteq> TReady then Inl (TaskNotReady tid (t_status t))
       else
         sbind (require_task_approval d t (g_approval_policy goal)) (\<lambda>_.
         sbind (write_task tid (dispatched now)
                  [task_event_row now t TeDispatched [(''mainai_job_id'', JStr (uuid_str fresh))]] d) (\<lambda>d1.
         sbind (create_job env others now fresh (Some fresh) (t_owner t) ''task_execution''
                  [task_ref tid] dispatched_by (Some (dispatch_key tid (t_attempts t))) d1) (\<lambda>(d2, j).
         Inr (d2\<lparr>tasks := update_rows (\<lambda>r. t_id r = tid) (\<lambda>r. r\<lparr>t_job := Some (j_id j)\<rparr>) (tasks d2)\<rparr>,
              j)))))"

definition task_for_job :: "db \<Rightarrow> mainai_job \<Rightarrow> error + mainai_task option" where
  "task_for_job d j =
     (case filter (\<lambda>r. jget r ''type'' = JStr ''mainai_task'') (j_input_refs j) of
        [r] \<Rightarrow>
          (case json_uuid (jget r ''id'') of
             None \<Rightarrow> Inl (InvalidInputRefs (BadId (jget r ''id'')))
           | Some tid \<Rightarrow> Inr (find_row (\<lambda>t. t_id t = tid) (tasks d)))
      | _ \<Rightarrow> Inr None)"

section \<open>Retry and takeover reset\<close>

definition retry_task :: "time \<Rightarrow> uuid \<Rightarrow> db \<Rightarrow> error + db" where
  "retry_task now tid d =
     sbind (lock_task tid d) (\<lambda>t.
       if t_status t \<notin> retryable_task_statuses then Inl (TaskNotRetryable tid (t_status t))
       else write_task tid (\<lambda>r. r\<lparr>t_status := TReady, t_next_retry_at := None\<rparr>)
              [task_event_row now t TeRetryScheduled [(''attempts'', JInt (t_attempts t))]] d)"

definition reset_task_for_takeover :: "time \<Rightarrow> uuid \<Rightarrow> db \<Rightarrow> error + db" where
  "reset_task_for_takeover now tid d =
     sbind (lock_task tid d) (\<lambda>t.
       if t_status t \<noteq> TRunning then Inl (TaskNotRetryable tid (t_status t))
       else write_task tid (\<lambda>r. r\<lparr>t_status := TReady\<rparr>)
              [task_event_row now t TeRetryScheduled
                 [(''reason'', JStr ''recovery_takeover''), (''attempts'', JInt (t_attempts t))]] d)"

section \<open>Cancellation\<close>

definition cancellable_task_statuses :: "task_status set" where
  "cancellable_task_statuses =
     {TPending, TReady, TBlocked, TRetryableFailed, TWaitingExternal}"

definition cancelled_dependency :: "db \<Rightarrow> uuid \<Rightarrow> bool" where
  "cancelled_dependency d tid \<longleftrightarrow>
     list_ex (\<lambda>r. t_status r = TCancelled) (rows_with_ids (dependency_ids d tid) d)"

definition cascade_hit :: "uuid \<Rightarrow> db \<Rightarrow> mainai_task \<Rightarrow> bool" where
  "cascade_hit gid d t \<longleftrightarrow>
     t_goal t = gid \<and> t_status t = TBlocked \<and> cancelled_dependency d (t_id t)"

definition cascade_round :: "time \<Rightarrow> uuid \<Rightarrow> string \<Rightarrow> string \<Rightarrow> db \<Rightarrow> db" where
  "cascade_round now gid cancelled_by cascade_reason d =
     d\<lparr>tasks := update_rows (cascade_hit gid d)
                 (\<lambda>t. t\<lparr>t_status := TCancelled, t_completed_at := Some now, t_next_retry_at := None,
                        t_blocker_reason := Some cascade_reason\<rparr>) (tasks d),
       task_events := task_events d @
         map (\<lambda>t. task_event_row now t TeCancelled
                [(''cancelled_by'', JStr cancelled_by), (''reason'', JStr cascade_reason),
                 (''kind'', JStr ''cascade_from_cancelled_dependency'')])
           (filter (cascade_hit gid d) (tasks d))\<rparr>"

definition open_tasks :: "uuid \<Rightarrow> db \<Rightarrow> nat" where
  "open_tasks gid d =
     length (filter (\<lambda>t. t_goal t = gid \<and> t_status t \<in> {TPending, TBlocked}) (tasks d))"

lemma open_tasks_map:
  assumes "\<And>t. t_goal (f t) = t_goal t"
    and "\<And>t. t \<in> set ts \<Longrightarrow> t_status (f t) \<in> {TPending, TBlocked} \<Longrightarrow> t_status t \<in> {TPending, TBlocked}"
  shows "length (filter (\<lambda>t. t_goal t = gid \<and> t_status t \<in> {TPending, TBlocked}) (map f ts))
    \<le> length (filter (\<lambda>t. t_goal t = gid \<and> t_status t \<in> {TPending, TBlocked}) ts)"
  using assms(2) by (induction ts) (auto simp: assms(1))

lemma open_tasks_map_less:
  assumes "\<And>t. t_goal (f t) = t_goal t"
    and "\<And>t. t \<in> set ts \<Longrightarrow> t_status (f t) \<in> {TPending, TBlocked} \<Longrightarrow> t_status t \<in> {TPending, TBlocked}"
    and "t \<in> set ts" and "t_goal t = gid" and "t_status t \<in> {TPending, TBlocked}"
    and "t_status (f t) \<notin> {TPending, TBlocked}"
  shows "length (filter (\<lambda>t. t_goal t = gid \<and> t_status t \<in> {TPending, TBlocked}) (map f ts))
    < length (filter (\<lambda>t. t_goal t = gid \<and> t_status t \<in> {TPending, TBlocked}) ts)"
  using assms(2-)
proof (induction ts)
  case (Cons a ts)
  have le: "length (filter (\<lambda>t. t_goal t = gid \<and> t_status t \<in> {TPending, TBlocked}) (map f ts))
      \<le> length (filter (\<lambda>t. t_goal t = gid \<and> t_status t \<in> {TPending, TBlocked}) ts)"
    using Cons.prems(1) by (intro open_tasks_map assms(1)) auto
  show ?case
  proof (cases "t = a")
    case True
    with Cons.prems le show ?thesis by (simp add: assms(1) less_Suc_eq_le)
  next
    case False
    with Cons.prems have "t \<in> set ts" by simp
    from Cons.IH [OF _ this Cons.prems(3-5)] Cons.prems(1)
    have "length (filter (\<lambda>t. t_goal t = gid \<and> t_status t \<in> {TPending, TBlocked}) (map f ts))
      < length (filter (\<lambda>t. t_goal t = gid \<and> t_status t \<in> {TPending, TBlocked}) ts)" by auto
    moreover have "t_status (f a) \<in> {TPending, TBlocked} \<Longrightarrow> t_status a \<in> {TPending, TBlocked}"
      using Cons.prems(1) by simp
    ultimately show ?thesis by (auto simp: assms(1))
  qed
qed simp

lemma open_tasks_recompute: "open_tasks gid (after_recompute now gid' d) \<le> open_tasks gid d"
  unfolding open_tasks_def recompute_tasks update_rows_def
  by (rule open_tasks_map)
    (auto simp: pending_in_def apply_readiness_def split: readiness.splits if_splits)

lemma tasks_cascade_round:
  "tasks (cascade_round now gid who reason d) =
     update_rows (cascade_hit gid d)
       (\<lambda>t. t\<lparr>t_status := TCancelled, t_completed_at := Some now, t_next_retry_at := None,
              t_blocker_reason := Some reason\<rparr>) (tasks d)"
  by (simp add: cascade_round_def)

lemma open_tasks_round:
  assumes "\<exists>t\<in>set (tasks d). cascade_hit gid d t"
  shows "open_tasks gid (cascade_round now gid who reason d) < open_tasks gid d"
proof -
  from assms obtain t where "t \<in> set (tasks d)" "cascade_hit gid d t" ..
  then show ?thesis
    unfolding open_tasks_def tasks_cascade_round update_rows_def
    by (intro open_tasks_map_less [where t = t]) (auto simp: cascade_hit_def)
qed

text \<open>The \<open>while True\<close> loop; it ends because every round that goes on cancels an open task.\<close>

function cascade_cancel :: "time \<Rightarrow> uuid \<Rightarrow> string \<Rightarrow> string \<Rightarrow> db \<Rightarrow> db" where
  "cascade_cancel now gid cancelled_by cascade_reason d =
     (if \<not> list_ex (cascade_hit gid d) (tasks d) then d
      else cascade_cancel now gid cancelled_by cascade_reason
             (after_recompute now gid (cascade_round now gid cancelled_by cascade_reason d)))"
  by pat_completeness auto

termination cascade_cancel
proof (relation "measure (\<lambda>(now, gid, who, reason, d). open_tasks gid d)", goal_cases)
  case 1
  show ?case by simp
next
  case (2 now gid who reason d)
  then have "\<exists>t\<in>set (tasks d). cascade_hit gid d t" by (simp add: list_ex_iff)
  from le_less_trans [OF open_tasks_recompute open_tasks_round [OF this]] show ?case by simp
qed

declare cascade_cancel.simps [simp del]

definition finish_cancel ::
  "time \<Rightarrow> mainai_task \<Rightarrow> string \<Rightarrow> string \<Rightarrow> db \<Rightarrow> error + db" where
  "finish_cancel now t cancelled_by reason d =
     sbind (write_task (t_id t)
              (\<lambda>r. r\<lparr>t_status := TCancelled, t_completed_at := Some now, t_next_retry_at := None,
                     t_blocker_reason := (if reason = [] then t_blocker_reason r else Some reason)\<rparr>)
              [task_event_row now t TeCancelled
                 [(''cancelled_by'', JStr cancelled_by), (''reason'', JStr reason)]] d) (\<lambda>d1.
       Inr (cascade_cancel now (t_goal t) cancelled_by
              (if reason = [] then ''Dependency cancelled.'' else reason)
              (after_recompute now (t_goal t) d1)))"

definition pending_wait_of :: "uuid \<Rightarrow> task_wait \<Rightarrow> bool" where
  "pending_wait_of tid w \<longleftrightarrow> w_task w = tid \<and> w_status w = WPending"

definition cancel_task ::
  "uuid option \<Rightarrow> time \<Rightarrow> uuid \<Rightarrow> string \<Rightarrow> uuid option \<Rightarrow> string \<Rightarrow> db \<Rightarrow> error + db" where
  "cancel_task ctx now tid cancelled_by cancelled_by_id reason d =
     sbind (lock_task tid d) (\<lambda>t.
       if t_status t = TRunning then
         (case (t_job t, cancelled_by_id) of
            (Some jid, Some who) \<Rightarrow>
              sbind (request_cancel ctx now jid who d) (\<lambda>(d1, j).
                Inr (d1\<lparr>task_events := task_events d1 @
                       [task_event_row now t TeCancelRequested
                          [(''cancelled_by'', JStr cancelled_by), (''reason'', JStr reason)]]\<rparr>))
          | _ \<Rightarrow> Inl (TaskNotCancellable tid TRunning))
       else if t_status t = TWaitingCi then
         (case filter (pending_wait_of tid) (task_waits d) of
            [] \<Rightarrow> finish_cancel now t cancelled_by reason d
          | [w] \<Rightarrow>
              finish_cancel now t cancelled_by reason
                (cancel_ci_wait now (if reason = [] then ''Cancelled by founder.'' else reason)
                   (w_id w) d)
          | _ \<Rightarrow> Inl MultipleRows)
       else if t_status t \<notin> cancellable_task_statuses
         then Inl (TaskNotCancellable tid (t_status t))
       else finish_cancel now t cancelled_by reason d)"

section \<open>What a cancellation leaves behind\<close>

text \<open>How one task row may change in a cascade.\<close>

definition cascade_row :: "uuid \<Rightarrow> mainai_task \<Rightarrow> mainai_task \<Rightarrow> bool" where
  "cascade_row gid t t' \<longleftrightarrow>
     t' = t \<or>
     t_id t' = t_id t \<and> t_goal t' = t_goal t \<and> t_goal t = gid \<and> t_owner t' = t_owner t \<and>
     t_attempts t' = t_attempts t \<and> t_job t' = t_job t \<and>
     t_status t \<in> {TPending, TBlocked} \<and> t_status t' \<in> {TReady, TBlocked, TCancelled}"

lemma cascade_row_refl [simp]: "cascade_row gid t t"
  by (simp add: cascade_row_def)

lemma cascade_row_trans: "cascade_row gid r s \<Longrightarrow> cascade_row gid s t \<Longrightarrow> cascade_row gid r t"
  unfolding cascade_row_def by (elim disjE conjE; simp)

lemma cascade_row_update:
  assumes "\<And>t. t \<in> set ts \<Longrightarrow> p t \<Longrightarrow> cascade_row gid t (f t)"
  shows "list_all2 (cascade_row gid) ts (update_rows p f ts)"
  using assms by (induction ts) auto

lemma cascade_rows_recompute: "list_all2 (cascade_row gid) (tasks d) (tasks (after_recompute now gid d))"
  unfolding recompute_tasks
  by (rule cascade_row_update)
    (auto simp: pending_in_def cascade_row_def apply_readiness_def split: readiness.splits)

lemma cascade_rows_round: "list_all2 (cascade_row gid) (tasks d) (tasks (cascade_round now gid who reason d))"
  unfolding tasks_cascade_round
  by (rule cascade_row_update) (auto simp: cascade_hit_def cascade_row_def)

lemma cascade_rows_trans:
  "list_all2 (cascade_row gid) xs ys \<Longrightarrow> list_all2 (cascade_row gid) ys zs \<Longrightarrow>
     list_all2 (cascade_row gid) xs zs"
  by (rule list_all2_trans [rotated]) (blast intro: cascade_row_trans)+

lemma cascade_cancel_rows: "list_all2 (cascade_row gid) (tasks d) (tasks (cascade_cancel now gid who reason d))"
proof (induction now gid who reason d rule: cascade_cancel.induct)
  case (1 now gid who reason d)
  show ?case
  proof (cases "list_ex (cascade_hit gid d) (tasks d)")
    case False
    then show ?thesis by (simp add: cascade_cancel.simps list.rel_refl)
  next
    case True
    then have unfold: "cascade_cancel now gid who reason d =
        cascade_cancel now gid who reason (after_recompute now gid (cascade_round now gid who reason d))"
      by (subst cascade_cancel.simps) simp
    have "list_all2 (cascade_row gid) (tasks (after_recompute now gid (cascade_round now gid who reason d)))
        (tasks (cascade_cancel now gid who reason d))"
      unfolding unfold using 1 True by simp
    with cascade_rows_round cascade_rows_recompute show ?thesis
      by (blast intro: cascade_rows_trans)
  qed
qed

text \<open>No pending task has a failed or cancelled dependency after a pass; the loop keeps that.\<close>

definition pending_settled :: "uuid \<Rightarrow> db \<Rightarrow> bool" where
  "pending_settled gid d \<longleftrightarrow>
     (\<forall>t\<in>set (tasks d). pending_in gid t \<longrightarrow> readiness_of d t = StaysPending)"

lemma pending_settled_recompute: "pending_settled gid (after_recompute now gid d)"
  unfolding pending_settled_def
proof (intro ballI impI)
  fix t assume t: "t \<in> set (tasks (after_recompute now gid d))" and p: "pending_in gid t"
  then obtain t0 where t0: "t = (if pending_in gid t0 then apply_readiness (readiness_of d t0) t0 else t0)"
    by (auto simp: recompute_tasks in_update_rows_iff)
  with p have "pending_in gid t0" by (auto split: if_splits)
  with t0 p have "readiness_of d t0 = StaysPending" "t = apply_readiness (readiness_of d t0) t0"
    using pending_after_iff [of t0 gid] by (auto simp: pending_in_def)
  then show "readiness_of (after_recompute now gid d) t = StaysPending" by simp
qed

lemma stays_pending_no_cancelled:
  "readiness_of d t = StaysPending \<Longrightarrow> \<not> cancelled_dependency d (t_id t)"
  by (auto simp: readiness_of_def Let_def cancelled_dependency_def list_ex_iff find_row_None_iff
      split: option.splits if_splits)

lemma cascade_cancel_settled:
  assumes "pending_settled gid d"
  shows "pending_settled gid (cascade_cancel now gid who reason d) \<and>
    \<not> list_ex (cascade_hit gid (cascade_cancel now gid who reason d))
        (tasks (cascade_cancel now gid who reason d))"
  using assms
proof (induction now gid who reason d rule: cascade_cancel.induct)
  case (1 now gid who reason d)
  show ?case
  proof (cases "list_ex (cascade_hit gid d) (tasks d)")
    case False
    then have "cascade_cancel now gid who reason d = d" by (simp add: cascade_cancel.simps)
    with False 1(2) show ?thesis by simp
  next
    case True
    then have "cascade_cancel now gid who reason d =
        cascade_cancel now gid who reason (after_recompute now gid (cascade_round now gid who reason d))"
      by (subst cascade_cancel.simps) simp
    with 1(1) True pending_settled_recompute show ?thesis by simp
  qed
qed

lemma cascade_cancel_no_orphans:
  assumes "t \<in> set (tasks (cascade_cancel now gid who reason (after_recompute now gid d)))"
    and "t_goal t = gid" and "t_status t \<in> {TPending, TBlocked}"
  shows "\<not> cancelled_dependency (cascade_cancel now gid who reason (after_recompute now gid d)) (t_id t)"
proof -
  let ?d = "cascade_cancel now gid who reason (after_recompute now gid d)"
  from cascade_cancel_settled [OF pending_settled_recompute]
  have ps: "pending_settled gid ?d" and no: "\<not> list_ex (cascade_hit gid ?d) (tasks ?d)" by simp_all
  show ?thesis
  proof (cases "t_status t = TPending")
    case True
    with ps assms have "readiness_of ?d t = StaysPending"
      by (simp add: pending_settled_def pending_in_def)
    then show ?thesis by (rule stays_pending_no_cancelled)
  next
    case False
    with assms(3) have "t_status t = TBlocked" by simp
    with no assms show ?thesis by (auto simp: list_ex_iff cascade_hit_def)
  qed
qed

section \<open>What a dispatch does\<close>

lemma find_task_owner:
  assumes "unique_key t_id ts" and "t \<in> set ts"
  shows "find_row (\<lambda>x. t_id x = t_id t \<and> t_owner x = t_owner t) ts = Some t"
proof (cases "find_row (\<lambda>x. t_id x = t_id t \<and> t_owner x = t_owner t) ts")
  case None
  with assms(2) show ?thesis by (auto simp: find_row_None_iff)
next
  case (Some s)
  then have "s \<in> set ts" "t_id s = t_id t" by (auto dest: find_row_SomeD)
  with assms have "s = t" by (blast intro: unique_key_eqD)
  with Some show ?thesis by simp
qed

lemma lock_taskD:
  assumes "lock_task tid d = Inr t"
  shows "t \<in> set (tasks d)" and "t_id t = tid"
  using assms by (auto simp: lock_task_def dest: find_row_SomeD)

lemma lock_task_of:
  "tasks_ok d \<Longrightarrow> t \<in> set (tasks d) \<Longrightarrow> lock_task (t_id t) d = Inr t"
  by (simp add: lock_task_def unique_key_find tasks_ok_def)

text \<open>Under the primary key, a write reaches the locked row alone.\<close>

lemma write_task_locked:
  assumes "tasks_ok d" and "lock_task tid d = Inr t"
  shows "write_task tid f evs d =
    (if task_checks (f t)
     then Inr (d\<lparr>tasks := update_rows (\<lambda>r. t_id r = tid) f (tasks d),
                 task_events := task_events d @ evs\<rparr>)
     else Inl CheckViolation)"
proof -
  have "\<forall>r\<in>set (tasks d). t_id r = tid \<longrightarrow> r = t"
    using assms(1) lock_taskD [OF assms(2)] unique_key_eqD [of t_id "tasks d" _ t]
    by (simp add: tasks_ok_def)
  then have "list_all (\<lambda>r. t_id r = tid \<longrightarrow> task_checks (f r)) (tasks d) \<longleftrightarrow> task_checks (f t)"
    unfolding list_all_iff using lock_taskD [OF assms(2)] by metis
  then show ?thesis by (simp only: write_task_def)
qed

lemma write_task_ok:
  assumes "tasks_ok d" and "write_task tid f evs d = Inr d'" and "\<And>t. t_id (f t) = t_id t"
  shows "tasks_ok d'"
  using assms unfolding write_task_def tasks_ok_def
  by (auto simp: unique_key_update_rows in_update_rows_iff list_all_iff split: if_splits)

definition dispatch_job :: "time \<Rightarrow> uuid \<Rightarrow> string \<Rightarrow> mainai_task \<Rightarrow> mainai_job" where
  "dispatch_job now fresh who t =
     new_job now fresh (t_owner t) ''task_execution'' [task_ref (t_id t)] who
       (Some (dispatch_key (t_id t) (t_attempts t)))"

lemma dispatch_key_nonempty [simp]: "dispatch_key tid n \<noteq> []"
  by (simp add: dispatch_key_def)

lemma jget_task_ref [simp]:
  "jget (task_ref tid) ''type'' = JStr ''mainai_task''"
  "jget (task_ref tid) ''id'' = JStr (uuid_str tid)"
  by (simp_all add: task_ref_def jget_def)

lemma task_for_dispatched_job:
  "task_for_job d (dispatch_job now fresh who t) = Inr (find_row (\<lambda>r. t_id r = t_id t) (tasks d))"
  by (simp add: task_for_job_def dispatch_job_def new_job_def)

lemma insert_dispatch_job:
  assumes "fresh \<notin> j_id ` set (jobs d)"
    and "find_row (same_key (t_owner t) (Some (dispatch_key (t_id t) (t_attempts t)))) (jobs d) = None"
  shows "insert_job (dispatch_job now fresh who t) d = Inr (d\<lparr>jobs := jobs d @ [dispatch_job now fresh who t]\<rparr>)"
  using assms
  by (auto simp: insert_job_def dispatch_job_def new_job_def list_ex_iff find_row_None_iff
      job_checks_def checks_0026_def checks_0028_def checks_0034_def terminal_job_status_def)

lemma validate_dispatch_refs:
  assumes "tasks_ok d1" and "t1 \<in> set (tasks d1)" and "t_status t1 = TRunning"
    and "find_row (\<lambda>g. g_id g = t_goal t1 \<and> g_owner g = t_owner t1) (goals d1) = Some goal"
    and "require_task_approval d1 t1 (g_approval_policy goal) = Inr ()"
  shows "validate_refs_for_type d1 (t_owner t1) ''task_execution'' [task_ref (t_id t1)] True = Inr ()"
proof -
  have "uuid_str (t_id t1) \<noteq> []" by simp
  then have "truthy (JStr (uuid_str (t_id t1)))" by simp
  moreover have "find_row (\<lambda>t. t_id t = t_id t1 \<and> t_owner t = t_owner t1) (tasks d1) = Some t1"
    using assms(1,2) by (intro find_task_owner) (simp_all add: tasks_ok_def)
  ultimately show ?thesis using assms(3-5)
    by (simp add: validate_refs_for_type_def validate_task_execution_input_refs_def)
qed

lemma create_dispatch_job:
  assumes "tasks_ok d1" and "t1 \<in> set (tasks d1)" and "t_status t1 = TRunning"
    and "find_row (\<lambda>g. g_id g = t_goal t1 \<and> g_owner g = t_owner t1) (goals d1) = Some goal"
    and "require_task_approval d1 t1 (g_approval_policy goal) = Inr ()"
    and "fresh \<notin> j_id ` set (jobs d1)"
    and "find_row (same_key (t_owner t) (Some (dispatch_key (t_id t) (t_attempts t)))) (jobs d1) = None"
    and "t_id t1 = t_id t" and "t_owner t1 = t_owner t"
  shows "create_job env (\<lambda>d. d) now fresh (Some fresh) (t_owner t) ''task_execution''
           [task_ref (t_id t)] who (Some (dispatch_key (t_id t) (t_attempts t))) d1 =
    sbind (require_capability env ''task_execution'') (\<lambda>_.
      Inr (record_audit (Some (t_owner t)) ''mainai_job_created'' fresh None
             (record_event now (dispatch_job now fresh who t) EvCreated
                [(''job_type'', JStr ''task_execution''), (''input_refs'', JArr [JObj (task_ref (t_id t))])]
                (d1\<lparr>jobs := jobs d1 @ [dispatch_job now fresh who t]\<rparr>)),
           dispatch_job now fresh who t))"
proof -
  have j: "new_job now fresh (t_owner t) ''task_execution'' [task_ref (t_id t)] who
      (Some (dispatch_key (t_id t) (t_attempts t))) = dispatch_job now fresh who t"
    by (simp add: dispatch_job_def)
  have fields: "j_owner (dispatch_job now fresh who t) = t_owner t"
    "j_id (dispatch_job now fresh who t) = fresh" "j_type (dispatch_job now fresh who t) = ''task_execution''"
    "j_input_refs (dispatch_job now fresh who t) = [task_ref (t_id t)]"
    by (simp_all add: dispatch_job_def new_job_def)
  have "insert_new_job now (Some fresh) (dispatch_job now fresh who t) d1 =
      Inr (record_audit (Some (t_owner t)) ''mainai_job_created'' fresh None
             (record_event now (dispatch_job now fresh who t) EvCreated
                [(''job_type'', JStr ''task_execution''), (''input_refs'', JArr [JObj (task_ref (t_id t))])]
                (d1\<lparr>jobs := jobs d1 @ [dispatch_job now fresh who t]\<rparr>)),
           dispatch_job now fresh who t)"
    by (simp add: insert_new_job_def insert_dispatch_job [OF assms(6,7)] fields)
  with validate_dispatch_refs [OF assms(1-5)] assms(7-9) show ?thesis
    by (simp add: create_job_def Let_def j)
qed

section \<open>Dispatch, on every branch\<close>

text \<open>The database after a dispatch: the task row, its event, the job, the job's event and audit.\<close>

definition after_dispatch :: "time \<Rightarrow> uuid \<Rightarrow> string \<Rightarrow> mainai_task \<Rightarrow> db \<Rightarrow> db" where
  "after_dispatch now fresh who t d =
     record_audit (Some (t_owner t)) ''mainai_job_created'' fresh None
       (record_event now (dispatch_job now fresh who t) EvCreated
          [(''job_type'', JStr ''task_execution''), (''input_refs'', JArr [JObj (task_ref (t_id t))])]
          (d\<lparr>tasks := update_rows (\<lambda>r. t_id r = t_id t)
                       (\<lambda>r. (dispatched now t)\<lparr>t_job := Some fresh\<rparr>) (tasks d),
             task_events := task_events d @
               [task_event_row now t TeDispatched [(''mainai_job_id'', JStr (uuid_str fresh))]],
             jobs := jobs d @ [dispatch_job now fresh who t]\<rparr>))"

lemma dispatched_fields [simp]:
  "t_id (dispatched now t) = t_id t" "t_owner (dispatched now t) = t_owner t"
  "t_goal (dispatched now t) = t_goal t" "t_status (dispatched now t) = TRunning"
  "t_type (dispatched now t) = t_type t" "t_approval_required (dispatched now t) = t_approval_required t"
  "t_attempts (dispatched now t) = t_attempts t + 1" "t_max_attempts (dispatched now t) = t_max_attempts t"
  "t_completed_at (dispatched now t) = t_completed_at t"
  by (simp_all add: dispatched_def)

lemma task_checks_dispatched:
  "task_checks t \<Longrightarrow> t_status t = TReady \<Longrightarrow>
     task_checks (dispatched now t) \<longleftrightarrow> t_attempts t < t_max_attempts t"
  by (auto simp: task_checks_def terminal_task_statuses_def)

lemma task_event_row_frame [simp]:
  "te_type (task_event_row now t ty detail) = ty" "te_task (task_event_row now t ty detail) = t_id t"
  by (simp_all add: task_event_row_def)

lemma dispatch_succeeds:
  assumes ok: "tasks_ok d" and t: "t \<in> set (tasks d)" and ready: "t_status t = TReady"
    and goal: "find_row (\<lambda>g. g_id g = t_goal t \<and> g_owner g = t_owner t) (goals d) = Some goal"
    and fresh: "fresh \<notin> j_id ` set (jobs d)"
    and key: "find_row (same_key (t_owner t) (Some (dispatch_key (t_id t) (t_attempts t)))) (jobs d) = None"
    and appr: "require_task_approval d t (g_approval_policy goal) = Inr ()"
    and att: "t_attempts t < t_max_attempts t"
    and cap: "require_capability env ''task_execution'' = Inr ()"
  shows "dispatch_ready_task env (\<lambda>d. d) now fresh (t_id t) goal who d =
    Inr (after_dispatch now fresh who t d, dispatch_job now fresh who t)"
proof -
  let ?evs = "[task_event_row now t TeDispatched [(''mainai_job_id'', JStr (uuid_str fresh))]]"
  let ?d1 = "d\<lparr>tasks := update_rows (\<lambda>r. t_id r = t_id t) (dispatched now) (tasks d),
               task_events := task_events d @ ?evs\<rparr>"
  have uk: "unique_key t_id (tasks d)" and tc: "task_checks t"
    using ok t by (simp_all add: tasks_ok_def)
  have lock: "lock_task (t_id t) d = Inr t" by (rule lock_task_of [OF ok t])
  have wr: "write_task (t_id t) (dispatched now) ?evs d = Inr ?d1"
    using write_task_locked [OF ok lock] task_checks_dispatched [OF tc ready] att by simp
  have ok1: "tasks_ok ?d1" by (rule write_task_ok [OF ok wr]) simp
  have mem: "dispatched now t \<in> set (tasks ?d1)" using t by (auto simp: in_update_rows_iff)
  have appr1: "require_task_approval ?d1 (dispatched now t) (g_approval_policy goal) = Inr ()"
    using appr by (auto simp: require_task_approval_Inr_iff approval_granted_def)
  have create: "create_job env (\<lambda>d. d) now fresh (Some fresh) (t_owner t) ''task_execution''
      [task_ref (t_id t)] who (Some (dispatch_key (t_id t) (t_attempts t))) ?d1 =
    Inr (record_audit (Some (t_owner t)) ''mainai_job_created'' fresh None
           (record_event now (dispatch_job now fresh who t) EvCreated
              [(''job_type'', JStr ''task_execution''), (''input_refs'', JArr [JObj (task_ref (t_id t))])]
              (?d1\<lparr>jobs := jobs ?d1 @ [dispatch_job now fresh who t]\<rparr>)),
         dispatch_job now fresh who t)"
    by (subst create_dispatch_job [OF ok1 mem _ _ appr1])
      (simp_all add: goal fresh key cap)
  have jid: "j_id (dispatch_job now fresh who t) = fresh" by (simp add: dispatch_job_def new_job_def)
  have rows: "update_rows (\<lambda>r. t_id r = t_id t) (\<lambda>r. r\<lparr>t_job := Some fresh\<rparr>) (tasks ?d1) =
      update_rows (\<lambda>r. t_id r = t_id t) (\<lambda>r. (dispatched now t)\<lparr>t_job := Some fresh\<rparr>) (tasks d)"
    using update_rows_unique [OF uk t, of "\<lambda>r. (dispatched now r)\<lparr>t_job := Some fresh\<rparr>"]
      update_rows_twice [of t_id "dispatched now" "t_id t" "\<lambda>r. r\<lparr>t_job := Some fresh\<rparr>" "tasks d"]
    by simp
  show ?thesis
    unfolding dispatch_ready_task_def lock sbind_simps appr wr
    by (simp add: ready create jid rows [simplified] after_dispatch_def record_audit_def record_event_def)
qed

lemma dispatch_job_fields [simp]:
  "j_id (dispatch_job now fresh who t) = fresh" "j_owner (dispatch_job now fresh who t) = t_owner t"
  "j_type (dispatch_job now fresh who t) = ''task_execution''"
  "j_status (dispatch_job now fresh who t) = JQueued"
  "j_lease_generation (dispatch_job now fresh who t) = 0"
  "j_idempotency_key (dispatch_job now fresh who t) = Some (dispatch_key (t_id t) (t_attempts t))"
  by (simp_all add: dispatch_job_def new_job_def)

lemma after_dispatch_frame [simp]:
  "tasks (after_dispatch now fresh who t d) =
     update_rows (\<lambda>r. t_id r = t_id t) (\<lambda>r. (dispatched now t)\<lparr>t_job := Some fresh\<rparr>) (tasks d)"
  "jobs (after_dispatch now fresh who t d) = jobs d @ [dispatch_job now fresh who t]"
  "goals (after_dispatch now fresh who t d) = goals d"
  "task_deps (after_dispatch now fresh who t d) = task_deps d"
  by (simp_all add: after_dispatch_def record_audit_def record_event_def)

lemma require_task_execution:
  "require_capability env ''task_execution'' =
     (if role_configured env ''chat'' then Inr ()
      else Inl (CapabilityUnavailable ''task_execution'' ''not_configured''))"
  using require_capability_cases [of env "''task_execution''"] require_capability_Inr_iff [of env "''task_execution''"]
  by (auto simp: capability_manifest_def)

lemma dispatch_refused_capability:
  assumes ok: "tasks_ok d" and t: "t \<in> set (tasks d)" and ready: "t_status t = TReady"
    and goal: "find_row (\<lambda>g. g_id g = t_goal t \<and> g_owner g = t_owner t) (goals d) = Some goal"
    and key: "find_row (same_key (t_owner t) (Some (dispatch_key (t_id t) (t_attempts t)))) (jobs d) = None"
    and appr: "require_task_approval d t (g_approval_policy goal) = Inr ()"
    and att: "t_attempts t < t_max_attempts t"
    and cap: "require_capability env ''task_execution'' = Inl e"
  shows "dispatch_ready_task env others now fresh (t_id t) goal who d = Inl e"
proof -
  have lock: "lock_task (t_id t) d = Inr t" by (rule lock_task_of [OF ok t])
  have "task_checks t" using ok t by (simp add: tasks_ok_def)
  then show ?thesis
    using task_checks_dispatched [OF _ ready] att key cap
    by (simp add: dispatch_ready_task_def lock ready appr write_task_locked [OF ok lock] create_job_def
        Let_def)
qed

lemma dispatch_outcome:
  assumes "tasks_ok d" and "t \<in> set (tasks d)"
    and "find_row (\<lambda>g. g_id g = t_goal t \<and> g_owner g = t_owner t) (goals d) = Some goal"
    and "fresh \<notin> j_id ` set (jobs d)"
    and "find_row (same_key (t_owner t) (Some (dispatch_key (t_id t) (t_attempts t)))) (jobs d) = None"
  shows "(case dispatch_ready_task env (\<lambda>d. d) now fresh (t_id t) goal who d of
      Inl e \<Rightarrow>
        e = (if t_status t \<noteq> TReady then TaskNotReady (t_id t) (t_status t)
             else if requires_approval (g_approval_policy goal) (t_type t) (t_approval_required t) \<and>
                     \<not> approval_granted d (t_id t) then ApprovalRequired (t_id t)
             else if t_max_attempts t \<le> t_attempts t then CheckViolation
             else CapabilityUnavailable ''task_execution'' ''not_configured'') \<and>
        (t_status t \<noteq> TReady \<or> require_task_approval d t (g_approval_policy goal) \<noteq> Inr () \<or>
         t_max_attempts t \<le> t_attempts t \<or> \<not> role_configured env ''chat'')
    | Inr (d', j) \<Rightarrow>
        t_status t = TReady \<and> require_task_approval d t (g_approval_policy goal) = Inr () \<and>
        t_attempts t < t_max_attempts t \<and> role_configured env ''chat'' \<and>
        tasks d' = update_rows (\<lambda>r. t_id r = t_id t)
          (\<lambda>r. t\<lparr>t_status := TRunning,
                 t_started_at := (case t_started_at t of None \<Rightarrow> Some now | Some s \<Rightarrow> Some s),
                 t_attempts := t_attempts t + 1, t_job := Some fresh\<rparr>) (tasks d) \<and>
        jobs d' = jobs d @ [j] \<and> j_id j = fresh \<and> j_status j = JQueued \<and> j_owner j = t_owner t \<and>
        j_type j = ''task_execution'' \<and> j_lease_generation j = 0 \<and>
        j_idempotency_key j = Some (dispatch_key (t_id t) (t_attempts t)) \<and>
        (\<exists>t'. task_for_job d' j = Inr (Some t') \<and> t_id t' = t_id t \<and> t_job t' = Some (j_id j)) \<and>
        goals d' = goals d \<and> task_deps d' = task_deps d)"
proof -
  let ?r = "dispatch_ready_task env (\<lambda>d. d) now fresh (t_id t) goal who d"
  have lock: "lock_task (t_id t) d = Inr t" by (rule lock_task_of [OF assms(1,2)])
  have tc: "task_checks t" using assms(1,2) by (simp add: tasks_ok_def)
  consider (unready) "t_status t \<noteq> TReady"
    | (appr) "t_status t = TReady" "require_task_approval d t (g_approval_policy goal) \<noteq> Inr ()"
    | (used) "t_status t = TReady" "require_task_approval d t (g_approval_policy goal) = Inr ()"
        "t_max_attempts t \<le> t_attempts t"
    | (nocap) "t_status t = TReady" "require_task_approval d t (g_approval_policy goal) = Inr ()"
        "t_attempts t < t_max_attempts t" "\<not> role_configured env ''chat''"
    | (ok) "t_status t = TReady" "require_task_approval d t (g_approval_policy goal) = Inr ()"
        "t_attempts t < t_max_attempts t" "role_configured env ''chat''"
    by fastforce
  then show ?thesis
  proof cases
    case unready
    then show ?thesis by (simp add: dispatch_ready_task_def lock)
  next
    case appr
    then have "?r = Inl (ApprovalRequired (t_id t))"
      by (auto simp: dispatch_ready_task_def lock require_task_approval_def)
    with appr show ?thesis by (simp add: require_task_approval_Inr_iff)
  next
    case used
    then have "?r = Inl CheckViolation"
      using task_checks_dispatched [OF tc]
      by (simp add: dispatch_ready_task_def lock write_task_locked [OF assms(1) lock])
    with used show ?thesis by (auto simp: require_task_approval_Inr_iff)
  next
    case nocap
    with dispatch_refused_capability [OF assms(1,2) nocap(1) assms(3,5) nocap(2,3)]
    have "?r = Inl (CapabilityUnavailable ''task_execution'' ''not_configured'')"
      by (simp add: require_task_execution)
    with nocap show ?thesis by (auto simp: require_task_approval_Inr_iff)
  next
    case ok
    have "?r = Inr (after_dispatch now fresh who t d, dispatch_job now fresh who t)"
      using ok by (intro dispatch_succeeds assms) (simp_all add: require_task_execution)
    moreover have "find_row (\<lambda>r. t_id r = t_id t) (tasks (after_dispatch now fresh who t d)) =
        Some ((dispatched now t)\<lparr>t_job := Some fresh\<rparr>)"
      using unique_key_find [of t_id "tasks d" t] assms(1,2)
      by (simp add: tasks_ok_def find_update_hit)
    ultimately show ?thesis
      using ok dispatched_def [of now t] by (simp add: task_for_dispatched_job)
  qed
qed

text \<open>C8: dispatch is the only way out of ready, and here is what it does on every branch. A task that
  is not ready is refused; an approval-gated task without a recorded grant is refused before
  anything is written; a task whose attempts are used up violates the table's budget check;
  without a configured provider nothing is created. Otherwise the task runs with one more attempt
  and points to the new job, the job references the task, is queued under the key of this attempt
  and leads back to the task, and no other task or job changes.\<close>

theorem dispatch_ready_task_exact:
  assumes "tasks_ok d" and "t \<in> set (tasks d)"
    and "find_row (\<lambda>g. g_id g = t_goal t \<and> g_owner g = t_owner t) (goals d) = Some goal"
    and "fresh \<notin> j_id ` set (jobs d)"
    and "find_row (same_key (t_owner t) (Some (dispatch_key (t_id t) (t_attempts t)))) (jobs d) = None"
  shows "(case dispatch_ready_task env (\<lambda>d. d) now fresh (t_id t) goal who d of
      Inl e \<Rightarrow>
        e = (if t_status t \<noteq> TReady then TaskNotReady (t_id t) (t_status t)
             else if requires_approval (g_approval_policy goal) (t_type t) (t_approval_required t) \<and>
                     \<not> approval_granted d (t_id t) then ApprovalRequired (t_id t)
             else if t_max_attempts t \<le> t_attempts t then CheckViolation
             else CapabilityUnavailable ''task_execution'' ''not_configured'') \<and>
        (t_status t \<noteq> TReady \<or> require_task_approval d t (g_approval_policy goal) \<noteq> Inr () \<or>
         t_max_attempts t \<le> t_attempts t \<or> \<not> role_configured env ''chat'')
    | Inr (d', j) \<Rightarrow>
        t_status t = TReady \<and> require_task_approval d t (g_approval_policy goal) = Inr () \<and>
        t_attempts t < t_max_attempts t \<and> role_configured env ''chat'' \<and>
        tasks d' = update_rows (\<lambda>r. t_id r = t_id t)
          (\<lambda>r. t\<lparr>t_status := TRunning,
                 t_started_at := (case t_started_at t of None \<Rightarrow> Some now | Some s \<Rightarrow> Some s),
                 t_attempts := t_attempts t + 1, t_job := Some fresh\<rparr>) (tasks d) \<and>
        jobs d' = jobs d @ [j] \<and> j_id j = fresh \<and> j_status j = JQueued \<and> j_owner j = t_owner t \<and>
        j_type j = ''task_execution'' \<and> j_lease_generation j = 0 \<and>
        j_idempotency_key j = Some (dispatch_key (t_id t) (t_attempts t)) \<and>
        (\<exists>t'. task_for_job d' j = Inr (Some t') \<and> t_id t' = t_id t \<and> t_job t' = Some (j_id j)) \<and>
        goals d' = goals d \<and> task_deps d' = task_deps d)"
  by (rule dispatch_outcome [OF assms])

text \<open>Dispatching a concrete ready task.\<close>

definition sample_goal :: mainai_goal where
  "sample_goal =
     \<lparr>g_id = 20, g_owner = 7, g_title = ''goal'', g_original_instruction = ''do it'',
      g_status = GRunning, g_created_at = 1, g_started_at = Some 1, g_completed_at = None,
      g_current_plan_version = 1, g_risk = RiskLow, g_approval_policy = ''standard_repo_work'',
      g_final_outcome = None, g_created_by = ''owner''\<rparr>"

definition sample_dispatch_db :: db where
  "sample_dispatch_db = empty_db\<lparr>goals := [sample_goal], tasks := [sample_task 1 TReady]\<rparr>"

theorem dispatch_ready_task_exact_witness:
  "\<exists>d' j. dispatch_ready_task \<lparr>role_configured = (\<lambda>r. r = ''chat''), in_production = True\<rparr> (\<lambda>d. d)
       9 5 1 sample_goal ''worker'' sample_dispatch_db = Inr (d', j) \<and> jobs d' = [j] \<and> j_id j = 5"
proof -
  let ?env = "\<lparr>role_configured = (\<lambda>r. r = ''chat''), in_production = True\<rparr>"
  have "tasks_ok sample_dispatch_db"
    by (simp add: tasks_ok_def unique_key_def sample_dispatch_db_def sample_task_def task_checks_def
        terminal_task_statuses_def empty_db_def)
  from dispatch_ready_task_exact [OF this, of "sample_task 1 TReady" sample_goal 5 ?env 9 "''worker''"]
  show ?thesis
    by (auto simp: sample_dispatch_db_def sample_task_def sample_goal_def empty_db_def
        require_task_approval_def requires_approval_def approval_policies_def split: sum.splits)
qed

section \<open>Cancellation, as a whole\<close>

lemma cascade_round_frame [simp]:
  "jobs (cascade_round now gid who reason d) = jobs d"
  "task_deps (cascade_round now gid who reason d) = task_deps d"
  "goals (cascade_round now gid who reason d) = goals d"
  "task_waits (cascade_round now gid who reason d) = task_waits d"
  by (simp_all add: cascade_round_def)

lemma cascade_cancel_unfold:
  "list_ex (cascade_hit gid d) (tasks d) \<Longrightarrow>
   cascade_cancel now gid who reason d =
     cascade_cancel now gid who reason (after_recompute now gid (cascade_round now gid who reason d))"
  "\<not> list_ex (cascade_hit gid d) (tasks d) \<Longrightarrow> cascade_cancel now gid who reason d = d"
  by (subst cascade_cancel.simps, simp)+

lemma cascade_cancel_frame:
  "jobs (cascade_cancel now gid who reason d) = jobs d \<and>
   task_deps (cascade_cancel now gid who reason d) = task_deps d \<and>
   goals (cascade_cancel now gid who reason d) = goals d \<and>
   task_waits (cascade_cancel now gid who reason d) = task_waits d"
proof (induction now gid who reason d rule: cascade_cancel.induct)
  case (1 now gid who reason d)
  then show ?case
    by (cases "list_ex (cascade_hit gid d) (tasks d)") (simp_all add: cascade_cancel_unfold)
qed

lemma cascade_round_ok: "tasks_ok d \<Longrightarrow> tasks_ok (cascade_round now gid who reason d)"
  unfolding tasks_ok_def tasks_cascade_round
  by (auto simp: unique_key_update_rows in_update_rows_iff task_checks_def terminal_task_statuses_def
      split: if_splits)

lemma cascade_cancel_ok: "tasks_ok d \<Longrightarrow> tasks_ok (cascade_cancel now gid who reason d)"
proof (induction now gid who reason d rule: cascade_cancel.induct)
  case (1 now gid who reason d)
  then show ?case
    by (cases "list_ex (cascade_hit gid d) (tasks d)")
      (simp_all add: cascade_cancel_unfold recompute_ok cascade_round_ok)
qed

lemma cancelled_dependency_iff:
  "cancelled_dependency d i \<longleftrightarrow>
     (\<exists>r\<in>set (tasks d). t_id r \<in> set (dependency_ids d i) \<and> t_status r = TCancelled)"
  by (auto simp: cancelled_dependency_def rows_with_ids_def list_ex_iff)

lemma cancelled_dependency_mono:
  assumes "list_all2 (cascade_row gid) (tasks d) (tasks d')" and "task_deps d' = task_deps d"
    and "cancelled_dependency d i"
  shows "cancelled_dependency d' i"
proof -
  from assms(3) obtain r where r: "r \<in> set (tasks d)" "t_id r \<in> set (dependency_ids d i)" "t_status r = TCancelled"
    by (auto simp: cancelled_dependency_iff)
  from list_all2_left [OF assms(1) r(1)] r(3) have "r \<in> set (tasks d')"
    by (auto simp: cascade_row_def)
  with r assms(2) show ?thesis by (auto simp: cancelled_dependency_iff dependency_ids_def)
qed

lemma cancelled_recompute:
  assumes "s \<in> set (tasks (after_recompute now gid d))" and "t_status s = TCancelled"
  shows "s \<in> set (tasks d)"
proof -
  from assms(1) obtain r where r: "r \<in> set (tasks d)"
    "s = (if pending_in gid r then apply_readiness (readiness_of d r) r else r)"
    by (auto simp: recompute_tasks in_update_rows_iff)
  show ?thesis
  proof (cases "pending_in gid r")
    case True
    with r(2) assms(2) show ?thesis
      by (cases "readiness_of d r") (simp_all add: apply_readiness_def pending_in_def)
  next
    case False
    with r show ?thesis by simp
  qed
qed

text \<open>Every row the cascade cancels has a cancelled dependency to show for it.\<close>

lemma cascade_cancel_cause:
  assumes "r \<in> set (tasks (cascade_cancel now gid who reason d))" and "t_status r = TCancelled"
  shows "(\<exists>s\<in>set (tasks d). t_id s = t_id r \<and> t_status s = TCancelled) \<or>
    cancelled_dependency (cascade_cancel now gid who reason d) (t_id r)"
  using assms
proof (induction now gid who reason d rule: cascade_cancel.induct)
  case (1 now gid who reason d)
  show ?case
  proof (cases "list_ex (cascade_hit gid d) (tasks d)")
    case False
    with 1(2,3) show ?thesis by (auto simp: cascade_cancel_unfold)
  next
    case True
    let ?d1 = "cascade_round now gid who reason d" and ?e = "cascade_cancel now gid who reason d"
    let ?d2 = "after_recompute now gid ?d1"
    have e: "?e = cascade_cancel now gid who reason ?d2" by (rule cascade_cancel_unfold(1) [OF True])
    have "\<not> \<not> list_ex (cascade_hit gid d) (tasks d)" using True by simp
    from 1(1) [OF this] 1(2,3)
    consider s where "s \<in> set (tasks ?d2)" "t_id s = t_id r" "t_status s = TCancelled"
      | "cancelled_dependency ?e (t_id r)"
      unfolding e by auto
    then show ?thesis
    proof cases
      case 1
      then have s1: "s \<in> set (tasks ?d1)" by (blast intro: cancelled_recompute)
      with 1(3) obtain s0 where s0: "s0 \<in> set (tasks d)" "t_id s0 = t_id s"
        and c: "t_status s0 = TCancelled \<or> cascade_hit gid d s0"
        by (auto simp: tasks_cascade_round in_update_rows_iff split: if_splits)
      from c show ?thesis
      proof
        assume "t_status s0 = TCancelled" with s0 1 show ?thesis by auto
      next
        assume "cascade_hit gid d s0"
        then have "cancelled_dependency d (t_id r)" using s0 1 by (simp add: cascade_hit_def)
        then have "cancelled_dependency ?e (t_id r)"
          by (intro cancelled_dependency_mono [OF cascade_cancel_rows]) (simp_all add: cascade_cancel_frame)
        then show ?thesis ..
      qed
    qed simp
  qed
qed

definition cancelled_task :: "time \<Rightarrow> string \<Rightarrow> mainai_task \<Rightarrow> mainai_task" where
  "cancelled_task now reason t =
     t\<lparr>t_status := TCancelled, t_completed_at := Some now, t_next_retry_at := None,
       t_blocker_reason := (if reason = [] then t_blocker_reason t else Some reason)\<rparr>"

definition cancel_effect :: "time \<Rightarrow> string \<Rightarrow> mainai_task \<Rightarrow> db \<Rightarrow> db \<Rightarrow> bool" where
  "cancel_effect now reason t d d' \<longleftrightarrow>
     list_all2 (\<lambda>r r'. if t_id r = t_id t then r' = cancelled_task now reason t
                       else cascade_row (t_goal t) r r') (tasks d) (tasks d') \<and>
     (\<forall>r\<in>set (tasks d'). t_goal r = t_goal t \<and> t_status r \<in> {TPending, TBlocked} \<longrightarrow>
        \<not> cancelled_dependency d' (t_id r)) \<and>
     (\<forall>r\<in>set (tasks d'). t_status r = TCancelled \<and> t_id r \<noteq> t_id t \<longrightarrow>
        r \<in> set (tasks d) \<or> cancelled_dependency d' (t_id r)) \<and>
     jobs d' = jobs d \<and> goals d' = goals d \<and> task_deps d' = task_deps d \<and> tasks_ok d'"

lemma finish_cancel_effect:
  assumes ok: "tasks_ok d" and t: "t \<in> set (tasks d)"
  shows "\<exists>d'. finish_cancel now t who reason d = Inr d' \<and> cancel_effect now reason t d d' \<and>
    task_waits d' = task_waits d"
proof -
  let ?f = "\<lambda>r. r\<lparr>t_status := TCancelled, t_completed_at := Some now, t_next_retry_at := None,
                  t_blocker_reason := (if reason = [] then t_blocker_reason r else Some reason)\<rparr>"
  let ?evs = "[task_event_row now t TeCancelled [(''cancelled_by'', JStr who), (''reason'', JStr reason)]]"
  let ?why = "if reason = [] then ''Dependency cancelled.'' else reason"
  define d1 where "d1 = d\<lparr>tasks := update_rows (\<lambda>r. t_id r = t_id t) ?f (tasks d),
                         task_events := task_events d @ ?evs\<rparr>"
  define d' where "d' = cascade_cancel now (t_goal t) who ?why (after_recompute now (t_goal t) d1)"
  have lock: "lock_task (t_id t) d = Inr t" by (rule lock_task_of [OF ok t])
  have tc: "task_checks t" and uk: "unique_key t_id (tasks d)" using ok t by (simp_all add: tasks_ok_def)
  have wr: "write_task (t_id t) ?f ?evs d = Inr d1"
    using write_task_locked [OF ok lock, of ?f ?evs] tc
    by (simp add: task_checks_def terminal_task_statuses_def d1_def)
  have fin: "finish_cancel now t who reason d = Inr d'"
    by (simp add: finish_cancel_def wr d'_def)
  have ok1: "tasks_ok d1" by (rule write_task_ok [OF ok wr]) simp
  have rows1: "tasks d1 = update_rows (\<lambda>r. t_id r = t_id t) (\<lambda>_. cancelled_task now reason t) (tasks d)"
    using update_rows_unique [OF uk t, of ?f] by (simp add: d1_def cancelled_task_def)
  have casc: "list_all2 (cascade_row (t_goal t)) (tasks d1) (tasks d')"
    unfolding d'_def by (rule cascade_rows_trans [OF cascade_rows_recompute cascade_cancel_rows])
  have rows: "list_all2 (\<lambda>r r'. if t_id r = t_id t then r' = cancelled_task now reason t
      else cascade_row (t_goal t) r r') (tasks d) (tasks d')"
    using casc unfolding rows1 update_rows_def list.rel_map
    by (rule list.rel_mono_strong) (auto simp: cascade_row_def cancelled_task_def split: if_splits)
  have settled: "\<not> cancelled_dependency d' (t_id r)"
    if "r \<in> set (tasks d')" "t_goal r = t_goal t" "t_status r \<in> {TPending, TBlocked}" for r
    using cascade_cancel_no_orphans that unfolding d'_def by blast
  have cause: "r \<in> set (tasks d) \<or> cancelled_dependency d' (t_id r)"
    if r: "r \<in> set (tasks d')" "t_status r = TCancelled" "t_id r \<noteq> t_id t" for r
  proof -
    from cascade_cancel_cause [OF r(1) [unfolded d'_def] r(2)]
    consider s where "s \<in> set (tasks (after_recompute now (t_goal t) d1))" "t_id s = t_id r" "t_status s = TCancelled"
      | "cancelled_dependency d' (t_id r)" unfolding d'_def by blast
    then show ?thesis
    proof cases
      case 1
      then have s1: "s \<in> set (tasks d1)" by (blast intro: cancelled_recompute)
      then have s: "s \<in> set (tasks d)" using 1 r(3)
        by (auto simp: rows1 in_update_rows_iff cancelled_task_def split: if_splits)
      from list_all2_left [OF casc s1] 1(3) have "s \<in> set (tasks d')"
        by (auto simp: cascade_row_def)
      moreover have "unique_key t_id (tasks d')"
        using cascade_cancel_ok [OF recompute_ok [OF ok1]] by (simp add: d'_def tasks_ok_def)
      ultimately have "s = r" using r(1) 1(2) by (blast intro: unique_key_eqD)
      with s show ?thesis by simp
    qed simp
  qed
  have frame: "jobs d' = jobs d \<and> goals d' = goals d \<and> task_deps d' = task_deps d \<and> task_waits d' = task_waits d"
    by (simp add: d'_def cascade_cancel_frame d1_def)
  moreover have "tasks_ok d'" by (simp add: d'_def cascade_cancel_ok recompute_ok ok1)
  ultimately have "cancel_effect now reason t d d'"
    unfolding cancel_effect_def using rows settled cause by blast
  with fin frame show ?thesis by blast
qed

lemma cancel_ci_wait_frame [simp]:
  "tasks (cancel_ci_wait now reason wid d) = tasks d" "jobs (cancel_ci_wait now reason wid d) = jobs d"
  "goals (cancel_ci_wait now reason wid d) = goals d"
  "task_deps (cancel_ci_wait now reason wid d) = task_deps d"
  by (simp_all add: cancel_ci_wait_def)

lemma one_pending_wait_cancelled:
  assumes "unique_key w_id (task_waits d)" and "filter (pending_wait_of tid) (task_waits d) = [w]"
    and "v \<in> set (task_waits (cancel_ci_wait now reason (w_id w) d))" and "w_task v = tid"
  shows "w_status v \<noteq> WPending"
proof
  assume pending: "w_status v = WPending"
  from assms(3) obtain u where u: "u \<in> set (task_waits d)"
    "v = (if w_id u = w_id w then cancelled_wait now reason u else u)"
    by (auto simp: cancel_ci_wait_def in_update_rows_iff)
  show False
  proof (cases "w_id u = w_id w")
    case True
    with u(2) pending show False by (auto simp: cancelled_wait_def split: if_splits)
  next
    case False
    with u pending assms(4) have "u \<in> set (filter (pending_wait_of tid) (task_waits d))"
      by (simp add: pending_wait_of_def)
    with assms(2) False show False by simp
  qed
qed

lemma cancel_running_task:
  assumes "lock_task tid d = Inr t" and "t_status t = TRunning"
    and "cancel_task ctx now tid who who_id reason d = Inr d'"
  shows "tasks d' = tasks d \<and>
    (\<exists>jid j. t_job t = Some jid \<and> who_id \<noteq> None \<and> j \<in> set (jobs d') \<and> j_id j = jid \<and> j_cancel_requested j)"
proof -
  from assms obtain jid u d1 i where jid: "t_job t = Some jid" "who_id = Some u"
    and rc: "request_cancel ctx now jid u d = Inr (d1, i)"
    and d': "d' = d1\<lparr>task_events := task_events d1 @ [task_event_row now t TeCancelRequested
        [(''cancelled_by'', JStr who), (''reason'', JStr reason)]]\<rparr>"
    unfolding cancel_task_def by (auto elim!: sbind_InrE split: option.splits)
  from rc obtain j where j: "get_job ctx jid d = Inr j"
    and r: "j_cancel_requested j \<and> d1 = d \<or>
      (\<exists>d2 n. sql_update_jobs (\<lambda>r. j_id r = jid) (\<lambda>r. r\<lparr>j_cancel_requested := True\<rparr>) d = Inr (d2, n) \<and>
         d1 = record_audit (Some u) ''mainai_job_cancel_requested'' jid None
                (record_event now j EvCancelRequested [] d2))"
    unfolding request_cancel_def by (auto elim!: sbind_InrE split: if_splits)
  from j have jm: "j \<in> set (jobs d)" "j_id j = jid" by (auto simp: get_job_def dest: find_row_SomeD)
  from r show ?thesis
  proof
    assume "j_cancel_requested j \<and> d1 = d"
    with jm jid d' show ?thesis by auto
  next
    assume "\<exists>d2 n. sql_update_jobs (\<lambda>r. j_id r = jid) (\<lambda>r. r\<lparr>j_cancel_requested := True\<rparr>) d = Inr (d2, n) \<and>
       d1 = record_audit (Some u) ''mainai_job_cancel_requested'' jid None
              (record_event now j EvCancelRequested [] d2)"
    then obtain d2 n where d2: "sql_update_jobs (\<lambda>r. j_id r = jid) (\<lambda>r. r\<lparr>j_cancel_requested := True\<rparr>) d = Inr (d2, n)"
      and d1: "d1 = record_audit (Some u) ''mainai_job_cancel_requested'' jid None
                (record_event now j EvCancelRequested [] d2)" by blast
    from d2 have d2': "d2 = d\<lparr>jobs := update_rows (\<lambda>r. j_id r = jid) (\<lambda>r. r\<lparr>j_cancel_requested := True\<rparr>) (jobs d)\<rparr>"
      by (simp add: sql_update_jobs_Inr_iff)
    have "j\<lparr>j_cancel_requested := True\<rparr> \<in> set (jobs d')"
      using jm by (auto simp: d' d1 d2' in_update_rows_iff)
    moreover have "tasks d' = tasks d" by (simp add: d' d1 d2')
    ultimately show ?thesis using jm(2) jid by fastforce
  qed
qed

text \<open>Cancelling a task, on every branch. A running task is only asked to stop: its row stays and
  its job carries the request. Any other open task is cancelled at once, and the cancellation
  settles its goal: no pending or blocked task is left behind a cancelled dependency, every
  further cancelled task has a cancelled dependency, and no other row changes except from pending
  or blocked to ready, blocked or cancelled. A waiting task also leaves no pending CI wait behind.
  A finished task is refused.\<close>

theorem cancel_task_settles:
  assumes "tasks_ok d" and "t \<in> set (tasks d)" and "unique_key w_id (task_waits d)"
  shows "(case cancel_task ctx now (t_id t) who who_id reason d of
      Inl e \<Rightarrow>
        t_status t = TRunning \<or>
        t_status t \<in> terminal_task_statuses \<and> e = TaskNotCancellable (t_id t) (t_status t) \<or>
        t_status t = TWaitingCi \<and> e = MultipleRows \<and>
          1 < length (filter (pending_wait_of (t_id t)) (task_waits d))
    | Inr d' \<Rightarrow>
        if t_status t = TRunning
        then tasks d' = tasks d \<and>
          (\<exists>jid j. t_job t = Some jid \<and> who_id \<noteq> None \<and> j \<in> set (jobs d') \<and> j_id j = jid \<and>
             j_cancel_requested j)
        else t_status t \<notin> terminal_task_statuses \<and> cancel_effect now reason t d d' \<and>
          (t_status t = TWaitingCi \<longrightarrow>
             (\<forall>w\<in>set (task_waits d'). w_task w = t_id t \<longrightarrow> w_status w \<noteq> WPending)))"
proof -
  let ?r = "cancel_task ctx now (t_id t) who who_id reason d"
  have lock: "lock_task (t_id t) d = Inr t" by (rule lock_task_of [OF assms(1,2)])
  consider (running) "t_status t = TRunning" | (ci) "t_status t = TWaitingCi"
    | (open_task) "t_status t \<in> cancellable_task_statuses"
    | (ended) "t_status t \<in> terminal_task_statuses"
    by (cases "t_status t") (simp_all add: cancellable_task_statuses_def terminal_task_statuses_def)
  then show ?thesis
  proof cases
    case running
    with cancel_running_task [OF lock] show ?thesis by (auto split: sum.split)
  next
    case open_task
    then have "?r = finish_cancel now t who reason d"
      by (auto simp: cancel_task_def lock cancellable_task_statuses_def)
    with finish_cancel_effect [OF assms(1,2), of now who reason] open_task show ?thesis
      by (auto simp: cancellable_task_statuses_def terminal_task_statuses_def)
  next
    case ended
    then have "?r = Inl (TaskNotCancellable (t_id t) (t_status t))"
      by (auto simp: cancel_task_def lock cancellable_task_statuses_def terminal_task_statuses_def)
    with ended show ?thesis by simp
  next
    case ci
    show ?thesis
    proof (cases "filter (pending_wait_of (t_id t)) (task_waits d)")
      case Nil
      then have "?r = finish_cancel now t who reason d" by (simp add: cancel_task_def lock ci)
      moreover have "\<forall>w\<in>set (task_waits d). w_task w = t_id t \<longrightarrow> w_status w \<noteq> WPending"
        using Nil by (auto simp: filter_empty_conv pending_wait_of_def)
      ultimately show ?thesis using finish_cancel_effect [OF assms(1,2), of now who reason] ci
        by (auto simp: terminal_task_statuses_def)
    next
      case (Cons w ws)
      show ?thesis
      proof (cases ws)
        case Nil
        let ?c = "cancel_ci_wait now (if reason = [] then ''Cancelled by founder.'' else reason) (w_id w) d"
        from Nil Cons have one: "filter (pending_wait_of (t_id t)) (task_waits d) = [w]" by simp
        then have r: "?r = finish_cancel now t who reason ?c" by (simp add: cancel_task_def lock ci)
        have "tasks_ok ?c" using assms(1) by (simp add: tasks_ok_def)
        from finish_cancel_effect [OF this, of t now who reason] assms(2) obtain d' where
          d': "?r = Inr d'" "cancel_effect now reason t ?c d'" "task_waits d' = task_waits ?c"
          unfolding r by auto
        from d'(2) have "cancel_effect now reason t d d'" by (simp add: cancel_effect_def)
        moreover have "\<forall>w\<in>set (task_waits d'). w_task w = t_id t \<longrightarrow> w_status w \<noteq> WPending"
          using one_pending_wait_cancelled [OF assms(3) one] d'(3) by auto
        ultimately show ?thesis using d'(1) ci by (simp add: terminal_task_statuses_def)
      next
        case (Cons v vs)
        with \<open>filter _ _ = w # ws\<close> have "?r = Inl MultipleRows"
          by (simp add: cancel_task_def lock ci)
        with Cons \<open>filter _ _ = w # ws\<close> ci show ?thesis by simp
      qed
    qed
  qed
qed

definition sample_cancel_db :: db where
  "sample_cancel_db = empty_db\<lparr>
     tasks := [sample_task 1 TReady, sample_task 2 TPending],
     task_deps := [\<lparr>dep_task = 2, dep_on = 1, dep_owner = 7\<rparr>]\<rparr>"

theorem cancel_task_settles_witness:
  "\<exists>d'. cancel_task None 9 1 ''owner'' None ''stop'' sample_cancel_db = Inr d' \<and>
     map t_id (tasks d') = [1, 2] \<and> t_status (hd (tasks d')) = TCancelled \<and>
     t_status (tasks d' ! 1) \<notin> {TPending, TBlocked}"
proof -
  have ok: "tasks_ok sample_cancel_db" "unique_key w_id (task_waits sample_cancel_db)"
    by (simp_all add: tasks_ok_def unique_key_def sample_cancel_db_def sample_task_def task_checks_def
        terminal_task_statuses_def empty_db_def)
  have "sample_task 1 TReady \<in> set (tasks sample_cancel_db)" by (simp add: sample_cancel_db_def)
  from cancel_task_settles [OF ok(1) this ok(2), where ctx = None and now = 9 and who = "''owner''" and who_id = None and reason = "''stop''"] obtain d' where
    d': "cancel_task None 9 1 ''owner'' None ''stop'' sample_cancel_db = Inr d'"
    "cancel_effect 9 ''stop'' (sample_task 1 TReady) sample_cancel_db d'"
    by (auto simp: sample_task_def terminal_task_statuses_def split: sum.splits)
  from d'(2) obtain a b where rows: "tasks d' = [a, b]" "a = cancelled_task 9 ''stop'' (sample_task 1 TReady)"
    "cascade_row 20 (sample_task 2 TPending) b"
    by (auto simp: cancel_effect_def sample_cancel_db_def sample_task_def list_all2_Cons1)
  have "t_status b \<notin> {TPending, TBlocked}"
  proof
    assume "t_status b \<in> {TPending, TBlocked}"
    moreover have "t_goal b = 20" "t_id b = 2" using rows(3) by (auto simp: cascade_row_def sample_task_def)
    ultimately have "\<not> cancelled_dependency d' 2"
      using d'(2) rows(1) by (auto simp: cancel_effect_def sample_task_def)
    moreover have "dependency_ids d' 2 = [1]"
      using d'(2) by (simp add: cancel_effect_def dependency_ids_def sample_cancel_db_def)
    ultimately show False using rows
      by (simp add: cancelled_dependency_iff cancelled_task_def sample_task_def)
  qed
  with d'(1) rows show ?thesis
    by (auto simp: cascade_row_def cancelled_task_def sample_task_def)
qed

end
