(* ===== verification/CycleCheck.thy ===== *)
theory CycleCheck
  imports Prelude
begin

text \<open>
  \<open>_detect_cycle\<close> of \<open>app/mainai_execution/planner.py\<close>: the three-colour depth first search the
  planner runs over a proposed task graph before it writes anything. \<open>scan\<close> is the body of the
  inner function \<open>visit\<close> (the loop over the neighbours of one node, its state the colours and
  the path), \<open>visit\<close> enters a node, \<open>scan_roots\<close> is the outer loop. An index outside the colour
  list is the IndexError of the source. The result is correct: \<open>None\<close> exactly when the graph
  has no cycle, and a returned sequence is a cycle.
\<close>

datatype colour = White | Gray | Black

datatype dfs = Cycle "nat list" | Done "colour list" "nat list" | IndexError

section \<open>The search\<close>

definition adjacency_of :: "nat \<Rightarrow> (nat \<times> nat) list \<Rightarrow> nat list list" where
  "adjacency_of n edges = map (\<lambda>i. map snd (filter (\<lambda>e. fst e = i) edges)) [0..<n]"

definition cycle_from :: "nat \<Rightarrow> nat list \<Rightarrow> nat list" where
  "cycle_from v path = dropWhile (\<lambda>u. u \<noteq> v) path @ [v]"

function scan :: "nat list list \<Rightarrow> nat \<Rightarrow> nat list \<Rightarrow> colour list \<Rightarrow> nat list \<Rightarrow> dfs" where
  "scan adj node [] color path = Done (color[node := Black]) (butlast path)"
| "scan adj node (v # vs) color path =
     (if length color \<le> v then IndexError
      else if color ! v = Gray then Cycle (cycle_from v path)
      else if color ! v = White then
        (case scan adj v (adj ! v) (color[v := Gray]) (path @ [v]) of
           Cycle c \<Rightarrow> Cycle c
         | IndexError \<Rightarrow> IndexError
         | Done color' path' \<Rightarrow> scan adj node vs color' path')
      else scan adj node vs color path)"
  by pat_completeness auto

definition whites :: "colour list \<Rightarrow> nat" where
  "whites color = length (filter (\<lambda>c. c = White) color)"

lemma whites_Cons [simp]: "whites (c # cs) = (if c = White then Suc (whites cs) else whites cs)"
  by (simp add: whites_def)

lemma whites_pos: "v < length color \<Longrightarrow> color ! v = White \<Longrightarrow> 0 < whites color"
  by (auto simp: whites_def filter_empty_conv in_set_conv_nth)

lemma whites_update:
  "v < length color \<Longrightarrow> c \<noteq> White \<Longrightarrow>
     whites (color[v := c]) = (if color ! v = White then whites color - 1 else whites color)"
  by (induction color arbitrary: v) (use whites_pos in \<open>force split: nat.splits\<close>)+

lemma whites_update_le: "c \<noteq> White \<Longrightarrow> whites (color[v := c]) \<le> whites color"
  by (cases "v < length color") (auto simp: whites_update list_update_beyond)

lemma scan_whites:
  assumes "scan_dom (adj, node, vs, color, path)" and "scan adj node vs color path = Done color' path'"
  shows "whites color' \<le> whites color"
  using assms
proof (induction arbitrary: color' path' rule: scan.pinduct)
  case (1 adj node color path)
  then show ?case by (auto simp: scan.psimps whites_update_le)
next
  case (2 adj node v vs color path)
  show ?case
  proof (cases "length color \<le> v \<or> color ! v \<noteq> White")
    case True
    with 2 show ?thesis by (auto simp: scan.psimps split: if_splits)
  next
    case False
    with 2 obtain c1 p1 where inner: "scan adj v (adj ! v) (color[v := Gray]) (path @ [v]) = Done c1 p1"
      and rest: "scan adj node vs c1 p1 = Done color' path'"
      by (auto simp: scan.psimps split: dfs.splits)
    have "whites c1 \<le> whites (color[v := Gray])" using 2 False inner by simp
    also have "\<dots> \<le> whites color" by (rule whites_update_le) simp
    finally have "whites c1 \<le> whites color" .
    moreover have "whites color' \<le> whites c1" using 2 False inner rest by simp
    ultimately show ?thesis by simp
  qed
qed

termination scan
proof (relation "measures [\<lambda>(adj, node, vs, color, path). whites color,
    \<lambda>(adj, node, vs, color, path). length vs]", goal_cases)
  case 1
  show ?case by simp
next
  case (2 adj node v vs color path)
  then show ?case using whites_pos [of v color] by (simp add: whites_update)
next
  case (3 adj node v vs color path c1 p1)
  from scan_whites [OF 3(5)] 3(4) whites_pos [of v color] 3(1,3)
  have "whites c1 < whites color \<or> whites c1 = whites color \<and> length vs < length (v # vs)"
    by (force simp: whites_update)
  then show ?case by auto
next
  case 4
  then show ?case by simp
qed

definition visit :: "nat list list \<Rightarrow> nat \<Rightarrow> colour list \<Rightarrow> nat list \<Rightarrow> dfs" where
  "visit adj v color path = scan adj v (adj ! v) (color[v := Gray]) (path @ [v])"

fun scan_roots :: "nat list list \<Rightarrow> nat list \<Rightarrow> colour list \<Rightarrow> nat list \<Rightarrow> dfs" where
  "scan_roots adj [] color path = Done color path"
| "scan_roots adj (v # vs) color path =
     (if color ! v = White then
        (case visit adj v color path of
           Cycle c \<Rightarrow> Cycle c
         | IndexError \<Rightarrow> IndexError
         | Done color' path' \<Rightarrow> scan_roots adj vs color' path')
      else scan_roots adj vs color path)"

definition detect_cycle :: "nat \<Rightarrow> (nat \<times> nat) list \<Rightarrow> string + nat list option" where
  "detect_cycle n edges =
     (if \<not> list_all (\<lambda>e. fst e < n) edges then Inl ''IndexError''
      else case scan_roots (adjacency_of n edges) [0..<n] (replicate n White) [] of
             Cycle c \<Rightarrow> Inr (Some c)
           | IndexError \<Rightarrow> Inl ''IndexError''
           | Done color path \<Rightarrow> Inr None)"

section \<open>What the search keeps\<close>

definition edge_rel :: "nat list list \<Rightarrow> (nat \<times> nat) set" where
  "edge_rel adj = {(u, v). u < length adj \<and> v \<in> set (adj ! u)}"

definition genuine_cycle :: "(nat \<times> nat) set \<Rightarrow> nat list \<Rightarrow> bool" where
  "genuine_cycle E c \<longleftrightarrow> 2 \<le> length c \<and> hd c = last c \<and> successively (\<lambda>u v. (u, v) \<in> E) c"

definition in_range :: "nat list list \<Rightarrow> bool" where
  "in_range adj \<longleftrightarrow> (\<forall>u<length adj. \<forall>v\<in>set (adj ! u). v < length adj)"

definition black_done :: "nat list list \<Rightarrow> colour list \<Rightarrow> bool" where
  "black_done adj color \<longleftrightarrow>
     (\<forall>u<length adj. color ! u = Black \<longrightarrow>
        (\<forall>v\<in>set (adj ! u). color ! v = Black) \<and> (u, u) \<notin> (edge_rel adj)\<^sup>+)"

definition dfs_inv :: "nat list list \<Rightarrow> colour list \<Rightarrow> nat list \<Rightarrow> bool" where
  "dfs_inv adj color path \<longleftrightarrow>
     length color = length adj \<and> distinct path \<and>
     set path = {v. v < length adj \<and> color ! v = Gray} \<and>
     successively (\<lambda>u v. (u, v) \<in> edge_rel adj) path \<and> black_done adj color"

lemma black_reach:
  assumes "(u, v) \<in> (edge_rel adj)\<^sup>*" and "color ! u = Black" and "black_done adj color"
  shows "color ! v = Black"
  using assms(1)
proof (induction rule: rtrancl_induct)
  case (step v w)
  then show ?case using assms(3) by (auto simp: black_done_def edge_rel_def)
qed (simp add: assms(2))

text \<open>A node whose neighbours are all finished lies on no cycle.\<close>

lemma finished_acyclic:
  assumes "black_done adj color" and "\<forall>v\<in>set (adj ! u). color ! v = Black" and "color ! u \<noteq> Black"
  shows "(u, u) \<notin> (edge_rel adj)\<^sup>+"
proof
  assume "(u, u) \<in> (edge_rel adj)\<^sup>+"
  then obtain w where "(u, w) \<in> edge_rel adj" and "(w, u) \<in> (edge_rel adj)\<^sup>*"
    by (meson tranclD)
  with assms(1,2) have "color ! u = Black" by (auto simp: edge_rel_def intro: black_reach)
  with assms(3) show False by simp
qed

lemma cycle_from_genuine:
  assumes "successively (\<lambda>u v. (u, v) \<in> E) path" and "v \<in> set path" and "(last path, v) \<in> E"
  shows "genuine_cycle E (cycle_from v path)"
proof -
  obtain xs ys where path: "path = xs @ v # ys" and "v \<notin> set xs"
    using split_list_first [OF assms(2)] by blast
  then have "dropWhile (\<lambda>u. u \<noteq> v) path = dropWhile (\<lambda>u. u \<noteq> v) (v # ys)"
    by (simp only: path) (rule dropWhile_append2, auto)
  then have "dropWhile (\<lambda>u. u \<noteq> v) path = v # ys" by simp
  moreover have "successively (\<lambda>u v. (u, v) \<in> E) (v # ys)"
    using assms(1) by (simp add: path successively_append_iff)
  moreover have "last path = last (v # ys)" by (simp add: path)
  ultimately show ?thesis using assms(3)
    by (simp add: genuine_cycle_def cycle_from_def successively_append_iff flip: append_Cons)
qed

lemma dfs_inv_enter:
  assumes "dfs_inv adj color path" and "v < length adj" and "color ! v = White"
    and "path = [] \<or> (last path, v) \<in> edge_rel adj"
  shows "dfs_inv adj (color[v := Gray]) (path @ [v])"
proof -
  have len: "length color = length adj" and bd: "black_done adj color"
    using assms(1) by (auto simp: dfs_inv_def)
  have "black_done adj (color[v := Gray])"
    unfolding black_done_def
  proof (intro allI impI)
    fix u assume "u < length adj" and b: "color[v := Gray] ! u = Black"
    then have "u \<noteq> v" and u: "color ! u = Black"
      using len assms(2) by (auto simp: nth_list_update split: if_splits)
    with bd \<open>u < length adj\<close> have "\<forall>w\<in>set (adj ! u). color ! w = Black" "(u, u) \<notin> (edge_rel adj)\<^sup>+"
      by (auto simp: black_done_def)
    moreover from this(1) assms(3) have "\<forall>w\<in>set (adj ! u). w \<noteq> v" by auto
    ultimately show "(\<forall>w\<in>set (adj ! u). color[v := Gray] ! w = Black) \<and> (u, u) \<notin> (edge_rel adj)\<^sup>+"
      by auto
  qed
  moreover have "set (path @ [v]) = {u. u < length adj \<and> color[v := Gray] ! u = Gray}"
    using assms(1-3) by (auto simp: dfs_inv_def nth_list_update)
  ultimately show ?thesis
    using assms by (auto simp: dfs_inv_def successively_append_iff)
qed

lemma dfs_inv_leave:
  assumes "dfs_inv adj color path" and "path \<noteq> []" and "last path = u" and "u < length adj"
    and "\<forall>v\<in>set (adj ! u). color ! v = Black"
  shows "dfs_inv adj (color[u := Black]) (butlast path)"
proof -
  have path: "path = butlast path @ [u]" using append_butlast_last_id [OF assms(2)] assms(3) by simp
  have gray: "color ! u = Gray" and dist: "distinct path" and bd: "black_done adj color"
    and len: "length color = length adj"
    using assms(1-3) last_in_set [OF assms(2)] by (auto simp: dfs_inv_def)
  have "(u, u) \<notin> (edge_rel adj)\<^sup>+"
    using finished_acyclic [OF bd assms(5)] gray by simp
  have "black_done adj (color[u := Black])"
    unfolding black_done_def
  proof (intro allI impI)
    fix w assume w: "w < length adj" and b: "color[u := Black] ! w = Black"
    have keep: "color[u := Black] ! x = Black" if "color ! x = Black" for x
      using that assms(4) len by (cases "u = x") auto
    show "(\<forall>x\<in>set (adj ! w). color[u := Black] ! x = Black) \<and> (w, w) \<notin> (edge_rel adj)\<^sup>+"
    proof (cases "w = u")
      case True
      then show ?thesis using assms(5) keep \<open>(u, u) \<notin> (edge_rel adj)\<^sup>+\<close> by blast
    next
      case False
      then have "color ! w = Black" using b by simp
      then show ?thesis using bd w keep unfolding black_done_def by blast
    qed
  qed
  moreover have "set (butlast path) = set path - {u}"
  proof -
    have "distinct (butlast path @ [u])" using dist path by simp
    moreover have "set path = set (butlast path @ [u])" using path by simp
    ultimately show ?thesis by auto
  qed
  moreover have "successively (\<lambda>u v. (u, v) \<in> edge_rel adj) (butlast path)"
  proof -
    have "successively (\<lambda>u v. (u, v) \<in> edge_rel adj) (butlast path @ [u])"
      using assms(1) by (simp only: path [symmetric] dfs_inv_def)
    then show ?thesis by (simp add: successively_append_iff)
  qed
  moreover have "set path - {u} = {v. v < length adj \<and> color[u := Black] ! v = Gray}"
  proof -
    have "set path = {v. v < length adj \<and> color ! v = Gray}" using assms(1) by (simp add: dfs_inv_def)
    then show ?thesis using len assms(4) by (auto simp: nth_list_update split: if_splits)
  qed
  ultimately show ?thesis
    using len distinct_butlast [OF dist] by (simp add: dfs_inv_def)
qed

section \<open>Correctness\<close>

fun scan_ok :: "nat list list \<Rightarrow> nat \<Rightarrow> colour list \<Rightarrow> nat list \<Rightarrow> dfs \<Rightarrow> bool" where
  "scan_ok adj node color path (Cycle c) = genuine_cycle (edge_rel adj) c"
| "scan_ok adj node color path (Done color' path') =
     (dfs_inv adj color' path' \<and> path' = butlast path \<and> color' ! node = Black \<and>
      (\<forall>u<length adj. color ! u = Black \<longrightarrow> color' ! u = Black))"
| "scan_ok adj node color path IndexError = False"

lemma scan_correct:
  assumes "in_range adj" and "dfs_inv adj color path" and "path \<noteq> []" and "last path = node"
    and "node < length adj" and "set vs \<subseteq> set (adj ! node)"
    and "\<forall>v\<in>set (adj ! node) - set vs. color ! v = Black"
  shows "scan_ok adj node color path (scan adj node vs color path)"
  using assms
proof (induction adj node vs color path rule: scan.induct)
  case (1 adj node color path)
  then have "dfs_inv adj (color[node := Black]) (butlast path)"
    by (intro dfs_inv_leave) auto
  moreover have "length color = length adj" using 1 by (simp add: dfs_inv_def)
  ultimately show ?case using 1 by (auto simp: nth_list_update)
next
  case (2 adj node v vs color path)
  note IH = 2(1-3) and prems = 2(4-10)
  have len: "length color = length adj" using prems(2) by (simp add: dfs_inv_def)
  have v: "v < length adj" "v \<in> set (adj ! node)" using prems(1,5,6) by (auto simp: in_range_def)
  have edge: "(last path, v) \<in> edge_rel adj" using prems(4,5) v by (simp add: edge_rel_def)
  have vs: "set vs \<subseteq> set (adj ! node)" using prems(6) by simp
  consider (gray) "color ! v = Gray" | (white) "color ! v = White" | (black) "color ! v = Black"
    by (cases "color ! v") auto
  then show ?case
  proof cases
    case gray
    then have "v \<in> set path" using prems(2) v by (auto simp: dfs_inv_def)
    then have "genuine_cycle (edge_rel adj) (cycle_from v path)"
      using prems(2) edge by (intro cycle_from_genuine) (auto simp: dfs_inv_def)
    with gray v len show ?thesis by simp
  next
    case black
    then have "\<forall>w\<in>set (adj ! node) - set vs. color ! w = Black" using prems(7) by auto
    with black v len IH(3) [OF _ _ _ prems(1-5) vs] show ?thesis by simp
  next
    case white
    let ?inner = "scan adj v (adj ! v) (color[v := Gray]) (path @ [v])"
    have enter: "dfs_inv adj (color[v := Gray]) (path @ [v])"
      using prems(2) v(1) white edge by (intro dfs_inv_enter) auto
    have ok: "scan_ok adj v (color[v := Gray]) (path @ [v]) ?inner"
      using white v len by (intro IH(1) prems(1) enter) auto
    show ?thesis
    proof (cases ?inner)
      case (Done c1 p1)
      from ok have c1: "dfs_inv adj c1 path" "p1 = path" "c1 ! v = Black"
        and mono: "\<And>u. u < length adj \<Longrightarrow> color[v := Gray] ! u = Black \<Longrightarrow> c1 ! u = Black"
        by (auto simp: Done)
      have mono': "c1 ! u = Black" if "u < length adj" "color ! u = Black" for u
        using mono [OF that(1)] that(2) white by (cases "u = v") auto
      have "\<forall>w\<in>set (adj ! node) - set vs. c1 ! w = Black"
        using prems(1,5,7) c1(3) mono' by (auto simp: in_range_def)
      then have "scan_ok adj node c1 p1 (scan adj node vs c1 p1)"
        using white v len c1 prems(1,3,4,5) vs by (intro IH(2) [OF _ _ _ Done]) auto
      then have "scan_ok adj node c1 path (scan adj node vs c1 p1)" by (simp only: c1(2))
      with mono' have "scan_ok adj node color path (scan adj node vs c1 p1)"
        by (cases "scan adj node vs c1 p1") auto
      with white v len Done show ?thesis by simp
    qed (use ok white v len in auto)
  qed
qed

lemma scan_roots_correct:
  assumes "in_range adj" and "dfs_inv adj color []" and "set vs \<subseteq> {..<length adj}"
    and "\<forall>u<length adj. u \<notin> set vs \<longrightarrow> color ! u = Black"
  shows "case scan_roots adj vs color [] of
     Cycle c \<Rightarrow> genuine_cycle (edge_rel adj) c
   | Done color' path' \<Rightarrow> dfs_inv adj color' [] \<and> (\<forall>u<length adj. color' ! u = Black)
   | IndexError \<Rightarrow> False"
  using assms
proof (induction vs arbitrary: color)
  case Nil
  then show ?case by simp
next
  case (Cons v vs)
  have v: "v < length adj" using Cons.prems(3) by simp
  show ?case
  proof (cases "color ! v = White")
    case True
    have enter: "dfs_inv adj (color[v := Gray]) [v]"
      using dfs_inv_enter [OF Cons.prems(2) v True] by simp
    have ok: "scan_ok adj v (color[v := Gray]) [v] (visit adj v color [])"
      unfolding visit_def using v enter by (auto intro!: scan_correct [OF Cons.prems(1)])
    show ?thesis
    proof (cases "visit adj v color []")
      case (Done c1 p1)
      with ok have c1: "dfs_inv adj c1 []" "p1 = []" "c1 ! v = Black"
        and mono: "\<And>u. u < length adj \<Longrightarrow> color[v := Gray] ! u = Black \<Longrightarrow> c1 ! u = Black" by auto
      have "\<forall>u<length adj. u \<notin> set vs \<longrightarrow> c1 ! u = Black"
        using Cons.prems(4) c1(3) mono True by (metis list.set_intros(2) nth_list_update_neq set_ConsD)
      from Cons.IH [OF Cons.prems(1) c1(1) _ this] Cons.prems(3) True Done c1(2) show ?thesis by simp
    qed (use ok True in auto)
  next
    case False
    have "color ! v \<noteq> Gray" using Cons.prems(2) v by (auto simp: dfs_inv_def)
    with False have "color ! v = Black" by (cases "color ! v") auto
    with Cons.prems(4) have "\<forall>u<length adj. u \<notin> set vs \<longrightarrow> color ! u = Black" by auto
    from Cons.IH [OF Cons.prems(1,2) _ this] Cons.prems(3) False show ?thesis by simp
  qed
qed

lemma adjacency_of_simps:
  "length (adjacency_of n edges) = n"
  "u < n \<Longrightarrow> set (adjacency_of n edges ! u) = {v. (u, v) \<in> set edges}"
  by (force simp: adjacency_of_def)+

text \<open>
  The checker decides: on a graph whose endpoints are all task indices it never fails, answers
  \<open>None\<close> exactly when the dependency relation is acyclic, and otherwise returns a closed walk.
\<close>

lemma detect_cycle_correct:
  assumes "\<forall>(u, v)\<in>set edges. u < n \<and> v < n"
  shows "(\<exists>c. detect_cycle n edges = Inr (Some c) \<and> genuine_cycle (set edges) c) \<or>
         detect_cycle n edges = Inr None \<and> acyclic (set edges)"
proof -
  let ?adj = "adjacency_of n edges"
  have E: "edge_rel ?adj = set edges"
    using assms by (auto simp: edge_rel_def adjacency_of_simps)
  have range: "in_range ?adj" using assms by (auto simp: in_range_def adjacency_of_simps)
  have start: "dfs_inv ?adj (replicate n White) []"
    by (auto simp: dfs_inv_def black_done_def adjacency_of_simps)
  have sources: "list_all (\<lambda>e. fst e < n) edges" using assms by (auto simp: list_all_iff)
  have "case scan_roots ?adj [0..<n] (replicate n White) [] of
     Cycle c \<Rightarrow> genuine_cycle (edge_rel ?adj) c
   | Done color' path' \<Rightarrow> dfs_inv ?adj color' [] \<and> (\<forall>u<length ?adj. color' ! u = Black)
   | IndexError \<Rightarrow> False"
    by (rule scan_roots_correct [OF range start]) (auto simp: adjacency_of_simps)
  moreover have "acyclic (set edges)"
    if "dfs_inv ?adj color []" "\<forall>u<length ?adj. color ! u = Black" for color
    unfolding acyclic_def
  proof
    fix u show "(u, u) \<notin> (set edges)\<^sup>+"
    proof (cases "u < n")
      case True
      then show ?thesis using that by (auto simp: dfs_inv_def black_done_def E adjacency_of_simps)
    next
      case False
      then show ?thesis using assms by (auto dest!: tranclD)
    qed
  qed
  ultimately show ?thesis
    using sources by (auto simp: detect_cycle_def E split: dfs.splits)
qed

lemma successively_trancl:
  "successively (\<lambda>u v. (u, v) \<in> r) c \<Longrightarrow> 2 \<le> length c \<Longrightarrow> (hd c, last c) \<in> r\<^sup>+"
proof (induction c rule: induct_list012)
  case (3 x y zs)
  then show ?case by (cases zs) (auto intro: trancl_into_trancl2)
qed simp_all

text \<open>C13: the cycle check decides. On edges between the proposed tasks the search never runs out of an
  index, it reports no cycle exactly when the dependency relation is acyclic, and what it reports
  as a cycle is one: a closed walk along dependencies.\<close>

theorem detect_cycle_decides:
  assumes "\<forall>(u, v)\<in>set edges. u < n \<and> v < n"
  shows "(detect_cycle n edges = Inr None \<longleftrightarrow> acyclic (set edges)) \<and>
    (\<forall>c. detect_cycle n edges = Inr (Some c) \<longrightarrow>
       2 \<le> length c \<and> hd c = last c \<and> successively (\<lambda>u v. (u, v) \<in> set edges) c) \<and>
    (\<forall>e. detect_cycle n edges \<noteq> Inl e)"
proof -
  have "\<not> acyclic (set edges)" if "genuine_cycle (set edges) c" for c
    using that successively_trancl [of "set edges" c] by (auto simp: genuine_cycle_def acyclic_def)
  with detect_cycle_correct [OF assms] show ?thesis by (auto simp: genuine_cycle_def)
qed

theorem detect_cycle_decides_witness:
  "detect_cycle 3 [(1, 0), (2, 1), (0, 2)] = Inr (Some [0, 2, 1, 0]) \<and>
   successively (\<lambda>u v. (u, v) \<in> {(1, 0), (2, 1), (0, 2)}) [0::nat, 2, 1, 0]"
proof -
  have "detect_cycle 3 [(1, 0), (2, 1), (0, 2)] = Inr (Some [0, 2, 1, 0])" by code_simp
  with detect_cycle_decides [of "[(1, 0), (2, 1), (0, 2)]" 3] show ?thesis by simp
qed

end
