(* ===== verification/Verify.thy ===== *)
theory Verify
  imports Store
begin

text \<open>
  \<open>app/mainai_execution/verify.py\<close>: which targets a \<open>targeted_tests\<close> step may name, and the run
  of a task's verification plan. The pytest subprocess is the parameter \<open>run\<close>, which answers
  for a target and a timeout.
\<close>

section \<open>Targets\<close>

datatype step_error =
    BadTarget json | UnsafeTarget string | MalformedStep json | UnknownKind json | UnhashableKind json

fun split_on :: "char \<Rightarrow> string \<Rightarrow> string list" where
  "split_on sep [] = [[]]"
| "split_on sep (c # cs) =
     (case split_on sep cs of
        [] \<Rightarrow> [[c]]
      | w # ws \<Rightarrow> (if c = sep then [] # w # ws else (c # w) # ws))"

text \<open>The components of \<open>PurePosixPath(s)\<close>: empty ones and \<open>.\<close> are dropped.\<close>

definition path_parts :: "string \<Rightarrow> string list" where
  "path_parts s = filter (\<lambda>w. w \<noteq> [] \<and> w \<noteq> ''.'') (split_on CHR ''/'' s)"

definition is_absolute :: "string \<Rightarrow> bool" where
  "is_absolute s \<longleftrightarrow> s \<noteq> [] \<and> hd s = CHR ''/''"

definition validate_targeted_tests_target :: "json \<Rightarrow> step_error + string" where
  "validate_targeted_tests_target target =
     (case target of
        JStr s \<Rightarrow>
          (if s = [] then Inl (BadTarget target)
           else if is_absolute s \<or> ''..'' \<in> set (path_parts s) then Inl (UnsafeTarget s)
           else Inr s)
      | _ \<Rightarrow> Inl (BadTarget target))"

text \<open>
  What following a path from a directory does (symbolic links aside): a \<open>..\<close> drops the last
  component, an absolute path starts over.
\<close>

definition follow :: "string list \<Rightarrow> string \<Rightarrow> string list" where
  "follow cwd s =
     foldl (\<lambda>dir w. if w = ''..'' then butlast dir else dir @ [w])
       (if is_absolute s then [] else cwd) (path_parts s)"

lemma foldl_follow:
  "''..'' \<notin> set ws \<Longrightarrow>
     foldl (\<lambda>dir w. if w = ''..'' then butlast dir else dir @ [w]) dir ws = dir @ ws"
  by (induction ws arbitrary: dir) auto

lemma validate_target_Inr_iff:
  "validate_targeted_tests_target v = Inr s \<longleftrightarrow>
     v = JStr s \<and> s \<noteq> [] \<and> \<not> is_absolute s \<and> ''..'' \<notin> set (path_parts s)"
  by (cases v) (auto simp: validate_targeted_tests_target_def)

lemma validated_target_inside:
  "validate_targeted_tests_target v = Inr s \<Longrightarrow> follow cwd s = cwd @ path_parts s"
  by (simp add: validate_target_Inr_iff follow_def foldl_follow)

section \<open>Running a verification plan\<close>

datatype pytest_outcome = Exited int string string | TimedOut string string

record step_result =
  sr_kind :: string
  sr_passed :: bool
  sr_detail :: jdict

definition tail :: "nat \<Rightarrow> string \<Rightarrow> string" where
  "tail n s = drop (length s - n) s"

definition run_targeted_tests ::
  "(string \<Rightarrow> json \<Rightarrow> pytest_outcome) \<Rightarrow> jdict \<Rightarrow> step_error + step_result" where
  "run_targeted_tests run step =
     sbind (validate_targeted_tests_target (jget step ''target'')) (\<lambda>target.
       let timeout = (case map_of step ''timeout_seconds'' of None \<Rightarrow> JInt 300 | Some v \<Rightarrow> v)
       in Inr (case run target timeout of
            TimedOut out err \<Rightarrow>
              \<lparr>sr_kind = ''targeted_tests'', sr_passed = False,
               sr_detail = [(''target'', JStr target), (''error'', JStr ''timeout''),
                            (''timeout_seconds'', timeout), (''stdout_tail'', JStr (tail 4000 out)),
                            (''stderr_tail'', JStr (tail 2000 err))]\<rparr>
          | Exited code out err \<Rightarrow>
              \<lparr>sr_kind = ''targeted_tests'', sr_passed = (code = 0),
               sr_detail = [(''target'', JStr target), (''returncode'', JInt code),
                            (''stdout_tail'', JStr (tail 4000 out)),
                            (''stderr_tail'', JStr (tail 2000 err))]\<rparr>))"

text \<open>A list or an object as \<open>kind\<close> is no dictionary key: the lookup raises \<open>TypeError\<close>.\<close>

definition run_step ::
  "(string \<Rightarrow> json \<Rightarrow> pytest_outcome) \<Rightarrow> json \<Rightarrow> step_error + step_result" where
  "run_step run step =
     (case step of
        JObj s \<Rightarrow>
          (case map_of s ''kind'' of
             None \<Rightarrow> Inl (MalformedStep step)
           | Some (JArr k) \<Rightarrow> Inl (UnhashableKind (JArr k))
           | Some (JObj k) \<Rightarrow> Inl (UnhashableKind (JObj k))
           | Some k \<Rightarrow> (if k = JStr ''targeted_tests'' then run_targeted_tests run s
                       else Inl (UnknownKind k)))
      | _ \<Rightarrow> Inl (MalformedStep step))"

fun verify_steps ::
  "(string \<Rightarrow> json \<Rightarrow> pytest_outcome) \<Rightarrow> json list \<Rightarrow> step_error + step_result list" where
  "verify_steps run [] = Inr []"
| "verify_steps run (s # ss) =
     sbind (run_step run s) (\<lambda>r. sbind (verify_steps run ss) (\<lambda>rs. Inr (r # rs)))"

definition verify_task ::
  "(string \<Rightarrow> json \<Rightarrow> pytest_outcome) \<Rightarrow> mainai_task \<Rightarrow> step_error + (bool \<times> step_result list)" where
  "verify_task run t =
     sbind (verify_steps run (t_verification_plan t)) (\<lambda>rs. Inr (list_all sr_passed rs, rs))"

definition step_json :: "step_result \<Rightarrow> json" where
  "step_json r = JObj [(''kind'', JStr (sr_kind r)), (''passed'', JBool (sr_passed r)),
     (''detail'', JObj (sr_detail r))]"

definition verification_evidence :: "bool \<times> step_result list \<Rightarrow> jdict" where
  "verification_evidence v =
     [(''passed'', JBool (fst v)), (''steps'', JArr (map step_json (snd v)))]"

section \<open>What a verification shows\<close>

lemma run_step_Inr:
  assumes "run_step run step = Inr r"
  obtains s target where "step = JObj s" and "map_of s ''kind'' = Some (JStr ''targeted_tests'')"
    and "validate_targeted_tests_target (jget s ''target'') = Inr target"
    and "sr_passed r \<longleftrightarrow> (\<exists>out err. run target
           (case map_of s ''timeout_seconds'' of None \<Rightarrow> JInt 300 | Some v \<Rightarrow> v) = Exited 0 out err)"
proof -
  from assms obtain s where s: "step = JObj s" "map_of s ''kind'' = Some (JStr ''targeted_tests'')"
    and r: "run_targeted_tests run s = Inr r"
    unfolding run_step_def by (auto split: json.splits option.splits if_splits)
  from r obtain target where "validate_targeted_tests_target (jget s ''target'') = Inr target"
    and "sr_passed r \<longleftrightarrow> (\<exists>out err. run target
           (case map_of s ''timeout_seconds'' of None \<Rightarrow> JInt 300 | Some v \<Rightarrow> v) = Exited 0 out err)"
    unfolding run_targeted_tests_def Let_def
    by (auto elim!: sbind_InrE split: pytest_outcome.splits)
  with s show thesis by (rule that)
qed

lemma verify_steps_Inr:
  "verify_steps run ss = Inr rs \<Longrightarrow> list_all2 (\<lambda>s r. run_step run s = Inr r) ss rs"
  by (induction ss arbitrary: rs) (auto elim!: sbind_InrE)

text \<open>C9: a passed verification is real. If a task verifies as passed, every entry of its plan is a
  \<open>targeted_tests\<close> step whose target stays below the working directory, and for each of them
  pytest exited with code 0; a malformed or unknown step, an unsafe target, a failure and a
  timeout all prevent it.\<close>

theorem verify_task_passed:
  assumes "verify_task run t = Inr (True, rs)"
  shows "length rs = length (t_verification_plan t) \<and>
    (\<forall>step\<in>set (t_verification_plan t). \<exists>s target tmo out err.
       step = JObj s \<and> map_of s ''kind'' = Some (JStr ''targeted_tests'') \<and>
       jget s ''target'' = JStr target \<and> follow cwd target = cwd @ path_parts target \<and>
       run target tmo = Exited 0 out err)"
proof -
  from assms have vs: "verify_steps run (t_verification_plan t) = Inr rs" and p: "list_all sr_passed rs"
    unfolding verify_task_def by (auto elim!: sbind_InrE)
  from verify_steps_Inr [OF vs] have all2: "list_all2 (\<lambda>s r. run_step run s = Inr r) (t_verification_plan t) rs" .
  have "\<exists>s target tmo out err. step = JObj s \<and> map_of s ''kind'' = Some (JStr ''targeted_tests'') \<and>
      jget s ''target'' = JStr target \<and> follow cwd target = cwd @ path_parts target \<and>
      run target tmo = Exited 0 out err"
    if step: "step \<in> set (t_verification_plan t)" for step
  proof -
    from list_all2_left [OF all2 step] obtain r where r: "r \<in> set rs" "run_step run step = Inr r" by blast
    from r(1) p have passed: "sr_passed r" by (simp add: list_all_iff)
    from r(2) show ?thesis
    proof (rule run_step_Inr)
      fix s target
      assume s: "step = JObj s" "map_of s ''kind'' = Some (JStr ''targeted_tests'')"
        and v: "validate_targeted_tests_target (jget s ''target'') = Inr target"
        and "sr_passed r \<longleftrightarrow> (\<exists>out err. run target
           (case map_of s ''timeout_seconds'' of None \<Rightarrow> JInt 300 | Some v \<Rightarrow> v) = Exited 0 out err)"
      with passed obtain tmo out err where "run target tmo = Exited 0 out err" by blast
      moreover have "jget s ''target'' = JStr target" using v by (simp add: validate_target_Inr_iff)
      ultimately show ?thesis using s validated_target_inside [OF v] by blast
    qed
  qed
  moreover from all2 have "length rs = length (t_verification_plan t)" by (simp add: list_all2_lengthD)
  ultimately show ?thesis by blast
qed

definition sample_plan_entry :: json where
  "sample_plan_entry = JObj [(''kind'', JStr ''targeted_tests''), (''target'', JStr ''tests/a.py'')]"

definition sample_run :: "string \<Rightarrow> json \<Rightarrow> pytest_outcome" where
  "sample_run target timeout = (if target = ''tests/a.py'' then Exited 0 [] [] else TimedOut [] [])"

theorem verify_task_passed_witness:
  "follow [''repo''] ''tests/a.py'' = [''repo'', ''tests'', ''a.py''] \<and>
   (\<exists>tmo out err. sample_run ''tests/a.py'' tmo = Exited 0 out err)"
proof -
  define t :: mainai_task where "t = \<lparr>t_id = 1, t_goal = 20, t_plan = 30, t_owner = 7, t_description = [],
    t_type = ''run_tests'', t_status = TRunning, t_priority = 0, t_risk = RiskLow,
    t_approval_required = False, t_verification_plan = [sample_plan_entry], t_attempts = 1,
    t_max_attempts = 3, t_blocker_reason = None, t_job = None, t_created_at = 0,
    t_started_at = None, t_completed_at = None, t_next_retry_at = None\<rparr>"
  have "\<exists>rs. verify_task sample_run t = Inr (True, rs)"
    by (simp add: verify_task_def t_def run_step_def sample_plan_entry_def run_targeted_tests_def
        validate_targeted_tests_target_def jget_def is_absolute_def path_parts_def sample_run_def Let_def)
  with verify_task_passed [of sample_run t _ "[''repo'']"] show ?thesis
    by (auto simp: t_def sample_plan_entry_def jget_def path_parts_def)
qed

end
