(* ===== verification/Lessons.thy ===== *)
theory Lessons
  imports Verify "HOL-Library.Product_Lexorder" "HOL-Library.List_Lexorder"
begin

text \<open>
  \<open>app/mainai_execution/lessons.py\<close> and \<open>lesson_conflicts.py\<close>: the engineering lessons, how they
  add regression tests to a planned task, and how contradicting lessons are taken out of use. The
  table \<open>engineering_lessons\<close> is a list of its own (it is founder-wide and has no owner). The
  model's judgment of two lessons is the parameter \<open>judge\<close>, which answers \<open>None\<close> when the
  provider call or the parse of its reply raised.
\<close>

section \<open>The table\<close>

datatype lesson_status = LActive | LHistorical | LSuperseded | LDisputed

datatype lesson_severity = SevLow | SevMedium | SevHigh | SevCritical

datatype lesson_confidence = ConfCertain | ConfLikely | ConfUncertain

fun severity_value :: "lesson_severity \<Rightarrow> string" where
  "severity_value SevLow = ''low''"
| "severity_value SevMedium = ''medium''"
| "severity_value SevHigh = ''high''"
| "severity_value SevCritical = ''critical''"

record lesson =
  ls_id :: uuid
  ls_status :: lesson_status
  ls_problem :: string
  ls_root_cause :: string
  ls_component :: string
  ls_severity :: lesson_severity
  ls_evidence :: string
  ls_fix :: string
  ls_regression_test :: "string option"
  ls_general_rule :: string
  ls_applies_to :: "string list"
  ls_source_type :: string
  ls_source_ref :: string
  ls_first_seen_at :: time
  ls_confidence :: lesson_confidence
  ls_created_by :: string
  ls_created_at :: time
  ls_superseded_by :: "uuid option"

text \<open>A new lesson is active whatever the caller passes; the table's key refuses a used id.\<close>

definition record_lesson :: "lesson \<Rightarrow> lesson list \<Rightarrow> error + lesson list" where
  "record_lesson l ls =
     (if ls_id l \<in> ls_id ` set ls then Inl (UniqueViolation ''engineering_lessons_pkey'')
      else Inr (ls @ [l\<lparr>ls_status := LActive\<rparr>]))"

text \<open>
  The column is text, so \<open>ORDER BY severity DESC\<close> is alphabetical.
\<close>

definition lookup_lessons :: "string list \<Rightarrow> lesson list \<Rightarrow> lesson list" where
  "lookup_lessons tags ls =
     (if tags = [] then []
      else rev (sort_key (\<lambda>l. (severity_value (ls_severity l), ls_created_at l))
             (filter (\<lambda>l. ls_status l = LActive \<and> set (ls_applies_to l) \<inter> set tags \<noteq> {}) ls)))"

section \<open>Conflicting lessons\<close>

definition conflict_candidates :: "lesson \<Rightarrow> lesson \<Rightarrow> bool" where
  "conflict_candidates a b \<longleftrightarrow>
     ls_component a = ls_component b \<and> set (ls_applies_to a) \<inter> set (ls_applies_to b) \<noteq> {}"

fun pairs_of :: "lesson list \<Rightarrow> (lesson \<times> lesson) list" where
  "pairs_of [] = []"
| "pairs_of (a # rest) = map (\<lambda>b. (a, b)) (filter (conflict_candidates a) rest) @ pairs_of rest"

definition find_conflict_candidate_pairs :: "lesson list \<Rightarrow> (lesson \<times> lesson) list" where
  "find_conflict_candidate_pairs ls = pairs_of (filter (\<lambda>l. ls_status l = LActive) ls)"

definition conflicted_ids :: "lesson list \<Rightarrow> uuid set" where
  "conflicted_ids ls =
     (\<Union>(a, b)\<in>set (find_conflict_candidate_pairs ls). {ls_id a, ls_id b})"

lemma conflict_candidates_sym: "conflict_candidates a b \<longleftrightarrow> conflict_candidates b a"
  by (auto simp: conflict_candidates_def)

lemma pairs_of_subset: "(a, b) \<in> set (pairs_of ls) \<Longrightarrow> a \<in> set ls \<and> b \<in> set ls \<and> conflict_candidates a b"
  by (induction ls) auto

lemma pairs_of_complete:
  "a \<in> set ls \<Longrightarrow> b \<in> set ls \<Longrightarrow> a \<noteq> b \<Longrightarrow> conflict_candidates a b \<Longrightarrow>
     (a, b) \<in> set (pairs_of ls) \<or> (b, a) \<in> set (pairs_of ls)"
  by (induction ls) (auto simp: conflict_candidates_sym)

text \<open>Every active lesson that disagrees with another one is caught, on both sides.\<close>

lemma not_conflicted:
  assumes "a \<in> set ls" and "b \<in> set ls" and "ls_status a = LActive" and "ls_status b = LActive"
    and "a \<noteq> b" and "conflict_candidates a b"
  shows "ls_id a \<in> conflicted_ids ls"
  using pairs_of_complete [of a "filter (\<lambda>l. ls_status l = LActive) ls" b] assms
  by (auto simp: conflicted_ids_def find_conflict_candidate_pairs_def)

section \<open>What a lesson adds to a plan\<close>

text \<open>
  \<open>step.get("target") for step in plan if step.get("kind") == "targeted_tests"\<close>. The caller has
  validated the plan, so every step is an object and these targets are strings; the set of
  targets also holds any string a step names.
\<close>

definition targets_of :: "json list \<Rightarrow> string list" where
  "targets_of plan =
     concat (map (\<lambda>s. case s of
                JObj d \<Rightarrow> (if jget d ''kind'' = JStr ''targeted_tests''
                           then (case jget d ''target'' of JStr t \<Rightarrow> [t] | _ \<Rightarrow> []) else [])
              | _ \<Rightarrow> []) plan)"

definition targeted_step :: "string \<Rightarrow> json" where
  "targeted_step target = JObj [(''kind'', JStr ''targeted_tests''), (''target'', JStr target)]"

fun add_lessons ::
  "uuid set \<Rightarrow> string list \<Rightarrow> lesson list \<Rightarrow> (json list \<times> uuid list)" where
  "add_lessons conflicted existing [] = ([], [])"
| "add_lessons conflicted existing (l # ls) =
     (if ls_id l \<in> conflicted then add_lessons conflicted existing ls
      else case ls_regression_test l of
             None \<Rightarrow> add_lessons conflicted existing ls
           | Some test \<Rightarrow>
               (if test = [] \<or> test \<in> set existing then add_lessons conflicted existing ls
                else case validate_targeted_tests_target (JStr test) of
                       Inl e \<Rightarrow> add_lessons conflicted existing ls
                     | Inr target \<Rightarrow>
                         (let (steps, ids) = add_lessons conflicted (target # existing) ls
                          in (targeted_step target # steps, ls_id l # ids))))"

definition apply_lessons_to_verification_plan ::
  "lesson list \<Rightarrow> string \<Rightarrow> json list \<Rightarrow> json list \<times> uuid list" where
  "apply_lessons_to_verification_plan table task_type plan =
     (let lessons = lookup_lessons [task_type] table;
          (steps, ids) = add_lessons (conflicted_ids lessons) (targets_of plan) lessons
      in (plan @ steps, ids))"

definition lesson_additions ::
  "uuid set \<Rightarrow> string list \<Rightarrow> lesson list \<Rightarrow> json list \<Rightarrow> uuid list \<Rightarrow> bool" where
  "lesson_additions conflicted existing ls steps ids \<longleftrightarrow>
     (\<exists>targets. steps = map targeted_step targets \<and> distinct targets \<and>
        set targets \<inter> set existing = {} \<and>
        (\<forall>t\<in>set targets. validate_targeted_tests_target (JStr t) = Inr t) \<and>
        list_all2 (\<lambda>i t. \<exists>l\<in>set ls. ls_id l = i \<and> i \<notin> conflicted \<and> ls_regression_test l = Some t)
          ids targets)"

lemma lesson_additions_skip:
  "lesson_additions conflicted existing ls steps ids \<Longrightarrow>
     lesson_additions conflicted existing (l # ls) steps ids"
  unfolding lesson_additions_def
  by (elim exE conjE, rule exI, intro conjI, assumption+) (erule list_all2_mono, auto)

lemma lesson_additions_add:
  assumes "lesson_additions conflicted (t # existing) ls steps ids" and "ls_id l \<notin> conflicted"
    and "ls_regression_test l = Some t" and "validate_targeted_tests_target (JStr t) = Inr t"
    and "t \<notin> set existing"
  shows "lesson_additions conflicted existing (l # ls) (targeted_step t # steps) (ls_id l # ids)"
proof -
  from assms(1) obtain ts where ts: "steps = map targeted_step ts" "distinct ts"
    "set ts \<inter> set (t # existing) = {}" "\<forall>t\<in>set ts. validate_targeted_tests_target (JStr t) = Inr t"
    "list_all2 (\<lambda>i t. \<exists>l\<in>set ls. ls_id l = i \<and> i \<notin> conflicted \<and> ls_regression_test l = Some t) ids ts"
    unfolding lesson_additions_def by blast
  have "list_all2 (\<lambda>i t. \<exists>l'\<in>set (l # ls). ls_id l' = i \<and> i \<notin> conflicted \<and> ls_regression_test l' = Some t) ids ts"
    using ts(5) by (rule list_all2_mono) auto
  with ts assms(2-) show ?thesis
    unfolding lesson_additions_def by (intro exI [of _ "t # ts"]) auto
qed

lemma add_lessons_spec:
  "add_lessons conflicted existing ls = (steps, ids) \<Longrightarrow>
     lesson_additions conflicted existing ls steps ids"
proof (induction ls arbitrary: existing steps ids)
  case Nil
  then show ?case by (simp add: lesson_additions_def)
next
  case (Cons l ls)
  have skip: "lesson_additions conflicted existing (l # ls) steps ids"
    if "add_lessons conflicted existing (l # ls) = add_lessons conflicted existing ls"
    using Cons.IH [of existing steps ids] Cons.prems that by (intro lesson_additions_skip) simp
  show ?case
  proof (cases "ls_id l \<in> conflicted \<or> ls_regression_test l = None \<or>
      (\<exists>t. ls_regression_test l = Some t \<and> (t = [] \<or> t \<in> set existing))")
    case True
    then have "add_lessons conflicted existing (l # ls) = add_lessons conflicted existing ls"
      by (elim disjE exE conjE) simp_all
    then show ?thesis by (rule skip)
  next
    case False
    then obtain t where t: "ls_regression_test l = Some t" "t \<noteq> []" "t \<notin> set existing"
      and c: "ls_id l \<notin> conflicted" by auto
    show ?thesis
    proof (cases "validate_targeted_tests_target (JStr t)")
      case (Inl e)
      with t c have "add_lessons conflicted existing (l # ls) = add_lessons conflicted existing ls" by simp
      then show ?thesis by (rule skip)
    next
      case (Inr u)
      then have u: "u = t" by (simp add: validate_target_Inr_iff)
      obtain s i where rest: "add_lessons conflicted (t # existing) ls = (s, i)" by fastforce
      then have "lesson_additions conflicted (t # existing) ls s i" by (rule Cons.IH)
      from lesson_additions_add [OF this c t(1) _ t(3)] Inr u Cons.prems t c rest show ?thesis by simp
    qed
  qed
qed

lemma in_lookup_iff:
  "l \<in> set (lookup_lessons tags ls) \<longleftrightarrow>
     l \<in> set ls \<and> ls_status l = LActive \<and> set (ls_applies_to l) \<inter> set tags \<noteq> {}"
  by (auto simp: lookup_lessons_def)

text \<open>Lessons only ever add safe tests, and never two that disagree. The plan comes back with its
  own steps first, followed by one targeted test per applied lesson; the added targets are new to
  the plan, pairwise different and safe to run; each comes from an active lesson for this task
  type; and an applied lesson has no other active lesson for this task type that shares its
  component and one of its tags, whatever order the table is in.\<close>

theorem lessons_only_add:
  assumes "apply_lessons_to_verification_plan table ty plan = (plan', ids)"
  shows "\<exists>targets. plan' = plan @ map targeted_step targets \<and> distinct targets \<and>
    set targets \<inter> set (targets_of plan) = {} \<and>
    (\<forall>t\<in>set targets. validate_targeted_tests_target (JStr t) = Inr t) \<and>
    list_all2 (\<lambda>i t. \<exists>l\<in>set table. ls_id l = i \<and> ls_status l = LActive \<and> ty \<in> set (ls_applies_to l) \<and>
        ls_regression_test l = Some t \<and>
        (\<forall>m\<in>set table. ls_status m = LActive \<and> ty \<in> set (ls_applies_to m) \<and> m \<noteq> l \<longrightarrow>
           \<not> conflict_candidates l m)) ids targets"
proof -
  let ?ls = "lookup_lessons [ty] table"
  obtain steps where add: "add_lessons (conflicted_ids ?ls) (targets_of plan) ?ls = (steps, ids)"
    and plan': "plan' = plan @ steps"
    using assms by (auto simp: apply_lessons_to_verification_plan_def Let_def split: prod.splits)
  from add_lessons_spec [OF add] obtain ts where ts: "steps = map targeted_step ts" "distinct ts"
    "set ts \<inter> set (targets_of plan) = {}" "\<forall>t\<in>set ts. validate_targeted_tests_target (JStr t) = Inr t"
    "list_all2 (\<lambda>i t. \<exists>l\<in>set ?ls. ls_id l = i \<and> i \<notin> conflicted_ids ?ls \<and> ls_regression_test l = Some t) ids ts"
    unfolding lesson_additions_def by blast
  have "list_all2 (\<lambda>i t. \<exists>l\<in>set table. ls_id l = i \<and> ls_status l = LActive \<and> ty \<in> set (ls_applies_to l) \<and>
      ls_regression_test l = Some t \<and>
      (\<forall>m\<in>set table. ls_status m = LActive \<and> ty \<in> set (ls_applies_to m) \<and> m \<noteq> l \<longrightarrow>
         \<not> conflict_candidates l m)) ids ts"
    using ts(5)
  proof (rule list_all2_mono)
    fix i t
    assume "\<exists>l\<in>set ?ls. ls_id l = i \<and> i \<notin> conflicted_ids ?ls \<and> ls_regression_test l = Some t"
    then obtain l where l: "l \<in> set ?ls" "ls_id l = i" "i \<notin> conflicted_ids ?ls" "ls_regression_test l = Some t"
      by blast
    have "\<not> conflict_candidates l m"
      if "m \<in> set table" "ls_status m = LActive" "ty \<in> set (ls_applies_to m)" "m \<noteq> l" for m
    proof -
      from that have "m \<in> set ?ls" by (simp add: in_lookup_iff)
      with l that not_conflicted [of l ?ls m] show ?thesis by (auto simp: in_lookup_iff)
    qed
    with l show "\<exists>l\<in>set table. ls_id l = i \<and> ls_status l = LActive \<and> ty \<in> set (ls_applies_to l) \<and>
      ls_regression_test l = Some t \<and>
      (\<forall>m\<in>set table. ls_status m = LActive \<and> ty \<in> set (ls_applies_to m) \<and> m \<noteq> l \<longrightarrow>
         \<not> conflict_candidates l m)"
      by (intro bexI [of _ l]) (auto simp: in_lookup_iff)
  qed
  with ts plan' show ?thesis by blast
qed

definition sample_lesson :: "uuid \<Rightarrow> string \<Rightarrow> string \<Rightarrow> lesson" where
  "sample_lesson i part test =
     \<lparr>ls_id = i, ls_status = LActive, ls_problem = ''p'', ls_root_cause = ''r'', ls_component = part,
      ls_severity = SevHigh, ls_evidence = ''e'', ls_fix = ''f'', ls_regression_test = Some test,
      ls_general_rule = ''g'', ls_applies_to = [''repo_edit''], ls_source_type = ''s'',
      ls_source_ref = ''s'', ls_first_seen_at = 1, ls_confidence = ConfLikely,
      ls_created_by = ''c'', ls_created_at = int (unat i), ls_superseded_by = None\<rparr>"

theorem lessons_only_add_witness:
  "validate_targeted_tests_target (JStr ''t/a.py'') = Inr ''t/a.py'' \<and>
   fst (apply_lessons_to_verification_plan [sample_lesson 1 ''lease'' ''t/a.py''] ''repo_edit'' []) =
     [targeted_step ''t/a.py'']"
proof -
  have "apply_lessons_to_verification_plan [sample_lesson 1 ''lease'' ''t/a.py''] ''repo_edit'' [] =
      ([targeted_step ''t/a.py''], [1])"
    by (simp add: apply_lessons_to_verification_plan_def lookup_lessons_def sample_lesson_def
        conflicted_ids_def find_conflict_candidate_pairs_def targets_of_def is_absolute_def path_parts_def
        validate_targeted_tests_target_def)
  from lessons_only_add [OF this] this show ?thesis
    by (auto simp: targeted_step_def)
qed

section \<open>Resolving conflicts\<close>

text \<open>The judgment of a candidate pair; an unreliable answer is never a conflict.\<close>

definition detect_conflict ::
  "(lesson \<Rightarrow> lesson \<Rightarrow> (bool \<times> string) option) \<Rightarrow> lesson \<Rightarrow> lesson \<Rightarrow> bool \<times> string" where
  "detect_conflict judge a b = (case judge a b of None \<Rightarrow> (False, []) | Some r \<Rightarrow> r)"

text \<open>\<open>detail @> {"lessons_applied": [id]}\<close> on a \<open>created\<close> event.\<close>

definition applied_lesson_event :: "uuid \<Rightarrow> task_event \<Rightarrow> bool" where
  "applied_lesson_event i e \<longleftrightarrow>
     te_type e = TeCreated \<and>
     (case jget (te_detail e) ''lessons_applied'' of
        JArr xs \<Rightarrow> JStr (uuid_str i) \<in> set xs | _ \<Rightarrow> False)"

definition tasks_that_applied_lesson :: "uuid \<Rightarrow> db \<Rightarrow> mainai_task list" where
  "tasks_that_applied_lesson i d =
     filter (\<lambda>t. list_ex (\<lambda>e. applied_lesson_event i e \<and> te_task e = t_id t) (task_events d)) (tasks d)"

definition conflict_event :: "time \<Rightarrow> uuid \<Rightarrow> uuid \<Rightarrow> string \<Rightarrow> mainai_task \<Rightarrow> task_event" where
  "conflict_event now i other why t =
     \<lparr>te_task = t_id t, te_owner = t_owner t, te_type = TeLessonConflictDetected,
      te_detail = [(''lesson_id'', JStr (uuid_str i)),
                   (''conflicting_lesson_id'', JStr (uuid_str other)), (''reasoning'', JStr why)],
      te_created_at = now\<rparr>"

definition mark_conflict ::
  "time \<Rightarrow> lesson \<Rightarrow> lesson \<Rightarrow> string \<Rightarrow> lesson list \<times> db \<Rightarrow> lesson list \<times> db" where
  "mark_conflict now a b why = (\<lambda>(table, d).
     (update_rows (\<lambda>l. ls_id l \<in> {ls_id a, ls_id b}) (\<lambda>l. l\<lparr>ls_status := LDisputed\<rparr>) table,
      d\<lparr>task_events := task_events d @
          map (conflict_event now (ls_id a) (ls_id b) why) (tasks_that_applied_lesson (ls_id a) d) @
          map (conflict_event now (ls_id b) (ls_id a) why) (tasks_that_applied_lesson (ls_id b) d)\<rparr>))"

fun resolve_pairs ::
  "time \<Rightarrow> (lesson \<Rightarrow> lesson \<Rightarrow> (bool \<times> string) option) \<Rightarrow> (lesson \<times> lesson) list \<Rightarrow>
   uuid list \<Rightarrow> lesson list \<times> db \<Rightarrow> uuid list \<times> lesson list \<times> db" where
  "resolve_pairs now judge [] disputed s = (disputed, s)"
| "resolve_pairs now judge ((a, b) # ps) disputed s =
     (if ls_id a \<in> set disputed \<or> ls_id b \<in> set disputed then resolve_pairs now judge ps disputed s
      else case detect_conflict judge a b of
             (conflict, why) \<Rightarrow>
               (if conflict
                then resolve_pairs now judge ps (ls_id a # ls_id b # disputed) (mark_conflict now a b why s)
                else resolve_pairs now judge ps disputed s))"

definition resolve_conflicts_among ::
  "time \<Rightarrow> (lesson \<Rightarrow> lesson \<Rightarrow> (bool \<times> string) option) \<Rightarrow> lesson list \<Rightarrow> lesson list \<times> db \<Rightarrow>
   lesson list \<times> lesson list \<times> db" where
  "resolve_conflicts_among now judge ls s =
     (let (disputed, s') = resolve_pairs now judge (find_conflict_candidate_pairs ls) [] s
      in (filter (\<lambda>l. ls_id l \<notin> set disputed) ls, s'))"

definition disputed_rows :: "uuid set \<Rightarrow> lesson list \<Rightarrow> lesson list" where
  "disputed_rows ids = update_rows (\<lambda>l. ls_id l \<in> ids) (\<lambda>l. l\<lparr>ls_status := LDisputed\<rparr>)"

lemma disputed_rows_twice: "disputed_rows A (disputed_rows B t) = disputed_rows (A \<union> B) t"
  by (auto simp: disputed_rows_def update_rows_def)

lemma fst_mark_conflict: "fst (mark_conflict now a b why s) = disputed_rows {ls_id a, ls_id b} (fst s)"
  by (cases s) (simp add: mark_conflict_def disputed_rows_def)

lemma mark_conflict_frame:
  "tasks (snd (mark_conflict now a b why s)) = tasks (snd s)"
  "jobs (snd (mark_conflict now a b why s)) = jobs (snd s)"
  by (cases s; simp add: mark_conflict_def)+

lemma resolve_pairs_spec:
  assumes "resolve_pairs now judge ps disputed s = (disputed', s')"
  shows "\<exists>new. set disputed' = set disputed \<union> new \<and> fst s' = disputed_rows new (fst s) \<and>
     tasks (snd s') = tasks (snd s) \<and> jobs (snd s') = jobs (snd s) \<and>
     (\<forall>(a, b)\<in>set ps. fst (detect_conflict judge a b) \<longrightarrow>
        ls_id a \<in> set disputed' \<or> ls_id b \<in> set disputed') \<and>
     (\<forall>i\<in>new. \<exists>(a, b)\<in>set ps. i \<in> {ls_id a, ls_id b} \<and> fst (detect_conflict judge a b))"
  using assms
proof (induction ps arbitrary: disputed s)
  case Nil
  then show ?case by (intro exI [of _ "{}"]) (simp add: disputed_rows_def update_rows_def)
next
  case (Cons p ps)
  obtain a b where p: "p = (a, b)" by fastforce
  obtain c why where dc: "detect_conflict judge a b = (c, why)" by fastforce
  show ?case
  proof (cases "\<not> (ls_id a \<in> set disputed \<or> ls_id b \<in> set disputed) \<and> c")
    case True
    with Cons.prems p dc have "resolve_pairs now judge ps (ls_id a # ls_id b # disputed)
        (mark_conflict now a b why s) = (disputed', s')" by simp
    from Cons.IH [OF this] obtain new where new: "set disputed' = set (ls_id a # ls_id b # disputed) \<union> new"
      "fst s' = disputed_rows new (fst (mark_conflict now a b why s))"
      "tasks (snd s') = tasks (snd s)" "jobs (snd s') = jobs (snd s)"
      "\<forall>(a, b)\<in>set ps. fst (detect_conflict judge a b) \<longrightarrow> ls_id a \<in> set disputed' \<or> ls_id b \<in> set disputed'"
      "\<forall>i\<in>new. \<exists>(a, b)\<in>set ps. i \<in> {ls_id a, ls_id b} \<and> fst (detect_conflict judge a b)"
      unfolding mark_conflict_frame by blast
    from new(2) have "fst s' = disputed_rows (new \<union> {ls_id a, ls_id b}) (fst s)"
      by (simp add: fst_mark_conflict disputed_rows_twice)
    with new p dc True show ?thesis
      by (intro exI [of _ "new \<union> {ls_id a, ls_id b}"]) auto
  next
    case False
    with Cons.prems p dc have "resolve_pairs now judge ps disputed s = (disputed', s')"
      by (auto split: if_splits)
    from Cons.IH [OF this] obtain new where new: "set disputed' = set disputed \<union> new"
      "fst s' = disputed_rows new (fst s)" "tasks (snd s') = tasks (snd s)" "jobs (snd s') = jobs (snd s)"
      "\<forall>(a, b)\<in>set ps. fst (detect_conflict judge a b) \<longrightarrow> ls_id a \<in> set disputed' \<or> ls_id b \<in> set disputed'"
      "\<forall>i\<in>new. \<exists>(a, b)\<in>set ps. i \<in> {ls_id a, ls_id b} \<and> fst (detect_conflict judge a b)" by blast
    with False p dc show ?thesis by (intro exI [of _ new]) auto
  qed
qed

text \<open>Conflict resolution never picks a winner and fails closed. A resolution only turns lessons
  disputed; exactly the lessons that drop out of the answer are the ones disputed; each of them
  was judged to contradict another candidate; no two remaining candidates were judged to
  contradict each other; and if every judgment is unreliable, nothing changes.\<close>

theorem resolve_conflicts_fail_closed:
  "case resolve_conflicts_among now judge ls (table, d) of (remaining, table', d') \<Rightarrow>
     (\<exists>out. table' = disputed_rows out table \<and>
        remaining = filter (\<lambda>l. ls_id l \<notin> out) ls \<and>
        (\<forall>i\<in>out. \<exists>(a, b)\<in>set (find_conflict_candidate_pairs ls).
            i \<in> {ls_id a, ls_id b} \<and> (\<exists>why. judge a b = Some (True, why)))) \<and>
     (\<forall>(a, b)\<in>set (find_conflict_candidate_pairs ls).
        a \<in> set remaining \<and> b \<in> set remaining \<longrightarrow> \<not> (\<exists>why. judge a b = Some (True, why))) \<and>
     tasks d' = tasks d \<and> jobs d' = jobs d"
proof -
  obtain disputed s' where r: "resolve_pairs now judge (find_conflict_candidate_pairs ls) [] (table, d) = (disputed, s')"
    by (rule prod.exhaust)
  have judged: "fst (detect_conflict judge a b) \<longleftrightarrow> (\<exists>why. judge a b = Some (True, why))" for a b
    by (auto simp: detect_conflict_def split: option.splits)
  from resolve_pairs_spec [OF r] obtain new where new: "set disputed = new"
    "fst s' = disputed_rows new table" "tasks (snd s') = tasks d" "jobs (snd s') = jobs d"
    "\<forall>(a, b)\<in>set (find_conflict_candidate_pairs ls). (\<exists>why. judge a b = Some (True, why)) \<longrightarrow>
       ls_id a \<in> set disputed \<or> ls_id b \<in> set disputed"
    "\<forall>i\<in>new. \<exists>(a, b)\<in>set (find_conflict_candidate_pairs ls). i \<in> {ls_id a, ls_id b} \<and>
       (\<exists>why. judge a b = Some (True, why))"
    unfolding judged by auto
  obtain t' d' where s': "s' = (t', d')" by fastforce
  show ?thesis
    using new unfolding resolve_conflicts_among_def r s' Let_def by auto
qed

theorem resolve_conflicts_fail_closed_witness:
  "fst (resolve_conflicts_among 5 (\<lambda>a b. None)
     [sample_lesson 1 ''lease'' ''t/a.py'', sample_lesson 2 ''lease'' ''t/b.py''] ([], empty_db)) =
   [sample_lesson 1 ''lease'' ''t/a.py'', sample_lesson 2 ''lease'' ''t/b.py'']"
proof -
  let ?ls = "[sample_lesson 1 ''lease'' ''t/a.py'', sample_lesson 2 ''lease'' ''t/b.py'']"
  obtain r t' d' where e: "resolve_conflicts_among 5 (\<lambda>a b. None) ?ls ([], empty_db) = (r, t', d')"
    by (metis prod_cases3)
  with resolve_conflicts_fail_closed [where now = 5 and judge = "\<lambda>a b. None" and ls = ?ls and table = "[]" and d = empty_db]
  obtain out where "r = filter (\<lambda>l. ls_id l \<notin> out) ?ls" "out = {}" by auto
  with e show ?thesis by simp
qed

end
