(* ===== verification/Planner.thy ===== *)
theory Planner
  imports CycleCheck TaskGraph Lessons
begin

text \<open>
  \<open>app/mainai_execution/planner.py\<close>: goals, the validated and cycle-checked persist step
  \<open>create_plan\<close>, and the parse of a model's proposed plan. The reason of a
  \<open>PlanValidationError\<close> is a short tag instead of the message.
\<close>

section \<open>Goals\<close>

definition goal_checks :: "mainai_goal \<Rightarrow> bool" where
  "goal_checks g \<longleftrightarrow>
     0 \<le> g_current_plan_version g \<and>
     (g_completed_at g = None \<longleftrightarrow> g_status g \<notin> terminal_goal_statuses)"

definition create_goal ::
  "time \<Rightarrow> uuid \<Rightarrow> uuid \<Rightarrow> string \<Rightarrow> string \<Rightarrow> string \<Rightarrow> risk_level \<Rightarrow> string \<Rightarrow> db \<Rightarrow>
   error + (db \<times> mainai_goal)" where
  "create_goal now fresh owner title instruction created_by risk policy d =
     (let g = \<lparr>g_id = fresh, g_owner = owner, g_title = title,
               g_original_instruction = instruction, g_status = GPending, g_created_at = now,
               g_started_at = None, g_completed_at = None, g_current_plan_version = 0,
               g_risk = risk, g_approval_policy = policy, g_final_outcome = None,
               g_created_by = created_by\<rparr>
      in if fresh \<in> g_id ` set (goals d) then Inl (UniqueViolation ''mainai_goals_pkey'')
         else Inr (d\<lparr>goals := goals d @ [g]\<rparr>, g))"

definition get_goal :: "uuid \<Rightarrow> db \<Rightarrow> error + mainai_goal" where
  "get_goal gid d = from_option (GoalNotFound gid) (find_row (\<lambda>g. g_id g = gid) (goals d))"

section \<open>Validation of a proposed plan\<close>

record planned_task =
  ps_description :: string
  ps_type :: string
  ps_depends_on :: "int list"
  ps_risk :: risk_level
  ps_approval_required :: bool
  ps_verification_plan :: "json list"
  ps_priority :: int
  ps_max_attempts :: int

definition known_task_types :: "string set" where
  "known_task_types = {''read_only_audit'', ''repo_edit'', ''run_tests'', ''open_pr''}"

fun check_plan_steps :: "json list \<Rightarrow> error + unit" where
  "check_plan_steps [] = Inr ()"
| "check_plan_steps (step # steps) =
     (case step of
        JObj s \<Rightarrow>
          (case map_of s ''kind'' of
             None \<Rightarrow> Inl (PlanValidation ''verification_plan'')
           | Some k \<Rightarrow>
               (if k = JStr ''targeted_tests''
                then case validate_targeted_tests_target (jget s ''target'') of
                       Inl e \<Rightarrow> Inl (PlanValidation ''target'')
                     | Inr t \<Rightarrow> check_plan_steps steps
                else check_plan_steps steps))
      | _ \<Rightarrow> Inl (PlanValidation ''verification_plan''))"

definition check_spec :: "nat \<Rightarrow> planned_task \<Rightarrow> error + unit" where
  "check_spec n sp =
     (if ps_type sp \<notin> known_task_types then Inl (PlanValidation ''task_type'')
      else if \<not> list_all (\<lambda>k. 0 \<le> k \<and> k < int n) (ps_depends_on sp)
        then Inl (PlanValidation ''depends_on'')
      else check_plan_steps (ps_verification_plan sp))"

fun check_specs :: "nat \<Rightarrow> planned_task list \<Rightarrow> error + unit" where
  "check_specs n [] = Inr ()"
| "check_specs n (sp # sps) = sbind (check_spec n sp) (\<lambda>_. check_specs n sps)"

definition validate_plan :: "planned_task list \<Rightarrow> error + unit" where
  "validate_plan sps =
     (if sps = [] then Inl (PlanValidation ''empty'') else check_specs (length sps) sps)"

definition plan_edges :: "planned_task list \<Rightarrow> (nat \<times> nat) list" where
  "plan_edges sps =
     concat (map (\<lambda>(i, sp). map (\<lambda>k. (i, nat k)) (ps_depends_on sp)) (enumerate 0 sps))"

section \<open>Writing a plan\<close>

definition stale_task :: "uuid \<Rightarrow> mainai_task \<Rightarrow> bool" where
  "stale_task pid t \<longleftrightarrow> t_plan t = pid \<and> t_status t \<notin> terminal_task_statuses"

definition supersede_plan :: "time \<Rightarrow> int \<Rightarrow> mainai_plan \<Rightarrow> db \<Rightarrow> db" where
  "supersede_plan now v p d =
     d\<lparr>plans := update_rows (\<lambda>q. pl_id q = pl_id p) (\<lambda>q. q\<lparr>pl_status := PlanSuperseded\<rparr>) (plans d),
       tasks := update_rows (stale_task (pl_id p))
         (\<lambda>t. t\<lparr>t_status := TCancelled, t_completed_at := Some now,
                t_blocker_reason := Some (''Superseded by plan version '' @ int_str v @ ''.'')\<rparr>)
         (tasks d),
       task_events := task_events d @
         map (\<lambda>t. task_event_row now t TeCancelled
                [(''reason'', JStr ''superseded_by_replan''), (''new_plan_version'', JInt v)])
           (filter (stale_task (pl_id p)) (tasks d))\<rparr>"

definition previous_active :: "uuid \<Rightarrow> db \<Rightarrow> error + mainai_plan option" where
  "previous_active gid d =
     (case filter (\<lambda>p. pl_goal p = gid \<and> pl_status p = PlanActive) (plans d) of
        [] \<Rightarrow> Inr None
      | [p] \<Rightarrow> Inr (Some p)
      | _ \<Rightarrow> Inl MultipleRows)"

definition insert_plan :: "mainai_plan \<Rightarrow> db \<Rightarrow> error + db" where
  "insert_plan p d =
     (if pl_id p \<in> pl_id ` set (plans d) then Inl (UniqueViolation ''mainai_plans_pkey'')
      else if list_ex (\<lambda>q. pl_goal q = pl_goal p \<and> pl_version q = pl_version p) (plans d)
        then Inl (UniqueViolation ''uq_mainai_plans_goal_version'')
      else if pl_version p < 1 then Inl CheckViolation
      else Inr (d\<lparr>plans := plans d @ [p]\<rparr>))"

definition planned_row ::
  "time \<Rightarrow> lesson list \<Rightarrow> mainai_goal \<Rightarrow> uuid \<Rightarrow> uuid \<Rightarrow> planned_task \<Rightarrow> mainai_task" where
  "planned_row now lessons g pid tid sp =
     \<lparr>t_id = tid, t_goal = g_id g, t_plan = pid, t_owner = g_owner g,
      t_description = ps_description sp, t_type = ps_type sp, t_status = TPending,
      t_priority = ps_priority sp, t_risk = ps_risk sp,
      t_approval_required = ps_approval_required sp,
      t_verification_plan =
        fst (apply_lessons_to_verification_plan lessons (ps_type sp) (ps_verification_plan sp)),
      t_attempts = 0, t_max_attempts = ps_max_attempts sp, t_blocker_reason = None,
      t_job = None, t_created_at = now, t_started_at = None, t_completed_at = None,
      t_next_retry_at = None\<rparr>"

definition created_event :: "time \<Rightarrow> lesson list \<Rightarrow> int \<Rightarrow> mainai_task \<Rightarrow> planned_task \<Rightarrow> task_event" where
  "created_event now lessons v t sp =
     (let ids = snd (apply_lessons_to_verification_plan lessons (ps_type sp) (ps_verification_plan sp))
      in task_event_row now t TeCreated
           ((''plan_version'', JInt v) #
            (if ids = [] then []
             else [(''lessons_applied'', JArr (map (\<lambda>i. JStr (uuid_str i)) ids))])))"

definition insert_tasks :: "mainai_task list \<Rightarrow> db \<Rightarrow> error + db" where
  "insert_tasks ts d =
     (if \<not> distinct (map t_id (tasks d @ ts)) then Inl (UniqueViolation ''mainai_tasks_pkey'')
      else if \<not> list_all task_checks ts then Inl CheckViolation
      else Inr (d\<lparr>tasks := tasks d @ ts\<rparr>))"

definition insert_dependencies :: "task_dependency list \<Rightarrow> db \<Rightarrow> error + db" where
  "insert_dependencies ps d =
     (if \<not> distinct (map (\<lambda>p. (dep_task p, dep_on p)) (task_deps d @ ps))
      then Inl (UniqueViolation ''mainai_task_dependencies_pkey'')
      else Inr (d\<lparr>task_deps := task_deps d @ ps\<rparr>))"

definition planned_dependencies :: "(nat \<Rightarrow> uuid) \<Rightarrow> uuid \<Rightarrow> planned_task list \<Rightarrow> task_dependency list" where
  "planned_dependencies fresh owner sps =
     map (\<lambda>(i, k). \<lparr>dep_task = fresh i, dep_on = fresh k, dep_owner = owner\<rparr>) (plan_edges sps)"

definition start_goal :: "time \<Rightarrow> uuid \<Rightarrow> int \<Rightarrow> db \<Rightarrow> error + db" where
  "start_goal now gid v d =
     (let f = (\<lambda>g. g\<lparr>g_current_plan_version := v, g_status := GRunning,
                     g_started_at := (case g_started_at g of None \<Rightarrow> Some now | Some s \<Rightarrow> Some s)\<rparr>)
      in if list_all (\<lambda>g. g_id g = gid \<longrightarrow> goal_checks (f g)) (goals d)
         then Inr (d\<lparr>goals := update_rows (\<lambda>g. g_id g = gid) f (goals d)\<rparr>)
         else Inl CheckViolation)"

text \<open>
  The writes of \<open>create_plan\<close>; \<open>pid\<close> is the plan's new id and \<open>fresh i\<close> the id of the task at
  position \<open>i\<close>.
\<close>

definition persist_plan ::
  "time \<Rightarrow> uuid \<Rightarrow> (nat \<Rightarrow> uuid) \<Rightarrow> lesson list \<Rightarrow> mainai_goal \<Rightarrow> string \<Rightarrow> planned_task list \<Rightarrow>
   string \<Rightarrow> db \<Rightarrow> error + (db \<times> mainai_plan)" where
  "persist_plan now pid fresh lessons g rationale sps created_by d =
     sbind (previous_active (g_id g) d) (\<lambda>prev.
       let v = g_current_plan_version g + 1;
           d1 = (case prev of None \<Rightarrow> d | Some p \<Rightarrow> supersede_plan now v p d);
           p = \<lparr>pl_id = pid, pl_goal = g_id g, pl_owner = g_owner g, pl_version = v,
                pl_status = PlanActive, pl_rationale = rationale, pl_created_by = created_by\<rparr>;
           rows = map (\<lambda>(i, sp). planned_row now lessons g pid (fresh i) sp) (enumerate 0 sps)
       in sbind (insert_plan p d1) (\<lambda>d2.
          sbind (insert_tasks rows d2) (\<lambda>d3.
          sbind (insert_dependencies (planned_dependencies fresh (g_owner g) sps) d3) (\<lambda>d4.
          sbind (start_goal now (g_id g) v
                  (d4\<lparr>task_events := task_events d4 @
                       map (\<lambda>(t, sp). created_event now lessons v t sp) (zip rows sps)\<rparr>)) (\<lambda>d5.
          Inr (after_recompute now (g_id g) d5, p))))))"

definition create_plan ::
  "time \<Rightarrow> uuid \<Rightarrow> (nat \<Rightarrow> uuid) \<Rightarrow> lesson list \<Rightarrow> uuid \<Rightarrow> string \<Rightarrow> planned_task list \<Rightarrow>
   string \<Rightarrow> db \<Rightarrow> error + (db \<times> mainai_plan)" where
  "create_plan now pid fresh lessons gid rationale sps created_by d =
     sbind (validate_plan sps) (\<lambda>_.
       case detect_cycle (length sps) (plan_edges sps) of
         Inl e \<Rightarrow> Inl (PlanValidation e)
       | Inr (Some c) \<Rightarrow> Inl (PlanCycle c)
       | Inr None \<Rightarrow>
           sbind (get_goal gid d) (\<lambda>g.
             persist_plan now pid fresh lessons g rationale sps created_by d))"

section \<open>What validation guarantees\<close>

lemma plan_edges_iff:
  "(i, k) \<in> set (plan_edges sps) \<longleftrightarrow>
     i < length sps \<and> (\<exists>z\<in>set (ps_depends_on (sps ! i)). k = nat z)"
  by (force simp: plan_edges_def in_set_enumerate_eq)

lemma check_specs_Inr:
  "check_specs n sps = Inr () \<longleftrightarrow> (\<forall>sp\<in>set sps. check_spec n sp = Inr ())"
  by (induction sps) (auto simp: err_simps)

lemma check_spec_Inr:
  "check_spec n sp = Inr () \<longleftrightarrow>
     ps_type sp \<in> known_task_types \<and> (\<forall>k\<in>set (ps_depends_on sp). 0 \<le> k \<and> k < int n) \<and>
     check_plan_steps (ps_verification_plan sp) = Inr ()"
  by (auto simp: check_spec_def list_all_iff)

lemma check_plan_steps_target:
  assumes "check_plan_steps plan = Inr ()" and "JObj s \<in> set plan"
    and "map_of s ''kind'' = Some (JStr ''targeted_tests'')"
  shows "\<exists>t. validate_targeted_tests_target (jget s ''target'') = Inr t"
  using assms
  by (induction plan) (auto split: json.splits option.splits if_splits sum.splits)

lemma validate_plan_edges:
  assumes "validate_plan sps = Inr ()"
  shows "\<forall>(u, v)\<in>set (plan_edges sps). u < length sps \<and> v < length sps"
proof (clarify)
  fix u v assume e: "(u, v) \<in> set (plan_edges sps)"
  then obtain z where u: "u < length sps" and z: "z \<in> set (ps_depends_on (sps ! u))" "v = nat z"
    by (auto simp: plan_edges_iff)
  from assms have "\<forall>sp\<in>set sps. check_spec (length sps) sp = Inr ()"
    by (simp add: validate_plan_def check_specs_Inr split: if_splits)
  with u have "check_spec (length sps) (sps ! u) = Inr ()" by simp
  with z(1) have "0 \<le> z \<and> z < int (length sps)" by (simp add: check_spec_Inr)
  with z(2) u show "u < length sps \<and> v < length sps" by auto
qed

lemma create_plan_InrE:
  assumes "create_plan now pid fresh lessons gid rationale sps who d = Inr (d', p)"
  obtains g where "validate_plan sps = Inr ()" and "acyclic (set (plan_edges sps))"
    and "g \<in> set (goals d)" and "g_id g = gid"
    and "persist_plan now pid fresh lessons g rationale sps who d = Inr (d', p)"
proof -
  from assms obtain g where v: "validate_plan sps = Inr ()"
    and c: "detect_cycle (length sps) (plan_edges sps) = Inr None"
    and g: "get_goal gid d = Inr g"
    and p: "persist_plan now pid fresh lessons g rationale sps who d = Inr (d', p)"
    unfolding create_plan_def by (auto elim!: sbind_InrE split: sum.splits option.splits)
  from detect_cycle_correct [OF validate_plan_edges [OF v]] c have "acyclic (set (plan_edges sps))" by simp
  with v g p show thesis by (intro that) (auto simp: get_goal_def dest: find_row_SomeD)
qed

section \<open>What the writes do\<close>

definition after_supersede :: "time \<Rightarrow> int \<Rightarrow> mainai_plan option \<Rightarrow> db \<Rightarrow> db" where
  "after_supersede now v prev d = (case prev of None \<Rightarrow> d | Some p \<Rightarrow> supersede_plan now v p d)"

definition planned_rows ::
  "time \<Rightarrow> lesson list \<Rightarrow> mainai_goal \<Rightarrow> uuid \<Rightarrow> (nat \<Rightarrow> uuid) \<Rightarrow> planned_task list \<Rightarrow> mainai_task list" where
  "planned_rows now lessons g pid fresh sps =
     map (\<lambda>(i, sp). planned_row now lessons g pid (fresh i) sp) (enumerate 0 sps)"

lemma start_goal_row:
  assumes "start_goal now gid v d = Inr d'" and "h \<in> set (goals d')" and "g_id h = gid"
  shows "goal_checks h \<and> g_status h = GRunning \<and> g_current_plan_version h = v"
proof -
  let ?f = "\<lambda>g. g\<lparr>g_current_plan_version := v, g_status := GRunning,
              g_started_at := (case g_started_at g of None \<Rightarrow> Some now | Some s \<Rightarrow> Some s)\<rparr>"
  from assms(1) have ok: "\<forall>g\<in>set (goals d). g_id g = gid \<longrightarrow> goal_checks (?f g)"
    and d': "goals d' = update_rows (\<lambda>g. g_id g = gid) ?f (goals d)"
    by (auto simp: start_goal_def Let_def list_all_iff split: if_splits)
  from assms(2) obtain r where r: "r \<in> set (goals d)" "h = (if g_id r = gid then ?f r else r)"
    unfolding d' in_update_rows_iff by blast
  with assms(3) have "g_id r = gid" by (cases "g_id r = gid") simp_all
  with r have "h = ?f r" by simp
  moreover have "goal_checks (?f r)" using ok r(1) \<open>g_id r = gid\<close> by blast
  ultimately show ?thesis by simp
qed

lemma persist_plan_InrE:
  assumes "persist_plan now pid fresh lessons g rationale sps who d = Inr (d', p)"
  obtains prev d5 where "previous_active (g_id g) d = Inr prev"
    and "p = \<lparr>pl_id = pid, pl_goal = g_id g, pl_owner = g_owner g,
              pl_version = g_current_plan_version g + 1, pl_status = PlanActive,
              pl_rationale = rationale, pl_created_by = who\<rparr>"
    and "pid \<notin> pl_id ` set (plans d)"
    and "plans d5 = plans (after_supersede now (pl_version p) prev d) @ [p]"
    and "tasks d5 = tasks (after_supersede now (pl_version p) prev d) @ planned_rows now lessons g pid fresh sps"
    and "distinct (map t_id (tasks d5))"
    and "list_all task_checks (planned_rows now lessons g pid fresh sps)"
    and "task_deps d5 = task_deps d @ planned_dependencies fresh (g_owner g) sps"
    and "distinct (map (\<lambda>p. (dep_task p, dep_on p)) (task_deps d5))"
    and "jobs d5 = jobs d" and "map g_id (goals d5) = map g_id (goals d)"
    and "\<forall>h\<in>set (goals d5). g_id h = g_id g \<longrightarrow>
           goal_checks h \<and> g_status h = GRunning \<and> g_current_plan_version h = pl_version p"
    and "d' = after_recompute now (g_id g) d5"
proof -
  let ?v = "g_current_plan_version g + 1"
  let ?p = "\<lparr>pl_id = pid, pl_goal = g_id g, pl_owner = g_owner g, pl_version = ?v,
              pl_status = PlanActive, pl_rationale = rationale, pl_created_by = who\<rparr>"
  let ?rows = "planned_rows now lessons g pid fresh sps"
  have frame: "task_deps (after_supersede now ?v prev d) = task_deps d"
    "jobs (after_supersede now ?v prev d) = jobs d" "goals (after_supersede now ?v prev d) = goals d"
    "map pl_id (plans (after_supersede now ?v prev d)) = map pl_id (plans d)" for prev
    by (auto simp: after_supersede_def supersede_plan_def map_key_update_rows split: option.split)
  from assms obtain prev d2 d3 d4 d5 where prev: "previous_active (g_id g) d = Inr prev"
    and d2: "insert_plan ?p (after_supersede now ?v prev d) = Inr d2"
    and d3: "insert_tasks ?rows d2 = Inr d3"
    and d4: "insert_dependencies (planned_dependencies fresh (g_owner g) sps) d3 = Inr d4"
    and d5: "start_goal now (g_id g) ?v (d4\<lparr>task_events := task_events d4 @
               map (\<lambda>(t, sp). created_event now lessons ?v t sp) (zip ?rows sps)\<rparr>) = Inr d5"
    and d': "d' = after_recompute now (g_id g) d5" "p = ?p"
    unfolding persist_plan_def Let_def after_supersede_def [symmetric] planned_rows_def [symmetric]
    by (auto elim!: sbind_InrE)
  have pid: "pid \<notin> pl_id ` set (plans d)"
  proof -
    from d2 have "pid \<notin> pl_id ` set (plans (after_supersede now ?v prev d))"
      by (auto simp: insert_plan_def split: if_splits)
    then show ?thesis using frame(4) [of prev] by (metis list.set_map)
  qed
  show thesis
  proof (rule that [of prev d5])
    show "plans d5 = plans (after_supersede now (pl_version p) prev d) @ [p]"
      and "tasks d5 = tasks (after_supersede now (pl_version p) prev d) @ ?rows"
      and "task_deps d5 = task_deps d @ planned_dependencies fresh (g_owner g) sps"
      and "jobs d5 = jobs d" and "map g_id (goals d5) = map g_id (goals d)"
      using d2 d3 d4 d5 d'
      by (auto simp: insert_plan_def insert_tasks_def insert_dependencies_def start_goal_def Let_def
          frame map_key_update_rows split: if_splits)
    show "distinct (map t_id (tasks d5))" and "list_all task_checks ?rows"
      and "distinct (map (\<lambda>p. (dep_task p, dep_on p)) (task_deps d5))"
      using d3 d4 d5
      by (auto simp: insert_tasks_def insert_dependencies_def start_goal_def Let_def split: if_splits)
    show "\<forall>h\<in>set (goals d5). g_id h = g_id g \<longrightarrow>
        goal_checks h \<and> g_status h = GRunning \<and> g_current_plan_version h = pl_version p"
      using start_goal_row [OF d5] d'(2) by simp
  qed (use prev d' pid in simp_all)
qed

section \<open>A written plan is a graph that can be worked off\<close>

text \<open>The foreign keys of \<open>mainai_task_dependencies\<close>.\<close>

definition deps_closed :: "db \<Rightarrow> bool" where
  "deps_closed d \<longleftrightarrow>
     (\<forall>p\<in>set (task_deps d). dep_task p \<in> t_id ` set (tasks d) \<and> dep_on p \<in> t_id ` set (tasks d))"

lemma list_key_image: "map f xs = map f ys \<Longrightarrow> f ` set xs = f ` set ys"
  by (metis list.set_map)

lemma planned_rows_ids: "map t_id (planned_rows now lessons g pid fresh sps) = map fresh [0..<length sps]"
  by (rule nth_equalityI) (simp_all add: planned_rows_def nth_enumerate_eq planned_row_def)

lemma planned_rows_nth:
  "i < length sps \<Longrightarrow> planned_rows now lessons g pid fresh sps ! i = planned_row now lessons g pid (fresh i) (sps ! i)"
  by (simp add: planned_rows_def nth_enumerate_eq)

lemma in_planned_rows_iff:
  "t \<in> set (planned_rows now lessons g pid fresh sps) \<longleftrightarrow>
     (\<exists>i<length sps. t = planned_row now lessons g pid (fresh i) (sps ! i))"
  by (auto simp: in_set_conv_nth planned_rows_nth) (auto simp: planned_rows_def nth_enumerate_eq)

lemma supersede_ids: "map t_id (tasks (after_supersede now v prev d)) = map t_id (tasks d)"
  by (simp add: after_supersede_def supersede_plan_def map_key_update_rows split: option.split)

lemma supersede_ok: "tasks_ok d \<Longrightarrow> tasks_ok (after_supersede now v prev d)"
  by (cases prev)
    (auto simp: tasks_ok_def after_supersede_def supersede_plan_def unique_key_update_rows in_update_rows_iff
      task_checks_def terminal_task_statuses_def split: if_splits)

lemma wf_image_inj_on:
  assumes "wf r" and "inj_on f (Field r)"
  shows "wf ((\<lambda>(a, b). (f a, f b)) ` r)"
proof -
  have "wf (map_prod f f ` r)"
    using assms by (intro wf_map_prod_image_Dom_Ran) (auto simp: inj_on_def Field_def)
  moreover have "map_prod f f ` r = (\<lambda>(a, b). (f a, f b)) ` r" by (auto simp: map_prod_def)
  ultimately show ?thesis by simp
qed

lemma planned_depends:
  "depends_rel d5 = depends_rel d \<union> (\<lambda>(a, b). (fresh a, fresh b)) ` set (plan_edges sps)"
  if "task_deps d5 = task_deps d @ planned_dependencies fresh owner sps"
  using that by (force simp: depends_rel_def planned_dependencies_def)

lemma planned_acyclic:
  assumes "acyclic (depends_rel d)" and "deps_closed d" and "acyclic (set (plan_edges sps))"
    and edges: "\<forall>(u, v)\<in>set (plan_edges sps). u < length sps \<and> v < length sps"
    and ids: "distinct (map t_id (tasks d) @ map fresh [0..<length sps])"
    and deps: "task_deps d5 = task_deps d @ planned_dependencies fresh owner sps"
  shows "acyclic (depends_rel d5)"
proof -
  let ?new = "(\<lambda>(a, b). (fresh a, fresh b)) ` set (plan_edges sps)"
  have inj: "inj_on fresh {0..<length sps}" using ids by (simp add: distinct_map)
  have "Field (set (plan_edges sps)) \<subseteq> {0..<length sps}" using edges by (auto simp: Field_def)
  then have "inj_on fresh (Field (set (plan_edges sps)))" by (rule inj_on_subset [OF inj])
  with finite_acyclic_wf [OF _ assms(3)] have new: "wf ?new" by (simp add: wf_image_inj_on)
  have "finite (depends_rel d)" by (auto simp: depends_rel_def setcompr_eq_image)
  with assms(1) have old: "wf (depends_rel d)" by (simp add: finite_acyclic_wf)
  have "Domain (depends_rel d) \<subseteq> t_id ` set (tasks d)"
    using assms(2) by (auto simp: deps_closed_def depends_rel_def)
  moreover have "Range ?new \<subseteq> fresh ` {0..<length sps}" using edges by auto
  moreover have "t_id ` set (tasks d) \<inter> fresh ` {0..<length sps} = {}" using ids by auto
  ultimately have "Domain (depends_rel d) \<inter> Range ?new = {}" by blast
  then have "wf (depends_rel d \<union> ?new)" by (rule wf_Un [OF old new])
  then show ?thesis unfolding planned_depends [OF deps] by (rule wf_acyclic)
qed

lemma plan_edges_snoc:
  "plan_edges (sps @ [sp]) = plan_edges sps @ map (\<lambda>k. (length sps, nat k)) (ps_depends_on sp)"
  by (simp add: plan_edges_def enumerate_append_eq)

lemma plan_edges_at:
  "i < length sps \<Longrightarrow> filter (\<lambda>e. fst e = i) (plan_edges sps) = map (\<lambda>k. (i, nat k)) (ps_depends_on (sps ! i))"
proof (induction sps rule: rev_induct)
  case (snoc sp sps)
  have "filter (\<lambda>e. fst e = i) (plan_edges sps) = []" if "i = length sps"
    using that by (auto simp: filter_empty_conv plan_edges_iff)
  with snoc show ?case
    by (cases "i = length sps") (auto simp: plan_edges_snoc nth_append filter_map o_def)
qed simp

lemma planned_dependency_ids:
  assumes "deps_closed d" and edges: "\<forall>(u, v)\<in>set (plan_edges sps). u < length sps \<and> v < length sps"
    and ids: "distinct (map t_id (tasks d) @ map fresh [0..<length sps])"
    and deps: "task_deps d5 = task_deps d @ planned_dependencies fresh owner sps"
    and i: "i < length sps"
  shows "dependency_ids d5 (fresh i) = map (\<lambda>k. fresh (nat k)) (ps_depends_on (sps ! i))"
proof -
  have "fresh i \<in> fresh ` {0..<length sps}" using i by simp
  with ids have "fresh i \<notin> t_id ` set (tasks d)" by auto
  then have old: "filter (\<lambda>p. dep_task p = fresh i) (task_deps d) = []"
    using assms(1) unfolding deps_closed_def filter_empty_conv by metis
  have "fresh j = fresh i \<longleftrightarrow> j = i" if "(j, k) \<in> set (plan_edges sps)" for j k
    using ids i edges that by (auto simp: distinct_map inj_on_def)
  then have "filter (\<lambda>p. dep_task p = fresh i) (planned_dependencies fresh owner sps) =
      map (\<lambda>(j, k). \<lparr>dep_task = fresh j, dep_on = fresh k, dep_owner = owner\<rparr>)
        (filter (\<lambda>e. fst e = i) (plan_edges sps))"
    unfolding planned_dependencies_def filter_map
    by (intro arg_cong [of _ _ "map _"] filter_cong) auto
  then show ?thesis
    by (simp add: dependency_ids_def deps old plan_edges_at [OF i])
qed

text \<open>C10: whatever a model proposes, what is stored stays a task graph. A plan is written only if
  every dependency index is in range and the dependencies contain no cycle; then the tables keep
  their keys and checks, every stored dependency is between stored tasks, and the whole dependency
  relation, old plans included, stays acyclic. The plan's own rows are the proposed tasks in
  order, and their dependencies are the proposed ones.\<close>

theorem create_plan_keeps_dag:
  assumes "create_plan now pid fresh lessons gid rationale sps who d = Inr (d', p)"
    and "tasks_ok d" and "deps_closed d" and "acyclic (depends_rel d)"
  shows "tasks_ok d' \<and> deps_closed d' \<and> acyclic (depends_rel d') \<and>
    sps \<noteq> [] \<and> (\<forall>sp\<in>set sps. check_spec (length sps) sp = Inr ()) \<and>
    (\<forall>i<length sps. \<exists>t\<in>set (tasks d'). t_id t = fresh i \<and> t_plan t = pl_id p \<and>
       t_type t = ps_type (sps ! i) \<and> t_risk t = ps_risk (sps ! i) \<and>
       t_approval_required t = ps_approval_required (sps ! i) \<and>
       dependency_ids d' (fresh i) = map (\<lambda>k. fresh (nat k)) (ps_depends_on (sps ! i)))"
proof -
  from assms(1) obtain g where v: "validate_plan sps = Inr ()" and ac: "acyclic (set (plan_edges sps))"
    and pp: "persist_plan now pid fresh lessons g rationale sps who d = Inr (d', p)"
    by (rule create_plan_InrE)
  from pp obtain prev d5 where p: "pl_id p = pid"
    and t5: "tasks d5 = tasks (after_supersede now (pl_version p) prev d) @ planned_rows now lessons g pid fresh sps"
    and u5: "distinct (map t_id (tasks d5))" and c5: "list_all task_checks (planned_rows now lessons g pid fresh sps)"
    and deps: "task_deps d5 = task_deps d @ planned_dependencies fresh (g_owner g) sps"
    and du: "distinct (map (\<lambda>p. (dep_task p, dep_on p)) (task_deps d5))"
    and d': "d' = after_recompute now (g_id g) d5"
    by (rule persist_plan_InrE) simp
  have ids: "distinct (map t_id (tasks d) @ map fresh [0..<length sps])"
    using u5 unfolding t5 map_append planned_rows_ids supersede_ids .
  have ok5: "tasks_ok d5"
    using supersede_ok [OF assms(2), of now "pl_version p" prev] u5 du c5
    by (auto simp: tasks_ok_def unique_key_def t5 list_all_iff)
  have edges: "\<forall>(u, v)\<in>set (plan_edges sps). u < length sps \<and> v < length sps"
    by (rule validate_plan_edges [OF v])
  have ids5: "t_id ` set (tasks d5) = t_id ` set (tasks d) \<union> fresh ` {0..<length sps}"
    using arg_cong [OF planned_rows_ids [of now lessons g pid fresh sps], of set]
      arg_cong [OF supersede_ids [of now "pl_version p" prev d], of set]
    by (simp add: t5 image_Un)
  have closed5: "deps_closed d5"
    using assms(3) edges by (fastforce simp: deps_closed_def deps ids5 planned_dependencies_def)
  have "t_id ` set (tasks d') = t_id ` set (tasks d5)"
    by (rule list_key_image) (simp add: d' recompute_tasks map_key_update_rows)
  with closed5 have "deps_closed d'" by (simp add: deps_closed_def d')
  moreover have "tasks_ok d'" unfolding d' by (rule recompute_ok [OF ok5])
  moreover have "acyclic (depends_rel d')"
    using planned_acyclic [OF assms(4,3) ac edges ids deps] by (simp add: d' depends_rel_def)
  moreover have "sps \<noteq> []" and "\<forall>sp\<in>set sps. check_spec (length sps) sp = Inr ()"
    using v by (auto simp: validate_plan_def check_specs_Inr split: if_splits)
  moreover have "\<exists>t\<in>set (tasks d'). t_id t = fresh i \<and> t_plan t = pl_id p \<and>
       t_type t = ps_type (sps ! i) \<and> t_risk t = ps_risk (sps ! i) \<and>
       t_approval_required t = ps_approval_required (sps ! i) \<and>
       dependency_ids d' (fresh i) = map (\<lambda>k. fresh (nat k)) (ps_depends_on (sps ! i))" if i: "i < length sps" for i
  proof -
    let ?row = "planned_row now lessons g pid (fresh i) (sps ! i)"
    have "?row \<in> set (tasks d5)" using i by (auto simp: t5 in_planned_rows_iff)
    then have "(if pending_in (g_id g) ?row then apply_readiness (readiness_of d5 ?row) ?row else ?row) \<in> set (tasks d')"
      unfolding d' recompute_tasks in_update_rows_iff by blast
    moreover have "dependency_ids d' (fresh i) = map (\<lambda>k. fresh (nat k)) (ps_depends_on (sps ! i))"
      using planned_dependency_ids [OF assms(3) edges ids deps i] by (simp add: d')
    ultimately show ?thesis
      by (intro bexI) (auto simp: planned_row_def apply_readiness_def p split: readiness.split)
  qed
  ultimately show ?thesis by blast
qed

lemma previous_active_Inr:
  assumes "previous_active gid d = Inr prev"
  shows "filter (\<lambda>p. pl_goal p = gid \<and> pl_status p = PlanActive) (plans d) =
    (case prev of None \<Rightarrow> [] | Some p \<Rightarrow> [p])"
  using assms by (auto simp: previous_active_def split: list.splits)

lemma supersede_plans:
  assumes "unique_key pl_id (plans d)" and "previous_active gid d = Inr prev"
  shows "filter (\<lambda>p. pl_goal p = gid \<and> pl_status p = PlanActive) (plans (after_supersede now v prev d)) = []"
proof (cases prev)
  case None
  then show ?thesis using previous_active_Inr [OF assms(2)] by (simp add: after_supersede_def)
next
  case (Some p)
  have one: "q = p" if "q \<in> set (plans d)" "pl_goal q = gid" "pl_status q = PlanActive" for q
  proof -
    from that have "q \<in> set (filter (\<lambda>p. pl_goal p = gid \<and> pl_status p = PlanActive) (plans d))" by simp
    then show ?thesis unfolding previous_active_Inr [OF assms(2)] by (simp add: Some)
  qed
  have "\<not> (pl_goal q = gid \<and> pl_status q = PlanActive)" if q: "q \<in> set (plans (supersede_plan now v p d))" for q
  proof -
    from q obtain r where r: "r \<in> set (plans d)"
      "q = (if pl_id r = pl_id p then r\<lparr>pl_status := PlanSuperseded\<rparr> else r)"
      by (auto simp: supersede_plan_def in_update_rows_iff)
    show ?thesis
    proof (cases "pl_id r = pl_id p")
      case True
      with r(2) show ?thesis by simp
    next
      case False
      with r one [of r] show ?thesis by auto
    qed
  qed
  then show ?thesis by (simp add: Some after_supersede_def filter_empty_conv)
qed

lemma supersede_task:
  assumes "previous_active gid d = Inr prev" and "t \<in> set (tasks d)" and "q \<in> set (plans d)"
    and "pl_goal q = gid" and "pl_status q = PlanActive" and "t_plan t = pl_id q"
  shows "\<exists>t'\<in>set (tasks (after_supersede now v prev d)). t_id t' = t_id t \<and>
    (if t_status t \<in> terminal_task_statuses then t' = t
     else t_status t' = TCancelled \<and> t_completed_at t' = Some now)"
proof -
  from assms(3-5) have "q \<in> set (filter (\<lambda>p. pl_goal p = gid \<and> pl_status p = PlanActive) (plans d))" by simp
  then have prev: "prev = Some q"
    unfolding previous_active_Inr [OF assms(1)] by (auto split: option.splits)
  let ?f = "\<lambda>t. t\<lparr>t_status := TCancelled, t_completed_at := Some now,
                t_blocker_reason := Some (''Superseded by plan version '' @ int_str v @ ''.'')\<rparr>"
  have "(if stale_task (pl_id q) t then ?f t else t) \<in> set (tasks (after_supersede now v prev d))"
    using assms(2) by (auto simp: prev after_supersede_def supersede_plan_def in_update_rows_iff)
  then show ?thesis using assms(6) by (rule_tac bexI) (auto simp: stale_task_def)
qed

lemma recompute_keeps:
  assumes "t \<in> set (tasks d)" and "t_status t \<noteq> TPending"
  shows "t \<in> set (tasks (after_recompute now gid d))"
  using assms unfolding recompute_tasks in_update_rows_iff pending_in_def by (intro bexI [of _ t]) simp_all

lemma recompute_plans [simp]: "plans (after_recompute now gid d) = plans d"
  by (simp add: recompute_task_readiness_def Let_def)

text \<open>A replan replaces. The new plan is the goal's only active plan, its version is one higher,
  the goal is running under that version, and every task of the replaced plan has ended: a
  finished one is untouched, any other is cancelled. No job is created, stopped or changed by it.\<close>

theorem replan_supersedes:
  assumes "create_plan now pid fresh lessons gid rationale sps who d = Inr (d', p)"
    and "unique_key pl_id (plans d)"
  shows "filter (\<lambda>q. pl_goal q = gid \<and> pl_status q = PlanActive) (plans d') = [p] \<and>
    (\<exists>g\<in>set (goals d). g_id g = gid \<and> pl_version p = g_current_plan_version g + 1) \<and>
    (\<forall>g\<in>set (goals d'). g_id g = gid \<longrightarrow> g_status g = GRunning \<and>
       g_current_plan_version g = pl_version p \<and> g_completed_at g = None) \<and>
    (\<forall>t\<in>set (tasks d). \<forall>q\<in>set (plans d).
       pl_goal q = gid \<and> pl_status q = PlanActive \<and> t_plan t = pl_id q \<longrightarrow>
       (\<exists>t'\<in>set (tasks d'). t_id t' = t_id t \<and>
          (if t_status t \<in> terminal_task_statuses then t' = t
           else t_status t' = TCancelled \<and> t_completed_at t' = Some now))) \<and>
    jobs d' = jobs d"
proof -
  from assms(1) obtain g where g: "g \<in> set (goals d)" "g_id g = gid"
    and pp: "persist_plan now pid fresh lessons g rationale sps who d = Inr (d', p)"
    by (rule create_plan_InrE)
  from pp obtain prev d5 where prev: "previous_active gid d = Inr prev"
    and p: "pl_goal p = gid" "pl_status p = PlanActive" "pl_version p = g_current_plan_version g + 1"
    and plans5: "plans d5 = plans (after_supersede now (pl_version p) prev d) @ [p]"
    and t5: "tasks d5 = tasks (after_supersede now (pl_version p) prev d) @ planned_rows now lessons g pid fresh sps"
    and jobs5: "jobs d5 = jobs d"
    and g5: "\<forall>h\<in>set (goals d5). g_id h = gid \<longrightarrow>
         goal_checks h \<and> g_status h = GRunning \<and> g_current_plan_version h = pl_version p"
    and d': "d' = after_recompute now gid d5"
    by (rule persist_plan_InrE) (simp add: g(2))
  have tasks': "\<exists>t'\<in>set (tasks d'). t_id t' = t_id t \<and>
      (if t_status t \<in> terminal_task_statuses then t' = t
       else t_status t' = TCancelled \<and> t_completed_at t' = Some now)"
    if "t \<in> set (tasks d)" "q \<in> set (plans d)" "pl_goal q = gid" "pl_status q = PlanActive"
      "t_plan t = pl_id q" for t q
  proof -
    from supersede_task [OF prev that, of now "pl_version p"] obtain t' where
      t': "t' \<in> set (tasks d5)" "t_id t' = t_id t"
      "if t_status t \<in> terminal_task_statuses then t' = t
       else t_status t' = TCancelled \<and> t_completed_at t' = Some now" by (auto simp: t5)
    moreover from t'(3) have "t_status t' \<noteq> TPending"
      by (auto simp: terminal_task_statuses_def split: if_splits)
    ultimately show ?thesis using recompute_keeps [of t' d5 now gid] unfolding d' by blast
  qed
  have "g_completed_at h = None" if "goal_checks h" "g_status h = GRunning" for h
    using that by (simp add: goal_checks_def terminal_goal_statuses_def)
  with g5 have goals': "\<forall>h\<in>set (goals d'). g_id h = gid \<longrightarrow> g_status h = GRunning \<and>
       g_current_plan_version h = pl_version p \<and> g_completed_at h = None"
    by (simp add: d')
  show ?thesis
    using supersede_plans [OF assms(2) prev, of now "pl_version p"] p g goals' tasks' jobs5
    by (intro conjI) (auto simp: d' plans5)
qed

lemma acyclic_has_leaf:
  assumes "acyclic (set es)" and "\<forall>(u, v)\<in>set es. u < n \<and> v < n" and "0 < (n :: nat)"
  shows "\<exists>i<n. \<forall>k. (i, k) \<notin> set es"
proof -
  have "wf ((set es)\<inverse>)" by (rule finite_acyclic_wf_converse [OF _ assms(1)]) simp
  then obtain m where m: "m \<in> {..<n}" "\<And>k. (k, m) \<in> (set es)\<inverse> \<Longrightarrow> k \<notin> {..<n}"
    using assms(3) by (rule_tac Q = "{..<n}" in wfE_min) auto
  with assms(2) show ?thesis by (intro exI [of _ m]) auto
qed

text \<open>A plan never stalls at the start. Right after it is written, at least one of its tasks is
  ready to be dispatched.\<close>

theorem new_plan_has_ready_task:
  assumes "create_plan now pid fresh lessons gid rationale sps who d = Inr (d', p)" and "deps_closed d"
  shows "\<exists>t\<in>set (tasks d'). t_plan t = pl_id p \<and> t_goal t = gid \<and> t_status t = TReady"
proof -
  from assms(1) obtain g where v: "validate_plan sps = Inr ()" and ac: "acyclic (set (plan_edges sps))"
    and g: "g_id g = gid" and pp: "persist_plan now pid fresh lessons g rationale sps who d = Inr (d', p)"
    by (rule create_plan_InrE)
  from pp obtain prev d5 where p: "pl_id p = pid"
    and t5: "tasks d5 = tasks (after_supersede now (pl_version p) prev d) @ planned_rows now lessons g pid fresh sps"
    and u5: "distinct (map t_id (tasks d5))"
    and deps: "task_deps d5 = task_deps d @ planned_dependencies fresh (g_owner g) sps"
    and d': "d' = after_recompute now gid d5"
    by (rule persist_plan_InrE) (simp add: g)
  have ids: "distinct (map t_id (tasks d) @ map fresh [0..<length sps])"
    using u5 unfolding t5 map_append planned_rows_ids supersede_ids .
  have edges: "\<forall>(u, v)\<in>set (plan_edges sps). u < length sps \<and> v < length sps"
    by (rule validate_plan_edges [OF v])
  have "0 < length sps" using v by (auto simp: validate_plan_def)
  from acyclic_has_leaf [OF ac edges this] obtain i where i: "i < length sps" "\<forall>k. (i, k) \<notin> set (plan_edges sps)"
    by blast
  let ?row = "planned_row now lessons g pid (fresh i) (sps ! i)"
  have "ps_depends_on (sps ! i) = []"
    using i plan_edges_iff [of i _ sps] by (cases "ps_depends_on (sps ! i)") auto
  then have "dependency_ids d5 (fresh i) = []"
    using planned_dependency_ids [OF assms(2) edges ids deps i(1)] by simp
  then have "readiness_of d5 ?row = BecomesReady" by (simp add: readiness_of_def planned_row_def)
  moreover have "?row \<in> set (tasks d5)" using i by (auto simp: t5 in_planned_rows_iff)
  moreover have "pending_in gid ?row" by (simp add: pending_in_def planned_row_def g)
  ultimately have "apply_readiness BecomesReady ?row \<in> set (tasks d')"
    unfolding d' recompute_tasks in_update_rows_iff by (intro bexI [of _ ?row]) simp_all
  then show ?thesis
    by (rule rev_bexI) (simp add: apply_readiness_def planned_row_def p g)
qed

section \<open>A concrete plan\<close>

definition planner_goal :: mainai_goal where
  "planner_goal =
     \<lparr>g_id = 20, g_owner = 7, g_title = ''goal'', g_original_instruction = ''do it'',
      g_status = GPending, g_created_at = 1, g_started_at = None, g_completed_at = None,
      g_current_plan_version = 0, g_risk = RiskLow, g_approval_policy = ''standard_repo_work'',
      g_final_outcome = None, g_created_by = ''owner''\<rparr>"

definition planner_db :: db where
  "planner_db = empty_db\<lparr>goals := [planner_goal]\<rparr>"

definition sample_spec :: "int list \<Rightarrow> planned_task" where
  "sample_spec deps =
     \<lparr>ps_description = ''step'', ps_type = ''run_tests'', ps_depends_on = deps, ps_risk = RiskLow,
      ps_approval_required = False, ps_verification_plan = [], ps_priority = 0, ps_max_attempts = 3\<rparr>"

definition sample_ids :: "nat \<Rightarrow> uuid" where "sample_ids i = of_nat (i + 1)"

definition sample_specs :: "planned_task list" where
  "sample_specs = [sample_spec [], sample_spec [0]]"

lemma sample_specs_cycle: "detect_cycle (length sample_specs) (plan_edges sample_specs) = Inr None"
  by code_simp

lemma sample_plan_created:
  "\<exists>d' p. create_plan 9 30 sample_ids [] 20 ''why'' sample_specs ''ai'' planner_db = Inr (d', p) \<and>
     pl_id p = 30 \<and> plans d' = [p]"
  by (simp add: create_plan_def sample_specs_cycle)
    (simp add: sample_specs_def sample_spec_def validate_plan_def check_spec_def known_task_types_def
      get_goal_def planner_db_def planner_goal_def empty_db_def persist_plan_def Let_def previous_active_def
      insert_plan_def insert_tasks_def planned_row_def sample_ids_def apply_lessons_to_verification_plan_def
      lookup_lessons_def task_checks_def terminal_task_statuses_def insert_dependencies_def
      planned_dependencies_def plan_edges_def start_goal_def goal_checks_def terminal_goal_statuses_def
      conflicted_ids_def find_conflict_candidate_pairs_def)

lemma sample_plan_db_ok:
  "tasks_ok planner_db" "deps_closed planner_db" "acyclic (depends_rel planner_db)"
  "unique_key pl_id (plans planner_db)"
  by (simp_all add: tasks_ok_def unique_key_def deps_closed_def depends_rel_def planner_db_def empty_db_def
      acyclic_def)

theorem create_plan_keeps_dag_witness:
  "\<exists>d' p. create_plan 9 30 sample_ids [] 20 ''why'' sample_specs ''ai'' planner_db = Inr (d', p) \<and>
     dependency_ids d' (sample_ids 1) = [sample_ids 0] \<and> acyclic (depends_rel d')"
proof -
  from sample_plan_created obtain d' p where
    r: "create_plan 9 30 sample_ids [] 20 ''why'' sample_specs ''ai'' planner_db = Inr (d', p)" by blast
  from create_plan_keeps_dag [OF r sample_plan_db_ok(1-3)] r show ?thesis
    by (fastforce simp: sample_specs_def sample_spec_def)
qed

theorem replan_supersedes_witness:
  "\<exists>d' p. create_plan 9 30 sample_ids [] 20 ''why'' sample_specs ''ai'' planner_db = Inr (d', p) \<and>
     pl_version p = 1 \<and> filter (\<lambda>q. pl_goal q = 20 \<and> pl_status q = PlanActive) (plans d') = [p]"
proof -
  from sample_plan_created obtain d' p where
    r: "create_plan 9 30 sample_ids [] 20 ''why'' sample_specs ''ai'' planner_db = Inr (d', p)" by blast
  from replan_supersedes [OF r sample_plan_db_ok(4)] have
    "filter (\<lambda>q. pl_goal q = 20 \<and> pl_status q = PlanActive) (plans d') = [p]"
    "\<exists>g\<in>set (goals planner_db). g_id g = 20 \<and> pl_version p = g_current_plan_version g + 1" by simp_all
  with r show ?thesis by (auto simp: planner_db_def planner_goal_def)
qed

theorem new_plan_has_ready_task_witness:
  "\<exists>d' p. create_plan 9 30 sample_ids [] 20 ''why'' sample_specs ''ai'' planner_db = Inr (d', p) \<and>
     (\<exists>t\<in>set (tasks d'). t_plan t = 30 \<and> t_status t = TReady)"
proof -
  from sample_plan_created obtain d' p where
    r: "create_plan 9 30 sample_ids [] 20 ''why'' sample_specs ''ai'' planner_db = Inr (d', p)"
      "pl_id p = 30" by blast
  from new_plan_has_ready_task [OF r(1) sample_plan_db_ok(2)] r show ?thesis by auto
qed

section \<open>Reading a proposed plan\<close>

text \<open>
  What \<open>propose_plan_via_ai\<close> does with the model's reply. \<open>loads\<close> is \<open>json.loads\<close>, \<open>py_str\<close> and
  \<open>py_int\<close> are Python's \<open>str\<close> and \<open>int\<close> of a JSON value (\<open>None\<close>: it raises); an \<open>int\<close> that raises
  is not turned into a \<open>PlanValidationError\<close>.
\<close>

datatype propose_error = BadPlan string | Unconvertible json

record py_conv =
  loads :: "string \<Rightarrow> json option"
  py_str :: "json \<Rightarrow> string"
  py_int :: "json \<Rightarrow> int option"

fun before_fence :: "string \<Rightarrow> string" where
  "before_fence [] = []"
| "before_fence (c # cs) = (if take 3 (c # cs) = ''```'' then [] else c # before_fence cs)"

definition strip :: "string \<Rightarrow> string" where "strip s = strip_chars is_space s"

definition unfence :: "string \<Rightarrow> string" where
  "unfence content =
     (let raw = strip content
      in if take 3 raw = ''```''
         then (let body = before_fence (drop 3 raw)
               in strip (if take 4 body = ''json'' then drop 4 body else body))
         else raw)"

definition get_default :: "jdict \<Rightarrow> string \<Rightarrow> json \<Rightarrow> json" where
  "get_default d k v = (case map_of d k of None \<Rightarrow> v | Some x \<Rightarrow> x)"

text \<open>\<open>isinstance(d, int)\<close> holds of booleans.\<close>

definition json_index :: "json \<Rightarrow> int option" where
  "json_index v =
     (case v of JInt i \<Rightarrow> Some i | JBool b \<Rightarrow> Some (if b then 1 else 0) | _ \<Rightarrow> None)"

definition risk_of :: "json \<Rightarrow> risk_level option" where
  "risk_of v =
     (if v = JStr ''low'' then Some RiskLow else if v = JStr ''medium'' then Some RiskMedium
      else if v = JStr ''high'' then Some RiskHigh else None)"

definition parse_task :: "py_conv \<Rightarrow> json \<Rightarrow> propose_error + planned_task" where
  "parse_task py raw =
     (case raw of
        JObj t \<Rightarrow>
          sbind (from_option (BadPlan ''missing field'') (map_of t ''description'')) (\<lambda>desc.
          sbind (from_option (BadPlan ''missing field'') (map_of t ''task_type'')) (\<lambda>ty.
          sbind (case get_default t ''depends_on'' (JArr []) of
                   JArr ds \<Rightarrow> (if list_all (\<lambda>v. json_index v \<noteq> None) ds
                              then Inr (map (\<lambda>v. the (json_index v)) ds)
                              else Inl (BadPlan ''depends_on''))
                 | _ \<Rightarrow> Inl (BadPlan ''depends_on'')) (\<lambda>deps.
          sbind (from_option (BadPlan ''risk_level'') (risk_of (get_default t ''risk_level'' (JStr ''low''))))
            (\<lambda>risk.
          sbind (case get_default t ''verification_plan'' (JArr []) of
                   JArr vs \<Rightarrow> Inr vs | _ \<Rightarrow> Inl (BadPlan ''verification_plan'')) (\<lambda>plan.
          sbind (from_option (Unconvertible (get_default t ''priority'' (JInt 0)))
                  (py_int py (get_default t ''priority'' (JInt 0)))) (\<lambda>prio.
          Inr \<lparr>ps_description = py_str py desc, ps_type = py_str py ty, ps_depends_on = deps,
               ps_risk = risk,
               ps_approval_required = truthy (get_default t ''approval_required'' (JBool False)),
               ps_verification_plan = plan, ps_priority = prio, ps_max_attempts = 3\<rparr>))))))
      | _ \<Rightarrow> Inl (BadPlan ''not an object''))"

fun parse_tasks :: "py_conv \<Rightarrow> json list \<Rightarrow> propose_error + planned_task list" where
  "parse_tasks py [] = Inr []"
| "parse_tasks py (r # rs) =
     sbind (parse_task py r) (\<lambda>sp. sbind (parse_tasks py rs) (\<lambda>sps. Inr (sp # sps)))"

definition parse_proposal :: "py_conv \<Rightarrow> string \<Rightarrow> propose_error + planned_task list" where
  "parse_proposal py content =
     sbind (from_option (BadPlan ''not JSON'') (loads py (unfence content))) (\<lambda>parsed.
       case parsed of
         JObj obj \<Rightarrow>
           (case jget obj ''tasks'' of
              JArr raws \<Rightarrow>
                sbind (parse_tasks py raws) (\<lambda>sps.
                  if sps = [] then Inl (BadPlan ''empty'') else Inr sps)
            | _ \<Rightarrow> Inl (BadPlan ''tasks array''))
       | _ \<Rightarrow> Inl (BadPlan ''tasks array''))"

text \<open>The JSON the prompt asks for, written from the specifications it should yield.\<close>

fun risk_value :: "risk_level \<Rightarrow> string" where
  "risk_value RiskLow = ''low''"
| "risk_value RiskMedium = ''medium''"
| "risk_value RiskHigh = ''high''"

definition spec_json :: "planned_task \<Rightarrow> json" where
  "spec_json sp =
     JObj [(''description'', JStr (ps_description sp)), (''task_type'', JStr (ps_type sp)),
           (''depends_on'', JArr (map JInt (ps_depends_on sp))),
           (''risk_level'', JStr (risk_value (ps_risk sp))),
           (''approval_required'', JBool (ps_approval_required sp)),
           (''verification_plan'', JArr (ps_verification_plan sp)),
           (''priority'', JInt (ps_priority sp))]"

lemma risk_of_value [simp]: "risk_of (JStr (risk_value r)) = Some r"
  by (cases r) (simp_all add: risk_of_def)

lemma parse_spec_json:
  assumes "\<And>s. py_str py (JStr s) = s" and "\<And>i. py_int py (JInt i) = Some i" and "ps_max_attempts sp = 3"
  shows "parse_task py (spec_json sp) = Inr sp"
proof -
  have "list_all (\<lambda>v. json_index v \<noteq> None) (map JInt ds) \<and> map (\<lambda>v. the (json_index v)) (map JInt ds) = ds" for ds
    by (induction ds) (simp_all add: json_index_def)
  with assms show ?thesis
    by (cases sp) (simp add: parse_task_def spec_json_def get_default_def)
qed

lemma parse_specs_json:
  assumes "\<And>s. py_str py (JStr s) = s" and "\<And>i. py_int py (JInt i) = Some i"
    and "\<forall>sp\<in>set sps. ps_max_attempts sp = 3"
  shows "parse_tasks py (map spec_json sps) = Inr sps"
  using assms(3) by (induction sps) (simp_all add: parse_spec_json [OF assms(1,2)])

lemma strip_id: "s \<noteq> [] \<Longrightarrow> \<not> is_space (hd s) \<Longrightarrow> \<not> is_space (last s) \<Longrightarrow> strip s = s"
  using dropWhile_eq_self_iff [of is_space s] dropWhile_eq_self_iff [of is_space "rev s"]
  by (simp add: strip_def strip_chars_def hd_rev)

text \<open>A well-formed reply is taken over exactly. If the text of a reply (with or without a
  Markdown fence the prompt forbids) decodes to the requested JSON of a non-empty list of task
  specifications, parsing returns just these specifications, in order and field by field.\<close>

theorem parse_proposal_roundtrip:
  assumes "\<And>s. py_str py (JStr s) = s" and "\<And>i. py_int py (JInt i) = Some i"
    and "loads py text = Some (JObj [(''tasks'', JArr (map spec_json sps))])"
    and "sps \<noteq> []" and "\<forall>sp\<in>set sps. ps_max_attempts sp = 3"
    and "text \<noteq> []" and "\<not> is_space (hd text)" and "\<not> is_space (last text)"
    and "take 3 text \<noteq> ''```''" and "before_fence (text @ ''```'') = text"
    and "take 4 text \<noteq> ''json''"
  shows "parse_proposal py text = Inr sps \<and>
    parse_proposal py (''```'' @ text @ ''```'') = Inr sps \<and>
    parse_proposal py (''```json'' @ text @ ''```'') = Inr sps"
proof -
  have "unfence text = text"
    using assms(9) strip_id [OF assms(6-8)] by (simp add: unfence_def)
  moreover have "strip (''```'' @ text @ ''```'') = ''```'' @ text @ ''```''"
    and "strip (''```json'' @ text @ ''```'') = ''```json'' @ text @ ''```''"
    by (rule strip_id; simp add: is_space_def)+
  then have "unfence (''```'' @ text @ ''```'') = text" and "unfence (''```json'' @ text @ ''```'') = text"
    using assms(10,11) strip_id [OF assms(6-8)] by (auto simp: unfence_def Let_def)
  ultimately show ?thesis
    using assms(3,4) parse_specs_json [OF assms(1,2,5)]
    by (simp add: parse_proposal_def jget_def)
qed

definition sample_reply :: string where
  "sample_reply = ''{...}''"

theorem parse_proposal_roundtrip_witness:
  "parse_proposal \<lparr>loads = (\<lambda>s. if s = sample_reply then Some (JObj [(''tasks'', JArr (map spec_json sample_specs))]) else None),
      py_str = (\<lambda>v. case v of JStr s \<Rightarrow> s | _ \<Rightarrow> []), py_int = (\<lambda>v. case v of JInt i \<Rightarrow> Some i | _ \<Rightarrow> None)\<rparr>
     (''```json'' @ sample_reply @ ''```'') = Inr sample_specs"
  using parse_proposal_roundtrip [of "\<lparr>loads = (\<lambda>s. if s = sample_reply then Some (JObj [(''tasks'', JArr (map spec_json sample_specs))]) else None),
      py_str = (\<lambda>v. case v of JStr s \<Rightarrow> s | _ \<Rightarrow> []), py_int = (\<lambda>v. case v of JInt i \<Rightarrow> Some i | _ \<Rightarrow> None)\<rparr>"
      sample_reply sample_specs]
  by (simp add: sample_reply_def is_space_def) (simp add: sample_specs_def sample_spec_def)

end
