(* ===== verification/FinalReport.thy ===== *)
theory FinalReport
  imports Liveness Executor Planner "HOL-Library.AList"
begin

text \<open>
  \<open>app/mainai_execution/final_report.py\<close>: the report of a goal, an aggregation of stored rows, and
  the rollup of the goal's own status. A report is a record of its own; its JSON text, stored in
  \<open>final_outcome\<close>, is the parameter \<open>dumps\<close>.
\<close>

section \<open>The report of one task\<close>

record task_report =
  tr_task :: uuid
  tr_description :: string
  tr_type :: string
  tr_outcome :: task_status
  tr_liveness :: liveness
  tr_attempts :: int
  tr_max_attempts :: int
  tr_next_retry_at :: "time option"
  tr_execution :: "(uuid \<times> job_status \<times> bool \<times> bool) option"
  tr_verification :: "(bool \<times> time) option"
  tr_approval_required :: bool
  tr_granted_by :: "json option"
  tr_unresolved :: bool
  tr_blocker :: "string option"
  tr_recoveries :: "recovery_record list"
  tr_waits :: "task_wait list"
  tr_replan :: "(json \<times> time) option"
  tr_lesson_conflicts :: "(json \<times> json \<times> json \<times> time) list"

definition unresolved_task_statuses :: "task_status set" where
  "unresolved_task_statuses = {TBlocked, TFailed}"

text \<open>\<open>ORDER BY created_at DESC LIMIT 1\<close>; among equal times the first row.\<close>

definition latest_event :: "db \<Rightarrow> uuid \<Rightarrow> task_event_type set \<Rightarrow> task_event option" where
  "latest_event d tid types =
     first_min (\<lambda>e. - te_created_at e)
       (filter (\<lambda>e. te_task e = tid \<and> te_type e \<in> types) (task_events d))"

definition recovery_history :: "db \<Rightarrow> uuid \<Rightarrow> recovery_record list" where
  "recovery_history d tid = sort_key r_created_at (filter (\<lambda>r. r_task r = tid) (recovery_records d))"

definition wait_history :: "db \<Rightarrow> uuid \<Rightarrow> task_wait list" where
  "wait_history d tid = sort_key w_created_at (filter (\<lambda>w. w_task w = tid) (task_waits d))"

definition lesson_conflict_evidence :: "db \<Rightarrow> uuid \<Rightarrow> (json \<times> json \<times> json \<times> time) list" where
  "lesson_conflict_evidence d tid =
     map (\<lambda>e. (jget (te_detail e) ''lesson_id'', jget (te_detail e) ''conflicting_lesson_id'',
               jget (te_detail e) ''reasoning'', te_created_at e))
       (sort_key te_created_at
         (filter (\<lambda>e. te_task e = tid \<and> te_type e = TeLessonConflictDetected) (task_events d)))"

definition job_of_task :: "db \<Rightarrow> mainai_task \<Rightarrow> mainai_job option" where
  "job_of_task d t =
     (case t_job t of None \<Rightarrow> None | Some i \<Rightarrow> find_row (\<lambda>j. j_id j = i) (jobs d))"

definition unresolved_recovery :: "recovery_record list \<Rightarrow> bool" where
  "unresolved_recovery rs = list_ex (\<lambda>r. r_manual_review_required r \<and> r_status r \<noteq> RCompleted) rs"

definition make_task_report :: "time \<Rightarrow> db \<Rightarrow> mainai_task \<Rightarrow> task_report" where
  "make_task_report now d t =
     (let verification = latest_event d (t_id t) {TeVerificationPassed, TeVerificationFailed};
          approval = latest_event d (t_id t) {TeApprovalGranted};
          replan = latest_event d (t_id t) {TeReplanned};
          job = job_of_task d t;
          recoveries = recovery_history d (t_id t);
          conflicts = lesson_conflict_evidence d (t_id t)
      in \<lparr>tr_task = t_id t, tr_description = t_description t, tr_type = t_type t,
          tr_outcome = t_status t, tr_liveness = task_liveness t job now,
          tr_attempts = t_attempts t, tr_max_attempts = t_max_attempts t,
          tr_next_retry_at = t_next_retry_at t,
          tr_execution = map_option (\<lambda>j. (j_id j, j_status j, j_cancel_requested j, j_cancel_acknowledged j)) job,
          tr_verification = map_option (\<lambda>e. (te_type e = TeVerificationPassed, te_created_at e)) verification,
          tr_approval_required = t_approval_required t,
          tr_granted_by = map_option (\<lambda>e. jget (te_detail e) ''approved_by'') approval,
          tr_unresolved = (t_status t \<in> unresolved_task_statuses \<or>
             (t_approval_required t \<and> approval = None) \<or> unresolved_recovery recoveries \<or>
             conflicts \<noteq> []),
          tr_blocker = t_blocker_reason t, tr_recoveries = recoveries,
          tr_waits = wait_history d (t_id t),
          tr_replan = map_option (\<lambda>e. (jget (te_detail e) ''new_plan_version'', te_created_at e)) replan,
          tr_lesson_conflicts = conflicts\<rparr>)"

section \<open>The report of a goal\<close>

record goal_report =
  gr_goal :: mainai_goal
  gr_plan :: "mainai_plan option"
  gr_tasks :: "task_report list"
  gr_by_outcome :: "(task_status \<times> nat) list"
  gr_unresolved_count :: nat
  gr_with_recovery :: nat
  gr_recovery_attempts :: nat
  gr_with_waits :: nat
  gr_awaiting_retry :: nat
  gr_plan_versions :: nat
  gr_with_disputed_lessons :: nat
  gr_generated_at :: time

fun count_outcomes :: "task_status list \<Rightarrow> (task_status \<times> nat) list \<Rightarrow> (task_status \<times> nat) list" where
  "count_outcomes [] acc = acc"
| "count_outcomes (s # ss) acc =
     count_outcomes ss (AList.update s (case map_of acc s of None \<Rightarrow> 1 | Some n \<Rightarrow> n + 1) acc)"

definition count_if :: "('a \<Rightarrow> bool) \<Rightarrow> 'a list \<Rightarrow> nat" where
  "count_if p xs = length (filter p xs)"

definition generate_goal_report :: "time \<Rightarrow> uuid \<Rightarrow> db \<Rightarrow> error + goal_report" where
  "generate_goal_report now gid d =
     sbind (get_goal gid d) (\<lambda>g.
     sbind (previous_active gid d) (\<lambda>plan.
       let reports = map (make_task_report now d)
                       (sort_key t_created_at (filter (\<lambda>t. t_goal t = gid) (tasks d)))
       in Inr \<lparr>gr_goal = g, gr_plan = plan, gr_tasks = reports,
               gr_by_outcome = count_outcomes (map tr_outcome reports) [],
               gr_unresolved_count = count_if tr_unresolved reports,
               gr_with_recovery = count_if (\<lambda>r. tr_recoveries r \<noteq> []) reports,
               gr_recovery_attempts = sum_list (map (\<lambda>r. length (tr_recoveries r)) reports),
               gr_with_waits = count_if (\<lambda>r. tr_waits r \<noteq> []) reports,
               gr_awaiting_retry = count_if (\<lambda>r. tr_next_retry_at r \<noteq> None) reports,
               gr_plan_versions = count_if (\<lambda>p. pl_goal p = gid) (plans d),
               gr_with_disputed_lessons = count_if (\<lambda>r. tr_lesson_conflicts r \<noteq> []) reports,
               gr_generated_at = now\<rparr>))"

section \<open>Closing a goal\<close>

definition waiting_task_statuses :: "task_status set" where
  "waiting_task_statuses = {TWaitingCi, TWaitingExternal}"

definition immediately_actionable_task_statuses :: "task_status set" where
  "immediately_actionable_task_statuses = {TRunning, TReady}"

definition write_goal :: "uuid \<Rightarrow> (mainai_goal \<Rightarrow> mainai_goal) \<Rightarrow> db \<Rightarrow> error + db" where
  "write_goal gid f d =
     (if list_all (\<lambda>g. g_id g = gid \<longrightarrow> goal_checks (f g)) (goals d)
      then Inr (d\<lparr>goals := update_rows (\<lambda>g. g_id g = gid) f (goals d)\<rparr>)
      else Inl CheckViolation)"

text \<open>\<open>g\<close> is the goal as the session holds it.\<close>

definition record_final_report ::
  "(goal_report \<Rightarrow> json) \<Rightarrow> time \<Rightarrow> mainai_goal \<Rightarrow> db \<Rightarrow> error + (db \<times> goal_report)" where
  "record_final_report dumps now g d =
     sbind (generate_goal_report now (g_id g) d) (\<lambda>rep.
       if g_status g \<in> terminal_goal_statuses then Inr (d, rep)
       else
         let ss = map tr_outcome (gr_tasks rep)
         in if ss \<noteq> [] \<and> list_all (\<lambda>s. s \<in> terminal_task_statuses) ss
            then sbind (write_goal (g_id g)
                   (\<lambda>r. r\<lparr>g_final_outcome := Some (dumps rep), g_completed_at := Some now,
                          g_status := (if list_all (\<lambda>s. s = TCompleted) ss then GCompleted else GFailed)\<rparr>) d)
                   (\<lambda>d1. Inr (d1, rep))
            else
              let waiting = list_ex (\<lambda>s. s \<in> waiting_task_statuses) ss \<and>
                            \<not> list_ex (\<lambda>s. s \<in> immediately_actionable_task_statuses) ss
              in if waiting \<and> g_status g = GRunning
                 then sbind (write_goal (g_id g) (\<lambda>r. r\<lparr>g_status := GWaiting\<rparr>) d) (\<lambda>d1. Inr (d1, rep))
                 else if \<not> waiting \<and> g_status g = GWaiting
                 then sbind (write_goal (g_id g) (\<lambda>r. r\<lparr>g_status := GRunning\<rparr>) d) (\<lambda>d1. Inr (d1, rep))
                 else Inr (d, rep))"

section \<open>What closing a goal means\<close>

lemma report_statuses:
  assumes "generate_goal_report now gid d = Inr rep"
  shows "set (map tr_outcome (gr_tasks rep)) = t_status ` set (goal_tasks gid d)"
    and "map tr_outcome (gr_tasks rep) = [] \<longleftrightarrow> goal_tasks gid d = []"
proof -
  from assms have "map tr_outcome (gr_tasks rep) =
      map t_status (sort_key t_created_at (filter (\<lambda>t. t_goal t = gid) (tasks d)))"
    unfolding generate_goal_report_def by (auto elim!: sbind_InrE simp: make_task_report_def Let_def)
  moreover have "sort_key t_created_at xs = [] \<longleftrightarrow> xs = []" for xs
    using length_sort [of t_created_at xs] by (cases xs) auto
  ultimately show "set (map tr_outcome (gr_tasks rep)) = t_status ` set (goal_tasks gid d)"
    and "map tr_outcome (gr_tasks rep) = [] \<longleftrightarrow> goal_tasks gid d = []"
    by (simp_all only: goal_tasks_def list.set_map set_sort list.map_disc_iff Nil_is_map_conv)
qed

lemma write_goal_row:
  assumes "unique_key g_id (goals d)" and "g \<in> set (goals d)" and "goal_checks (f g)"
  shows "write_goal (g_id g) f d =
    Inr (d\<lparr>goals := update_rows (\<lambda>r. g_id r = g_id g) (\<lambda>_. f g) (goals d)\<rparr>)"
proof -
  have "\<forall>r\<in>set (goals d). g_id r = g_id g \<longrightarrow> r = g"
    using assms(1,2) by (blast intro: unique_key_eqD)
  then have "list_all (\<lambda>r. g_id r = g_id g \<longrightarrow> goal_checks (f r)) (goals d)"
    using assms(3) by (auto simp: list_all_iff)
  then show ?thesis
    using update_rows_unique [OF assms(1,2), of f] by (simp add: write_goal_def)
qed

definition goal_all_terminal :: "uuid \<Rightarrow> db \<Rightarrow> bool" where
  "goal_all_terminal gid d \<longleftrightarrow>
     goal_tasks gid d \<noteq> [] \<and> (\<forall>t\<in>set (goal_tasks gid d). t_status t \<in> terminal_task_statuses)"

definition goal_waits :: "uuid \<Rightarrow> db \<Rightarrow> bool" where
  "goal_waits gid d \<longleftrightarrow>
     (\<exists>t\<in>set (goal_tasks gid d). t_status t \<in> waiting_task_statuses) \<and>
     \<not> (\<exists>t\<in>set (goal_tasks gid d). t_status t \<in> immediately_actionable_task_statuses)"

definition rolled_up_status :: "mainai_goal \<Rightarrow> db \<Rightarrow> goal_status" where
  "rolled_up_status g d =
     (if g_status g \<in> {GRunning, GWaiting} then (if goal_waits (g_id g) d then GWaiting else GRunning)
      else g_status g)"

lemma record_final_report_eq:
  assumes rep: "generate_goal_report now (g_id g) d = Inr rep"
  shows "record_final_report dumps now g d =
      (if g_status g \<in> terminal_goal_statuses then Inr (d, rep)
       else if goal_all_terminal (g_id g) d
       then sbind (write_goal (g_id g)
              (\<lambda>r. r\<lparr>g_final_outcome := Some (dumps rep), g_completed_at := Some now,
                     g_status := (if \<forall>t\<in>set (goal_tasks (g_id g) d). t_status t = TCompleted
                                  then GCompleted else GFailed)\<rparr>) d) (\<lambda>d1. Inr (d1, rep))
       else if goal_waits (g_id g) d \<and> g_status g = GRunning
       then sbind (write_goal (g_id g) (\<lambda>r. r\<lparr>g_status := GWaiting\<rparr>) d) (\<lambda>d1. Inr (d1, rep))
       else if \<not> goal_waits (g_id g) d \<and> g_status g = GWaiting
       then sbind (write_goal (g_id g) (\<lambda>r. r\<lparr>g_status := GRunning\<rparr>) d) (\<lambda>d1. Inr (d1, rep))
       else Inr (d, rep))"
proof -
  let ?ss = "map tr_outcome (gr_tasks rep)"
  have all: "?ss \<noteq> [] \<and> list_all (\<lambda>s. s \<in> terminal_task_statuses) ?ss \<longleftrightarrow> goal_all_terminal (g_id g) d"
    and comp: "list_all (\<lambda>s. s = TCompleted) ?ss \<longleftrightarrow> (\<forall>t\<in>set (goal_tasks (g_id g) d). t_status t = TCompleted)"
    and wait: "list_ex (\<lambda>s. s \<in> waiting_task_statuses) ?ss \<and>
       \<not> list_ex (\<lambda>s. s \<in> immediately_actionable_task_statuses) ?ss \<longleftrightarrow> goal_waits (g_id g) d"
    using report_statuses [OF rep]
    unfolding list_all_iff list_ex_iff goal_all_terminal_def goal_waits_def by auto
  show ?thesis
    unfolding record_final_report_def rep sbind_simps Let_def all comp wait by (rule refl)
qed

lemma rollup_write:
  assumes u: "unique_key g_id (goals d)" and g: "g \<in> set (goals d)" and c: "goal_checks g"
    and rep: "generate_goal_report now (g_id g) d = Inr rep"
    and open_goal: "g_status g \<notin> terminal_goal_statuses" and open_tasks: "\<not> goal_all_terminal (g_id g) d"
  shows "record_final_report dumps now g d =
    Inr (d\<lparr>goals := update_rows (\<lambda>r. g_id r = g_id g) (\<lambda>_. g\<lparr>g_status := rolled_up_status g d\<rparr>) (goals d)\<rparr>, rep)"
proof -
  note eq = record_final_report_eq [OF rep, of dumps]
  have running: "g_completed_at g = None" using c open_goal by (simp add: goal_checks_def)
  have same: "update_rows (\<lambda>r. g_id r = g_id g) (\<lambda>_. g) (goals d) = goals d"
    using update_rows_unique [OF u g, of "\<lambda>r. r"] by (simp add: update_rows_def)
  have chk: "goal_checks (g\<lparr>g_status := s\<rparr>)" if "s \<in> {GRunning, GWaiting}" for s
    using c running that by (auto simp: goal_checks_def terminal_goal_statuses_def)
  have wr: "write_goal (g_id g) (\<lambda>r. r\<lparr>g_status := s\<rparr>) d =
      Inr (d\<lparr>goals := update_rows (\<lambda>r. g_id r = g_id g) (\<lambda>_. g\<lparr>g_status := s\<rparr>) (goals d)\<rparr>)"
    if "s \<in> {GRunning, GWaiting}" for s
    by (rule write_goal_row [OF u g]) (rule chk [OF that])
  have idle: "d\<lparr>goals := update_rows (\<lambda>r. g_id r = g_id g) (\<lambda>_. g\<lparr>g_status := s\<rparr>) (goals d)\<rparr> = d"
    if "g_status g = s" for s
  proof -
    from that have "g\<lparr>g_status := s\<rparr> = g" by simp
    then show ?thesis using same by simp
  qed
  define s where "s = rolled_up_status g d"
  have "record_final_report dumps now g d =
    Inr (d\<lparr>goals := update_rows (\<lambda>r. g_id r = g_id g) (\<lambda>_. g\<lparr>g_status := s\<rparr>) (goals d)\<rparr>, rep)"
  proof (cases "g_status g = s")
    case True
    then have "\<not> (goal_waits (g_id g) d \<and> g_status g = GRunning)"
      and "\<not> (\<not> goal_waits (g_id g) d \<and> g_status g = GWaiting)"
      by (auto simp: s_def rolled_up_status_def)
    then have "record_final_report dumps now g d = Inr (d, rep)"
      unfolding eq using open_goal open_tasks by (simp only: if_False if_True)
    then show ?thesis by (simp only: idle [OF True])
  next
    case changed: False
    then consider "goal_waits (g_id g) d" "g_status g = GRunning" "s = GWaiting"
      | "\<not> goal_waits (g_id g) d" "g_status g = GWaiting" "s = GRunning"
      by (auto simp: s_def rolled_up_status_def split: if_splits)
    then show ?thesis
    proof cases
      case 1
      with wr [of GWaiting] open_goal open_tasks show ?thesis unfolding eq by simp
    next
      case 2
      with wr [of GRunning] open_goal open_tasks show ?thesis unfolding eq by simp
    qed
  qed
  then show ?thesis by (simp only: s_def)
qed

lemma record_final_report_cases:
  assumes u: "unique_key g_id (goals d)" and g: "g \<in> set (goals d)" and c: "goal_checks g"
    and rep: "generate_goal_report now (g_id g) d = Inr rep"
  shows "record_final_report dumps now g d =
    Inr (if g_status g \<in> terminal_goal_statuses then d
         else if goal_all_terminal (g_id g) d
         then d\<lparr>goals := update_rows (\<lambda>r. g_id r = g_id g)
                (\<lambda>_. g\<lparr>g_final_outcome := Some (dumps rep), g_completed_at := Some now,
                       g_status := (if \<forall>t\<in>set (goal_tasks (g_id g) d). t_status t = TCompleted
                                    then GCompleted else GFailed)\<rparr>) (goals d)\<rparr>
         else d\<lparr>goals := update_rows (\<lambda>r. g_id r = g_id g)
                (\<lambda>_. g\<lparr>g_status := rolled_up_status g d\<rparr>) (goals d)\<rparr>, rep)"
proof -
  note eq = record_final_report_eq [OF rep, of dumps]
  show ?thesis
  proof (cases "g_status g \<in> terminal_goal_statuses")
    case True
    then show ?thesis by (simp add: eq)
  next
    case open_goal: False
    show ?thesis
    proof (cases "goal_all_terminal (g_id g) d")
      case True
      have "goal_checks (g\<lparr>g_final_outcome := Some (dumps rep), g_completed_at := Some now,
          g_status := (if \<forall>t\<in>set (goal_tasks (g_id g) d). t_status t = TCompleted then GCompleted else GFailed)\<rparr>)"
        using c by (simp add: goal_checks_def terminal_goal_statuses_def)
      from write_goal_row [OF u g, of "\<lambda>r. r\<lparr>g_final_outcome := Some (dumps rep), g_completed_at := Some now,
          g_status := (if \<forall>t\<in>set (goal_tasks (g_id g) d). t_status t = TCompleted then GCompleted else GFailed)\<rparr>", OF this]
      show ?thesis using open_goal True
        unfolding eq by simp
    next
      case False
      from rollup_write [OF u g c rep open_goal False] open_goal False show ?thesis by simp
    qed
  qed
qed

lemma generate_goal_report_ok:
  assumes "unique_key g_id (goals d)" and "g \<in> set (goals d)" and "previous_active (g_id g) d = Inr pl"
  shows "\<exists>rep. generate_goal_report now (g_id g) d = Inr rep"
  using assms by (simp add: generate_goal_report_def get_goal_def unique_key_find Let_def)

definition closed_or_rolled :: "json \<Rightarrow> time \<Rightarrow> db \<Rightarrow> mainai_goal \<Rightarrow> mainai_goal" where
  "closed_or_rolled out now d g =
     (if g_status g \<in> terminal_goal_statuses then g
      else if goal_all_terminal (g_id g) d
      then g\<lparr>g_final_outcome := Some out, g_completed_at := Some now,
             g_status := (if \<forall>t\<in>set (goal_tasks (g_id g) d). t_status t = TCompleted
                          then GCompleted else GFailed)\<rparr>
      else g\<lparr>g_status := rolled_up_status g d\<rparr>)"

lemma record_final_report_row:
  assumes "unique_key g_id (goals d)" and "g \<in> set (goals d)" and "goal_checks g"
    and "generate_goal_report now (g_id g) d = Inr rep"
  shows "record_final_report dumps now g d =
    Inr (d\<lparr>goals := update_rows (\<lambda>r. g_id r = g_id g) (\<lambda>_. closed_or_rolled (dumps rep) now d g) (goals d)\<rparr>, rep)"
proof -
  have "update_rows (\<lambda>r. g_id r = g_id g) (\<lambda>_. g) (goals d) = goals d"
    using update_rows_unique [OF assms(1,2), of "\<lambda>r. r"] by (simp add: update_rows_def)
  then show ?thesis
    using record_final_report_cases [OF assms] by (simp add: closed_or_rolled_def)
qed

lemma closed_or_rolled_checks: "goal_checks g \<Longrightarrow> goal_checks (closed_or_rolled out now d g)"
  by (auto simp: closed_or_rolled_def goal_checks_def terminal_goal_statuses_def rolled_up_status_def)

lemma closed_or_rolled_again:
  assumes "goal_tasks (g_id g) d' = goal_tasks (g_id g) d"
  shows "closed_or_rolled out' now' d' (closed_or_rolled out now d g) = closed_or_rolled out now d g"
proof -
  have all: "goal_all_terminal (g_id g) d' = goal_all_terminal (g_id g) d"
    and waits: "goal_waits (g_id g) d' = goal_waits (g_id g) d"
    by (simp_all add: goal_all_terminal_def goal_waits_def assms)
  consider "g_status g \<in> terminal_goal_statuses" | "g_status g \<notin> terminal_goal_statuses" "goal_all_terminal (g_id g) d"
    | "g_status g \<notin> terminal_goal_statuses" "\<not> goal_all_terminal (g_id g) d" by blast
  then show ?thesis
  proof cases
    case 1
    then show ?thesis by (simp add: closed_or_rolled_def)
  next
    case 2
    then have "g_status (closed_or_rolled out now d g) \<in> terminal_goal_statuses"
      by (simp add: closed_or_rolled_def) (simp add: terminal_goal_statuses_def)
    then show ?thesis unfolding closed_or_rolled_def [of out' now' d'] by simp
  next
    case 3
    define h where "h = g\<lparr>g_status := rolled_up_status g d\<rparr>"
    have h: "closed_or_rolled out now d g = h" using 3 by (simp add: closed_or_rolled_def h_def)
    have "g_status h \<notin> terminal_goal_statuses"
      using 3(1) by (simp add: h_def rolled_up_status_def terminal_goal_statuses_def)
    moreover have "rolled_up_status h d' = g_status h"
      by (simp add: h_def rolled_up_status_def waits)
    then have "h\<lparr>g_status := rolled_up_status h d'\<rparr> = h" by simp
    moreover have "g_id h = g_id g" by (simp add: h_def)
    ultimately show ?thesis using 3(2) all unfolding h closed_or_rolled_def [of out' now' d' h] by simp
  qed
qed

lemma closed_or_rolled_id [simp]: "g_id (closed_or_rolled out now d g) = g_id g"
  by (simp add: closed_or_rolled_def)

text \<open>The goal's status tells the truth about its tasks. A terminal goal is never touched again. An
  open goal is closed exactly when it has tasks and all of them have ended, as completed if every
  single one of them completed and as failed otherwise, with the report stored. Otherwise only
  running and waiting alternate: waiting exactly when some task waits for an external result and
  no task is running or ready. Nothing but the goal's own row changes, and reporting again
  changes nothing.\<close>

theorem final_report_rollup:
  assumes "unique_key g_id (goals d)" and "g \<in> set (goals d)" and "goal_checks g"
    and "previous_active (g_id g) d = Inr pl"
  shows "\<exists>rep d' g'. record_final_report dumps now g d = Inr (d', rep) \<and>
    d' = d\<lparr>goals := update_rows (\<lambda>r. g_id r = g_id g) (\<lambda>_. g') (goals d)\<rparr> \<and> goal_checks g' \<and>
    (if g_status g \<in> terminal_goal_statuses then g' = g
     else if goal_all_terminal (g_id g) d
     then g_status g' = (if \<forall>t\<in>set (goal_tasks (g_id g) d). t_status t = TCompleted
                         then GCompleted else GFailed) \<and>
       g_completed_at g' = Some now \<and> g_final_outcome g' = Some (dumps rep)
     else g' = g\<lparr>g_status := (if g_status g \<in> {GRunning, GWaiting}
                              then (if goal_waits (g_id g) d then GWaiting else GRunning)
                              else g_status g)\<rparr>) \<and>
    (\<exists>rep'. record_final_report dumps now' g' d' = Inr (d', rep'))"
proof -
  obtain rep where rep: "generate_goal_report now (g_id g) d = Inr rep"
    using generate_goal_report_ok [OF assms(1,2,4)] by blast
  define g' where "g' = closed_or_rolled (dumps rep) now d g"
  define d' where "d' = d\<lparr>goals := update_rows (\<lambda>r. g_id r = g_id g) (\<lambda>_. g') (goals d)\<rparr>"
  have r: "record_final_report dumps now g d = Inr (d', rep)"
    using record_final_report_row [OF assms(1-3) rep] by (simp add: g'_def d'_def)
  have g'id: "g_id g' = g_id g" by (simp add: g'_def)
  have chk: "goal_checks g'" using closed_or_rolled_checks [OF assms(3)] by (simp add: g'_def)
  have "map g_id (goals d') = map g_id (goals d)"
    by (simp add: d'_def g'id update_rows_def)
  then have u': "unique_key g_id (goals d')" using assms(1) by (simp add: unique_key_def)
  have mem: "g' \<in> set (goals d')" using assms(2) by (auto simp: d'_def in_update_rows_iff)
  have "previous_active (g_id g') d' = Inr pl" using assms(4) by (simp add: previous_active_def d'_def g'id)
  from generate_goal_report_ok [OF u' mem this] obtain rep' where
    rep': "generate_goal_report now' (g_id g') d' = Inr rep'" by blast
  have "closed_or_rolled (dumps rep') now' d' g' = g'"
    unfolding g'_def by (rule closed_or_rolled_again) (simp add: d'_def goal_tasks_def)
  moreover have "update_rows (\<lambda>r. g_id r = g_id g') (\<lambda>_. g') (goals d') = goals d'"
    using update_rows_unique [OF u' mem, of "\<lambda>r. r"] by (simp add: update_rows_def)
  ultimately have "record_final_report dumps now' g' d' = Inr (d', rep')"
    using record_final_report_row [OF u' mem chk rep', of dumps] by simp
  moreover have "if g_status g \<in> terminal_goal_statuses then g' = g
     else if goal_all_terminal (g_id g) d
     then g_status g' = (if \<forall>t\<in>set (goal_tasks (g_id g) d). t_status t = TCompleted
                         then GCompleted else GFailed) \<and>
       g_completed_at g' = Some now \<and> g_final_outcome g' = Some (dumps rep)
     else g' = g\<lparr>g_status := (if g_status g \<in> {GRunning, GWaiting}
                              then (if goal_waits (g_id g) d then GWaiting else GRunning)
                              else g_status g)\<rparr>"
    by (simp add: g'_def closed_or_rolled_def rolled_up_status_def)
  ultimately show ?thesis using r chk d'_def by blast
qed

theorem final_report_rollup_witness:
  "\<exists>rep d'. record_final_report (\<lambda>r. JNull) 9
       (sample_goal) (empty_db\<lparr>goals := [sample_goal], tasks := [sample_task 1 TCompleted, sample_task 2 TFailed]\<rparr>) =
     Inr (d', rep) \<and> map g_status (goals d') = [GFailed] \<and> map g_completed_at (goals d') = [Some 9]"
proof -
  let ?d = "empty_db\<lparr>goals := [sample_goal], tasks := [sample_task 1 TCompleted, sample_task 2 TFailed]\<rparr>"
  have "unique_key g_id (goals ?d)" "sample_goal \<in> set (goals ?d)" "goal_checks sample_goal"
    "previous_active (g_id sample_goal) ?d = Inr None"
    by (simp_all add: unique_key_def goal_checks_def sample_goal_def terminal_goal_statuses_def
        previous_active_def empty_db_def)
  from final_report_rollup [OF this, of "\<lambda>r. JNull" 9 10] show ?thesis
    by (auto simp: sample_goal_def sample_task_def goal_all_terminal_def goal_tasks_def
        terminal_goal_statuses_def terminal_task_statuses_def)
qed

end
