(* ===== verification/LessonFeedback.thy ===== *)
theory LessonFeedback
  imports Lessons
begin

text \<open>
  The learning back-edges of a finished task: \<open>lesson_from_verification.py\<close> (a lesson from a
  verification that failed for good) and \<open>lesson_guard_observations.py\<close> (what happened to the
  tests of the lessons a task's plan had applied). Python's \<open>str\<close> and \<open>repr\<close> of a JSON value are
  parameters; a prose reason is a constructor of \<open>guard_reason\<close>.
\<close>

section \<open>State\<close>

datatype guard_outcome =
    GuardHeld | GuardHeldTaskFailedElsewhere | GuardFailed | GuardUnusable | GuardNotExercised
  | LessonSupersededBefore

datatype guard_strength = StrengthDirect | StrengthPartial | StrengthNone

datatype guard_reason =
    Superseded | UnderReview lesson_status | NoRegressionTest | TargetAbsent | HeldHere
  | HeldFailedElsewhere | NoVerdict json json | TargetUnusable json | FailedHere

record guard_observation =
  go_owner :: uuid
  go_lesson :: uuid
  go_task :: uuid
  go_goal :: uuid
  go_job :: "uuid option"
  go_outcome :: guard_outcome
  go_strength :: guard_strength
  go_reason :: guard_reason
  go_target :: "string option"
  go_evidence :: jdict
  go_source_ref :: string
  go_observed_at :: time

record learning =
  lrn_lessons :: "lesson list"
  lrn_observations :: "guard_observation list"

record py_text =
  txt_str :: "json \<Rightarrow> string"
  txt_repr :: "json \<Rightarrow> string"

section \<open>A lesson from an exhausted verification\<close>

definition is_failed_step :: "json \<Rightarrow> bool" where
  "is_failed_step s = (case s of JObj d \<Rightarrow> jget d ''passed'' = JBool False | _ \<Rightarrow> False)"

definition is_structured_verification_evidence :: "jdict \<Rightarrow> bool" where
  "is_structured_verification_evidence ev \<longleftrightarrow>
     (case map_of ev ''steps'' of
        Some (JArr steps) \<Rightarrow> jget ev ''passed'' = JBool False \<and> list_ex is_failed_step steps
      | _ \<Rightarrow> False)"

definition keep_keys :: "string list \<Rightarrow> jdict \<Rightarrow> jdict" where
  "keep_keys ks d = concat (map (\<lambda>k. case map_of d k of None \<Rightarrow> [] | Some v \<Rightarrow> [(k, v)]) ks)"

definition step_summary :: "json \<Rightarrow> json" where
  "step_summary s =
     (case s of
        JObj d \<Rightarrow>
          JObj [(''kind'', jget d ''kind''),
                (''detail'', JObj (keep_keys [''kind'', ''target'', ''returncode'', ''error'', ''timeout_seconds'']
                   (case jget d ''detail'' of JObj x \<Rightarrow> x | _ \<Rightarrow> [])))]
      | _ \<Rightarrow> JNull)"

definition failed_step_summaries :: "jdict \<Rightarrow> json list" where
  "failed_step_summaries ev =
     (case jget ev ''steps'' of JArr steps \<Rightarrow> map step_summary (filter is_failed_step steps) | _ \<Rightarrow> [])"

definition source_ref :: "mainai_task \<Rightarrow> uuid option \<Rightarrow> string" where
  "source_ref t job =
     ''goal:'' @ uuid_str (t_goal t) @ ''/task:'' @ uuid_str (t_id t) @ ''/job:'' @
     (case job of None \<Rightarrow> ''no_job'' | Some j \<Rightarrow> uuid_str j)"

definition summary_kind :: "py_text \<Rightarrow> json \<Rightarrow> string" where
  "summary_kind py s =
     (case s of
        JObj d \<Rightarrow> (if truthy (jget d ''kind'') then txt_str py (jget d ''kind'') else ''unknown'')
      | _ \<Rightarrow> ''unknown'')"

definition sorted_set :: "string list \<Rightarrow> string list" where
  "sorted_set xs = sort (remdups xs)"

fun join_with :: "string \<Rightarrow> string list \<Rightarrow> string" where
  "join_with sep [] = []"
| "join_with sep [x] = x"
| "join_with sep (x # y # zs) = x @ sep @ join_with sep (y # zs)"

definition exhausted_lesson ::
  "py_text \<Rightarrow> time \<Rightarrow> uuid \<Rightarrow> mainai_task \<Rightarrow> uuid option \<Rightarrow> json list \<Rightarrow> lesson" where
  "exhausted_lesson py now fresh t job failed =
     (let kinds = sorted_set (map (summary_kind py) failed);
          ty = (if t_type t = [] then ''unknown'' else t_type t)
      in \<lparr>ls_id = fresh, ls_status = LActive,
          ls_problem = ''Task '' @ uuid_str (t_id t) @ '' ('' @ ty @
            '') exhausted verification attempts ('' @ int_str (t_attempts t) @ ''/'' @
            int_str (t_max_attempts t) @ ''); failed step kinds: '' @ join_with '', '' kinds @ ''.'',
          ls_root_cause = ''Verification plan steps reported durable failure after all scheduled attempts; automatic retry/backoff did not recover. Exact failing step kinds and targets are in evidence (not free-form exception text).'',
          ls_component = ''mainai_execution.verification.'' @ ty, ls_severity = SevMedium,
          ls_evidence = ''Durable MainAITask verification_failed evidence (structured steps only). source_ref='' @
            source_ref t job @ ''. failed_steps='' @ txt_repr py (JArr failed) @ ''.'',
          ls_fix = ''Inspect the named verification targets/regression coverage for this task_type; harden the failing step or the work that precedes it before re-dispatch.'',
          ls_regression_test = None,
          ls_general_rule = ''Only promote exhausted, structured verification failures into EngineeringLesson -- never one-shot provider/exception strings. Provenance must name goal/task/job.'',
          ls_applies_to = sorted_set (ty # ''verification'' # ''task_execution'' # kinds),
          ls_source_type = ''verification_exhausted'', ls_source_ref = source_ref t job,
          ls_first_seen_at = now, ls_confidence = ConfLikely,
          ls_created_by = ''mainai_execution.lesson_from_verification'', ls_created_at = now,
          ls_superseded_by = None\<rparr>)"

definition maybe_record_lesson_from_exhausted_verification ::
  "py_text \<Rightarrow> time \<Rightarrow> uuid \<Rightarrow> mainai_task \<Rightarrow> jdict \<Rightarrow> uuid option \<Rightarrow> lesson list \<Rightarrow> error + lesson list" where
  "maybe_record_lesson_from_exhausted_verification py now fresh t ev job ls =
     (if \<not> is_structured_verification_evidence ev \<or> failed_step_summaries ev = [] then Inr ls
      else case filter (\<lambda>l. ls_source_type l = ''verification_exhausted'' \<and>
                            ls_source_ref l = source_ref t job) ls of
             [] \<Rightarrow> record_lesson (exhausted_lesson py now fresh t job (failed_step_summaries ev)) ls
           | [l] \<Rightarrow> Inr ls
           | _ \<Rightarrow> Inl MultipleRows)"

section \<open>Guard observations\<close>

definition applied_lesson_ids :: "mainai_task \<Rightarrow> db \<Rightarrow> uuid list" where
  "applied_lesson_ids t d =
     (case first_min te_created_at
             (filter (\<lambda>e. te_task e = t_id t \<and> te_type e = TeCreated) (task_events d)) of
        None \<Rightarrow> []
      | Some e \<Rightarrow>
          (case jget (te_detail e) ''lessons_applied'' of
             JArr raw \<Rightarrow> concat (map (\<lambda>v. case json_uuid v of None \<Rightarrow> [] | Some i \<Rightarrow> [i]) raw)
           | _ \<Rightarrow> []))"

definition is_target_step :: "string \<Rightarrow> json \<Rightarrow> bool" where
  "is_target_step target s =
     (case s of
        JObj d \<Rightarrow> jget d ''kind'' = JStr ''targeted_tests'' \<and>
                  (case jget d ''detail'' of JObj x \<Rightarrow> jget x ''target'' = JStr target | _ \<Rightarrow> False)
      | _ \<Rightarrow> False)"

definition target_step :: "jdict \<Rightarrow> string \<Rightarrow> jdict option" where
  "target_step ev target =
     (case jget ev ''steps'' of
        JArr steps \<Rightarrow>
          (case find_row (is_target_step target) steps of Some (JObj d) \<Rightarrow> Some d | _ \<Rightarrow> None)
      | _ \<Rightarrow> None)"

text \<open>A JSON value as the number Python compares it as.\<close>

definition json_number :: "json \<Rightarrow> int option" where
  "json_number v =
     (case v of JInt i \<Rightarrow> Some i | JBool b \<Rightarrow> Some (if b then 1 else 0) | _ \<Rightarrow> None)"

definition classify_guard_outcome ::
  "lesson \<Rightarrow> jdict \<Rightarrow> bool \<Rightarrow> bool \<Rightarrow> guard_outcome \<times> guard_strength \<times> guard_reason \<times> jdict" where
  "classify_guard_outcome l ev overall_passed conflicted =
     (if ls_superseded_by l \<noteq> None then (LessonSupersededBefore, StrengthNone, Superseded, [])
      else if conflicted \<or> ls_status l \<noteq> LActive
        then (GuardNotExercised, StrengthNone, UnderReview (ls_status l), [])
      else case ls_regression_test l of
        None \<Rightarrow> (GuardNotExercised, StrengthNone, NoRegressionTest, [])
      | Some test \<Rightarrow>
         (if test = [] then (GuardNotExercised, StrengthNone, NoRegressionTest, [])
          else case target_step ev test of
            None \<Rightarrow> (GuardNotExercised, StrengthNone, TargetAbsent, [])
          | Some step \<Rightarrow>
             (let detail = (case jget step ''detail'' of JObj x \<Rightarrow> x | _ \<Rightarrow> []);
                  excerpt = keep_keys [''target'', ''returncode'', ''error'', ''timeout_seconds''] detail;
                  rc = json_number (jget detail ''returncode'')
              in if jget step ''passed'' = JBool True
                 then (if overall_passed then (GuardHeld, StrengthDirect, HeldHere, excerpt)
                       else (GuardHeldTaskFailedElsewhere, StrengthPartial, HeldFailedElsewhere, excerpt))
                 else if jget detail ''error'' \<noteq> JNull \<or> rc \<notin> {Some 1, Some 4, Some 5}
                 then (GuardNotExercised, StrengthNone,
                       NoVerdict (jget detail ''error'') (jget detail ''returncode''), excerpt)
                 else if rc \<in> {Some 4, Some 5}
                 then (GuardUnusable, StrengthDirect, TargetUnusable (jget detail ''returncode''), excerpt)
                 else (GuardFailed, StrengthDirect, FailedHere, excerpt))))"

definition guard_observation_row ::
  "time \<Rightarrow> mainai_task \<Rightarrow> jdict \<Rightarrow> bool \<Rightarrow> uuid option \<Rightarrow> uuid set \<Rightarrow> lesson \<Rightarrow> guard_observation" where
  "guard_observation_row now t ev passed job conflicted l =
     (let (out, strength, reason, excerpt) =
            classify_guard_outcome l ev passed (ls_id l \<in> conflicted)
      in \<lparr>go_owner = t_owner t, go_lesson = ls_id l, go_task = t_id t, go_goal = t_goal t, go_job = job,
          go_outcome = out, go_strength = strength, go_reason = reason,
          go_target = ls_regression_test l,
          go_evidence = [(''task_type'', JStr (t_type t)), (''overall_passed'', JBool passed),
                         (''attempts'', JInt (t_attempts t)), (''target_step'', JObj excerpt)],
          go_source_ref = source_ref t job @ ''/lesson:'' @ uuid_str (ls_id l),
          go_observed_at = now\<rparr>)"

text \<open>INSERT ... ON CONFLICT (source_ref) DO NOTHING.\<close>

definition insert_observation ::
  "guard_observation \<Rightarrow> guard_observation list \<Rightarrow> guard_observation list" where
  "insert_observation r rs =
     (if list_ex (\<lambda>x. go_source_ref x = go_source_ref r) rs then rs else rs @ [r])"

definition record_lesson_guard_observations_from_finalize ::
  "time \<Rightarrow> mainai_task \<Rightarrow> jdict \<Rightarrow> bool \<Rightarrow> uuid option \<Rightarrow> db \<Rightarrow> learning \<Rightarrow> learning" where
  "record_lesson_guard_observations_from_finalize now t ev passed job d lrn =
     (case jget ev ''steps'' of
        JArr steps \<Rightarrow>
          (let ids = applied_lesson_ids t d;
               ls = filter (\<lambda>l. ls_id l \<in> set ids) (lrn_lessons lrn);
               rows = map (guard_observation_row now t ev passed job (conflicted_ids ls)) ls
           in lrn\<lparr>lrn_observations := foldl (\<lambda>rs r. insert_observation r rs) (lrn_observations lrn) rows\<rparr>)
      | _ \<Rightarrow> lrn)"

section \<open>What an observation may claim\<close>

lemma target_step_Some:
  assumes "target_step ev target = Some step"
  shows "\<exists>steps x. jget ev ''steps'' = JArr steps \<and> JObj step \<in> set steps \<and>
    jget step ''kind'' = JStr ''targeted_tests'' \<and> jget step ''detail'' = JObj x \<and>
    jget x ''target'' = JStr target"
  using assms unfolding target_step_def
  by (auto simp: is_target_step_def dest!: find_row_SomeD split: json.splits option.splits)

text \<open>A guard observation claims no more than the evidence shows. Whatever the outcome of the task,
  a lesson's guard is reported as held, failed or unusable only if the lesson is active, not
  superseded and not in conflict, and its own regression target is among the steps that ran; held
  means that very step passed (and, without qualification, that the whole verification passed),
  failed means pytest reported failing tests (exit code 1), unusable exit code 4 or 5.\<close>

theorem guard_observation_sound:
  assumes "classify_guard_outcome l ev overall conflicted = (out, strength, reason, excerpt)"
    and "out \<in> {GuardHeld, GuardHeldTaskFailedElsewhere, GuardFailed, GuardUnusable}"
  shows "ls_superseded_by l = None \<and> ls_status l = LActive \<and> \<not> conflicted \<and>
    (\<exists>test steps step x. ls_regression_test l = Some test \<and> jget ev ''steps'' = JArr steps \<and>
       JObj step \<in> set steps \<and> jget step ''detail'' = JObj x \<and> jget x ''target'' = JStr test \<and>
       (jget step ''passed'' = JBool True \<longleftrightarrow> out \<in> {GuardHeld, GuardHeldTaskFailedElsewhere}) \<and>
       (out = GuardHeld \<longrightarrow> overall) \<and> (out = GuardHeldTaskFailedElsewhere \<longrightarrow> \<not> overall) \<and>
       (out = GuardFailed \<longrightarrow> json_number (jget x ''returncode'') = Some 1) \<and>
       (out = GuardUnusable \<longrightarrow> json_number (jget x ''returncode'') \<in> {Some 4, Some 5}))"
proof -
  from assms obtain test step where l: "ls_superseded_by l = None" "ls_status l = LActive" "\<not> conflicted"
    and test: "ls_regression_test l = Some test" "test \<noteq> []" "target_step ev test = Some step"
    unfolding classify_guard_outcome_def by (auto split: if_splits option.splits)
  from target_step_Some [OF test(3)] obtain steps x where x: "jget ev ''steps'' = JArr steps"
    "JObj step \<in> set steps" "jget step ''detail'' = JObj x" "jget x ''target'' = JStr test" by blast
  have "(jget step ''passed'' = JBool True \<longleftrightarrow> out \<in> {GuardHeld, GuardHeldTaskFailedElsewhere}) \<and>
       (out = GuardHeld \<longrightarrow> overall) \<and> (out = GuardHeldTaskFailedElsewhere \<longrightarrow> \<not> overall) \<and>
       (out = GuardFailed \<longrightarrow> json_number (jget x ''returncode'') = Some 1) \<and>
       (out = GuardUnusable \<longrightarrow> json_number (jget x ''returncode'') \<in> {Some 4, Some 5})"
    using assms l test x by (auto simp: classify_guard_outcome_def Let_def split: if_splits)
  with l test(1) x show ?thesis by blast
qed

lemma insert_observations_present:
  "(\<forall>x\<in>set rs. \<exists>y\<in>set (foldl (\<lambda>rs r. insert_observation r rs) rs rows). go_source_ref y = go_source_ref x) \<and>
   (\<forall>x\<in>set rows. \<exists>y\<in>set (foldl (\<lambda>rs r. insert_observation r rs) rs rows). go_source_ref y = go_source_ref x)"
proof (induction rows arbitrary: rs)
  case (Cons r rows)
  have "\<forall>x\<in>set (r # rs). \<exists>y\<in>set (insert_observation r rs). go_source_ref y = go_source_ref x"
    by (auto simp: insert_observation_def list_ex_iff)
  with Cons.IH [of "insert_observation r rs"] show ?case by simp (metis)
qed auto

lemma insert_observations_idle:
  "\<forall>x\<in>set rows. \<exists>y\<in>set rs. go_source_ref y = go_source_ref x \<Longrightarrow>
     foldl (\<lambda>rs r. insert_observation r rs) rs rows = rs"
  by (induction rows) (auto simp: insert_observation_def list_ex_iff)

text \<open>A replayed finalization cannot inflate a lesson's evidence: recording the observations of the
  same task and job again adds nothing.\<close>

theorem guard_observations_idempotent:
  "record_lesson_guard_observations_from_finalize now' t ev passed job d
     (record_lesson_guard_observations_from_finalize now t ev passed job d lrn) =
   record_lesson_guard_observations_from_finalize now t ev passed job d lrn"
proof -
  have ref: "go_source_ref (guard_observation_row n t ev passed job c l) =
      source_ref t job @ ''/lesson:'' @ uuid_str (ls_id l)" for n c l
    by (simp add: guard_observation_row_def split: prod.split)
  have "foldl (\<lambda>rs r. insert_observation r rs)
      (foldl (\<lambda>rs r. insert_observation r rs) os (map (guard_observation_row now t ev passed job c) ls))
      (map (guard_observation_row now' t ev passed job c) ls) =
    foldl (\<lambda>rs r. insert_observation r rs) os (map (guard_observation_row now t ev passed job c) ls)" for os c ls
    by (rule insert_observations_idle)
      (use insert_observations_present [where rows = "map (guard_observation_row now t ev passed job c) ls" and rs = os]
       in \<open>auto simp: ref\<close>)
  then show ?thesis
    by (simp add: record_lesson_guard_observations_from_finalize_def Let_def split: json.split)
qed

theorem guard_observation_sound_witness:
  "\<exists>strength reason excerpt. classify_guard_outcome (sample_lesson 1 ''lease'' ''t/a.py'')
       [(''steps'', JArr [JObj [(''kind'', JStr ''targeted_tests''), (''passed'', JBool True),
          (''detail'', JObj [(''target'', JStr ''t/a.py''), (''returncode'', JInt 0)])]])] True False =
     (GuardHeld, strength, reason, excerpt) \<and> ls_status (sample_lesson 1 ''lease'' ''t/a.py'') = LActive"
proof -
  let ?l = "sample_lesson 1 ''lease'' ''t/a.py''"
  let ?ev = "[(''steps'', JArr [JObj [(''kind'', JStr ''targeted_tests''), (''passed'', JBool True),
          (''detail'', JObj [(''target'', JStr ''t/a.py''), (''returncode'', JInt 0)])]])]"
  have "\<exists>ex. classify_guard_outcome ?l ?ev True False = (GuardHeld, StrengthDirect, HeldHere, ex)"
    by (simp add: classify_guard_outcome_def sample_lesson_def target_step_def is_target_step_def jget_def Let_def)
  with guard_observation_sound show ?thesis by blast
qed

end
