(* ===== verification/Outcome.thy ===== *)
theory Outcome
  imports FinalReport LessonFeedback
begin

text \<open>
  What becomes of a task when an attempt ends: the completion gate, the cooperative cancel and the
  resolution of a CI wait (\<open>app/mainai_execution/execution_job.py\<close>), the resume checkpoints
  (\<open>checkpoint.py\<close>) and the automatic replan (\<open>replan.py\<close>). The lesson tables are the record
  \<open>learning\<close>, threaded beside the database. \<open>t\<close> is the task as the session holds it.
\<close>

section \<open>Checkpoints\<close>

text \<open>\<open>{"job_id": ..., "step": ..., **data}\<close>: a key of \<open>data\<close> overrides.\<close>

definition executor_state :: "uuid \<Rightarrow> string \<Rightarrow> jdict \<Rightarrow> jdict" where
  "executor_state job step data =
     filter (\<lambda>kv. fst kv \<notin> fst ` set data) [(''job_id'', JStr (uuid_str job)), (''step'', JStr step)] @ data"

definition record_checkpoint ::
  "time \<Rightarrow> mainai_task \<Rightarrow> mainai_goal \<Rightarrow> uuid \<Rightarrow> string \<Rightarrow> jdict \<Rightarrow> db \<Rightarrow> db" where
  "record_checkpoint now t g job step data d =
     d\<lparr>checkpoints := checkpoints d @
        [\<lparr>c_goal = t_goal t, c_task = Some (t_id t), c_owner = t_owner t,
          c_plan_version = g_current_plan_version g, c_state = executor_state job step data,
          c_created_at = now\<rparr>]\<rparr>"

definition latest_checkpoint_for_step :: "uuid \<Rightarrow> uuid \<Rightarrow> string \<Rightarrow> db \<Rightarrow> checkpoint option" where
  "latest_checkpoint_for_step tid job step d =
     find_row (\<lambda>c. jget (c_state c) ''job_id'' = JStr (uuid_str job) \<and>
                   jget (c_state c) ''step'' = JStr step)
       (rev (sort_key c_created_at (filter (\<lambda>c. c_task c = Some tid) (checkpoints d))))"

section \<open>After a task boundary\<close>

record outcome_env =
  oe_text :: py_text
  oe_dumps :: "goal_report \<Rightarrow> json"
  oe_jitter :: "int \<Rightarrow> int"
  oe_fresh_lesson :: uuid

definition rollup_goal_after_task_boundary ::
  "outcome_env \<Rightarrow> time \<Rightarrow> mainai_task \<Rightarrow> db \<Rightarrow> error + db" where
  "rollup_goal_after_task_boundary env now t d =
     (let d1 = after_recompute now (t_goal t) d
      in if t_status t \<in> {TFailed, TRetryableFailed} then Inr d1
         else case find_row (\<lambda>g. g_id g = t_goal t \<and> g_owner g = t_owner t) (goals d1) of
                None \<Rightarrow> Inr d1
              | Some g \<Rightarrow> sbind (record_final_report (oe_dumps env) now g d1) (\<lambda>(d2, rep). Inr d2))"

definition cancelled_cooperatively :: "time \<Rightarrow> mainai_task \<Rightarrow> mainai_task" where
  "cancelled_cooperatively now t =
     t\<lparr>t_status := TCancelled, t_completed_at := Some now, t_next_retry_at := None\<rparr>"

definition finalize_cancelled_task ::
  "outcome_env \<Rightarrow> time \<Rightarrow> mainai_task \<Rightarrow> string \<Rightarrow> db \<Rightarrow> error + db" where
  "finalize_cancelled_task env now t reason d =
     sbind (write_task (t_id t) (cancelled_cooperatively now)
              [task_event_row now t TeCancelling [(''reason'', JStr reason)],
               task_event_row now t TeCancelled [(''reason'', JStr reason)]] d) (\<lambda>d1.
       rollup_goal_after_task_boundary env now (cancelled_cooperatively now t) d1)"

section \<open>The completion gate\<close>

definition task_retry_base_seconds :: int where "task_retry_base_seconds = 30"

definition task_retry_cap_seconds :: int where "task_retry_cap_seconds = 900"

definition cancel_was_requested :: "mainai_task \<Rightarrow> db \<Rightarrow> bool" where
  "cancel_was_requested t d \<longleftrightarrow>
     (case job_of_task d t of None \<Rightarrow> False | Some j \<Rightarrow> j_cancel_requested j)"

definition completed_task :: "time \<Rightarrow> mainai_task \<Rightarrow> mainai_task" where
  "completed_task now t =
     t\<lparr>t_status := TCompleted, t_completed_at := Some now, t_next_retry_at := None\<rparr>"

text \<open>\<open>oe_jitter\<close> draws from 0 to the ceiling it is given.\<close>

definition failed_attempt :: "outcome_env \<Rightarrow> time \<Rightarrow> mainai_task \<Rightarrow> mainai_task" where
  "failed_attempt env now t =
     (if t_attempts t < t_max_attempts t
      then t\<lparr>t_status := TRetryableFailed, 
             t_next_retry_at := Some (now + oe_jitter env
               (backoff_ceiling (t_attempts t) task_retry_base_seconds task_retry_cap_seconds))\<rparr>
      else t\<lparr>t_status := TFailed, t_completed_at := Some now, t_next_retry_at := None\<rparr>)"

definition observe_and_roll_up ::
  "outcome_env \<Rightarrow> time \<Rightarrow> mainai_task \<Rightarrow> bool \<Rightarrow> jdict \<Rightarrow> uuid option \<Rightarrow> db \<times> learning \<Rightarrow>
   error + (db \<times> learning)" where
  "observe_and_roll_up env now t passed ev job = (\<lambda>(d, lrn).
     sbind (rollup_goal_after_task_boundary env now t d) (\<lambda>d1.
       Inr (d1, record_lesson_guard_observations_from_finalize now t ev passed job d lrn)))"

definition finalize_task_outcome ::
  "outcome_env \<Rightarrow> time \<Rightarrow> mainai_task \<Rightarrow> bool \<Rightarrow> jdict \<Rightarrow> uuid option \<Rightarrow> db \<times> learning \<Rightarrow>
   error + (db \<times> learning)" where
  "finalize_task_outcome env now t passed ev job = (\<lambda>(d, lrn).
     let verdict = task_event_row now t (if passed then TeVerificationPassed else TeVerificationFailed) ev
     in if passed
        then
          (let d0 = d\<lparr>task_events := task_events d @ [verdict]\<rparr>
           in if t_status t = TCancelled then Inr (d0, lrn)
              else if cancel_was_requested t d0
              then sbind (finalize_cancelled_task env now t ''cancel_requested_beats_success_finalize'' d0)
                     (\<lambda>d1. Inr (d1, lrn))
              else sbind (write_task (t_id t) (completed_task now)
                            [verdict, task_event_row now t TeCompleted ev] d) (\<lambda>d1.
                     observe_and_roll_up env now (completed_task now t) passed ev job (d1, lrn)))
        else
          sbind (write_task (t_id t) (failed_attempt env now)
                   [verdict, task_event_row now t TeFailed ev] d) (\<lambda>d1.
          sbind (if t_attempts t < t_max_attempts t then Inr (lrn_lessons lrn)
                 else maybe_record_lesson_from_exhausted_verification (oe_text env) now
                        (oe_fresh_lesson env) t ev job (lrn_lessons lrn)) (\<lambda>ls.
            observe_and_roll_up env now (failed_attempt env now t) passed ev job
              (d1, lrn\<lparr>lrn_lessons := ls\<rparr>))))"

section \<open>A resolved CI wait\<close>

definition find_wait :: "uuid \<Rightarrow> db \<Rightarrow> task_wait option" where
  "find_wait wid d = find_row (\<lambda>w. w_id w = wid) (task_waits d)"

fun wait_status_value :: "wait_status \<Rightarrow> string" where
  "wait_status_value WPending = ''pending''"
| "wait_status_value WSatisfied = ''satisfied''"
| "wait_status_value WFailed = ''failed''"
| "wait_status_value WTimedOut = ''timed_out''"
| "wait_status_value WCancelled = ''cancelled''"

definition fold_wait_outcome ::
  "outcome_env \<Rightarrow> time \<Rightarrow> mainai_task \<Rightarrow> task_wait \<Rightarrow> db \<times> learning \<Rightarrow> error + (db \<times> learning)" where
  "fold_wait_outcome env now t w = (\<lambda>(d, lrn).
     let note = (\<lambda>ty. d\<lparr>task_events := task_events d @ [task_event_row now t ty (w_evidence w)]\<rparr>);
         ev = [(''ci_wait'', JObj (w_evidence w))]
     in if w_status w = WSatisfied
        then finalize_task_outcome env now t True ev None (note TeWaitSatisfied, lrn)
        else if w_status w = WTimedOut
        then finalize_task_outcome env now t False (ev @ [(''reason'', JStr ''timed_out'')]) None
               (note TeWaitTimedOut, lrn)
        else finalize_task_outcome env now t False ev None (note TeWaitFailed, lrn))"

definition resume_waiting_ci_task ::
  "outcome_env \<Rightarrow> time \<Rightarrow> int \<Rightarrow> github_api \<Rightarrow> task_wait \<Rightarrow> db \<times> learning \<Rightarrow> error + (db \<times> learning)" where
  "resume_waiting_ci_task env now jitter gh w = (\<lambda>(d, lrn).
     sbind (lock_task (w_task w) d) (\<lambda>t.
       if t_status t \<noteq> TWaitingCi then Inr (d, lrn)
       else
         let d1 = poll_ci_wait now jitter gh (w_id w) d;
             w1 = polled now jitter gh w
         in if w_status w1 = WPending then Inr (d1, lrn)
            else
              sbind (fold_wait_outcome env now t w1 (d1, lrn)) (\<lambda>(d2, lrn2).
                case find_row (\<lambda>g. g_id g = t_goal t) (goals d2) of
                  None \<Rightarrow> Inr (d2, lrn2)
                | Some g \<Rightarrow>
                    Inr (record_checkpoint now t g (w_job w1) ''ci_wait_resolved''
                           [(''wait_status'', JStr (wait_status_value (w_status w1)))] d2, lrn2))))"

section \<open>Automatic replan\<close>

definition max_auto_replans :: int where "max_auto_replans = 3"

definition find_replan_trigger :: "mainai_goal \<Rightarrow> db \<Rightarrow> error + mainai_task option" where
  "find_replan_trigger g d =
     (if max_auto_replans \<le> g_current_plan_version g - 1 then Inr None
      else sbind (previous_active (g_id g) d) (\<lambda>plan.
        case plan of
          None \<Rightarrow> Inr None
        | Some p \<Rightarrow>
            Inr (first_min (\<lambda>t. case t_completed_at t of None \<Rightarrow> (1, 0) | Some c \<Rightarrow> (0 :: int, c))
                   (filter (\<lambda>t. t_plan t = pl_id p \<and> t_status t = TFailed) (tasks d)))))"

text \<open>\<open>proposal\<close> is the answer of \<open>propose_plan_via_ai\<close>: the parsed specifications, provider and model.\<close>

definition trigger_replan ::
  "time \<Rightarrow> uuid \<Rightarrow> (nat \<Rightarrow> uuid) \<Rightarrow> lesson list \<Rightarrow> mainai_goal \<Rightarrow> mainai_task \<Rightarrow> string \<Rightarrow>
   planned_task list \<times> string \<times> string \<Rightarrow> db \<Rightarrow> error + (db \<times> mainai_plan)" where
  "trigger_replan now pid fresh lessons g failed dispatched_by = (\<lambda>(specs, provider, model) d.
     sbind (create_plan now pid fresh lessons (g_id g)
              (''Automatic replan after task '' @ uuid_str (t_id failed) @ '' ('' @ t_type failed @
               '') failed permanently: '' @ take 200 (t_description failed)) specs dispatched_by d)
       (\<lambda>(d1, p).
          Inr (d1\<lparr>task_events := task_events d1 @
                    [task_event_row now failed TeReplanned
                       [(''new_plan_version'', JInt (pl_version p)), (''provider'', JStr provider),
                        (''model'', JStr model)]]\<rparr>, p)))"

section \<open>What the gate lets through\<close>

lemma rollup_frame:
  assumes "rollup_goal_after_task_boundary env now t d = Inr d'"
  shows "tasks d' = tasks (after_recompute now (t_goal t) d) \<and> jobs d' = jobs d \<and>
    (t_status t \<in> {TFailed, TRetryableFailed} \<longrightarrow> goals d' = goals d)"
proof -
  have rep: "tasks d2 = tasks d1 \<and> jobs d2 = jobs d1"
    if "record_final_report dumps now g d1 = Inr (d2, rep)" for dumps g d1 d2 rep
    using that unfolding record_final_report_def write_goal_def
    by (auto elim!: sbind_InrE simp: Let_def split: if_splits)
  show ?thesis
    using assms unfolding rollup_goal_after_task_boundary_def
    by (auto elim!: sbind_InrE simp: Let_def split: if_splits option.splits dest!: rep)
qed

lemma write_task_row:
  assumes "write_task tid f evs d = Inr d1" and "t \<in> set (tasks d)" and "t_id t = tid"
  shows "f t \<in> set (tasks d1) \<and> task_checks (f t) \<and> jobs d1 = jobs d \<and> goals d1 = goals d"
  using assms by (auto simp: write_task_def in_update_rows_iff list_all_iff split: if_splits)

lemma rollup_keeps_row:
  assumes "rollup_goal_after_task_boundary env now s d = Inr d'" and "t \<in> set (tasks d)"
    and "t_status t \<noteq> TPending"
  shows "t \<in> set (tasks d')"
  using rollup_frame [OF assms(1)] recompute_keeps [OF assms(2,3), of now "t_goal s"] by simp

lemma observations_keep_lessons [simp]:
  "lrn_lessons (record_lesson_guard_observations_from_finalize now t ev passed job d lrn) = lrn_lessons lrn"
  by (simp add: record_lesson_guard_observations_from_finalize_def Let_def split: json.split)

lemma failed_attempt_status: "t_status (failed_attempt env now t) \<in> {TFailed, TRetryableFailed}"
  by (simp add: failed_attempt_def)

lemma finalize_failed_InrE:
  assumes "finalize_task_outcome env now t False ev job (d, lrn) = Inr (d', lrn')"
  obtains d1 ls where "write_task (t_id t) (failed_attempt env now)
      [task_event_row now t TeVerificationFailed ev, task_event_row now t TeFailed ev] d = Inr d1"
    and "rollup_goal_after_task_boundary env now (failed_attempt env now t) d1 = Inr d'"
    and "lrn_lessons lrn' = ls" and "t_attempts t < t_max_attempts t \<longrightarrow> ls = lrn_lessons lrn"
  using assms unfolding finalize_task_outcome_def observe_and_roll_up_def
  by (auto elim!: sbind_InrE simp: Let_def split: if_splits)

lemma finalize_passed_InrE:
  assumes "finalize_task_outcome env now t True ev job (d, lrn) = Inr (d', lrn')"
  obtains (cancelled) "t_status t = TCancelled" "tasks d' = tasks d" "jobs d' = jobs d" "lrn' = lrn"
  | (cancel) "t_status t \<noteq> TCancelled" "cancel_was_requested t d" "lrn' = lrn"
      "finalize_cancelled_task env now t ''cancel_requested_beats_success_finalize''
         (d\<lparr>task_events := task_events d @ [task_event_row now t TeVerificationPassed ev]\<rparr>) = Inr d'"
  | (completed) d1 where "t_status t \<noteq> TCancelled" "\<not> cancel_was_requested t d"
      "write_task (t_id t) (completed_task now)
         [task_event_row now t TeVerificationPassed ev, task_event_row now t TeCompleted ev] d = Inr d1"
      "rollup_goal_after_task_boundary env now (completed_task now t) d1 = Inr d'"
      "lrn_lessons lrn' = lrn_lessons lrn"
proof -
  have same: "cancel_was_requested t (d\<lparr>task_events := es\<rparr>) = cancel_was_requested t d" for es
    by (cases "t_job t") (simp_all add: cancel_was_requested_def job_of_task_def)
  show thesis
    using assms that unfolding finalize_task_outcome_def observe_and_roll_up_def Let_def
    by (auto elim!: sbind_InrE simp: same split: if_splits)
qed

lemma finalize_outcome_row:
  assumes "t \<in> set (tasks d)"
    and "finalize_task_outcome env now t passed ev job (d, lrn) = Inr (d', lrn')"
    and "\<And>c. 0 \<le> c \<Longrightarrow> 0 \<le> oe_jitter env c \<and> oe_jitter env c \<le> c"
  shows "(\<exists>t'\<in>set (tasks d'). t_id t' = t_id t \<and>
      (if passed then
         (if t_status t = TCancelled then t' = t
          else if cancel_was_requested t d then t_status t' = TCancelled \<and> t_attempts t' = t_attempts t
          else t_status t' = TCompleted \<and> t_completed_at t' = Some now)
       else if t_attempts t < t_max_attempts t
       then t_status t' = TRetryableFailed \<and>
         (\<exists>s. t_next_retry_at t' = Some s \<and> now \<le> s \<and> s \<le> now + 900)
       else t_status t' = TFailed \<and> t_completed_at t' = Some now)) \<and>
    jobs d' = jobs d \<and> (\<not> passed \<longrightarrow> goals d' = goals d) \<and>
    (passed \<or> t_attempts t < t_max_attempts t \<longrightarrow> lrn_lessons lrn' = lrn_lessons lrn)"
proof (cases passed)
  case True
  from assms(2) have "finalize_task_outcome env now t True ev job (d, lrn) = Inr (d', lrn')"
    using True by simp
  then show ?thesis
  proof (cases rule: finalize_passed_InrE)
    case cancelled
    with assms(1) True show ?thesis by auto
  next
    case cancel
    let ?d1 = "d\<lparr>task_events := task_events d @ [task_event_row now t TeVerificationPassed ev]\<rparr>"
    from cancel(4) obtain d2 where w: "write_task (t_id t) (cancelled_cooperatively now)
        [task_event_row now t TeCancelling [(''reason'', JStr ''cancel_requested_beats_success_finalize'')],
         task_event_row now t TeCancelled [(''reason'', JStr ''cancel_requested_beats_success_finalize'')]] ?d1 = Inr d2"
      and r: "rollup_goal_after_task_boundary env now (cancelled_cooperatively now t) d2 = Inr d'"
      unfolding finalize_cancelled_task_def by (auto elim!: sbind_InrE)
    have row: "cancelled_cooperatively now t \<in> set (tasks d2) \<and> jobs d2 = jobs d"
      using write_task_row [OF w, of t] assms(1) cancel by simp
    with rollup_keeps_row [OF r] have "cancelled_cooperatively now t \<in> set (tasks d')"
      by (simp add: cancelled_cooperatively_def)
    with rollup_frame [OF r] row cancel True show ?thesis
      by (intro conjI bexI [of _ "cancelled_cooperatively now t"]) (simp_all add: cancelled_cooperatively_def)
  next
    case (completed d1)
    have row: "completed_task now t \<in> set (tasks d1) \<and> jobs d1 = jobs d"
      using write_task_row [OF completed(3) assms(1)] by simp
    with rollup_keeps_row [OF completed(4)] have "completed_task now t \<in> set (tasks d')"
      by (simp add: completed_task_def)
    with rollup_frame [OF completed(4)] row completed True show ?thesis
      by (intro conjI bexI [of _ "completed_task now t"]) (simp_all add: completed_task_def)
  qed
next
  case False
  from assms(2) have "finalize_task_outcome env now t False ev job (d, lrn) = Inr (d', lrn')"
    using False by simp
  then obtain d1 ls where w: "write_task (t_id t) (failed_attempt env now)
      [task_event_row now t TeVerificationFailed ev, task_event_row now t TeFailed ev] d = Inr d1"
    and r: "rollup_goal_after_task_boundary env now (failed_attempt env now t) d1 = Inr d'"
    and ls: "lrn_lessons lrn' = ls" "t_attempts t < t_max_attempts t \<longrightarrow> ls = lrn_lessons lrn"
    by (rule finalize_failed_InrE)
  have row: "failed_attempt env now t \<in> set (tasks d1) \<and> jobs d1 = jobs d \<and> goals d1 = goals d"
    using write_task_row [OF w assms(1)] by simp
  have "t_status (failed_attempt env now t) \<noteq> TPending"
    using failed_attempt_status [of env now t] by auto
  with rollup_keeps_row [OF r] row have mem: "failed_attempt env now t \<in> set (tasks d')" by simp
  have ceil: "0 \<le> backoff_ceiling (t_attempts t) task_retry_base_seconds task_retry_cap_seconds"
    "backoff_ceiling (t_attempts t) task_retry_base_seconds task_retry_cap_seconds \<le> 900"
    by (simp_all add: backoff_ceiling_def task_retry_base_seconds_def task_retry_cap_seconds_def)
  have "0 \<le> oe_jitter env (backoff_ceiling (t_attempts t) task_retry_base_seconds task_retry_cap_seconds) \<and>
      oe_jitter env (backoff_ceiling (t_attempts t) task_retry_base_seconds task_retry_cap_seconds) \<le> 900"
    using assms(3) ceil order_trans by blast
  then have shape: "t_id (failed_attempt env now t) = t_id t \<and>
      (if t_attempts t < t_max_attempts t
       then t_status (failed_attempt env now t) = TRetryableFailed \<and>
         (\<exists>s. t_next_retry_at (failed_attempt env now t) = Some s \<and> now \<le> s \<and> s \<le> now + 900)
       else t_status (failed_attempt env now t) = TFailed \<and> t_completed_at (failed_attempt env now t) = Some now)"
    by (simp add: failed_attempt_def)
  from mem shape rollup_frame [OF r] failed_attempt_status [of env now t] row ls False show ?thesis
    by auto
qed

text \<open>C14: nothing but a passed verification completes a task. When an attempt of a stored task is
  finalized, the task's row becomes completed exactly if the verification passed, the task was not
  cancelled and nobody had asked to cancel its job; a requested cancel beats a success; a failure
  goes back for a retry within the backoff bound while attempts are left and fails for good after
  that, and in neither case is the goal closed, so that a replan can still act on it. No job
  changes, and a lesson is recorded only for a final failure.\<close>

theorem completion_gate:
  assumes "t \<in> set (tasks d)"
    and "finalize_task_outcome env now t passed ev job (d, lrn) = Inr (d', lrn')"
    and "\<And>c. 0 \<le> c \<Longrightarrow> 0 \<le> oe_jitter env c \<and> oe_jitter env c \<le> c"
  shows "(\<exists>t'\<in>set (tasks d'). t_id t' = t_id t \<and>
      (if passed then
         (if t_status t = TCancelled then t' = t
          else if cancel_was_requested t d then t_status t' = TCancelled \<and> t_attempts t' = t_attempts t
          else t_status t' = TCompleted \<and> t_completed_at t' = Some now)
       else if t_attempts t < t_max_attempts t
       then t_status t' = TRetryableFailed \<and>
         (\<exists>s. t_next_retry_at t' = Some s \<and> now \<le> s \<and> s \<le> now + 900)
       else t_status t' = TFailed \<and> t_completed_at t' = Some now)) \<and>
    jobs d' = jobs d \<and> (\<not> passed \<longrightarrow> goals d' = goals d) \<and>
    (passed \<or> t_attempts t < t_max_attempts t \<longrightarrow> lrn_lessons lrn' = lrn_lessons lrn)"
  by (rule finalize_outcome_row [OF assms])

text \<open>A late failure of a cancelled task is refused by the table, not recorded. If a replan or a
  cancel has ended the task while its worker was still running and attempts are left, finalizing
  the failed attempt violates the check that only ended tasks carry a completion time.\<close>

theorem late_failure_rejected:
  assumes "tasks_ok d" and "t \<in> set (tasks d)" and "t_status t \<in> terminal_task_statuses"
    and "t_attempts t < t_max_attempts t"
  shows "finalize_task_outcome env now t False ev job (d, lrn) = Inl CheckViolation"
proof -
  have "t_completed_at t \<noteq> None" using assms(1-3) by (auto simp: tasks_ok_def task_checks_def)
  then have "\<not> task_checks (failed_attempt env now t)"
    using assms(4) by (simp add: failed_attempt_def task_checks_def terminal_task_statuses_def)
  moreover have "lock_task (t_id t) d = Inr t" by (rule lock_task_of [OF assms(1,2)])
  ultimately show ?thesis
    using write_task_locked [OF assms(1), of "t_id t" t] by (simp add: finalize_task_outcome_def)
qed

text \<open>A CI wait decides its task once, and green only on a satisfied wait. Resuming a task that no
  longer waits changes nothing. Otherwise the wait is polled, and the task stays as it is while the
  wait is pending, is completed (or cancelled, if its job was asked to cancel) when the wait is
  satisfied, and takes the failure path when it failed or timed out.\<close>

theorem resume_waiting_exact:
  assumes "tasks_ok d" and "t \<in> set (tasks d)" and "w_task w = t_id t"
    and "resume_waiting_ci_task env now jitter gh w (d, lrn) = Inr (d', lrn')"
    and "\<And>c. 0 \<le> c \<Longrightarrow> 0 \<le> oe_jitter env c \<and> oe_jitter env c \<le> c"
  shows "(t_status t \<noteq> TWaitingCi \<longrightarrow> d' = d \<and> lrn' = lrn) \<and>
    (t_status t = TWaitingCi \<longrightarrow>
      (\<exists>t'\<in>set (tasks d'). t_id t' = t_id t \<and>
         (case w_status (polled now jitter gh w) of
            WPending \<Rightarrow> t' = t
          | WSatisfied \<Rightarrow> t_status t' = (if cancel_was_requested t d then TCancelled else TCompleted)
          | _ \<Rightarrow> t_status t' = (if t_attempts t < t_max_attempts t then TRetryableFailed else TFailed))))"
proof -
  let ?w = "polled now jitter gh w" and ?d1 = "poll_ci_wait now jitter gh (w_id w) d"
  have lock: "lock_task (w_task w) d = Inr t" using lock_task_of [OF assms(1,2)] assms(3) by simp
  have d1: "tasks ?d1 = tasks d" "jobs ?d1 = jobs d" by (simp_all add: poll_ci_wait_def)
  have cr: "cancel_was_requested t (?d1\<lparr>task_events := es\<rparr>) = cancel_was_requested t d" for es
    by (cases "t_job t") (simp_all add: cancel_was_requested_def job_of_task_def d1)
  show ?thesis
  proof (cases "t_status t = TWaitingCi \<and> w_status ?w \<noteq> WPending")
    case False
    with assms(2,4) d1 show ?thesis
      unfolding resume_waiting_ci_task_def by (auto simp: lock Let_def)
  next
    case True
    with assms(4) obtain d2 where fold: "fold_wait_outcome env now t ?w (?d1, lrn) = Inr (d2, lrn')"
      and d': "tasks d' = tasks d2"
      unfolding resume_waiting_ci_task_def
      by (auto elim!: sbind_InrE simp: lock Let_def record_checkpoint_def split: option.splits)
    from fold obtain es ev where fin: "finalize_task_outcome env now t (w_status ?w = WSatisfied) ev None
        (?d1\<lparr>task_events := es\<rparr>, lrn) = Inr (d2, lrn')"
      unfolding fold_wait_outcome_def by (auto simp: Let_def split: if_splits)
    have mem: "t \<in> set (tasks (?d1\<lparr>task_events := es\<rparr>))" using assms(2) d1 by simp
    from finalize_outcome_row [OF mem fin assms(5)] obtain t' where
      t': "t' \<in> set (tasks d2)" "t_id t' = t_id t"
      "if w_status ?w = WSatisfied
       then if t_status t = TCancelled then t' = t
            else if cancel_was_requested t d then t_status t' = TCancelled \<and> t_attempts t' = t_attempts t
            else t_status t' = TCompleted \<and> t_completed_at t' = Some now
       else if t_attempts t < t_max_attempts t
       then t_status t' = TRetryableFailed \<and> (\<exists>s. t_next_retry_at t' = Some s \<and> now \<le> s \<and> s \<le> now + 900)
       else t_status t' = TFailed \<and> t_completed_at t' = Some now"
      unfolding cr by blast
    have "case w_status ?w of WPending \<Rightarrow> t' = t
        | WSatisfied \<Rightarrow> t_status t' = (if cancel_was_requested t d then TCancelled else TCompleted)
        | _ \<Rightarrow> t_status t' = (if t_attempts t < t_max_attempts t then TRetryableFailed else TFailed)"
      using t'(3) True by (cases "w_status ?w") (auto split: if_splits)
    with t'(1,2) d' have "\<exists>t'\<in>set (tasks d'). t_id t' = t_id t \<and>
        (case w_status ?w of WPending \<Rightarrow> t' = t
         | WSatisfied \<Rightarrow> t_status t' = (if cancel_was_requested t d then TCancelled else TCompleted)
         | _ \<Rightarrow> t_status t' = (if t_attempts t < t_max_attempts t then TRetryableFailed else TFailed))"
      by (intro bexI [of _ t'] conjI) (simp_all only:)
    with True show ?thesis by blast
  qed
qed

section \<open>The statements at work\<close>

definition sample_env :: outcome_env where
  "sample_env =
     \<lparr>oe_text = \<lparr>txt_str = (\<lambda>j. ''text''), txt_repr = (\<lambda>j. ''text'')\<rparr>, oe_dumps = (\<lambda>r. JNull),
      oe_jitter = (\<lambda>c. max 0 c div 2), oe_fresh_lesson = 77\<rparr>"

definition sample_learning :: learning where
  "sample_learning = \<lparr>lrn_lessons = [], lrn_observations = []\<rparr>"

definition one_task_db :: "task_status \<Rightarrow> db" where
  "one_task_db s = empty_db\<lparr>tasks := [sample_task 1 s]\<rparr>"

lemma sample_jitter: "0 \<le> oe_jitter sample_env c \<and> oe_jitter sample_env c \<le> c" if "0 \<le> c"
  using that by (simp add: sample_env_def)

lemma one_task_ok: "tasks_ok (one_task_db s)"
  by (simp add: tasks_ok_def unique_key_def one_task_db_def sample_task_def task_checks_def empty_db_def)

lemma failed_attempt_runs:
  "\<exists>d' lrn'. finalize_task_outcome sample_env 9 (sample_task 1 TRunning) False [] None
     (one_task_db TRunning, sample_learning) = Inr (d', lrn')"
  by (simp add: finalize_task_outcome_def one_task_db_def write_task_def sample_task_def failed_attempt_def
      task_checks_def terminal_task_statuses_def empty_db_def observe_and_roll_up_def
      rollup_goal_after_task_boundary_def Let_def)

theorem completion_gate_witness:
  "\<exists>d' lrn' t' s. finalize_task_outcome sample_env 9 (sample_task 1 TRunning) False [] None
     (one_task_db TRunning, sample_learning) = Inr (d', lrn') \<and> t' \<in> set (tasks d') \<and> t_id t' = 1 \<and>
     t_status t' = TRetryableFailed \<and> t_next_retry_at t' = Some s \<and> s \<le> 909"
proof -
  obtain d' lrn' where f: "finalize_task_outcome sample_env 9 (sample_task 1 TRunning) False [] None
     (one_task_db TRunning, sample_learning) = Inr (d', lrn')"
    using failed_attempt_runs by blast
  have "sample_task 1 TRunning \<in> set (tasks (one_task_db TRunning))" by (simp add: one_task_db_def)
  from completion_gate [OF this f sample_jitter] f show ?thesis
    by (auto simp: sample_task_def)
qed

theorem late_failure_rejected_witness:
  "finalize_task_outcome sample_env 9 (sample_task 1 TCancelled) False [] None
     (one_task_db TCancelled, sample_learning) = Inl CheckViolation"
  by (rule late_failure_rejected [OF one_task_ok])
    (simp_all add: one_task_db_def sample_task_def terminal_task_statuses_def)

lemma resume_runs:
  "\<exists>d' lrn'. resume_waiting_ci_task sample_env 20 3
     (answering (Inr [[(''status'', JStr ''completed''), (''conclusion'', JStr ''success'')]])) sample_wait
     (one_task_db TWaitingCi, sample_learning) = Inr (d', lrn')"
  by (simp add: resume_waiting_ci_task_def sample_wait_def polled_def poll_answer_def answering_def
      evaluate_check_runs_def passing_conclusions_def lock_task_def poll_ci_wait_def fold_wait_outcome_def
      finalize_task_outcome_def one_task_db_def write_task_def sample_task_def completed_task_def
      cancel_was_requested_def job_of_task_def
      task_checks_def terminal_task_statuses_def empty_db_def observe_and_roll_up_def jget_def
      rollup_goal_after_task_boundary_def Let_def)

theorem resume_waiting_exact_witness:
  "\<exists>d' lrn' t'. resume_waiting_ci_task sample_env 20 3
     (answering (Inr [[(''status'', JStr ''completed''), (''conclusion'', JStr ''success'')]])) sample_wait
     (one_task_db TWaitingCi, sample_learning) = Inr (d', lrn') \<and> t' \<in> set (tasks d') \<and>
     t_status t' = TCompleted"
proof -
  obtain d' lrn' where f: "resume_waiting_ci_task sample_env 20 3
     (answering (Inr [[(''status'', JStr ''completed''), (''conclusion'', JStr ''success'')]])) sample_wait
     (one_task_db TWaitingCi, sample_learning) = Inr (d', lrn')"
    using resume_runs by blast
  have m: "sample_task 1 TWaitingCi \<in> set (tasks (one_task_db TWaitingCi))"
    "w_task sample_wait = t_id (sample_task 1 TWaitingCi)"
    by (simp_all add: one_task_db_def sample_wait_def sample_task_def)
  have w: "w_status (polled 20 3
     (answering (Inr [[(''status'', JStr ''completed''), (''conclusion'', JStr ''success'')]])) sample_wait) = WSatisfied"
    by (simp add: sample_wait_def polled_def poll_answer_def answering_def Let_def jget_def
        evaluate_check_runs_def passing_conclusions_def)
  have c: "\<not> cancel_was_requested (sample_task 1 TWaitingCi) (one_task_db TWaitingCi)"
    "t_status (sample_task 1 TWaitingCi) = TWaitingCi"
    by (simp_all add: cancel_was_requested_def job_of_task_def sample_task_def)
  from resume_waiting_exact [OF one_task_ok m f sample_jitter] f w c show ?thesis by auto
qed

section \<open>Automatic replans end\<close>

text \<open>
  What happens to a goal \<open>gid\<close> between two states in which the worker replanned it \<open>n\<close> times: replans
  that the trigger asked for, and anything else that does not lower its plan version (a replan by
  hand raises it).
\<close>

inductive auto_replanned :: "uuid \<Rightarrow> nat \<Rightarrow> db \<Rightarrow> db \<Rightarrow> bool" for gid where
  none: "auto_replanned gid 0 d d"
| other: "auto_replanned gid n d d1 \<Longrightarrow>
    \<forall>h\<in>set (goals d2). g_id h = gid \<longrightarrow>
      (\<exists>g\<in>set (goals d1). g_id g = gid \<and> g_current_plan_version g \<le> g_current_plan_version h) \<Longrightarrow>
    auto_replanned gid n d d2"
| replan: "auto_replanned gid n d d1 \<Longrightarrow> g \<in> set (goals d1) \<Longrightarrow> g_id g = gid \<Longrightarrow>
    find_replan_trigger g d1 = Inr (Some t) \<Longrightarrow>
    trigger_replan now pid fresh lessons g t who proposal d1 = Inr (d2, p) \<Longrightarrow>
    auto_replanned gid (Suc n) d d2"

lemma find_replan_trigger_SomeD:
  assumes "find_replan_trigger g d = Inr (Some t)"
  shows "g_current_plan_version g \<le> 3 \<and> t \<in> set (tasks d) \<and> t_status t = TFailed \<and>
    (\<exists>p\<in>set (plans d). pl_goal p = g_id g \<and> pl_status p = PlanActive \<and> t_plan t = pl_id p)"
proof -
  from assms obtain p where v: "g_current_plan_version g \<le> 3"
    and p: "previous_active (g_id g) d = Inr (Some p)"
    and t: "t \<in> set (filter (\<lambda>t. t_plan t = pl_id p \<and> t_status t = TFailed) (tasks d))"
    unfolding find_replan_trigger_def max_auto_replans_def
    by (auto elim!: sbind_InrE split: if_splits option.splits dest!: first_min_in)
  from previous_active_Inr [OF p] v t show ?thesis by (auto simp: filter_eq_Cons_iff)
qed

lemma trigger_replan_version:
  assumes "trigger_replan now pid fresh lessons g t who proposal d = Inr (d', p)"
  shows "\<exists>g'\<in>set (goals d). g_id g' = g_id g \<and>
    (\<forall>h\<in>set (goals d'). g_id h = g_id g \<longrightarrow> g_current_plan_version h = g_current_plan_version g' + 1)"
proof -
  from assms obtain d1 rationale sps where c: "create_plan now pid fresh lessons (g_id g) rationale sps who d = Inr (d1, p)"
    and g: "goals d' = goals d1"
    unfolding trigger_replan_def by (auto elim!: sbind_InrE split: prod.splits)
  from c obtain g' where g': "g' \<in> set (goals d)" "g_id g' = g_id g"
    and pp: "persist_plan now pid fresh lessons g' rationale sps who d = Inr (d1, p)" by (rule create_plan_InrE)
  from pp obtain d5 where "d1 = after_recompute now (g_id g') d5"
    and "pl_version p = g_current_plan_version g' + 1"
    and "\<forall>h\<in>set (goals d5). g_id h = g_id g' \<longrightarrow> g_current_plan_version h = pl_version p"
    by (rule persist_plan_InrE) auto
  with g' g show ?thesis by auto
qed

lemma auto_replanned_version:
  assumes "auto_replanned gid n d d'" and "\<forall>g\<in>set (goals d). g_id g = gid \<longrightarrow> v \<le> g_current_plan_version g"
    and "v \<le> 4"
  shows "v + int n \<le> 4 \<and> (\<forall>g\<in>set (goals d'). g_id g = gid \<longrightarrow> v + int n \<le> g_current_plan_version g)"
  using assms
proof (induction rule: auto_replanned.induct)
  case (other n d d1 d2)
  with other(3) [OF other(4,5)] show ?case by (meson order_trans)
next
  case (replan n d d1 g t now pid fresh lessons who proposal d2 p)
  note ih = replan(6) [OF replan(7,8)]
  from find_replan_trigger_SomeD [OF replan(4)] ih replan(2,3) have "v + int n \<le> 3" by fastforce
  moreover from trigger_replan_version [OF replan(5)] ih replan(3)
  have "\<forall>h\<in>set (goals d2). g_id h = gid \<longrightarrow> v + int (Suc n) \<le> g_current_plan_version h" by fastforce
  ultimately show ?case by simp
qed simp


definition failed_plan_db :: db where
  "failed_plan_db = empty_db\<lparr>goals := [sample_goal],
     plans := [\<lparr>pl_id = 30, pl_goal = 20, pl_owner = 7, pl_version = 1, pl_status = PlanActive,
       pl_rationale = ''why'', pl_created_by = ''ai''\<rparr>],
     tasks := [(sample_task 50 TFailed)\<lparr>t_attempts := 3\<rparr>]\<rparr>"

lemma failed_plan_replans:
  "\<exists>d' p. trigger_replan 9 31 sample_ids [] sample_goal ((sample_task 50 TFailed)\<lparr>t_attempts := 3\<rparr>) ''worker''
     (sample_specs, ''p'', ''m'') failed_plan_db = Inr (d', p)"
  by (simp add: trigger_replan_def create_plan_def sample_specs_cycle)
    (simp add: sample_specs_def sample_spec_def validate_plan_def check_spec_def known_task_types_def
      get_goal_def failed_plan_db_def sample_goal_def empty_db_def persist_plan_def Let_def previous_active_def
      insert_plan_def insert_tasks_def planned_row_def sample_ids_def apply_lessons_to_verification_plan_def
      lookup_lessons_def task_checks_def terminal_task_statuses_def insert_dependencies_def
      planned_dependencies_def plan_edges_def start_goal_def goal_checks_def terminal_goal_statuses_def
      conflicted_ids_def find_conflict_candidate_pairs_def supersede_plan_def stale_task_def sample_task_def)


end
