(* ===== verification/Worktree.thy ===== *)
theory Worktree
  imports Store
begin

text \<open>
  \<open>app/mainai_execution/worktree.py\<close>: the rows of \<open>mainai_task_worktrees\<close>, the marker files that
  prove which attempt a checkout belongs to, and the operations that create, hand over and release a
  worktree. The row table and the marker files are the record \<open>workspace\<close>, threaded beside the
  database; a marker is what \<open>json.loads\<close> makes of the file (\<open>None\<close>: no readable JSON there). What
  \<open>git\<close> and GitHub answer is the parameter \<open>git_api\<close>.
\<close>

section \<open>Rows and marker files\<close>

datatype worktree_status = WtActive | WtReleased | WtAbandoned

record task_worktree =
  wt_id :: uuid
  wt_task :: uuid
  wt_owner :: uuid
  wt_job :: uuid
  wt_lease_generation :: int
  wt_executor :: string
  wt_repo :: string
  wt_base_sha :: string
  wt_branch :: string
  wt_path :: string
  wt_marker_token :: string
  wt_current_commit :: "string option"
  wt_status :: worktree_status
  wt_created_at :: time
  wt_released_at :: "time option"

record workspace =
  ws_rows :: "task_worktree list"
  ws_markers :: "string \<Rightarrow> json option"

text \<open>
  \<open>gt_checkout path base branch\<close>: the init, fetch and checkout of a new worktree; \<open>gt_status\<close>: whether
  \<open>git status --porcelain\<close> prints anything, and HEAD; \<open>gt_commit\<close>: the commit made, if there was
  anything to commit; \<open>gt_fetch\<close> and \<open>gt_is_ancestor\<close>: see \<open>fetch_remote_branch\<close> and
  \<open>is_ancestor\<close>. A left value is an exception.
\<close>

record git_api =
  gt_write_enabled :: bool
  gt_repo :: string
  gt_checkout :: "string \<Rightarrow> string \<Rightarrow> string \<Rightarrow> error + unit"
  gt_status :: "string \<Rightarrow> string + bool \<times> string"
  gt_commit :: "string \<Rightarrow> error + string option"
  gt_fetch :: "string \<Rightarrow> string \<Rightarrow> string + unit"
  gt_is_ancestor :: "string \<Rightarrow> string \<Rightarrow> string + bool option"

definition base_branch :: string where "base_branch = ''claude/det-kommer-mer-879lcm''"

definition protected_branches :: "string set" where
  "protected_branches = {''main'', ''master'', ''claude/det-kommer-mer-879lcm''}"

definition task_branch_name :: "uuid \<Rightarrow> string" where
  "task_branch_name tid = ''claude/mainai-task-'' @ uuid_str tid"

definition worktree_root :: string where "worktree_root = ''/tmp/mainai-worktrees''"

definition worktree_marker :: "time \<Rightarrow> uuid \<Rightarrow> uuid \<Rightarrow> string \<Rightarrow> int \<Rightarrow> json" where
  "worktree_marker now tid jid token gen =
     JObj [(''task_id'', JStr (uuid_str tid)), (''job_id'', JStr (uuid_str jid)),
           (''marker_token'', JStr token), (''lease_generation'', JInt gen),
           (''created_at'', JInt now)]"

text \<open>A marker file that holds JSON other than an object has no \<open>get\<close>: the call raises.\<close>

definition verify_worktree_ownership :: "workspace \<Rightarrow> task_worktree \<Rightarrow> error + bool" where
  "verify_worktree_ownership ws w =
     (case ws_markers ws (wt_path w) of
        None \<Rightarrow> Inr False
      | Some (JObj m) \<Rightarrow>
          Inr (jget m ''task_id'' = JStr (uuid_str (wt_task w)) \<and>
               jget m ''job_id'' = JStr (uuid_str (wt_job w)) \<and>
               jget m ''marker_token'' = JStr (wt_marker_token w))
      | Some _ \<Rightarrow> Inl (WorktreeFailed ''AttributeError''))"

definition require_ownership :: "workspace \<Rightarrow> task_worktree \<Rightarrow> error + unit" where
  "require_ownership ws w =
     sbind (verify_worktree_ownership ws w) (\<lambda>ok. ensure ok (WorktreeFailed ''ownership''))"

definition worktree_of_job :: "workspace \<Rightarrow> uuid \<Rightarrow> error + task_worktree option" where
  "worktree_of_job ws jid =
     (case filter (\<lambda>w. wt_job w = jid) (ws_rows ws) of
        [] \<Rightarrow> Inr None
      | [w] \<Rightarrow> Inr (Some w)
      | _ \<Rightarrow> Inl MultipleRows)"

section \<open>Operations\<close>

definition put_marker :: "string \<Rightarrow> json option \<Rightarrow> workspace \<Rightarrow> workspace" where
  "put_marker path m ws = ws\<lparr>ws_markers := (ws_markers ws)(path := m)\<rparr>"

text \<open>The unique key on \<open>job_id\<close> and the CHECKs of migration 0033.\<close>

definition worktree_checks :: "task_worktree \<Rightarrow> bool" where
  "worktree_checks w \<longleftrightarrow>
     wt_branch w \<notin> protected_branches \<and> (wt_released_at w = None \<longleftrightarrow> wt_status w = WtActive)"

definition write_worktree :: "uuid \<Rightarrow> (task_worktree \<Rightarrow> task_worktree) \<Rightarrow> workspace \<Rightarrow> error + workspace" where
  "write_worktree wid f ws =
     (let rows = update_rows (\<lambda>w. wt_id w = wid) f (ws_rows ws)
      in if \<not> list_all (\<lambda>w. wt_id w = wid \<longrightarrow> worktree_checks (f w)) (ws_rows ws) then Inl CheckViolation
         else if \<not> distinct (map wt_job rows) then Inl (UniqueViolation ''job_id'')
         else Inr (ws\<lparr>ws_rows := rows\<rparr>))"

definition create_task_worktree_sync ::
  "git_api \<Rightarrow> time \<Rightarrow> uuid \<Rightarrow> string \<Rightarrow> mainai_task \<Rightarrow> uuid \<Rightarrow> int \<Rightarrow> string \<Rightarrow> string \<Rightarrow> workspace \<Rightarrow>
   error + (workspace \<times> task_worktree)" where
  "create_task_worktree_sync git now wid token t jid gen executor base_sha ws =
     sbind (worktree_of_job ws jid) (\<lambda>existing.
       case existing of
         Some w \<Rightarrow> Inr (ws, w)
       | None \<Rightarrow>
           if \<not> gt_write_enabled git then Inl (WorktreeFailed ''GITHUB_WRITE_ENABLED'')
           else
             let branch = task_branch_name (t_id t);
                 path = worktree_root @ ''/'' @ uuid_str jid;
                 w = \<lparr>wt_id = wid, wt_task = t_id t, wt_owner = t_owner t, wt_job = jid,
                      wt_lease_generation = gen, wt_executor = executor, wt_repo = gt_repo git,
                      wt_base_sha = base_sha, wt_branch = branch, wt_path = path,
                      wt_marker_token = token, wt_current_commit = None, wt_status = WtActive,
                      wt_created_at = now, wt_released_at = None\<rparr>
             in if branch \<in> protected_branches \<or> branch = base_branch
                then Inl (WorktreeFailed ''protected branch'')
                else
                  sbind (gt_checkout git path base_sha branch) (\<lambda>_.
                    Inr (put_marker path (Some (worktree_marker now (t_id t) jid token gen))
                           (ws\<lparr>ws_rows := ws_rows ws @ [w]\<rparr>), w)))"

definition commit_worktree_changes ::
  "git_api \<Rightarrow> task_worktree \<Rightarrow> workspace \<Rightarrow> error + (workspace \<times> string option)" where
  "commit_worktree_changes git w ws =
     sbind (require_ownership ws w) (\<lambda>_.
     sbind (gt_commit git (wt_path w)) (\<lambda>r.
       case r of
         None \<Rightarrow> Inr (ws, None)
       | Some sha \<Rightarrow>
           sbind (write_worktree (wt_id w) (\<lambda>x. x\<lparr>wt_current_commit := Some sha\<rparr>) ws) (\<lambda>ws1.
             Inr (ws1, Some sha))))"

text \<open>The marker file is written before the row is flushed, and no rollback takes it back.\<close>

definition rebind_worktree_to_job ::
  "time \<Rightarrow> string \<Rightarrow> task_worktree \<Rightarrow> uuid \<Rightarrow> int \<Rightarrow> workspace \<Rightarrow> error + workspace" where
  "rebind_worktree_to_job now token w new_job gen ws =
     sbind (require_ownership ws w) (\<lambda>_.
       write_worktree (wt_id w)
         (\<lambda>x. x\<lparr>wt_job := new_job, wt_lease_generation := gen, wt_marker_token := token\<rparr>)
         (put_marker (wt_path w) (Some (worktree_marker now (wt_task w) new_job token gen)) ws))"

definition release_worktree :: "time \<Rightarrow> task_worktree \<Rightarrow> worktree_status \<Rightarrow> workspace \<Rightarrow> error + workspace" where
  "release_worktree now w s ws =
     (if s = WtActive then Inl (WorktreeFailed ''active'')
      else sbind (write_worktree (wt_id w) (\<lambda>x. x\<lparr>wt_status := s, wt_released_at := Some now\<rparr>) ws)
             (\<lambda>ws1. Inr (put_marker (wt_path w) None ws1)))"

section \<open>Who owns a worktree\<close>

definition workspace_ok :: "workspace \<Rightarrow> bool" where
  "workspace_ok ws \<longleftrightarrow>
     unique_key wt_id (ws_rows ws) \<and> distinct (map wt_job (ws_rows ws)) \<and>
     (\<forall>w\<in>set (ws_rows ws). worktree_checks w)"

definition handed_over :: "string \<Rightarrow> uuid \<Rightarrow> int \<Rightarrow> task_worktree \<Rightarrow> task_worktree" where
  "handed_over token new_job gen w =
     w\<lparr>wt_job := new_job, wt_lease_generation := gen, wt_marker_token := token\<rparr>"

lemma task_branch_unprotected [simp]: "task_branch_name tid \<notin> protected_branches"
  by (simp add: task_branch_name_def protected_branches_def)

lemma task_branch_not_base [simp]: "task_branch_name tid \<noteq> base_branch"
  by (simp add: task_branch_name_def base_branch_def)

lemma verify_marker:
  "ws_markers ws (wt_path w) = Some (worktree_marker now tid jid token gen) \<Longrightarrow>
     verify_worktree_ownership ws w =
       Inr (wt_task w = tid \<and> wt_job w = jid \<and> wt_marker_token w = token)"
  by (auto simp: verify_worktree_ownership_def worktree_marker_def jget_def uuid_str_inject)

lemma write_worktree_Inr_iff:
  "write_worktree wid f ws = Inr ws' \<longleftrightarrow>
     (\<forall>w\<in>set (ws_rows ws). wt_id w = wid \<longrightarrow> worktree_checks (f w)) \<and>
     distinct (map wt_job (update_rows (\<lambda>w. wt_id w = wid) f (ws_rows ws))) \<and>
     ws' = ws\<lparr>ws_rows := update_rows (\<lambda>w. wt_id w = wid) f (ws_rows ws)\<rparr>"
  by (auto simp: write_worktree_def Let_def list_all_iff)

lemma write_worktree_ok:
  assumes "workspace_ok ws" and "write_worktree wid f ws = Inr ws'" and "\<And>w. wt_id (f w) = wt_id w"
  shows "workspace_ok ws'"
  using assms
  by (auto simp: workspace_ok_def write_worktree_Inr_iff unique_key_update_rows in_update_rows_iff)

lemma put_marker_ok [simp]: "workspace_ok (put_marker path m ws) \<longleftrightarrow> workspace_ok ws"
  by (simp add: workspace_ok_def put_marker_def)

lemma worktree_of_job_Inr:
  assumes "worktree_of_job ws jid = Inr r"
  shows "filter (\<lambda>w. wt_job w = jid) (ws_rows ws) = (case r of None \<Rightarrow> [] | Some w \<Rightarrow> [w])"
  using assms by (auto simp: worktree_of_job_def split: list.splits)

lemma rebind_InrE:
  assumes "rebind_worktree_to_job now token w new_job gen ws = Inr ws'"
  shows "verify_worktree_ownership ws w = Inr True \<and>
    ws' = \<lparr>ws_rows = update_rows (\<lambda>x. wt_id x = wt_id w) (handed_over token new_job gen) (ws_rows ws),
           ws_markers = (ws_markers ws)(wt_path w := Some (worktree_marker now (wt_task w) new_job token gen))\<rparr>"
  using assms unfolding rebind_worktree_to_job_def require_ownership_def handed_over_def
  by (auto elim!: sbind_InrE simp: write_worktree_Inr_iff put_marker_def ensure_def split: if_splits)

text \<open>A worktree belongs to one attempt at a time. Only an attempt whose marker is on disk can
  hand its worktree over, and nothing is written otherwise. After the hand-over the row names the new
  attempt and verifies, the row as the old attempt knew it no longer does, so the old attempt can
  neither commit nor hand it over again, and no other row has changed.\<close>

theorem rebind_transfers_ownership:
  assumes "workspace_ok ws" and "w \<in> set (ws_rows ws)" and "wt_job w \<noteq> new_job"
    and "rebind_worktree_to_job now token w new_job gen ws = Inr ws'"
  shows "verify_worktree_ownership ws w = Inr True \<and> workspace_ok ws' \<and>
    (\<exists>w'\<in>set (ws_rows ws'). wt_id w' = wt_id w \<and> wt_job w' = new_job \<and> wt_task w' = wt_task w \<and>
       wt_branch w' = wt_branch w \<and> wt_current_commit w' = wt_current_commit w \<and>
       verify_worktree_ownership ws' w' = Inr True) \<and>
    verify_worktree_ownership ws' w = Inr False \<and>
    commit_worktree_changes git w ws' = Inl (WorktreeFailed ''ownership'') \<and>
    rebind_worktree_to_job later token' w other gen' ws' = Inl (WorktreeFailed ''ownership'') \<and>
    (\<forall>x\<in>set (ws_rows ws). x \<noteq> w \<longrightarrow> x \<in> set (ws_rows ws'))"
proof -
  from rebind_InrE [OF assms(4)] have own: "verify_worktree_ownership ws w = Inr True"
    and rows: "ws_rows ws' = update_rows (\<lambda>x. wt_id x = wt_id w) (handed_over token new_job gen) (ws_rows ws)"
    and mk: "ws_markers ws' (wt_path w) = Some (worktree_marker now (wt_task w) new_job token gen)"
    by simp_all
  have ok': "workspace_ok ws'"
    using assms(1,4) unfolding rebind_worktree_to_job_def
    by (elim sbind_InrE) (rule write_worktree_ok, rule put_marker_ok [THEN iffD2], assumption+, simp)
  let ?w = "handed_over token new_job gen w"
  have new: "?w \<in> set (ws_rows ws')" using assms(2) rows by (auto simp: in_update_rows_iff)
  have "verify_worktree_ownership ws' ?w = Inr True" "verify_worktree_ownership ws' w = Inr False"
    using verify_marker [of ws' ?w now "wt_task w" new_job token gen] verify_marker [OF mk] mk assms(3)
    by (simp_all add: handed_over_def)
  moreover from this have "require_ownership ws' w = Inl (WorktreeFailed ''ownership'')"
    by (simp add: require_ownership_def ensure_def)
  then have "commit_worktree_changes git w ws' = Inl (WorktreeFailed ''ownership'')"
    "rebind_worktree_to_job later token' w other gen' ws' = Inl (WorktreeFailed ''ownership'')"
    by (simp_all add: commit_worktree_changes_def rebind_worktree_to_job_def)
  moreover have "x \<in> set (ws_rows ws')" if "x \<in> set (ws_rows ws)" "x \<noteq> w" for x
  proof -
    have "wt_id x \<noteq> wt_id w"
      using assms(1,2) that unique_key_eqD [of wt_id "ws_rows ws" x w] by (auto simp: workspace_ok_def)
    with that rows show ?thesis by (auto simp: in_update_rows_iff)
  qed
  moreover have "\<exists>w'\<in>set (ws_rows ws'). wt_id w' = wt_id w \<and> wt_job w' = new_job \<and> wt_task w' = wt_task w \<and>
       wt_branch w' = wt_branch w \<and> wt_current_commit w' = wt_current_commit w \<and>
       verify_worktree_ownership ws' w' = Inr True"
    using new calculation(1) by (intro bexI [of _ ?w]) (simp_all add: handed_over_def)
  ultimately show ?thesis using own ok' by blast
qed

definition sample_worktree :: task_worktree where
  "sample_worktree =
     \<lparr>wt_id = 3, wt_task = 1, wt_owner = 7, wt_job = 5, wt_lease_generation = 1, wt_executor = ''w'',
      wt_repo = ''o/r'', wt_base_sha = ''abc'', wt_branch = task_branch_name 1, wt_path = ''/p'',
      wt_marker_token = ''old'', wt_current_commit = None, wt_status = WtActive, wt_created_at = 0,
      wt_released_at = None\<rparr>"

definition sample_workspace :: workspace where
  "sample_workspace =
     \<lparr>ws_rows = [sample_worktree], ws_markers = (\<lambda>p. Some (worktree_marker 0 1 5 ''old'' 1))\<rparr>"

theorem rebind_transfers_ownership_witness:
  "\<exists>ws'. rebind_worktree_to_job 9 ''new'' sample_worktree 6 1 sample_workspace = Inr ws' \<and>
     verify_worktree_ownership ws' sample_worktree = Inr False"
proof -
  have own: "verify_worktree_ownership sample_workspace sample_worktree = Inr True"
    by (subst verify_marker [of _ _ 0 1 5 "''old''" 1]) (simp_all add: sample_workspace_def sample_worktree_def)
  have ok: "workspace_ok sample_workspace" "sample_worktree \<in> set (ws_rows sample_workspace)"
    "wt_job sample_worktree \<noteq> 6"
    by (simp_all add: workspace_ok_def unique_key_def worktree_checks_def sample_workspace_def sample_worktree_def)
  have "\<exists>ws'. rebind_worktree_to_job 9 ''new'' sample_worktree 6 1 sample_workspace = Inr ws'"
    using own by (simp add: rebind_worktree_to_job_def require_ownership_def ensure_def write_worktree_def
        put_marker_def sample_workspace_def sample_worktree_def worktree_checks_def)
  then obtain ws' where r: "rebind_worktree_to_job 9 ''new'' sample_worktree 6 1 sample_workspace = Inr ws'" ..
  from rebind_transfers_ownership [OF ok r] r show ?thesis by blast
qed

end
