(* ===== verification/Tables.thy ===== *)
theory Tables
  imports Prelude
begin

text \<open>
  The contract of a guarded row write: \<open>UPDATE ... WHERE key = k\<close> on a table with a CHECK constraint.
  The tables of tasks, goals, recovery records and worktrees each provide such a write; what follows
  from the contract is proved here once.
\<close>

locale checked_table =
  fixes rows :: "'d \<Rightarrow> 'r list"
    and key :: "'r \<Rightarrow> 'k"
    and ok :: "'r \<Rightarrow> bool"
    and put :: "'k \<Rightarrow> ('r \<Rightarrow> 'r) \<Rightarrow> 'd \<Rightarrow> 'e + 'd"
  assumes put_rows: "put k f d = Inr d' \<Longrightarrow> rows d' = update_rows (\<lambda>r. key r = k) f (rows d)"
    and put_checked: "put k f d = Inr d' \<Longrightarrow> r \<in> set (rows d) \<Longrightarrow> key r = k \<Longrightarrow> ok (f r)"
begin

definition sound :: "'d \<Rightarrow> bool" where
  "sound d \<longleftrightarrow> unique_key key (rows d) \<and> (\<forall>r\<in>set (rows d). ok r)"

lemma put_row:
  assumes "put (key r) f d = Inr d'" and "r \<in> set (rows d)"
  shows "f r \<in> set (rows d') \<and> ok (f r)"
  using put_rows [OF assms(1)] put_checked [OF assms] assms(2) by (auto simp: in_update_rows_iff)

lemma put_others:
  assumes "put k f d = Inr d'" and "r \<in> set (rows d)" and "key r \<noteq> k"
  shows "r \<in> set (rows d')"
  using put_rows [OF assms(1)] assms(2,3) by (auto simp: in_update_rows_iff)

lemma put_keys:
  "put k f d = Inr d' \<Longrightarrow> (\<And>r. key (f r) = key r) \<Longrightarrow> map key (rows d') = map key (rows d)"
  by (simp add: put_rows map_key_update_rows)

lemma put_sound:
  assumes "sound d" and "put k f d = Inr d'" and "\<And>r. key (f r) = key r"
  shows "sound d'"
  using assms put_checked [OF assms(2)]
  by (auto simp: sound_def put_rows [OF assms(2)] unique_key_update_rows in_update_rows_iff)

lemma put_only:
  assumes "unique_key key (rows d)" and "r \<in> set (rows d)" and "put (key r) f d = Inr d'"
    and "s \<in> set (rows d')"
  shows "s = f r \<or> s \<in> set (rows d) \<and> s \<noteq> r"
proof -
  from assms(4) put_rows [OF assms(3)] obtain x where x: "x \<in> set (rows d)"
    and s: "s = (if key x = key r then f x else x)" by (auto simp: in_update_rows_iff)
  show ?thesis
  proof (cases "key x = key r")
    case True
    with assms(1,2) x have "x = r" by (blast intro: unique_key_eqD)
    with s show ?thesis by simp
  qed (use s x in auto)
qed

end

end
