(* ===== verification/Recovery.thy ===== *)
theory Recovery
  imports Outcome Worktree Tables
begin

text \<open>
  The first three stages of dead-agent recovery: \<open>recovery_inspector.py\<close> (one record per dead job, and
  the snapshot of evidence) and \<open>recovery_classifier.py\<close>. \<open>r\<close> is the recovery record as the session
  holds it; what GitHub answers is the parameter \<open>github_refs\<close>.
\<close>

section \<open>Recovery records\<close>

definition recovery_checks :: "recovery_record \<Rightarrow> bool" where
  "recovery_checks r \<longleftrightarrow>
     (r_completed_at r = None \<longleftrightarrow> r_status r \<noteq> RCompleted) \<and>
     (r_status r = RBlocked \<longrightarrow> r_blocker r \<noteq> None)"

definition write_recovery ::
  "uuid \<Rightarrow> (recovery_record \<Rightarrow> recovery_record) \<Rightarrow> db \<Rightarrow> error + db" where
  "write_recovery rid f d =
     (if list_all (\<lambda>r. r_id r = rid \<longrightarrow> recovery_checks (f r)) (recovery_records d)
      then Inr (d\<lparr>recovery_records := update_rows (\<lambda>r. r_id r = rid) f (recovery_records d)\<rparr>)
      else Inl CheckViolation)"

definition save_recovery :: "recovery_record \<Rightarrow> db \<Rightarrow> error + db" where
  "save_recovery r = write_recovery (r_id r) (\<lambda>_. r)"

definition record_recovery_event ::
  "time \<Rightarrow> recovery_record \<Rightarrow> recovery_event_type \<Rightarrow> jdict \<Rightarrow> db \<Rightarrow> db" where
  "record_recovery_event now r ty detail d =
     d\<lparr>recovery_events := recovery_events d @
        [\<lparr>re_record = r_id r, re_task = r_task r, re_owner = r_owner r, re_type = ty,
          re_detail = detail, re_created_at = now\<rparr>]\<rparr>"

interpretation recovery_table: checked_table recovery_records r_id recovery_checks write_recovery
  by unfold_locales (auto simp: write_recovery_def list_all_iff split: if_splits)

definition get_or_create_recovery_record ::
  "time \<Rightarrow> uuid \<Rightarrow> mainai_task \<Rightarrow> uuid \<Rightarrow> db \<Rightarrow> error + (db \<times> recovery_record)" where
  "get_or_create_recovery_record now fresh t jid d =
     (case filter (\<lambda>r. r_job r = jid) (recovery_records d) of
        [r] \<Rightarrow> Inr (d, r)
      | [] \<Rightarrow>
          let r = \<lparr>r_id = fresh, r_task = t_id t, r_owner = t_owner t, r_job = jid,
                   r_classification = None, r_evidence = [], r_salvage_action = None,
                   r_takeover_executor = None, r_takeover_job = None, r_status = RDetected,
                   r_blocker = None, r_manual_review_required = False, r_completed_at = None,
                   r_created_at = now\<rparr>
          in Inr (record_recovery_event now r ReDeadDetected [(''job_id'', JStr (uuid_str jid))]
                    (d\<lparr>recovery_records := recovery_records d @ [r]\<rparr>), r)
      | _ \<Rightarrow> Inl MultipleRows)"

section \<open>Inspection\<close>

text \<open>\<open>rg_ref\<close>: the tip of a branch (\<open>None\<close>: \<open>GitHubClientError\<close>); \<open>rg_prs\<close>: the pull request numbers.\<close>

record github_refs =
  rg_configured :: bool
  rg_ref :: "string \<Rightarrow> string option"
  rg_prs :: "string \<Rightarrow> string + json list"

definition json_opt :: "string option \<Rightarrow> json" where
  "json_opt s = (case s of None \<Rightarrow> JNull | Some x \<Rightarrow> JStr x)"

definition checkpoint_evidence :: "uuid \<Rightarrow> uuid \<Rightarrow> db \<Rightarrow> jdict" where
  "checkpoint_evidence tid jid d =
     [(''has_work_result_checkpoint'', JBool (latest_checkpoint_for_step tid jid ''work_result'' d \<noteq> None)),
      (''has_finalized_checkpoint'', JBool (latest_checkpoint_for_step tid jid ''finalized'' d \<noteq> None))]"

definition worktree_evidence ::
  "git_api \<Rightarrow> workspace \<Rightarrow> task_worktree option \<Rightarrow> error + jdict \<times> string list" where
  "worktree_evidence git ws w =
     (case w of
        None \<Rightarrow> Inr ([(''worktree_exists'', JBool False)], [])
      | Some w \<Rightarrow>
          sbind (verify_worktree_ownership ws w) (\<lambda>owned.
            let ev = [(''worktree_exists'', JBool True), (''worktree_ownership_verified'', JBool owned),
                      (''worktree_current_commit'', json_opt (wt_current_commit w)),
                      (''worktree_branch'', JStr (wt_branch w))]
            in if \<not> owned then Inr (ev, [])
               else case gt_status git (wt_path w) of
                      Inl e \<Rightarrow> Inr (ev, [''worktree_git_status_failed: '' @ e])
                    | Inr (dirty, head) \<Rightarrow>
                        Inr (ev @ [(''worktree_has_uncommitted_changes'', JBool dirty),
                                   (''worktree_local_head_sha'', JStr head)], [])))"

definition remote_evidence :: "github_refs \<Rightarrow> string \<Rightarrow> jdict \<times> string list" where
  "remote_evidence gh branch =
     (let name = [(''branch_name'', JStr branch)]
      in if \<not> rg_configured gh
         then (name @ [(''remote_branch_exists'', JNull), (''pr_exists'', JNull), (''pr_numbers'', JNull)], [])
         else case rg_ref gh branch of
                None \<Rightarrow>
                  (name @ [(''remote_branch_exists'', JBool False), (''remote_branch_sha'', JNull),
                           (''pr_exists'', JBool False), (''pr_numbers'', JArr [])], [])
              | Some sha \<Rightarrow>
                  let ev = name @ [(''remote_branch_exists'', JBool True), (''remote_branch_sha'', JStr sha)]
                  in case rg_prs gh branch of
                       Inl e \<Rightarrow> (ev, [''pr_lookup_failed: '' @ e])
                     | Inr prs \<Rightarrow>
                         (ev @ [(''pr_exists'', JBool (prs \<noteq> [])), (''pr_numbers'', JArr prs)], []))"

definition divergence_evidence ::
  "git_api \<Rightarrow> task_worktree option \<Rightarrow> jdict \<Rightarrow> jdict \<times> string list" where
  "divergence_evidence git w ev =
     (case (w, jget ev ''remote_branch_sha'') of
        (Some w, JStr sha) \<Rightarrow>
          if truthy (jget ev ''worktree_ownership_verified'') \<and>
             truthy (jget ev ''worktree_local_head_sha'') \<and>
             truthy (jget ev ''remote_branch_exists'') \<and> sha \<noteq> [] \<and>
             JStr sha \<noteq> jget ev ''worktree_local_head_sha''
          then case gt_fetch git (wt_path w) (wt_branch w) of
                 Inl e \<Rightarrow> ([], [''ancestry_check_failed: '' @ e])
               | Inr _ \<Rightarrow>
                   (case gt_is_ancestor git (wt_path w) sha of
                      Inl e \<Rightarrow> ([], [''ancestry_check_failed: '' @ e])
                    | Inr None \<Rightarrow> ([(''remote_sha_is_ancestor_of_local'', JNull)],
                                   [''remote_sha_not_present_in_local_worktree''])
                    | Inr (Some b) \<Rightarrow> ([(''remote_sha_is_ancestor_of_local'', JBool b)], []))
          else ([], [])
      | _ \<Rightarrow> ([], []))"

definition task_had_event :: "uuid \<Rightarrow> task_event_type \<Rightarrow> db \<Rightarrow> bool" where
  "task_had_event tid ty d \<longleftrightarrow> list_ex (\<lambda>e. te_task e = tid \<and> te_type e = ty) (task_events d)"

definition verdict_evidence :: "mainai_task \<Rightarrow> lesson list \<Rightarrow> db \<Rightarrow> jdict" where
  "verdict_evidence t ls d =
     [(''verification_passed'', JBool (task_had_event (t_id t) TeVerificationPassed d)),
      (''verification_failed'', JBool (task_had_event (t_id t) TeVerificationFailed d)),
      (''applicable_lessons'',
         JArr (map (\<lambda>l. JObj [(''lesson_id'', JStr (uuid_str (ls_id l))), (''problem'', JStr (ls_problem l)),
                              (''general_rule'', JStr (ls_general_rule l)),
                              (''severity'', JStr (severity_value (ls_severity l)))])
                (lookup_lessons [t_type t] ls)))]"

definition gather_evidence ::
  "git_api \<Rightarrow> github_refs \<Rightarrow> lesson list \<Rightarrow> mainai_task \<Rightarrow> uuid \<Rightarrow> workspace \<Rightarrow> db \<Rightarrow>
   error + jdict \<times> string list" where
  "gather_evidence git gh ls t jid ws d =
     (let rows = filter (\<lambda>w. wt_job w = jid) (ws_rows ws);
          w = (case rows of [x] \<Rightarrow> Some x | _ \<Rightarrow> None)
      in sbind (worktree_evidence git ws w) (\<lambda>(wev, wbad).
           let (rev, rbad) = remote_evidence gh (task_branch_name (t_id t));
               ev = checkpoint_evidence (t_id t) jid d @ wev @ rev;
               (dev, dbad) = divergence_evidence git w ev
           in Inr (ev @ dev @ verdict_evidence t ls d,
                   (if 1 < length rows then [''multiple_worktree_rows_for_job''] else []) @
                   wbad @ rbad @ dbad)))"

definition inspected_record :: "jdict \<Rightarrow> string list \<Rightarrow> recovery_record \<Rightarrow> recovery_record" where
  "inspected_record ev bad r =
     (if bad = [] then r\<lparr>r_evidence := ev, r_status := RInspected\<rparr>
      else r\<lparr>r_evidence := ev, r_status := RBlocked, r_blocker := Some (join_with ''; '' bad),
             r_manual_review_required := True\<rparr>)"

definition inspect_recovery_record ::
  "git_api \<Rightarrow> github_refs \<Rightarrow> lesson list \<Rightarrow> time \<Rightarrow> mainai_task \<Rightarrow> recovery_record \<Rightarrow> workspace \<Rightarrow> db \<Rightarrow>
   error + (db \<times> recovery_record)" where
  "inspect_recovery_record git gh ls now t r ws d =
     (if r_status r \<noteq> RDetected then Inr (d, r)
      else
        sbind (save_recovery (r\<lparr>r_status := RInspecting\<rparr>) d) (\<lambda>d1.
        sbind (gather_evidence git gh ls t (r_job r) ws (record_recovery_event now r ReRecoveryStarted [] d1))
          (\<lambda>(ev, bad).
        let r1 = inspected_record ev bad r
        in sbind (save_recovery r1 (record_recovery_event now r ReRecoveryStarted [] d1)) (\<lambda>d2.
             let d3 = record_recovery_event now r1 ReRecoveryInspected
                        [(''unsafe_reasons'', JArr (map JStr bad))] d2
             in Inr (if bad = [] then d3
                     else record_recovery_event now r1 ReManualReviewRequired
                            [(''reasons'', JArr (map JStr bad))] d3, r1)))))"

section \<open>Classification\<close>

definition classify_evidence :: "jdict \<Rightarrow> classification" where
  "classify_evidence ev =
     (let remote_exists = jget ev ''remote_branch_exists'';
          local_head = jget ev ''worktree_local_head_sha'';
          remote_sha = jget ev ''remote_branch_sha'';
          worktree_confirms = (truthy remote_exists \<and> remote_sha \<noteq> JNull \<and> remote_sha = local_head);
          checkpoint_confirms = (truthy remote_exists \<and> truthy (jget ev ''has_finalized_checkpoint''))
      in if jget ev ''remote_sha_is_ancestor_of_local'' = JBool False then ConflictedState
         else if worktree_confirms \<or> checkpoint_confirms
         then (if truthy (jget ev ''pr_exists'') then PrExists else PushedNoPr)
         else if truthy (jget ev ''worktree_current_commit'') then LocalCommittedNotPushed
         else if truthy (jget ev ''worktree_ownership_verified'') \<and>
                 truthy (jget ev ''worktree_has_uncommitted_changes'') then LocalUncommittedWork
         else if truthy (jget ev ''verification_passed'') then VerifiedWork
         else if truthy (jget ev ''has_work_result_checkpoint'') then CheckpointedWork
         else NothingDone)"

definition classify_recovery_record ::
  "time \<Rightarrow> recovery_record \<Rightarrow> db \<Rightarrow> error + (db \<times> recovery_record)" where
  "classify_recovery_record now r d =
     (if r_status r \<noteq> RInspected then Inr (d, r)
      else
        let c = classify_evidence (r_evidence r);
            r1 = r\<lparr>r_classification := Some c, r_status := RClassified,
                   r_manual_review_required :=
                     (if c \<notin> auto_salvageable then True else r_manual_review_required r)\<rparr>;
            detail = [(''classification'', JStr (classification_value c))]
        in sbind (save_recovery r1 d) (\<lambda>d1.
             let d2 = record_recovery_event now r1 ReRecoveryClassified detail d1
             in Inr (if c \<notin> auto_salvageable
                     then record_recovery_event now r1 ReManualReviewRequired detail d2 else d2, r1)))"

section \<open>What the evidence says\<close>

definition own_worktree :: "workspace \<Rightarrow> uuid \<Rightarrow> task_worktree \<Rightarrow> bool" where
  "own_worktree ws jid w \<longleftrightarrow>
     filter (\<lambda>x. wt_job x = jid) (ws_rows ws) = [w] \<and> verify_worktree_ownership ws w = Inr True"

definition branch_tip :: "github_refs \<Rightarrow> mainai_task \<Rightarrow> string option" where
  "branch_tip gh t = (if rg_configured gh then rg_ref gh (task_branch_name (t_id t)) else None)"

text \<open>What has to be true of the outside world and the tables for each verdict.\<close>

fun justified :: "git_api \<Rightarrow> github_refs \<Rightarrow> mainai_task \<Rightarrow> uuid \<Rightarrow> workspace \<Rightarrow> db \<Rightarrow> classification \<Rightarrow> bool" where
  "justified git gh t jid ws d NothingDone \<longleftrightarrow>
     latest_checkpoint_for_step (t_id t) jid ''work_result'' d = None \<and>
     \<not> task_had_event (t_id t) TeVerificationPassed d \<and>
     (\<forall>w head. own_worktree ws jid w \<longrightarrow> gt_status git (wt_path w) \<noteq> Inr (True, head))"
| "justified git gh t jid ws d CheckpointedWork \<longleftrightarrow>
     latest_checkpoint_for_step (t_id t) jid ''work_result'' d \<noteq> None"
| "justified git gh t jid ws d VerifiedWork \<longleftrightarrow> task_had_event (t_id t) TeVerificationPassed d"
| "justified git gh t jid ws d LocalUncommittedWork \<longleftrightarrow>
     (\<exists>w head. own_worktree ws jid w \<and> gt_status git (wt_path w) = Inr (True, head))"
| "justified git gh t jid ws d LocalCommittedNotPushed \<longleftrightarrow>
     (\<exists>w sha. filter (\<lambda>x. wt_job x = jid) (ws_rows ws) = [w] \<and> wt_current_commit w = Some sha)"
| "justified git gh t jid ws d PushedNoPr \<longleftrightarrow>
     (\<exists>sha. branch_tip gh t = Some sha \<and> rg_prs gh (task_branch_name (t_id t)) = Inr [] \<and>
        (latest_checkpoint_for_step (t_id t) jid ''finalized'' d \<noteq> None \<or>
         (\<exists>w dirty. own_worktree ws jid w \<and> gt_status git (wt_path w) = Inr (dirty, sha))))"
| "justified git gh t jid ws d PrExists \<longleftrightarrow>
     (\<exists>sha prs. branch_tip gh t = Some sha \<and> rg_prs gh (task_branch_name (t_id t)) = Inr prs \<and> prs \<noteq> [] \<and>
        (latest_checkpoint_for_step (t_id t) jid ''finalized'' d \<noteq> None \<or>
         (\<exists>w dirty. own_worktree ws jid w \<and> gt_status git (wt_path w) = Inr (dirty, sha))))"
| "justified git gh t jid ws d ConflictedState \<longleftrightarrow>
     (\<exists>w sha. own_worktree ws jid w \<and> branch_tip gh t = Some sha \<and>
        gt_is_ancestor git (wt_path w) sha = Inr (Some False))"
| "justified git gh t jid ws d UnsafeToAutoRecover \<longleftrightarrow> False"

lemma jget_append: "jget (a @ b) k = (case map_of a k of None \<Rightarrow> jget b k | Some v \<Rightarrow> v)"
  by (simp add: jget_def map_add_def split: option.split)

lemma worktree_evidence_clean:
  assumes "worktree_evidence git ws w = Inr (ev, [])"
  obtains (none) "w = None" "ev = [(''worktree_exists'', JBool False)]"
  | (foreign) x where "w = Some x" "verify_worktree_ownership ws x = Inr False"
      "ev = [(''worktree_exists'', JBool True), (''worktree_ownership_verified'', JBool False),
             (''worktree_current_commit'', json_opt (wt_current_commit x)),
             (''worktree_branch'', JStr (wt_branch x))]"
  | (own) x dirty head where "w = Some x" "verify_worktree_ownership ws x = Inr True"
      "gt_status git (wt_path x) = Inr (dirty, head)"
      "ev = [(''worktree_exists'', JBool True), (''worktree_ownership_verified'', JBool True),
             (''worktree_current_commit'', json_opt (wt_current_commit x)),
             (''worktree_branch'', JStr (wt_branch x)),
             (''worktree_has_uncommitted_changes'', JBool dirty),
             (''worktree_local_head_sha'', JStr head)]"
  using assms unfolding worktree_evidence_def
  by (auto elim!: sbind_InrE simp: Let_def split: option.splits if_splits sum.splits prod.splits)

lemma remote_evidence_clean:
  assumes "remote_evidence gh b = (ev, [])"
  obtains (unknown) "\<not> rg_configured gh"
      "ev = [(''branch_name'', JStr b), (''remote_branch_exists'', JNull), (''pr_exists'', JNull),
             (''pr_numbers'', JNull)]"
  | (absent) "rg_configured gh" "rg_ref gh b = None"
      "ev = [(''branch_name'', JStr b), (''remote_branch_exists'', JBool False),
             (''remote_branch_sha'', JNull), (''pr_exists'', JBool False), (''pr_numbers'', JArr [])]"
  | (there) sha prs where "rg_configured gh" "rg_ref gh b = Some sha" "rg_prs gh b = Inr prs"
      "ev = [(''branch_name'', JStr b), (''remote_branch_exists'', JBool True),
             (''remote_branch_sha'', JStr sha), (''pr_exists'', JBool (prs \<noteq> [])), (''pr_numbers'', JArr prs)]"
  using assms unfolding remote_evidence_def
  by (auto simp: Let_def split: option.splits if_splits sum.splits)

lemma divergence_keys:
  "divergence_evidence git w ev = (dev, bad) \<Longrightarrow> fst ` set dev \<subseteq> {''remote_sha_is_ancestor_of_local''}"
  unfolding divergence_evidence_def
  by (auto split: option.splits json.splits if_splits sum.splits)

lemma divergence_false:
  assumes "divergence_evidence git w ev = (dev, bad)" and "jget dev ''remote_sha_is_ancestor_of_local'' = JBool False"
  obtains x sha where "w = Some x" and "jget ev ''remote_branch_sha'' = JStr sha"
    and "truthy (jget ev ''worktree_ownership_verified'')" and "truthy (jget ev ''remote_branch_exists'')"
    and "gt_is_ancestor git (wt_path x) sha = Inr (Some False)"
  using assms unfolding divergence_evidence_def
  by (auto simp: jget_def split: option.splits json.splits if_splits sum.splits)

lemma jget_absent: "map_of d k = None \<Longrightarrow> jget d k = JNull"
  by (simp add: jget_def)

lemma jget_append_absent: "map_of b k = None \<Longrightarrow> jget (a @ b) k = jget a k"
  by (auto simp: jget_append jget_def split: option.split)

lemma jget_cons [simp]: "jget ((k, v) # d) k' = (if k = k' then v else jget d k')"
  by (simp add: jget_def)

lemma jget_nil [simp]: "jget [] k = JNull"
  by (simp add: jget_def)

lemma gather_clean:
  assumes "gather_evidence git gh ls t jid ws d = Inr (ev, [])"
  obtains w wev gev dev where
    "w = (case filter (\<lambda>w. wt_job w = jid) (ws_rows ws) of [x] \<Rightarrow> Some x | _ \<Rightarrow> None)"
    and "worktree_evidence git ws w = Inr (wev, [])"
    and "remote_evidence gh (task_branch_name (t_id t)) = (gev, [])"
    and "divergence_evidence git w (checkpoint_evidence (t_id t) jid d @ wev @ gev) = (dev, [])"
    and "ev = (checkpoint_evidence (t_id t) jid d @ wev @ gev) @ dev @ verdict_evidence t ls d"
    and "length (filter (\<lambda>w. wt_job w = jid) (ws_rows ws)) \<le> 1"
  using assms unfolding gather_evidence_def Let_def
  by (auto elim!: sbind_InrE split: prod.splits if_splits)

text \<open>The evidence before the ancestry check, looked up key by key.\<close>

lemma early_evidence:
  fixes d :: db and jid :: uuid
  assumes "worktree_evidence git ws w = Inr (wev, [])" and "remote_evidence gh (task_branch_name (t_id t)) = (gev, [])"
    and "w = (case filter (\<lambda>w. wt_job w = jid) (ws_rows ws) of [x] \<Rightarrow> Some x | _ \<Rightarrow> None)"
  defines "ev \<equiv> checkpoint_evidence (t_id t) jid d @ wev @ gev"
  shows "truthy (jget ev ''has_work_result_checkpoint'') \<longleftrightarrow>
      latest_checkpoint_for_step (t_id t) jid ''work_result'' d \<noteq> None"
    and "truthy (jget ev ''has_finalized_checkpoint'') \<longleftrightarrow>
      latest_checkpoint_for_step (t_id t) jid ''finalized'' d \<noteq> None"
    and "truthy (jget ev ''remote_branch_exists'') \<longleftrightarrow> branch_tip gh t \<noteq> None"
    and "jget ev ''remote_branch_sha'' = json_opt (branch_tip gh t)"
    and "branch_tip gh t \<noteq> None \<Longrightarrow> \<exists>prs. rg_prs gh (task_branch_name (t_id t)) = Inr prs \<and>
      (truthy (jget ev ''pr_exists'') \<longleftrightarrow> prs \<noteq> [])"
    and "truthy (jget ev ''worktree_ownership_verified'') \<Longrightarrow> \<exists>x. w = Some x \<and> own_worktree ws jid x"
    and "(truthy (jget ev ''worktree_ownership_verified'') \<and> truthy (jget ev ''worktree_has_uncommitted_changes'')) \<longleftrightarrow>
      (\<exists>x head. own_worktree ws jid x \<and> gt_status git (wt_path x) = Inr (True, head))"
    and "jget ev ''worktree_local_head_sha'' = JStr h \<Longrightarrow>
      \<exists>x dirty. own_worktree ws jid x \<and> gt_status git (wt_path x) = Inr (dirty, h)"
    and "truthy (jget ev ''worktree_current_commit'') \<Longrightarrow>
      \<exists>x sha. filter (\<lambda>w. wt_job w = jid) (ws_rows ws) = [x] \<and> wt_current_commit x = Some sha"
    and "map_of ev ''remote_sha_is_ancestor_of_local'' = None"
    and "map_of ev ''verification_passed'' = None"
proof -
  have wo: "w = Some x \<longleftrightarrow> filter (\<lambda>w. wt_job w = jid) (ws_rows ws) = [x]" for x
    using assms(3) by (auto split: list.splits)
  have own: "own_worktree ws jid x \<longleftrightarrow> w = Some x \<and> verify_worktree_ownership ws x = Inr True" for x
    by (auto simp: own_worktree_def wo)
  note simps = ev_def checkpoint_evidence_def branch_tip_def own json_opt_def
  show "truthy (jget ev ''has_work_result_checkpoint'') \<longleftrightarrow>
      latest_checkpoint_for_step (t_id t) jid ''work_result'' d \<noteq> None"
    "truthy (jget ev ''has_finalized_checkpoint'') \<longleftrightarrow>
      latest_checkpoint_for_step (t_id t) jid ''finalized'' d \<noteq> None"
    by (simp_all add: simps)
  note cases = worktree_evidence_clean [OF assms(1)] remote_evidence_clean [OF assms(2)]
  show "truthy (jget ev ''remote_branch_exists'') \<longleftrightarrow> branch_tip gh t \<noteq> None"
    by (rule cases(1); rule cases(2); simp add: simps)
  show "jget ev ''remote_branch_sha'' = json_opt (branch_tip gh t)"
    by (rule cases(1); rule cases(2); simp add: simps)
  show "map_of ev ''remote_sha_is_ancestor_of_local'' = None"
    by (rule cases(1); rule cases(2); simp add: simps)
  show "map_of ev ''verification_passed'' = None"
    by (rule cases(1); rule cases(2); simp add: simps)
  show "\<exists>prs. rg_prs gh (task_branch_name (t_id t)) = Inr prs \<and> (truthy (jget ev ''pr_exists'') \<longleftrightarrow> prs \<noteq> [])"
    if "branch_tip gh t \<noteq> None"
    using that by - (rule cases(1); rule cases(2); simp add: simps)
  show "\<exists>x. w = Some x \<and> own_worktree ws jid x" if "truthy (jget ev ''worktree_ownership_verified'')"
    using that by - (rule cases(1); rule cases(2); simp add: simps)
  show "(truthy (jget ev ''worktree_ownership_verified'') \<and> truthy (jget ev ''worktree_has_uncommitted_changes'')) \<longleftrightarrow>
      (\<exists>x head. own_worktree ws jid x \<and> gt_status git (wt_path x) = Inr (True, head))"
    by (rule cases(1); rule cases(2); auto simp: simps)
  show "\<exists>x dirty. own_worktree ws jid x \<and> gt_status git (wt_path x) = Inr (dirty, h)"
    if "jget ev ''worktree_local_head_sha'' = JStr h"
    using that by - (rule cases(1); rule cases(2); simp add: simps)
  show "\<exists>x sha. filter (\<lambda>w. wt_job w = jid) (ws_rows ws) = [x] \<and> wt_current_commit x = Some sha"
    if "truthy (jget ev ''worktree_current_commit'')"
    using that by - (rule cases(1); rule cases(2); simp add: simps wo [symmetric] split: option.splits)
qed

lemma late_evidence:
  assumes "divergence_evidence git w early = (dev, bad)"
    and "k \<notin> {''remote_sha_is_ancestor_of_local'', ''verification_passed'', ''verification_failed'', ''applicable_lessons''}"
  shows "jget (early @ dev @ verdict_evidence t ls d) k = jget early k"
proof -
  have "map_of (dev @ verdict_evidence t ls d) k = None"
    using divergence_keys [OF assms(1)] assms(2) by (auto simp: map_of_eq_None_iff verdict_evidence_def)
  then show ?thesis by (rule jget_append_absent)
qed

lemma clean_evidence_justifies:
  assumes "gather_evidence git gh ls t jid ws d = Inr (ev, [])"
  shows "justified git gh t jid ws d (classify_evidence ev)"
proof -
  from assms obtain w wev gev dev where w: "w = (case filter (\<lambda>w. wt_job w = jid) (ws_rows ws) of [x] \<Rightarrow> Some x | _ \<Rightarrow> None)"
    and wev: "worktree_evidence git ws w = Inr (wev, [])"
    and gev: "remote_evidence gh (task_branch_name (t_id t)) = (gev, [])"
    and dev: "divergence_evidence git w (checkpoint_evidence (t_id t) jid d @ wev @ gev) = (dev, [])"
    and ev: "ev = (checkpoint_evidence (t_id t) jid d @ wev @ gev) @ dev @ verdict_evidence t ls d"
    by (rule gather_clean)
  let ?early = "checkpoint_evidence (t_id t) jid d @ wev @ gev"
  note early = early_evidence [OF wev gev w, of d]
  have same: "jget ev k = jget ?early k"
    if "k \<notin> {''remote_sha_is_ancestor_of_local'', ''verification_passed'', ''verification_failed'', ''applicable_lessons''}" for k
    unfolding ev by (rule late_evidence [OF dev that])
  have anc: "jget ev ''remote_sha_is_ancestor_of_local'' = jget dev ''remote_sha_is_ancestor_of_local''"
    unfolding ev by (simp add: jget_append early(10) [simplified]) 
      (simp add: jget_def verdict_evidence_def split: option.split)
  have pass: "truthy (jget ev ''verification_passed'') \<longleftrightarrow> task_had_event (t_id t) TeVerificationPassed d"
  proof -
    have "map_of dev ''verification_passed'' = None"
      using divergence_keys [OF dev] by (auto simp: map_of_eq_None_iff)
    then show ?thesis unfolding ev by (simp add: jget_append early(11) [simplified] verdict_evidence_def)
  qed
  have conflict: "justified git gh t jid ws d ConflictedState"
    if a: "jget ev ''remote_sha_is_ancestor_of_local'' = JBool False"
  proof -
    from divergence_false [OF dev] a anc obtain x sha where x: "w = Some x"
      "jget ?early ''remote_branch_sha'' = JStr sha" "truthy (jget ?early ''worktree_ownership_verified'')"
      "gt_is_ancestor git (wt_path x) sha = Inr (Some False)" by metis
    from early(6) [OF x(3)] x(1) have "own_worktree ws jid x" by auto
    moreover from early(4) x(2) have "branch_tip gh t = Some sha" by (cases "branch_tip gh t") (auto simp: json_opt_def)
    ultimately show ?thesis using x(4) by auto
  qed
  have pushed: "justified git gh t jid ws d (if truthy (jget ev ''pr_exists'') then PrExists else PushedNoPr)"
    if e: "truthy (jget ev ''remote_branch_exists'')"
      and p: "jget ev ''remote_branch_sha'' = jget ev ''worktree_local_head_sha'' \<or> truthy (jget ev ''has_finalized_checkpoint'')"
  proof -
    from e early(3) same [of "''remote_branch_exists''"] obtain sha where sha: "branch_tip gh t = Some sha" by auto
    with early(5) same [of "''pr_exists''"] obtain prs where prs: "rg_prs gh (task_branch_name (t_id t)) = Inr prs"
      "truthy (jget ev ''pr_exists'') \<longleftrightarrow> prs \<noteq> []" by auto
    have "latest_checkpoint_for_step (t_id t) jid ''finalized'' d \<noteq> None \<or>
        (\<exists>w dirty. own_worktree ws jid w \<and> gt_status git (wt_path w) = Inr (dirty, sha))"
      using p sha early(2,4) early(8) [of sha] same [of "''remote_branch_sha''"]
        same [of "''worktree_local_head_sha''"] same [of "''has_finalized_checkpoint''"]
      by (auto simp: json_opt_def)
    with sha prs show ?thesis by auto
  qed
  have quiet: "latest_checkpoint_for_step (t_id t) jid ''work_result'' d \<noteq> None \<longleftrightarrow>
      truthy (jget ev ''has_work_result_checkpoint'')"
    "(\<exists>x head. own_worktree ws jid x \<and> gt_status git (wt_path x) = Inr (True, head)) \<longleftrightarrow>
      truthy (jget ev ''worktree_ownership_verified'') \<and> truthy (jget ev ''worktree_has_uncommitted_changes'')"
    "truthy (jget ev ''worktree_current_commit'') \<Longrightarrow> justified git gh t jid ws d LocalCommittedNotPushed"
    using early(1,7,9) same [of "''has_work_result_checkpoint''"] same [of "''worktree_ownership_verified''"]
      same [of "''worktree_has_uncommitted_changes''"] same [of "''worktree_current_commit''"] by simp_all
  show ?thesis
    using conflict pushed quiet pass unfolding classify_evidence_def Let_def
    by (auto split: if_splits)
qed

section \<open>Detect, inspect, classify\<close>

definition recover_dead_job ::
  "git_api \<Rightarrow> github_refs \<Rightarrow> lesson list \<Rightarrow> time \<Rightarrow> uuid \<Rightarrow> mainai_task \<Rightarrow> uuid \<Rightarrow> workspace \<Rightarrow> db \<Rightarrow>
   error + (db \<times> recovery_record)" where
  "recover_dead_job git gh ls now fresh t jid ws d =
     sbind (get_or_create_recovery_record now fresh t jid d) (\<lambda>(d1, r).
     sbind (inspect_recovery_record git gh ls now t r ws d1) (\<lambda>(d2, r2).
       classify_recovery_record now r2 d2))"

definition recoveries_ok :: "db \<Rightarrow> bool" where
  "recoveries_ok d \<longleftrightarrow> recovery_table.sound d \<and> distinct (map r_job (recovery_records d))"

lemma recovery_event_frame [simp]:
  "recovery_records (record_recovery_event now r ty detail d) = recovery_records d"
  "tasks (record_recovery_event now r ty detail d) = tasks d"
  "jobs (record_recovery_event now r ty detail d) = jobs d"
  "goals (record_recovery_event now r ty detail d) = goals d"
  "envelopes (record_recovery_event now r ty detail d) = envelopes d"
  "checkpoints (record_recovery_event now r ty detail d) = checkpoints d"
  "task_events (record_recovery_event now r ty detail d) = task_events d"
  "recovery_events (record_recovery_event now r ty detail d) = recovery_events d @
     [\<lparr>re_record = r_id r, re_task = r_task r, re_owner = r_owner r, re_type = ty,
       re_detail = detail, re_created_at = now\<rparr>]"
  by (simp_all add: record_recovery_event_def)

lemma gather_frame:
  "checkpoints d' = checkpoints d \<Longrightarrow> task_events d' = task_events d \<Longrightarrow>
     gather_evidence git gh ls t jid ws d' = gather_evidence git gh ls t jid ws d"
  by (simp add: gather_evidence_def checkpoint_evidence_def verdict_evidence_def task_had_event_def
      latest_checkpoint_for_step_def)

lemma save_recovery_Inr_iff:
  "save_recovery r d = Inr d' \<longleftrightarrow>
     ((\<exists>x\<in>set (recovery_records d). r_id x = r_id r) \<longrightarrow> recovery_checks r) \<and>
     d' = d\<lparr>recovery_records := update_rows (\<lambda>x. r_id x = r_id r) (\<lambda>_. r) (recovery_records d)\<rparr>"
  by (auto simp: save_recovery_def write_recovery_def list_all_iff)

lemma unique_filter: "unique_key key xs \<Longrightarrow> x \<in> set xs \<Longrightarrow> filter (\<lambda>y. key y = key x) xs = [x]"
proof (induction xs)
  case (Cons a xs)
  show ?case
  proof (cases "a = x")
    case True
    with Cons.prems(1) show ?thesis by (auto simp: unique_key_def filter_empty_conv dest: image_eqI [OF sym])
  next
    case False
    with Cons have "key a \<noteq> key x" by (auto simp: unique_key_def)
    with Cons False show ?thesis by (auto simp: unique_key_def)
  qed
qed simp

text \<open>Everything else in the database, recovery events apart.\<close>

definition db_but_recoveries :: "db \<Rightarrow> db" where
  "db_but_recoveries d = d\<lparr>recovery_records := [], recovery_events := []\<rparr>"

lemma db_but_recoveries_event [simp]:
  "db_but_recoveries (record_recovery_event now r ty detail d) = db_but_recoveries d"
  by (simp add: db_but_recoveries_def record_recovery_event_def)

lemma db_but_recoveries_eqD:
  assumes "db_but_recoveries d' = db_but_recoveries d"
  shows "tasks d' = tasks d" "jobs d' = jobs d" "goals d' = goals d" "checkpoints d' = checkpoints d"
    "task_events d' = task_events d" "envelopes d' = envelopes d" "task_deps d' = task_deps d"
  using arg_cong [OF assms, of tasks] arg_cong [OF assms, of jobs] arg_cong [OF assms, of goals]
    arg_cong [OF assms, of checkpoints] arg_cong [OF assms, of task_events]
    arg_cong [OF assms, of envelopes] arg_cong [OF assms, of task_deps]
  by (simp_all add: db_but_recoveries_def)

text \<open>Saving a changed record puts it in the place of the stored one.\<close>

lemma save_recovery_row:
  assumes "recoveries_ok d" and "r0 \<in> set (recovery_records d)" and "r_id r = r_id r0"
    and "r_job r = r_job r0" and "save_recovery r d = Inr d'"
  shows "recoveries_ok d' \<and> filter (\<lambda>x. r_job x = r_job r) (recovery_records d') = [r] \<and> recovery_checks r \<and>
    r \<in> set (recovery_records d') \<and> db_but_recoveries d' = db_but_recoveries d"
proof -
  let ?rs = "update_rows (\<lambda>x. r_id x = r_id r) (\<lambda>_. r) (recovery_records d)"
  from assms(5) assms(2,3) have d': "d' = d\<lparr>recovery_records := ?rs\<rparr>" and chk: "recovery_checks r"
    unfolding save_recovery_Inr_iff by force+
  from assms(1) have uk: "unique_key r_id (recovery_records d)" and ck: "\<forall>r\<in>set (recovery_records d). recovery_checks r"
    and jobs: "distinct (map r_job (recovery_records d))"
    by (simp_all add: recoveries_ok_def recovery_table.sound_def)
  have hit: "x = r0" if "x \<in> set (recovery_records d)" "r_id x = r_id r" for x
    using unique_key_eqD [OF uk that(1) assms(2)] that(2) assms(3) by simp
  have ids: "map r_id ?rs = map r_id (recovery_records d)"
    by (auto simp: update_rows_def)
  have jids: "map r_job ?rs = map r_job (recovery_records d)"
    using hit assms(4) by (auto simp: update_rows_def)
  have mem: "r \<in> set ?rs" using assms(2,3) by (force simp: in_update_rows_iff)
  have "unique_key r_id ?rs" using uk ids by (simp add: unique_key_def)
  moreover have "\<forall>x\<in>set ?rs. recovery_checks x" using chk ck by (auto simp: in_update_rows_iff)
  moreover have dj: "distinct (map r_job ?rs)" using jobs jids by simp
  ultimately have "recoveries_ok d'" by (simp add: recoveries_ok_def recovery_table.sound_def d')
  moreover have "filter (\<lambda>x. r_job x = r_job r) ?rs = [r]"
    by (rule unique_filter) (use dj mem in \<open>simp_all add: unique_key_def\<close>)
  ultimately show ?thesis using d' chk mem by (simp add: db_but_recoveries_def)
qed

lemma recoveries_ok_event [simp]:
  "recoveries_ok (record_recovery_event now r ty detail d) = recoveries_ok d"
  by (simp add: recoveries_ok_def recovery_table.sound_def)

lemma inspect_row:
  assumes "recoveries_ok d" and "r \<in> set (recovery_records d)" and "r_status r = RDetected"
    and "inspect_recovery_record git gh ls now t r ws d = Inr (d', r')"
  shows "recoveries_ok d' \<and> r' \<in> set (recovery_records d') \<and> r_job r' = r_job r \<and>
    (\<exists>ev bad. gather_evidence git gh ls t (r_job r) ws d = Inr (ev, bad) \<and> r' = inspected_record ev bad r) \<and>
    db_but_recoveries d' = db_but_recoveries d"
proof -
  let ?r0 = "r\<lparr>r_status := RInspecting\<rparr>"
  from assms(3,4) obtain d1 ev bad d2 where s1: "save_recovery ?r0 d = Inr d1"
    and g: "gather_evidence git gh ls t (r_job r) ws (record_recovery_event now r ReRecoveryStarted [] d1) = Inr (ev, bad)"
    and s2: "save_recovery (inspected_record ev bad r) (record_recovery_event now r ReRecoveryStarted [] d1) = Inr d2"
    and r': "r' = inspected_record ev bad r"
    and d': "recoveries_ok d' = recoveries_ok d2" "recovery_records d' = recovery_records d2"
      "db_but_recoveries d' = db_but_recoveries d2"
    unfolding inspect_recovery_record_def Let_def
    by (auto elim!: sbind_InrE split: if_splits prod.splits)
  from save_recovery_row [OF assms(1,2) _ _ s1] have one: "recoveries_ok d1" "?r0 \<in> set (recovery_records d1)"
    "db_but_recoveries d1 = db_but_recoveries d" by auto
  let ?d1 = "record_recovery_event now r ReRecoveryStarted [] d1"
  have ids: "r_id r' = r_id ?r0" "r_job r' = r_job ?r0" by (simp_all add: r' inspected_record_def)
  have "recoveries_ok ?d1" "?r0 \<in> set (recovery_records ?d1)" using one by simp_all
  from save_recovery_row [OF this ids s2 [folded r']] have
    two: "recoveries_ok d2" "r' \<in> set (recovery_records d2)" "db_but_recoveries d2 = db_but_recoveries ?d1" by auto
  note same = db_but_recoveries_eqD [OF one(3)]
  have "gather_evidence git gh ls t (r_job r) ws d = Inr (ev, bad)"
    using g gather_frame [of ?d1 d] same by simp
  with two ids r' d' one(3) show ?thesis by auto
qed

lemma classify_row:
  assumes "recoveries_ok d" and "r \<in> set (recovery_records d)" and "r_status r = RInspected"
    and "classify_recovery_record now r d = Inr (d', r')"
  shows "recoveries_ok d' \<and> r' \<in> set (recovery_records d') \<and> r_job r' = r_job r \<and>
    r_status r' = RClassified \<and> r_classification r' = Some (classify_evidence (r_evidence r)) \<and>
    (r_manual_review_required r' \<longleftrightarrow>
       r_manual_review_required r \<or> classify_evidence (r_evidence r) \<notin> auto_salvageable) \<and>
    db_but_recoveries d' = db_but_recoveries d"
proof -
  from assms(3,4) obtain d1 where s: "save_recovery r' d = Inr d1"
    and r': "r' = r\<lparr>r_classification := Some (classify_evidence (r_evidence r)), r_status := RClassified,
        r_manual_review_required := (if classify_evidence (r_evidence r) \<notin> auto_salvageable then True
          else r_manual_review_required r)\<rparr>"
    and d': "recoveries_ok d' = recoveries_ok d1" "recovery_records d' = recovery_records d1"
      "db_but_recoveries d' = db_but_recoveries d1"
    unfolding classify_recovery_record_def Let_def by (auto elim!: sbind_InrE split: if_splits)
  have "r_id r' = r_id r" "r_job r' = r_job r" by (simp_all add: r')
  from save_recovery_row [OF assms(1,2) this s] d' r' show ?thesis by auto
qed

lemma detect_row:
  assumes "recoveries_ok d" and "fresh \<notin> r_id ` set (recovery_records d)"
    and "get_or_create_recovery_record now fresh t jid d = Inr (d', r)"
  shows "recoveries_ok d' \<and> r \<in> set (recovery_records d') \<and> r_job r = jid \<and>
    (r \<in> set (recovery_records d) \<and> d' = d \<or>
     (\<forall>x\<in>set (recovery_records d). r_job x \<noteq> jid) \<and> r_status r = RDetected) \<and>
    db_but_recoveries d' = db_but_recoveries d"
proof (cases "filter (\<lambda>r. r_job r = jid) (recovery_records d)")
  case Nil
  then have "\<forall>x\<in>set (recovery_records d). r_job x \<noteq> jid" by (simp add: filter_empty_conv)
  with Nil assms show ?thesis
    by (auto simp: get_or_create_recovery_record_def Let_def recoveries_ok_def recovery_table.sound_def
        unique_key_snoc recovery_checks_def db_but_recoveries_def record_recovery_event_def)
next
  case (Cons a rs)
  with assms(3) have "rs = []" "r = a" "d' = d"
    by (auto simp: get_or_create_recovery_record_def split: list.splits)
  moreover have "a \<in> set (recovery_records d)" "r_job a = jid"
    using Cons by (auto simp: filter_eq_Cons_iff)
  ultimately show ?thesis using assms(1) by simp
qed

text \<open>What the three stages come to, by the status of the record they found.\<close>

lemma recover_dead_job_cases:
  assumes "recoveries_ok d" and "fresh \<notin> r_id ` set (recovery_records d)"
    and "recover_dead_job git gh ls now fresh t jid ws d = Inr (d', r)"
  obtains r1 where "recoveries_ok d'" and "r \<in> set (recovery_records d')" and "r_job r = jid"
    and "db_but_recoveries d' = db_but_recoveries d"
    and "r1 \<in> set (recovery_records d) \<or> (\<forall>x\<in>set (recovery_records d). r_job x \<noteq> jid) \<and> r_status r1 = RDetected"
    and "r_job r1 = jid"
    and "r_status r1 \<notin> {RDetected, RInspected} \<longrightarrow> d' = d \<and> r = r1"
    and "r_status r1 = RDetected \<longrightarrow>
      r_status r = RBlocked \<and> r_blocker r \<noteq> None \<and> r_manual_review_required r \<or>
      (\<exists>c. r_status r = RClassified \<and> r_classification r = Some c \<and> justified git gh t jid ws d c \<and>
         (if c = ConflictedState then r_manual_review_required r else c \<in> auto_salvageable))"
proof -
  from assms(3) obtain d1 r1 d2 r2 where
    g: "get_or_create_recovery_record now fresh t jid d = Inr (d1, r1)"
    and i: "inspect_recovery_record git gh ls now t r1 ws d1 = Inr (d2, r2)"
    and c: "classify_recovery_record now r2 d2 = Inr (d', r)"
    unfolding recover_dead_job_def by (auto elim!: sbind_InrE)
  from detect_row [OF assms(1,2) g] have one: "recoveries_ok d1" "r1 \<in> set (recovery_records d1)" "r_job r1 = jid"
    and how: "r1 \<in> set (recovery_records d) \<and> d1 = d \<or>
      (\<forall>x\<in>set (recovery_records d). r_job x \<noteq> jid) \<and> r_status r1 = RDetected"
    and same: "db_but_recoveries d1 = db_but_recoveries d" by blast+
  consider (settled) "r_status r1 \<notin> {RDetected, RInspected}" | (inspected) "r_status r1 = RInspected"
    | (fresh) "r_status r1 = RDetected" by auto
  then show thesis
  proof cases
    case settled
    with i have "d2 = d1" "r2 = r1" by (auto simp: inspect_recovery_record_def)
    with settled c have "d' = d1" "r = r1" by (auto simp: classify_recovery_record_def)
    moreover have "r1 \<in> set (recovery_records d)" "d1 = d" using how settled by auto
    ultimately show thesis using that [of r1] one settled same by simp
  next
    case inspected
    with i have "d2 = d1" "r2 = r1" by (auto simp: inspect_recovery_record_def)
    with classify_row [OF one(1,2) inspected] c one same that [of r1] how inspected show thesis by auto
  next
    case fresh
    from inspect_row [OF one(1,2) fresh i] obtain ev bad where two: "recoveries_ok d2"
      "r2 \<in> set (recovery_records d2)" "r_job r2 = jid" "db_but_recoveries d2 = db_but_recoveries d1"
      and ev: "gather_evidence git gh ls t jid ws d1 = Inr (ev, bad)" and r2: "r2 = inspected_record ev bad r1"
      using one(3) by auto
    have ev': "gather_evidence git gh ls t jid ws d = Inr (ev, bad)"
      using ev gather_frame [of d1 d] db_but_recoveries_eqD [OF same] by simp
    have origin: "r1 \<in> set (recovery_records d) \<or> (\<forall>x\<in>set (recovery_records d). r_job x \<noteq> jid) \<and> r_status r1 = RDetected"
      using how by blast
    show thesis
    proof (cases "bad = []")
      case False
      then have b: "r_status r2 = RBlocked" "r_blocker r2 \<noteq> None" "r_manual_review_required r2"
        by (simp_all add: r2 inspected_record_def)
      with c have "d' = d2" "r = r2" by (auto simp: classify_recovery_record_def)
      with that [of r1] b two same origin one(3) fresh show thesis by simp
    next
      case True
      then have i2: "r_status r2 = RInspected" "r_evidence r2 = ev" by (simp_all add: r2 inspected_record_def)
      from classify_row [OF two(1,2) i2(1) c] i2(2) two(3) have three: "recoveries_ok d'"
        "r \<in> set (recovery_records d')" "r_job r = jid" "r_status r = RClassified"
        "r_classification r = Some (classify_evidence ev)" "db_but_recoveries d' = db_but_recoveries d2"
        "classify_evidence ev \<notin> auto_salvageable \<longrightarrow> r_manual_review_required r" by simp_all
      have j: "justified git gh t jid ws d (classify_evidence ev)"
        using clean_evidence_justifies ev' True by simp
      then have "classify_evidence ev \<noteq> UnsafeToAutoRecover" by auto
      then have "if classify_evidence ev = ConflictedState then r_manual_review_required r
          else classify_evidence ev \<in> auto_salvageable"
        using three(7) by (cases "classify_evidence ev") (simp_all add: auto_salvageable_def)
      with j three(4,5) have "\<exists>c. r_status r = RClassified \<and> r_classification r = Some c \<and>
          justified git gh t jid ws d c \<and>
          (if c = ConflictedState then r_manual_review_required r else c \<in> auto_salvageable)" by blast
      with that [of r1] three(1-3,6) two(4) same origin one(3) fresh show thesis by simp
    qed
  qed
qed


definition no_git :: git_api where
  "no_git = \<lparr>gt_write_enabled = False, gt_repo = [], gt_checkout = (\<lambda>p b c. Inr ()),
     gt_status = (\<lambda>p. Inl ''down''), gt_commit = (\<lambda>p. Inr None), gt_fetch = (\<lambda>p b. Inl ''down''),
     gt_is_ancestor = (\<lambda>p s. Inl ''down'')\<rparr>"

definition no_github :: github_refs where
  "no_github = \<lparr>rg_configured = False, rg_ref = (\<lambda>b. None), rg_prs = (\<lambda>b. Inl ''down'')\<rparr>"

definition no_worktrees :: workspace where
  "no_worktrees = \<lparr>ws_rows = [], ws_markers = (\<lambda>p. None)\<rparr>"

lemma sample_recovery_runs:
  "\<exists>d' r. recover_dead_job no_git no_github [] 9 40 (sample_task 1 TRunning) 5 no_worktrees
     (one_task_db TRunning) = Inr (d', r)"
  by (simp add: recover_dead_job_def get_or_create_recovery_record_def one_task_db_def empty_db_def Let_def
      inspect_recovery_record_def save_recovery_def write_recovery_def recovery_checks_def
      record_recovery_event_def gather_evidence_def worktree_evidence_def no_worktrees_def
      remote_evidence_def no_github_def divergence_evidence_def checkpoint_evidence_def
      latest_checkpoint_for_step_def inspected_record_def classify_recovery_record_def split: prod.split)


end
