(* ===== verification/Takeover.thy ===== *)
theory Takeover
  imports Recovery
begin

text \<open>
  The last two stages of recovery: \<open>recovery_salvage.py\<close> (what the new attempt inherits) and
  \<open>recovery_takeover.py\<close> (the one place where authority passes from the dead job to its successor,
  or, for a goal that was ever governed by an execution envelope, back to the supervisor). Checkpoints
  and rows live in the database, worktrees in the workspace, so the operations thread the pair of both.
\<close>

section \<open>Salvage\<close>

definition pushed_classifications :: "classification set" where
  "pushed_classifications = {PushedNoPr, PrExists}"

definition local_worktree_classifications :: "classification set" where
  "local_worktree_classifications = {LocalUncommittedWork, LocalCommittedNotPushed}"

definition verify_branch_unchanged_since_inspection ::
  "github_refs \<Rightarrow> recovery_record \<Rightarrow> string \<Rightarrow> error + unit" where
  "verify_branch_unchanged_since_inspection gh r branch =
     (if \<not> rg_configured gh then Inl (SalvageFailed ''GitHub is not configured'')
      else case rg_ref gh branch of
             None \<Rightarrow> Inl (SalvageFailed ''branch is gone'')
           | Some live \<Rightarrow> ensure (JStr live = jget (r_evidence r) ''remote_branch_sha'')
                            (SalvageFailed ''branch has moved''))"

text \<open>\<open>{key: old.executor_state[key]}\<close>, when the dead job has a checkpoint for the step.\<close>

definition copy_checkpoint ::
  "time \<Rightarrow> mainai_task \<Rightarrow> mainai_goal \<Rightarrow> uuid \<Rightarrow> uuid \<Rightarrow> string \<Rightarrow> db \<Rightarrow> error + (db \<times> bool)" where
  "copy_checkpoint now t g old_job nj step d =
     (case latest_checkpoint_for_step (t_id t) old_job step d of
        None \<Rightarrow> Inr (d, False)
      | Some c \<Rightarrow>
          (case map_of (c_state c) step of
             None \<Rightarrow> Inl (KeyMissing step)
           | Some v \<Rightarrow> Inr (record_checkpoint now t g nj step [(step, v)] d, True)))"

definition salvage_results ::
  "time \<Rightarrow> mainai_task \<Rightarrow> mainai_goal \<Rightarrow> recovery_record \<Rightarrow> uuid \<Rightarrow> db \<Rightarrow> error + (db \<times> string list)" where
  "salvage_results now t g r nj d =
     (if \<not> truthy (jget (r_evidence r) ''has_work_result_checkpoint'') then Inr (d, [])
      else
        sbind (copy_checkpoint now t g (r_job r) nj ''work_result'' d) (\<lambda>(d1, copied).
          if \<not> copied then Inr (d1, [])
          else if \<not> truthy (jget (r_evidence r) ''verification_passed'')
          then Inr (d1, [''copied_work_result_checkpoint''])
          else
            sbind (copy_checkpoint now t g (r_job r) nj ''verification'' d1) (\<lambda>(d2, verified).
              Inr (d2, ''copied_work_result_checkpoint'' #
                       (if verified then [''copied_verification_checkpoint''] else [])))))"

definition salvage_push ::
  "github_refs \<Rightarrow> time \<Rightarrow> mainai_task \<Rightarrow> mainai_goal \<Rightarrow> recovery_record \<Rightarrow> uuid \<Rightarrow> db \<Rightarrow>
   error + (db \<times> string list)" where
  "salvage_push gh now t g r nj d =
     (let named = jget (r_evidence r) ''branch_name'';
          branch = (if truthy named then named else jget (r_evidence r) ''worktree_branch'')
      in case branch of
           JStr b \<Rightarrow>
             if b = [] \<or> \<not> truthy (jget (r_evidence r) ''remote_branch_exists'') then Inr (d, [])
             else
               sbind (verify_branch_unchanged_since_inspection gh r b) (\<lambda>_.
                 Inr (record_checkpoint now t g nj ''finalized''
                        [(''finalize_info'', JObj [(''branch'', JStr b), (''base_branch'', JStr base_branch),
                            (''proposed'', JBool False),
                            (''salvaged_from_recovery_record'', JStr (uuid_str (r_id r)))])] d,
                      [''synthesized_finalized_checkpoint'']))
         | _ \<Rightarrow> Inr (d, []))"

definition salvage_worktree ::
  "time \<Rightarrow> string \<Rightarrow> recovery_record \<Rightarrow> uuid \<Rightarrow> workspace \<Rightarrow> error + (workspace \<times> string list)" where
  "salvage_worktree now token r nj ws =
     sbind (worktree_of_job ws (r_job r)) (\<lambda>w.
       case w of
         None \<Rightarrow> Inr (ws, [''worktree_unavailable_no_local_salvage''])
       | Some w \<Rightarrow>
           sbind (verify_worktree_ownership ws w) (\<lambda>owned.
             if \<not> owned then Inr (ws, [''worktree_unavailable_no_local_salvage''])
             else sbind (rebind_worktree_to_job now token w nj 1 ws) (\<lambda>ws1.
                    Inr (ws1, [''rebound_worktree'']))))"

definition salvaged_record :: "string list \<Rightarrow> recovery_record \<Rightarrow> recovery_record" where
  "salvaged_record actions r =
     r\<lparr>r_status := RSalvaged,
       r_salvage_action := Some (if actions = [] then ''none'' else join_with '','' actions)\<rparr>"

definition salvage_recovery_record ::
  "github_refs \<Rightarrow> time \<Rightarrow> string \<Rightarrow> mainai_task \<Rightarrow> mainai_goal \<Rightarrow> recovery_record \<Rightarrow> uuid \<Rightarrow>
   db \<times> workspace \<Rightarrow> error + ((db \<times> workspace) \<times> recovery_record)" where
  "salvage_recovery_record gh now token t g r nj = (\<lambda>(d, ws).
     case r_classification r of
       None \<Rightarrow> Inl (SalvageFailed ''not auto-salvageable'')
     | Some c \<Rightarrow>
         if r_status r \<noteq> RClassified then Inl (SalvageFailed ''not classified'')
         else if c \<notin> auto_salvageable then Inl (SalvageFailed ''not auto-salvageable'')
         else
           sbind (save_recovery (r\<lparr>r_status := RSalvaging\<rparr>) d) (\<lambda>d0.
           sbind (salvage_results now t g r nj
                    (record_recovery_event now r ReSalvageStarted
                       [(''classification'', JStr (classification_value c))] d0)) (\<lambda>(d1, a1).
           sbind (if c \<in> pushed_classifications then salvage_push gh now t g r nj d1
                  else Inr (d1, [])) (\<lambda>(d2, a2).
           sbind (if c \<in> local_worktree_classifications then salvage_worktree now token r nj ws
                  else Inr (ws, [])) (\<lambda>(ws1, a3).
             let actions = a1 @ a2 @ a3; r1 = salvaged_record actions r
             in sbind (save_recovery r1 d2) (\<lambda>d3.
                  Inr ((record_recovery_event now r1 ReSalvageCompleted
                          [(''actions'', JArr (map JStr actions))] d3, ws1), r1)))))))"

section \<open>Takeover\<close>

definition goal_has_ever_been_envelope_governed :: "db \<Rightarrow> uuid \<Rightarrow> uuid \<Rightarrow> bool" where
  "goal_has_ever_been_envelope_governed d owner gid \<longleftrightarrow> (owner, gid) \<in> set (envelopes d)"

definition fence_error :: "error \<Rightarrow> error" where
  "fence_error e =
     (case e of JobNotSupersedable _ \<Rightarrow> TakeoverFailed ''could not fence the dead job''
              | JobNotDeclinable _ \<Rightarrow> TakeoverFailed ''could not fence the dead job''
              | _ \<Rightarrow> e)"

definition fenced :: "error + 'a \<Rightarrow> error + 'a" where
  "fenced m = (case m of Inl e \<Rightarrow> Inl (fence_error e) | Inr x \<Rightarrow> Inr x)"

definition decline_takeover_for_governed_goal ::
  "time \<Rightarrow> uuid \<Rightarrow> recovery_record \<Rightarrow> db \<Rightarrow> error + (db \<times> recovery_record)" where
  "decline_takeover_for_governed_goal now tid r d =
     sbind (reset_task_for_takeover now tid d) (\<lambda>d1.
     sbind (save_recovery (r\<lparr>r_status := RTakingOver\<rparr>) d1) (\<lambda>d2.
     sbind (fenced (mark_job_failed_after_governed_recovery_decline now (r_job r) d2)) (\<lambda>d3.
       let d4 = record_recovery_event now r ReTakeoverDeclinedGoverned
                  [(''dead_job_id'', JStr (uuid_str (r_job r)))] d3;
           r1 = r\<lparr>r_status := RCompleted, r_completed_at := Some now\<rparr>
       in sbind (save_recovery r1 d4) (\<lambda>d5. Inr (d5, r1)))))"

text \<open>After the fence the record is stored twice: as taken over, then as completed.\<close>

definition taken_over_record :: "string \<Rightarrow> uuid \<Rightarrow> recovery_record \<Rightarrow> recovery_record" where
  "taken_over_record who i r =
     r\<lparr>r_status := RTakenOver, r_takeover_executor := Some who, r_takeover_job := Some i\<rparr>"

definition completed_record :: "time \<Rightarrow> recovery_record \<Rightarrow> recovery_record" where
  "completed_record now r = r\<lparr>r_status := RCompleted, r_completed_at := Some now\<rparr>"

definition close_takeover ::
  "time \<Rightarrow> string \<Rightarrow> recovery_record \<Rightarrow> uuid \<Rightarrow> db \<Rightarrow> error + (db \<times> recovery_record)" where
  "close_takeover now who r i d =
     sbind (save_recovery (taken_over_record who i r) d) (\<lambda>d1.
       let d2 = record_recovery_event now (taken_over_record who i r) ReTakeoverCompleted
                  [(''dead_job_id'', JStr (uuid_str (r_job r))), (''new_job_id'', JStr (uuid_str i))] d1;
           r1 = completed_record now (taken_over_record who i r)
       in sbind (save_recovery r1 d2) (\<lambda>d3. Inr (d3, r1)))"

definition take_over ::
  "runtime_env \<Rightarrow> (db \<Rightarrow> db) \<Rightarrow> github_refs \<Rightarrow> time \<Rightarrow> uuid \<Rightarrow> string \<Rightarrow> mainai_task \<Rightarrow> mainai_goal \<Rightarrow>
   recovery_record \<Rightarrow> string \<Rightarrow> db \<times> workspace \<Rightarrow>
   error + ((db \<times> workspace) \<times> recovery_record \<times> mainai_job)" where
  "take_over env others gh now fresh token t g r who = (\<lambda>(d, ws).
     sbind (reset_task_for_takeover now (t_id t) d) (\<lambda>d1.
     sbind (dispatch_ready_task env others now fresh (t_id t) g who d1) (\<lambda>(d2, j).
     sbind (salvage_recovery_record gh now token t g r (j_id j) (d2, ws)) (\<lambda>((d3, ws1), r1).
     sbind (save_recovery (r1\<lparr>r_status := RTakingOver\<rparr>) d3) (\<lambda>d4.
     sbind (fenced (mark_job_superseded now (r_job r) (j_id j) d4)) (\<lambda>d5.
     sbind (close_takeover now who r1 (j_id j) d5) (\<lambda>(d6, r2).
       Inr ((d6, ws1), r2, j))))))))"

definition execute_takeover ::
  "runtime_env \<Rightarrow> (db \<Rightarrow> db) \<Rightarrow> github_refs \<Rightarrow> time \<Rightarrow> uuid \<Rightarrow> string \<Rightarrow> mainai_task \<Rightarrow> mainai_goal \<Rightarrow>
   recovery_record \<Rightarrow> string \<Rightarrow> db \<times> workspace \<Rightarrow>
   error + ((db \<times> workspace) \<times> recovery_record \<times> mainai_job option)" where
  "execute_takeover env others gh now fresh token t g r dispatched_by = (\<lambda>(d, ws).
     if r_status r \<noteq> RClassified then Inl (TakeoverFailed ''not classified'')
     else if r_classification r \<notin> Some ` auto_salvageable then Inl (TakeoverFailed ''not auto-salvageable'')
     else
       sbind (require_recovery_approval d r ''standard_recovery'') (\<lambda>_.
         let d0 = record_recovery_event now r ReTakeoverStarted [(''dispatched_by'', JStr dispatched_by)] d
         in if find_row (\<lambda>x. g_id x = g_id g \<and> g_owner x = g_owner g) (goals d0) = None
            then Inl (RowMissing (g_id g))
            else if goal_has_ever_been_envelope_governed d0 (g_owner g) (g_id g)
            then sbind (decline_takeover_for_governed_goal now (t_id t) r d0) (\<lambda>(d1, r1).
                   Inr ((d1, ws), r1, None))
            else sbind (take_over env others gh now fresh token t g r dispatched_by (d0, ws))
                   (\<lambda>(s, r1, j). Inr (s, r1, Some j))))"

section \<open>What each stage leaves alone\<close>

lemma recovery_event_deps [simp]:
  "task_deps (record_recovery_event now r ty detail d) = task_deps d"
  by (simp add: record_recovery_event_def)

lemma record_checkpoint_frame [simp]:
  "recovery_records (record_checkpoint now t g j s data d) = recovery_records d"
  "tasks (record_checkpoint now t g j s data d) = tasks d"
  "jobs (record_checkpoint now t g j s data d) = jobs d"
  "goals (record_checkpoint now t g j s data d) = goals d"
  by (simp_all add: record_checkpoint_def)

lemma copy_checkpoint_frame:
  "copy_checkpoint now t g oj nj s d = Inr (d', b) \<Longrightarrow>
     recovery_records d' = recovery_records d \<and> tasks d' = tasks d \<and> jobs d' = jobs d \<and> goals d' = goals d"
  by (auto simp: copy_checkpoint_def split: option.splits)

lemma salvage_results_frame:
  "salvage_results now t g r nj d = Inr (d', a) \<Longrightarrow>
     recovery_records d' = recovery_records d \<and> tasks d' = tasks d \<and> jobs d' = jobs d \<and> goals d' = goals d"
  unfolding salvage_results_def
  by (auto elim!: sbind_InrE split: if_splits dest!: copy_checkpoint_frame)

lemma salvage_push_frame:
  "salvage_push gh now t g r nj d = Inr (d', a) \<Longrightarrow>
     recovery_records d' = recovery_records d \<and> tasks d' = tasks d \<and> jobs d' = jobs d \<and> goals d' = goals d"
  unfolding salvage_push_def
  by (auto elim!: sbind_InrE simp: Let_def split: if_splits json.splits)

text \<open>A step of the record: stored under the same key, everything else in the database as before.\<close>

definition record_step :: "recovery_record \<Rightarrow> db \<Rightarrow> recovery_record \<Rightarrow> db \<Rightarrow> bool" where
  "record_step r d r' d' \<longleftrightarrow>
     recoveries_ok d' \<and> r' \<in> set (recovery_records d') \<and> r_id r' = r_id r \<and> r_job r' = r_job r \<and>
     tasks d' = tasks d \<and> jobs d' = jobs d \<and> goals d' = goals d"

lemma save_recovery_step:
  assumes "recoveries_ok d" and "r \<in> set (recovery_records d)" and "save_recovery r' d = Inr d'"
    and "r_id r' = r_id r" and "r_job r' = r_job r"
  shows "record_step r d r' d'"
proof -
  from save_recovery_row [OF assms(1,2,4,5,3)] have "recoveries_ok d'" "r' \<in> set (recovery_records d')"
    and same: "db_but_recoveries d' = db_but_recoveries d" by blast+
  with assms(4,5) db_but_recoveries_eqD [OF same] show ?thesis by (simp add: record_step_def)
qed

lemma record_step_event [simp]:
  "record_step r d r' (record_recovery_event now x ty detail d') = record_step r d r' d'"
  "record_step r (record_recovery_event now x ty detail d) r' d' = record_step r d r' d'"
  by (simp_all add: record_step_def)

lemma record_step_trans:
  "record_step r d r1 d1 \<Longrightarrow> record_step r1 d1 r2 d2 \<Longrightarrow> record_step r d r2 d2"
  by (simp add: record_step_def)

lemma salvage_step:
  assumes "recoveries_ok d" and "r \<in> set (recovery_records d)"
    and "salvage_recovery_record gh now token t g r nj (d, ws) = Inr ((d', ws'), r')"
  shows "record_step r d r' d' \<and> r_classification r' = r_classification r"
proof -
  obtain c where c: "r_classification r = Some c" "r_status r = RClassified" "c \<in> auto_salvageable"
    using assms(3) unfolding salvage_recovery_record_def prod.case
    by (cases "r_classification r"; cases "r_status r = RClassified"; cases "the (r_classification r) \<in> auto_salvageable") simp_all
  from assms(3) obtain d0 d1 a1 d2 a2 d3 where
    s0: "save_recovery (r\<lparr>r_status := RSalvaging\<rparr>) d = Inr d0"
    and s1: "salvage_results now t g r nj (record_recovery_event now r ReSalvageStarted
               [(''classification'', JStr (classification_value c))] d0) = Inr (d1, a1)"
    and s2: "(if c \<in> pushed_classifications then salvage_push gh now t g r nj d1 else Inr (d1, [])) = Inr (d2, a2)"
    and r': "\<exists>act. r' = salvaged_record act r"
    and s3: "save_recovery r' d2 = Inr d3"
    and d': "\<exists>ev. d' = record_recovery_event now r' ReSalvageCompleted ev d3"
    unfolding salvage_recovery_record_def Let_def by (auto elim!: sbind_InrE simp: c; blast)
  let ?r0 = "r\<lparr>r_status := RSalvaging\<rparr>"
  from save_recovery_step [OF assms(1,2) s0] have one: "record_step r d ?r0 d0" by simp
  from salvage_results_frame [OF s1] salvage_push_frame [of gh now t g r nj d1 d2 a2] s2
  have same: "recovery_records d2 = recovery_records d0 \<and> tasks d2 = tasks d0 \<and> jobs d2 = jobs d0 \<and> goals d2 = goals d0"
    by (auto split: if_splits)
  have "recoveries_ok d2" "?r0 \<in> set (recovery_records d2)"
    using one same by (simp_all add: record_step_def recoveries_ok_def recovery_table.sound_def)
  from save_recovery_step [OF this s3] have "record_step ?r0 d2 r' d3" using r' by (auto simp: salvaged_record_def)
  with one same d' r' show ?thesis by (auto simp: record_step_def salvaged_record_def)
qed

section \<open>What a takeover does\<close>

lemma reset_InrE:
  assumes "tasks_ok d" and "t \<in> set (tasks d)" and "reset_task_for_takeover now (t_id t) d = Inr d'"
  shows "t_status t = TRunning \<and> tasks_ok d' \<and> t\<lparr>t_status := TReady\<rparr> \<in> set (tasks d') \<and>
    tasks d' = update_rows (\<lambda>x. t_id x = t_id t) (\<lambda>_. t\<lparr>t_status := TReady\<rparr>) (tasks d) \<and>
    jobs d' = jobs d \<and> goals d' = goals d \<and> recovery_records d' = recovery_records d"
proof -
  let ?f = "\<lambda>r. r\<lparr>t_status := TReady\<rparr>"
  have lock: "lock_task (t_id t) d = Inr t" by (rule lock_task_of [OF assms(1,2)])
  from assms(3) obtain evs where run: "t_status t = TRunning"
    and w: "write_task (t_id t) ?f evs d = Inr d'"
    by (auto simp: reset_task_for_takeover_def lock split: if_splits)
  from write_task_ok [OF assms(1) w] have ok: "tasks_ok d'" by simp
  from w have "tasks d' = update_rows (\<lambda>x. t_id x = t_id t) ?f (tasks d)" "jobs d' = jobs d" "goals d' = goals d"
    "recovery_records d' = recovery_records d"
    by (auto simp: write_task_def split: if_splits)
  with run ok assms(1,2) update_rows_unique [of t_id "tasks d" t ?f] show ?thesis
    by (auto simp: tasks_ok_def in_update_rows_iff)
qed

lemma update_dead_job:
  assumes "sql_update_jobs (dead_job now d jid) f d = Inr (d', n)" and "n \<noteq> 0"
    and "unique_key j_id (jobs d)"
  shows "jobs d' = update_rows (\<lambda>j. j_id j = jid) f (jobs d) \<and> (\<exists>j\<in>set (jobs d). dead_job now d jid j) \<and>
    tasks d' = tasks d \<and> recovery_records d' = recovery_records d"
proof -
  from assms(1,2) have d': "d' = d\<lparr>jobs := update_rows (dead_job now d jid) f (jobs d)\<rparr>"
    and ex: "\<exists>j\<in>set (jobs d). dead_job now d jid j"
    by (auto simp: sql_update_jobs_Inr_iff filter_empty_conv)
  then obtain j where j: "j \<in> set (jobs d)" "dead_job now d jid j" by blast
  have "dead_job now d jid x \<longleftrightarrow> j_id x = jid" if "x \<in> set (jobs d)" for x
    using j that unique_key_eqD [OF assms(3) that j(1)] by (auto simp: dead_job_def)
  then have "update_rows (dead_job now d jid) f (jobs d) = update_rows (\<lambda>j. j_id j = jid) f (jobs d)"
    by (auto simp: update_rows_def)
  with d' ex show ?thesis by simp
qed

lemma dispatch_Inr:
  assumes "tasks_ok d" and "t \<in> set (tasks d)"
    and "find_row (\<lambda>g. g_id g = t_goal t \<and> g_owner g = t_owner t) (goals d) = Some goal"
    and "fresh \<notin> j_id ` set (jobs d)"
    and "find_row (same_key (t_owner t) (Some (dispatch_key (t_id t) (t_attempts t)))) (jobs d) = None"
    and "dispatch_ready_task env (\<lambda>d. d) now fresh (t_id t) goal who d = Inr (d', j)"
  shows "d' = after_dispatch now fresh who t d \<and> j = dispatch_job now fresh who t \<and>
    require_task_approval d t (g_approval_policy goal) = Inr () \<and> t_attempts t < t_max_attempts t"
proof -
  from dispatch_outcome [OF assms(1-5), of env now who] assms(6)
  have "t_status t = TReady" "require_task_approval d t (g_approval_policy goal) = Inr ()"
    "t_attempts t < t_max_attempts t" "role_configured env ''chat''" by simp_all
  with dispatch_succeeds [OF assms(1,2) _ assms(3-5)] assms(6) show ?thesis
    by (simp add: require_task_execution)
qed

lemma fenced_Inr [simp]: "fenced m = Inr x \<longleftrightarrow> m = Inr x"
  by (cases m) (simp_all add: fenced_def)

lemma after_dispatch_recovery [simp]:
  "recovery_records (after_dispatch now fresh who t d) = recovery_records d"
  "recoveries_ok (after_dispatch now fresh who t d) = recoveries_ok d"
  by (simp_all add: after_dispatch_def record_audit_def record_event_def recoveries_ok_def recovery_table.sound_def)

definition retired :: "job_status \<Rightarrow> uuid option \<Rightarrow> time \<Rightarrow> mainai_job \<Rightarrow> mainai_job" where
  "retired s succ now j =
     j\<lparr>j_status := s, j_completed_at := coalesce_now now (j_completed_at j),
       j_superseded_by := (case succ of None \<Rightarrow> j_superseded_by j | Some i \<Rightarrow> Some i),
       j_error_category := (if s = JFailed then Some ErrPermanent else j_error_category j)\<rparr>"

lemma retired_fields [simp]: "j_status (retired s succ now j) = s" "j_id (retired s succ now j) = j_id j"
  by (simp_all add: retired_def)

lemma superseded_row:
  assumes "mark_job_superseded now jid i d = Inr d'" and "unique_key j_id (jobs d)"
  shows "jobs d' = update_rows (\<lambda>j. j_id j = jid) (retired JSuperseded (Some i) now) (jobs d) \<and>
    (\<exists>j\<in>set (jobs d). dead_job now d jid j) \<and>
    tasks d' = tasks d \<and> recovery_records d' = recovery_records d"
proof -
  have f: "(\<lambda>j. j\<lparr>j_status := JSuperseded, j_completed_at := coalesce_now now (j_completed_at j),
      j_superseded_by := Some i\<rparr>) = retired JSuperseded (Some i) now"
    by (simp add: fun_eq_iff retired_def)
  from assms(1) obtain n where "sql_update_jobs (dead_job now d jid) (retired JSuperseded (Some i) now) d = Inr (d', n)" "n \<noteq> 0"
    unfolding mark_job_superseded_def f by (auto elim!: sbind_InrE split: if_splits)
  from update_dead_job [OF this assms(2)] show ?thesis .
qed

lemma declined_row:
  assumes "mark_job_failed_after_governed_recovery_decline now jid d = Inr d'" and "unique_key j_id (jobs d)"
  shows "jobs d' = update_rows (\<lambda>j. j_id j = jid) (retired JFailed None now) (jobs d) \<and>
    (\<exists>j\<in>set (jobs d). dead_job now d jid j) \<and>
    tasks d' = tasks d \<and> recovery_records d' = recovery_records d"
proof -
  have f: "(\<lambda>j. j\<lparr>j_status := JFailed, j_completed_at := coalesce_now now (j_completed_at j),
      j_error_category := Some ErrPermanent\<rparr>) = retired JFailed None now"
    by (simp add: fun_eq_iff retired_def)
  from assms(1) obtain n where "sql_update_jobs (dead_job now d jid) (retired JFailed None now) d = Inr (d', n)" "n \<noteq> 0"
    unfolding mark_job_failed_after_governed_recovery_decline_def f by (auto elim!: sbind_InrE split: if_splits)
  from update_dead_job [OF this assms(2)] show ?thesis .
qed

text \<open>The job that died: its lease ran out, or it ended although its task still runs.\<close>

definition died :: "time \<Rightarrow> db \<Rightarrow> uuid \<Rightarrow> bool" where
  "died now d jid \<longleftrightarrow> (\<exists>j\<in>set (jobs d). j_id j = jid \<and>
     (j_status j = JRunning \<and> lease_expired now j \<or> j_status j \<in> {JFailed, JCompleted, JCancelled}))"

lemma diedI: "\<exists>j\<in>set js. dead_job now d' jid j \<Longrightarrow> set js \<subseteq> set (jobs d) \<Longrightarrow> died now d jid"
  unfolding died_def dead_job_def by blast

lemma decline_effect:
  assumes "tasks_ok d" and "t \<in> set (tasks d)" and "unique_key j_id (jobs d)"
    and "recoveries_ok d" and "r \<in> set (recovery_records d)"
    and "decline_takeover_for_governed_goal now (t_id t) r d = Inr (d', r')"
  shows "t_status t = TRunning \<and> died now d (r_job r) \<and>
    tasks d' = update_rows (\<lambda>x. t_id x = t_id t) (\<lambda>_. t\<lparr>t_status := TReady\<rparr>) (tasks d) \<and>
    jobs d' = update_rows (\<lambda>j. j_id j = r_job r) (retired JFailed None now) (jobs d) \<and>
    r' \<in> set (recovery_records d') \<and> r' = r\<lparr>r_status := RCompleted, r_completed_at := Some now\<rparr>"
proof -
  from assms(6) obtain d1 d2 d3 d4 where
    a: "reset_task_for_takeover now (t_id t) d = Inr d1"
    and b: "save_recovery (r\<lparr>r_status := RTakingOver\<rparr>) d1 = Inr d2"
    and c: "mark_job_failed_after_governed_recovery_decline now (r_job r) d2 = Inr d3"
    and e: "save_recovery r' d4 = Inr d'" and d4: "\<exists>ev. d4 = record_recovery_event now r ReTakeoverDeclinedGoverned ev d3"
    and r': "r' = r\<lparr>r_status := RCompleted, r_completed_at := Some now\<rparr>"
    unfolding decline_takeover_for_governed_goal_def Let_def by (auto elim!: sbind_InrE; blast)
  from reset_InrE [OF assms(1,2) a] have one: "t_status t = TRunning"
    "tasks d1 = update_rows (\<lambda>x. t_id x = t_id t) (\<lambda>_. t\<lparr>t_status := TReady\<rparr>) (tasks d)"
    "jobs d1 = jobs d" "recovery_records d1 = recovery_records d" by blast+
  have "recoveries_ok d1" "r \<in> set (recovery_records d1)"
    using assms(4,5) one(4) by (simp_all add: recoveries_ok_def recovery_table.sound_def)
  from save_recovery_step [OF this b] have two: "record_step r d1 (r\<lparr>r_status := RTakingOver\<rparr>) d2" by simp
  from declined_row [OF c] two one(3) assms(3) have
    jobs3: "jobs d3 = update_rows (\<lambda>j. j_id j = r_job r) (retired JFailed None now) (jobs d)"
    and dead: "\<exists>j\<in>set (jobs d). dead_job now d2 (r_job r) j"
    and same: "tasks d3 = tasks d2" "recovery_records d3 = recovery_records d2"
    by (simp_all add: record_step_def)
  let ?r1 = "r\<lparr>r_status := RTakingOver\<rparr>"
  have "recoveries_ok d4" "?r1 \<in> set (recovery_records d4)" and "tasks d4 = tasks d2" "jobs d4 = jobs d3"
    using two d4 same by (auto simp: record_step_def recoveries_ok_def recovery_table.sound_def)
  with save_recovery_step [of d4 ?r1 r' d'] e r' have "record_step ?r1 d4 r' d'" by simp
  with \<open>tasks d4 = tasks d2\<close> \<open>jobs d4 = jobs d3\<close> two one jobs3 dead r' show ?thesis
    by (auto simp: record_step_def intro: diedI)
qed

text \<open>The task as its new attempt finds it.\<close>

definition taken_task :: "time \<Rightarrow> uuid \<Rightarrow> mainai_task \<Rightarrow> mainai_task" where
  "taken_task now i t =
     t\<lparr>t_status := TRunning,
       t_started_at := (case t_started_at t of None \<Rightarrow> Some now | Some s \<Rightarrow> Some s),
       t_attempts := t_attempts t + 1, t_job := Some i\<rparr>"

lemma close_takeover_step:
  assumes "recoveries_ok d" and "r \<in> set (recovery_records d)"
    and "close_takeover now who (r\<lparr>r_status := s\<rparr>) i d = Inr (d', r')"
  shows "record_step r d r' d' \<and> r_status r' = RCompleted \<and> r_takeover_job r' = Some i"
proof -
  have eq: "taken_over_record who i (r\<lparr>r_status := s\<rparr>) = taken_over_record who i r"
    by (simp add: taken_over_record_def)
  from assms(3) obtain d1 d2 where a: "save_recovery (taken_over_record who i r) d = Inr d1"
    and b: "save_recovery r' d2 = Inr d'" and r': "r' = completed_record now (taken_over_record who i r)"
    and d2: "\<exists>ev. d2 = record_recovery_event now (taken_over_record who i r) ReTakeoverCompleted ev d1"
    unfolding close_takeover_def eq Let_def by (auto elim!: sbind_InrE)
  from save_recovery_step [OF assms(1,2) a] have one: "record_step r d (taken_over_record who i r) d1"
    by (simp add: taken_over_record_def)
  with d2 have "record_step r d (taken_over_record who i r) d2" by auto
  moreover from this save_recovery_step [of d2 "taken_over_record who i r" r' d'] b r'
  have "record_step (taken_over_record who i r) d2 r' d'" by (simp add: record_step_def completed_record_def)
  ultimately show ?thesis using r'
    by (auto simp: completed_record_def taken_over_record_def intro: record_step_trans)
qed

lemma take_over_InrE:
  assumes "take_over env others gh now fresh token t g r who (d, ws) = Inr ((d', ws'), r', j)"
  obtains d1 d2 d3 r1 d4 d5 where "reset_task_for_takeover now (t_id t) d = Inr d1"
    and "dispatch_ready_task env others now fresh (t_id t) g who d1 = Inr (d2, j)"
    and "salvage_recovery_record gh now token t g r (j_id j) (d2, ws) = Inr ((d3, ws'), r1)"
    and "save_recovery (r1\<lparr>r_status := RTakingOver\<rparr>) d3 = Inr d4"
    and "mark_job_superseded now (r_job r) (j_id j) d4 = Inr d5"
    and "close_takeover now who r1 (j_id j) d5 = Inr (d', r')"
  using assms unfolding take_over_def by (auto elim!: sbind_InrE)

lemma takeover_effect:
  assumes ok: "tasks_ok d" "t \<in> set (tasks d)" "unique_key j_id (jobs d)"
      "recoveries_ok d" "r \<in> set (recovery_records d)"
    and goal: "find_row (\<lambda>g. g_id g = t_goal t \<and> g_owner g = t_owner t) (goals d) = Some g"
    and fresh: "fresh \<notin> j_id ` set (jobs d)"
    and key: "find_row (same_key (t_owner t) (Some (dispatch_key (t_id t) (t_attempts t)))) (jobs d) = None"
    and run: "take_over env (\<lambda>d. d) gh now fresh token t g r who (d, ws) = Inr ((d', ws'), r', j)"
  shows "t_status t = TRunning \<and> t_attempts t < t_max_attempts t \<and>
    require_task_approval d t (g_approval_policy g) = Inr () \<and> died now d (r_job r) \<and>
    tasks d' = update_rows (\<lambda>x. t_id x = t_id t) (\<lambda>_. taken_task now fresh t) (tasks d) \<and>
    jobs d' = update_rows (\<lambda>j. j_id j = r_job r) (retired JSuperseded (Some fresh) now) (jobs d) @ [j] \<and>
    j = dispatch_job now fresh who t \<and> r' \<in> set (recovery_records d') \<and>
    r_status r' = RCompleted \<and> r_takeover_job r' = Some fresh"
proof -
  from run obtain d1 d2 d3 r1 d4 d5 where
    run: "reset_task_for_takeover now (t_id t) d = Inr d1"
      "dispatch_ready_task env (\<lambda>d. d) now fresh (t_id t) g who d1 = Inr (d2, j)"
      "salvage_recovery_record gh now token t g r (j_id j) (d2, ws) = Inr ((d3, ws'), r1)"
      "save_recovery (r1\<lparr>r_status := RTakingOver\<rparr>) d3 = Inr d4"
      "mark_job_superseded now (r_job r) (j_id j) d4 = Inr d5"
      "close_takeover now who r1 (j_id j) d5 = Inr (d', r')" by (rule take_over_InrE)
  let ?t1 = "t\<lparr>t_status := TReady\<rparr>"
  from reset_InrE [OF ok(1,2) run(1)] have one: "t_status t = TRunning" "tasks_ok d1" "?t1 \<in> set (tasks d1)"
    "tasks d1 = update_rows (\<lambda>x. t_id x = t_id t) (\<lambda>_. ?t1) (tasks d)"
    "jobs d1 = jobs d" "goals d1 = goals d" "recovery_records d1 = recovery_records d" by blast+
  have appr: "require_task_approval d1 ?t1 p = Inr () \<longleftrightarrow> require_task_approval d t p = Inr ()" for p
  proof -
    have "approval_granted d1 (t_id t) = approval_granted d (t_id t)"
      using run(1) lock_task_of [OF ok(1,2)]
      by (auto simp: reset_task_for_takeover_def write_task_def approval_granted_def task_event_row_def split: if_splits)
    then show ?thesis by (simp add: require_task_approval_Inr_iff)
  qed
  from dispatch_Inr [of d1 ?t1 g fresh env now who d2 j] one goal fresh key run(2)
  have two: "d2 = after_dispatch now fresh who ?t1 d1" "j = dispatch_job now fresh who ?t1"
    "require_task_approval d t (g_approval_policy g) = Inr ()" "t_attempts t < t_max_attempts t"
    by (simp_all add: appr)
  have j: "j = dispatch_job now fresh who t" using two(2) by (simp add: dispatch_job_def)
  have "dispatched now ?t1\<lparr>t_job := Some fresh\<rparr> = taken_task now fresh t"
    by (simp add: dispatched_def taken_task_def)
  then have tasks2: "tasks d2 = update_rows (\<lambda>x. t_id x = t_id t) (\<lambda>_. taken_task now fresh t) (tasks d)"
    using two(1) one(4) by (simp add: update_rows_def)
  have ok2: "recoveries_ok d2" "r \<in> set (recovery_records d2)"
    using two(1) one(7) ok(4,5) by (simp_all add: recoveries_ok_def recovery_table.sound_def)
  from salvage_step [OF ok2 run(3)] have three: "record_step r d2 r1 d3" by simp
  let ?ra = "r1\<lparr>r_status := RTakingOver\<rparr>"
  from three run(4) save_recovery_step [of d3 r1 ?ra d4] have four: "record_step r1 d3 ?ra d4"
    by (simp add: record_step_def)
  have jobs4: "jobs d4 = jobs d @ [j]" using three four two(1) one(5) j
    by (simp add: record_step_def dispatch_job_def)
  have jid: "j_id j = fresh" by (simp add: j)
  have uk: "unique_key j_id (jobs d4)" using ok(3) fresh jobs4 jid by (simp add: unique_key_snoc)
  from superseded_row [OF run(5) uk] have five: "recovery_records d5 = recovery_records d4" "tasks d5 = tasks d4"
    and jobs5: "jobs d5 = update_rows (\<lambda>x. j_id x = r_job r) (retired JSuperseded (Some fresh) now) (jobs d @ [j])"
    and dead: "\<exists>x\<in>set (jobs d @ [j]). dead_job now d4 (r_job r) x"
    by (simp_all add: jobs4 jid)
  have "\<not> dead_job now d4 (r_job r) j" by (simp add: dead_job_def j)
  with dead have dead': "\<exists>x\<in>set (jobs d). dead_job now d4 (r_job r) x" by auto
  then obtain x where "x \<in> set (jobs d)" "j_id x = r_job r" by (auto simp: dead_job_def)
  with fresh have "r_job r \<noteq> fresh" by (metis image_eqI)
  with jobs5 have jobs5': "jobs d5 = update_rows (\<lambda>x. j_id x = r_job r) (retired JSuperseded (Some fresh) now) (jobs d) @ [j]"
    by (simp add: update_rows_def jid)
  have close: "close_takeover now who (?ra\<lparr>r_status := r_status r1\<rparr>) (j_id j) d5 = Inr (d', r')"
    using run(6) by simp
  have "recoveries_ok d5" "?ra \<in> set (recovery_records d5)"
    using four five by (simp_all add: record_step_def recoveries_ok_def recovery_table.sound_def)
  from close_takeover_step [OF this close] have
    seven: "record_step ?ra d5 r' d'" "r_status r' = RCompleted" "r_takeover_job r' = Some fresh"
    by (simp_all add: jid)
  have "tasks d' = tasks d2" "jobs d' = jobs d5" "r' \<in> set (recovery_records d')"
    using three four five(2) seven by (simp_all add: record_step_def)
  with one two j tasks2 jobs5' diedI [OF dead', of d] seven(2,3) show ?thesis by simp
qed


text \<open>An attempt that dies on the last budgeted try cannot be recovered. A takeover resets the task and
  counts a new attempt without having given back the one that died, so for a task whose attempts are used
  up it violates the budget check of the task table instead of failing the task.\<close>

theorem last_attempt_not_recoverable:
  assumes "tasks_ok d" "t \<in> set (tasks d)" "t_status t = TRunning" "t_attempts t = t_max_attempts t"
    and "find_row (\<lambda>g. g_id g = t_goal t \<and> g_owner g = t_owner t) (goals d) = Some g"
    and "\<not> goal_has_ever_been_envelope_governed d (g_owner g) (g_id g)"
    and "r_status r = RClassified" "r_classification r = Some c" "c \<in> auto_salvageable"
    and "require_recovery_approval d r ''standard_recovery'' = Inr ()"
    and "require_task_approval d t (g_approval_policy g) = Inr ()"
  shows "execute_takeover env others gh now fresh token t g r who (d, ws) = Inl CheckViolation"
proof -
  let ?d0 = "record_recovery_event now r ReTakeoverStarted [(''dispatched_by'', JStr who)] d"
  have ok0: "tasks_ok ?d0" "t \<in> set (tasks ?d0)" using assms(1,2) by (simp_all add: tasks_ok_def)
  have lock: "lock_task (t_id t) ?d0 = Inr t" by (rule lock_task_of [OF ok0])
  have tc: "task_checks (t\<lparr>t_status := TReady\<rparr>)"
    using assms(1-3) by (auto simp: tasks_ok_def task_checks_def terminal_task_statuses_def)
  then obtain d1 where reset: "reset_task_for_takeover now (t_id t) ?d0 = Inr d1"
    using assms(3) by (simp add: reset_task_for_takeover_def lock write_task_locked [OF ok0(1) lock])
  from reset_InrE [OF ok0 reset] have one: "tasks_ok d1" "t\<lparr>t_status := TReady\<rparr> \<in> set (tasks d1)" by blast+
  have lock1: "lock_task (t_id t) d1 = Inr (t\<lparr>t_status := TReady\<rparr>)"
    using lock_task_of [OF one] by simp
  have "approval_granted d1 (t_id t) = approval_granted d (t_id t)"
    using reset lock by (auto simp: reset_task_for_takeover_def write_task_def approval_granted_def
        task_event_row_def split: if_splits)
  then have appr: "require_task_approval d1 (t\<lparr>t_status := TReady\<rparr>) (g_approval_policy g) = Inr ()"
    using assms(11) by (simp add: require_task_approval_Inr_iff)
  have "\<not> task_checks (dispatched now (t\<lparr>t_status := TReady\<rparr>))"
    using assms(4) by (simp add: task_checks_def)
  then have "dispatch_ready_task env others now fresh (t_id t) g who d1 = Inl CheckViolation"
    by (simp add: dispatch_ready_task_def lock1 appr write_task_locked [OF one(1) lock1])
  then have "take_over env others gh now fresh token t g r who (?d0, ws) = Inl CheckViolation"
    by (simp add: take_over_def reset)
  moreover have "find_row (\<lambda>x. g_id x = g_id g \<and> g_owner x = g_owner g) (goals d) \<noteq> None"
    using find_row_SomeD [OF assms(5)] by (auto simp: find_row_None_iff)
  then obtain g0 where "find_row (\<lambda>x. g_id x = g_id g \<and> g_owner x = g_owner g) (goals d) = Some g0" by blast
  moreover have "\<not> goal_has_ever_been_envelope_governed ?d0 (g_owner g) (g_id g)"
    using assms(6) by (simp add: goal_has_ever_been_envelope_governed_def)
  ultimately show ?thesis using assms(7-10) by (simp add: execute_takeover_def Let_def)
qed

section \<open>The statements at work\<close>

definition dead_sample_job :: mainai_job where
  "dead_sample_job = (dispatch_job 1 5 ''worker'' (sample_task 1 TRunning))\<lparr>j_status := JRunning,
     j_started_at := Some 1, j_locked_by := Some ''w'', j_lease_expires_at := Some 5,
     j_lease_generation := 1, j_idempotency_key := Some ''first''\<rparr>"

definition dead_sample_record :: recovery_record where
  "dead_sample_record = \<lparr>r_id = 40, r_task = 1, r_owner = 7, r_job = 5,
     r_classification = Some NothingDone, r_evidence = [], r_salvage_action = None,
     r_takeover_executor = None, r_takeover_job = None, r_status = RClassified, r_blocker = None,
     r_manual_review_required = False, r_completed_at = None, r_created_at = 2\<rparr>"

definition dead_sample_db :: db where
  "dead_sample_db = empty_db\<lparr>goals := [sample_goal], tasks := [sample_task 1 TRunning],
     jobs := [dead_sample_job], recovery_records := [dead_sample_record]\<rparr>"

lemma dead_sample_ok:
  "tasks_ok dead_sample_db" "sample_task 1 TRunning \<in> set (tasks dead_sample_db)"
  "unique_key j_id (jobs dead_sample_db)" "recoveries_ok dead_sample_db"
  "dead_sample_record \<in> set (recovery_records dead_sample_db)"
  by (simp_all add: tasks_ok_def unique_key_def dead_sample_db_def sample_task_def task_checks_def
      terminal_task_statuses_def empty_db_def recoveries_ok_def recovery_table.sound_def
      dead_sample_record_def recovery_checks_def)

definition chat_env :: runtime_env where
  "chat_env = \<lparr>role_configured = (\<lambda>r. r = ''chat''), in_production = True\<rparr>"

lemma dead_sample_approval:
  "require_recovery_approval d dead_sample_record ''standard_recovery'' = Inr ()"
  "require_task_approval d (sample_task 1 s) ''standard_repo_work'' = Inr ()"
  by (simp_all add: require_recovery_approval_def dead_sample_record_def recovery_requires_approval_def
      recovery_approval_policies_def require_task_approval_def requires_approval_def approval_policies_def
      sample_task_def)

lemma dead_sample_dispatch:
  assumes "tasks d = [sample_task 1 TReady]" "goals d = [sample_goal]" "jobs d = [dead_sample_job]" "task_deps d = []"
  shows "dispatch_ready_task chat_env (\<lambda>d. d) 9 6 1 sample_goal ''w'' d =
    Inr (after_dispatch 9 6 ''w'' (sample_task 1 TReady) d, dispatch_job 9 6 ''w'' (sample_task 1 TReady))"
proof -
  have "tasks_ok d" using assms
    by (simp add: tasks_ok_def unique_key_def sample_task_def task_checks_def terminal_task_statuses_def)
  from dispatch_succeeds [OF this, of "sample_task 1 TReady" sample_goal 6 chat_env 9 "''w''"] assms
  show ?thesis
    by (simp add: sample_task_def sample_goal_def dead_sample_job_def dispatch_job_def new_job_def same_key_def
        dispatch_key_def require_task_execution chat_env_def require_task_approval_def requires_approval_def
        approval_policies_def)
qed

lemma dead_sample_runs:
  "\<exists>d' r' nj. execute_takeover chat_env (\<lambda>d. d) no_github 9 6 ''tok'' (sample_task 1 TRunning) sample_goal
     dead_sample_record ''w'' (dead_sample_db, no_worktrees) = Inr ((d', no_worktrees), r', nj)"
proof -
  let ?d0 = "record_recovery_event 9 dead_sample_record ReTakeoverStarted [(''dispatched_by'', JStr ''w'')] dead_sample_db"
  have reset: "\<exists>d1. reset_task_for_takeover 9 1 ?d0 = Inr d1 \<and> tasks d1 = [sample_task 1 TReady] \<and>
      goals d1 = [sample_goal] \<and> jobs d1 = [dead_sample_job] \<and> task_deps d1 = [] \<and>
      recovery_records d1 = [dead_sample_record]"
    by (simp add: reset_task_for_takeover_def lock_task_def write_task_def dead_sample_db_def sample_task_def
        task_checks_def terminal_task_statuses_def empty_db_def)
  then obtain d1 where d1: "reset_task_for_takeover 9 1 ?d0 = Inr d1" "tasks d1 = [sample_task 1 TReady]"
    "goals d1 = [sample_goal]" "jobs d1 = [dead_sample_job]" "task_deps d1 = []"
    "recovery_records d1 = [dead_sample_record]" by blast
  let ?j = "dispatch_job 9 6 ''w'' (sample_task 1 TReady)"
  obtain d2 where d2: "dispatch_ready_task chat_env (\<lambda>d. d) 9 6 1 sample_goal ''w'' d1 = Inr (d2, ?j)"
    "recovery_records d2 = [dead_sample_record]" "jobs d2 = [dead_sample_job, ?j]"
    using dead_sample_dispatch [OF d1(2-5)] d1(4,6) by (auto simp: dispatch_job_def sample_task_def)
  let ?r1 = "salvaged_record [] dead_sample_record"
  have "\<exists>d3. salvage_recovery_record no_github 9 ''tok'' (sample_task 1 TRunning) sample_goal dead_sample_record
      6 (d2, no_worktrees) = Inr ((d3, no_worktrees), ?r1) \<and> recovery_records d3 = [?r1] \<and> jobs d3 = jobs d2"
    by (simp add: salvage_recovery_record_def dead_sample_record_def auto_salvageable_def save_recovery_def
        write_recovery_def d2(2) recovery_checks_def salvage_results_def pushed_classifications_def
        local_worktree_classifications_def salvaged_record_def Let_def)
  then obtain d3 where d3: "salvage_recovery_record no_github 9 ''tok'' (sample_task 1 TRunning) sample_goal
      dead_sample_record 6 (d2, no_worktrees) = Inr ((d3, no_worktrees), ?r1)"
    "recovery_records d3 = [?r1]" "jobs d3 = [dead_sample_job, ?j]" using d2(3) by auto
  have "\<exists>d4 d5 d6 r2. save_recovery (?r1\<lparr>r_status := RTakingOver\<rparr>) d3 = Inr d4 \<and>
      mark_job_superseded 9 5 6 d4 = Inr d5 \<and> close_takeover 9 ''w'' ?r1 6 d5 = Inr (d6, r2)"
    by (simp add: save_recovery_def write_recovery_def d3 salvaged_record_def dead_sample_record_def
        recovery_checks_def mark_job_superseded_def sql_update_jobs_def dead_job_def dead_sample_job_def
        lease_expired_def job_update_ok_def progress_trigger_ok_def job_checks_def checks_0026_def
        checks_0028_def checks_0034_def terminal_job_status_def coalesce_now_def superseded_fk_ok_def
        dispatch_job_def new_job_def Let_def close_takeover_def taken_over_record_def completed_record_def
        record_recovery_event_def)
  then obtain d4 d5 d6 r2 where d6: "save_recovery (?r1\<lparr>r_status := RTakingOver\<rparr>) d3 = Inr d4"
    "mark_job_superseded 9 5 6 d4 = Inr d5" "close_takeover 9 ''w'' ?r1 6 d5 = Inr (d6, r2)" by blast
  have fields: "t_id (sample_task 1 TRunning) = 1" "r_job dead_sample_record = 5" "r_status dead_sample_record = RClassified"
    "r_classification dead_sample_record = Some NothingDone" "goals dead_sample_db = [sample_goal]" "envelopes dead_sample_db = []"
    by (simp_all add: sample_task_def dead_sample_record_def dead_sample_db_def empty_db_def)
  have "take_over chat_env (\<lambda>d. d) no_github 9 6 ''tok'' (sample_task 1 TRunning) sample_goal
      dead_sample_record ''w'' (?d0, no_worktrees) = Inr ((d6, no_worktrees), r2, ?j)"
    by (simp add: take_over_def fields d1(1) d2(1) d3(1) d6 fenced_def)
  then show ?thesis
    by (simp add: execute_takeover_def fields auto_salvageable_def dead_sample_approval Let_def
        goal_has_ever_been_envelope_governed_def)
qed


theorem last_attempt_not_recoverable_witness:
  "execute_takeover chat_env (\<lambda>d. d) no_github 9 6 ''tok'' ((sample_task 1 TRunning)\<lparr>t_attempts := 3\<rparr>)
     sample_goal dead_sample_record ''w''
     (dead_sample_db\<lparr>tasks := [(sample_task 1 TRunning)\<lparr>t_attempts := 3\<rparr>]\<rparr>, no_worktrees) = Inl CheckViolation"
proof -
  let ?t = "(sample_task 1 TRunning)\<lparr>t_attempts := 3\<rparr>" and ?d = "dead_sample_db\<lparr>tasks := [(sample_task 1 TRunning)\<lparr>t_attempts := 3\<rparr>]\<rparr>"
  have "tasks_ok ?d" "?t \<in> set (tasks ?d)" "t_status ?t = TRunning" "t_attempts ?t = t_max_attempts ?t"
    "find_row (\<lambda>g. g_id g = t_goal ?t \<and> g_owner g = t_owner ?t) (goals ?d) = Some sample_goal"
    "\<not> goal_has_ever_been_envelope_governed ?d (g_owner sample_goal) (g_id sample_goal)"
    "r_status dead_sample_record = RClassified" "r_classification dead_sample_record = Some NothingDone"
    "NothingDone \<in> auto_salvageable"
    by (simp_all add: tasks_ok_def unique_key_def sample_task_def task_checks_def terminal_task_statuses_def
        dead_sample_db_def empty_db_def sample_goal_def goal_has_ever_been_envelope_governed_def
        dead_sample_record_def auto_salvageable_def)
  moreover have "require_task_approval ?d ?t (g_approval_policy sample_goal) = Inr ()"
    by (simp add: require_task_approval_def requires_approval_def approval_policies_def sample_task_def sample_goal_def)
  ultimately show ?thesis by (intro last_attempt_not_recoverable dead_sample_approval)
qed

end
