(* ===== verification/Envelopes.thy ===== *)
theory Envelopes
  imports Takeover
begin

text \<open>
  Execution-authorization envelopes: \<open>app/execution_envelopes/service.py\<close>, the two tables of migration
  0057 and their models. A proposed scope grants nothing; the only way to an envelope is
  \<open>authorize_execution_scope\<close>, with the caller's own values. The runtime below it reads an envelope
  only through its existence (\<open>envelopes\<close> of the runtime database is the table seen that way).
\<close>

section \<open>Rows\<close>

datatype scope_status = ScopeUnreviewed | ScopeAuthorized | ScopeRejected

datatype envelope_status = EnvActive | EnvSuperseded

text \<open>The caller-supplied columns of a proposal, the \<open>values\<close> of \<open>propose_execution_scope\<close>.\<close>

record scope_values =
  sv_goal :: uuid
  sv_repository :: "string option"
  sv_paths :: "string list"
  sv_capabilities :: "string list"
  sv_risk :: string
  sv_reasoning :: "string option"
  sv_strategy :: string
  sv_provenance :: jdict

record scope_proposal =
  sp_id :: uuid
  sp_owner :: uuid
  sp_values :: scope_values
  sp_status :: scope_status
  sp_envelope :: "uuid option"
  sp_rejected_reason :: "string option"
  sp_key :: string
  sp_observed_at :: time
  sp_updated_at :: time

record envelope =
  en_id :: uuid
  en_owner :: uuid
  en_goal :: uuid
  en_source_proposal :: "uuid option"
  en_repository :: "string option"
  en_paths :: "string list"
  en_capabilities :: "string list"
  en_risk :: string
  en_authorized_by :: string
  en_authorized_at :: time
  en_status :: envelope_status
  en_supersedes :: "uuid option"
  en_provenance :: jdict
  en_key :: string

record authority =
  au_proposals :: "scope_proposal list"
  au_envelopes :: "envelope list"
  au_base :: db

datatype scope_error =
    ScopeRefused string
  | ScopeKeyReused "string list"
  | ScopeCheckViolation
  | ScopeUniqueViolation
  | ScopeForeignKey
  | ScopeNoRow
  | ScopeManyRows

section \<open>Constraints of migration 0057\<close>

definition known_risks :: "string set" where
  "known_risks = {''low'', ''medium'', ''high''}"

definition proposal_checks :: "scope_proposal \<Rightarrow> bool" where
  "proposal_checks p \<longleftrightarrow>
     sv_risk (sp_values p) \<in> known_risks \<and>
     (sp_status p = ScopeAuthorized \<longrightarrow> sp_envelope p \<noteq> None) \<and>
     length (sv_strategy (sp_values p)) \<le> 64 \<and> length (sp_key p) \<le> 128"

definition envelope_checks :: "envelope \<Rightarrow> bool" where
  "envelope_checks e \<longleftrightarrow>
     en_risk e \<in> known_risks \<and> en_supersedes e \<noteq> Some (en_id e) \<and>
     length (en_authorized_by e) \<le> 64 \<and> length (en_key e) \<le> 128"

definition goal_of_owner :: "uuid \<Rightarrow> uuid \<Rightarrow> mainai_goal \<Rightarrow> bool" where
  "goal_of_owner owner gid g \<longleftrightarrow> g_id g = gid \<and> g_owner g = owner"

definition goal_exists :: "uuid \<Rightarrow> uuid \<Rightarrow> db \<Rightarrow> bool" where
  "goal_exists owner gid d \<longleftrightarrow> find_row (goal_of_owner owner gid) (goals d) \<noteq> None"

section \<open>Proposing\<close>

text \<open>\<open>_same\<close>: the names of the columns in which a replay differs from the stored row.\<close>

definition differing :: "scope_values \<Rightarrow> scope_values \<Rightarrow> string list" where
  "differing a b =
     (if sv_goal a = sv_goal b then [] else [''goal_id'']) @
     (if sv_capabilities a = sv_capabilities b then [] else [''proposed_capabilities'']) @
     (if sv_paths a = sv_paths b then [] else [''proposed_paths'']) @
     (if sv_risk a = sv_risk b then [] else [''proposed_risk'']) @
     (if sv_reasoning a = sv_reasoning b then [] else [''proposal_reasoning'']) @
     (if sv_strategy a = sv_strategy b then [] else [''proposal_strategy'']) @
     (if sv_provenance a = sv_provenance b then [] else [''provenance'']) @
     (if sv_repository a = sv_repository b then [] else [''repository_identity''])"

definition same_proposal :: "scope_proposal \<Rightarrow> scope_values \<Rightarrow> scope_error + scope_proposal" where
  "same_proposal row v =
     (let ds = differing (sp_values row) v
      in if ds = [] then Inr row else Inl (ScopeKeyReused ds))"

definition keyed_proposal :: "uuid \<Rightarrow> string \<Rightarrow> scope_proposal \<Rightarrow> bool" where
  "keyed_proposal owner key p \<longleftrightarrow> sp_owner p = owner \<and> sp_key p = key"

definition new_proposal :: "time \<Rightarrow> uuid \<Rightarrow> uuid \<Rightarrow> string \<Rightarrow> scope_values \<Rightarrow> scope_proposal" where
  "new_proposal now i owner key v =
     \<lparr>sp_id = i, sp_owner = owner, sp_values = v, sp_status = ScopeUnreviewed, sp_envelope = None,
      sp_rejected_reason = None, sp_key = key, sp_observed_at = now, sp_updated_at = now\<rparr>"

text \<open>
  The insert \<open>ON CONFLICT (owner_id, idempotency_key) DO NOTHING\<close>: a CHECK is evaluated before the
  unique index is consulted, the foreign key only for a row that is really inserted.
\<close>

definition insert_proposal ::
  "scope_proposal \<Rightarrow> authority \<Rightarrow> scope_error + (authority \<times> bool)" where
  "insert_proposal p s =
     (if \<not> proposal_checks p then Inl ScopeCheckViolation
      else if find_row (keyed_proposal (sp_owner p) (sp_key p)) (au_proposals s) \<noteq> None then Inr (s, False)
      else if sp_id p \<in> sp_id ` set (au_proposals s) then Inl ScopeUniqueViolation
      else if \<not> goal_exists (sp_owner p) (sv_goal (sp_values p)) (au_base s) then Inl ScopeForeignKey
      else Inr (s\<lparr>au_proposals := au_proposals s @ [p]\<rparr>, True))"

text \<open>\<open>others\<close> is what concurrent sessions commit between the lookup and the insert.\<close>

definition propose_execution_scope ::
  "time \<Rightarrow> uuid \<Rightarrow> (authority \<Rightarrow> authority) \<Rightarrow> uuid \<Rightarrow> string \<Rightarrow> scope_values \<Rightarrow> authority \<Rightarrow>
   scope_error + (authority \<times> scope_proposal)" where
  "propose_execution_scope now i others owner key v s =
     (if \<not> goal_exists owner (sv_goal v) (au_base s) then Inl (ScopeRefused ''goal of another owner'')
      else case find_row (keyed_proposal owner key) (au_proposals s) of
             Some row \<Rightarrow> sbind (same_proposal row v) (\<lambda>r. Inr (s, r))
           | None \<Rightarrow>
               let p = new_proposal now i owner key v in
               sbind (insert_proposal p (others s)) (\<lambda>(s1, inserted).
                 if inserted then Inr (s1, p)
                 else case find_row (keyed_proposal owner key) (au_proposals s1) of
                        None \<Rightarrow> Inl ScopeNoRow
                      | Some winner \<Rightarrow> sbind (same_proposal winner v) (\<lambda>r. Inr (s1, r))))"

section \<open>Review\<close>

definition own_proposal :: "uuid \<Rightarrow> uuid \<Rightarrow> scope_proposal \<Rightarrow> bool" where
  "own_proposal owner pid p \<longleftrightarrow> sp_id p = pid \<and> sp_owner p = owner"

definition unreviewed_proposal :: "uuid \<Rightarrow> uuid \<Rightarrow> authority \<Rightarrow> scope_error + scope_proposal" where
  "unreviewed_proposal owner pid s =
     (case find_row (own_proposal owner pid) (au_proposals s) of
        None \<Rightarrow> Inl (ScopeRefused ''missing or belongs to another owner'')
      | Some p \<Rightarrow>
          if sp_status p \<noteq> ScopeUnreviewed then Inl (ScopeRefused ''already reviewed'') else Inr p)"

definition put_proposal :: "scope_proposal \<Rightarrow> authority \<Rightarrow> scope_error + authority" where
  "put_proposal p s =
     (if proposal_checks p
      then Inr (s\<lparr>au_proposals := update_rows (\<lambda>x. sp_id x = sp_id p) (\<lambda>_. p) (au_proposals s)\<rparr>)
      else Inl ScopeCheckViolation)"

definition reject_execution_scope ::
  "time \<Rightarrow> uuid \<Rightarrow> uuid \<Rightarrow> string \<Rightarrow> authority \<Rightarrow> scope_error + (authority \<times> scope_proposal)" where
  "reject_execution_scope now owner pid reason s =
     sbind (unreviewed_proposal owner pid s) (\<lambda>p.
       let p1 = p\<lparr>sp_status := ScopeRejected, sp_rejected_reason := Some reason, sp_updated_at := now\<rparr>
       in sbind (put_proposal p1 s) (\<lambda>s1. Inr (s1, p1)))"

definition active_envelope :: "uuid \<Rightarrow> uuid \<Rightarrow> envelope \<Rightarrow> bool" where
  "active_envelope owner gid e \<longleftrightarrow> en_owner e = owner \<and> en_goal e = gid \<and> en_status e = EnvActive"

definition scalar_one_or_none :: "'r list \<Rightarrow> scope_error + 'r option" where
  "scalar_one_or_none rows =
     (case rows of [] \<Rightarrow> Inr None | [r] \<Rightarrow> Inr (Some r) | _ \<Rightarrow> Inl ScopeManyRows)"

definition get_current_execution_envelope ::
  "uuid \<Rightarrow> uuid \<Rightarrow> authority \<Rightarrow> scope_error + envelope option" where
  "get_current_execution_envelope owner gid s =
     scalar_one_or_none (filter (active_envelope owner gid) (au_envelopes s))"

text \<open>What the founder states explicitly; nothing of it has a default taken from the proposal.\<close>

record grant_values =
  gv_by :: string
  gv_paths :: "string list"
  gv_capabilities :: "string list"
  gv_risk :: string
  gv_key :: string

definition new_envelope ::
  "time \<Rightarrow> uuid \<Rightarrow> scope_proposal \<Rightarrow> grant_values \<Rightarrow> envelope option \<Rightarrow> envelope" where
  "new_envelope now i p v prior =
     \<lparr>en_id = i, en_owner = sp_owner p, en_goal = sv_goal (sp_values p), en_source_proposal = Some (sp_id p),
      en_repository = sv_repository (sp_values p), en_paths = gv_paths v, en_capabilities = gv_capabilities v,
      en_risk = gv_risk v, en_authorized_by = gv_by v, en_authorized_at = now, en_status = EnvActive,
      en_supersedes = map_option en_id prior,
      en_provenance = [(''authorized_from_proposal_id'', JStr (uuid_str (sp_id p)))], en_key = gv_key v\<rparr>"

definition insert_envelope :: "envelope \<Rightarrow> authority \<Rightarrow> scope_error + authority" where
  "insert_envelope e s =
     (if \<not> envelope_checks e then Inl ScopeCheckViolation
      else if \<exists>x\<in>set (au_envelopes s). en_id x = en_id e \<or> en_owner x = en_owner e \<and> en_key x = en_key e
      then Inl ScopeUniqueViolation
      else Inr (s\<lparr>au_envelopes := au_envelopes s @ [e],
                  au_base := (au_base s)\<lparr>envelopes := envelopes (au_base s) @ [(en_owner e, en_goal e)]\<rparr>\<rparr>))"

definition supersede_envelope :: "envelope option \<Rightarrow> authority \<Rightarrow> authority" where
  "supersede_envelope prior s =
     (case prior of
        None \<Rightarrow> s
      | Some e \<Rightarrow> s\<lparr>au_envelopes :=
          update_rows (\<lambda>x. en_id x = en_id e) (\<lambda>x. x\<lparr>en_status := EnvSuperseded\<rparr>) (au_envelopes s)\<rparr>)"

definition authorize_execution_scope ::
  "time \<Rightarrow> uuid \<Rightarrow> uuid \<Rightarrow> uuid \<Rightarrow> grant_values \<Rightarrow> authority \<Rightarrow>
   scope_error + (authority \<times> scope_proposal \<times> envelope)" where
  "authorize_execution_scope now i owner pid v s =
     sbind (unreviewed_proposal owner pid s) (\<lambda>p.
     sbind (ensure (goal_exists owner (sv_goal (sp_values p)) (au_base s)) ScopeNoRow) (\<lambda>_.
     sbind (get_current_execution_envelope owner (sv_goal (sp_values p)) s) (\<lambda>prior.
       let e = new_envelope now i p v prior in
       sbind (insert_envelope e s) (\<lambda>s1.
         let p1 = p\<lparr>sp_status := ScopeAuthorized, sp_envelope := Some i, sp_updated_at := now\<rparr>
         in sbind (put_proposal p1 (supersede_envelope prior s1)) (\<lambda>s2. Inr (s2, p1, e))))))"

section \<open>Reads\<close>

definition get_execution_scope_proposal :: "uuid \<Rightarrow> uuid \<Rightarrow> authority \<Rightarrow> scope_proposal option" where
  "get_execution_scope_proposal owner pid s = find_row (own_proposal owner pid) (au_proposals s)"

definition list_execution_scope_proposals ::
  "uuid \<Rightarrow> scope_status option \<Rightarrow> uuid option \<Rightarrow> authority \<Rightarrow> scope_proposal list" where
  "list_execution_scope_proposals owner st gid s =
     sort_key sp_observed_at
       (filter (\<lambda>p. sp_owner p = owner \<and> (st \<noteq> None \<longrightarrow> st = Some (sp_status p)) \<and>
                    (gid \<noteq> None \<longrightarrow> gid = Some (sv_goal (sp_values p)))) (au_proposals s))"

definition get_execution_authorization_envelope :: "uuid \<Rightarrow> uuid \<Rightarrow> authority \<Rightarrow> envelope option" where
  "get_execution_authorization_envelope owner eid s =
     find_row (\<lambda>e. en_id e = eid \<and> en_owner e = owner) (au_envelopes s)"

definition list_execution_authorization_envelopes :: "uuid \<Rightarrow> uuid \<Rightarrow> authority \<Rightarrow> envelope list" where
  "list_execution_authorization_envelopes owner gid s =
     sort_key en_authorized_at (filter (\<lambda>e. en_owner e = owner \<and> en_goal e = gid) (au_envelopes s))"

section \<open>The invariant\<close>

text \<open>
  Ids and keys are unique; the runtime's view of the table is the table; a goal has at most one active
  envelope; an envelope is superseded exactly when a later one of the same goal says so; and every
  envelope rests on one reviewed proposal.
\<close>

definition tables_ok :: "authority \<Rightarrow> bool" where
  "tables_ok s \<longleftrightarrow>
     unique_key sp_id (au_proposals s) \<and> unique_key en_id (au_envelopes s) \<and>
     unique_key (\<lambda>p. (sp_owner p, sp_key p)) (au_proposals s) \<and>
     list_all proposal_checks (au_proposals s) \<and> list_all envelope_checks (au_envelopes s) \<and>
     (\<forall>e\<in>set (au_envelopes s). \<forall>k. en_supersedes e = Some k \<longrightarrow> k \<in> en_id ` set (au_envelopes s)) \<and>
     envelopes (au_base s) = map (\<lambda>e. (en_owner e, en_goal e)) (au_envelopes s)"

definition one_active :: "envelope list \<Rightarrow> bool" where
  "one_active es \<longleftrightarrow>
     (\<forall>e\<in>set es. \<forall>f\<in>set es. en_status e = EnvActive \<longrightarrow> en_status f = EnvActive \<longrightarrow>
        en_owner e = en_owner f \<longrightarrow> en_goal e = en_goal f \<longrightarrow> e = f)"

definition superseded_by_successor :: "envelope list \<Rightarrow> bool" where
  "superseded_by_successor es \<longleftrightarrow>
     (\<forall>e\<in>set es. en_status e = EnvSuperseded \<longleftrightarrow>
        (\<exists>f\<in>set es. en_supersedes f = Some (en_id e) \<and> en_owner f = en_owner e \<and> en_goal f = en_goal e))"

definition rests_on :: "envelope \<Rightarrow> scope_proposal \<Rightarrow> bool" where
  "rests_on e p \<longleftrightarrow>
     en_source_proposal e = Some (sp_id p) \<and> sp_status p = ScopeAuthorized \<and>
     sp_envelope p = Some (en_id e) \<and> sp_owner p = en_owner e \<and> sv_goal (sp_values p) = en_goal e"

definition reviewed :: "authority \<Rightarrow> bool" where
  "reviewed s \<longleftrightarrow>
     (\<forall>e\<in>set (au_envelopes s). \<exists>p\<in>set (au_proposals s). rests_on e p) \<and>
     (\<forall>p\<in>set (au_proposals s). sp_status p = ScopeAuthorized \<longrightarrow> (\<exists>e\<in>set (au_envelopes s). rests_on e p))"

definition authority_ok :: "authority \<Rightarrow> bool" where
  "authority_ok s \<longleftrightarrow>
     tables_ok s \<and> one_active (au_envelopes s) \<and> superseded_by_successor (au_envelopes s) \<and> reviewed s"

section \<open>Inserting and rejecting a proposal\<close>

lemma new_proposal_simps [simp]:
  "sp_id (new_proposal now i owner key v) = i" "sp_owner (new_proposal now i owner key v) = owner"
  "sp_values (new_proposal now i owner key v) = v" "sp_key (new_proposal now i owner key v) = key"
  "sp_status (new_proposal now i owner key v) = ScopeUnreviewed"
  "sp_envelope (new_proposal now i owner key v) = None"
  by (simp_all add: new_proposal_def)

lemma insert_proposal_cases:
  assumes "insert_proposal p s = Inr (s', b)"
  obtains (kept) "s' = s" "\<not> b" "find_row (keyed_proposal (sp_owner p) (sp_key p)) (au_proposals s) \<noteq> None"
    | (added) "s' = s\<lparr>au_proposals := au_proposals s @ [p]\<rparr>" "b" "proposal_checks p"
        "sp_id p \<notin> sp_id ` set (au_proposals s)"
        "find_row (keyed_proposal (sp_owner p) (sp_key p)) (au_proposals s) = None"
  using assms by (auto simp: insert_proposal_def split: if_splits)

lemma insert_proposal_ok:
  assumes "insert_proposal p s = Inr (s', b)" and "authority_ok s" and "sp_status p = ScopeUnreviewed"
  shows "authority_ok s'"
  using assms(1)
proof (cases rule: insert_proposal_cases)
  case added
  then show ?thesis
    using assms(2,3)
    by (auto simp: authority_ok_def tables_ok_def reviewed_def rests_on_def unique_key_snoc
        find_row_None_iff keyed_proposal_def)
qed (use assms(2) in simp)

lemma same_proposal_InrD: "same_proposal r v = Inr q \<Longrightarrow> q = r \<and> sp_values r = v"
  by (cases "sp_values r"; cases v) (auto simp: same_proposal_def differing_def Let_def split: if_splits)

lemma propose_cases:
  assumes "propose_execution_scope now i others owner key v s = Inr (s', p)"
  obtains (replay) "s' = s" "sp_values p = v" "sp_owner p = owner" "sp_key p = key" "p \<in> set (au_proposals s)"
    | (insert) b where "insert_proposal (new_proposal now i owner key v) (others s) = Inr (s', b)"
        "sp_values p = v" "sp_owner p = owner" "sp_key p = key" "p \<in> set (au_proposals s')"
        "b \<longrightarrow> p = new_proposal now i owner key v"
        "find_row (keyed_proposal owner key) (au_proposals s) = None"
proof (cases "find_row (keyed_proposal owner key) (au_proposals s)")
  case (Some row)
  with assms have "same_proposal row v = Inr p" "s' = s"
    by (auto simp: propose_execution_scope_def elim!: sbind_InrE split: if_splits)
  with Some show ?thesis
    by (intro replay) (auto dest!: same_proposal_InrD find_row_SomeD simp: keyed_proposal_def)
next
  case None
  with assms obtain b where ins: "insert_proposal (new_proposal now i owner key v) (others s) = Inr (s', b)"
    and out: "b \<and> p = new_proposal now i owner key v \<or>
      \<not> b \<and> (\<exists>w. find_row (keyed_proposal owner key) (au_proposals s') = Some w \<and> same_proposal w v = Inr p)"
    by (auto simp: propose_execution_scope_def Let_def elim!: sbind_InrE split: if_splits option.splits)
  show ?thesis
  proof (cases b)
    case True
    with ins out have "p \<in> set (au_proposals s')" "p = new_proposal now i owner key v"
      by (auto elim!: insert_proposal_cases)
    with None show ?thesis by (intro insert [OF ins]) simp_all
  next
    case False
    with out obtain w where "find_row (keyed_proposal owner key) (au_proposals s') = Some w" "same_proposal w v = Inr p"
      by blast
    then show ?thesis
      using ins None False
      by (intro insert) (auto dest!: same_proposal_InrD find_row_SomeD simp: keyed_proposal_def)
  qed
qed

section \<open>Replacing one proposal\<close>

lemma unreviewed_proposal_Inr:
  "unreviewed_proposal owner pid s = Inr p \<longleftrightarrow>
     find_row (own_proposal owner pid) (au_proposals s) = Some p \<and> sp_status p = ScopeUnreviewed"
  by (auto simp: unreviewed_proposal_def split: option.splits)

lemma unreviewed_proposalD:
  "unreviewed_proposal owner pid s = Inr p \<Longrightarrow>
     p \<in> set (au_proposals s) \<and> sp_id p = pid \<and> sp_owner p = owner \<and> sp_status p = ScopeUnreviewed"
  by (auto simp: unreviewed_proposal_Inr own_proposal_def dest: find_row_SomeD)

lemma put_proposal_Inr [simp]:
  "put_proposal p s = Inr s' \<longleftrightarrow> proposal_checks p \<and>
     s' = s\<lparr>au_proposals := update_rows (\<lambda>x. sp_id x = sp_id p) (\<lambda>_. p) (au_proposals s)\<rparr>"
  by (auto simp: put_proposal_def)

text \<open>A reviewed copy \<open>q\<close> takes the place of the unreviewed row \<open>p\<close>; owner, key and values stay.\<close>

lemma review_proposals:
  assumes "unique_key sp_id ps" and "p \<in> set ps"
    and "sp_id q = sp_id p" "sp_owner q = sp_owner p" "sp_key q = sp_key p" "proposal_checks q"
    and "unique_key (\<lambda>p. (sp_owner p, sp_key p)) ps" "list_all proposal_checks ps"
  shows "unique_key sp_id (update_rows (\<lambda>x. sp_id x = sp_id p) (\<lambda>_. q) ps) \<and>
    unique_key (\<lambda>p. (sp_owner p, sp_key p)) (update_rows (\<lambda>x. sp_id x = sp_id p) (\<lambda>_. q) ps) \<and>
    list_all proposal_checks (update_rows (\<lambda>x. sp_id x = sp_id p) (\<lambda>_. q) ps)"
proof -
  have one: "x = p" if "x \<in> set ps" "sp_id x = sp_id p" for x
    using that assms(1,2) by (blast intro: unique_key_eqD)
  have "map sp_id (update_rows (\<lambda>x. sp_id x = sp_id p) (\<lambda>_. q) ps) = map sp_id ps"
    using assms(3) by (auto simp: update_rows_def)
  moreover have "map (\<lambda>p. (sp_owner p, sp_key p)) (update_rows (\<lambda>x. sp_id x = sp_id p) (\<lambda>_. q) ps) =
      map (\<lambda>p. (sp_owner p, sp_key p)) ps"
    using assms(4,5) one by (auto simp: update_rows_def)
  moreover have "list_all proposal_checks (update_rows (\<lambda>x. sp_id x = sp_id p) (\<lambda>_. q) ps)"
    using assms(6,8) by (auto simp: list_all_iff in_update_rows_iff)
  ultimately show ?thesis using assms(1,7) by (simp add: unique_key_def)
qed

lemma reviewed_other:
  "p \<in> set ps \<Longrightarrow> sp_id p \<noteq> k \<Longrightarrow> p \<in> set (update_rows (\<lambda>x. sp_id x = k) f ps)"
  by (auto simp: in_update_rows_iff)

lemma reject_ok:
  assumes "reject_execution_scope now owner pid reason s = Inr (s', p')" and ok: "authority_ok s"
  shows "authority_ok s' \<and> au_envelopes s' = au_envelopes s \<and> au_base s' = au_base s"
proof -
  from assms(1) obtain p where p: "unreviewed_proposal owner pid s = Inr p"
    and p': "p' = p\<lparr>sp_status := ScopeRejected, sp_rejected_reason := Some reason, sp_updated_at := now\<rparr>"
    and s': "s' = s\<lparr>au_proposals := update_rows (\<lambda>x. sp_id x = sp_id p) (\<lambda>_. p') (au_proposals s)\<rparr>"
    and c: "proposal_checks p'"
    by (auto simp: reject_execution_scope_def Let_def elim!: sbind_InrE)
  note q = unreviewed_proposalD [OF p]
  have tables: "tables_ok s'"
    using review_proposals [of "au_proposals s" p p'] ok q c p'
    by (simp add: authority_ok_def tables_ok_def s')
  have same: "x = p" if "x \<in> set (au_proposals s)" "sp_id x = sp_id p" for x
    using that ok q by (auto simp: authority_ok_def tables_ok_def intro: unique_key_eqD)
  have "reviewed s'"
    unfolding reviewed_def
  proof (intro conjI ballI impI)
    fix e assume "e \<in> set (au_envelopes s')"
    then obtain x where x: "x \<in> set (au_proposals s)" "rests_on e x"
      using ok by (auto simp: authority_ok_def reviewed_def s')
    then have "sp_id x \<noteq> sp_id p" using same [OF x(1)] q by (auto simp: rests_on_def)
    with x show "\<exists>x\<in>set (au_proposals s'). rests_on e x" by (auto simp: s' intro!: reviewed_other)
  next
    fix x assume "x \<in> set (au_proposals s')" "sp_status x = ScopeAuthorized"
    then have "x \<in> set (au_proposals s)" by (auto simp: s' in_update_rows_iff p' split: if_splits)
    with \<open>sp_status x = ScopeAuthorized\<close> show "\<exists>e\<in>set (au_envelopes s'). rests_on e x"
      using ok by (auto simp: authority_ok_def reviewed_def s')
  qed
  with tables ok show ?thesis by (simp add: authority_ok_def s')
qed

section \<open>Authorizing\<close>

text \<open>The envelope table after an authorization: the prior envelope superseded, the new one appended.\<close>

definition superseding :: "envelope option \<Rightarrow> envelope \<Rightarrow> envelope" where
  "superseding prior x =
     (if prior \<noteq> None \<and> en_id x = en_id (the prior) then x\<lparr>en_status := EnvSuperseded\<rparr> else x)"

lemma superseding_simps [simp]:
  "en_id (superseding prior x) = en_id x" "en_owner (superseding prior x) = en_owner x"
  "en_goal (superseding prior x) = en_goal x" "en_supersedes (superseding prior x) = en_supersedes x"
  "en_source_proposal (superseding prior x) = en_source_proposal x" "en_key (superseding prior x) = en_key x"
  "envelope_checks (superseding prior x) = envelope_checks x"
  "rests_on (superseding prior x) p = rests_on x p"
  by (simp_all add: superseding_def envelope_checks_def rests_on_def)

lemma new_envelope_simps [simp]:
  "en_id (new_envelope now i p v prior) = i" "en_owner (new_envelope now i p v prior) = sp_owner p"
  "en_goal (new_envelope now i p v prior) = sv_goal (sp_values p)"
  "en_status (new_envelope now i p v prior) = EnvActive"
  "en_source_proposal (new_envelope now i p v prior) = Some (sp_id p)"
  "en_supersedes (new_envelope now i p v prior) = map_option en_id prior"
  "en_key (new_envelope now i p v prior) = gv_key v"
  by (simp_all add: new_envelope_def)

lemma insert_envelope_Inr:
  "insert_envelope e s = Inr s' \<longleftrightarrow> envelope_checks e \<and>
     (\<forall>x\<in>set (au_envelopes s). en_id x \<noteq> en_id e \<and> (en_owner x = en_owner e \<longrightarrow> en_key x \<noteq> en_key e)) \<and>
     s' = s\<lparr>au_envelopes := au_envelopes s @ [e],
            au_base := (au_base s)\<lparr>envelopes := envelopes (au_base s) @ [(en_owner e, en_goal e)]\<rparr>\<rparr>"
  by (auto simp: insert_envelope_def)

lemma scalar_one_or_none_Inr:
  "scalar_one_or_none rows = Inr r \<longleftrightarrow> rows = (case r of None \<Rightarrow> [] | Some x \<Rightarrow> [x])"
  by (auto simp: scalar_one_or_none_def split: list.splits option.splits)

lemma current_Inr:
  "get_current_execution_envelope owner gid s = Inr r \<longleftrightarrow>
     filter (active_envelope owner gid) (au_envelopes s) = (case r of None \<Rightarrow> [] | Some x \<Rightarrow> [x])"
  by (simp add: get_current_execution_envelope_def scalar_one_or_none_Inr)

lemma current_Some:
  "get_current_execution_envelope owner gid s = Inr (Some x) \<Longrightarrow>
     x \<in> set (au_envelopes s) \<and> active_envelope owner gid x"
  by (auto simp: current_Inr dest!: arg_cong [of _ _ set])

lemma current_only:
  "get_current_execution_envelope owner gid s = Inr r \<Longrightarrow> x \<in> set (au_envelopes s) \<Longrightarrow>
     active_envelope owner gid x \<Longrightarrow> r = Some x"
proof -
  assume cur: "get_current_execution_envelope owner gid s = Inr r" and x: "x \<in> set (au_envelopes s)"
    and act: "active_envelope owner gid x"
  from x act have "x \<in> set (filter (active_envelope owner gid) (au_envelopes s))" by simp
  with cur show "r = Some x" by (simp add: current_Inr split: option.splits)
qed

lemma authorize_Inr:
  "authorize_execution_scope now i owner pid v s = Inr (s', p', e) \<longleftrightarrow>
     (\<exists>p prior. unreviewed_proposal owner pid s = Inr p \<and> goal_exists owner (sv_goal (sp_values p)) (au_base s) \<and>
        get_current_execution_envelope owner (sv_goal (sp_values p)) s = Inr prior \<and>
        e = new_envelope now i p v prior \<and> envelope_checks e \<and>
        (\<forall>x\<in>set (au_envelopes s). en_id x \<noteq> i \<and> (en_owner x = owner \<longrightarrow> en_key x \<noteq> gv_key v)) \<and>
        p' = p\<lparr>sp_status := ScopeAuthorized, sp_envelope := Some i, sp_updated_at := now\<rparr> \<and>
        proposal_checks p' \<and>
        s' = s\<lparr>au_proposals := update_rows (\<lambda>x. sp_id x = sp_id p) (\<lambda>_. p') (au_proposals s),
               au_envelopes := map (superseding prior) (au_envelopes s) @ [e],
               au_base := (au_base s)\<lparr>envelopes := envelopes (au_base s) @ [(owner, sv_goal (sp_values p))]\<rparr>\<rparr>)"
  (is "?lhs \<longleftrightarrow> ?rhs")
proof -
  have sup: "supersede_envelope prior (s\<lparr>au_envelopes := au_envelopes s @ [new_envelope now i p v prior], au_base := b\<rparr>) =
      s\<lparr>au_envelopes := map (superseding prior) (au_envelopes s) @ [new_envelope now i p v prior], au_base := b\<rparr>"
    if "get_current_execution_envelope owner (sv_goal (sp_values p)) s = Inr prior"
      "\<forall>x\<in>set (au_envelopes s). en_id x \<noteq> i" for p prior b
    using that by (cases prior)
      (auto simp: supersede_envelope_def superseding_def update_rows_def map_idI dest!: current_Some)
  show ?thesis
  proof
    assume ?lhs
    then obtain p prior s1 where a: "unreviewed_proposal owner pid s = Inr p"
      "goal_exists owner (sv_goal (sp_values p)) (au_base s)"
      "get_current_execution_envelope owner (sv_goal (sp_values p)) s = Inr prior"
      "insert_envelope (new_envelope now i p v prior) s = Inr s1" "e = new_envelope now i p v prior"
      "put_proposal (p\<lparr>sp_status := ScopeAuthorized, sp_envelope := Some i, sp_updated_at := now\<rparr>)
         (supersede_envelope prior s1) = Inr s'"
      "p' = p\<lparr>sp_status := ScopeAuthorized, sp_envelope := Some i, sp_updated_at := now\<rparr>"
      by (auto simp: authorize_execution_scope_def Let_def elim!: sbind_InrE)
    with unreviewed_proposalD [OF a(1)] show ?rhs
      by (intro exI [of _ p] exI [of _ prior]) (auto simp: insert_envelope_Inr sup)
  next
    assume ?rhs
    then obtain p prior where a: "unreviewed_proposal owner pid s = Inr p"
      "goal_exists owner (sv_goal (sp_values p)) (au_base s)"
      "get_current_execution_envelope owner (sv_goal (sp_values p)) s = Inr prior"
      and e: "e = new_envelope now i p v prior" "envelope_checks e"
        "\<forall>x\<in>set (au_envelopes s). en_id x \<noteq> i \<and> (en_owner x = owner \<longrightarrow> en_key x \<noteq> gv_key v)"
      and p': "p' = p\<lparr>sp_status := ScopeAuthorized, sp_envelope := Some i, sp_updated_at := now\<rparr>" "proposal_checks p'"
      and s': "s' = s\<lparr>au_proposals := update_rows (\<lambda>x. sp_id x = sp_id p) (\<lambda>_. p') (au_proposals s),
               au_envelopes := map (superseding prior) (au_envelopes s) @ [e],
               au_base := (au_base s)\<lparr>envelopes := envelopes (au_base s) @ [(owner, sv_goal (sp_values p))]\<rparr>\<rparr>"
      by blast
    have own: "sp_owner p = owner" using unreviewed_proposalD [OF a(1)] by simp
    let ?b = "(au_base s)\<lparr>envelopes := envelopes (au_base s) @ [(owner, sv_goal (sp_values p))]\<rparr>"
    have ins: "insert_envelope e s = Inr (s\<lparr>au_envelopes := au_envelopes s @ [e], au_base := ?b\<rparr>)"
      using e own by (auto simp: insert_envelope_Inr)
    have "supersede_envelope prior (s\<lparr>au_envelopes := au_envelopes s @ [e], au_base := ?b\<rparr>) =
        s\<lparr>au_envelopes := map (superseding prior) (au_envelopes s) @ [e], au_base := ?b\<rparr>"
      unfolding e(1) using e(3) by (intro sup [OF a(3)]) blast
    with a ins p' s' show ?lhs
      by (simp add: authorize_execution_scope_def Let_def e(1) put_proposal_def)
  qed
qed

lemma authorize_envelopes:
  assumes "authorize_execution_scope now i owner pid v s = Inr (s', p', e)"
  shows "\<exists>prior. get_current_execution_envelope owner (en_goal e) s = Inr prior \<and> en_owner e = owner \<and>
    au_envelopes s' = map (superseding prior) (au_envelopes s) @ [e]"
proof -
  from assms obtain p prior where "unreviewed_proposal owner pid s = Inr p"
    "get_current_execution_envelope owner (sv_goal (sp_values p)) s = Inr prior"
    "e = new_envelope now i p v prior" "au_envelopes s' = map (superseding prior) (au_envelopes s) @ [e]"
    unfolding authorize_Inr by auto
  then show ?thesis by (intro exI [of _ prior]) (auto dest: unreviewed_proposalD)
qed

lemma authorize_ok:
  assumes run: "authorize_execution_scope now i owner pid v s = Inr (s', p', e)" and ok: "authority_ok s"
  shows "authority_ok s'"
proof -
  from run obtain p prior where a: "unreviewed_proposal owner pid s = Inr p"
    and cur: "get_current_execution_envelope owner (sv_goal (sp_values p)) s = Inr prior"
    and e: "e = new_envelope now i p v prior" "envelope_checks e"
    and fresh: "\<And>x. x \<in> set (au_envelopes s) \<Longrightarrow> en_id x \<noteq> i"
    and p': "p' = p\<lparr>sp_status := ScopeAuthorized, sp_envelope := Some i, sp_updated_at := now\<rparr>" "proposal_checks p'"
    and s': "s' = s\<lparr>au_proposals := update_rows (\<lambda>x. sp_id x = sp_id p) (\<lambda>_. p') (au_proposals s),
               au_envelopes := map (superseding prior) (au_envelopes s) @ [e],
               au_base := (au_base s)\<lparr>envelopes := envelopes (au_base s) @ [(owner, sv_goal (sp_values p))]\<rparr>\<rparr>"
    unfolding authorize_Inr by blast
  note q = unreviewed_proposalD [OF a]
  have tab: "tables_ok s" "one_active (au_envelopes s)" "superseded_by_successor (au_envelopes s)" "reviewed s"
    using ok by (simp_all add: authority_ok_def)
  have known: "k \<in> en_id ` set (au_envelopes s)" if "x \<in> set (au_envelopes s)" "en_supersedes x = Some k" for x k
    using that tab(1) by (auto simp: tables_ok_def)
  have prior: "prior = Some x \<Longrightarrow> x \<in> set (au_envelopes s) \<and> active_envelope owner (sv_goal (sp_values p)) x" for x
    using cur by (blast dest: current_Some)
  have uniq: "x = y" if "x \<in> set (au_envelopes s)" "y \<in> set (au_envelopes s)" "en_id x = en_id y" for x y
    using that tab(1) by (auto simp: tables_ok_def intro: unique_key_eqD)
  have "tables_ok s'"
    unfolding tables_ok_def
  proof (intro conjI)
    show "unique_key en_id (au_envelopes s')"
      using tab(1) fresh by (auto simp: s' tables_ok_def unique_key_def e(1) comp_def)
    show "list_all envelope_checks (au_envelopes s')"
      using tab(1) e(2) by (auto simp: s' tables_ok_def list_all_iff)
    show "\<forall>e\<in>set (au_envelopes s'). \<forall>k. en_supersedes e = Some k \<longrightarrow> k \<in> en_id ` set (au_envelopes s')"
      using known prior by (auto simp: s' e(1) image_iff split: option.splits)
    show "envelopes (au_base s') = map (\<lambda>e. (en_owner e, en_goal e)) (au_envelopes s')"
      using tab(1) q by (simp add: s' tables_ok_def e(1) comp_def)
  qed (use review_proposals [of "au_proposals s" p p'] tab(1) q p' in \<open>simp_all add: s' tables_ok_def\<close>)
  moreover have "one_active (au_envelopes s')"
    unfolding one_active_def
  proof (intro ballI impI)
    fix x y assume "x \<in> set (au_envelopes s')" "y \<in> set (au_envelopes s')"
      and st: "en_status x = EnvActive" "en_status y = EnvActive" "en_owner x = en_owner y" "en_goal x = en_goal y"
    then have mem: "x = e \<or> (\<exists>x0\<in>set (au_envelopes s). x = superseding prior x0)"
      "y = e \<or> (\<exists>y0\<in>set (au_envelopes s). y = superseding prior y0)" by (auto simp: s')
    have no: False if z: "z0 \<in> set (au_envelopes s)" "en_status (superseding prior z0) = EnvActive"
      "en_owner z0 = owner" "en_goal z0 = sv_goal (sp_values p)" for z0
    proof -
      from z(2) have "en_status z0 = EnvActive" "superseding prior z0 = z0"
        by (auto simp: superseding_def split: if_splits)
      with current_only [OF cur z(1)] z(2-4) show False
        by (auto simp: active_envelope_def superseding_def split: if_splits)
    qed
    have old: "superseding prior z0 = z0 \<and> en_status z0 = EnvActive" if "en_status (superseding prior z0) = EnvActive" for z0
      using that by (auto simp: superseding_def split: if_splits)
    have eo: "en_owner e = owner" "en_goal e = sv_goal (sp_values p)" using q by (simp_all add: e(1))
    from mem(1) show "x = y"
    proof
      assume x: "x = e"
      from mem(2) show ?thesis
      proof
        assume "\<exists>y0\<in>set (au_envelopes s). y = superseding prior y0"
        then obtain y0 where y0: "y0 \<in> set (au_envelopes s)" "y = superseding prior y0" by blast
        with x st eo no [OF y0(1)] show ?thesis by simp
      qed (use x in simp)
    next
      assume "\<exists>x0\<in>set (au_envelopes s). x = superseding prior x0"
      then obtain x0 where x0: "x0 \<in> set (au_envelopes s)" "x = superseding prior x0" by blast
      from mem(2) show ?thesis
      proof
        assume "y = e"
        with x0 st eo no [OF x0(1)] show ?thesis by auto
      next
        assume "\<exists>y0\<in>set (au_envelopes s). y = superseding prior y0"
        then obtain y0 where y0: "y0 \<in> set (au_envelopes s)" "y = superseding prior y0" by blast
        from old [of x0] old [of y0] st x0(2) y0(2) have "x = x0" "y = y0" by simp_all
        with x0(1) y0(1) st tab(2) show ?thesis unfolding one_active_def by blast
      qed
    qed
  qed
  moreover have "superseded_by_successor (au_envelopes s')"
    unfolding superseded_by_successor_def
  proof
    fix y assume "y \<in> set (au_envelopes s')"
    then consider (new) "y = e" | (old) y0 where "y0 \<in> set (au_envelopes s)" "y = superseding prior y0"
      by (auto simp: s')
    then show "en_status y = EnvSuperseded \<longleftrightarrow>
      (\<exists>f\<in>set (au_envelopes s'). en_supersedes f = Some (en_id y) \<and> en_owner f = en_owner y \<and> en_goal f = en_goal y)"
    proof cases
      case new
      have "en_supersedes f \<noteq> Some i" if "f \<in> set (au_envelopes s')" for f
        using that known fresh prior e by (fastforce simp: s' envelope_checks_def)
      with new show ?thesis by (auto simp: e(1))
    next
      case old
      show ?thesis
      proof (cases "prior = Some y0")
        case True
        then show ?thesis using old prior [OF True] q by (auto simp: s' e(1) superseding_def active_envelope_def)
      next
        case False
        have st: "en_status y = en_status y0"
          using False old prior uniq by (cases prior) (auto simp: superseding_def)
        have "en_supersedes e = Some (en_id y0) \<longleftrightarrow> False"
          using False old prior uniq by (cases prior) (auto simp: e(1))
        with st old tab(3) show ?thesis by (auto simp: s' superseded_by_successor_def)
      qed
    qed
  qed
  moreover have "reviewed s'"
    unfolding reviewed_def
  proof (intro conjI ballI impI)
    have rest: "rests_on e p'" using q by (simp add: rests_on_def e(1) p'(1))
    have own: "p' \<in> set (au_proposals s')" using q by (auto simp: s' in_update_rows_iff)
    fix x assume "x \<in> set (au_envelopes s')"
    then consider "x = e" | x0 where "x0 \<in> set (au_envelopes s)" "x = superseding prior x0" by (auto simp: s')
    then show "\<exists>p\<in>set (au_proposals s'). rests_on x p"
    proof cases
      case 1
      with rest own show ?thesis by blast
    next
      case 2
      then obtain r where r: "r \<in> set (au_proposals s)" "rests_on x0 r" using tab(4) by (auto simp: reviewed_def)
      then have "sp_id r \<noteq> sp_id p"
        using unique_key_eqD [of sp_id "au_proposals s" r p] tab(1) q by (auto simp: rests_on_def tables_ok_def)
      with r 2 show ?thesis by (auto simp: s' intro!: reviewed_other)
    qed
  next
    fix x assume x: "x \<in> set (au_proposals s')" "sp_status x = ScopeAuthorized"
    then consider "x = p'" | "x \<in> set (au_proposals s)" by (auto simp: s' in_update_rows_iff split: if_splits)
    then show "\<exists>e\<in>set (au_envelopes s'). rests_on e x"
    proof cases
      case 1
      then show ?thesis using q by (auto simp: s' rests_on_def e(1) p'(1))
    next
      case 2
      with x(2) tab(4) obtain f where "f \<in> set (au_envelopes s)" "rests_on f x" by (auto simp: reviewed_def)
      then show ?thesis by (auto simp: s')
    qed
  qed
  ultimately show ?thesis by (simp add: authority_ok_def)
qed

section \<open>Any interleaving\<close>

text \<open>
  A proposal whose lookup and insert see the same tables is \<open>propose\<close>; when other sessions commit in
  between, its insert is a step of its own. \<open>runtime\<close> is everything the rest of the system does: it
  never writes the envelope table.
\<close>

inductive authority_step :: "authority \<Rightarrow> authority \<Rightarrow> bool" where
  propose: "propose_execution_scope now i (\<lambda>s. s) owner key v s = Inr (t, p) \<Longrightarrow> authority_step s t"
| insert: "insert_proposal (new_proposal now i owner key v) s = Inr (t, b) \<Longrightarrow> authority_step s t"
| reject: "reject_execution_scope now owner pid reason s = Inr (t, p) \<Longrightarrow> authority_step s t"
| authorize: "authorize_execution_scope now i owner pid v s = Inr (t, p, e) \<Longrightarrow> authority_step s t"
| runtime: "envelopes d = envelopes (au_base s) \<Longrightarrow> authority_step s (s\<lparr>au_base := d\<rparr>)"

lemma propose_ok:
  assumes "propose_execution_scope now i (\<lambda>s. s) owner key v s = Inr (t, p)" and "authority_ok s"
  shows "authority_ok t"
  using assms(1)
proof (cases rule: propose_cases)
  case (insert b)
  show ?thesis using insert(1) assms(2) by (rule insert_proposal_ok) simp
qed (use assms(2) in simp)

lemma propose_envelopes:
  assumes "propose_execution_scope now i (\<lambda>s. s) owner key v s = Inr (t, p)"
  shows "au_envelopes t = au_envelopes s \<and> au_base t = au_base s"
  using assms by (cases rule: propose_cases) (auto elim: insert_proposal_cases)

lemma authority_step_ok: "authority_step s t \<Longrightarrow> authority_ok s \<Longrightarrow> authority_ok t"
proof (induction rule: authority_step.induct)
  case (runtime d s)
  then show ?case by (simp add: authority_ok_def tables_ok_def reviewed_def)
qed (auto intro: propose_ok insert_proposal_ok authorize_ok dest: reject_ok)

definition kept_envelope :: "envelope \<Rightarrow> envelope list \<Rightarrow> bool" where
  "kept_envelope e fs \<longleftrightarrow> e \<in> set fs \<or> e\<lparr>en_status := EnvSuperseded\<rparr> \<in> set fs"

lemma authority_step_keeps:
  "authority_step s t \<Longrightarrow> authority_ok s \<Longrightarrow> e \<in> set (au_envelopes s) \<Longrightarrow> kept_envelope e (au_envelopes t)"
proof (induction rule: authority_step.induct)
  case (authorize now i owner pid v s t p f)
  then obtain prior where "au_envelopes t = map (superseding prior) (au_envelopes s) @ [f]"
    by (blast dest: authorize_envelopes)
  with authorize.prems(2) have "superseding prior e \<in> set (au_envelopes t)" by simp
  moreover have "superseding prior e = e \<or> superseding prior e = e\<lparr>en_status := EnvSuperseded\<rparr>"
    by (simp add: superseding_def)
  ultimately show ?case by (auto simp: kept_envelope_def)
qed (auto simp: kept_envelope_def dest: propose_envelopes reject_ok elim: insert_proposal_cases)

lemma authority_steps_ok: "authority_step\<^sup>*\<^sup>* s t \<Longrightarrow> authority_ok s \<Longrightarrow> authority_ok t"
  by (induction rule: rtranclp_induct) (auto intro: authority_step_ok)

lemma authority_steps_keep:
  assumes "authority_step\<^sup>*\<^sup>* s t" and "authority_ok s" and "e \<in> set (au_envelopes s)"
  shows "kept_envelope e (au_envelopes t)"
  using assms(1)
proof (induction rule: rtranclp_induct)
  case base
  then show ?case using assms(3) by (simp add: kept_envelope_def)
next
  case (step u t)
  have ok: "authority_ok u" using step(1) assms(2) by (rule authority_steps_ok)
  from step(3) consider "e \<in> set (au_envelopes u)" | "e\<lparr>en_status := EnvSuperseded\<rparr> \<in> set (au_envelopes u)"
    by (auto simp: kept_envelope_def)
  then show ?case
    by cases (auto dest: authority_step_keeps [OF step(2) ok] simp: kept_envelope_def)
qed

definition no_authority :: "db \<Rightarrow> authority" where
  "no_authority d = \<lparr>au_proposals = [], au_envelopes = [], au_base = d\<lparr>envelopes := []\<rparr>\<rparr>"

lemma no_authority_ok [simp]: "authority_ok (no_authority d)"
  by (simp add: authority_ok_def tables_ok_def one_active_def superseded_by_successor_def reviewed_def
      no_authority_def unique_key_def)

lemma current_total:
  assumes "authority_ok s"
  shows "\<exists>r. get_current_execution_envelope owner gid s = Inr r"
proof -
  let ?as = "filter (active_envelope owner gid) (au_envelopes s)"
  have "distinct ?as"
    using assms by (simp add: authority_ok_def tables_ok_def unique_key_def distinct_map)
  moreover have "x = y" if "x \<in> set ?as" "y \<in> set ?as" for x y
    using assms that by (auto simp: authority_ok_def one_active_def active_envelope_def)
  ultimately have "length ?as \<le> 1"
    by (metis (no_types, lifting) One_nat_def card_le_Suc0_iff_eq distinct_card finite_set)
  then show ?thesis
    by (cases ?as rule: list.exhaust; cases "tl ?as")
      (auto simp: get_current_execution_envelope_def scalar_one_or_none_def split: list.splits)
qed

lemma ever_governed_iff:
  "authority_ok s \<Longrightarrow> goal_has_ever_been_envelope_governed (au_base s) owner gid \<longleftrightarrow>
     (\<exists>e\<in>set (au_envelopes s). en_owner e = owner \<and> en_goal e = gid)"
  by (auto simp: authority_ok_def tables_ok_def goal_has_ever_been_envelope_governed_def)

text \<open>C38: whatever sequence of proposals, rejections, authorizations and runtime writes led to a state,
  the lookup of a goal's current envelope never finds two; an envelope is superseded exactly when a
  successor of the same goal names it; each rests on one proposal the founder authorized; no later
  sequence removes it or changes anything of it but the status, and never back to active; and the
  runtime's EVER GOVERNED test is true of exactly the goals that have one.\<close>

theorem authority_invariant:
  assumes "authority_step\<^sup>*\<^sup>* (no_authority d) s" and "authority_step\<^sup>*\<^sup>* s t"
  shows "(\<exists>r. get_current_execution_envelope owner gid s = Inr r) \<and>
    superseded_by_successor (au_envelopes s) \<and>
    (\<forall>e\<in>set (au_envelopes s). (\<exists>p\<in>set (au_proposals s). rests_on e p) \<and>
       (if en_status e = EnvActive
        then e \<in> set (au_envelopes t) \<or> e\<lparr>en_status := EnvSuperseded\<rparr> \<in> set (au_envelopes t)
        else e \<in> set (au_envelopes t))) \<and>
    (goal_has_ever_been_envelope_governed (au_base s) owner gid \<longleftrightarrow>
       (\<exists>e\<in>set (au_envelopes s). en_owner e = owner \<and> en_goal e = gid)) \<and>
    (goal_has_ever_been_envelope_governed (au_base s) owner gid \<longrightarrow>
       goal_has_ever_been_envelope_governed (au_base t) owner gid)"
proof -
  have ok: "authority_ok s" using assms(1) by (rule authority_steps_ok) simp
  then have okt: "authority_ok t" using assms(2) by (blast intro: authority_steps_ok)
  have keep: "kept_envelope e (au_envelopes t)" if "e \<in> set (au_envelopes s)" for e
    using assms(2) ok that by (rule authority_steps_keep)
  have stays: "e \<in> set (au_envelopes t)" if "e \<in> set (au_envelopes s)" "en_status e \<noteq> EnvActive" for e
  proof -
    from that(2) have "en_status e = EnvSuperseded" by (cases "en_status e") simp_all
    then have "e\<lparr>en_status := EnvSuperseded\<rparr> = e" by (cases e) simp
    with keep [OF that(1)] show ?thesis by (simp add: kept_envelope_def)
  qed
  have ever: "\<exists>f\<in>set (au_envelopes t). en_owner f = en_owner e \<and> en_goal f = en_goal e"
    if "e \<in> set (au_envelopes s)" for e
  proof -
    from keep [OF that] consider "e \<in> set (au_envelopes t)" | "e\<lparr>en_status := EnvSuperseded\<rparr> \<in> set (au_envelopes t)"
      by (auto simp: kept_envelope_def)
    then show ?thesis by cases (fastforce intro: bexI [rotated])+
  qed
  have review: "\<exists>p\<in>set (au_proposals s). rests_on e p" if "e \<in> set (au_envelopes s)" for e
    using that ok by (simp add: authority_ok_def reviewed_def)
  show ?thesis
    using current_total [OF ok] ok keep stays ever review
    unfolding ever_governed_iff [OF ok] ever_governed_iff [OF okt]
    by (auto simp: kept_envelope_def authority_ok_def)
qed

lemma filter_superseding:
  assumes "\<And>x. x \<in> set es \<Longrightarrow> P (superseding prior x) = P x \<and> (P x \<longrightarrow> superseding prior x = x)"
  shows "filter P (map (superseding prior) es) = filter P es"
  using assms by (induction es) auto

lemma current_after_authorize:
  assumes "authority_ok s" and "authorize_execution_scope now i owner pid v s = Inr (s', p', e)"
  shows "get_current_execution_envelope o' g' s' =
    (if o' = owner \<and> g' = en_goal e then Inr (Some e) else get_current_execution_envelope o' g' s)"
proof -
  from authorize_envelopes [OF assms(2)] obtain prior where
    cur: "get_current_execution_envelope owner (en_goal e) s = Inr prior" and own: "en_owner e = owner"
    and es: "au_envelopes s' = map (superseding prior) (au_envelopes s) @ [e]" by blast
  have act: "en_status e = EnvActive" using assms(2) unfolding authorize_Inr by auto
  have prior: "prior = Some x \<Longrightarrow> x \<in> set (au_envelopes s) \<and> active_envelope owner (en_goal e) x" for x
    using cur by (blast dest: current_Some)
  have uniq: "x = y" if "x \<in> set (au_envelopes s)" "y \<in> set (au_envelopes s)" "en_id x = en_id y" for x y
    using that assms(1) by (auto simp: authority_ok_def tables_ok_def intro: unique_key_eqD)
  show ?thesis
  proof (cases "o' = owner \<and> g' = en_goal e")
    case True
    have "\<not> active_envelope owner (en_goal e) (superseding prior x)" if "x \<in> set (au_envelopes s)" for x
      using current_only [OF cur that] by (auto simp: active_envelope_def superseding_def)
    then have "filter (active_envelope owner (en_goal e)) (map (superseding prior) (au_envelopes s)) = []"
      by (simp add: filter_empty_conv)
    with True own act show ?thesis
      by (simp add: get_current_execution_envelope_def es active_envelope_def scalar_one_or_none_def)
  next
    case False
    have "filter (active_envelope o' g') (map (superseding prior) (au_envelopes s)) =
        filter (active_envelope o' g') (au_envelopes s)"
    proof (rule filter_superseding)
      fix x assume x: "x \<in> set (au_envelopes s)"
      show "active_envelope o' g' (superseding prior x) = active_envelope o' g' x \<and>
          (active_envelope o' g' x \<longrightarrow> superseding prior x = x)"
      proof (cases "prior \<noteq> None \<and> en_id x = en_id (the prior)")
        case True
        with x prior uniq have "active_envelope owner (en_goal e) x" by (cases prior) auto
        with False show ?thesis by (auto simp: active_envelope_def superseding_def)
      next
        case other: False
        then have "superseding prior x = x" unfolding superseding_def by (rule if_not_P)
        then show ?thesis by simp
      qed
    qed
    moreover have "\<not> active_envelope o' g' e" using False own by (auto simp: active_envelope_def)
    ultimately show ?thesis using False by (auto simp: get_current_execution_envelope_def es)
  qed
qed

lemma find_own_update:
  "find_row (own_proposal owner pid) ps = Some p \<Longrightarrow> sp_id q = sp_id p \<Longrightarrow> sp_owner q = sp_owner p \<Longrightarrow>
     find_row (own_proposal owner pid) (update_rows (\<lambda>x. sp_id x = sp_id p) (\<lambda>_. q) ps) = Some q"
  by (induction ps) (auto simp: own_proposal_def split: if_splits)

lemma authorize_reviewed:
  assumes "authority_ok s" and "authorize_execution_scope now i owner pid v s = Inr (s', p', e)"
  shows "find_row (own_proposal owner pid) (au_proposals s') = Some p'"
proof -
  from assms(2) obtain p where p: "unreviewed_proposal owner pid s = Inr p"
    and p': "p' = p\<lparr>sp_status := ScopeAuthorized, sp_envelope := Some i, sp_updated_at := now\<rparr>"
    and s': "au_proposals s' = update_rows (\<lambda>x. sp_id x = sp_id p) (\<lambda>_. p') (au_proposals s)"
    unfolding authorize_Inr by auto
  from p have "find_row (own_proposal owner pid) (au_proposals s) = Some p" by (simp add: unreviewed_proposal_Inr)
  then show ?thesis unfolding s' by (rule find_own_update) (simp_all add: p')
qed

lemma decline_jobs:
  assumes "decline_takeover_for_governed_goal now tid r d = Inr (d', r')"
  shows "map j_id (jobs d') = map j_id (jobs d)"
proof -
  from assms obtain d1 d2 d3 where a: "reset_task_for_takeover now tid d = Inr d1"
    "save_recovery (r\<lparr>r_status := RTakingOver\<rparr>) d1 = Inr d2"
    "mark_job_failed_after_governed_recovery_decline now (r_job r) d2 = Inr d3"
    "save_recovery (r\<lparr>r_status := RCompleted, r_completed_at := Some now\<rparr>)
       (record_recovery_event now r ReTakeoverDeclinedGoverned [(''dead_job_id'', JStr (uuid_str (r_job r)))] d3) = Inr d'"
    by (auto simp: decline_takeover_for_governed_goal_def Let_def elim!: sbind_InrE)
  have "jobs d1 = jobs d" using a(1)
    by (auto simp: reset_task_for_takeover_def write_task_def Let_def elim!: sbind_InrE split: if_splits)
  moreover have "jobs d2 = jobs d1" "jobs d' = jobs d3" using a(2,4)
    by (auto simp: save_recovery_def write_recovery_def record_recovery_event_def Let_def split: if_splits)
  moreover have "map j_id (jobs d3) = map j_id (jobs d2)" using a(3)
    by (auto simp: mark_job_failed_after_governed_recovery_decline_def sql_update_jobs_def Let_def
        intro!: map_key_update_rows elim!: sbind_InrE split: if_splits)
  ultimately show ?thesis by simp
qed

text \<open>Authority is what the founder states, never what was proposed. An authorization succeeds only on
  an unreviewed proposal of the owner; the envelope carries the caller's own paths, capabilities and
  risk, becomes the goal's current one in place of the envelope it names as superseded, changes no
  other goal's, and the proposal cannot be authorized again. Otherwise the reason is one of five: no
  such proposal or one already reviewed, a vanished goal, a value outside the table's constraints, or
  an envelope key already used.\<close>

theorem authorize_exact:
  assumes "authority_ok s"
  shows "case authorize_execution_scope now i owner pid v s of
      Inr (s', p', e) \<Rightarrow>
        (\<exists>p\<in>set (au_proposals s). sp_id p = pid \<and> sp_owner p = owner \<and> sp_status p = ScopeUnreviewed \<and>
           en_goal e = sv_goal (sp_values p) \<and> en_repository e = sv_repository (sp_values p) \<and>
           p' = p\<lparr>sp_status := ScopeAuthorized, sp_envelope := Some (en_id e), sp_updated_at := now\<rparr>) \<and>
        en_paths e = gv_paths v \<and> en_capabilities e = gv_capabilities v \<and> en_risk e = gv_risk v \<and>
        en_authorized_by e = gv_by v \<and> en_risk e \<in> known_risks \<and>
        get_current_execution_envelope owner (en_goal e) s =
          Inr (if en_supersedes e = None then None
               else find_row (\<lambda>x. Some (en_id x) = en_supersedes e) (au_envelopes s)) \<and>
        get_current_execution_envelope owner (en_goal e) s' = Inr (Some e) \<and>
        ((o', g') = (owner, en_goal e) \<or>
           get_current_execution_envelope o' g' s' = get_current_execution_envelope o' g' s) \<and>
        authorize_execution_scope now' i' owner pid v' s' = Inl (ScopeRefused ''already reviewed'')
    | Inl err \<Rightarrow>
        err = ScopeRefused ''missing or belongs to another owner'' \<and>
          find_row (own_proposal owner pid) (au_proposals s) = None \<or>
        (\<exists>p. find_row (own_proposal owner pid) (au_proposals s) = Some p \<and>
           (err = ScopeRefused ''already reviewed'' \<and> sp_status p \<noteq> ScopeUnreviewed \<or>
            err = ScopeNoRow \<and> \<not> goal_exists owner (sv_goal (sp_values p)) (au_base s) \<or>
            err = ScopeUniqueViolation \<and>
              (\<exists>x\<in>set (au_envelopes s). en_id x = i \<or> en_owner x = owner \<and> en_key x = gv_key v) \<or>
            err = ScopeCheckViolation \<and>
              (gv_risk v \<notin> known_risks \<or> length (gv_by v) > 64 \<or> length (gv_key v) > 128 \<or>
               (\<exists>x\<in>set (au_envelopes s). en_id x = i) \<or> \<not> proposal_checks p)))"
proof (cases "authorize_execution_scope now i owner pid v s")
  case (Inr out)
  obtain s' p' e where out: "out = (s', p', e)" by (cases out) auto
  with Inr have run: "authorize_execution_scope now i owner pid v s = Inr (s', p', e)" by simp
  then obtain p prior where a: "unreviewed_proposal owner pid s = Inr p"
    "get_current_execution_envelope owner (sv_goal (sp_values p)) s = Inr prior" "e = new_envelope now i p v prior"
    "envelope_checks e" "p' = p\<lparr>sp_status := ScopeAuthorized, sp_envelope := Some i, sp_updated_at := now\<rparr>"
    unfolding authorize_Inr by blast
  have found: "find_row (\<lambda>x. en_id x = en_id y) (au_envelopes s) = Some y" if "prior = Some y" for y
    using that current_Some [of owner _ s y] a(2) assms
    by (intro unique_key_find) (auto simp: authority_ok_def tables_ok_def)
  have again: "authorize_execution_scope now' i' owner pid v' s' = Inl (ScopeRefused ''already reviewed'')"
    using authorize_reviewed [OF assms run] a(5)
    by (simp add: authorize_execution_scope_def unreviewed_proposal_def)
  show ?thesis
    unfolding Inr out sum.case prod.case
    using a unreviewed_proposalD [OF a(1)] current_after_authorize [OF assms run] again found
    by (cases prior) (auto simp: new_envelope_def envelope_checks_def)
next
  case (Inl err)
  show ?thesis
  proof (cases "find_row (own_proposal owner pid) (au_proposals s)")
    case None
    with Inl show ?thesis by (simp add: authorize_execution_scope_def unreviewed_proposal_def)
  next
    case (Some p)
    obtain prior where cur: "get_current_execution_envelope owner (sv_goal (sp_values p)) s = Inr prior"
      using current_total [OF assms] by blast
    have known: "prior = Some x \<Longrightarrow> x \<in> set (au_envelopes s)" for x using cur by (blast dest: current_Some)
    have id: "sp_id p = pid" "sp_owner p = owner" using Some by (auto simp: own_proposal_def dest: find_row_SomeD)
    from Inl Some cur show ?thesis
      by (auto simp: authorize_execution_scope_def unreviewed_proposal_def Let_def ensure_def id insert_envelope_def
          put_proposal_def envelope_checks_def proposal_checks_def new_envelope_def dest: known split: if_splits)
  qed
qed

text \<open>C39: recovery never bypasses authority. Once a goal has been authorized, then after any further
  sequence of proposals, authorizations and runtime writes a takeover of a dead attempt of that goal
  dispatches nothing and touches no worktree: it hands the task back to the supervisor.\<close>

theorem governed_goal_never_taken_over:
  assumes "authority_step\<^sup>*\<^sup>* (no_authority d) s"
    and "authorize_execution_scope now i owner pid v s = Inr (s1, p, e)"
    and "authority_step\<^sup>*\<^sup>* s1 t" and "g_owner g = owner" and "g_id g = en_goal e"
    and "execute_takeover env others gh later fresh token task g r who (au_base t, ws) = Inr ((d', ws'), r', nj)"
  shows "nj = None \<and> ws' = ws \<and> map j_id (jobs d') = map j_id (jobs (au_base t))"
proof -
  have ok: "authority_ok s" using assms(1) by (rule authority_steps_ok) simp
  have ok1: "authority_ok s1" using assms(2) ok by (rule authorize_ok)
  have okt: "authority_ok t" using assms(3) ok1 by (rule authority_steps_ok)
  from authorize_envelopes [OF assms(2)] have "e \<in> set (au_envelopes s1)" and own: "en_owner e = owner" by auto
  then have "kept_envelope e (au_envelopes t)" using assms(3) ok1 by (blast intro: authority_steps_keep)
  then consider "e \<in> set (au_envelopes t)" | "e\<lparr>en_status := EnvSuperseded\<rparr> \<in> set (au_envelopes t)"
    by (auto simp: kept_envelope_def)
  then have "\<exists>f\<in>set (au_envelopes t). en_owner f = g_owner g \<and> en_goal f = g_id g"
    using own assms(4,5) by cases (fastforce intro: bexI [rotated])+
  then have gov: "goal_has_ever_been_envelope_governed
      (record_recovery_event later r ReTakeoverStarted [(''dispatched_by'', JStr who)] (au_base t)) (g_owner g) (g_id g)"
    using ever_governed_iff [OF okt] by (simp add: goal_has_ever_been_envelope_governed_def)
  from assms(6) gov obtain d1 where "nj = None" "ws' = ws" and
    dec: "decline_takeover_for_governed_goal later (t_id task) r
      (record_recovery_event later r ReTakeoverStarted [(''dispatched_by'', JStr who)] (au_base t)) = Inr (d', r')"
    by (auto simp: execute_takeover_def Let_def elim!: sbind_InrE split: if_splits)
  then show ?thesis using decline_jobs [OF dec] by simp
qed

section \<open>The statements at work\<close>

definition sample_scope :: scope_values where
  "sample_scope = \<lparr>sv_goal = 20, sv_repository = None, sv_paths = [''a.py''], sv_capabilities = [''write''],
     sv_risk = ''medium'', sv_reasoning = None, sv_strategy = ''unknown'', sv_provenance = []\<rparr>"

definition sample_grant :: grant_values where
  "sample_grant = \<lparr>gv_by = ''founder'', gv_paths = [''b.py''], gv_capabilities = [], gv_risk = ''low'', gv_key = ''e''\<rparr>"

definition proposed_sample :: authority where
  "proposed_sample = (no_authority dead_sample_db)\<lparr>au_proposals := [new_proposal 3 50 7 ''p'' sample_scope]\<rparr>"

lemma sample_goal_exists [simp]: "goal_exists 7 20 (dead_sample_db\<lparr>envelopes := es\<rparr>)"
  by (simp add: goal_exists_def dead_sample_db_def sample_goal_def goal_of_owner_def)

lemma propose_sample:
  "propose_execution_scope 3 50 (\<lambda>s. s) 7 ''p'' sample_scope (no_authority dead_sample_db) =
     Inr (proposed_sample, new_proposal 3 50 7 ''p'' sample_scope)"
  by (simp add: propose_execution_scope_def insert_proposal_def no_authority_def sample_scope_def Let_def
      proposal_checks_def known_risks_def proposed_sample_def)

lemma proposed_sample_step: "authority_step (no_authority dead_sample_db) proposed_sample"
  using propose_sample by (rule authority_step.propose)

lemma proposed_sample_ok: "authority_ok proposed_sample"
  using proposed_sample_step by (rule authority_step_ok) simp

lemma authorize_sample:
  "\<exists>s p e. authorize_execution_scope 4 60 7 50 sample_grant proposed_sample = Inr (s, p, e) \<and>
     en_goal e = 20 \<and> en_owner e = 7 \<and> au_envelopes s = [e] \<and> au_base s = dead_sample_db\<lparr>envelopes := [(7, 20)]\<rparr>"
  by (simp add: authorize_execution_scope_def unreviewed_proposal_def own_proposal_def proposed_sample_def
      no_authority_def new_proposal_def sample_scope_def sample_grant_def Let_def get_current_execution_envelope_def
      scalar_one_or_none_def insert_envelope_def new_envelope_def envelope_checks_def known_risks_def
      supersede_envelope_def put_proposal_def proposal_checks_def)

theorem authorize_exact_witness:
  "\<exists>s p e. authorize_execution_scope 4 60 7 50 sample_grant proposed_sample = Inr (s, p, e) \<and>
     en_paths e = [''b.py''] \<and> en_risk e = ''low'' \<and> get_current_execution_envelope 7 20 s = Inr (Some e) \<and>
     authorize_execution_scope 5 61 7 50 sample_grant s = Inl (ScopeRefused ''already reviewed'')"
proof -
  obtain s p e where run: "authorize_execution_scope 4 60 7 50 sample_grant proposed_sample = Inr (s, p, e)"
    and e: "en_goal e = 20" using authorize_sample by blast
  show ?thesis
    using authorize_exact [OF proposed_sample_ok, where now = 4 and i = 60 and owner = 7 and pid = 50 and
      v = sample_grant and now' = 5 and i' = 61 and v' = sample_grant] run e
    by (auto simp: sample_grant_def)
qed

theorem authority_invariant_witness:
  "\<exists>(s :: authority) e. au_envelopes s = [e] \<and> goal_has_ever_been_envelope_governed (au_base s) 7 20 \<and>
     superseded_by_successor (au_envelopes s) \<and> (\<exists>p\<in>set (au_proposals s). rests_on e p)"
proof -
  obtain s p e where run: "authorize_execution_scope 4 60 7 50 sample_grant proposed_sample = Inr (s, p, e)"
    and e: "en_goal e = 20" "en_owner e = 7" "au_envelopes s = [e]" using authorize_sample by blast
  have "authority_step\<^sup>*\<^sup>* (no_authority dead_sample_db) s"
    using proposed_sample_step authority_step.authorize [OF run] by auto
  from authority_invariant [OF this rtranclp.rtrancl_refl, of 7 20] e show ?thesis
    by (intro exI [of _ s] exI [of _ e]) auto
qed

lemma dead_sample_declines:
  "\<exists>d' r' nj ws'. execute_takeover chat_env (\<lambda>d. d) no_github 9 6 ''tok'' (sample_task 1 TRunning) sample_goal
     dead_sample_record ''w'' (dead_sample_db\<lparr>envelopes := [(7, 20)]\<rparr>, no_worktrees) = Inr ((d', ws'), r', nj)"
  by (simp add: execute_takeover_def dead_sample_record_def auto_salvageable_def Let_def
      dead_sample_approval [unfolded dead_sample_record_def] goal_has_ever_been_envelope_governed_def
      decline_takeover_for_governed_goal_def reset_task_for_takeover_def lock_task_def write_task_def
      dead_sample_db_def sample_goal_def sample_task_def task_checks_def terminal_task_statuses_def empty_db_def
      save_recovery_def write_recovery_def recovery_checks_def record_recovery_event_def fenced_def
      mark_job_failed_after_governed_recovery_decline_def sql_update_jobs_def dead_job_def dead_sample_job_def
      lease_expired_def job_update_ok_def progress_trigger_ok_def job_checks_def checks_0026_def checks_0028_def
      checks_0034_def terminal_job_status_def coalesce_now_def superseded_fk_ok_def dispatch_job_def new_job_def)

theorem governed_goal_never_taken_over_witness:
  "\<exists>d' r'. execute_takeover chat_env (\<lambda>d. d) no_github 9 6 ''tok'' (sample_task 1 TRunning) sample_goal
     dead_sample_record ''w'' (dead_sample_db\<lparr>envelopes := [(7, 20)]\<rparr>, no_worktrees) =
       Inr ((d', no_worktrees), r', None) \<and> map j_id (jobs d') = [5]"
proof -
  obtain s p e where run: "authorize_execution_scope 4 60 7 50 sample_grant proposed_sample = Inr (s, p, e)"
    and e: "en_goal e = 20" "au_base s = dead_sample_db\<lparr>envelopes := [(7, 20)]\<rparr>" using authorize_sample by blast
  obtain d' r' nj ws' where take: "execute_takeover chat_env (\<lambda>d. d) no_github 9 6 ''tok'' (sample_task 1 TRunning)
     sample_goal dead_sample_record ''w'' (au_base s, no_worktrees) = Inr ((d', ws'), r', nj)"
    using dead_sample_declines unfolding e by blast
  have "authority_step\<^sup>*\<^sup>* (no_authority dead_sample_db) proposed_sample" using proposed_sample_step by blast
  from governed_goal_never_taken_over [OF this run rtranclp.rtrancl_refl _ _ take] e take show ?thesis
    by (auto simp: sample_goal_def dead_sample_db_def dead_sample_job_def dispatch_job_def new_job_def)
qed

end
