(* ===== verification/GoalLease.thy ===== *)
theory GoalLease
  imports Envelopes JobRuntime
begin

text \<open>
  The supervisor's goal lease: \<open>app/development_supervisor/lease.py\<close>, migration 0059, and the part of
  \<open>production_entry.py\<close> and \<open>worker.py\<close> that claims, re-verifies, runs and releases. The lease
  table is shown to implement an abstract lock per goal with fencing tokens.
\<close>

section \<open>Rows and statements\<close>

datatype lease_status = LeaseActive | LeaseReleased

record goal_lease =
  gl_id :: uuid
  gl_owner :: uuid
  gl_goal :: uuid
  gl_envelope :: "uuid option"
  gl_worker :: string
  gl_generation :: int
  gl_status :: lease_status
  gl_acquired_at :: time
  gl_expires_at :: time
  gl_heartbeat_at :: "time option"
  gl_released_at :: "time option"

record lease_db =
  ld_leases :: "goal_lease list"
  ld_authority :: authority

datatype lease_error = SupervisorLeaseLost uuid | LeaseConstraint | SupervisorRefused string

definition active_lease_of :: "uuid \<Rightarrow> goal_lease \<Rightarrow> bool" where
  "active_lease_of gid l \<longleftrightarrow> gl_goal l = gid \<and> gl_status l = LeaseActive"

definition envelope_of_owner :: "uuid \<Rightarrow> uuid \<Rightarrow> lease_db \<Rightarrow> bool" where
  "envelope_of_owner eid owner s \<longleftrightarrow>
     list_ex (\<lambda>e. en_id e = eid \<and> en_owner e = owner) (au_envelopes (ld_authority s))"

definition new_lease :: "time \<Rightarrow> uuid \<Rightarrow> uuid \<Rightarrow> uuid \<Rightarrow> uuid \<Rightarrow> string \<Rightarrow> int \<Rightarrow> goal_lease" where
  "new_lease now i owner gid eid worker secs =
     \<lparr>gl_id = i, gl_owner = owner, gl_goal = gid, gl_envelope = Some eid, gl_worker = worker,
      gl_generation = 1, gl_status = LeaseActive, gl_acquired_at = now, gl_expires_at = now + secs,
      gl_heartbeat_at = Some now, gl_released_at = None\<rparr>"

definition taken_lease :: "time \<Rightarrow> uuid \<Rightarrow> string \<Rightarrow> int \<Rightarrow> goal_lease \<Rightarrow> goal_lease" where
  "taken_lease now eid worker secs l =
     l\<lparr>gl_worker := worker, gl_envelope := Some eid, gl_generation := gl_generation l + 1,
       gl_expires_at := now + secs, gl_heartbeat_at := Some now, gl_acquired_at := now\<rparr>"

text \<open>
  \<open>_CLAIM_SQL\<close>: the insert, and on a conflict with the partial unique index on active leases the
  guarded update. \<open>i\<close> is \<open>gen_random_uuid()\<close>.
\<close>

definition claim_supervisor_goal_lease ::
  "time \<Rightarrow> uuid \<Rightarrow> uuid \<Rightarrow> uuid \<Rightarrow> uuid \<Rightarrow> string \<Rightarrow> int \<Rightarrow> lease_db \<Rightarrow>
   lease_error + (lease_db \<times> (uuid \<times> int) option)" where
  "claim_supervisor_goal_lease now i owner gid eid worker secs s =
     (if length worker > 128 then Inl LeaseConstraint
      else case find_row (active_lease_of gid) (ld_leases s) of
             None \<Rightarrow>
               if i \<in> gl_id ` set (ld_leases s) \<or> \<not> goal_exists owner gid (au_base (ld_authority s)) \<or>
                  \<not> envelope_of_owner eid owner s
               then Inl LeaseConstraint
               else Inr (s\<lparr>ld_leases := ld_leases s @ [new_lease now i owner gid eid worker secs]\<rparr>, Some (i, 1))
           | Some l \<Rightarrow>
               if \<not> gl_expires_at l < now then Inr (s, None)
               else if \<not> envelope_of_owner eid (gl_owner l) s then Inl LeaseConstraint
               else Inr (s\<lparr>ld_leases := update_rows (\<lambda>x. gl_id x = gl_id l) (taken_lease now eid worker secs) (ld_leases s)\<rparr>,
                         Some (gl_id l, gl_generation l + 1)))"

definition holds_lease :: "uuid \<Rightarrow> string \<Rightarrow> int \<Rightarrow> goal_lease \<Rightarrow> bool" where
  "holds_lease lid worker gen l \<longleftrightarrow>
     gl_id l = lid \<and> gl_worker l = worker \<and> gl_generation l = gen \<and> gl_status l = LeaseActive"

definition renew_supervisor_goal_lease ::
  "time \<Rightarrow> uuid \<Rightarrow> string \<Rightarrow> int \<Rightarrow> int \<Rightarrow> lease_db \<Rightarrow> lease_error + lease_db" where
  "renew_supervisor_goal_lease now lid worker gen secs s =
     (if list_ex (holds_lease lid worker gen) (ld_leases s)
      then Inr (s\<lparr>ld_leases := update_rows (holds_lease lid worker gen)
                    (\<lambda>l. l\<lparr>gl_expires_at := now + secs, gl_heartbeat_at := Some now\<rparr>) (ld_leases s)\<rparr>)
      else Inl (SupervisorLeaseLost lid))"

definition release_supervisor_goal_lease ::
  "time \<Rightarrow> uuid \<Rightarrow> string \<Rightarrow> int \<Rightarrow> lease_db \<Rightarrow> lease_db \<times> bool" where
  "release_supervisor_goal_lease now lid worker gen s =
     (s\<lparr>ld_leases := update_rows (holds_lease lid worker gen)
          (\<lambda>l. l\<lparr>gl_status := LeaseReleased, gl_released_at := Some now\<rparr>) (ld_leases s)\<rparr>,
      list_ex (holds_lease lid worker gen) (ld_leases s))"

section \<open>The table\<close>

definition leases_ok :: "lease_db \<Rightarrow> bool" where
  "leases_ok s \<longleftrightarrow>
     unique_key gl_id (ld_leases s) \<and> (\<forall>l\<in>set (ld_leases s). 1 \<le> gl_generation l) \<and>
     (\<forall>l\<in>set (ld_leases s). \<forall>k\<in>set (ld_leases s).
        gl_status l = LeaseActive \<longrightarrow> gl_status k = LeaseActive \<longrightarrow> gl_goal l = gl_goal k \<longrightarrow> l = k)"

lemma leases_okD:
  assumes "leases_ok s"
  shows "unique_key gl_id (ld_leases s)"
    and "l \<in> set (ld_leases s) \<Longrightarrow> 1 \<le> gl_generation l"
    and "l \<in> set (ld_leases s) \<Longrightarrow> k \<in> set (ld_leases s) \<Longrightarrow> gl_status l = LeaseActive \<Longrightarrow>
      gl_status k = LeaseActive \<Longrightarrow> gl_goal l = gl_goal k \<Longrightarrow> l = k"
    and "l \<in> set (ld_leases s) \<Longrightarrow> k \<in> set (ld_leases s) \<Longrightarrow> gl_id l = gl_id k \<Longrightarrow> l = k"
  using assms unique_key_eqD [of gl_id "ld_leases s"] by (auto simp: leases_ok_def)

lemma taken_lease_simps [simp]:
  "gl_id (taken_lease now eid w secs l) = gl_id l" "gl_goal (taken_lease now eid w secs l) = gl_goal l"
  "gl_status (taken_lease now eid w secs l) = gl_status l" "gl_worker (taken_lease now eid w secs l) = w"
  "gl_generation (taken_lease now eid w secs l) = gl_generation l + 1"
  "gl_expires_at (taken_lease now eid w secs l) = now + secs" "gl_owner (taken_lease now eid w secs l) = gl_owner l"
  by (simp_all add: taken_lease_def)

lemma new_lease_simps [simp]:
  "gl_id (new_lease now i owner gid eid w secs) = i" "gl_goal (new_lease now i owner gid eid w secs) = gid"
  "gl_status (new_lease now i owner gid eid w secs) = LeaseActive" "gl_worker (new_lease now i owner gid eid w secs) = w"
  "gl_generation (new_lease now i owner gid eid w secs) = 1"
  "gl_expires_at (new_lease now i owner gid eid w secs) = now + secs"
  by (simp_all add: new_lease_def)

text \<open>A write that keeps id, goal and never activates keeps the table's constraints.\<close>

lemma leases_ok_update:
  assumes "leases_ok s" and "\<And>l. gl_id (f l) = gl_id l" "\<And>l. gl_goal (f l) = gl_goal l"
    and "\<And>l. gl_generation l \<le> gl_generation (f l)" "\<And>l. gl_status (f l) = LeaseActive \<Longrightarrow> gl_status l = LeaseActive"
  shows "leases_ok (s\<lparr>ld_leases := update_rows p f (ld_leases s)\<rparr>)"
proof -
  have "unique_key gl_id (update_rows p f (ld_leases s))"
    using assms(1,2) by (simp add: unique_key_update_rows leases_ok_def)
  moreover have "1 \<le> gl_generation l" if "l \<in> set (update_rows p f (ld_leases s))" for l
    using that assms(4) leases_okD(2) [OF assms(1)] by (fastforce simp: in_update_rows_iff intro: order_trans)
  moreover have "l = k" if lk: "l \<in> set (update_rows p f (ld_leases s))" "k \<in> set (update_rows p f (ld_leases s))"
    and st: "gl_status l = LeaseActive" "gl_status k = LeaseActive" "gl_goal l = gl_goal k" for l k
  proof -
    from lk obtain a b where ab: "a \<in> set (ld_leases s)" "l = (if p a then f a else a)"
      "b \<in> set (ld_leases s)" "k = (if p b then f b else b)" by (auto simp: in_update_rows_iff)
    have "gl_goal x = gl_goal (if p x then f x else x)"
      "gl_status (if p x then f x else x) = LeaseActive \<Longrightarrow> gl_status x = LeaseActive" for x
      using assms(3,5) by (cases "p x"; simp)+
    then have "gl_status a = LeaseActive" "gl_status b = LeaseActive" "gl_goal a = gl_goal b"
      using st ab(2,4) by metis+
    with ab leases_okD(3) [OF assms(1)] have "a = b" by blast
    with ab show ?thesis by simp
  qed
  ultimately show ?thesis by (simp add: leases_ok_def)
qed

lemma claim_ok:
  assumes "claim_supervisor_goal_lease now i owner gid eid w secs s = Inr (s', r)" and "leases_ok s"
  shows "leases_ok s'"
proof (cases "find_row (active_lease_of gid) (ld_leases s)")
  case None
  with assms(1) have "s' = s\<lparr>ld_leases := ld_leases s @ [new_lease now i owner gid eid w secs]\<rparr>"
    and "i \<notin> gl_id ` set (ld_leases s)"
    by (auto simp: claim_supervisor_goal_lease_def split: if_splits)
  with assms(2) None show ?thesis
    by (auto simp: leases_ok_def unique_key_snoc find_row_None_iff active_lease_of_def)
next
  case (Some l)
  with assms show ?thesis
    by (auto simp: claim_supervisor_goal_lease_def split: if_splits intro!: leases_ok_update)
qed

lemma renew_lease_ok: "renew_supervisor_goal_lease now lid w gen secs s = Inr s' \<Longrightarrow> leases_ok s \<Longrightarrow> leases_ok s'"
  by (auto simp: renew_supervisor_goal_lease_def split: if_splits intro!: leases_ok_update)

lemma release_ok: "release_supervisor_goal_lease now lid w gen s = (s', b) \<Longrightarrow> leases_ok s \<Longrightarrow> leases_ok s'"
  by (auto simp: release_supervisor_goal_lease_def intro!: leases_ok_update)

section \<open>Fencing\<close>

text \<open>Any interleaving of the three statements by any workers; \<open>elsewhere\<close> leaves the lease table alone.\<close>

inductive lease_step :: "lease_db \<Rightarrow> lease_db \<Rightarrow> bool" where
  claim: "claim_supervisor_goal_lease now i owner gid eid w secs s = Inr (t, r) \<Longrightarrow> lease_step s t"
| renew: "renew_supervisor_goal_lease now lid w gen secs s = Inr t \<Longrightarrow> lease_step s t"
| release: "release_supervisor_goal_lease now lid w gen s = (t, b) \<Longrightarrow> lease_step s t"
| elsewhere: "lease_step s (s\<lparr>ld_authority := a\<rparr>)"

definition lease_generation_of :: "lease_db \<Rightarrow> uuid \<Rightarrow> int option" where
  "lease_generation_of s lid = map_option gl_generation (find_row (\<lambda>l. gl_id l = lid) (ld_leases s))"

definition lease_held :: "lease_db \<Rightarrow> uuid \<Rightarrow> string \<Rightarrow> int \<Rightarrow> bool" where
  "lease_held s lid w gen \<longleftrightarrow> list_ex (holds_lease lid w gen) (ld_leases s)"

lemma lease_step_ok: "lease_step s t \<Longrightarrow> leases_ok s \<Longrightarrow> leases_ok t"
proof (induction rule: lease_step.induct)
  case (elsewhere s a)
  then show ?case by (simp add: leases_ok_def)
qed (auto intro: claim_ok renew_lease_ok release_ok)

text \<open>
  How a step changes a row: it appends a fresh one, or rewrites rows in place so that a generation
  never falls, and a row keeps its holder unless the generation rises.
\<close>

definition lease_evolves :: "goal_lease \<Rightarrow> goal_lease \<Rightarrow> bool" where
  "lease_evolves l m \<longleftrightarrow> gl_id m = gl_id l \<and> gl_goal m = gl_goal l \<and> gl_generation l \<le> gl_generation m \<and>
     (gl_generation m = gl_generation l \<longrightarrow> gl_worker m = gl_worker l) \<and>
     (gl_status m = LeaseActive \<longrightarrow> gl_status l = LeaseActive)"

lemma lease_evolves_refl [simp]: "lease_evolves l l"
  by (simp add: lease_evolves_def)

lemma lease_step_rows:
  assumes "lease_step s t"
  obtains (rewrite) p f where "ld_leases t = update_rows p f (ld_leases s)" "\<And>l. lease_evolves l (f l)"
    | (append) l where "ld_leases t = ld_leases s @ [l]" "gl_id l \<notin> gl_id ` set (ld_leases s)"
  using assms
proof (induction rule: lease_step.induct)
  case (claim now i owner gid eid w secs s t r)
  show ?case
  proof (cases "find_row (active_lease_of gid) (ld_leases s)")
    case None
    with claim show ?thesis by (auto simp: claim_supervisor_goal_lease_def split: if_splits intro: claim.prems(2))
  next
    case (Some l)
    with claim(1) consider "t = s" | "ld_leases t = update_rows (\<lambda>x. gl_id x = gl_id l) (taken_lease now eid w secs) (ld_leases s)"
      by (auto simp: claim_supervisor_goal_lease_def split: if_splits)
    then show ?thesis
    proof cases
      case 1
      then show ?thesis using claim.prems(1) [of "\<lambda>_. False" "\<lambda>l. l"] by (simp add: update_rows_def)
    next
      case 2
      then show ?thesis by (rule claim.prems(1)) (simp add: lease_evolves_def)
    qed
  qed
next
  case (renew now lid w gen secs s t)
  then have "ld_leases t = update_rows (holds_lease lid w gen)
      (\<lambda>l. l\<lparr>gl_expires_at := now + secs, gl_heartbeat_at := Some now\<rparr>) (ld_leases s)"
    by (auto simp: renew_supervisor_goal_lease_def split: if_splits)
  then show ?case by (rule renew.prems(1)) (simp add: lease_evolves_def)
next
  case (release now lid w gen s t b)
  then have "ld_leases t = update_rows (holds_lease lid w gen)
      (\<lambda>l. l\<lparr>gl_status := LeaseReleased, gl_released_at := Some now\<rparr>) (ld_leases s)"
    by (auto simp: release_supervisor_goal_lease_def)
  then show ?case by (rule release.prems(1)) (simp add: lease_evolves_def)
next
  case (elsewhere s a)
  from elsewhere(1) [of "\<lambda>_. False" "\<lambda>l. l"] show ?case by (simp add: update_rows_def)
qed

lemma generation_of_row:
  assumes "leases_ok s" and "l \<in> set (ld_leases s)"
  shows "lease_generation_of s (gl_id l) = Some (gl_generation l)"
  using unique_key_find [OF leases_okD(1) [OF assms(1)] assms(2)] by (simp add: lease_generation_of_def)

lemma generation_ofD:
  "lease_generation_of s lid = Some g \<Longrightarrow> \<exists>l\<in>set (ld_leases s). gl_id l = lid \<and> gl_generation l = g"
  by (auto simp: lease_generation_of_def dest: find_row_SomeD)

lemma lease_heldD: "lease_held s lid w g \<Longrightarrow> \<exists>l\<in>set (ld_leases s). holds_lease lid w g l"
  by (auto simp: lease_held_def list_ex_iff)

lemma lease_heldI: "l \<in> set (ld_leases s) \<Longrightarrow> holds_lease lid w g l \<Longrightarrow> lease_held s lid w g"
  by (auto simp: lease_held_def list_ex_iff)

lemma lease_step_generation:
  assumes "leases_ok s" and "lease_step s t" and "lease_generation_of s k = Some g"
  shows "\<exists>h\<ge>g. lease_generation_of t k = Some h"
proof -
  from generation_ofD [OF assms(3)] obtain l where l: "l \<in> set (ld_leases s)" "gl_id l = k" "gl_generation l = g"
    by blast
  have okt: "leases_ok t" using assms(2,1) by (rule lease_step_ok)
  from assms(2) have "\<exists>m\<in>set (ld_leases t). lease_evolves l m"
  proof (cases rule: lease_step_rows)
    case (rewrite p f)
    then have "lease_evolves l (if p l then f l else l)" by simp
    moreover have "(if p l then f l else l) \<in> set (ld_leases t)"
      unfolding rewrite(1) in_update_rows_iff using l(1) by blast
    ultimately show ?thesis by blast
  next
    case (append m)
    with l(1) show ?thesis by (intro bexI [of _ l]) simp_all
  qed
  then obtain m where "m \<in> set (ld_leases t)" "lease_evolves l m" by blast
  with generation_of_row [OF okt this(1)] l show ?thesis by (auto simp: lease_evolves_def)
qed

lemma lease_step_holds:
  assumes "leases_ok s" and "lease_step s t" and "lease_held t k w g" and "lease_generation_of s k = Some g"
  shows "lease_held s k w g"
proof -
  from lease_heldD [OF assms(3)] obtain m where m: "m \<in> set (ld_leases t)" "holds_lease k w g m" by blast
  from generation_ofD [OF assms(4)] obtain l0 where l0: "l0 \<in> set (ld_leases s)" "gl_id l0 = k" "gl_generation l0 = g"
    by blast
  from assms(2) have "\<exists>l\<in>set (ld_leases s). gl_id l = k \<and> lease_evolves l m"
  proof (cases rule: lease_step_rows)
    case (rewrite p f)
    with m obtain l where "l \<in> set (ld_leases s)" "m = (if p l then f l else l)"
      by (auto simp: in_update_rows_iff)
    moreover have "lease_evolves l m" using calculation rewrite(2) by simp
    ultimately show ?thesis using m(2) unfolding holds_lease_def lease_evolves_def by metis
  next
    case (append x)
    with m l0 have "m \<in> set (ld_leases s)" by (auto simp: holds_lease_def)
    then show ?thesis using m(2) by (auto simp: holds_lease_def intro!: bexI [of _ m])
  qed
  then obtain l where l: "l \<in> set (ld_leases s)" "gl_id l = k" "lease_evolves l m" by blast
  with l0 leases_okD(4) [OF assms(1)] have "gl_generation l = g" by metis
  with l m(2) show ?thesis by (intro lease_heldI [of l]) (auto simp: holds_lease_def lease_evolves_def)
qed

interpretation goal_leases: lease_fencing lease_step leases_ok lease_generation_of lease_held
proof
  fix s t :: lease_db and k g and w v :: string
  assume ok: "leases_ok s"
  show "lease_step s t \<Longrightarrow> leases_ok t" using ok by (blast intro: lease_step_ok)
  show "lease_step s t \<Longrightarrow> lease_generation_of s k = Some g \<Longrightarrow> \<exists>h\<ge>g. lease_generation_of t k = Some h"
    using ok by (rule lease_step_generation)
  show "lease_held s k w g \<Longrightarrow> lease_generation_of s k = Some g"
    using generation_of_row [OF ok] by (auto dest!: lease_heldD simp: holds_lease_def)
  show "lease_held s k w g \<Longrightarrow> lease_held s k v g \<Longrightarrow> w = v"
    using leases_okD(4) [OF ok] unfolding holds_lease_def by (metis lease_heldD holds_lease_def)
  show "lease_step s t \<Longrightarrow> lease_held t k w g \<Longrightarrow> lease_generation_of s k = Some g \<Longrightarrow> lease_held s k w g"
    using ok by (rule lease_step_holds)
qed

section \<open>The abstract lock\<close>

text \<open>
  What the table is for: one lock per goal. A held lock names its lease, its holder, the holder's token
  and the instant up to which nobody can take it over.
\<close>

record lock_holder =
  lk_lease :: uuid
  lk_worker :: string
  lk_token :: int
  lk_until :: time

type_synonym goal_lock = "uuid \<Rightarrow> lock_holder option"

definition holder_of :: "goal_lease \<Rightarrow> lock_holder" where
  "holder_of l = \<lparr>lk_lease = gl_id l, lk_worker = gl_worker l, lk_token = gl_generation l, lk_until = gl_expires_at l\<rparr>"

definition lock_of :: "lease_db \<Rightarrow> goal_lock" where
  "lock_of s gid = map_option holder_of (find_row (active_lease_of gid) (ld_leases s))"

definition lock_acquire ::
  "time \<Rightarrow> uuid \<Rightarrow> uuid \<Rightarrow> string \<Rightarrow> int \<Rightarrow> goal_lock \<Rightarrow> goal_lock \<times> (uuid \<times> int) option" where
  "lock_acquire now i gid worker secs L =
     (case L gid of
        None \<Rightarrow> (L(gid \<mapsto> \<lparr>lk_lease = i, lk_worker = worker, lk_token = 1, lk_until = now + secs\<rparr>), Some (i, 1))
      | Some h \<Rightarrow>
          if lk_until h < now
          then (L(gid \<mapsto> h\<lparr>lk_worker := worker, lk_token := lk_token h + 1, lk_until := now + secs\<rparr>),
                Some (lk_lease h, lk_token h + 1))
          else (L, None))"

definition lock_mine :: "uuid \<Rightarrow> string \<Rightarrow> int \<Rightarrow> lock_holder \<Rightarrow> bool" where
  "lock_mine lid worker tok h \<longleftrightarrow> lk_lease h = lid \<and> lk_worker h = worker \<and> lk_token h = tok"

definition lock_extend :: "time \<Rightarrow> uuid \<Rightarrow> string \<Rightarrow> int \<Rightarrow> int \<Rightarrow> goal_lock \<Rightarrow> goal_lock option" where
  "lock_extend now lid worker tok secs L =
     (if \<exists>h\<in>ran L. lock_mine lid worker tok h
      then Some (\<lambda>gid. map_option (\<lambda>h. if lock_mine lid worker tok h then h\<lparr>lk_until := now + secs\<rparr> else h) (L gid))
      else None)"

definition lock_free :: "uuid \<Rightarrow> string \<Rightarrow> int \<Rightarrow> goal_lock \<Rightarrow> goal_lock \<times> bool" where
  "lock_free lid worker tok L =
     (\<lambda>gid. Option.bind (L gid) (\<lambda>h. if lock_mine lid worker tok h then None else Some h),
      \<exists>h\<in>ran L. lock_mine lid worker tok h)"

lemma find_row_snoc:
  "find_row P (xs @ [y]) = (case find_row P xs of None \<Rightarrow> if P y then Some y else None | Some x \<Rightarrow> Some x)"
  by (induction xs) auto

lemma find_active_cong:
  "(\<And>l. l \<in> set ls \<Longrightarrow> active_lease_of gid (f l) = active_lease_of gid l) \<Longrightarrow>
     find_row (active_lease_of gid) (map f ls) = map_option f (find_row (active_lease_of gid) ls)"
  by (induction ls) auto

lemma active_row:
  assumes "leases_ok s" and "l \<in> set (ld_leases s)" and "gl_status l = LeaseActive"
  shows "find_row (active_lease_of (gl_goal l)) (ld_leases s) = Some l"
proof (cases "find_row (active_lease_of (gl_goal l)) (ld_leases s)")
  case None
  with assms(2,3) show ?thesis by (auto simp: find_row_None_iff active_lease_of_def)
next
  case (Some k)
  then have "k \<in> set (ld_leases s)" "gl_status k = LeaseActive" "gl_goal k = gl_goal l"
    by (auto simp: active_lease_of_def dest: find_row_SomeD)
  with leases_okD(3) [OF assms(1)] assms(2,3) have "k = l" by blast
  with Some show ?thesis by simp
qed

lemma lock_ran:
  assumes "leases_ok s"
  shows "(\<exists>h\<in>ran (lock_of s). lock_mine lid w tok h) \<longleftrightarrow> list_ex (holds_lease lid w tok) (ld_leases s)"
proof
  assume "\<exists>h\<in>ran (lock_of s). lock_mine lid w tok h"
  then obtain gid l where "find_row (active_lease_of gid) (ld_leases s) = Some l" "lock_mine lid w tok (holder_of l)"
    by (auto simp: ran_def lock_of_def)
  then show "list_ex (holds_lease lid w tok) (ld_leases s)"
    by (auto simp: list_ex_iff holds_lease_def lock_mine_def holder_of_def active_lease_of_def dest!: find_row_SomeD)
next
  assume "list_ex (holds_lease lid w tok) (ld_leases s)"
  then obtain l where l: "l \<in> set (ld_leases s)" "holds_lease lid w tok l" by (auto simp: list_ex_iff)
  then have "lock_of s (gl_goal l) = Some (holder_of l)"
    using active_row [OF assms l(1)] by (simp add: lock_of_def holds_lease_def)
  then show "\<exists>h\<in>ran (lock_of s). lock_mine lid w tok h"
    using l(2) by (auto simp: ran_def lock_mine_def holder_of_def holds_lease_def)
qed

lemma mine_iff: "gl_status l = LeaseActive \<Longrightarrow> lock_mine lid w tok (holder_of l) \<longleftrightarrow> holds_lease lid w tok l"
  by (auto simp: lock_mine_def holder_of_def holds_lease_def)

lemma find_release:
  assumes "\<And>l k. l \<in> set ls \<Longrightarrow> k \<in> set ls \<Longrightarrow> active_lease_of gid l \<Longrightarrow> active_lease_of gid k \<Longrightarrow> l = k"
    and "\<And>l. active_lease_of gid (f l) \<longleftrightarrow> active_lease_of gid l \<and> \<not> p l" "\<And>l. \<not> p l \<Longrightarrow> f l = l"
  shows "find_row (active_lease_of gid) (map f ls) =
    Option.bind (find_row (active_lease_of gid) ls) (\<lambda>l. if p l then None else Some l)"
  using assms(1)
proof (induction ls)
  case (Cons a ls)
  show ?case
  proof (cases "active_lease_of gid a")
    case True
    show ?thesis
    proof (cases "p a")
      case pa: True
      have "\<not> active_lease_of gid (f k)" if "k \<in> set ls" for k
        using Cons.prems [of a k] that True pa assms(2) by auto
      then have "find_row (active_lease_of gid) (map f ls) = None" by (auto simp: find_row_None_iff)
      with True pa assms(2) show ?thesis by simp
    qed (use True assms(2,3) in simp)
  qed (use Cons assms(2) in auto)
qed simp

lemma claim_refines:
  assumes "claim_supervisor_goal_lease now i owner gid eid w secs s = Inr (t, r)" and "leases_ok s"
  shows "lock_acquire now i gid w secs (lock_of s) = (lock_of t, r)"
proof (cases "find_row (active_lease_of gid) (ld_leases s)")
  case None
  with assms(1) have t: "t = s\<lparr>ld_leases := ld_leases s @ [new_lease now i owner gid eid w secs]\<rparr>" "r = Some (i, 1)"
    by (auto simp: claim_supervisor_goal_lease_def split: if_splits)
  have "lock_of t = (lock_of s)(gid \<mapsto> \<lparr>lk_lease = i, lk_worker = w, lk_token = 1, lk_until = now + secs\<rparr>)"
  proof
    fix g
    show "lock_of t g = ((lock_of s)(gid \<mapsto> \<lparr>lk_lease = i, lk_worker = w, lk_token = 1, lk_until = now + secs\<rparr>)) g"
      using None by (auto simp: lock_of_def t find_row_snoc holder_of_def active_lease_of_def split: option.splits)
  qed
  with None t show ?thesis by (simp add: lock_acquire_def lock_of_def)
next
  case (Some l)
  then have l: "l \<in> set (ld_leases s)" "gl_goal l = gid" "gl_status l = LeaseActive"
    by (auto simp: active_lease_of_def dest: find_row_SomeD)
  show ?thesis
  proof (cases "gl_expires_at l < now")
    case True
    with assms(1) Some have t: "r = Some (gl_id l, gl_generation l + 1)"
      "t = s\<lparr>ld_leases := update_rows (\<lambda>x. gl_id x = gl_id l) (taken_lease now eid w secs) (ld_leases s)\<rparr>"
      by (auto simp: claim_supervisor_goal_lease_def split: if_splits)
    have "lock_of t g = map_option holder_of (map_option (\<lambda>x. if gl_id x = gl_id l then taken_lease now eid w secs x else x)
        (find_row (active_lease_of g) (ld_leases s)))" for g
      unfolding lock_of_def t(2) update_rows_def
      by (simp add: find_active_cong active_lease_of_def)
    moreover have "map_option (\<lambda>x. if gl_id x = gl_id l then taken_lease now eid w secs x else x)
        (find_row (active_lease_of g) (ld_leases s)) = find_row (active_lease_of g) (ld_leases s)" if "g \<noteq> gid" for g
      using that l(2)
      by (cases "find_row (active_lease_of g) (ld_leases s)")
        (auto simp: active_lease_of_def dest!: find_row_SomeD dest: leases_okD(4) [OF assms(2) _ l(1)])
    ultimately have "lock_of t = (lock_of s)(gid \<mapsto> (holder_of l)\<lparr>lk_worker := w,
        lk_token := gl_generation l + 1, lk_until := now + secs\<rparr>)"
      using Some by (intro ext) (auto simp: lock_of_def holder_of_def)
    with Some True t show ?thesis by (simp add: lock_acquire_def lock_of_def holder_of_def)
  next
    case False
    with assms(1) Some show ?thesis
      by (auto simp: claim_supervisor_goal_lease_def lock_acquire_def lock_of_def holder_of_def split: if_splits)
  qed
qed

lemma extend_refines:
  assumes "leases_ok s"
  shows "lock_extend now lid w gen secs (lock_of s) =
    (case renew_supervisor_goal_lease now lid w gen secs s of Inl e \<Rightarrow> None | Inr t \<Rightarrow> Some (lock_of t))"
proof (cases "list_ex (holds_lease lid w gen) (ld_leases s)")
  case True
  let ?f = "\<lambda>l. if holds_lease lid w gen l then l\<lparr>gl_expires_at := now + secs, gl_heartbeat_at := Some now\<rparr> else l"
  have "find_row (active_lease_of g) (map ?f (ld_leases s)) = map_option ?f (find_row (active_lease_of g) (ld_leases s))" for g
    by (rule find_active_cong) (simp add: active_lease_of_def)
  then have "lock_of (s\<lparr>ld_leases := map ?f (ld_leases s)\<rparr>) g =
      map_option (\<lambda>h. if lock_mine lid w gen h then h\<lparr>lk_until := now + secs\<rparr> else h) (lock_of s g)" for g
    by (cases "find_row (active_lease_of g) (ld_leases s)")
      (auto simp: lock_of_def active_lease_of_def holder_of_def holds_lease_def lock_mine_def dest!: find_row_SomeD)
  with True show ?thesis
    by (auto simp: lock_extend_def renew_supervisor_goal_lease_def lock_ran [OF assms] update_rows_def)
qed (simp add: lock_extend_def renew_supervisor_goal_lease_def lock_ran [OF assms])

lemma free_refines:
  assumes "leases_ok s" and "release_supervisor_goal_lease now lid w gen s = (t, b)"
  shows "lock_free lid w gen (lock_of s) = (lock_of t, b)"
proof -
  let ?f = "\<lambda>l. if holds_lease lid w gen l then l\<lparr>gl_status := LeaseReleased, gl_released_at := Some now\<rparr> else l"
  from assms(2) have t: "t = s\<lparr>ld_leases := map ?f (ld_leases s)\<rparr>" "b = list_ex (holds_lease lid w gen) (ld_leases s)"
    by (auto simp: release_supervisor_goal_lease_def update_rows_def)
  have "find_row (active_lease_of g) (map ?f (ld_leases s)) =
      Option.bind (find_row (active_lease_of g) (ld_leases s)) (\<lambda>l. if holds_lease lid w gen l then None else Some l)" for g
    by (rule find_release) (auto simp: active_lease_of_def intro: leases_okD(3) [OF assms(1)])
  then have "lock_of t g = Option.bind (lock_of s g) (\<lambda>h. if lock_mine lid w gen h then None else Some h)" for g
    by (auto simp: lock_of_def t(1) mine_iff active_lease_of_def split: option.splits Option.bind_splits dest!: find_row_SomeD)
  then show ?thesis by (auto simp: lock_free_def lock_ran [OF assms(1)] t(2))
qed

section \<open>What the lease promises\<close>

lemma reachable_leases_ok:
  assumes "ld_leases s0 = []" and "lease_step\<^sup>*\<^sup>* s0 s"
  shows "leases_ok s"
  using goal_leases.inv_steps [OF assms(2)] assms(1) by (simp add: leases_ok_def unique_key_def)

text \<open>C40: the lease table implements one lock per goal. In every state the three statements can lead to,
  claiming is acquiring the goal's lock (free, or lapsed and then with the next token; refused while
  it is held), renewing is extending a lock that is one's own and failing otherwise, releasing is
  freeing it and reporting whether it was one's own; the row level details are invisible.\<close>

theorem goal_lease_refines_lock:
  assumes "ld_leases s0 = []" and "lease_step\<^sup>*\<^sup>* s0 s"
  shows "(case claim_supervisor_goal_lease now i owner gid eid w secs s of
       Inr (t, r) \<Rightarrow> lock_acquire now i gid w secs (lock_of s) = (lock_of t, r)
     | Inl e \<Rightarrow> e = LeaseConstraint) \<and>
    lock_extend now lid w gen secs (lock_of s) =
      (case renew_supervisor_goal_lease now lid w gen secs s of Inl e \<Rightarrow> None | Inr t \<Rightarrow> Some (lock_of t)) \<and>
    lock_free lid w gen (lock_of s) = map_prod lock_of id (release_supervisor_goal_lease now lid w gen s)"
proof -
  have ok: "leases_ok s" using assms by (rule reachable_leases_ok)
  have "e = LeaseConstraint" if "claim_supervisor_goal_lease now i owner gid eid w secs s = Inl e" for e
    using that by (auto simp: claim_supervisor_goal_lease_def split: if_splits option.splits)
  then show ?thesis
    using claim_refines [OF _ ok] extend_refines [OF ok] free_refines [OF ok]
    by (auto split: sum.splits prod.splits simp: map_prod_def)
qed

text \<open>A supervisor that lost its goal lease stays locked out. Once a worker does not hold the lease at
  its token (released, or taken over), then after any further sequence of claims, renewals and
  releases its renewal raises, its release changes nothing, and at every moment a goal has at most
  one active lease, so at most one worker.\<close>

theorem lost_goal_lease_stays_lost:
  assumes "ld_leases s0 = []" and "lease_step\<^sup>*\<^sup>* s0 s" and "lease_step\<^sup>*\<^sup>* s t"
    and "lease_generation_of s lid = Some h" and "gen \<le> h" and "\<not> lease_held s lid w gen"
  shows "renew_supervisor_goal_lease now lid w gen secs t = Inl (SupervisorLeaseLost lid) \<and>
    release_supervisor_goal_lease now lid w gen t = (t, False) \<and>
    (\<forall>k\<in>set (ld_leases t). \<forall>l\<in>set (ld_leases t).
       active_lease_of gid k \<and> active_lease_of gid l \<longrightarrow> k = l)"
proof -
  have ok: "leases_ok s" using assms(1,2) by (rule reachable_leases_ok)
  then have okt: "leases_ok t" using assms(3) by (blast intro: goal_leases.inv_steps)
  have "\<not> lease_held t lid w gen"
    using assms(3) ok assms(4-6) by (rule goal_leases.stale_forever)
  then have no: "\<not> list_ex (holds_lease lid w gen) (ld_leases t)" by (simp add: lease_held_def)
  then have "update_rows (holds_lease lid w gen) f (ld_leases t) = ld_leases t" for f
    by (intro update_rows_idle) (auto simp: list_ex_iff)
  with no show ?thesis
    using leases_okD(3) [OF okt]
    by (auto simp: renew_supervisor_goal_lease_def release_supervisor_goal_lease_def active_lease_of_def)
qed

text \<open>The statements at work: worker \<open>a\<close> claims for 100 seconds, lapses, and \<open>b\<close> takes the lease over.\<close>

definition lease_sample :: lease_db where
  "lease_sample = \<lparr>ld_leases = [], ld_authority = \<lparr>au_proposals = [],
     au_envelopes = [new_envelope 4 60 (new_proposal 3 50 7 ''p'' sample_scope) sample_grant None],
     au_base = dead_sample_db\<lparr>envelopes := [(7, 20)]\<rparr>\<rparr>\<rparr>"

lemma lease_sample_claim:
  "claim_supervisor_goal_lease 0 90 7 20 60 ''a'' 100 lease_sample =
     Inr (lease_sample\<lparr>ld_leases := [new_lease 0 90 7 20 60 ''a'' 100]\<rparr>, Some (90, 1))"
  by (simp add: claim_supervisor_goal_lease_def lease_sample_def envelope_of_owner_def new_envelope_def new_proposal_def)

lemma lease_sample_takeover:
  "claim_supervisor_goal_lease 101 91 7 20 60 ''b'' 100 (lease_sample\<lparr>ld_leases := [new_lease 0 90 7 20 60 ''a'' 100]\<rparr>) =
     Inr (lease_sample\<lparr>ld_leases := [taken_lease 101 60 ''b'' 100 (new_lease 0 90 7 20 60 ''a'' 100)]\<rparr>, Some (90, 2))"
  by (simp add: claim_supervisor_goal_lease_def lease_sample_def envelope_of_owner_def new_envelope_def
      new_proposal_def active_lease_of_def new_lease_def)

lemma lease_sample_steps:
  "lease_step\<^sup>*\<^sup>* lease_sample (lease_sample\<lparr>ld_leases := [taken_lease 101 60 ''b'' 100 (new_lease 0 90 7 20 60 ''a'' 100)]\<rparr>)"
  using lease_step.claim [OF lease_sample_claim] lease_step.claim [OF lease_sample_takeover] by auto

theorem goal_lease_refines_lock_witness:
  "lock_acquire 101 91 20 ''b'' 100 (lock_of (lease_sample\<lparr>ld_leases := [new_lease 0 90 7 20 60 ''a'' 100]\<rparr>)) =
     (lock_of (lease_sample\<lparr>ld_leases := [taken_lease 101 60 ''b'' 100 (new_lease 0 90 7 20 60 ''a'' 100)]\<rparr>), Some (90, 2))"
proof -
  have "lease_step\<^sup>*\<^sup>* lease_sample (lease_sample\<lparr>ld_leases := [new_lease 0 90 7 20 60 ''a'' 100]\<rparr>)"
    using lease_step.claim [OF lease_sample_claim] by auto
  moreover have "ld_leases lease_sample = []" by (simp add: lease_sample_def)
  ultimately show ?thesis
    using goal_lease_refines_lock [where now = 101 and i = 91 and owner = 7 and gid = 20 and eid = 60 and
        w = "''b''" and secs = 100] lease_sample_takeover by fastforce
qed

theorem lost_goal_lease_stays_lost_witness:
  "renew_supervisor_goal_lease 102 90 ''a'' 1 100
     (lease_sample\<lparr>ld_leases := [taken_lease 101 60 ''b'' 100 (new_lease 0 90 7 20 60 ''a'' 100)]\<rparr>) =
     Inl (SupervisorLeaseLost 90)"
proof -
  let ?t = "lease_sample\<lparr>ld_leases := [taken_lease 101 60 ''b'' 100 (new_lease 0 90 7 20 60 ''a'' 100)]\<rparr>"
  have "ld_leases lease_sample = []" by (simp add: lease_sample_def)
  moreover have "lease_generation_of ?t 90 = Some 2" "\<not> lease_held ?t 90 ''a'' 1"
    by (simp_all add: lease_generation_of_def lease_held_def holds_lease_def)
  ultimately show ?thesis
    using lost_goal_lease_stays_lost [OF _ lease_sample_steps rtranclp.rtrancl_refl, where lid = 90 and h = 2 and gen = 1 and
        w = "''a''" and now = 102 and secs = 100] by simp
qed

end
