(* ===== verification/ProviderWait.thy ===== *)
theory ProviderWait
  imports CiWait Takeover
begin

text \<open>
  Waits on a provider: \<open>app/mainai_execution/provider_wait_wake.py\<close> (how a parked task is recognised and
  woken) and the functions of \<open>app/development_supervisor/service.py\<close> that park it. A park is a
  \<open>blocked\<close> task together with the reason in its latest block or retry event.
\<close>

section \<open>Recognising a park\<close>

definition provider_spend_park_reason :: string where
  "provider_spend_park_reason = ''provider_spend_not_authorized_park''"

definition waiting_provider_backoff_reason :: string where
  "waiting_provider_backoff_reason = ''waiting_provider_defer_backoff''"

definition waiting_provider_exhausted_reason :: string where
  "waiting_provider_exhausted_reason = ''waiting_provider_defer_exhausted''"

definition provider_spend_park_blocker :: string where
  "provider_spend_park_blocker = ''provider-assisted planning is not authorized for this scope''"

definition waiting_provider_blocker :: string where
  "waiting_provider_blocker = ''provider planning is unavailable''"

definition waiting_provider_max_backoffs :: nat where "waiting_provider_max_backoffs = 8"

definition waiting_provider_backoff_base :: int where "waiting_provider_backoff_base = 30"

definition waiting_provider_backoff_cap :: int where "waiting_provider_backoff_cap = 900"

definition event_of :: "mainai_task \<Rightarrow> task_event_type set \<Rightarrow> task_event \<Rightarrow> bool" where
  "event_of t types e \<longleftrightarrow> te_task e = t_id t \<and> te_owner e = t_owner t \<and> te_type e \<in> types"

definition event_reason :: "task_event \<Rightarrow> string option" where
  "event_reason e = (case jget (te_detail e) ''reason'' of JStr r \<Rightarrow> Some r | _ \<Rightarrow> None)"

text \<open>\<open>ORDER BY created_at DESC LIMIT 1\<close>; among equal times the row written last.\<close>

definition latest_block_or_retry_reason :: "db \<Rightarrow> mainai_task \<Rightarrow> string option" where
  "latest_block_or_retry_reason d t =
     Option.bind (first_min (\<lambda>e. - te_created_at e)
                    (rev (filter (event_of t {TeBlocked, TeRetryScheduled}) (task_events d)))) event_reason"

definition is_provider_spend_park :: "db \<Rightarrow> mainai_task \<Rightarrow> bool" where
  "is_provider_spend_park d t \<longleftrightarrow>
     t_status t = TBlocked \<and>
     (latest_block_or_retry_reason d t = Some provider_spend_park_reason \<or>
      t_blocker_reason t = Some provider_spend_park_blocker)"

definition is_waiting_provider_backoff_park :: "db \<Rightarrow> mainai_task \<Rightarrow> bool" where
  "is_waiting_provider_backoff_park d t \<longleftrightarrow>
     t_status t = TBlocked \<and>
     (latest_block_or_retry_reason d t = Some waiting_provider_backoff_reason \<or>
      latest_block_or_retry_reason d t = Some waiting_provider_exhausted_reason)"

definition count_waiting_provider_backoffs :: "db \<Rightarrow> mainai_task \<Rightarrow> nat" where
  "count_waiting_provider_backoffs d t =
     length (filter (\<lambda>e. event_of t {TeBlocked} e \<and> event_reason e = Some waiting_provider_backoff_reason)
               (task_events d))"

text \<open>\<open>jitter\<close> is the draw \<open>random.uniform(0, ceiling)\<close>.\<close>

definition compute_waiting_provider_retry_at :: "(int \<Rightarrow> int) \<Rightarrow> nat \<Rightarrow> time \<Rightarrow> time option" where
  "compute_waiting_provider_retry_at jitter prior now =
     (if prior \<ge> waiting_provider_max_backoffs then None
      else Some (now + jitter (backoff_ceiling (int prior) waiting_provider_backoff_base waiting_provider_backoff_cap)))"

section \<open>Waking\<close>

text \<open>
  The loop of both wakes: a candidate row that \<open>before\<close> accepts is locked and read again, and woken if
  \<open>again\<close> accepts what the lock shows.
\<close>

definition woken_task :: "mainai_task \<Rightarrow> mainai_task" where
  "woken_task t = t\<lparr>t_status := TReady, t_blocker_reason := None, t_next_retry_at := None\<rparr>"

fun wake_each ::
  "time \<Rightarrow> (db \<Rightarrow> mainai_task \<Rightarrow> bool) \<Rightarrow> (db \<Rightarrow> mainai_task \<Rightarrow> bool) \<Rightarrow> (mainai_task \<Rightarrow> jdict) \<Rightarrow>
   mainai_task list \<Rightarrow> db \<Rightarrow> error + (db \<times> uuid list)" where
  "wake_each now before again detail [] d = Inr (d, [])"
| "wake_each now before again detail (t # ts) d =
     (if \<not> before d t then wake_each now before again detail ts d
      else sbind (lock_task (t_id t) d) (\<lambda>l.
             if \<not> again d l then wake_each now before again detail ts d
             else sbind (write_task (t_id t) woken_task [task_event_row now l TeRetryScheduled (detail l)] d) (\<lambda>d1.
                    sbind (wake_each now before again detail ts d1) (\<lambda>(d2, ids). Inr (d2, t_id t # ids)))))"

definition blocked_tasks_of_goal :: "uuid \<Rightarrow> uuid \<Rightarrow> db \<Rightarrow> mainai_task list" where
  "blocked_tasks_of_goal owner gid d =
     filter (\<lambda>t. t_owner t = owner \<and> t_goal t = gid \<and> t_status t = TBlocked) (tasks d)"

text \<open>The part of \<open>wake_tasks_blocked_for_provider_spend\<close> below its look at the grant.\<close>

definition wake_spend_parks :: "time \<Rightarrow> uuid \<Rightarrow> uuid \<Rightarrow> uuid \<Rightarrow> uuid \<Rightarrow> db \<Rightarrow> error + (db \<times> uuid list)" where
  "wake_spend_parks now grant eid owner gid d =
     wake_each now is_provider_spend_park is_provider_spend_park
       (\<lambda>l. [(''reason'', JStr ''provider_spend_grant_wake''), (''authorization_id'', JStr (uuid_str grant)),
             (''execution_envelope_id'', JStr (uuid_str eid)), (''attempts'', JInt (t_attempts l))])
       (blocked_tasks_of_goal owner gid d) d"

definition retry_due :: "time \<Rightarrow> mainai_task \<Rightarrow> bool" where
  "retry_due now t \<longleftrightarrow> (case t_next_retry_at t of None \<Rightarrow> False | Some at \<Rightarrow> at \<le> now)"

definition due_blocked_tasks :: "time \<Rightarrow> nat \<Rightarrow> db \<Rightarrow> mainai_task list" where
  "due_blocked_tasks now limit d =
     take limit (sort_key (\<lambda>t. (the (t_next_retry_at t), t_id t))
       (filter (\<lambda>t. t_status t = TBlocked \<and> retry_due now t) (tasks d)))"

definition wake_due_waiting_provider_backoff_tasks :: "time \<Rightarrow> nat \<Rightarrow> db \<Rightarrow> error + (db \<times> uuid list)" where
  "wake_due_waiting_provider_backoff_tasks now limit d =
     wake_each now
       (\<lambda>d t. is_waiting_provider_backoff_park d t \<and>
              latest_block_or_retry_reason d t \<noteq> Some waiting_provider_exhausted_reason)
       (\<lambda>d t. retry_due now t \<and> is_waiting_provider_backoff_park d t)
       (\<lambda>l. [(''reason'', JStr ''waiting_provider_backoff_wake''), (''attempts'', JInt (t_attempts l))])
       (due_blocked_tasks now limit d) d"

section \<open>Parking\<close>

text \<open>\<open>_release_midflight_job_and_set_task_status\<close>; a lost job lease leaves the task alone.\<close>

definition release_midflight_job ::
  "time \<Rightarrow> uuid \<Rightarrow> mainai_job \<Rightarrow> string \<Rightarrow> int \<Rightarrow> string \<Rightarrow> task_status \<Rightarrow> string \<Rightarrow> string option \<Rightarrow> db \<Rightarrow>
   error + db" where
  "release_midflight_job now tid j worker gen phase st reason blocker d =
     (case mark_failed_flush now j worker gen ErrCapabilityUnavailable d of
        Inl (JobLeaseLost _ _ _) \<Rightarrow> Inr d
      | Inl e \<Rightarrow> Inl e
      | Inr d1 \<Rightarrow>
          sbind (lock_task tid d1) (\<lambda>t.
            if t_status t \<noteq> TRunning then Inr d1
            else write_task tid (\<lambda>r. r\<lparr>t_status := st, t_next_retry_at := None, t_blocker_reason := blocker\<rparr>)
                   [task_event_row now t (if st = TBlocked then TeBlocked else TeRetryScheduled)
                      [(''reason'', JStr reason), (''phase'', JStr phase),
                       (''released_job_id'', JStr (uuid_str (j_id j))), (''attempts'', JInt (t_attempts t))]] d1))"

definition release_provider_wait_midflight ::
  "time \<Rightarrow> (int \<Rightarrow> int) \<Rightarrow> mainai_task \<Rightarrow> mainai_job \<Rightarrow> string \<Rightarrow> int \<Rightarrow> string \<Rightarrow> db \<Rightarrow> error + db" where
  "release_provider_wait_midflight now jitter t j worker gen phase d =
     (let retry_at = compute_waiting_provider_retry_at jitter (count_waiting_provider_backoffs d t) now
      in sbind (release_midflight_job now (t_id t) j worker gen phase TBlocked
                  (if retry_at = None then waiting_provider_exhausted_reason else waiting_provider_backoff_reason)
                  (Some waiting_provider_blocker) d) (\<lambda>d1.
         sbind (lock_task (t_id t) d1) (\<lambda>l.
           if t_status l = TBlocked then write_task (t_id t) (\<lambda>r. r\<lparr>t_next_retry_at := retry_at\<rparr>) [] d1
           else Inr d1)))"

definition park_provider_spend_defer_midflight ::
  "time \<Rightarrow> mainai_task \<Rightarrow> mainai_job \<Rightarrow> string \<Rightarrow> int \<Rightarrow> db \<Rightarrow> error + db" where
  "park_provider_spend_defer_midflight now t j worker gen d =
     release_midflight_job now (t_id t) j worker gen ''PROVIDER_SPEND_NOT_AUTHORIZED'' TBlocked
       provider_spend_park_reason (Some provider_spend_park_blocker) d"

section \<open>What a wake does\<close>

text \<open>
  What both wakes rely on: a park is a matter of the task's own row and events, and only a blocked task
  is one. The loop then acts on every candidate as on the state it started from.
\<close>

locale wakeable =
  fixes before :: "db \<Rightarrow> mainai_task \<Rightarrow> bool"
    and again :: "db \<Rightarrow> mainai_task \<Rightarrow> bool"
  assumes before_local: "(\<And>e. e \<in> set evs \<Longrightarrow> te_task e \<noteq> t_id t) \<Longrightarrow>
      before (d\<lparr>tasks := ts, task_events := task_events d @ evs\<rparr>) t = before d t"
    and again_local: "(\<And>e. e \<in> set evs \<Longrightarrow> te_task e \<noteq> t_id t) \<Longrightarrow>
      again (d\<lparr>tasks := ts, task_events := task_events d @ evs\<rparr>) t = again d t"
    and before_blocked: "before d t \<Longrightarrow> t_status t = TBlocked"
begin

definition hit :: "db \<Rightarrow> mainai_task \<Rightarrow> bool" where
  "hit d t \<longleftrightarrow> before d t \<and> again d t"

definition woken_db :: "time \<Rightarrow> (mainai_task \<Rightarrow> jdict) \<Rightarrow> mainai_task list \<Rightarrow> db \<Rightarrow> db" where
  "woken_db now detail ws d =
     d\<lparr>tasks := map (\<lambda>t. if t_id t \<in> t_id ` set ws then woken_task t else t) (tasks d),
       task_events := task_events d @ map (\<lambda>l. task_event_row now l TeRetryScheduled (detail l)) ws\<rparr>"

lemma wake_each_exact:
  assumes "tasks_ok d" and "distinct (map t_id ts)" and "set ts \<subseteq> set (tasks d)"
  shows "wake_each now before again detail ts d =
    Inr (woken_db now detail (filter (hit d) ts) d, map t_id (filter (hit d) ts))"
  using assms
proof (induction ts arbitrary: d)
  case Nil
  show ?case by (simp add: woken_db_def)
next
  case (Cons t ts)
  have t: "t \<in> set (tasks d)" and sub: "set ts \<subseteq> set (tasks d)" and dist: "distinct (map t_id ts)"
    and new: "t_id t \<notin> t_id ` set ts" using Cons.prems by auto
  have lock: "lock_task (t_id t) d = Inr t" by (rule lock_task_of [OF Cons.prems(1) t])
  show ?case
  proof (cases "hit d t")
    case False
    then show ?thesis using Cons.IH [OF Cons.prems(1) dist sub] lock by (auto simp: hit_def)
  next
    case True
    let ?e = "task_event_row now t TeRetryScheduled (detail t)"
    let ?d1 = "d\<lparr>tasks := update_rows (\<lambda>r. t_id r = t_id t) woken_task (tasks d), task_events := task_events d @ [?e]\<rparr>"
    have "task_checks t" and "t_status t = TBlocked"
      using Cons.prems(1) t True before_blocked by (auto simp: tasks_ok_def hit_def)
    then have "task_checks (woken_task t)"
      by (auto simp: task_checks_def woken_task_def terminal_task_statuses_def)
    then have w: "write_task (t_id t) woken_task [?e] d = Inr ?d1"
      using write_task_locked [OF Cons.prems(1) lock] by simp
    have ok1: "tasks_ok ?d1" by (rule write_task_ok [OF Cons.prems(1) w]) (simp add: woken_task_def)
    have sub1: "set ts \<subseteq> set (tasks ?d1)"
    proof
      fix x assume x: "x \<in> set ts"
      with new have "t_id x \<noteq> t_id t" by (metis image_eqI)
      with x sub show "x \<in> set (tasks ?d1)" by (auto simp: in_update_rows_iff intro!: bexI [of _ x])
    qed
    have "hit ?d1 x = hit d x" if "x \<in> set ts" for x
    proof -
      have "\<And>e. e \<in> set [?e] \<Longrightarrow> te_task e \<noteq> t_id x" using that new by (auto simp: task_event_row_def)
      then show ?thesis unfolding hit_def by (metis before_local again_local)
    qed
    then have same: "filter (hit ?d1) ts = filter (hit d) ts" by (rule filter_cong [OF refl])
    have "woken_db now detail (filter (hit d) ts) ?d1 = woken_db now detail (t # filter (hit d) ts) d"
      by (auto simp: woken_db_def update_rows_def woken_task_def)
    moreover have "wake_each now before again detail (t # ts) d =
        sbind (wake_each now before again detail ts ?d1) (\<lambda>(d2, ids). Inr (d2, t_id t # ids))"
      using True lock w by (simp add: hit_def)
    ultimately show ?thesis
      by (simp add: Cons.IH [OF ok1 dist sub1] same True)
  qed
qed

end

lemma event_filter_local:
  "(\<And>e. e \<in> set evs \<Longrightarrow> te_task e \<noteq> t_id t) \<Longrightarrow> filter (event_of t ty) (es @ evs) = filter (event_of t ty) es"
  by (auto simp: event_of_def filter_empty_conv)

lemma latest_reason_local:
  assumes "\<And>e. e \<in> set evs \<Longrightarrow> te_task e \<noteq> t_id t"
  shows "latest_block_or_retry_reason (d\<lparr>tasks := ts, task_events := task_events d @ evs\<rparr>) t =
    latest_block_or_retry_reason d t"
  using event_filter_local [OF assms] by (simp add: latest_block_or_retry_reason_def del: filter_append)

interpretation spend_wake: wakeable is_provider_spend_park is_provider_spend_park
  by unfold_locales (simp_all add: is_provider_spend_park_def latest_reason_local)

interpretation backoff_wake: wakeable
  "\<lambda>d t. is_waiting_provider_backoff_park d t \<and> latest_block_or_retry_reason d t \<noteq> Some waiting_provider_exhausted_reason"
  "\<lambda>d t. retry_due now t \<and> is_waiting_provider_backoff_park d t"
  by unfold_locales (simp_all add: is_waiting_provider_backoff_park_def latest_reason_local)

section \<open>What a park does\<close>

text \<open>The row a park leaves, and the event that classifies it.\<close>

definition parked_task :: "task_status \<Rightarrow> string option \<Rightarrow> mainai_task \<Rightarrow> mainai_task" where
  "parked_task st blocker t = t\<lparr>t_status := st, t_next_retry_at := None, t_blocker_reason := blocker\<rparr>"

definition park_event :: "time \<Rightarrow> mainai_task \<Rightarrow> uuid \<Rightarrow> string \<Rightarrow> string \<Rightarrow> task_event" where
  "park_event now t jid phase reason =
     task_event_row now t TeBlocked [(''reason'', JStr reason), (''phase'', JStr phase),
       (''released_job_id'', JStr (uuid_str jid)), (''attempts'', JInt (t_attempts t))]"

lemma mark_failed_flush_frame:
  "mark_failed_flush now j worker gen c d = Inr d' \<Longrightarrow> tasks d' = tasks d \<and>
     task_events d' = task_events d \<and> task_deps d' = task_deps d"
  by (auto simp: mark_failed_flush_def guarded_Inr_iff record_event_def record_audit_def elim!: sbind_InrE)

lemma mark_failed_flush_cases:
  assumes "jobs_ok d"
  shows "(case mark_failed_flush now j worker gen c d of
      Inr d' \<Rightarrow> holder d (j_id j) worker gen | Inl e \<Rightarrow> \<not> holder d (j_id j) worker gen \<and> e = JobLeaseLost (j_id j) worker gen)"
proof (cases "holder d (j_id j) worker gen")
  case True
  then have "mark_failed_flush now j worker gen c d \<noteq> Inl e" for e
    using mark_failed_total [OF assms, unfolded mark_failed_def] by auto
  with True show ?thesis by (auto split: sum.splits)
next
  case False
  then show ?thesis by (simp add: mark_failed_flush_def guarded_lost)
qed

lemma release_midflight_exact:
  assumes "tasks_ok d" and "jobs_ok d" and "t \<in> set (tasks d)"
  shows "\<exists>d'. release_midflight_job now (t_id t) j worker gen phase TBlocked reason blocker d = Inr d' \<and>
    tasks_ok d' \<and>
    (if holder d (j_id j) worker gen \<and> t_status t = TRunning
     then tasks d' = update_rows (\<lambda>x. t_id x = t_id t) (parked_task TBlocked blocker) (tasks d) \<and>
       task_events d' = task_events d @ [park_event now t (j_id j) phase reason]
     else tasks d' = tasks d \<and> task_events d' = task_events d) \<and>
    (if holder d (j_id j) worker gen
     then \<exists>d1. mark_failed_flush now j worker gen ErrCapabilityUnavailable d = Inr d1 \<and> jobs d' = jobs d1
     else d' = d)"
proof (cases "mark_failed_flush now j worker gen ErrCapabilityUnavailable d")
  case (Inl e)
  with mark_failed_flush_cases [OF assms(2), where now = now and j = j and worker = worker and gen = gen and
      c = ErrCapabilityUnavailable] assms(1) show ?thesis
    by (simp add: release_midflight_job_def)
next
  case (Inr d1)
  with mark_failed_flush_cases [OF assms(2), where now = now and j = j and worker = worker and gen = gen and
      c = ErrCapabilityUnavailable]
  have hold: "holder d (j_id j) worker gen" by simp
  have same: "tasks d1 = tasks d" "task_events d1 = task_events d" "task_deps d1 = task_deps d" using mark_failed_flush_frame [OF Inr] by simp_all
  then have ok1: "tasks_ok d1" using assms(1) by (simp add: tasks_ok_def)
  have lock: "lock_task (t_id t) d1 = Inr t" using lock_task_of [OF ok1] assms(3) same by simp
  show ?thesis
  proof (cases "t_status t = TRunning")
    case False
    then show ?thesis using Inr hold lock same ok1 by (simp add: release_midflight_job_def)
  next
    case True
    have "task_checks t" using assms(1,3) by (simp add: tasks_ok_def)
    with True have c: "task_checks (parked_task TBlocked blocker t)"
      by (simp add: task_checks_def parked_task_def terminal_task_statuses_def)
    let ?d2 = "d1\<lparr>tasks := update_rows (\<lambda>r. t_id r = t_id t) (parked_task TBlocked blocker) (tasks d1),
        task_events := task_events d1 @ [park_event now t (j_id j) phase reason]\<rparr>"
    have w: "write_task (t_id t) (parked_task TBlocked blocker) [park_event now t (j_id j) phase reason] d1 = Inr ?d2"
      using write_task_locked [OF ok1 lock] c by simp
    have "tasks_ok ?d2" by (rule write_task_ok [OF ok1 w]) (simp add: parked_task_def)
    moreover have "release_midflight_job now (t_id t) j worker gen phase TBlocked reason blocker d = Inr ?d2"
      using Inr lock True w by (simp add: release_midflight_job_def parked_task_def [abs_def] park_event_def)
    ultimately show ?thesis using hold True same Inr by simp
  qed
qed

lemma latest_reason_snoc:
  assumes "\<And>e. e \<in> set es \<Longrightarrow> te_created_at e \<le> te_created_at x" and "event_of t {TeBlocked, TeRetryScheduled} x"
    and "task_events d = es @ [x]"
  shows "latest_block_or_retry_reason d t = event_reason x"
proof -
  have "te_created_at e \<le> te_created_at x"
    if "first_min (\<lambda>e. - te_created_at e) (rev (filter (event_of t {TeBlocked, TeRetryScheduled}) es)) = Some e" for e
    using first_min_in [OF that] assms(1) by auto
  then show ?thesis
    using assms(2,3) by (simp add: latest_block_or_retry_reason_def split: option.split)
qed

lemma park_event_simps [simp]:
  "event_of t {TeBlocked, TeRetryScheduled} (park_event now t jid phase reason)"
  "event_of t {TeBlocked} (park_event now t jid phase reason)"
  "te_created_at (park_event now t jid phase reason) = now"
  "event_reason (park_event now t jid phase reason) = Some reason"
  by (simp_all add: park_event_def task_event_row_def event_of_def event_reason_def jget_def)

lemma event_of_cong: "t_id s = t_id t \<Longrightarrow> t_owner s = t_owner t \<Longrightarrow> event_of s = event_of t"
  by (intro ext) (simp add: event_of_def)

lemma latest_reason_cong:
  "t_id s = t_id t \<Longrightarrow> t_owner s = t_owner t \<Longrightarrow> latest_block_or_retry_reason d s = latest_block_or_retry_reason d t"
  by (simp add: latest_block_or_retry_reason_def event_of_cong [of s t])

lemma distinct_ids: "tasks_ok d \<Longrightarrow> distinct (map t_id (filter P (tasks d)))"
  by (simp add: tasks_ok_def unique_key_def distinct_map_filter)

lemma wake_spend_parks_exact:
  assumes "tasks_ok d"
  shows "\<exists>detail. wake_spend_parks now gr eid owner gid d =
    Inr (spend_wake.woken_db now detail (filter (is_provider_spend_park d) (blocked_tasks_of_goal owner gid d)) d,
         map t_id (filter (is_provider_spend_park d) (blocked_tasks_of_goal owner gid d)))"
proof -
  have "distinct (map t_id (blocked_tasks_of_goal owner gid d))" "set (blocked_tasks_of_goal owner gid d) \<subseteq> set (tasks d)"
    using distinct_ids [OF assms] by (auto simp: blocked_tasks_of_goal_def)
  from spend_wake.wake_each_exact [OF assms this] show ?thesis
    unfolding wake_spend_parks_def spend_wake.hit_def by (intro exI) simp
qed

lemma wake_due_exact:
  assumes "tasks_ok d"
  shows "\<exists>d'. wake_due_waiting_provider_backoff_tasks now limit d = Inr (d', map t_id
    (filter (\<lambda>t. is_waiting_provider_backoff_park d t \<and>
        latest_block_or_retry_reason d t \<noteq> Some waiting_provider_exhausted_reason) (due_blocked_tasks now limit d)))"
proof -
  let ?due = "due_blocked_tasks now limit d"
  have sub: "set ?due \<subseteq> {t \<in> set (tasks d). t_status t = TBlocked \<and> retry_due now t}"
    using set_take_subset [of limit] by (force simp: due_blocked_tasks_def)
  have "distinct (map t_id (sort_key (\<lambda>t. (the (t_next_retry_at t), t_id t))
      (filter (\<lambda>t. t_status t = TBlocked \<and> retry_due now t) (tasks d))))"
    using distinct_ids [OF assms, of "\<lambda>t. t_status t = TBlocked \<and> retry_due now t"]
    by (simp add: distinct_map)
  from distinct_take [OF this, of limit] have "distinct (map t_id ?due)"
    by (simp add: due_blocked_tasks_def take_map)
  moreover have "set ?due \<subseteq> set (tasks d)" using sub by blast
  moreover have "filter (backoff_wake.hit now d) ?due = filter (\<lambda>t. is_waiting_provider_backoff_park d t \<and>
        latest_block_or_retry_reason d t \<noteq> Some waiting_provider_exhausted_reason) ?due"
    using sub by (intro filter_cong) (auto simp: backoff_wake.hit_def)
  ultimately show ?thesis
    using backoff_wake.wake_each_exact [OF assms, of ?due now now]
    unfolding wake_due_waiting_provider_backoff_tasks_def by simp
qed

text \<open>A spend park is woken once: afterwards no blocked task of the goal is one.\<close>

lemma wake_spend_parks_again:
  assumes "tasks_ok d" and "wake_spend_parks now gr eid owner gid d = Inr (d', ids)"
  shows "tasks_ok d' \<and> wake_spend_parks later gr' eid' owner gid d' = Inr (d', [])"
proof -
  let ?ws = "filter (is_provider_spend_park d) (blocked_tasks_of_goal owner gid d)"
  from wake_spend_parks_exact [OF assms(1), of now gr eid owner gid] assms(2) obtain detail where
    d': "d' = spend_wake.woken_db now detail ?ws d" by auto
  have ids: "map t_id (tasks d') = map t_id (tasks d)"
    by (auto simp: d' spend_wake.woken_db_def woken_task_def)
  have one: "x = y" if "x \<in> set (tasks d)" "y \<in> set (tasks d)" "t_id x = t_id y" for x y
    using that assms(1) by (auto simp: tasks_ok_def intro: unique_key_eqD)
  have checks: "task_checks (woken_task x)" if "x \<in> set (tasks d)" "t_status x = TBlocked" for x
    using that assms(1) by (auto simp: tasks_ok_def task_checks_def woken_task_def terminal_task_statuses_def)
  have ws: "set ?ws \<subseteq> {x \<in> set (tasks d). t_status x = TBlocked}" by (auto simp: blocked_tasks_of_goal_def)
  have "task_checks x" if "x \<in> set (tasks d')" for x
  proof -
    from that obtain y where y: "y \<in> set (tasks d)" "x = (if t_id y \<in> t_id ` set ?ws then woken_task y else y)"
      by (auto simp: d' spend_wake.woken_db_def)
    show ?thesis
    proof (cases "t_id y \<in> t_id ` set ?ws")
      case True
      then obtain z where "z \<in> set ?ws" "t_id z = t_id y" by (auto simp: image_iff)
      with ws one y(1) have "y = z" by blast
      with \<open>z \<in> set ?ws\<close> ws have "t_status y = TBlocked" by blast
      with True y checks show ?thesis by simp
    next
      case False
      with y assms(1) show ?thesis by (simp add: tasks_ok_def)
    qed
  qed
  then have "tasks_ok d'"
    using assms(1) ids by (simp add: tasks_ok_def unique_key_def) (simp add: d' spend_wake.woken_db_def)
  moreover have "filter (is_provider_spend_park d') (blocked_tasks_of_goal owner gid d') = []"
    unfolding filter_empty_conv
  proof
    fix x assume "x \<in> set (blocked_tasks_of_goal owner gid d')"
    then obtain y where y: "y \<in> set (tasks d)" "x = (if t_id y \<in> t_id ` set ?ws then woken_task y else y)"
      "t_owner x = owner" "t_goal x = gid" "t_status x = TBlocked"
      by (auto simp: blocked_tasks_of_goal_def d' spend_wake.woken_db_def)
    then have no: "t_id y \<notin> t_id ` set ?ws" "x = y" by (auto simp: woken_task_def split: if_splits)
    with y have "\<not> is_provider_spend_park d y" by (auto simp: blocked_tasks_of_goal_def)
    moreover have "is_provider_spend_park d' y = is_provider_spend_park d y"
      unfolding d' spend_wake.woken_db_def using no(1)
      by (intro spend_wake.before_local) (auto simp: task_event_row_def rev_image_eqI)
    ultimately show "\<not> is_provider_spend_park d' x" using no by simp
  qed
  ultimately show ?thesis
    using wake_spend_parks_exact [of d' later gr' eid' owner gid] by (auto simp: spend_wake.woken_db_def)
qed

section \<open>Parks and their keys\<close>

lemma parked_simps [simp]:
  "t_id (parked_task st b t) = t_id t" "t_owner (parked_task st b t) = t_owner t" "t_goal (parked_task st b t) = t_goal t"
  "t_status (parked_task st b t) = st" "t_blocker_reason (parked_task st b t) = b" "t_next_retry_at (parked_task st b t) = None"
  by (simp_all add: parked_task_def)

lemma mark_failed_flush_unheld:
  assumes "mark_failed_flush now j worker gen c d = Inr d'"
  shows "\<not> holder d' (j_id j) worker gen"
proof -
  let ?f = "\<lambda>r. r\<lparr>j_status := JFailed, j_completed_at := Some now, j_error_category := Some c,
                  j_public_message := Some (public_error_message c)\<rparr>"
  from assms obtain d0 where "guarded_job_write (j_id j) worker gen ?f d = Inr d0" "jobs d' = jobs d0"
    by (auto simp: mark_failed_flush_def elim!: sbind_InrE)
  then have rows: "jobs d' = update_rows (holds_claim (j_id j) worker gen) ?f (jobs d)" by (simp add: guarded_Inr_iff)
  have "\<not> holds_claim (j_id j) worker gen (if holds_claim (j_id j) worker gen x then ?f x else x)" for x
    by (simp add: holds_claim_def)
  then show ?thesis unfolding holder_def rows by (auto simp: list_ex_iff in_update_rows_iff)
qed

lemma park_running:
  assumes "tasks_ok d" "jobs_ok d" "t \<in> set (tasks d)" "t_status t = TRunning" "holder d (j_id j) worker gen"
    and "\<forall>e\<in>set (task_events d). te_created_at e \<le> now"
  obtains d1 where "release_midflight_job now (t_id t) j worker gen phase TBlocked reason blocker d = Inr d1"
    and "tasks_ok d1" and "\<not> holder d1 (j_id j) worker gen" and "parked_task TBlocked blocker t \<in> set (tasks d1)"
    and "latest_block_or_retry_reason d1 t = Some reason"
proof -
  from release_midflight_exact [OF assms(1-3), of now j worker gen phase reason blocker] assms(4,5)
  obtain d1 d0 where d1: "release_midflight_job now (t_id t) j worker gen phase TBlocked reason blocker d = Inr d1" "tasks_ok d1"
    "tasks d1 = update_rows (\<lambda>x. t_id x = t_id t) (parked_task TBlocked blocker) (tasks d)"
    "task_events d1 = task_events d @ [park_event now t (j_id j) phase reason]"
    "mark_failed_flush now j worker gen ErrCapabilityUnavailable d = Inr d0" "jobs d1 = jobs d0"
    by auto
  have "\<not> holder d1 (j_id j) worker gen"
    using mark_failed_flush_unheld [OF d1(5)] d1(6) by (simp add: holder_def)
  moreover have "parked_task TBlocked blocker t \<in> set (tasks d1)"
    using assms(3) by (auto simp: d1(3) in_update_rows_iff)
  moreover have "latest_block_or_retry_reason d1 t = Some reason"
    using latest_reason_snoc [OF _ _ d1(4), of t] assms(6) by simp
  ultimately show thesis using that d1(1,2) by blast
qed

lemma row_of_id:
  "tasks_ok d \<Longrightarrow> x \<in> set (tasks d) \<Longrightarrow> y \<in> set (tasks d) \<Longrightarrow> t_id x = t_id y \<Longrightarrow> x = y"
  by (auto simp: tasks_ok_def intro: unique_key_eqD)

lemma due_blocked_taskD:
  "x \<in> set (due_blocked_tasks now limit d) \<Longrightarrow> x \<in> set (tasks d) \<and> t_status x = TBlocked \<and> retry_due now x"
  unfolding due_blocked_tasks_def by (drule in_set_takeD) auto

lemma reasons_differ [simp]:
  "provider_spend_park_reason \<noteq> waiting_provider_backoff_reason"
  "provider_spend_park_reason \<noteq> waiting_provider_exhausted_reason"
  "waiting_provider_backoff_reason \<noteq> provider_spend_park_reason"
  "waiting_provider_exhausted_reason \<noteq> provider_spend_park_reason"
  "waiting_provider_backoff_reason \<noteq> waiting_provider_exhausted_reason"
  "waiting_provider_exhausted_reason \<noteq> waiting_provider_backoff_reason"
  "waiting_provider_blocker \<noteq> provider_spend_park_blocker"
  by (simp_all add: provider_spend_park_reason_def waiting_provider_backoff_reason_def
      waiting_provider_exhausted_reason_def waiting_provider_blocker_def provider_spend_park_blocker_def)

lemma release_wait_running:
  assumes "tasks_ok d" "jobs_ok d" "t \<in> set (tasks d)" "t_status t = TRunning" "holder d (j_id j) worker gen"
    and "\<forall>e\<in>set (task_events d). te_created_at e \<le> now"
    and at: "at = compute_waiting_provider_retry_at jitter (count_waiting_provider_backoffs d t) now"
  obtains d1 where "release_provider_wait_midflight now jitter t j worker gen phase d = Inr d1"
    and "tasks_ok d1" and "\<not> holder d1 (j_id j) worker gen"
    and "(parked_task TBlocked (Some waiting_provider_blocker) t)\<lparr>t_next_retry_at := at\<rparr> \<in> set (tasks d1)"
    and "latest_block_or_retry_reason d1 t =
      Some (if at = None then waiting_provider_exhausted_reason else waiting_provider_backoff_reason)"
proof -
  let ?reason = "if at = None then waiting_provider_exhausted_reason else waiting_provider_backoff_reason"
  let ?p = "parked_task TBlocked (Some waiting_provider_blocker) t"
  obtain d1 where d1: "release_midflight_job now (t_id t) j worker gen phase TBlocked ?reason (Some waiting_provider_blocker) d = Inr d1"
    "tasks_ok d1" "\<not> holder d1 (j_id j) worker gen" "?p \<in> set (tasks d1)" "latest_block_or_retry_reason d1 t = Some ?reason"
    by (rule park_running [OF assms(1-6)])
  have lock: "lock_task (t_id t) d1 = Inr ?p" using lock_task_of [OF d1(2,4)] by simp
  have "task_checks ?p" using d1(2,4) by (simp add: tasks_ok_def)
  then have "task_checks (?p\<lparr>t_next_retry_at := at\<rparr>)" by (simp add: task_checks_def)
  then have w: "write_task (t_id t) (\<lambda>r. r\<lparr>t_next_retry_at := at\<rparr>) [] d1 =
      Inr (d1\<lparr>tasks := update_rows (\<lambda>r. t_id r = t_id t) (\<lambda>r. r\<lparr>t_next_retry_at := at\<rparr>) (tasks d1), task_events := task_events d1\<rparr>)"
    using write_task_locked [OF d1(2) lock] by simp
  have "tasks_ok (d1\<lparr>tasks := update_rows (\<lambda>r. t_id r = t_id t) (\<lambda>r. r\<lparr>t_next_retry_at := at\<rparr>) (tasks d1), task_events := task_events d1\<rparr>)"
    by (rule write_task_ok [OF d1(2) w]) simp
  moreover have "release_provider_wait_midflight now jitter t j worker gen phase d =
      Inr (d1\<lparr>tasks := update_rows (\<lambda>r. t_id r = t_id t) (\<lambda>r. r\<lparr>t_next_retry_at := at\<rparr>) (tasks d1), task_events := task_events d1\<rparr>)"
    using d1(1) lock w by (simp add: release_provider_wait_midflight_def Let_def at)
  moreover have "?p\<lparr>t_next_retry_at := at\<rparr> \<in> set (update_rows (\<lambda>r. t_id r = t_id t) (\<lambda>r. r\<lparr>t_next_retry_at := at\<rparr>) (tasks d1))"
    using d1(4) by (auto simp: in_update_rows_iff intro!: bexI [of _ ?p])
  ultimately show thesis
    using that d1(3,5) by (simp add: holder_def latest_block_or_retry_reason_def)
qed

lemma in_ids_iff: "k \<in> set (map f (filter Q xs)) \<longleftrightarrow> (\<exists>x\<in>set xs. f x = k \<and> Q x)"
  by auto

lemma in_img_iff: "k \<in> f ` A \<longleftrightarrow> (\<exists>x\<in>A. f x = k)"
  by auto

lemma spend_park_key:
  assumes "tasks_ok d" "jobs_ok d" "t \<in> set (tasks d)" "t_status t = TRunning" "holder d (j_id j) worker gen"
    and "\<forall>e\<in>set (task_events d). te_created_at e \<le> now"
  shows "\<exists>d1. park_provider_spend_defer_midflight now t j worker gen d = Inr d1 \<and> \<not> holder d1 (j_id j) worker gen \<and>
      (\<exists>d2 ids. wake_spend_parks later gr eid (t_owner t) (t_goal t) d1 = Inr (d2, ids) \<and> t_id t \<in> set ids \<and>
         (\<exists>x\<in>set (tasks d2). t_id x = t_id t \<and> t_status x = TReady \<and> t_blocker_reason x = None) \<and>
         wake_spend_parks later gr eid (t_owner t) (t_goal t) d2 = Inr (d2, [])) \<and>
      (\<exists>d2 ids. wake_due_waiting_provider_backoff_tasks later limit d1 = Inr (d2, ids) \<and> t_id t \<notin> set ids)"
proof -
  let ?p = "parked_task TBlocked (Some provider_spend_park_blocker) t"
  obtain d1 where d1: "park_provider_spend_defer_midflight now t j worker gen d = Inr d1" "tasks_ok d1"
    "\<not> holder d1 (j_id j) worker gen" "?p \<in> set (tasks d1)"
    "latest_block_or_retry_reason d1 t = Some provider_spend_park_reason"
    unfolding park_provider_spend_defer_midflight_def by (rule park_running [OF assms])
  have reason: "latest_block_or_retry_reason d1 ?p = Some provider_spend_park_reason"
    using d1(5) latest_reason_cong [of ?p t d1] by simp
  let ?ws = "filter (is_provider_spend_park d1) (blocked_tasks_of_goal (t_owner t) (t_goal t) d1)"
  have pw: "?p \<in> set ?ws" using d1(4) reason by (simp add: blocked_tasks_of_goal_def is_provider_spend_park_def)
  from wake_spend_parks_exact [OF d1(2), of later gr eid "t_owner t" "t_goal t"] obtain detail where
    w: "wake_spend_parks later gr eid (t_owner t) (t_goal t) d1 = Inr (spend_wake.woken_db later detail ?ws d1, map t_id ?ws)"
    by blast
  have "t_id t \<in> t_id ` set ?ws" using pw by (metis image_eqI parked_simps(1))
  moreover have "woken_task ?p \<in> set (tasks (spend_wake.woken_db later detail ?ws d1))"
    using d1(4) calculation by (auto simp: spend_wake.woken_db_def image_iff intro!: bexI [of _ ?p])
  moreover have "wake_spend_parks later gr eid (t_owner t) (t_goal t) (spend_wake.woken_db later detail ?ws d1) =
      Inr (spend_wake.woken_db later detail ?ws d1, [])"
    using wake_spend_parks_again [OF d1(2) w] by blast
  ultimately have spend: "\<exists>d2 ids. wake_spend_parks later gr eid (t_owner t) (t_goal t) d1 = Inr (d2, ids) \<and> t_id t \<in> set ids \<and>
      (\<exists>x\<in>set (tasks d2). t_id x = t_id t \<and> t_status x = TReady \<and> t_blocker_reason x = None) \<and>
      wake_spend_parks later gr eid (t_owner t) (t_goal t) d2 = Inr (d2, [])"
    using w by (intro exI conjI bexI [of _ "woken_task ?p"]) (auto simp: woken_task_def)
  from wake_due_exact [OF d1(2), of later limit] obtain d2 where
    due: "wake_due_waiting_provider_backoff_tasks later limit d1 = Inr (d2, map t_id
      (filter (\<lambda>t. is_waiting_provider_backoff_park d1 t \<and>
        latest_block_or_retry_reason d1 t \<noteq> Some waiting_provider_exhausted_reason) (due_blocked_tasks later limit d1)))" by blast
  have "\<not> is_waiting_provider_backoff_park d1 x" if "x \<in> set (due_blocked_tasks later limit d1)" "t_id x = t_id t" for x
    using row_of_id [OF d1(2) _ d1(4)] due_blocked_taskD [OF that(1)] that(2) reason
    by (auto simp: is_waiting_provider_backoff_park_def)
  then have "\<exists>d2 ids. wake_due_waiting_provider_backoff_tasks later limit d1 = Inr (d2, ids) \<and> t_id t \<notin> set ids"
    using due by (intro exI conjI) auto
  with d1 spend show ?thesis by blast
qed

lemma wait_park_key:
  assumes "tasks_ok d" "jobs_ok d" "t \<in> set (tasks d)" "t_status t = TRunning" "holder d (j_id j) worker gen"
    and "\<forall>e\<in>set (task_events d). te_created_at e \<le> now"
  shows "\<exists>d1. release_provider_wait_midflight now jitter t j worker gen phase d = Inr d1 \<and> \<not> holder d1 (j_id j) worker gen \<and>
      (\<exists>d2 ids. wake_spend_parks later gr eid (t_owner t) (t_goal t) d1 = Inr (d2, ids) \<and> t_id t \<notin> set ids) \<and>
      (\<exists>d2 ids. wake_due_waiting_provider_backoff_tasks later limit d1 = Inr (d2, ids) \<and>
         (t_id t \<in> set ids \<longleftrightarrow> count_waiting_provider_backoffs d t < waiting_provider_max_backoffs \<and>
            t_id t \<in> t_id ` set (due_blocked_tasks later limit d1)))"
proof -
  let ?at = "compute_waiting_provider_retry_at jitter (count_waiting_provider_backoffs d t) now"
  let ?p = "(parked_task TBlocked (Some waiting_provider_blocker) t)\<lparr>t_next_retry_at := ?at\<rparr>"
  let ?reason = "if ?at = None then waiting_provider_exhausted_reason else waiting_provider_backoff_reason"
  obtain d1 where d1: "release_provider_wait_midflight now jitter t j worker gen phase d = Inr d1" "tasks_ok d1"
    "\<not> holder d1 (j_id j) worker gen" "?p \<in> set (tasks d1)" "latest_block_or_retry_reason d1 t = Some ?reason"
    by (rule release_wait_running [OF assms refl])
  have reason: "latest_block_or_retry_reason d1 ?p = Some ?reason"
    using d1(5) latest_reason_cong [of ?p t d1] by simp
  have row: "x = ?p" if "x \<in> set (tasks d1)" "t_id x = t_id t" for x
    using row_of_id [OF d1(2) that(1) d1(4)] that(2) by simp
  from wake_spend_parks_exact [OF d1(2), of later gr eid "t_owner t" "t_goal t"] obtain d2 where
    w: "wake_spend_parks later gr eid (t_owner t) (t_goal t) d1 =
      Inr (d2, map t_id (filter (is_provider_spend_park d1) (blocked_tasks_of_goal (t_owner t) (t_goal t) d1)))" by blast
  have "\<not> is_provider_spend_park d1 x" if "x \<in> set (tasks d1)" "t_id x = t_id t" for x
    using row [OF that] reason by (auto simp: is_provider_spend_park_def)
  then have spend: "\<exists>d2 ids. wake_spend_parks later gr eid (t_owner t) (t_goal t) d1 = Inr (d2, ids) \<and> t_id t \<notin> set ids"
    using w by (intro exI conjI) (auto simp: blocked_tasks_of_goal_def)
  from wake_due_exact [OF d1(2), of later limit] obtain d3 where
    due: "wake_due_waiting_provider_backoff_tasks later limit d1 = Inr (d3, map t_id
      (filter (\<lambda>t. is_waiting_provider_backoff_park d1 t \<and>
        latest_block_or_retry_reason d1 t \<noteq> Some waiting_provider_exhausted_reason) (due_blocked_tasks later limit d1)))" by blast
  have some: "?at \<noteq> None \<longleftrightarrow> count_waiting_provider_backoffs d t < waiting_provider_max_backoffs"
    by (auto simp: compute_waiting_provider_retry_at_def)
  have "is_waiting_provider_backoff_park d1 x \<and>
      latest_block_or_retry_reason d1 x \<noteq> Some waiting_provider_exhausted_reason \<longleftrightarrow> ?at \<noteq> None"
    if "x \<in> set (due_blocked_tasks later limit d1)" "t_id x = t_id t" for x
    using row [of x] due_blocked_taskD [OF that(1)] that(2) reason
    by (auto simp: is_waiting_provider_backoff_park_def)
  then have "t_id t \<in> set (map t_id (filter (\<lambda>t. is_waiting_provider_backoff_park d1 t \<and>
        latest_block_or_retry_reason d1 t \<noteq> Some waiting_provider_exhausted_reason) (due_blocked_tasks later limit d1))) \<longleftrightarrow>
      count_waiting_provider_backoffs d t < waiting_provider_max_backoffs \<and> t_id t \<in> t_id ` set (due_blocked_tasks later limit d1)"
    unfolding in_ids_iff in_img_iff some by blast
  with due have "\<exists>d2 ids. wake_due_waiting_provider_backoff_tasks later limit d1 = Inr (d2, ids) \<and>
      (t_id t \<in> set ids \<longleftrightarrow> count_waiting_provider_backoffs d t < waiting_provider_max_backoffs \<and>
         t_id t \<in> t_id ` set (due_blocked_tasks later limit d1))" by (intro exI conjI)
  with d1(1,3) spend show ?thesis by - (rule exI [of _ d1], intro conjI)
qed

text \<open>A park opens to its own key only. When a running task is parked because no provider spending is
  granted, its job is given up, a grant for the goal wakes it, exactly once, and the retry clock never
  does. When it is parked because the provider is unavailable, no grant wakes it; the clock does, at
  the time drawn for it and if it is among the due tasks looked at, except that after eight such
  parks there is no further retry.\<close>

theorem parks_wake_by_their_own_key:
  assumes "tasks_ok d" "jobs_ok d" "t \<in> set (tasks d)" "t_status t = TRunning" "holder d (j_id j) worker gen"
    and "\<forall>e\<in>set (task_events d). te_created_at e \<le> now"
  shows "(\<exists>d1. park_provider_spend_defer_midflight now t j worker gen d = Inr d1 \<and> \<not> holder d1 (j_id j) worker gen \<and>
      (\<exists>d2 ids. wake_spend_parks later gr eid (t_owner t) (t_goal t) d1 = Inr (d2, ids) \<and> t_id t \<in> set ids \<and>
         (\<exists>x\<in>set (tasks d2). t_id x = t_id t \<and> t_status x = TReady \<and> t_blocker_reason x = None) \<and>
         wake_spend_parks later gr eid (t_owner t) (t_goal t) d2 = Inr (d2, [])) \<and>
      (\<exists>d2 ids. wake_due_waiting_provider_backoff_tasks later limit d1 = Inr (d2, ids) \<and> t_id t \<notin> set ids)) \<and>
    (\<exists>d1. release_provider_wait_midflight now jitter t j worker gen phase d = Inr d1 \<and> \<not> holder d1 (j_id j) worker gen \<and>
      (\<exists>d2 ids. wake_spend_parks later gr eid (t_owner t) (t_goal t) d1 = Inr (d2, ids) \<and> t_id t \<notin> set ids) \<and>
      (\<exists>d2 ids. wake_due_waiting_provider_backoff_tasks later limit d1 = Inr (d2, ids) \<and>
         (t_id t \<in> set ids \<longleftrightarrow> count_waiting_provider_backoffs d t < waiting_provider_max_backoffs \<and>
            t_id t \<in> t_id ` set (due_blocked_tasks later limit d1))))"
  using spend_park_key [OF assms] wait_park_key [OF assms] by blast

section \<open>The statement at work\<close>

lemma dead_sample_jobs_ok: "jobs_ok dead_sample_db"
  by (simp add: jobs_ok_def keys_unique_def unique_key_def dead_sample_db_def empty_db_def dead_sample_job_def dispatch_job_def
      new_job_def job_checks_def checks_0026_def checks_0028_def checks_0034_def terminal_job_status_def)

theorem parks_wake_by_their_own_key_witness:
  "\<exists>d1 d2 ids. park_provider_spend_defer_midflight 3 (sample_task 1 TRunning) dead_sample_job ''w'' 1 dead_sample_db = Inr d1 \<and>
     wake_spend_parks 4 70 60 7 20 d1 = Inr (d2, ids) \<and> 1 \<in> set ids \<and> wake_spend_parks 4 70 60 7 20 d2 = Inr (d2, [])"
proof -
  have "holder dead_sample_db (j_id dead_sample_job) ''w'' 1"
    by (simp add: holder_def dead_sample_db_def dead_sample_job_def dispatch_job_def new_job_def holds_claim_def)
  moreover have "\<forall>e\<in>set (task_events dead_sample_db). te_created_at e \<le> 3" by (simp add: dead_sample_db_def empty_db_def)
  moreover have f: "t_status (sample_task 1 TRunning) = TRunning" "t_id (sample_task 1 TRunning) = 1"
    "t_owner (sample_task 1 TRunning) = 7" "t_goal (sample_task 1 TRunning) = 20" by (simp_all add: sample_task_def)
  ultimately show ?thesis
    using parks_wake_by_their_own_key [OF dead_sample_ok(1) dead_sample_jobs_ok dead_sample_ok(2), of dead_sample_job "''w''" 1 3
        4 70 60 1 "\<lambda>c. c" "''WAITING_PROVIDER''"] unfolding f by blast
qed

end
