(* ===== verification/Spend.thy ===== *)
theory Spend
  imports ProviderWait Envelopes
begin

text \<open>
  Provider spending: \<open>app/provider_spend/service.py\<close>, the tables and the two SQL functions of migration
  0060, and the price list \<open>app/providers/pricing.py\<close>. Money is counted in micro-dollars, the scale of
  the \<open>numeric(14, 6)\<close> columns. A call that raises after a flush leaves what it flushed, so the
  operations return the database on every branch.
\<close>

section \<open>Rows\<close>

datatype grant_status = GrantActive | GrantSuperseded | GrantExhausted | GrantExpired | GrantRevoked

datatype usage_status = UsageReserved | UsageSettled | UsageReleased

record spend_grant =
  sg_id :: uuid
  sg_owner :: uuid
  sg_goal :: uuid
  sg_envelope :: uuid
  sg_by :: string
  sg_status :: grant_status
  sg_max_cost :: int
  sg_max_requests :: int
  sg_max_prompt :: "int option"
  sg_max_completion :: "int option"
  sg_max_per_request :: "int option"
  sg_providers :: "string list"
  sg_models :: "string list"
  sg_expires :: "time option"
  sg_spent_cost :: int
  sg_spent_requests :: int
  sg_spent_prompt :: int
  sg_spent_completion :: int
  sg_reserved_cost :: int
  sg_reserved_requests :: int
  sg_reserved_prompt :: int
  sg_reserved_completion :: int
  sg_supersedes :: "uuid option"
  sg_provenance :: jdict
  sg_key :: string
  sg_created_at :: time

record usage_event =
  ue_id :: uuid
  ue_owner :: uuid
  ue_grant :: uuid
  ue_goal :: uuid
  ue_task :: "uuid option"
  ue_job :: "uuid option"
  ue_provider :: string
  ue_model :: string
  ue_prompt :: int
  ue_completion :: int
  ue_cost :: int
  ue_reserved_prompt :: int
  ue_reserved_completion :: int
  ue_reserved_cost :: int
  ue_status :: usage_status
  ue_evidence :: jdict
  ue_ref :: string
  ue_observed_at :: time

record spend_db =
  sd_grants :: "spend_grant list"
  sd_usage :: "usage_event list"
  sd_authority :: authority

datatype spend_error =
    SpendRefused string
  | SpendRaised string
  | SpendConstraint
  | SpendRuntime error

section \<open>Prices\<close>

text \<open>Micro-dollars per 1,000 tokens, in and out.\<close>

definition pricing_per_1k_tokens :: "(string \<times> (string \<times> int \<times> int) list) list" where
  "pricing_per_1k_tokens =
     [(''openai'', [(''gpt-4o-mini'', 150, 600), (''gpt-4o'', 2500, 10000), (''text-embedding-3-small'', 20, 0)]),
      (''anthropic'', [(''claude-sonnet-5'', 3000, 15000), (''claude-haiku-4-5-20251001'', 800, 4000),
                       (''claude-opus-4-8'', 15000, 75000)]),
      (''gemini'', [(''gemini-2.5-flash'', 75, 300), (''gemini-2.5-pro'', 1250, 10000)]),
      (''deepseek'', [(''deepseek-chat'', 270, 1100)]),
      (''ollama'', [])]"

text \<open>\<open>Decimal.quantize\<close> rounds half to even.\<close>

definition round_thousandth :: "int \<Rightarrow> int" where
  "round_thousandth n =
     (let q = n div 1000; r = n mod 1000
      in if 2 * r < 1000 then q else if 2 * r > 1000 then q + 1 else if even q then q else q + 1)"

definition estimate_cost :: "string \<Rightarrow> string \<Rightarrow> int \<Rightarrow> int \<Rightarrow> int option" where
  "estimate_cost provider model prompt completion =
     (if provider = ''ollama'' then Some 0
      else case Option.bind (map_of pricing_per_1k_tokens provider) (\<lambda>ms. map_of ms model) of
             None \<Rightarrow> None
           | Some (rin, rout) \<Rightarrow> Some (round_thousandth (prompt * rin + completion * rout)))"

section \<open>Granting\<close>

record grant_request =
  gr_goal :: uuid
  gr_envelope :: uuid
  gr_by :: string
  gr_max_cost :: int
  gr_max_requests :: int
  gr_max_prompt :: "int option"
  gr_max_completion :: "int option"
  gr_max_per_request :: "int option"
  gr_providers :: "string list option"
  gr_models :: "string list option"
  gr_expires :: "time option"
  gr_key :: string
  gr_provenance :: jdict

definition norm_list :: "string list option \<Rightarrow> string list" where
  "norm_list vs = (case vs of None \<Rightarrow> [] | Some xs \<Rightarrow> sort (remdups xs))"

definition json_int :: "int option \<Rightarrow> json" where
  "json_int x = (case x of None \<Rightarrow> JNull | Some i \<Rightarrow> JInt i)"

definition authority_fingerprint ::
  "uuid \<Rightarrow> uuid \<Rightarrow> string \<Rightarrow> int \<Rightarrow> int \<Rightarrow> int option \<Rightarrow> int option \<Rightarrow> int option \<Rightarrow>
   string list \<Rightarrow> string list \<Rightarrow> time option \<Rightarrow> jdict" where
  "authority_fingerprint gid eid who cost reqs prompt compl per provs mods expires =
     [(''goal_id'', JStr (uuid_str gid)), (''execution_envelope_id'', JStr (uuid_str eid)),
      (''authorized_by'', JStr who), (''max_cost_usd'', JInt cost), (''max_requests'', JInt reqs),
      (''max_prompt_tokens'', json_int prompt), (''max_completion_tokens'', json_int compl),
      (''max_cost_per_request_usd'', json_int per), (''allowed_providers'', JArr (map JStr provs)),
      (''allowed_models'', JArr (map JStr mods)), (''expires_at'', json_int expires)]"

definition request_fingerprint :: "grant_request \<Rightarrow> jdict" where
  "request_fingerprint q =
     authority_fingerprint (gr_goal q) (gr_envelope q) (gr_by q) (gr_max_cost q) (gr_max_requests q)
       (gr_max_prompt q) (gr_max_completion q) (gr_max_per_request q)
       (norm_list (gr_providers q)) (norm_list (gr_models q)) (gr_expires q)"

definition row_fingerprint :: "spend_grant \<Rightarrow> jdict" where
  "row_fingerprint g =
     authority_fingerprint (sg_goal g) (sg_envelope g) (sg_by g) (sg_max_cost g) (sg_max_requests g)
       (sg_max_prompt g) (sg_max_completion g) (sg_max_per_request g)
       (norm_list (Some (sg_providers g))) (norm_list (Some (sg_models g))) (sg_expires g)"

definition negative :: "int option \<Rightarrow> bool" where
  "negative x = (case x of None \<Rightarrow> False | Some i \<Rightarrow> i < 0)"

text \<open>\<open>{**d, k: v}\<close>\<close>

definition dict_put :: "string \<Rightarrow> json \<Rightarrow> jdict \<Rightarrow> jdict" where
  "dict_put k v d = filter (\<lambda>p. fst p \<noteq> k) d @ [(k, v)]"

definition new_grant :: "time \<Rightarrow> uuid \<Rightarrow> uuid \<Rightarrow> grant_request \<Rightarrow> uuid option \<Rightarrow> spend_grant" where
  "new_grant now i owner q prior =
     \<lparr>sg_id = i, sg_owner = owner, sg_goal = gr_goal q, sg_envelope = gr_envelope q, sg_by = gr_by q,
      sg_status = GrantActive, sg_max_cost = gr_max_cost q, sg_max_requests = gr_max_requests q,
      sg_max_prompt = gr_max_prompt q, sg_max_completion = gr_max_completion q,
      sg_max_per_request = gr_max_per_request q, sg_providers = norm_list (gr_providers q),
      sg_models = norm_list (gr_models q), sg_expires = gr_expires q, sg_spent_cost = 0, sg_spent_requests = 0,
      sg_spent_prompt = 0, sg_spent_completion = 0, sg_reserved_cost = 0, sg_reserved_requests = 0,
      sg_reserved_prompt = 0, sg_reserved_completion = 0, sg_supersedes = prior,
      sg_provenance = dict_put ''authority_fingerprint'' (JObj (request_fingerprint q)) (gr_provenance q),
      sg_key = gr_key q, sg_created_at = now\<rparr>"

definition nonneg :: "int option \<Rightarrow> bool" where
  "nonneg x = (case x of None \<Rightarrow> True | Some i \<Rightarrow> 0 \<le> i)"

text \<open>\<open>ck_provider_spend_authorizations_ceilings\<close> and \<open>..._no_self_supersede\<close>, and the column widths.\<close>

definition grant_checks :: "spend_grant \<Rightarrow> bool" where
  "grant_checks g \<longleftrightarrow>
     0 \<le> sg_max_cost g \<and> 0 \<le> sg_max_requests g \<and> 0 \<le> sg_spent_cost g \<and> 0 \<le> sg_spent_requests g \<and>
     0 \<le> sg_spent_prompt g \<and> 0 \<le> sg_spent_completion g \<and> 0 \<le> sg_reserved_cost g \<and>
     0 \<le> sg_reserved_requests g \<and> 0 \<le> sg_reserved_prompt g \<and> 0 \<le> sg_reserved_completion g \<and>
     nonneg (sg_max_prompt g) \<and> nonneg (sg_max_completion g) \<and> nonneg (sg_max_per_request g) \<and>
     sg_supersedes g \<noteq> Some (sg_id g) \<and> length (sg_by g) \<le> 64 \<and> length (sg_key g) \<le> 128 \<and>
     sg_max_cost g < 10 ^ 14 \<and> sg_max_requests g < 2 ^ 31 \<and>
     sg_spent_prompt g + sg_reserved_prompt g < 2 ^ 31 \<and> sg_spent_completion g + sg_reserved_completion g < 2 ^ 31"

definition put_grant :: "spend_grant \<Rightarrow> spend_db \<Rightarrow> spend_db" where
  "put_grant g s = s\<lparr>sd_grants := update_rows (\<lambda>x. sg_id x = sg_id g) (\<lambda>_. g) (sd_grants s)\<rparr>"

definition active_grant :: "uuid \<Rightarrow> uuid \<Rightarrow> spend_grant \<Rightarrow> bool" where
  "active_grant owner gid g \<longleftrightarrow> sg_owner g = owner \<and> sg_goal g = gid \<and> sg_status g = GrantActive"

definition set_base :: "db \<Rightarrow> spend_db \<Rightarrow> spend_db" where
  "set_base d s = s\<lparr>sd_authority := (sd_authority s)\<lparr>au_base := d\<rparr>\<rparr>"

definition base :: "spend_db \<Rightarrow> db" where "base s = au_base (sd_authority s)"

definition expired :: "time \<Rightarrow> spend_grant \<Rightarrow> bool" where
  "expired now g = (case sg_expires g of None \<Rightarrow> False | Some at \<Rightarrow> at \<le> now)"

definition wake_tasks_blocked_for_provider_spend ::
  "time \<Rightarrow> uuid \<Rightarrow> uuid \<Rightarrow> uuid \<Rightarrow> spend_db \<Rightarrow> spend_error + (spend_db \<times> uuid list)" where
  "wake_tasks_blocked_for_provider_spend now owner gid eid s =
     (case find_row (\<lambda>g. active_grant owner gid g \<and> sg_envelope g = eid) (sd_grants s) of
        None \<Rightarrow> Inr (s, [])
      | Some g \<Rightarrow>
          if expired now g then Inr (s, [])
          else case wake_spend_parks now (sg_id g) eid owner gid (base s) of
                 Inl e \<Rightarrow> Inl (SpendRuntime e)
               | Inr (d, ids) \<Rightarrow> Inr (set_base d s, ids))"

text \<open>The worker's pass over the active grants, oldest first, for wakes a crash has lost.\<close>

fun wake_for_grants :: "time \<Rightarrow> spend_grant list \<Rightarrow> spend_db \<Rightarrow> spend_error + (spend_db \<times> uuid list)" where
  "wake_for_grants now [] s = Inr (s, [])"
| "wake_for_grants now (g # gs) s =
     (if expired now g then wake_for_grants now gs s
      else sbind (wake_tasks_blocked_for_provider_spend now (sg_owner g) (sg_goal g) (sg_envelope g) s) (\<lambda>(s1, ids).
           sbind (wake_for_grants now gs s1) (\<lambda>(s2, more). Inr (s2, ids @ more))))"

definition reconcile_provider_spend_parks_for_active_grants ::
  "time \<Rightarrow> nat \<Rightarrow> spend_db \<Rightarrow> spend_error + (spend_db \<times> uuid list)" where
  "reconcile_provider_spend_parks_for_active_grants now limit s =
     wake_for_grants now
       (take limit (sort_key sg_created_at (filter (\<lambda>g. sg_status g = GrantActive) (sd_grants s)))) s"

text \<open>The goal and its current envelope, locked and read before either branch of a grant.\<close>

definition current_envelope_is :: "uuid \<Rightarrow> uuid \<Rightarrow> uuid \<Rightarrow> spend_db \<Rightarrow> bool" where
  "current_envelope_is owner gid eid s \<longleftrightarrow>
     (case get_current_execution_envelope owner gid (sd_authority s) of
        Inr (Some e) \<Rightarrow> en_id e = eid | _ \<Rightarrow> False)"

definition insert_grant :: "spend_grant \<Rightarrow> spend_db \<Rightarrow> spend_error + spend_db" where
  "insert_grant g s =
     (if \<not> grant_checks g then Inl SpendConstraint
      else if list_ex (\<lambda>x. sg_id x = sg_id g \<or> sg_owner x = sg_owner g \<and> sg_key x = sg_key g \<or>
                           active_grant (sg_owner g) (sg_goal g) x) (sd_grants s)
      then Inl (SpendRefused ''concurrent active grant'')
      else Inr (s\<lparr>sd_grants := sd_grants s @ [g]\<rparr>))"

definition supersede_grants :: "uuid \<Rightarrow> uuid \<Rightarrow> spend_db \<Rightarrow> spend_db" where
  "supersede_grants owner gid s =
     s\<lparr>sd_grants := update_rows (active_grant owner gid) (\<lambda>g. g\<lparr>sg_status := GrantSuperseded\<rparr>) (sd_grants s)\<rparr>"

definition authorize_provider_spend ::
  "time \<Rightarrow> uuid \<Rightarrow> uuid \<Rightarrow> grant_request \<Rightarrow> spend_db \<Rightarrow> spend_error + (spend_db \<times> spend_grant \<times> uuid list)" where
  "authorize_provider_spend now i owner q s =
     (if gr_max_cost q < 0 \<or> gr_max_requests q < 0 \<or> negative (gr_max_prompt q) \<or>
         negative (gr_max_completion q) \<or> negative (gr_max_per_request q)
      then Inl (SpendRefused ''ceilings must be non-negative'')
      else if \<not> goal_exists owner (gr_goal q) (base s) then Inl (SpendRefused ''goal of another owner'')
      else if \<not> current_envelope_is owner (gr_goal q) (gr_envelope q) s
      then Inl (SpendRefused ''not the current envelope'')
      else case find_row (\<lambda>g. sg_owner g = owner \<and> sg_key g = gr_key q) (sd_grants s) of
             Some g \<Rightarrow>
               if row_fingerprint g \<noteq> request_fingerprint q then Inl (SpendRefused ''idempotency key reused'')
               else sbind (wake_tasks_blocked_for_provider_spend now owner (gr_goal q) (gr_envelope q) s)
                      (\<lambda>(s1, ids). Inr (s1, g, ids))
           | None \<Rightarrow>
               let prior = find_row (active_grant owner (gr_goal q)) (sd_grants s);
                   g = new_grant now i owner q (map_option sg_id prior)
               in sbind (insert_grant g (supersede_grants owner (gr_goal q) s)) (\<lambda>s1.
                  sbind (wake_tasks_blocked_for_provider_spend now owner (gr_goal q) (gr_envelope q) s1)
                    (\<lambda>(s2, ids). Inr (s2, g, ids))))"

definition revoke_provider_spend ::
  "uuid \<Rightarrow> uuid \<Rightarrow> string \<Rightarrow> string \<Rightarrow> spend_db \<Rightarrow> spend_error + (spend_db \<times> spend_grant)" where
  "revoke_provider_spend owner aid reason at s =
     (case find_row (\<lambda>g. sg_id g = aid \<and> sg_owner g = owner) (sd_grants s) of
        None \<Rightarrow> Inl (SpendRefused ''missing or belongs to another owner'')
      | Some g \<Rightarrow>
          if sg_status g \<noteq> GrantActive then Inl (SpendRefused ''already ended'')
          else let g1 = g\<lparr>sg_status := GrantRevoked,
                          sg_provenance := dict_put ''revoked_at'' (JStr at)
                            (dict_put ''revoked_reason'' (JStr reason) (sg_provenance g))\<rparr>
               in Inr (put_grant g1 s, g1))"

section \<open>The call boundary\<close>

definition committed_requests :: "spend_grant \<Rightarrow> int" where
  "committed_requests g = sg_spent_requests g + sg_reserved_requests g"

definition committed_cost :: "spend_grant \<Rightarrow> int" where
  "committed_cost g = sg_spent_cost g + sg_reserved_cost g"

definition committed_prompt :: "spend_grant \<Rightarrow> int" where
  "committed_prompt g = sg_spent_prompt g + sg_reserved_prompt g"

definition committed_completion :: "spend_grant \<Rightarrow> int" where
  "committed_completion g = sg_spent_completion g + sg_reserved_completion g"

definition at_ceiling :: "int option \<Rightarrow> int \<Rightarrow> bool" where
  "at_ceiling m n = (case m of None \<Rightarrow> False | Some c \<Rightarrow> c \<le> n)"

definition mark_terminal_if_needed :: "time \<Rightarrow> spend_grant \<Rightarrow> spend_grant" where
  "mark_terminal_if_needed now g =
     (if sg_status g \<noteq> GrantActive then g
      else if expired now g then g\<lparr>sg_status := GrantExpired\<rparr>
      else if sg_max_requests g \<le> sg_spent_requests g \<or> sg_max_cost g \<le> sg_spent_cost g
      then g\<lparr>sg_status := GrantExhausted\<rparr>
      else if at_ceiling (sg_max_prompt g) (sg_spent_prompt g) then g\<lparr>sg_status := GrantExhausted\<rparr>
      else if at_ceiling (sg_max_completion g) (sg_spent_completion g) then g\<lparr>sg_status := GrantExhausted\<rparr>
      else g)"

definition get_current_provider_spend_authorization ::
  "time \<Rightarrow> uuid \<Rightarrow> uuid \<Rightarrow> spend_db \<Rightarrow> spend_db \<times> spend_grant option" where
  "get_current_provider_spend_authorization now owner gid s =
     (case find_row (active_grant owner gid) (sd_grants s) of
        None \<Rightarrow> (s, None)
      | Some g \<Rightarrow>
          let g1 = mark_terminal_if_needed now g
          in if sg_status g1 \<noteq> GrantActive then (put_grant g1 s, None)
             else if \<not> current_envelope_is owner gid (sg_envelope g1) s then (s, None)
             else (s, Some g1))"

definition provider_spend_is_live ::
  "time \<Rightarrow> uuid \<Rightarrow> uuid \<Rightarrow> uuid option \<Rightarrow> spend_db \<Rightarrow> spend_db \<times> bool" where
  "provider_spend_is_live now owner gid eid s =
     (case get_current_provider_spend_authorization now owner gid s of
        (s1, None) \<Rightarrow> (s1, False)
      | (s1, Some g) \<Rightarrow>
          (s1, (eid = None \<or> eid = Some (sg_envelope g)) \<and>
               committed_requests g < sg_max_requests g \<and> committed_cost g < sg_max_cost g))"

definition provider_allowed :: "spend_grant \<Rightarrow> string \<Rightarrow> string \<Rightarrow> bool" where
  "provider_allowed g provider model \<longleftrightarrow>
     (sg_providers g = [] \<or> provider \<in> set (sg_providers g)) \<and>
     (sg_models g = [] \<or> model \<in> set (sg_models g))"

definition default_reserve_prompt_tokens :: int where "default_reserve_prompt_tokens = 8000"

definition default_reserve_completion_tokens :: int where "default_reserve_completion_tokens = 4000"

text \<open>A token hold: the ceiling capped by what is left under it, or the default where there is none.\<close>

definition token_hold :: "int option \<Rightarrow> int \<Rightarrow> int \<Rightarrow> int" where
  "token_hold ceiling committed deflt =
     (case ceiling of None \<Rightarrow> deflt | Some m \<Rightarrow> min m (max 0 (m - committed)))"

definition bound_reservation ::
  "spend_grant \<Rightarrow> string \<Rightarrow> string \<Rightarrow> spend_error + (int \<times> int \<times> int)" where
  "bound_reservation g provider model =
     (let prompt = token_hold (sg_max_prompt g) (committed_prompt g) default_reserve_prompt_tokens;
          completion = token_hold (sg_max_completion g) (committed_completion g) default_reserve_completion_tokens;
          remaining = max 0 (sg_max_cost g - committed_cost g)
      in case sg_max_per_request g of
           Some m \<Rightarrow> Inr (prompt, completion, min m remaining)
         | None \<Rightarrow>
             (case estimate_cost provider model prompt completion of
                None \<Rightarrow> Inl (SpendRefused ''cannot bound cost'')
              | Some c \<Rightarrow> Inr (prompt, completion, min c remaining)))"

record call_request =
  cr_goal :: uuid
  cr_ref :: string
  cr_provider :: string
  cr_model :: string
  cr_task :: "uuid option"
  cr_job :: "uuid option"
  cr_evidence :: jdict

definition reserved_event ::
  "time \<Rightarrow> uuid \<Rightarrow> uuid \<Rightarrow> spend_grant \<Rightarrow> call_request \<Rightarrow> int \<Rightarrow> int \<Rightarrow> int \<Rightarrow> usage_event" where
  "reserved_event now i owner g q prompt completion cost =
     \<lparr>ue_id = i, ue_owner = owner, ue_grant = sg_id g, ue_goal = cr_goal q, ue_task = cr_task q, ue_job = cr_job q,
      ue_provider = cr_provider q, ue_model = cr_model q, ue_prompt = 0, ue_completion = 0, ue_cost = 0,
      ue_reserved_prompt = prompt, ue_reserved_completion = completion, ue_reserved_cost = cost,
      ue_status = UsageReserved, ue_evidence = cr_evidence q, ue_ref = cr_ref q, ue_observed_at = now\<rparr>"

definition usage_checks :: "usage_event \<Rightarrow> bool" where
  "usage_checks e \<longleftrightarrow>
     0 \<le> ue_prompt e \<and> 0 \<le> ue_completion e \<and> 0 \<le> ue_cost e \<and> 0 \<le> ue_reserved_prompt e \<and>
     0 \<le> ue_reserved_completion e \<and> 0 \<le> ue_reserved_cost e \<and> length (ue_provider e) \<le> 64 \<and>
     length (ue_model e) \<le> 128 \<and> length (ue_ref e) \<le> 320"

definition keyed_usage :: "uuid \<Rightarrow> string \<Rightarrow> usage_event \<Rightarrow> bool" where
  "keyed_usage owner ref e \<longleftrightarrow> ue_owner e = owner \<and> ue_ref e = ref"

definition over_ceiling :: "int option \<Rightarrow> int \<Rightarrow> bool" where
  "over_ceiling m n = (case m of None \<Rightarrow> False | Some c \<Rightarrow> c < n)"

text \<open>The ceiling checks before the insert; the first that fails closes the grant.\<close>

definition reservation_refused :: "spend_grant \<Rightarrow> int \<Rightarrow> int \<Rightarrow> int \<Rightarrow> string option" where
  "reservation_refused g prompt completion cost =
     (if cost \<le> 0 \<and> 0 < sg_max_cost g \<and> sg_max_cost g \<le> committed_cost g then Some ''cost ceiling exhausted''
      else if sg_max_cost g < committed_cost g + cost then Some ''cost ceiling exhausted''
      else if over_ceiling (sg_max_prompt g) (committed_prompt g + prompt) then Some ''prompt-token ceiling exhausted''
      else if over_ceiling (sg_max_completion g) (committed_completion g + completion)
      then Some ''completion-token ceiling exhausted''
      else None)"

definition hold_on :: "time \<Rightarrow> int \<Rightarrow> int \<Rightarrow> int \<Rightarrow> spend_grant \<Rightarrow> spend_grant" where
  "hold_on now prompt completion cost g =
     mark_terminal_if_needed now
       (g\<lparr>sg_reserved_requests := sg_reserved_requests g + 1, sg_reserved_prompt := sg_reserved_prompt g + prompt,
          sg_reserved_completion := sg_reserved_completion g + completion, sg_reserved_cost := sg_reserved_cost g + cost\<rparr>)"

definition insert_reservation ::
  "time \<Rightarrow> usage_event \<Rightarrow> spend_grant \<Rightarrow> spend_db \<Rightarrow> (spend_error + (usage_event \<times> bool)) \<times> spend_db" where
  "insert_reservation now e g s =
     (let g1 = hold_on now (ue_reserved_prompt e) (ue_reserved_completion e) (ue_reserved_cost e) g
      in if \<not> usage_checks e then (Inl SpendConstraint, s)
         else case find_row (keyed_usage (ue_owner e) (ue_ref e)) (sd_usage s) of
                Some twin \<Rightarrow> (Inr (twin, False), s)
              | None \<Rightarrow>
                  if ue_id e \<in> ue_id ` set (sd_usage s) \<or> \<not> grant_checks g1 then (Inl SpendConstraint, s)
                  else (Inr (e, True), put_grant g1 (s\<lparr>sd_usage := sd_usage s @ [e]\<rparr>)))"

text \<open>From the lock on the grant on.\<close>

definition reserve_locked ::
  "time \<Rightarrow> uuid \<Rightarrow> uuid \<Rightarrow> call_request \<Rightarrow> spend_db \<Rightarrow> (spend_error + (usage_event \<times> bool)) \<times> spend_db" where
  "reserve_locked now i owner q s =
     (case get_current_provider_spend_authorization now owner (cr_goal q) s of
        (s1, None) \<Rightarrow> (Inl (SpendRefused ''no live authorization''), s1)
      | (s1, Some g) \<Rightarrow>
          if \<not> provider_allowed g (cr_provider q) (cr_model q)
          then (Inl (SpendRefused ''provider or model not allowed''), s1)
          else if sg_max_requests g < committed_requests g + 1
          then (Inl (SpendRefused ''request ceiling exhausted''), put_grant (g\<lparr>sg_status := GrantExhausted\<rparr>) s1)
          else case bound_reservation g (cr_provider q) (cr_model q) of
                 Inl e \<Rightarrow> (Inl e, s1)
               | Inr (prompt, completion, cost) \<Rightarrow>
                   (case reservation_refused g prompt completion cost of
                      Some why \<Rightarrow> (Inl (SpendRefused why), put_grant (g\<lparr>sg_status := GrantExhausted\<rparr>) s1)
                    | None \<Rightarrow> insert_reservation now (reserved_event now i owner g q prompt completion cost) g s1))"

text \<open>\<open>others\<close> is what concurrent calls commit between the first lookup and the lock.\<close>

definition reserve_provider_spend_call ::
  "time \<Rightarrow> uuid \<Rightarrow> (spend_db \<Rightarrow> spend_db) \<Rightarrow> uuid \<Rightarrow> call_request \<Rightarrow> spend_db \<Rightarrow>
   (spend_error + (usage_event \<times> bool)) \<times> spend_db" where
  "reserve_provider_spend_call now i others owner q s =
     (case find_row (keyed_usage owner (cr_ref q)) (sd_usage s) of
        Some prior \<Rightarrow>
          if ue_status prior = UsageReleased then (Inl (SpendRefused ''source_ref was already released''), s)
          else (Inr (prior, False), s)
      | None \<Rightarrow> reserve_locked now i owner q (others s))"

section \<open>Settling and releasing\<close>

text \<open>The SQL functions of migration 0060, each one statement.\<close>

definition give_back :: "usage_event \<Rightarrow> spend_grant \<Rightarrow> spend_grant" where
  "give_back e g =
     g\<lparr>sg_reserved_requests := sg_reserved_requests g - 1,
       sg_reserved_prompt := sg_reserved_prompt g - ue_reserved_prompt e,
       sg_reserved_completion := sg_reserved_completion g - ue_reserved_completion e,
       sg_reserved_cost := sg_reserved_cost g - ue_reserved_cost e\<rparr>"

definition spend_on :: "int \<Rightarrow> int \<Rightarrow> int \<Rightarrow> spend_grant \<Rightarrow> spend_grant" where
  "spend_on prompt completion cost g =
     g\<lparr>sg_spent_requests := sg_spent_requests g + 1, sg_spent_prompt := sg_spent_prompt g + prompt,
       sg_spent_completion := sg_spent_completion g + completion, sg_spent_cost := sg_spent_cost g + cost\<rparr>"

definition put_usage :: "usage_event \<Rightarrow> spend_db \<Rightarrow> spend_db" where
  "put_usage e s = s\<lparr>sd_usage := update_rows (\<lambda>x. ue_id x = ue_id e) (\<lambda>_. e) (sd_usage s)\<rparr>"

definition settle_provider_spend_usage ::
  "time \<Rightarrow> uuid \<Rightarrow> string \<Rightarrow> int \<Rightarrow> int \<Rightarrow> int \<Rightarrow> jdict \<Rightarrow> spend_db \<Rightarrow> spend_error + spend_db" where
  "settle_provider_spend_usage now owner ref prompt completion cost evidence s =
     (if prompt < 0 \<or> completion < 0 \<or> cost < 0 then Inl (SpendRaised ''amounts must be non-negative'')
      else case find_row (keyed_usage owner ref) (sd_usage s) of
             None \<Rightarrow> Inl (SpendRaised ''usage event missing'')
           | Some e \<Rightarrow>
               if ue_status e = UsageSettled then Inr s
               else if ue_status e \<noteq> UsageReserved then Inl (SpendRaised ''cannot settle'')
               else case find_row (\<lambda>g. sg_id g = ue_grant e \<and> sg_owner g = owner) (sd_grants s) of
                      None \<Rightarrow> Inl (SpendRaised ''authorization missing'')
                    | Some g \<Rightarrow>
                        if ue_reserved_prompt e < prompt \<or> ue_reserved_completion e < completion \<or>
                           ue_reserved_cost e < cost
                        then Inl (SpendRaised ''actuals exceed reservation hold'')
                        else let g1 = spend_on prompt completion cost (give_back e g);
                                 e1 = e\<lparr>ue_status := UsageSettled, ue_prompt := prompt, ue_completion := completion,
                                        ue_cost := cost, ue_evidence := evidence, ue_observed_at := now\<rparr>
                             in if grant_checks g1 then Inr (put_grant g1 (put_usage e1 s))
                                else Inl SpendConstraint)"

definition release_provider_spend_usage ::
  "time \<Rightarrow> uuid \<Rightarrow> string \<Rightarrow> jdict \<Rightarrow> spend_db \<Rightarrow> spend_error + spend_db" where
  "release_provider_spend_usage now owner ref evidence s =
     (case find_row (keyed_usage owner ref) (sd_usage s) of
        None \<Rightarrow> Inl (SpendRaised ''usage event missing'')
      | Some e \<Rightarrow>
          if ue_status e = UsageReleased then Inr s
          else if ue_status e = UsageSettled then Inl (SpendRaised ''already settled'')
          else let e1 = e\<lparr>ue_status := UsageReleased, ue_evidence := evidence, ue_observed_at := now\<rparr>;
                   s1 = put_usage e1 s
               in case find_row (\<lambda>g. sg_id g = ue_grant e \<and> sg_owner g = owner) (sd_grants s) of
                    None \<Rightarrow> Inr s1
                  | Some g \<Rightarrow>
                      if grant_checks (give_back e g) then Inr (put_grant (give_back e g) s1) else Inl SpendConstraint)"

definition settle_provider_spend_call ::
  "time \<Rightarrow> uuid \<Rightarrow> string \<Rightarrow> int \<Rightarrow> int \<Rightarrow> int \<Rightarrow> jdict \<Rightarrow> spend_db \<Rightarrow> spend_error + (spend_db \<times> usage_event)" where
  "settle_provider_spend_call now owner ref prompt completion cost evidence s =
     sbind (settle_provider_spend_usage now owner ref prompt completion cost evidence s) (\<lambda>s1.
       case find_row (keyed_usage owner ref) (sd_usage s1) of
         None \<Rightarrow> Inl (SpendRaised ''no row'')
       | Some e \<Rightarrow>
           (case find_row (\<lambda>g. sg_id g = ue_grant e) (sd_grants s1) of
              None \<Rightarrow> Inr (s1, e)
            | Some g \<Rightarrow> Inr (put_grant (mark_terminal_if_needed now g) s1, e)))"

definition release_provider_spend_call ::
  "time \<Rightarrow> uuid \<Rightarrow> string \<Rightarrow> jdict \<Rightarrow> spend_db \<Rightarrow> spend_error + (spend_db \<times> usage_event)" where
  "release_provider_spend_call now owner ref evidence s =
     sbind (release_provider_spend_usage now owner ref evidence s) (\<lambda>s1.
       case find_row (keyed_usage owner ref) (sd_usage s1) of
         None \<Rightarrow> Inl (SpendRaised ''no row'')
       | Some e \<Rightarrow> Inr (s1, e))"

definition record_provider_spend_usage ::
  "time \<Rightarrow> uuid \<Rightarrow> (spend_db \<Rightarrow> spend_db) \<Rightarrow> uuid \<Rightarrow> call_request \<Rightarrow> int \<Rightarrow> int \<Rightarrow> int \<Rightarrow> spend_db \<Rightarrow>
   spend_error + (spend_db \<times> usage_event)" where
  "record_provider_spend_usage now i others owner q prompt completion cost s =
     (case reserve_provider_spend_call now i others owner q s of
        (Inl e, s1) \<Rightarrow> Inl e
      | (Inr _, s1) \<Rightarrow> settle_provider_spend_call now owner (cr_ref q) prompt completion cost (cr_evidence q) s1)"

section \<open>The ledger\<close>

definition total :: "(usage_event \<Rightarrow> int) \<Rightarrow> uuid \<Rightarrow> usage_status \<Rightarrow> usage_event list \<Rightarrow> int" where
  "total f gid st es = sum_list (map f (filter (\<lambda>e. ue_grant e = gid \<and> ue_status e = st) es))"

text \<open>The counters of a grant are the sums over its events: holds over the reserved, actuals over the settled.\<close>

definition ledger_ok :: "usage_event list \<Rightarrow> spend_grant \<Rightarrow> bool" where
  "ledger_ok es g \<longleftrightarrow>
     sg_reserved_requests g = total (\<lambda>_. 1) (sg_id g) UsageReserved es \<and>
     sg_reserved_prompt g = total ue_reserved_prompt (sg_id g) UsageReserved es \<and>
     sg_reserved_completion g = total ue_reserved_completion (sg_id g) UsageReserved es \<and>
     sg_reserved_cost g = total ue_reserved_cost (sg_id g) UsageReserved es \<and>
     sg_spent_requests g = total (\<lambda>_. 1) (sg_id g) UsageSettled es \<and>
     sg_spent_prompt g = total ue_prompt (sg_id g) UsageSettled es \<and>
     sg_spent_completion g = total ue_completion (sg_id g) UsageSettled es \<and>
     sg_spent_cost g = total ue_cost (sg_id g) UsageSettled es"

definition within :: "spend_grant \<Rightarrow> bool" where
  "within g \<longleftrightarrow>
     committed_requests g \<le> sg_max_requests g \<and> committed_cost g \<le> sg_max_cost g \<and>
     \<not> over_ceiling (sg_max_prompt g) (committed_prompt g) \<and>
     \<not> over_ceiling (sg_max_completion g) (committed_completion g)"

definition usage_ok :: "usage_event \<Rightarrow> bool" where
  "usage_ok e \<longleftrightarrow> usage_checks e \<and>
     (ue_status e = UsageSettled \<longrightarrow>
        ue_prompt e \<le> ue_reserved_prompt e \<and> ue_completion e \<le> ue_reserved_completion e \<and>
        ue_cost e \<le> ue_reserved_cost e)"

definition grant_ok :: "usage_event list \<Rightarrow> spend_grant \<Rightarrow> bool" where
  "grant_ok es g \<longleftrightarrow> ledger_ok es g \<and> within g \<and> grant_checks g"

definition one_active_grant :: "spend_grant list \<Rightarrow> bool" where
  "one_active_grant gs \<longleftrightarrow>
     (\<forall>g\<in>set gs. \<forall>h\<in>set gs. sg_status g = GrantActive \<longrightarrow> sg_status h = GrantActive \<longrightarrow>
        sg_owner g = sg_owner h \<longrightarrow> sg_goal g = sg_goal h \<longrightarrow> g = h)"

definition usage_table_ok :: "spend_db \<Rightarrow> bool" where
  "usage_table_ok s \<longleftrightarrow>
     unique_key ue_id (sd_usage s) \<and> unique_key (\<lambda>e. (ue_owner e, ue_ref e)) (sd_usage s) \<and>
     (\<forall>e\<in>set (sd_usage s). usage_ok e \<and> (\<exists>g\<in>set (sd_grants s). sg_id g = ue_grant e \<and> sg_owner g = ue_owner e))"

definition spend_ok :: "spend_db \<Rightarrow> bool" where
  "spend_ok s \<longleftrightarrow>
     unique_key sg_id (sd_grants s) \<and> one_active_grant (sd_grants s) \<and>
     (\<forall>g\<in>set (sd_grants s). grant_ok (sd_usage s) g) \<and> usage_table_ok s"

lemma total_append: "total f gid st (es @ fs) = total f gid st es + total f gid st fs"
  by (simp add: total_def)

lemma total_one: "total f gid st [e] = (if ue_grant e = gid \<and> ue_status e = st then f e else 0)"
  by (simp add: total_def)

lemma total_none: "(\<And>e. e \<in> set es \<Longrightarrow> ue_grant e \<noteq> gid) \<Longrightarrow> total f gid st es = 0"
  by (simp add: total_def filter_empty_conv)

lemma total_nonneg: "(\<And>e. e \<in> set es \<Longrightarrow> 0 \<le> f e) \<Longrightarrow> 0 \<le> total f gid st es"
  by (induction es) (auto simp: total_def)

text \<open>Rewriting one event moves a sum by what the event counted before and after.\<close>

lemma total_update:
  assumes "unique_key ue_id es" and "e \<in> set es" and "ue_id e1 = ue_id e"
  shows "total f gid st (update_rows (\<lambda>x. ue_id x = ue_id e1) (\<lambda>_. e1) es) =
    total f gid st es - total f gid st [e] + total f gid st [e1]"
  using assms(1,2)
proof (induction es)
  case (Cons a es)
  show ?case
  proof (cases "a = e")
    case True
    then have "update_rows (\<lambda>x. ue_id x = ue_id e1) (\<lambda>_. e1) es = es"
      using Cons.prems(1) assms(3) by (intro update_rows_idle) (auto simp: unique_key_def rev_image_eqI)
    with True assms(3) show ?thesis
      using total_append [of f gid st "[e]" es] total_append [of f gid st "[e1]" es] by simp
  next
    case False
    then have e: "e \<in> set es" using Cons.prems(2) by simp
    moreover have "ue_id a \<noteq> ue_id e" using e Cons.prems(1) by (auto simp: unique_key_def)
    ultimately show ?thesis
      using Cons.IH Cons.prems(1) assms(3) total_append [of f gid st "[a]" es]
        total_append [of f gid st "[a]" "update_rows (\<lambda>x. ue_id x = ue_id e1) (\<lambda>_. e1) es"]
      by (simp add: unique_key_def)
  qed
qed simp

lemma spend_okD:
  assumes "spend_ok s"
  shows "unique_key sg_id (sd_grants s)" and "g \<in> set (sd_grants s) \<Longrightarrow> grant_ok (sd_usage s) g"
    and "usage_table_ok s" and "one_active_grant (sd_grants s)"
    and "g \<in> set (sd_grants s) \<Longrightarrow> h \<in> set (sd_grants s) \<Longrightarrow> sg_id g = sg_id h \<Longrightarrow> g = h"
  using assms unique_key_eqD [of sg_id "sd_grants s"] by (auto simp: spend_ok_def)

text \<open>Rewriting one grant, with the events already in place.\<close>

lemma spend_ok_put:
  assumes "unique_key sg_id (sd_grants s)" "one_active_grant (sd_grants s)" "usage_table_ok s"
    and "\<And>h. h \<in> set (sd_grants s) \<Longrightarrow> sg_id h \<noteq> sg_id g \<Longrightarrow> grant_ok (sd_usage s) h"
    and "h \<in> set (sd_grants s)" "sg_id g = sg_id h" "sg_owner g = sg_owner h" "sg_goal g = sg_goal h"
    and "sg_status g = GrantActive \<longrightarrow> sg_status h = GrantActive" and "grant_ok (sd_usage s) g"
  shows "spend_ok (put_grant g s)"
proof -
  have rows: "x = g \<or> x \<in> set (sd_grants s) \<and> sg_id x \<noteq> sg_id g" if "x \<in> set (sd_grants (put_grant g s))" for x
    using that by (auto simp: put_grant_def in_update_rows_iff split: if_splits)
  have same: "x = h" if "x \<in> set (sd_grants s)" "sg_id x = sg_id g" for x
    using that assms(1,5,6) by (auto intro: unique_key_eqD)
  have "one_active_grant (sd_grants (put_grant g s))"
    unfolding one_active_grant_def
  proof (intro ballI impI)
    fix x y assume "x \<in> set (sd_grants (put_grant g s))" "y \<in> set (sd_grants (put_grant g s))"
      and st: "sg_status x = GrantActive" "sg_status y = GrantActive" "sg_owner x = sg_owner y" "sg_goal x = sg_goal y"
    then have xy: "x = g \<or> x \<in> set (sd_grants s) \<and> sg_id x \<noteq> sg_id g" "y = g \<or> y \<in> set (sd_grants s) \<and> sg_id y \<noteq> sg_id g"
      by (auto dest: rows)
    from assms(2) have one: "a = b" if "a \<in> set (sd_grants s)" "b \<in> set (sd_grants s)" "sg_status a = GrantActive"
      "sg_status b = GrantActive" "sg_owner a = sg_owner b" "sg_goal a = sg_goal b" for a b
      using that unfolding one_active_grant_def by blast
    have hg: "sg_status h = GrantActive" if "x = g \<or> y = g" using that st(1,2) assms(9) by blast
    from xy show "x = y"
    proof (elim disjE conjE)
      assume "x = g" "y = g" then show ?thesis by simp
    next
      assume "x = g" "y \<in> set (sd_grants s)" "sg_id y \<noteq> sg_id g"
      with one [of h y] hg st assms(5-8) show ?thesis by simp
    next
      assume "x \<in> set (sd_grants s)" "sg_id x \<noteq> sg_id g" "y = g"
      with one [of x h] hg st assms(5-8) show ?thesis by simp
    next
      assume "x \<in> set (sd_grants s)" "y \<in> set (sd_grants s)"
      with one [of x y] st show ?thesis by simp
    qed
  qed
  moreover have "unique_key sg_id (sd_grants (put_grant g s))"
  proof -
    have "map sg_id (sd_grants (put_grant g s)) = map sg_id (sd_grants s)"
      by (auto simp: put_grant_def update_rows_def)
    then show ?thesis using assms(1) by (simp add: unique_key_def)
  qed
  moreover have "grant_ok (sd_usage (put_grant g s)) x" if "x \<in> set (sd_grants (put_grant g s))" for x
    using rows [OF that] assms(4,10) by (auto simp: put_grant_def)
  moreover have "usage_table_ok (put_grant g s)"
  proof -
    have "\<exists>y\<in>set (sd_grants (put_grant g s)). sg_id y = sg_id x \<and> sg_owner y = sg_owner x" if "x \<in> set (sd_grants s)" for x
    proof (cases "sg_id x = sg_id g")
      case True
      with same [OF that] have "x = h" by simp
      moreover have "g \<in> set (sd_grants (put_grant g s))"
        using assms(5,6) by (auto simp: put_grant_def in_update_rows_iff)
      ultimately show ?thesis using assms(6,7) by (intro bexI [of _ g]) simp_all
    next
      case False
      with that have "x \<in> set (sd_grants (put_grant g s))"
        by (auto simp: put_grant_def in_update_rows_iff intro!: bexI [of _ x])
      then show ?thesis by blast
    qed
    moreover have "sd_usage (put_grant g s) = sd_usage s" by (simp add: put_grant_def)
    ultimately show ?thesis using assms(3) unfolding usage_table_ok_def by metis
  qed
  ultimately show ?thesis by (simp add: spend_ok_def)
qed

section \<open>Every operation keeps the books\<close>

lemma status_is_no_money [simp]:
  "ledger_ok es (g\<lparr>sg_status := st\<rparr>) = ledger_ok es g"
  "within (g\<lparr>sg_status := st\<rparr>) = within g"
  "grant_checks (g\<lparr>sg_status := st\<rparr>) = grant_checks g"
  by (simp_all add: ledger_ok_def within_def grant_checks_def committed_requests_def committed_cost_def
      committed_prompt_def committed_completion_def)

lemma grant_ok_status [simp]:
  "grant_ok es (g\<lparr>sg_status := st\<rparr>) = grant_ok es g"
  "grant_ok es (g\<lparr>sg_status := st, sg_provenance := pv\<rparr>) = grant_ok es g"
  by (simp_all add: grant_ok_def ledger_ok_def within_def grant_checks_def committed_requests_def committed_cost_def
      committed_prompt_def committed_completion_def)

lemma grant_ok_base [simp]: "spend_ok (set_base d s) = spend_ok s"
  by (simp add: spend_ok_def usage_table_ok_def set_base_def)

lemma mark_terminal_status:
  "\<exists>st. mark_terminal_if_needed now g = g\<lparr>sg_status := st\<rparr> \<and> (st = GrantActive \<longrightarrow> sg_status g = GrantActive)"
proof (intro exI conjI impI)
  show "mark_terminal_if_needed now g = g\<lparr>sg_status := sg_status (mark_terminal_if_needed now g)\<rparr>"
    by (auto simp: mark_terminal_if_needed_def)
  show "sg_status g = GrantActive" if "sg_status (mark_terminal_if_needed now g) = GrantActive"
    using that by (auto simp: mark_terminal_if_needed_def split: if_splits)
qed

lemma spend_ok_close:
  assumes "spend_ok s" and "g \<in> set (sd_grants s)" and "st = GrantActive \<longrightarrow> sg_status g = GrantActive"
  shows "spend_ok (put_grant (g\<lparr>sg_status := st\<rparr>) s)" and "spend_ok (put_grant (g\<lparr>sg_status := st, sg_provenance := pv\<rparr>) s)"
  using assms spend_okD [OF assms(1)] by (auto intro!: spend_ok_put [of s _ g])

lemma find_grantD:
  "find_row (active_grant owner gid) (sd_grants s) = Some g \<Longrightarrow>
     g \<in> set (sd_grants s) \<and> sg_owner g = owner \<and> sg_goal g = gid \<and> sg_status g = GrantActive"
  by (auto simp: active_grant_def dest: find_row_SomeD)

lemma current_grant_ok:
  assumes "get_current_provider_spend_authorization now owner gid s = (t, r)" and "spend_ok s"
  shows "spend_ok t \<and> sd_usage t = sd_usage s"
proof (cases "find_row (active_grant owner gid) (sd_grants s)")
  case None
  with assms show ?thesis by (simp add: get_current_provider_spend_authorization_def)
next
  case (Some g)
  obtain st where st: "mark_terminal_if_needed now g = g\<lparr>sg_status := st\<rparr>" "st = GrantActive \<longrightarrow> sg_status g = GrantActive"
    using mark_terminal_status by blast
  have "spend_ok (put_grant (g\<lparr>sg_status := st\<rparr>) s)"
    using spend_ok_close(1) [OF assms(2) _ st(2)] find_grantD [OF Some] by blast
  moreover have "t = s \<or> t = put_grant (g\<lparr>sg_status := st\<rparr>) s"
    using assms(1) Some by (auto simp: get_current_provider_spend_authorization_def Let_def st(1) split: if_splits)
  ultimately show ?thesis using assms(2) by (auto simp: put_grant_def)
qed

text \<open>A grant the lookup returns is live: active, unexpired, under its ceilings, for the current envelope.\<close>

lemma current_grant_Some:
  assumes "get_current_provider_spend_authorization now owner gid s = (t, Some g)"
  shows "t = s \<and> g \<in> set (sd_grants s) \<and> sg_owner g = owner \<and> sg_goal g = gid \<and> sg_status g = GrantActive \<and>
    \<not> expired now g \<and> sg_spent_requests g < sg_max_requests g \<and> sg_spent_cost g < sg_max_cost g \<and>
    current_envelope_is owner gid (sg_envelope g) s"
proof -
  from assms obtain h where h: "find_row (active_grant owner gid) (sd_grants s) = Some h"
    by (auto simp: get_current_provider_spend_authorization_def split: option.splits)
  note fh = find_grantD [OF h]
  let ?m = "mark_terminal_if_needed now h"
  have act: "sg_status ?m = GrantActive" and t: "t = s" "g = ?m" "current_envelope_is owner gid (sg_envelope ?m) s"
    using assms h by (auto simp: get_current_provider_spend_authorization_def Let_def split: if_splits)
  have "?m = h \<and> \<not> expired now h \<and> sg_spent_requests h < sg_max_requests h \<and> sg_spent_cost h < sg_max_cost h"
    using act fh unfolding mark_terminal_if_needed_def by (auto split: if_splits)
  with t fh show ?thesis by simp
qed

lemma insert_reservation_ok:
  assumes "insert_reservation now e g s = (r, t)" and "spend_ok s" and "g \<in> set (sd_grants s)"
    and "ue_grant e = sg_id g" "ue_owner e = sg_owner g" "ue_status e = UsageReserved"
    and "committed_requests g + 1 \<le> sg_max_requests g"
    and "reservation_refused g (ue_reserved_prompt e) (ue_reserved_completion e) (ue_reserved_cost e) = None"
  shows "spend_ok t"
proof (cases "t = s")
  case False
  let ?s = "s\<lparr>sd_usage := sd_usage s @ [e]\<rparr>"
  let ?h = "g\<lparr>sg_reserved_requests := sg_reserved_requests g + 1,
      sg_reserved_prompt := sg_reserved_prompt g + ue_reserved_prompt e,
      sg_reserved_completion := sg_reserved_completion g + ue_reserved_completion e,
      sg_reserved_cost := sg_reserved_cost g + ue_reserved_cost e\<rparr>"
  obtain st where st: "mark_terminal_if_needed now ?h = ?h\<lparr>sg_status := st\<rparr>" "st = GrantActive \<longrightarrow> sg_status ?h = GrantActive"
    using mark_terminal_status by blast
  have t: "t = put_grant (?h\<lparr>sg_status := st\<rparr>) ?s" and chk: "usage_checks e" "grant_checks (?h\<lparr>sg_status := st\<rparr>)"
    and new: "find_row (keyed_usage (ue_owner e) (ue_ref e)) (sd_usage s) = None" "ue_id e \<notin> ue_id ` set (sd_usage s)"
    using assms(1) False
    by (auto simp: insert_reservation_def hold_on_def st(1) Let_def split: if_splits option.splits)
  note ok = spend_okD [OF assms(2)]
  have gok: "grant_ok (sd_usage s) g" using ok(2) assms(3) by blast
  have "usage_table_ok ?s"
    using ok(3) new chk(1) assms(3-6)
    by (auto simp: usage_table_ok_def unique_key_snoc usage_ok_def find_row_None_iff keyed_usage_def)
  moreover have "grant_ok (sd_usage ?s) h" if "h \<in> set (sd_grants s)" "sg_id h \<noteq> sg_id g" for h
    using ok(2) [OF that(1)] that(2) assms(4)
    by (simp add: grant_ok_def ledger_ok_def total_append total_one)
  moreover have "ledger_ok (sd_usage ?s) ?h"
    using gok assms(4,6) by (simp add: grant_ok_def ledger_ok_def total_append total_one)
  moreover have "within ?h"
    using gok assms(7,8)
    by (auto simp: grant_ok_def within_def committed_requests_def committed_cost_def committed_prompt_def
        committed_completion_def reservation_refused_def over_ceiling_def algebra_simps split: if_splits option.splits)
  ultimately have others: "usage_table_ok ?s" "\<And>h. h \<in> set (sd_grants ?s) \<Longrightarrow> sg_id h \<noteq> sg_id g \<Longrightarrow> grant_ok (sd_usage ?s) h"
    and "grant_ok (sd_usage ?s) (?h\<lparr>sg_status := st\<rparr>)"
    using chk(2) by (simp_all add: grant_ok_def)
  with ok(1,4) assms(3) st(2) show ?thesis
    unfolding t by (intro spend_ok_put [of ?s _ g]) simp_all
qed (use assms(2) in simp)

lemma reserve_locked_cases:
  assumes "reserve_locked now i owner q s = (r, t)"
  obtains (refused) u o1 where "get_current_provider_spend_authorization now owner (cr_goal q) s = (u, o1)" "t = u" "\<exists>e. r = Inl e"
  | (closed) g why where "get_current_provider_spend_authorization now owner (cr_goal q) s = (s, Some g)"
      "r = Inl (SpendRefused why)" "t = put_grant (g\<lparr>sg_status := GrantExhausted\<rparr>) s"
  | (inserted) g p c m where "get_current_provider_spend_authorization now owner (cr_goal q) s = (s, Some g)"
      "provider_allowed g (cr_provider q) (cr_model q)" "committed_requests g + 1 \<le> sg_max_requests g"
      "bound_reservation g (cr_provider q) (cr_model q) = Inr (p, c, m)" "reservation_refused g p c m = None"
      "insert_reservation now (reserved_event now i owner g q p c m) g s = (r, t)"
proof -
  obtain u o1 where cur: "get_current_provider_spend_authorization now owner (cr_goal q) s = (u, o1)"
    by (cases "get_current_provider_spend_authorization now owner (cr_goal q) s")
  show ?thesis
  proof (cases o1)
    case None
    with assms cur show ?thesis by (intro refused) (auto simp: reserve_locked_def)
  next
    case (Some g)
    with current_grant_Some [OF cur [unfolded Some]] cur have at: "u = s"
      "get_current_provider_spend_authorization now owner (cr_goal q) s = (s, Some g)" by auto
    show ?thesis
      using assms cur Some at refused closed inserted
      by (auto simp: reserve_locked_def split: if_splits sum.splits option.splits)
  qed
qed

lemma reserve_locked_ok:
  assumes "reserve_locked now i owner q s = (r, t)" and "spend_ok s"
  shows "spend_ok t"
  using assms(1)
proof (cases rule: reserve_locked_cases)
  case (refused u o1)
  with current_grant_ok [OF refused(1) assms(2)] show ?thesis by simp
next
  case (closed g why)
  with current_grant_Some [OF closed(1)] show ?thesis by (auto intro: spend_ok_close(1) [OF assms(2)])
next
  case (inserted g p c m)
  with current_grant_Some [OF inserted(1)] show ?thesis
    by (intro insert_reservation_ok [OF inserted(6) assms(2)]) (simp_all add: reserved_event_def)
qed

section \<open>Moving an event\<close>

lemma usage_keyD:
  assumes "usage_table_ok s" and "e \<in> set (sd_usage s)" and "x \<in> set (sd_usage s)" and "ue_id x = ue_id e"
  shows "x = e"
  using assms unique_key_eqD [of ue_id "sd_usage s"] by (simp add: usage_table_ok_def)

lemma usage_table_ok_put_usage:
  assumes "usage_table_ok s" and "e \<in> set (sd_usage s)" and "usage_ok e1"
    and "ue_id e1 = ue_id e" "ue_owner e1 = ue_owner e" "ue_ref e1 = ue_ref e" "ue_grant e1 = ue_grant e"
  shows "usage_table_ok (put_usage e1 s)"
proof -
  note key = usage_keyD [OF assms(1,2)]
  have maps: "map ue_id (sd_usage (put_usage e1 s)) = map ue_id (sd_usage s)"
    "map (\<lambda>e. (ue_owner e, ue_ref e)) (sd_usage (put_usage e1 s)) = map (\<lambda>e. (ue_owner e, ue_ref e)) (sd_usage s)"
    using key assms(4-6) by (auto simp: put_usage_def update_rows_def)
  have "usage_ok x \<and> (\<exists>g\<in>set (sd_grants s). sg_id g = ue_grant x \<and> sg_owner g = ue_owner x)"
    if "x \<in> set (sd_usage (put_usage e1 s))" for x
  proof -
    from that have "x = e1 \<or> x \<in> set (sd_usage s)"
      by (auto simp: put_usage_def in_update_rows_iff split: if_splits)
    then show ?thesis using assms(1-3,5,7) unfolding usage_table_ok_def by metis
  qed
  then show ?thesis
    using assms(1) maps by (simp add: usage_table_ok_def unique_key_def) (simp add: put_usage_def)
qed

lemma put_usage_rows [simp]:
  "sd_grants (put_usage e s) = sd_grants s" "sd_usage (put_grant g s) = sd_usage s"
  by (simp_all add: put_usage_def put_grant_def)

lemma total_put_usage:
  assumes "usage_table_ok s" and "e \<in> set (sd_usage s)" and "ue_id e1 = ue_id e"
  shows "total f gid st (sd_usage (put_usage e1 s)) =
    total f gid st (sd_usage s) - total f gid st [e] + total f gid st [e1]"
  using total_update [of "sd_usage s" e e1] assms by (simp add: put_usage_def usage_table_ok_def)

text \<open>Rewriting an event and its grant together, when the grant's counters follow the event.\<close>

lemma spend_ok_move:
  assumes "spend_ok s" and "e \<in> set (sd_usage s)" and "g \<in> set (sd_grants s)" and "ue_grant e = sg_id g"
    and "ue_id e1 = ue_id e" "ue_owner e1 = ue_owner e" "ue_ref e1 = ue_ref e" "ue_grant e1 = ue_grant e" "usage_ok e1"
    and "sg_id g1 = sg_id g" "sg_owner g1 = sg_owner g" "sg_goal g1 = sg_goal g" "sg_status g1 = sg_status g"
    and "ledger_ok (sd_usage (put_usage e1 s)) g1" "within g1" "grant_checks g1"
  shows "spend_ok (put_grant g1 (put_usage e1 s))"
proof -
  note ok = spend_okD [OF assms(1)]
  have "grant_ok (sd_usage (put_usage e1 s)) h" if "h \<in> set (sd_grants s)" "sg_id h \<noteq> sg_id g1" for h
    using ok(2) [OF that(1)] that(2) assms(4,8,10)
    by (simp add: grant_ok_def ledger_ok_def total_put_usage [OF ok(3) assms(2,5)] total_one)
  with ok assms usage_table_ok_put_usage [OF ok(3) assms(2,9,5-8)] show ?thesis
    by (intro spend_ok_put [of _ g1 g]) (simp_all add: grant_ok_def)
qed

lemma find_usageD:
  "find_row (keyed_usage owner ref) es = Some e \<Longrightarrow> e \<in> set es \<and> ue_owner e = owner \<and> ue_ref e = ref"
  by (auto simp: keyed_usage_def dest: find_row_SomeD)

lemma event_grant:
  assumes "find_row (\<lambda>g. sg_id g = gid \<and> sg_owner g = owner) gs = Some g"
  shows "g \<in> set gs \<and> sg_id g = gid \<and> sg_owner g = owner"
  using find_row_SomeD [OF assms] by auto

lemma hold_counted:
  assumes "spend_ok s" and "e \<in> set (sd_usage s)" and "g \<in> set (sd_grants s)" and "ue_grant e = sg_id g"
  shows "ledger_ok (sd_usage s) g" and "within g" and "usage_ok e"
  using assms spend_okD(2) [OF assms(1,3)] spend_okD(3) [OF assms(1)] by (auto simp: grant_ok_def usage_table_ok_def)

lemma settle_usage_ok:
  assumes "settle_provider_spend_usage now owner ref p c m ev s = Inr t" and "spend_ok s"
  shows "spend_ok t"
proof (cases "t = s")
  case False
  from assms(1) False obtain e g where e: "find_row (keyed_usage owner ref) (sd_usage s) = Some e"
    and g: "find_row (\<lambda>g. sg_id g = ue_grant e \<and> sg_owner g = owner) (sd_grants s) = Some g"
    and st: "ue_status e = UsageReserved" and nn: "0 \<le> p" "0 \<le> c" "0 \<le> m"
    and hold: "p \<le> ue_reserved_prompt e" "c \<le> ue_reserved_completion e" "m \<le> ue_reserved_cost e"
    and chk: "grant_checks (spend_on p c m (give_back e g))"
    and t: "t = put_grant (spend_on p c m (give_back e g))
        (put_usage (e\<lparr>ue_status := UsageSettled, ue_prompt := p, ue_completion := c, ue_cost := m, ue_evidence := ev,
           ue_observed_at := now\<rparr>) s)"
    by (auto simp: settle_provider_spend_usage_def Let_def split: if_splits option.splits)
  note fe = find_usageD [OF e] and fg = event_grant [OF g]
  note h = hold_counted [OF assms(2), of e g]
  have led: "ledger_ok (sd_usage s) g" and wi: "within g" and ue: "usage_ok e" using h fe fg by auto
  show ?thesis unfolding t
  proof (rule spend_ok_move [OF assms(2), of e g])
    show "usage_ok (e\<lparr>ue_status := UsageSettled, ue_prompt := p, ue_completion := c, ue_cost := m, ue_evidence := ev,
        ue_observed_at := now\<rparr>)"
      using ue nn hold by (simp add: usage_ok_def usage_checks_def)
    show "within (spend_on p c m (give_back e g))"
      using wi hold by (auto simp: within_def spend_on_def give_back_def committed_requests_def committed_cost_def
          committed_prompt_def committed_completion_def over_ceiling_def split: option.splits)
    show "ledger_ok (sd_usage (put_usage (e\<lparr>ue_status := UsageSettled, ue_prompt := p, ue_completion := c,
        ue_cost := m, ue_evidence := ev, ue_observed_at := now\<rparr>) s)) (spend_on p c m (give_back e g))"
      using led st fe fg total_put_usage [OF spend_okD(3) [OF assms(2)], of e]
      by (simp add: ledger_ok_def total_one spend_on_def give_back_def)
  qed (use fe fg chk in \<open>simp_all add: spend_on_def give_back_def\<close>)
qed (use assms(2) in simp)

lemma release_usage_ok:
  assumes "release_provider_spend_usage now owner ref ev s = Inr t" and "spend_ok s"
  shows "spend_ok t"
proof (cases "t = s")
  case False
  obtain e where e: "find_row (keyed_usage owner ref) (sd_usage s) = Some e"
    using assms(1) by (auto simp: release_provider_spend_usage_def split: option.splits)
  note fe = find_usageD [OF e]
  have st: "ue_status e = UsageReserved"
    using assms(1) False e by (cases "ue_status e") (auto simp: release_provider_spend_usage_def)
  obtain h where hh: "h \<in> set (sd_grants s)" "sg_id h = ue_grant e" "sg_owner h = owner"
    using spend_okD(3) [OF assms(2)] fe unfolding usage_table_ok_def by metis
  then obtain g where g: "find_row (\<lambda>g. sg_id g = ue_grant e \<and> sg_owner g = owner) (sd_grants s) = Some g"
    by (cases "find_row (\<lambda>g. sg_id g = ue_grant e \<and> sg_owner g = owner) (sd_grants s)") (auto simp: find_row_None_iff)
  note fg = event_grant [OF g]
  let ?e1 = "e\<lparr>ue_status := UsageReleased, ue_evidence := ev, ue_observed_at := now\<rparr>"
  have chk: "grant_checks (give_back e g)" and t: "t = put_grant (give_back e g) (put_usage ?e1 s)"
    using assms(1) e st g by (auto simp: release_provider_spend_usage_def Let_def split: if_splits)
  note h = hold_counted [OF assms(2), of e g]
  have led: "ledger_ok (sd_usage s) g" and wi: "within g" and ue: "usage_ok e" using h fe fg by auto
  then have pos: "0 \<le> ue_reserved_prompt e" "0 \<le> ue_reserved_completion e" "0 \<le> ue_reserved_cost e"
    by (simp_all add: usage_ok_def usage_checks_def)
  show ?thesis unfolding t
  proof (rule spend_ok_move [OF assms(2), of e g])
    show "usage_ok ?e1" using ue by (simp add: usage_ok_def usage_checks_def)
    show "within (give_back e g)"
      using wi pos by (auto simp: within_def give_back_def committed_requests_def committed_cost_def
          committed_prompt_def committed_completion_def over_ceiling_def split: option.splits)
    show "ledger_ok (sd_usage (put_usage ?e1 s)) (give_back e g)"
      using led st fe fg total_put_usage [OF spend_okD(3) [OF assms(2)], of e]
      by (simp add: ledger_ok_def total_one give_back_def)
  qed (use fe fg chk in \<open>simp_all add: give_back_def\<close>)
qed (use assms(2) in simp)

lemma mark_terminal_ok:
  assumes "spend_ok s" and "g \<in> set (sd_grants s)"
  shows "spend_ok (put_grant (mark_terminal_if_needed now g) s)"
  using mark_terminal_status [of now g] spend_ok_close(1) [OF assms] by metis

lemma settle_call_ok:
  assumes "settle_provider_spend_call now owner ref p c m ev s = Inr (t, e)" and "spend_ok s"
  shows "spend_ok t"
proof -
  obtain s1 where s1: "settle_provider_spend_usage now owner ref p c m ev s = Inr s1"
    using assms(1) by (auto simp: settle_provider_spend_call_def sbind_def split: sum.splits)
  have "spend_ok s1" by (rule settle_usage_ok [OF s1 assms(2)])
  with assms(1) s1 show ?thesis
    by (auto simp: settle_provider_spend_call_def split: option.splits intro: mark_terminal_ok dest: find_row_SomeD)
qed

lemma release_call_ok:
  assumes "release_provider_spend_call now owner ref ev s = Inr (t, e)" and "spend_ok s"
  shows "spend_ok t"
  using assms by (auto simp: release_provider_spend_call_def sbind_def split: sum.splits option.splits
      intro: release_usage_ok)

lemma revoke_ok:
  assumes "revoke_provider_spend owner aid reason at s = Inr (t, g)" and "spend_ok s"
  shows "spend_ok t"
  using assms by (auto simp: revoke_provider_spend_def Let_def split: option.splits if_splits
      dest!: find_row_SomeD intro: spend_ok_close(2))

lemma wake_ok:
  assumes "wake_tasks_blocked_for_provider_spend now owner gid eid s = Inr (t, ids)"
  shows "spend_ok t = spend_ok s"
  using assms by (auto simp: wake_tasks_blocked_for_provider_spend_def split: option.splits if_splits sum.splits)

lemma wake_for_grants_ok:
  "wake_for_grants now gs s = Inr (t, ids) \<Longrightarrow> spend_ok t = spend_ok s"
proof (induction gs arbitrary: s t ids)
  case (Cons g gs)
  then show ?case by (auto simp: sbind_def split: if_splits sum.splits dest!: wake_ok)
qed simp

lemma supersede_grants_map:
  "sd_grants (supersede_grants owner gid s) =
     map (\<lambda>g. if active_grant owner gid g then g\<lparr>sg_status := GrantSuperseded\<rparr> else g) (sd_grants s)"
  "sd_usage (supersede_grants owner gid s) = sd_usage s"
  by (simp_all add: supersede_grants_def update_rows_def)

lemma one_active_grantD:
  assumes "one_active_grant gs" and "g \<in> set gs" "h \<in> set gs" and "sg_status g = GrantActive" "sg_status h = GrantActive"
    and "sg_owner g = sg_owner h" "sg_goal g = sg_goal h"
  shows "g = h"
  using assms by (simp add: one_active_grant_def)

lemma one_active_map:
  assumes "one_active_grant gs" and same: "\<And>g. sg_status (f g) = GrantActive \<Longrightarrow> f g = g"
  shows "one_active_grant (map f gs)"
  unfolding one_active_grant_def
proof (intro ballI impI)
  fix x y assume "x \<in> set (map f gs)" "y \<in> set (map f gs)"
    and st: "sg_status x = GrantActive" "sg_status y = GrantActive" "sg_owner x = sg_owner y" "sg_goal x = sg_goal y"
  then obtain a b where ab: "a \<in> set gs" "b \<in> set gs" and xy: "x = f a" "y = f b" by auto
  have "f a = a" by (rule same) (use st xy in simp)
  moreover have "f b = b" by (rule same) (use st xy in simp)
  ultimately show "x = y" using one_active_grantD [OF assms(1) ab] st xy by simp
qed

lemma supersede_grants_ok:
  assumes "spend_ok s"
  shows "spend_ok (supersede_grants owner gid s)"
proof -
  note ok = spend_okD [OF assms]
  obtain f where f: "f = (\<lambda>g. if active_grant owner gid g then g\<lparr>sg_status := GrantSuperseded\<rparr> else g)" by simp
  have keep: "sg_id (f g) = sg_id g" "sg_owner (f g) = sg_owner g" "grant_ok es (f g) = grant_ok es g" for g es
    by (simp_all add: f)
  have "f g = g" if "sg_status (f g) = GrantActive" for g using that by (simp add: f split: if_splits)
  then have "one_active_grant (map f (sd_grants s))" by (rule one_active_map [OF ok(4)])
  moreover have "unique_key sg_id (map f (sd_grants s))"
    using ok(1) keep(1) by (simp add: unique_key_def o_def)
  moreover have "\<exists>h\<in>set (map f (sd_grants s)). sg_id h = sg_id g \<and> sg_owner h = sg_owner g"
    if "g \<in> set (sd_grants s)" for g
    using that keep(1,2) [of g] by (intro bexI [of _ "f g"]) simp_all
  moreover have "grant_ok (sd_usage s) g" if "g \<in> set (map f (sd_grants s))" for g
    using that ok(2) keep(3) by auto
  moreover note ok(3)
  ultimately show ?thesis
    unfolding spend_ok_def usage_table_ok_def supersede_grants_map f [symmetric] by metis
qed

lemma insert_grant_ok:
  assumes "insert_grant g s = Inr t" and "spend_ok s" and "ledger_ok [] g" and "within g"
  shows "spend_ok t"
proof -
  note ok = spend_okD [OF assms(2)]
  have t: "t = s\<lparr>sd_grants := sd_grants s @ [g]\<rparr>" and chk: "grant_checks g"
    and new: "\<And>x. x \<in> set (sd_grants s) \<Longrightarrow> sg_id x \<noteq> sg_id g"
    and sole: "\<And>x. x \<in> set (sd_grants s) \<Longrightarrow> \<not> active_grant (sg_owner g) (sg_goal g) x"
    using assms(1) by (auto simp: insert_grant_def list_ex_iff split: if_splits)
  have free: "ue_grant e \<noteq> sg_id g" if "e \<in> set (sd_usage s)" for e
    using that new ok(3) unfolding usage_table_ok_def by metis
  have "ledger_ok (sd_usage s) g"
  proof -
    have "total f (sg_id g) st (sd_usage s) = 0" for f st by (rule total_none) (use free in simp)
    moreover have "total f (sg_id g) st [] = 0" for f st by (simp add: total_def)
    ultimately show ?thesis using assms(3) by (simp add: ledger_ok_def)
  qed
  moreover have "one_active_grant (sd_grants s @ [g])"
    using ok(4) sole unfolding one_active_grant_def active_grant_def by (simp add: ball_Un) metis
  moreover have "unique_key sg_id (sd_grants s @ [g])"
    using ok(1) new by (force simp: unique_key_snoc)
  ultimately show ?thesis
    using ok(2,3) chk assms(4) unfolding t spend_ok_def usage_table_ok_def grant_ok_def by (simp add: ball_Un bex_Un)
qed

lemma authorize_spend_ok:
  assumes "authorize_provider_spend now i owner q s = Inr (t, g, ids)" and "spend_ok s"
  shows "spend_ok t"
proof (cases "find_row (\<lambda>g. sg_owner g = owner \<and> sg_key g = gr_key q) (sd_grants s)")
  case (Some h)
  with assms show ?thesis
    by (auto simp: authorize_provider_spend_def sbind_def split: if_splits sum.splits dest: wake_ok)
next
  case None
  let ?prior = "map_option sg_id (find_row (active_grant owner (gr_goal q)) (sd_grants s))"
  from assms(1) None obtain s1 where s1: "insert_grant (new_grant now i owner q ?prior) (supersede_grants owner (gr_goal q) s) = Inr s1"
    and w: "wake_tasks_blocked_for_provider_spend now owner (gr_goal q) (gr_envelope q) s1 = Inr (t, ids)"
    and q: "\<not> (gr_max_cost q < 0 \<or> gr_max_requests q < 0 \<or> negative (gr_max_prompt q) \<or> negative (gr_max_completion q))"
    by (auto simp: authorize_provider_spend_def sbind_def Let_def split: if_splits sum.splits)
  have "spend_ok s1"
  proof (rule insert_grant_ok [OF s1 supersede_grants_ok [OF assms(2)]])
    show "ledger_ok [] (new_grant now i owner q ?prior)" by (simp add: ledger_ok_def new_grant_def total_def)
    show "within (new_grant now i owner q ?prior)"
      using q by (auto simp: within_def new_grant_def committed_requests_def committed_cost_def committed_prompt_def
          committed_completion_def over_ceiling_def negative_def split: option.splits)
  qed
  with wake_ok [OF w] show ?thesis by simp
qed

section \<open>Histories\<close>

text \<open>
  One committed step of any session: an owner's grant or revocation, a lookup that closes a spent grant, a
  reservation that commits (also one that refuses and closes its grant), a settlement, a release, and
  whatever the rest of the program does to envelopes, goals and tasks.
\<close>

inductive spend_step :: "spend_db \<Rightarrow> spend_db \<Rightarrow> bool" where
  authorize: "authorize_provider_spend now i owner q s = Inr (t, g, ids) \<Longrightarrow> spend_step s t"
| revoke: "revoke_provider_spend owner aid reason at s = Inr (t, g) \<Longrightarrow> spend_step s t"
| look: "provider_spend_is_live now owner gid eid s = (t, b) \<Longrightarrow> spend_step s t"
| reserve: "reserve_provider_spend_call now i (\<lambda>x. x) owner q s = (r, t) \<Longrightarrow> spend_step s t"
| lose_race: "spend_step s u \<Longrightarrow> reserve_locked now i owner q u = (r, t) \<Longrightarrow> spend_step s t"
| settle: "settle_provider_spend_call now owner ref p c m ev s = Inr (t, e) \<Longrightarrow> spend_step s t"
| release: "release_provider_spend_call now owner ref ev s = Inr (t, e) \<Longrightarrow> spend_step s t"
| reconcile: "reconcile_provider_spend_parks_for_active_grants now n s = Inr (t, ids) \<Longrightarrow> spend_step s t"
| elsewhere: "spend_step s (s\<lparr>sd_authority := a\<rparr>)"

definition no_spending :: "authority \<Rightarrow> spend_db" where
  "no_spending a = \<lparr>sd_grants = [], sd_usage = [], sd_authority = a\<rparr>"

lemma reserve_ok:
  assumes "reserve_provider_spend_call now i (\<lambda>x. x) owner q s = (r, t)" and "spend_ok s"
  shows "spend_ok t"
  using assms by (auto simp: reserve_provider_spend_call_def split: option.splits if_splits intro: reserve_locked_ok)

lemma live_ok:
  assumes "provider_spend_is_live now owner gid eid s = (t, b)" and "spend_ok s"
  shows "spend_ok t"
proof -
  obtain s1 o1 where "get_current_provider_spend_authorization now owner gid s = (s1, o1)"
    by (cases "get_current_provider_spend_authorization now owner gid s")
  with assms current_grant_ok [OF this assms(2)] show ?thesis
    by (auto simp: provider_spend_is_live_def split: option.splits)
qed

lemma spend_step_ok: "spend_step s t \<Longrightarrow> spend_ok s \<Longrightarrow> spend_ok t"
proof (induction rule: spend_step.induct)
  case (authorize now i owner q s t g ids) then show ?case by (rule authorize_spend_ok)
next
  case (revoke owner aid reason at s t g) then show ?case by (rule revoke_ok)
next
  case (look now owner gid eid s t b) then show ?case by (rule live_ok)
next
  case (reserve now i owner q s r t) then show ?case by (rule reserve_ok)
next
  case (lose_race s u now i owner q r t) then show ?case using reserve_locked_ok by blast
next
  case (settle now owner ref p c m ev s t e) then show ?case by (rule settle_call_ok)
next
  case (release now owner ref ev s t e) then show ?case by (rule release_call_ok)
next
  case (reconcile now n s t ids)
  then show ?case by (auto simp: reconcile_provider_spend_parks_for_active_grants_def dest: wake_for_grants_ok)
next
  case (elsewhere s a) then show ?case by (simp add: spend_ok_def usage_table_ok_def)
qed

lemma reachable_spend_ok:
  assumes "spend_step\<^sup>*\<^sup>* (no_spending a) s"
  shows "spend_ok s"
  using assms
proof (induction rule: rtranclp_induct)
  case base
  show ?case by (simp add: no_spending_def spend_ok_def usage_table_ok_def one_active_grant_def unique_key_def)
next
  case (step t u)
  then show ?case using spend_step_ok by blast
qed

section \<open>What later steps keep\<close>

definition terms_of :: "spend_grant \<Rightarrow> uuid \<times> uuid \<times> uuid \<times> int \<times> int \<times> int option \<times> int option \<times> int option" where
  "terms_of g = (sg_owner g, sg_goal g, sg_envelope g, sg_max_cost g, sg_max_requests g, sg_max_prompt g,
     sg_max_completion g, sg_max_per_request g)"

text \<open>Grants keep their terms and never come back to life; a used reference stays used.\<close>

definition carries :: "spend_grant \<Rightarrow> spend_grant \<Rightarrow> bool" where
  "carries h g \<longleftrightarrow> sg_id h = sg_id g \<and> terms_of h = terms_of g \<and> (sg_status h = GrantActive \<longrightarrow> sg_status g = GrantActive)"

definition carried :: "spend_db \<Rightarrow> spend_db \<Rightarrow> bool" where
  "carried s t \<longleftrightarrow>
     (\<forall>g\<in>set (sd_grants s). \<exists>h\<in>set (sd_grants t). carries h g) \<and>
     (\<lambda>e. (ue_owner e, ue_ref e)) ` set (sd_usage s) \<subseteq> (\<lambda>e. (ue_owner e, ue_ref e)) ` set (sd_usage t)"

lemma carries_refl [simp]: "carries g g"
  by (simp add: carries_def)

lemma carries_trans: "carries k h \<Longrightarrow> carries h g \<Longrightarrow> carries k g"
  by (simp add: carries_def)

lemma carries_status: "(st = GrantActive \<longrightarrow> sg_status g = GrantActive) \<Longrightarrow> carries (g\<lparr>sg_status := st\<rparr>) g"
  by (simp add: carries_def terms_of_def)

lemma carries_mark: "carries (mark_terminal_if_needed now g) g"
  using mark_terminal_status [of now g] carries_status by metis

lemma self_carried: "\<forall>g\<in>set gs. \<exists>h\<in>set gs. carries h g"
  by (blast intro: carries_refl)

lemma carried_refl [simp]: "carried s s"
  unfolding carried_def by (blast intro: carries_refl)

lemma carried_trans: "carried s t \<Longrightarrow> carried t u \<Longrightarrow> carried s u"
  unfolding carried_def by (meson carries_trans subset_trans)

lemma carried_put_grant:
  assumes "unique_key sg_id (sd_grants s)" and "g \<in> set (sd_grants s)" and "carries g1 g"
  shows "carried s (put_grant g1 s)"
  unfolding carried_def
proof (intro conjI ballI)
  fix x assume x: "x \<in> set (sd_grants s)"
  show "\<exists>h\<in>set (sd_grants (put_grant g1 s)). carries h x"
  proof (cases "sg_id x = sg_id g1")
    case True
    then have "x = g" using x assms unique_key_eqD [OF assms(1)] by (simp add: carries_def)
    moreover have "g1 \<in> set (sd_grants (put_grant g1 s))"
      using x True by (auto simp: put_grant_def in_update_rows_iff)
    ultimately show ?thesis using assms(3) by blast
  next
    case False
    with x have "x \<in> set (sd_grants (put_grant g1 s))"
      by (auto simp: put_grant_def in_update_rows_iff intro!: bexI [of _ x])
    then show ?thesis using carries_refl by blast
  qed
qed simp

lemma put_usage_keys:
  assumes "usage_table_ok s" and "e \<in> set (sd_usage s)"
    and "ue_id e1 = ue_id e" "ue_owner e1 = ue_owner e" "ue_ref e1 = ue_ref e"
  shows "map (\<lambda>e. (ue_owner e, ue_ref e)) (sd_usage (put_usage e1 s)) = map (\<lambda>e. (ue_owner e, ue_ref e)) (sd_usage s)"
  using usage_keyD [OF assms(1,2)] assms(3-5) by (auto simp: put_usage_def update_rows_def)

lemma carried_put_usage:
  assumes "usage_table_ok s" and "e \<in> set (sd_usage s)"
    and "ue_id e1 = ue_id e" "ue_owner e1 = ue_owner e" "ue_ref e1 = ue_ref e"
  shows "carried s (put_usage e1 s)"
  using put_usage_keys [OF assms, THEN arg_cong [where f = set]] self_carried [of "sd_grants s"]
  by (simp add: carried_def flip: set_map)

lemma carried_rows:
  assumes "sd_grants t = sd_grants s" and "set (sd_usage s) \<subseteq> set (sd_usage t)"
  shows "carried s t"
  using image_mono [OF assms(2), of "\<lambda>e. (ue_owner e, ue_ref e)"] self_carried [of "sd_grants s"] assms(1)
  by (simp add: carried_def)

lemma carried_base [simp]: "carried s (set_base d s)" "carried s (s\<lparr>sd_authority := a\<rparr>)"
  by (simp_all add: carried_rows set_base_def)

lemma carried_current:
  assumes "get_current_provider_spend_authorization now owner gid s = (t, r)" and "spend_ok s"
  shows "carried s t"
proof (cases "find_row (active_grant owner gid) (sd_grants s)")
  case (Some g)
  have "carried s (put_grant (mark_terminal_if_needed now g) s)"
    by (rule carried_put_grant [OF spend_okD(1) [OF assms(2)] _ carries_mark]) (use find_grantD [OF Some] in simp)
  with assms(1) Some show ?thesis
    by (auto simp: get_current_provider_spend_authorization_def Let_def split: if_splits)
qed (use assms(1) in \<open>simp add: get_current_provider_spend_authorization_def\<close>)

lemma carries_hold: "carries (hold_on now p c m g) g"
proof -
  have "carries (g\<lparr>sg_reserved_requests := a, sg_reserved_prompt := b, sg_reserved_completion := d, sg_reserved_cost := e\<rparr>) g"
    for a b d e by (simp add: carries_def terms_of_def)
  then show ?thesis unfolding hold_on_def by (rule carries_trans [OF carries_mark])
qed

lemma carried_insert_reservation:
  assumes "insert_reservation now e g s = (r, t)" and "spend_ok s" and "g \<in> set (sd_grants s)"
  shows "carried s t"
proof (cases "t = s")
  case False
  let ?s = "s\<lparr>sd_usage := sd_usage s @ [e]\<rparr>"
  from assms(1) False have "t = put_grant (hold_on now (ue_reserved_prompt e) (ue_reserved_completion e)
      (ue_reserved_cost e) g) ?s"
    by (auto simp: insert_reservation_def Let_def split: if_splits option.splits)
  moreover have "carried s ?s" by (rule carried_rows) auto
  ultimately show ?thesis
    using carried_put_grant [of ?s g] spend_okD(1) [OF assms(2)] assms(3) carries_hold carried_trans by auto
qed simp

lemma carried_reserve_locked:
  assumes "reserve_locked now i owner q s = (r, t)" and "spend_ok s"
  shows "carried s t"
  using assms(1)
proof (cases rule: reserve_locked_cases)
  case (refused u o1)
  with carried_current [OF refused(1) assms(2)] show ?thesis by simp
next
  case (closed g why)
  with current_grant_Some [OF closed(1)] show ?thesis
    by (auto intro!: carried_put_grant [OF spend_okD(1) [OF assms(2)]] carries_status)
next
  case (inserted g p c m)
  with current_grant_Some [OF inserted(1)] show ?thesis
    by (intro carried_insert_reservation [OF inserted(6) assms(2)]) simp
qed

lemma carried_move:
  assumes "spend_ok s" and "e \<in> set (sd_usage s)" and "g \<in> set (sd_grants s)"
    and "ue_id e1 = ue_id e" "ue_owner e1 = ue_owner e" "ue_ref e1 = ue_ref e" and "carries g1 g"
  shows "carried s (put_grant g1 (put_usage e1 s))"
  using carried_put_usage [OF spend_okD(3) [OF assms(1)] assms(2,4-6)]
    carried_put_grant [of "put_usage e1 s" g g1] spend_okD(1) [OF assms(1)] assms(3,7) carried_trans by auto

lemma carries_money:
  "carries (give_back e g) g" "carries (spend_on p c m (give_back e g)) g"
  by (simp_all add: carries_def terms_of_def give_back_def spend_on_def)

lemma carried_settle_usage:
  assumes "settle_provider_spend_usage now owner ref p c m ev s = Inr t" and "spend_ok s"
  shows "carried s t"
  using assms(1) by (auto simp: settle_provider_spend_usage_def Let_def split: if_splits option.splits
      dest!: find_usageD event_grant intro!: carried_move [OF assms(2)] carries_money)

lemma carried_release_usage:
  assumes "release_provider_spend_usage now owner ref ev s = Inr t" and "spend_ok s"
  shows "carried s t"
  using assms(1) spend_okD(3) [OF assms(2)]
  by (auto simp: release_provider_spend_usage_def Let_def split: if_splits option.splits
      dest!: find_usageD event_grant intro!: carried_move [OF assms(2)] carries_money carried_put_usage)

lemma carried_settle_call:
  assumes "settle_provider_spend_call now owner ref p c m ev s = Inr (t, e)" and "spend_ok s"
  shows "carried s t"
proof -
  obtain s1 where s1: "settle_provider_spend_usage now owner ref p c m ev s = Inr s1"
    using assms(1) by (auto simp: settle_provider_spend_call_def sbind_def split: sum.splits)
  note ok = spend_okD(1) [OF settle_usage_ok [OF s1 assms(2)]]
  have "carried s1 t" using assms(1) s1
    by (auto simp: settle_provider_spend_call_def split: option.splits dest!: find_row_SomeD
        intro: carried_put_grant [OF ok _ carries_mark])
  with carried_settle_usage [OF s1 assms(2)] show ?thesis by (rule carried_trans)
qed

lemma carried_release_call:
  assumes "release_provider_spend_call now owner ref ev s = Inr (t, e)" and "spend_ok s"
  shows "carried s t"
  using assms by (auto simp: release_provider_spend_call_def sbind_def split: sum.splits option.splits
      intro: carried_release_usage)

lemma carried_revoke:
  assumes "revoke_provider_spend owner aid reason at s = Inr (t, g)" and "spend_ok s"
  shows "carried s t"
  using assms(1) by (auto simp: revoke_provider_spend_def Let_def carries_def terms_of_def
      split: option.splits if_splits dest!: find_row_SomeD intro!: carried_put_grant [OF spend_okD(1) [OF assms(2)]])

lemma carried_wake:
  "wake_tasks_blocked_for_provider_spend now owner gid eid s = Inr (t, ids) \<Longrightarrow> carried s t"
  by (auto simp: wake_tasks_blocked_for_provider_spend_def split: option.splits if_splits sum.splits)

lemma carried_wakes:
  "wake_for_grants now gs s = Inr (t, ids) \<Longrightarrow> carried s t"
proof (induction gs arbitrary: s t ids)
  case (Cons g gs)
  show ?case
  proof (cases "expired now g")
    case True
    with Cons show ?thesis by simp
  next
    case False
    with Cons.prems obtain u a b where "wake_tasks_blocked_for_provider_spend now (sg_owner g) (sg_goal g) (sg_envelope g) s = Inr (u, a)"
      and "wake_for_grants now gs u = Inr (t, b)" by (auto simp: sbind_def split: sum.splits)
    with carried_wake Cons.IH show ?thesis by (blast intro: carried_trans)
  qed
qed simp

lemma carried_supersede: "carried s (supersede_grants owner gid s)"
proof -
  obtain f where f: "f = (\<lambda>g. if active_grant owner gid g then g\<lparr>sg_status := GrantSuperseded\<rparr> else g)" by simp
  have "carries (f g) g" for g by (simp add: f carries_status)
  then show ?thesis unfolding carried_def supersede_grants_map f [symmetric] by auto
qed

lemma carried_insert_grant: "insert_grant g s = Inr t \<Longrightarrow> carried s t"
  using self_carried by (auto simp: insert_grant_def carried_def split: if_splits)

lemma carried_authorize:
  assumes "authorize_provider_spend now i owner q s = Inr (t, g, ids)"
  shows "carried s t"
proof (cases "find_row (\<lambda>g. sg_owner g = owner \<and> sg_key g = gr_key q) (sd_grants s)")
  case (Some h)
  with assms show ?thesis
    by (auto simp: authorize_provider_spend_def sbind_def split: if_splits sum.splits dest: carried_wake)
next
  case None
  with assms obtain h s1 where ins: "insert_grant h (supersede_grants owner (gr_goal q) s) = Inr s1"
    and w: "wake_tasks_blocked_for_provider_spend now owner (gr_goal q) (gr_envelope q) s1 = Inr (t, ids)"
    by (auto simp: authorize_provider_spend_def sbind_def Let_def split: if_splits sum.splits)
  show ?thesis by (rule carried_trans [OF carried_trans [OF carried_supersede carried_insert_grant [OF ins]] carried_wake [OF w]])
qed

lemma carried_live:
  assumes "provider_spend_is_live now owner gid eid s = (t, b)" and "spend_ok s"
  shows "carried s t"
proof -
  obtain s1 o1 where "get_current_provider_spend_authorization now owner gid s = (s1, o1)"
    by (cases "get_current_provider_spend_authorization now owner gid s")
  with assms carried_current [OF this assms(2)] show ?thesis
    by (auto simp: provider_spend_is_live_def split: option.splits)
qed

lemma carried_reserve:
  assumes "reserve_provider_spend_call now i (\<lambda>x. x) owner q s = (r, t)" and "spend_ok s"
  shows "carried s t"
  using assms by (auto simp: reserve_provider_spend_call_def split: option.splits if_splits intro: carried_reserve_locked)

lemma carried_step: "spend_step s t \<Longrightarrow> spend_ok s \<Longrightarrow> carried s t"
proof (induction rule: spend_step.induct)
  case (authorize now i owner q s t g ids) then show ?case by (auto dest: carried_authorize)
next
  case (revoke owner aid reason at s t g) then show ?case by (rule carried_revoke)
next
  case (look now owner gid eid s t b) then show ?case by (rule carried_live)
next
  case (reserve now i owner q s r t) then show ?case by (rule carried_reserve)
next
  case (lose_race s u now i owner q r t)
  then show ?case using carried_reserve_locked spend_step_ok carried_trans by blast
next
  case (settle now owner ref p c m ev s t e) then show ?case by (rule carried_settle_call)
next
  case (release now owner ref ev s t e) then show ?case by (rule carried_release_call)
next
  case (reconcile now n s t ids)
  then show ?case by (auto simp: reconcile_provider_spend_parks_for_active_grants_def intro: carried_wakes)
next
  case (elsewhere s a) then show ?case by simp
qed

lemma carried_steps:
  assumes "spend_step\<^sup>*\<^sup>* s t" and "spend_ok s"
  shows "carried s t \<and> spend_ok t"
  using assms(1)
proof (induction rule: rtranclp_induct)
  case base
  show ?case using assms(2) by simp
next
  case (step t u)
  then show ?case using carried_step spend_step_ok carried_trans by blast
qed

section \<open>Properties\<close>

lemma calls_counted:
  "total (\<lambda>_. 1) gid UsageSettled es + total (\<lambda>_. 1) gid UsageReserved es =
     int (length (filter (\<lambda>e. ue_grant e = gid \<and> ue_status e \<noteq> UsageReleased) es))"
proof (induction es)
  case (Cons e es)
  then show ?case by (cases "ue_status e") (simp_all add: total_def)
qed (simp add: total_def)

text \<open>C18: In every reachable history, what a grant's settled calls cost together with what its open calls hold
  never passes its ceilings, in money, calls and tokens, and no settled call cost more than it held.\<close>

theorem budget_never_exceeded:
  assumes "spend_step\<^sup>*\<^sup>* (no_spending a) s" and "g \<in> set (sd_grants s)"
  shows "total ue_cost (sg_id g) UsageSettled (sd_usage s) + total ue_reserved_cost (sg_id g) UsageReserved (sd_usage s)
      \<le> sg_max_cost g \<and>
    int (length (filter (\<lambda>e. ue_grant e = sg_id g \<and> ue_status e \<noteq> UsageReleased) (sd_usage s))) \<le> sg_max_requests g \<and>
    (\<forall>m\<in>set_option (sg_max_prompt g). total ue_prompt (sg_id g) UsageSettled (sd_usage s) +
      total ue_reserved_prompt (sg_id g) UsageReserved (sd_usage s) \<le> m) \<and>
    (\<forall>m\<in>set_option (sg_max_completion g). total ue_completion (sg_id g) UsageSettled (sd_usage s) +
      total ue_reserved_completion (sg_id g) UsageReserved (sd_usage s) \<le> m) \<and>
    (\<forall>e\<in>set (sd_usage s). ue_status e = UsageSettled \<longrightarrow> ue_cost e \<le> ue_reserved_cost e)"
proof (intro conjI)
  note ok = spend_okD [OF reachable_spend_ok [OF assms(1)]]
  have led: "ledger_ok (sd_usage s) g" and wi: "within g" using ok(2) [OF assms(2)] by (simp_all add: grant_ok_def)
  note w = wi [unfolded within_def committed_requests_def committed_cost_def committed_prompt_def
      committed_completion_def over_ceiling_def] and l = led [unfolded ledger_ok_def]
  show "total ue_cost (sg_id g) UsageSettled (sd_usage s) + total ue_reserved_cost (sg_id g) UsageReserved (sd_usage s)
      \<le> sg_max_cost g" using w l by simp
  show "int (length (filter (\<lambda>e. ue_grant e = sg_id g \<and> ue_status e \<noteq> UsageReleased) (sd_usage s))) \<le> sg_max_requests g"
    using w l by (simp flip: calls_counted)
  show "\<forall>m\<in>set_option (sg_max_prompt g). total ue_prompt (sg_id g) UsageSettled (sd_usage s) +
      total ue_reserved_prompt (sg_id g) UsageReserved (sd_usage s) \<le> m" using w l by auto
  show "\<forall>m\<in>set_option (sg_max_completion g). total ue_completion (sg_id g) UsageSettled (sd_usage s) +
      total ue_reserved_completion (sg_id g) UsageReserved (sd_usage s) \<le> m" using w l by auto
  show "\<forall>e\<in>set (sd_usage s). ue_status e = UsageSettled \<longrightarrow> ue_cost e \<le> ue_reserved_cost e"
    using ok(3) by (auto simp: usage_table_ok_def usage_ok_def)
qed

text \<open>C19: A call may be made only on a new reservation. That needs a live grant of the same owner and goal: active,
  unexpired, resting on the current envelope, allowing the provider and model, with room for the whole hold.
  Whatever happens later, the same reference never gets a second new reservation.\<close>

theorem one_call_per_reference:
  assumes "spend_step\<^sup>*\<^sup>* (no_spending a) s"
    and "reserve_provider_spend_call now i (\<lambda>x. x) owner q s = (Inr (e, True), t)"
    and "spend_step\<^sup>*\<^sup>* t u" and "cr_ref q' = cr_ref q"
    and "reserve_provider_spend_call now' i' (\<lambda>x. x) owner q' u = (r, v)"
  shows "(\<exists>g\<in>set (sd_grants s). ue_grant e = sg_id g \<and> active_grant owner (cr_goal q) g \<and> \<not> expired now g \<and>
      current_envelope_is owner (cr_goal q) (sg_envelope g) s \<and> provider_allowed g (cr_provider q) (cr_model q) \<and>
      committed_requests g < sg_max_requests g \<and> committed_cost g + ue_reserved_cost e \<le> sg_max_cost g) \<and>
    e \<in> set (sd_usage t) \<and> v = u \<and> r \<noteq> Inr (e', True)"
proof (intro conjI)
  have ok: "spend_ok s" by (rule reachable_spend_ok [OF assms(1)])
  from assms(2) have "reserve_locked now i owner q s = (Inr (e, True), t)"
    by (auto simp: reserve_provider_spend_call_def split: option.splits if_splits)
  then obtain g p c m where cur: "get_current_provider_spend_authorization now owner (cr_goal q) s = (s, Some g)"
    and al: "provider_allowed g (cr_provider q) (cr_model q)" "committed_requests g + 1 \<le> sg_max_requests g"
    and room: "reservation_refused g p c m = None"
    and ins: "insert_reservation now (reserved_event now i owner g q p c m) g s = (Inr (e, True), t)"
    by (auto elim: reserve_locked_cases)
  have e: "e = reserved_event now i owner g q p c m" and mem: "e \<in> set (sd_usage t)"
    using ins by (auto simp: insert_reservation_def Let_def split: if_splits option.splits)
  then show "e \<in> set (sd_usage t)" by simp
  show "\<exists>g\<in>set (sd_grants s). ue_grant e = sg_id g \<and> active_grant owner (cr_goal q) g \<and> \<not> expired now g \<and>
      current_envelope_is owner (cr_goal q) (sg_envelope g) s \<and> provider_allowed g (cr_provider q) (cr_model q) \<and>
      committed_requests g < sg_max_requests g \<and> committed_cost g + ue_reserved_cost e \<le> sg_max_cost g"
    using current_grant_Some [OF cur] al room
    by (intro bexI [of _ g]) (auto simp: e reserved_event_def active_grant_def reservation_refused_def split: if_splits)
  have "spend_step s t" by (rule spend_step.reserve [OF assms(2)])
  then have "carried t u" using carried_steps [OF assms(3)] spend_step_ok ok by blast
  with mem have "(ue_owner e, ue_ref e) \<in> (\<lambda>e. (ue_owner e, ue_ref e)) ` set (sd_usage u)" by (auto simp: carried_def)
  then have "find_row (keyed_usage owner (cr_ref q')) (sd_usage u) \<noteq> None"
    using assms(4) by (auto simp: find_row_None_iff keyed_usage_def e reserved_event_def)
  with assms(5) show "v = u" "r \<noteq> Inr (e', True)"
    by (auto simp: reserve_provider_spend_call_def split: option.splits if_splits)
qed

text \<open>A call refused only because other calls hold the last requests of a live grant ends the grant for good:
  not even releasing every hold brings it back.\<close>

theorem held_budget_closes_grant:
  assumes "spend_step\<^sup>*\<^sup>* (no_spending a) s"
    and "get_current_provider_spend_authorization now owner (cr_goal q) s = (s, Some g)"
    and "committed_requests g = sg_max_requests g" and "provider_allowed g (cr_provider q) (cr_model q)"
    and "find_row (keyed_usage owner (cr_ref q)) (sd_usage s) = None"
    and "reserve_provider_spend_call now i (\<lambda>x. x) owner q s = (r, t)" and "spend_step\<^sup>*\<^sup>* t u"
  shows "0 < sg_reserved_requests g \<and> r = Inl (SpendRefused ''request ceiling exhausted'') \<and>
    (\<exists>h\<in>set (sd_grants u). carries h g \<and> sg_status h \<noteq> GrantActive) \<and>
    (\<forall>now' gid w h. get_current_provider_spend_authorization now' owner gid u = (w, Some h) \<longrightarrow> sg_id h \<noteq> sg_id g)"
proof (intro conjI allI impI)
  note live = current_grant_Some [OF assms(2)]
  have ok: "spend_ok s" by (rule reachable_spend_ok [OF assms(1)])
  show "0 < sg_reserved_requests g" using live assms(3) by (simp add: committed_requests_def)
  let ?g = "g\<lparr>sg_status := GrantExhausted\<rparr>"
  have rt: "r = Inl (SpendRefused ''request ceiling exhausted'')" "t = put_grant ?g s"
    using assms by (simp_all add: reserve_provider_spend_call_def reserve_locked_def)
  show "r = Inl (SpendRefused ''request ceiling exhausted'')" by (rule rt(1))
  have "spend_step s t" by (rule spend_step.reserve [OF assms(6)])
  then have tu: "carried t u" "spend_ok u" using carried_steps [OF assms(7)] spend_step_ok ok by blast+
  have "?g \<in> set (sd_grants t)" using live unfolding rt(2) by (auto simp: put_grant_def in_update_rows_iff)
  with tu(1) obtain h' where h': "h' \<in> set (sd_grants u)" "carries h' ?g" by (auto simp: carried_def)
  then have dead: "sg_id h' = sg_id g" "sg_status h' \<noteq> GrantActive" "carries h' g"
    using live by (auto simp: carries_def terms_of_def)
  with h'(1) show "\<exists>h\<in>set (sd_grants u). carries h g \<and> sg_status h \<noteq> GrantActive" by blast
  show "sg_id h \<noteq> sg_id g" if "get_current_provider_spend_authorization now' owner gid u = (w, Some h)" for now' gid w h
    using current_grant_Some [OF that] spend_okD(5) [OF tu(2), of h h'] h'(1) dead by auto
qed

section \<open>A concrete budget\<close>

definition budget_authority :: authority where
  "budget_authority = \<lparr>au_proposals = [], au_envelopes = [new_envelope 4 60 (new_proposal 3 50 7 ''p'' sample_scope) sample_grant None],
     au_base = dead_sample_db\<lparr>envelopes := [(7, 20)]\<rparr>\<rparr>"

definition sample_budget :: grant_request where
  "sample_budget = \<lparr>gr_goal = 20, gr_envelope = 60, gr_by = ''founder'', gr_max_cost = 5000, gr_max_requests = 1,
     gr_max_prompt = None, gr_max_completion = None, gr_max_per_request = None, gr_providers = None, gr_models = None,
     gr_expires = None, gr_key = ''b'', gr_provenance = []\<rparr>"

definition sample_call :: "string \<Rightarrow> call_request" where
  "sample_call ref = \<lparr>cr_goal = 20, cr_ref = ref, cr_provider = ''openai'', cr_model = ''gpt-4o-mini'', cr_task = None,
     cr_job = None, cr_evidence = []\<rparr>"

definition sample_spend_grant :: spend_grant where
  "sample_spend_grant = new_grant 5 70 7 sample_budget None"

definition granted_sample :: spend_db where
  "granted_sample = (no_spending budget_authority)\<lparr>sd_grants := [sample_spend_grant]\<rparr>"

lemma sample_envelope_current [simp]:
  "sd_authority s = budget_authority \<Longrightarrow> current_envelope_is 7 20 60 s"
  by (simp add: current_envelope_is_def get_current_execution_envelope_def scalar_one_or_none_def budget_authority_def
      new_envelope_def new_proposal_def sample_scope_def sample_grant_def active_envelope_def)

lemma authorize_budget_sample:
  "authorize_provider_spend 5 70 7 sample_budget (no_spending budget_authority) = Inr (granted_sample, sample_spend_grant, [])"
proof -
  have "goal_exists 7 20 (base (no_spending budget_authority))"
    by (simp add: base_def no_spending_def budget_authority_def)
  moreover have "current_envelope_is 7 20 60 (no_spending budget_authority)" by (simp add: no_spending_def)
  moreover have "supersede_grants 7 20 (no_spending budget_authority) = no_spending budget_authority"
    by (simp add: supersede_grants_def no_spending_def)
  moreover have "insert_grant sample_spend_grant (no_spending budget_authority) = Inr granted_sample"
    by (simp add: insert_grant_def grant_checks_def sample_spend_grant_def new_grant_def sample_budget_def no_spending_def
        granted_sample_def norm_list_def nonneg_def)
  moreover have "wake_spend_parks 5 70 60 7 20 (base granted_sample) = Inr (base granted_sample, [])"
    by (simp add: base_def granted_sample_def no_spending_def budget_authority_def wake_spend_parks_def
        dead_sample_db_def sample_task_def empty_db_def terminal_task_statuses_def blocked_tasks_of_goal_def)
  moreover have "set_base (base granted_sample) granted_sample = granted_sample" by (simp add: set_base_def base_def)
  ultimately show ?thesis
    by (simp add: authorize_provider_spend_def sample_budget_def negative_def Let_def no_spending_def
        wake_tasks_blocked_for_provider_spend_def granted_sample_def active_grant_def sample_spend_grant_def
        new_grant_def expired_def)
qed

definition held_grant :: spend_grant where
  "held_grant = sample_spend_grant\<lparr>sg_reserved_requests := 1, sg_reserved_prompt := 8000, sg_reserved_completion := 4000,
     sg_reserved_cost := 3600\<rparr>"

definition held_event :: usage_event where
  "held_event = reserved_event 6 80 7 sample_spend_grant (sample_call ''r1'') 8000 4000 3600"

definition held_sample :: spend_db where
  "held_sample = granted_sample\<lparr>sd_grants := [held_grant], sd_usage := [held_event]\<rparr>"

lemma sample_live:
  "active_grant 7 20 sample_spend_grant" "mark_terminal_if_needed now sample_spend_grant = sample_spend_grant"
  "sg_envelope sample_spend_grant = 60" "sg_status sample_spend_grant = GrantActive"
  by (simp_all add: active_grant_def sample_spend_grant_def new_grant_def sample_budget_def mark_terminal_if_needed_def
      expired_def at_ceiling_def)

lemma held_live:
  "active_grant 7 20 held_grant" "mark_terminal_if_needed now held_grant = held_grant"
  "sg_envelope held_grant = 60" "sg_status held_grant = GrantActive"
  by (simp_all add: held_grant_def active_grant_def sample_spend_grant_def new_grant_def sample_budget_def
      mark_terminal_if_needed_def expired_def at_ceiling_def)

lemma sample_current:
  assumes "sd_authority s = budget_authority" and "sd_grants s = [g]"
    and "active_grant 7 20 g" "mark_terminal_if_needed now g = g" "sg_envelope g = 60" "sg_status g = GrantActive"
  shows "get_current_provider_spend_authorization now 7 20 s = (s, Some g)"
  using assms by (simp add: get_current_provider_spend_authorization_def)

lemma granted_sample_rows [simp]:
  "sd_authority granted_sample = budget_authority" "sd_grants granted_sample = [sample_spend_grant]"
  "sd_usage granted_sample = []" "sd_authority held_sample = budget_authority" "sd_grants held_sample = [held_grant]"
  "sd_usage held_sample = [held_event]"
  by (simp_all add: granted_sample_def held_sample_def no_spending_def)

lemma reserve_sample:
  "reserve_provider_spend_call 6 80 (\<lambda>x. x) 7 (sample_call ''r1'') granted_sample = (Inr (held_event, True), held_sample)"
proof -
  have cur: "get_current_provider_spend_authorization 6 7 20 granted_sample = (granted_sample, Some sample_spend_grant)"
    by (rule sample_current) (simp_all add: sample_live held_live)
  have hold: "bound_reservation sample_spend_grant ''openai'' ''gpt-4o-mini'' = Inr (8000, 4000, 3600)"
    by (simp add: bound_reservation_def token_hold_def sample_spend_grant_def new_grant_def sample_budget_def
        default_reserve_prompt_tokens_def default_reserve_completion_tokens_def estimate_cost_def
        pricing_per_1k_tokens_def round_thousandth_def committed_cost_def Let_def)
  have room: "reservation_refused sample_spend_grant 8000 4000 3600 = None" "committed_requests sample_spend_grant = 0"
    "sg_max_requests sample_spend_grant = 1" "provider_allowed sample_spend_grant ''openai'' ''gpt-4o-mini''"
    by (simp_all add: reservation_refused_def sample_spend_grant_def new_grant_def sample_budget_def committed_cost_def
        committed_requests_def over_ceiling_def provider_allowed_def norm_list_def)
  have on: "hold_on 6 8000 4000 3600 sample_spend_grant = held_grant"
    by (simp add: hold_on_def mark_terminal_if_needed_def expired_def at_ceiling_def held_grant_def sample_spend_grant_def
        new_grant_def sample_budget_def)
  have "grant_checks held_grant" "sg_id held_grant = sg_id sample_spend_grant"
    by (simp_all add: grant_checks_def held_grant_def sample_spend_grant_def new_grant_def sample_budget_def nonneg_def)
  moreover have "usage_checks held_event"
    by (simp add: usage_checks_def held_event_def reserved_event_def sample_call_def)
  ultimately have ins: "insert_reservation 6 held_event sample_spend_grant granted_sample = (Inr (held_event, True), held_sample)"
    using on by (simp add: insert_reservation_def held_event_def reserved_event_def put_grant_def held_sample_def
        granted_sample_def no_spending_def Let_def sample_call_def)
  show ?thesis
    using cur hold room ins
    by (simp add: reserve_provider_spend_call_def reserve_locked_def sample_call_def held_event_def)
qed

lemma held_sample_reached:
  "spend_step\<^sup>*\<^sup>* (no_spending budget_authority) granted_sample" "spend_step\<^sup>*\<^sup>* (no_spending budget_authority) held_sample"
proof -
  have "spend_step (no_spending budget_authority) granted_sample" using authorize_budget_sample by (rule spend_step.authorize)
  moreover have "spend_step granted_sample held_sample" using reserve_sample by (rule spend_step.reserve)
  ultimately show "spend_step\<^sup>*\<^sup>* (no_spending budget_authority) granted_sample"
    "spend_step\<^sup>*\<^sup>* (no_spending budget_authority) held_sample" by auto
qed

theorem budget_never_exceeded_witness:
  "total ue_cost 70 UsageSettled (sd_usage held_sample) + total ue_reserved_cost 70 UsageReserved (sd_usage held_sample) \<le> 5000 \<and>
     total ue_reserved_cost 70 UsageReserved (sd_usage held_sample) = 3600"
  using budget_never_exceeded [OF held_sample_reached(2), of held_grant, THEN conjunct1]
  by (simp add: held_grant_def sample_spend_grant_def new_grant_def sample_budget_def total_def held_event_def reserved_event_def)

theorem one_call_per_reference_witness:
  "\<exists>e t. reserve_provider_spend_call 6 80 (\<lambda>x. x) 7 (sample_call ''r1'') granted_sample = (Inr (e, True), t) \<and>
     e \<in> set (sd_usage t) \<and> snd (reserve_provider_spend_call 8 81 (\<lambda>x. x) 7 (sample_call ''r1'') t) = t"
proof -
  obtain r v where again: "reserve_provider_spend_call 8 81 (\<lambda>x. x) 7 (sample_call ''r1'') held_sample = (r, v)"
    by (cases "reserve_provider_spend_call 8 81 (\<lambda>x. x) 7 (sample_call ''r1'') held_sample")
  note one = one_call_per_reference [OF held_sample_reached(1) reserve_sample rtranclp.rtrancl_refl refl again]
  from one reserve_sample again show ?thesis by (intro exI [of _ held_event] exI [of _ held_sample]) simp
qed

text \<open>The only call is released unused; the grant that was closed meanwhile stays closed, with nothing spent or held.\<close>

theorem held_budget_closes_grant_witness:
  "\<exists>t u e. reserve_provider_spend_call 7 81 (\<lambda>x. x) 7 (sample_call ''r2'') held_sample =
       (Inl (SpendRefused ''request ceiling exhausted''), t) \<and>
     release_provider_spend_call 8 7 ''r1'' [] t = Inr (u, e) \<and>
     map committed_requests (sd_grants u) = [0] \<and> map sg_max_requests (sd_grants u) = [1] \<and>
     (\<exists>h\<in>set (sd_grants u). sg_status h \<noteq> GrantActive)"
proof -
  let ?t = "put_grant (held_grant\<lparr>sg_status := GrantExhausted\<rparr>) held_sample"
  have hg: "sg_max_requests held_grant = 1" "committed_requests held_grant = 1"
    "provider_allowed held_grant ''openai'' ''gpt-4o-mini''"
    by (simp_all add: held_grant_def sample_spend_grant_def new_grant_def sample_budget_def committed_requests_def
        provider_allowed_def norm_list_def)
  have cur: "get_current_provider_spend_authorization 7 7 20 held_sample = (held_sample, Some held_grant)"
    by (rule sample_current) (simp_all add: sample_live held_live)
  have call: "cr_goal (sample_call r) = 20" "cr_ref (sample_call r) = r" "cr_provider (sample_call r) = ''openai''"
    "cr_model (sample_call r) = ''gpt-4o-mini''" for r by (simp_all add: sample_call_def)
  have new: "find_row (keyed_usage 7 ''r2'') (sd_usage held_sample) = None"
    by (simp add: keyed_usage_def held_event_def reserved_event_def call)
  have run: "reserve_provider_spend_call 7 81 (\<lambda>x. x) 7 (sample_call ''r2'') held_sample =
       (Inl (SpendRefused ''request ceiling exhausted''), ?t)"
    using new cur hg by (simp add: reserve_provider_spend_call_def reserve_locked_def call)
  have ev: "ue_owner held_event = 7" "ue_ref held_event = ''r1''" "ue_grant held_event = sg_id held_grant"
    "ue_status held_event = UsageReserved" by (simp_all add: held_event_def reserved_event_def call held_grant_def)
  have own: "sg_owner held_grant = 7" by (simp add: held_grant_def sample_spend_grant_def new_grant_def)
  have given: "grant_checks (give_back held_event (held_grant\<lparr>sg_status := GrantExhausted\<rparr>))"
    "committed_requests (give_back held_event (held_grant\<lparr>sg_status := GrantExhausted\<rparr>)) = 0"
    "sg_max_requests (give_back held_event (held_grant\<lparr>sg_status := GrantExhausted\<rparr>)) = 1"
    "sg_id (give_back held_event (held_grant\<lparr>sg_status := GrantExhausted\<rparr>)) = sg_id held_grant"
    by (simp_all add: give_back_def grant_checks_def nonneg_def committed_requests_def held_grant_def held_event_def
        reserved_event_def sample_spend_grant_def new_grant_def sample_budget_def)
  have "\<exists>u e. release_provider_spend_call 8 7 ''r1'' [] ?t = Inr (u, e) \<and>
     map committed_requests (sd_grants u) = [0] \<and> map sg_max_requests (sd_grants u) = [1]"
    by (simp add: release_provider_spend_call_def release_provider_spend_usage_def keyed_usage_def ev own given
        put_grant_def put_usage_def Let_def)
  then obtain u e where u: "release_provider_spend_call 8 7 ''r1'' [] ?t = Inr (u, e)"
    "map committed_requests (sd_grants u) = [0]" "map sg_max_requests (sd_grants u) = [1]" by (elim exE conjE)
  have "spend_step\<^sup>*\<^sup>* ?t u" using spend_step.release [OF u(1)] by blast
  from held_budget_closes_grant [OF held_sample_reached(2) _ _ _ _ run this] cur hg new
  have "\<exists>h\<in>set (sd_grants u). sg_status h \<noteq> GrantActive" by (auto simp: call)
  with run u show ?thesis by - (rule exI [of _ ?t], rule exI [of _ u], rule exI [of _ e], intro conjI)
qed

end
