(* ===== verification/Operator.thy ===== *)
theory Operator
  imports GoalLease Worktree Outcome "HOL-Library.Sublist"
begin

text \<open>
  The governed repository capabilities of \<open>app/development_operator/service.py\<close>: the fence every effect
  passes, the path guard, and the operations that read, write, run, stage and commit. Strings stand for
  their UTF-8 bytes. The file system, \<open>git\<close>, subprocesses and SHA-256 are the parameter \<open>machine\<close>;
  the redaction of secrets (regular expressions) is its component \<open>mc_redact\<close>.
\<close>

section \<open>Contexts, rows and the machine\<close>

datatype op_error =
    OpAuthorization string
  | OpTransition string
  | OpPath string
  | OpCommand string
  | OpVerificationRequired
  | OpCapabilityMissing string string bool
  | OpOwnership
  | OpTrace string
  | OpRaised string
  | OpRuntime error

record operator_context =
  oc_owner :: uuid
  oc_task :: uuid
  oc_job :: uuid
  oc_worker :: string
  oc_generation :: int
  oc_root :: "string list"
  oc_base :: string
  oc_branch :: string
  oc_strategy :: uuid
  oc_worktree :: "uuid option"
  oc_goal :: "uuid option"
  oc_lease :: "uuid option"
  oc_lease_generation :: "int option"
  oc_envelope :: "uuid option"
  oc_paths :: "string list"
  oc_caps :: "string list"
  oc_remote :: bool
  oc_remote_sha :: "string option"
  oc_disposable_db :: bool

record strategy_binding =
  sb_id :: uuid
  sb_owner :: uuid
  sb_execution :: uuid
  sb_next :: int

record execution_row =
  ex_id :: uuid
  ex_owner :: uuid
  ex_task :: uuid
  ex_job :: "uuid option"

record trace_event =
  tv_id :: uuid
  tv_owner :: uuid
  tv_binding :: uuid
  tv_seq :: int
  tv_key :: string
  tv_action :: string
  tv_target :: string
  tv_detail :: jdict
  tv_result :: string
  tv_duration :: int
  tv_provenance :: jdict

text \<open>Files by absolute path; a write intent is what \<open>json.loads\<close> makes of its file.\<close>

type_synonym path = "string list"

type_synonym files = "(path \<times> string) list"

text \<open>The \<open>git\<close> commands that changed its state so far, each with the files it saw.\<close>

type_synonym git_history = "(path \<times> string list \<times> files) list"

record op_state =
  os_leases :: lease_db
  os_bindings :: "strategy_binding list"
  os_executions :: "execution_row list"
  os_traces :: "trace_event list"
  os_workspace :: workspace
  os_files :: files
  os_git :: git_history
  os_intents :: "(path \<times> json) list"

text \<open>
  \<open>mc_resolve\<close> is \<open>Path.resolve\<close> (it follows symbolic links), \<open>mc_git root args\<close> the standard output of
  \<open>git\<close> or its error, \<open>mc_run argv\<close> the exit code and output of a profile (\<open>None\<close>: the timeout),
  \<open>mc_tree\<close> the files below a directory in the order of \<open>sorted(root.rglob("*"))\<close>, and \<open>mc_search\<close> what
  \<open>rg --fixed-strings\<close> answers: exit code, lines and standard error.
\<close>

datatype search_run = SearchTimeout | SearchMissing | SearchDone int "string list" string

record machine =
  mc_resolve :: "path \<Rightarrow> path option"
  mc_is_dir :: "path \<Rightarrow> bool"
  mc_git :: "path \<Rightarrow> string list \<Rightarrow> git_history \<Rightarrow> files \<Rightarrow> string + string"
  mc_run :: "string list \<Rightarrow> files \<Rightarrow> (int \<times> string) option \<times> files"
  mc_tree :: "path \<Rightarrow> files \<Rightarrow> path list"
  mc_search :: "string \<Rightarrow> path \<Rightarrow> files \<Rightarrow> search_run"
  mc_executable :: string
  mc_sha :: "string \<Rightarrow> string"
  mc_redact :: "string \<Rightarrow> string"
  mc_secret :: "string \<Rightarrow> bool"

text \<open>What is fresh in one call: the clock, the measured duration and the identifier of its trace row.\<close>

record call_env =
  ce_now :: time
  ce_duration :: int
  ce_id :: uuid

text \<open>Length and slices of a Python string, whose characters are one lead byte and its continuation bytes.\<close>

definition continuation :: "char \<Rightarrow> bool" where
  "continuation c \<longleftrightarrow> (let n = of_char c :: nat in 128 \<le> n \<and> n < 192)"

definition py_len :: "string \<Rightarrow> nat" where
  "py_len w = length (filter (\<lambda>c. \<not> continuation c) w)"

fun py_take :: "nat \<Rightarrow> string \<Rightarrow> string" where
  "py_take n [] = []"
| "py_take n (c # w) =
     (if continuation c then c # py_take n w
      else case n of 0 \<Rightarrow> [] | Suc m \<Rightarrow> c # py_take m w)"

definition py_last :: "nat \<Rightarrow> string \<Rightarrow> string" where
  "py_last n w = drop (length (py_take (py_len w - n) w)) w"

text \<open>\<open>data.decode("utf-8")\<close> succeeds.\<close>

definition byte_in :: "nat \<Rightarrow> nat \<Rightarrow> nat \<Rightarrow> bool" where
  "byte_in a b n \<longleftrightarrow> a \<le> n \<and> n \<le> b"

fun utf8_ok :: "nat list \<Rightarrow> bool" where
  "utf8_ok [] = True"
| "utf8_ok (a # w) =
     (if a < 128 then utf8_ok w
      else case w of
             [] \<Rightarrow> False
           | b # w1 \<Rightarrow>
               if byte_in 194 223 a then byte_in 128 191 b \<and> utf8_ok w1
               else (case w1 of
                       [] \<Rightarrow> False
                     | c # w2 \<Rightarrow>
                         if byte_in 224 239 a
                         then byte_in (if a = 224 then 160 else 128) (if a = 237 then 159 else 191) b \<and>
                              byte_in 128 191 c \<and> utf8_ok w2
                         else (case w2 of
                                 [] \<Rightarrow> False
                               | d # w3 \<Rightarrow>
                                   byte_in 240 244 a \<and>
                                   byte_in (if a = 240 then 144 else 128) (if a = 244 then 143 else 191) b \<and>
                                   byte_in 128 191 c \<and> byte_in 128 191 d \<and> utf8_ok w3)))"

text \<open>\<open>_redact_value\<close>: \<open>redact\<close> on every string inside.\<close>

function redact_value :: "machine \<Rightarrow> json \<Rightarrow> json" where
  "redact_value mc (JStr w) = JStr (mc_redact mc w)"
| "redact_value mc (JArr xs) = JArr (map (redact_value mc) xs)"
| "redact_value mc (JObj d) = JObj (map (\<lambda>x. (fst x, redact_value mc (snd x))) d)"
| "redact_value mc JNull = JNull"
| "redact_value mc (JBool b) = JBool b"
| "redact_value mc (JInt i) = JInt i"
  by pat_completeness auto
termination
proof (relation "measure (\<lambda>(mc, v). size v)")
  fix d :: jdict and x assume "x \<in> set d"
  then show "((mc, snd x), mc, JObj d) \<in> measure (\<lambda>(mc, v). size v)" for mc :: machine
    by (induction d) auto
next
  fix xs :: "json list" and x assume "x \<in> set xs"
  then show "((mc, x), mc, JArr xs) \<in> measure (\<lambda>(mc, v). size v)" for mc :: machine
    by (induction xs) auto
qed simp

definition op_db :: "op_state \<Rightarrow> db" where
  "op_db s = au_base (ld_authority (os_leases s))"

definition set_op_db :: "db \<Rightarrow> op_state \<Rightarrow> op_state" where
  "set_op_db d s =
     s\<lparr>os_leases := (os_leases s)\<lparr>ld_authority := (ld_authority (os_leases s))\<lparr>au_base := d\<rparr>\<rparr>\<rparr>"

datatype risk_class = ReadOnly | LocalWrite | LocalExecution | RemoteWrite

definition development_capabilities :: "(string \<times> risk_class) list" where
  "development_capabilities =
     [(''repo_status'', ReadOnly), (''repo_branch'', ReadOnly), (''repo_head'', ReadOnly),
      (''repo_merge_base'', ReadOnly), (''repo_diff'', ReadOnly), (''repo_log'', ReadOnly),
      (''list_files'', ReadOnly), (''search_text'', ReadOnly), (''read_file'', ReadOnly),
      (''inspect_git_history'', ReadOnly), (''create_file'', LocalWrite), (''patch_file'', LocalWrite),
      (''delete_file'', LocalWrite), (''run_focused_test'', LocalExecution), (''run_static_check'', LocalExecution),
      (''run_migration_check'', LocalExecution), (''run_full_suite'', LocalExecution),
      (''stage_scoped_changes'', LocalWrite), (''commit_scoped_changes'', LocalWrite), (''push_branch'', RemoteWrite)]"

section \<open>Paths\<close>

text \<open>The root of a pure POSIX path: none, one slash, or exactly two.\<close>

definition path_root :: "string \<Rightarrow> string" where
  "path_root s =
     (if \<not> is_absolute s then []
      else if take 2 s = ''//'' \<and> take 3 s \<noteq> ''///'' then ''//'' else ''/'')"

definition within_path :: "string \<Rightarrow> string \<Rightarrow> bool" where
  "within_path scope p \<longleftrightarrow> path_root scope = path_root p \<and> prefix (path_parts scope) (path_parts p)"

definition path_within_authorized :: "string \<Rightarrow> string list \<Rightarrow> bool" where
  "path_within_authorized p authorized \<longleftrightarrow> list_ex (\<lambda>scope. within_path scope p) authorized"

definition sensitive_parts :: "string set" where
  "sensitive_parts =
     {''.env'', ''.ssh'', ''.aws'', ''.gnupg'', ''credentials'', ''secrets'', ''id_rsa'', ''id_ed25519''}"

definition lower_char :: "char \<Rightarrow> char" where
  "lower_char c = (let n = of_char c :: nat in if 65 \<le> n \<and> n \<le> 90 then char_of (n + 32) else c)"

definition lowered_parts :: "string \<Rightarrow> string list" where
  "lowered_parts s = map (map lower_char) (path_parts s)"

definition guard_path :: "machine \<Rightarrow> operator_context \<Rightarrow> bool \<Rightarrow> string \<Rightarrow> op_error + path" where
  "guard_path mc ctx wr value =
     (if value = [] \<or> is_absolute value \<or> ''..'' \<in> set (path_parts value)
      then Inl (OpPath ''path must be repository-relative'')
      else if list_ex (\<lambda>w. w \<in> sensitive_parts) (lowered_parts value) \<or>
              list_ex (\<lambda>w. take 4 w = ''.env'') (lowered_parts value)
      then Inl (OpPath ''sensitive path access denied'')
      else if ''.git'' \<in> set (lowered_parts value) then Inl (OpPath ''direct .git access denied'')
      else if oc_paths ctx \<noteq> [] \<and> \<not> path_within_authorized value (oc_paths ctx)
      then Inl (OpPath ''path is outside the authorized path scope'')
      else case mc_resolve mc (oc_root ctx @ path_parts value) of
             None \<Rightarrow> Inl (OpRaised ''resolve'')
           | Some r \<Rightarrow>
               if \<not> prefix (oc_root ctx) r then Inl (OpPath ''resolved path escapes repository'')
               else if wr \<and> r = oc_root ctx then Inl (OpPath ''repository root cannot be edited'')
               else Inr r)"

section \<open>The fence before every effect\<close>

definition supervisor_binding_claimed :: "operator_context \<Rightarrow> bool" where
  "supervisor_binding_claimed ctx \<longleftrightarrow>
     oc_goal ctx \<noteq> None \<or> oc_lease ctx \<noteq> None \<or> oc_lease_generation ctx \<noteq> None"

definition is_governed :: "operator_context \<Rightarrow> bool" where
  "is_governed ctx \<longleftrightarrow> oc_envelope ctx \<noteq> None \<or> supervisor_binding_claimed ctx"

definition write_identity_present :: "operator_context \<Rightarrow> bool" where
  "write_identity_present ctx \<longleftrightarrow> oc_worktree ctx \<noteq> None \<or> supervisor_binding_claimed ctx"

definition require_governed_ceiling :: "operator_context \<Rightarrow> op_error + unit" where
  "require_governed_ceiling ctx =
     ensure (\<not> (is_governed ctx \<and> oc_caps ctx = [])) (OpAuthorization ''empty capability ceiling'')"

definition require_operator_capability :: "operator_context \<Rightarrow> string \<Rightarrow> op_error + unit" where
  "require_operator_capability ctx cap =
     sbind (require_governed_ceiling ctx) (\<lambda>_.
       ensure (oc_caps ctx = [] \<or> cap \<in> set (oc_caps ctx))
         (OpCapabilityMissing cap ''capability is outside the authorized OperatorContext ceiling'' True))"

definition require_live_authority :: "operator_context \<Rightarrow> mainai_task \<Rightarrow> op_state \<Rightarrow> op_error + unit" where
  "require_live_authority ctx t s =
     (case oc_envelope ctx of
        None \<Rightarrow> Inr ()
      | Some eid \<Rightarrow>
          (case get_current_execution_envelope (oc_owner ctx) (t_goal t) (ld_authority (os_leases s)) of
             Inl _ \<Rightarrow> Inl (OpRaised ''multiple active envelopes'')
           | Inr None \<Rightarrow> Inl (OpTransition ''execution authorization changed'')
           | Inr (Some e) \<Rightarrow>
               if en_id e \<noteq> eid then Inl (OpTransition ''execution authorization changed'')
               else if en_paths e = [] then Inl (OpTransition ''no authorized paths'')
               else if \<not> list_all (\<lambda>p. path_within_authorized p (en_paths e)) (oc_paths ctx)
               then Inl (OpTransition ''path ceiling outside the envelope'')
               else if en_capabilities e = [] then Inl (OpTransition ''no authorized capabilities'')
               else if \<not> list_all (\<lambda>c. c \<in> set (en_capabilities e)) (oc_caps ctx)
               then Inl (OpTransition ''capability ceiling outside the envelope'')
               else Inr ()))"

definition goal_branch_name :: "uuid \<Rightarrow> string" where
  "goal_branch_name gid = ''claude/mainai-supervisor-goal-'' @ uuid_str gid"

definition goal_worktree_root :: path where
  "goal_worktree_root = [''tmp'', ''mainai-supervisor-goal-worktrees'']"

definition goal_worktree_path :: "uuid \<Rightarrow> path" where
  "goal_worktree_path gid = goal_worktree_root @ [uuid_str gid]"

definition path_str :: "path \<Rightarrow> string" where
  "path_str p = concat (map (\<lambda>w. ''/'' @ w) p)"

definition git_out :: "machine \<Rightarrow> path \<Rightarrow> string list \<Rightarrow> op_state \<Rightarrow> op_error + string" where
  "git_out mc root args s =
     (case mc_git mc root args (os_git s) (os_files s) of Inl e \<Rightarrow> Inl (OpCommand e) | Inr out \<Rightarrow> Inr out)"

definition git_line :: "machine \<Rightarrow> path \<Rightarrow> string list \<Rightarrow> op_state \<Rightarrow> op_error + string" where
  "git_line mc root args s = sbind (git_out mc root args s) (\<lambda>out. Inr (strip_chars is_space out))"

definition resolved :: "machine \<Rightarrow> path \<Rightarrow> op_error + path" where
  "resolved mc p = from_option (OpRaised ''resolve'') (mc_resolve mc p)"

definition lease_of_context :: "operator_context \<Rightarrow> goal_lease \<Rightarrow> bool" where
  "lease_of_context ctx l \<longleftrightarrow>
     oc_lease ctx = Some (gl_id l) \<and> gl_owner l = oc_owner ctx \<and> oc_goal ctx = Some (gl_goal l) \<and>
     gl_worker l = oc_worker ctx \<and> oc_lease_generation ctx = Some (gl_generation l) \<and> gl_status l = LeaseActive"

definition verify_supervisor_goal_worktree ::
  "machine \<Rightarrow> time \<Rightarrow> operator_context \<Rightarrow> mainai_task \<Rightarrow> op_state \<Rightarrow> op_error + unit" where
  "verify_supervisor_goal_worktree mc now ctx t s =
     (if oc_worktree ctx \<noteq> None then Inl (OpAuthorization ''ambiguous worktree class'')
      else case (oc_goal ctx, oc_lease ctx, oc_lease_generation ctx) of
             (Some gid, Some lid, Some gen) \<Rightarrow>
               if t_goal t \<noteq> gid then Inl (OpAuthorization ''task is not under the claimed supervisor goal'')
               else (case find_row (lease_of_context ctx) (ld_leases (os_leases s)) of
                       None \<Rightarrow> Inl (OpTransition ''supervisor goal lease'')
                     | Some l \<Rightarrow>
                         if gl_expires_at l \<le> now then Inl (OpTransition ''supervisor goal lease'')
                         else sbind (resolved mc (oc_root ctx)) (\<lambda>root.
                              sbind (resolved mc (goal_worktree_path gid)) (\<lambda>expected.
                              if root \<noteq> expected then Inl (OpAuthorization ''not the canonical goal worktree'')
                              else sbind (resolved mc goal_worktree_root) (\<lambda>top.
                              if \<not> prefix top root then Inl (OpAuthorization ''outside the goal worktree root'')
                              else ensure (oc_branch ctx = goal_branch_name gid)
                                (OpAuthorization ''not the canonical goal branch'')))))
           | _ \<Rightarrow> Inl (OpAuthorization ''incomplete supervisor goal worktree binding''))"

definition worktree_of_context :: "operator_context \<Rightarrow> uuid \<Rightarrow> task_worktree \<Rightarrow> bool" where
  "worktree_of_context ctx wid w \<longleftrightarrow>
     wt_id w = wid \<and> wt_owner w = oc_owner ctx \<and> wt_task w = oc_task ctx \<and> wt_job w = oc_job ctx \<and>
     wt_lease_generation w = oc_generation ctx \<and> wt_status w = WtActive"

definition verify_job_worktree ::
  "machine \<Rightarrow> operator_context \<Rightarrow> uuid \<Rightarrow> path \<Rightarrow> op_state \<Rightarrow> op_error + task_worktree" where
  "verify_job_worktree mc ctx wid root s =
     (case find_row (worktree_of_context ctx wid) (ws_rows (os_workspace s)) of
        None \<Rightarrow> Inl OpOwnership
      | Some w \<Rightarrow>
          sbind (resolved mc (path_parts (wt_path w))) (\<lambda>at.
          if at \<noteq> root then Inl OpOwnership
          else (case verify_worktree_ownership (os_workspace s) w of
                  Inl e \<Rightarrow> Inl (OpRuntime e)
                | Inr owned \<Rightarrow>
                    if \<not> owned then Inl OpOwnership
                    else if wt_base_sha w \<noteq> oc_base ctx \<or> wt_branch w \<noteq> oc_branch ctx
                    then Inl (OpTransition ''worktree identity changed'')
                    else Inr w)))"

definition own_task :: "operator_context \<Rightarrow> mainai_task \<Rightarrow> bool" where
  "own_task ctx t \<longleftrightarrow> t_id t = oc_task ctx \<and> t_owner t = oc_owner ctx"

definition own_job :: "operator_context \<Rightarrow> mainai_job \<Rightarrow> bool" where
  "own_job ctx j \<longleftrightarrow> j_id j = oc_job ctx \<and> j_owner j = oc_owner ctx"

definition own_binding :: "operator_context \<Rightarrow> strategy_binding \<Rightarrow> bool" where
  "own_binding ctx b \<longleftrightarrow> sb_id b = oc_strategy ctx \<and> sb_owner b = oc_owner ctx"

definition own_execution :: "operator_context \<Rightarrow> strategy_binding \<Rightarrow> execution_row \<Rightarrow> bool" where
  "own_execution ctx b x \<longleftrightarrow>
     ex_id x = sb_execution b \<and> ex_owner x = oc_owner ctx \<and> ex_task x = oc_task ctx"

text \<open>The links between task, job and execution, and the job lease with its clock.\<close>

definition require_linked ::
  "time \<Rightarrow> operator_context \<Rightarrow> bool \<Rightarrow> mainai_task \<Rightarrow> mainai_job \<Rightarrow> strategy_binding \<Rightarrow> op_state \<Rightarrow> op_error + unit" where
  "require_linked now ctx refuse_cancelled t j b s =
     (case find_row (own_execution ctx b) (os_executions s) of
        None \<Rightarrow> Inl (OpTransition ''not linked to the current job/execution'')
      | Some x \<Rightarrow>
          if t_job t \<noteq> Some (j_id j) \<or> \<not> (ex_job x = None \<or> ex_job x = Some (oc_job ctx))
          then Inl (OpTransition ''not linked to the current job/execution'')
          else if j_status j \<noteq> JRunning \<or> j_locked_by j \<noteq> Some (oc_worker ctx) \<or>
                  j_lease_generation j \<noteq> oc_generation ctx
          then Inl (OpTransition ''stale or absent MainAI job lease'')
          else if (case j_lease_expires_at j of None \<Rightarrow> False | Some at \<Rightarrow> at \<le> now)
          then Inl (OpTransition ''stale or absent MainAI job lease'')
          else ensure (\<not> (refuse_cancelled \<and> j_cancel_requested j)) (OpTransition ''job cancel requested''))"

definition require_repository ::
  "machine \<Rightarrow> time \<Rightarrow> operator_context \<Rightarrow> bool \<Rightarrow> mainai_task \<Rightarrow> op_state \<Rightarrow> op_error + task_worktree option" where
  "require_repository mc now ctx wr t s =
     sbind (resolved mc (oc_root ctx)) (\<lambda>root.
     if \<not> mc_is_dir mc root then Inl (OpAuthorization ''repository root is missing or not canonical'')
     else sbind (git_line mc root [''rev-parse'', ''--show-toplevel''] s) (\<lambda>top.
     if top \<noteq> path_str root then Inl (OpAuthorization ''repository root is missing or not canonical'')
     else sbind (git_line mc root [''branch'', ''--show-current''] s) (\<lambda>br.
     if br \<noteq> oc_branch ctx then Inl (OpTransition ''repository branch'')
     else if oc_worktree ctx \<noteq> None \<and> supervisor_binding_claimed ctx
     then Inl (OpAuthorization ''ambiguous worktree class'')
     else if wr \<and> \<not> write_identity_present ctx
     then Inl (OpAuthorization ''write capability requires a verified worktree identity'')
     else case oc_worktree ctx of
            Some wid \<Rightarrow> sbind (verify_job_worktree mc ctx wid root s) (\<lambda>w. Inr (Some w))
          | None \<Rightarrow>
              if supervisor_binding_claimed ctx
              then sbind (verify_supervisor_goal_worktree mc now ctx t s) (\<lambda>_. Inr None)
              else sbind (git_line mc root [''rev-parse'', ''HEAD''] s) (\<lambda>head.
                     if head \<noteq> oc_base ctx then Inl (OpTransition ''repository HEAD'') else Inr None))))"

definition require_context ::
  "machine \<Rightarrow> time \<Rightarrow> operator_context \<Rightarrow> bool \<Rightarrow> bool \<Rightarrow> op_state \<Rightarrow>
   op_error + (mainai_task \<times> mainai_job \<times> strategy_binding \<times> task_worktree option)" where
  "require_context mc now ctx wr refuse_cancelled s =
     sbind (require_governed_ceiling ctx) (\<lambda>_.
     case (find_row (own_task ctx) (tasks (op_db s)), find_row (own_job ctx) (jobs (op_db s)),
           find_row (own_binding ctx) (os_bindings s)) of
       (Some t, Some j, Some b) \<Rightarrow>
         sbind (require_live_authority ctx t s) (\<lambda>_.
         sbind (require_linked now ctx refuse_cancelled t j b s) (\<lambda>_.
         sbind (require_repository mc now ctx wr t s) (\<lambda>w. Inr (t, j, b, w))))
     | _ \<Rightarrow> Inl (OpAuthorization ''task, job, or strategy execution is missing or cross-owner''))"

section \<open>The trace\<close>

definition trace_action :: "string \<Rightarrow> string" where
  "trace_action cap =
     (case map_of
        [(''repo_status'', ''repository_map_inspected''), (''repo_branch'', ''repository_map_inspected''),
         (''repo_head'', ''git_history_inspected''), (''repo_merge_base'', ''git_history_inspected''),
         (''repo_diff'', ''repository_map_inspected''), (''repo_log'', ''git_history_inspected''),
         (''list_files'', ''repository_map_inspected''), (''search_text'', ''symbol_searched''),
         (''read_file'', ''file_read''), (''inspect_git_history'', ''git_history_inspected''),
         (''run_focused_test'', ''focused_test_run''), (''run_full_suite'', ''full_suite_run''),
         (''run_static_check'', ''static_analysis''), (''run_migration_check'', ''migration_test''),
         (''capability_missing'', ''work_escalated'')] cap of
        None \<Rightarrow> ''change_attempted'' | Some a \<Rightarrow> a)"

definition keyed_trace :: "uuid \<Rightarrow> uuid \<Rightarrow> string \<Rightarrow> trace_event \<Rightarrow> bool" where
  "keyed_trace owner bid key e \<longleftrightarrow> tv_owner e = owner \<and> tv_binding e = bid \<and> tv_key e = key"

definition same_trace :: "trace_event \<Rightarrow> trace_event \<Rightarrow> bool" where
  "same_trace x e \<longleftrightarrow>
     tv_action x = tv_action e \<and> tv_target x = tv_target e \<and> tv_detail x = tv_detail e \<and>
     tv_result x = tv_result e \<and> tv_duration x = tv_duration e \<and> tv_provenance x = tv_provenance e"

definition record_trace_event :: "trace_event \<Rightarrow> op_state \<Rightarrow> op_error + (op_state \<times> trace_event)" where
  "record_trace_event e s =
     (case find_row (\<lambda>b. sb_id b = tv_binding e \<and> sb_owner b = tv_owner e) (os_bindings s) of
        None \<Rightarrow> Inl (OpTrace ''strategy execution is missing or belongs to another owner'')
      | Some b \<Rightarrow>
          (case find_row (keyed_trace (tv_owner e) (tv_binding e) (tv_key e)) (os_traces s) of
             Some x \<Rightarrow> if same_trace x e then Inr (s, x) else Inl (OpTrace ''idempotency key reused'')
           | None \<Rightarrow>
               let e1 = e\<lparr>tv_seq := sb_next b\<rparr>
               in Inr (s\<lparr>os_bindings := update_rows (\<lambda>x. sb_id x = sb_id b) (\<lambda>x. x\<lparr>sb_next := sb_next x + 1\<rparr>) (os_bindings s),
                         os_traces := os_traces s @ [e1]\<rparr>, e1)))"

definition redacted :: "machine \<Rightarrow> jdict \<Rightarrow> jdict" where
  "redacted mc d = map (\<lambda>(k, v). (k, redact_value mc v)) d"

definition audit ::
  "machine \<Rightarrow> call_env \<Rightarrow> operator_context \<Rightarrow> string \<Rightarrow> string \<Rightarrow> jdict \<Rightarrow> string \<Rightarrow> op_state \<Rightarrow>
   op_error + (op_state \<times> trace_event)" where
  "audit mc env ctx cap key detail result s =
     record_trace_event
       \<lparr>tv_id = ce_id env, tv_owner = oc_owner ctx, tv_binding = oc_strategy ctx, tv_seq = 0, tv_key = key,
        tv_action = trace_action cap, tv_target = path_str (oc_root ctx),
        tv_detail = redacted mc ([(''operator_capability'', JStr cap), (''operator_result'', JStr result)] @ detail),
        tv_result = (if result = ''timeout'' then ''failed'' else if result = ''capability_missing'' then ''deferred'' else result),
        tv_duration = max 0 (ce_duration env),
        tv_provenance = [(''task_id'', JStr (uuid_str (oc_task ctx))), (''job_id'', JStr (uuid_str (oc_job ctx)))]\<rparr> s"

record action_result =
  ar_capability :: string
  ar_result :: string
  ar_detail :: jdict
  ar_trace :: uuid

definition replay ::
  "machine \<Rightarrow> operator_context \<Rightarrow> string \<Rightarrow> string \<Rightarrow> jdict \<Rightarrow> op_state \<Rightarrow> op_error + action_result option" where
  "replay mc ctx cap key expected s =
     (case find_row (keyed_trace (oc_owner ctx) (oc_strategy ctx) key) (os_traces s) of
        None \<Rightarrow> Inr None
      | Some e \<Rightarrow>
          if jget (tv_detail e) ''operator_capability'' \<noteq> JStr cap
          then Inl (OpAuthorization ''idempotency key reused for another capability'')
          else if list_ex (\<lambda>(k, v). jget (tv_detail e) k \<noteq> redact_value mc v) expected
          then Inl (OpAuthorization ''idempotency key reused with conflicting action semantics'')
          else Inr (Some \<lparr>ar_capability = cap,
                 ar_result = (case jget (tv_detail e) ''operator_result'' of JStr r \<Rightarrow> r | _ \<Rightarrow> tv_result e),
                 ar_detail = tv_detail e, ar_trace = tv_id e\<rparr>))"

section \<open>Write intents\<close>

definition write_intent_path :: "machine \<Rightarrow> operator_context \<Rightarrow> string \<Rightarrow> string \<Rightarrow> path" where
  "write_intent_path mc ctx key p =
     oc_root ctx @ [''.mainai_operator'', ''write_intents'',
       mc_sha mc (uuid_str (oc_owner ctx) @ '':'' @ uuid_str (oc_job ctx) @ '':'' @ key @ '':'' @ p) @ ''.json'']"

definition json_text :: "string option \<Rightarrow> json" where
  "json_text x = (case x of None \<Rightarrow> JNull | Some w \<Rightarrow> JStr w)"

definition json_id :: "uuid option \<Rightarrow> json" where
  "json_id x = (case x of None \<Rightarrow> JNull | Some i \<Rightarrow> JStr (uuid_str i))"

definition write_intent_payload ::
  "operator_context \<Rightarrow> string \<Rightarrow> string \<Rightarrow> string \<Rightarrow> string option \<Rightarrow> string option \<Rightarrow> jdict" where
  "write_intent_payload ctx key p cap before after =
     [(''idempotency_key'', JStr key), (''path'', JStr p), (''capability'', JStr cap),
      (''before_sha256'', json_text before), (''after_sha256'', json_text after),
      (''owner_id'', JStr (uuid_str (oc_owner ctx))), (''task_id'', JStr (uuid_str (oc_task ctx))),
      (''job_id'', JStr (uuid_str (oc_job ctx))), (''worker_id'', JStr (oc_worker ctx)),
      (''lease_generation'', JInt (oc_generation ctx)),
      (''strategy_execution_id'', JStr (uuid_str (oc_strategy ctx))),
      (''worktree_id'', json_id (oc_worktree ctx)), (''supervisor_goal_id'', json_id (oc_goal ctx))]"

text \<open>The fields that identify an operation; the worker and its lease generation are not among them.\<close>

definition intent_identity :: "string list" where
  "intent_identity =
     [''idempotency_key'', ''path'', ''capability'', ''before_sha256'', ''after_sha256'', ''owner_id'', ''task_id'',
      ''job_id'', ''strategy_execution_id'', ''worktree_id'', ''supervisor_goal_id'']"

definition put_intent :: "path \<Rightarrow> json \<Rightarrow> op_state \<Rightarrow> op_state" where
  "put_intent at v s = s\<lparr>os_intents := (at, v) # filter (\<lambda>x. fst x \<noteq> at) (os_intents s)\<rparr>"

definition clear_write_intent :: "path \<Rightarrow> op_state \<Rightarrow> op_state" where
  "clear_write_intent at s = s\<lparr>os_intents := filter (\<lambda>x. fst x \<noteq> at) (os_intents s)\<rparr>"

definition matching_write_intent :: "path \<Rightarrow> jdict \<Rightarrow> op_state \<Rightarrow> op_error + bool" where
  "matching_write_intent at expected s =
     (case map_of (os_intents s) at of
        None \<Rightarrow> Inr False
      | Some (JObj payload) \<Rightarrow> Inr (list_all (\<lambda>k. jget payload k = jget expected k) intent_identity)
      | Some _ \<Rightarrow> Inl (OpRaised ''AttributeError''))"

section \<open>Writing a file\<close>

text \<open>A write fails where the target is a directory or lies below a file.\<close>

definition write_blocked :: "path \<Rightarrow> files \<Rightarrow> bool" where
  "write_blocked target files \<longleftrightarrow>
     list_ex (\<lambda>x. strict_prefix target (fst x) \<or> strict_prefix (fst x) target) files"

definition put_file :: "path \<Rightarrow> string \<Rightarrow> op_state \<Rightarrow> op_state" where
  "put_file at c s = s\<lparr>os_files := (at, c) # filter (\<lambda>x. fst x \<noteq> at) (os_files s)\<rparr>"

definition remove_file :: "path \<Rightarrow> op_state \<Rightarrow> op_state" where
  "remove_file at s = s\<lparr>os_files := filter (\<lambda>x. fst x \<noteq> at) (os_files s)\<rparr>"

record write_request =
  wq_path :: string
  wq_content :: "string option"
  wq_expected :: "string option"
  wq_delete :: bool

definition requested_after :: "machine \<Rightarrow> write_request \<Rightarrow> string option" where
  "requested_after mc q =
     (if wq_delete q then None else Some (mc_sha mc (case wq_content q of None \<Rightarrow> [] | Some c \<Rightarrow> c)))"

definition requested_capability :: "write_request \<Rightarrow> string" where
  "requested_capability q =
     (if wq_delete q then ''delete_file'' else if wq_expected q = None then ''create_file'' else ''patch_file'')"

definition hash_detail :: "string \<Rightarrow> string option \<Rightarrow> string option \<Rightarrow> jdict" where
  "hash_detail p before after =
     [(''path'', JStr p), (''before_sha256'', json_text before), (''after_sha256'', json_text after)]"

text \<open>The audit and the answer; the effect on the files is not undone when the audit raises.\<close>

definition answer ::
  "machine \<Rightarrow> call_env \<Rightarrow> operator_context \<Rightarrow> string \<Rightarrow> string \<Rightarrow> jdict \<Rightarrow> jdict \<Rightarrow> string \<Rightarrow> path option \<Rightarrow> op_state \<Rightarrow>
   (op_error + action_result) \<times> op_state" where
  "answer mc env ctx cap key logged detail result intent s =
     (case audit mc env ctx cap key logged result s of
        Inl e \<Rightarrow> (Inl e, s)
      | Inr (s1, ev) \<Rightarrow>
          (Inr \<lparr>ar_capability = cap, ar_result = result, ar_detail = detail, ar_trace = tv_id ev\<rparr>,
           case intent of None \<Rightarrow> s1 | Some at \<Rightarrow> clear_write_intent at s1))"

definition apply_write ::
  "machine \<Rightarrow> call_env \<Rightarrow> operator_context \<Rightarrow> write_request \<Rightarrow> string \<Rightarrow> path \<Rightarrow> op_state \<Rightarrow>
   (op_error + action_result) \<times> op_state" where
  "apply_write mc env ctx q key target s =
     (let existing = map_of (os_files s) target;
          before = map_option (mc_sha mc) existing;
          after = requested_after mc q;
          detail = hash_detail (wq_path q) before after;
          cap = (if existing = None then ''create_file'' else ''patch_file'');
          at = write_intent_path mc ctx key (wq_path q)
      in if before \<noteq> wq_expected q then (Inl (OpAuthorization ''expected-before hash mismatch''), s)
         else if wq_delete q
         then (if existing = None then (Inl (OpPath ''delete target does not exist''), s)
               else answer mc env ctx ''delete_file'' key detail detail ''succeeded'' None (remove_file target s))
         else case wq_content q of
                None \<Rightarrow> (Inl (OpPath ''write content is missing or exceeds bound''), s)
              | Some c \<Rightarrow>
                  if length c > 1000000 then (Inl (OpPath ''write content is missing or exceeds bound''), s)
                  else let s1 = put_intent at (JObj (write_intent_payload ctx key (wq_path q) cap (wq_expected q) after)) s
                       in if write_blocked target (os_files s) then (Inl (OpRaised ''OSError''), s1)
                          else answer mc env ctx cap key detail detail ''succeeded'' (Some at) (put_file target c s1))"

definition healable :: "machine \<Rightarrow> operator_context \<Rightarrow> write_request \<Rightarrow> string \<Rightarrow> path \<Rightarrow> op_state \<Rightarrow> op_error + bool" where
  "healable mc ctx q key target s =
     (if wq_delete q \<or> wq_content q = None then Inr False
      else case map_of (os_files s) target of
             None \<Rightarrow> Inr False
           | Some old \<Rightarrow>
               if Some (mc_sha mc old) \<noteq> requested_after mc q then Inr False
               else matching_write_intent (write_intent_path mc ctx key (wq_path q))
                      (write_intent_payload ctx key (wq_path q) (requested_capability q) (wq_expected q)
                         (requested_after mc q)) s)"

definition write_file ::
  "machine \<Rightarrow> call_env \<Rightarrow> operator_context \<Rightarrow> write_request \<Rightarrow> string \<Rightarrow> op_state \<Rightarrow>
   (op_error + action_result) \<times> op_state" where
  "write_file mc env ctx q key s =
     (case require_context mc (ce_now env) ctx True True s of
        Inl e \<Rightarrow> (Inl e, s)
      | Inr _ \<Rightarrow>
          (case guard_path mc ctx True (wq_path q) of
             Inl e \<Rightarrow> (Inl e, s)
           | Inr target \<Rightarrow>
               (case replay mc ctx (requested_capability q) key
                       (hash_detail (wq_path q) (wq_expected q) (requested_after mc q)) s of
                  Inl e \<Rightarrow> (Inl e, s)
                | Inr (Some r) \<Rightarrow> (Inr r, s)
                | Inr None \<Rightarrow>
                    (case healable mc ctx q key target s of
                       Inl e \<Rightarrow> (Inl e, s)
                     | Inr True \<Rightarrow>
                         answer mc env ctx (requested_capability q) key
                           (hash_detail (wq_path q) (wq_expected q) (requested_after mc q) @
                              [(''recovered_after_crash_before_audit'', JBool True)])
                           (hash_detail (wq_path q) (wq_expected q) (requested_after mc q)) ''succeeded''
                           (Some (write_intent_path mc ctx key (wq_path q))) s
                     | Inr False \<Rightarrow> apply_write mc env ctx q key target s))))"

section \<open>Reading\<close>

definition read_file ::
  "machine \<Rightarrow> call_env \<Rightarrow> operator_context \<Rightarrow> string \<Rightarrow> nat \<Rightarrow> string \<Rightarrow> op_state \<Rightarrow>
   (op_error + action_result) \<times> op_state" where
  "read_file mc env ctx p limit key s =
     (case require_context mc (ce_now env) ctx False False s of
        Inl e \<Rightarrow> (Inl e, s)
      | Inr _ \<Rightarrow>
          (case guard_path mc ctx False p of
             Inl e \<Rightarrow> (Inl e, s)
           | Inr target \<Rightarrow>
               (case map_of (os_files s) target of
                  None \<Rightarrow> (Inl (OpPath ''file is missing, not regular, or symlinked''), s)
                | Some bytes \<Rightarrow>
                    if min (max limit 1) 1000000 < length bytes \<or> CHR 0x00 \<in> set bytes
                    then (Inl (OpPath ''file exceeds read bound or is binary''), s)
                    else if \<not> utf8_ok (map of_char bytes)
                    then (Inl (OpPath ''file is not bounded UTF-8 text''), s)
                    else answer mc env ctx ''read_file'' key
                           [(''path'', JStr p), (''bytes'', JInt (int (length bytes)))]
                           [(''path'', JStr p), (''content'', JStr (mc_redact mc bytes))] ''succeeded'' None s)))"

definition joined :: "path \<Rightarrow> string" where
  "joined p = (case p of [] \<Rightarrow> [] | w # ws \<Rightarrow> w @ concat (map (\<lambda>x. ''/'' @ x) ws))"

text \<open>The loop of \<open>list_files\<close>: at most \<open>n\<close> more files, skipping \<open>.git\<close> and what the path guard refuses.\<close>

fun visible_files :: "machine \<Rightarrow> operator_context \<Rightarrow> nat \<Rightarrow> path list \<Rightarrow> op_error + string list" where
  "visible_files mc ctx 0 ps = Inr []"
| "visible_files mc ctx (Suc n) [] = Inr []"
| "visible_files mc ctx (Suc n) (p # ps) =
     (let rel = joined (drop (length (oc_root ctx)) p)
      in if ''.git'' \<in> set p then visible_files mc ctx (Suc n) ps
         else case guard_path mc ctx False rel of
                Inr _ \<Rightarrow> sbind (visible_files mc ctx n ps) (\<lambda>r. Inr (rel # r))
              | Inl (OpPath _) \<Rightarrow> visible_files mc ctx (Suc n) ps
              | Inl e \<Rightarrow> Inl e)"

definition list_files ::
  "machine \<Rightarrow> call_env \<Rightarrow> operator_context \<Rightarrow> string \<Rightarrow> int \<Rightarrow> string \<Rightarrow> op_state \<Rightarrow>
   (op_error + action_result) \<times> op_state" where
  "list_files mc env ctx scope limit key s =
     (case sbind (require_context mc (ce_now env) ctx False False s) (\<lambda>_.
           sbind (guard_path mc ctx False scope) (\<lambda>root.
           visible_files mc ctx (nat (min (max limit 1) 5000)) (mc_tree mc root (os_files s)))) of
        Inl e \<Rightarrow> (Inl e, s)
      | Inr files \<Rightarrow>
          answer mc env ctx ''list_files'' key [(''scope'', JStr scope), (''count'', JInt (int (length files)))]
            [(''files'', JArr (map JStr files))] ''succeeded'' None s)"

definition search_text ::
  "machine \<Rightarrow> call_env \<Rightarrow> operator_context \<Rightarrow> string \<Rightarrow> string \<Rightarrow> int \<Rightarrow> string \<Rightarrow> op_state \<Rightarrow>
   (op_error + action_result) \<times> op_state" where
  "search_text mc env ctx query scope limit key s =
     (case sbind (require_context mc (ce_now env) ctx False False s) (\<lambda>_.
           sbind (guard_path mc ctx False scope) (\<lambda>target.
           sbind (ensure (query \<noteq> [] \<and> py_len query \<le> 512 \<and> CHR 0x00 \<notin> set query)
                    (OpCommand ''search query is empty or exceeds bounds'')) (\<lambda>_.
           case mc_search mc query target (os_files s) of
             SearchTimeout \<Rightarrow> Inl (OpCommand ''bounded text search timed out'')
           | SearchMissing \<Rightarrow> Inl (OpCapabilityMissing ''search_text'' ''the deterministic rg search tool is unavailable'' True)
           | SearchDone code ls err \<Rightarrow> if code \<notin> {0, 1} then Inl (OpCommand ''search failed'') else Inr ls))) of
        Inl e \<Rightarrow> (Inl e, s)
      | Inr ls \<Rightarrow>
          let matches = map (\<lambda>l. JStr (mc_redact mc l)) (take (nat (min (max limit 1) 1000)) ls)
          in answer mc env ctx ''search_text'' key
               [(''query'', JStr query), (''scope'', JStr scope), (''matches'', JInt (int (length matches)))]
               [(''matches'', JArr matches)] ''succeeded'' None s)"

text \<open>\<open>[A-Za-z0-9._/-]{1,255}\<close>\<close>

definition ref_char :: "char \<Rightarrow> bool" where
  "ref_char c \<longleftrightarrow>
     (let n = of_char c :: nat in 65 \<le> n \<and> n \<le> 90 \<or> 97 \<le> n \<and> n \<le> 122 \<or> 48 \<le> n \<and> n \<le> 57) \<or>
     c \<in> set ''._/-''"

definition inspect_arguments :: "string \<Rightarrow> string option \<Rightarrow> op_error + string list" where
  "inspect_arguments cap other =
     (if cap = ''repo_merge_base'' then
        (case other of
           Some r \<Rightarrow>
             if r \<noteq> [] \<and> length r \<le> 255 \<and> list_all ref_char r then Inr [''merge-base'', ''HEAD'', r]
             else Inl (OpCommand ''merge-base requires a bounded git ref'')
         | None \<Rightarrow> Inl (OpCommand ''merge-base requires a bounded git ref''))
      else case map_of
        [(''repo_status'', [''status'', ''--porcelain'']), (''repo_branch'', [''branch'', ''--show-current'']),
         (''repo_head'', [''rev-parse'', ''HEAD'']), (''repo_diff'', [''diff'', ''--stat'']),
         (''repo_log'', [''log'', ''-n'', ''20'', ''--oneline'', ''--decorate=no''])] cap of
          Some args \<Rightarrow> Inr args
        | None \<Rightarrow> Inl (OpCapabilityMissing cap ''no structured repository implementation'' True))"

definition inspect_repository ::
  "machine \<Rightarrow> call_env \<Rightarrow> operator_context \<Rightarrow> string \<Rightarrow> string option \<Rightarrow> string \<Rightarrow> op_state \<Rightarrow>
   (op_error + action_result) \<times> op_state" where
  "inspect_repository mc env ctx cap other key s =
     (case sbind (require_context mc (ce_now env) ctx False False s) (\<lambda>_.
             sbind (inspect_arguments cap other) (\<lambda>args. git_out mc (oc_root ctx) args s)) of
        Inl e \<Rightarrow> (Inl e, s)
      | Inr raw \<Rightarrow>
          let cut = mc_redact mc (py_take 64000 raw);
              out = (if cap \<in> {''repo_branch'', ''repo_head'', ''repo_merge_base''} then strip_chars is_space cut else cut)
          in answer mc env ctx cap key [(''output'', JStr out)] [(''output'', JStr out)] ''succeeded'' None s)"

section \<open>Running a profile\<close>

record command_profile =
  cp_capability :: string
  cp_argv :: "string list"
  cp_output :: nat

definition command_profiles :: "machine \<Rightarrow> (string \<times> command_profile) list" where
  "command_profiles mc =
     [(''focused_pytest'', \<lparr>cp_capability = ''run_focused_test'', cp_argv = [mc_executable mc, ''-m'', ''pytest'', ''-q''], cp_output = 64000\<rparr>),
      (''full_backend_pytest'', \<lparr>cp_capability = ''run_full_suite'', cp_argv = [mc_executable mc, ''-m'', ''pytest'', ''-q''], cp_output = 128000\<rparr>),
      (''ruff_check'', \<lparr>cp_capability = ''run_static_check'', cp_argv = [''ruff'', ''check''], cp_output = 64000\<rparr>),
      (''git_diff_check'', \<lparr>cp_capability = ''run_static_check'', cp_argv = [''git'', ''diff'', ''--check''], cp_output = 32000\<rparr>),
      (''alembic'', \<lparr>cp_capability = ''run_migration_check'', cp_argv = [''alembic''], cp_output = 64000\<rparr>)]"

definition safe_env_names :: "string set" where
  "safe_env_names = {''PATH'', ''TZ'', ''PGTZ'', ''PYTHONPATH'', ''LANG'', ''LC_ALL''}"

text \<open>The part of a pytest target before \<open>::\<close>.\<close>

fun before_colons :: "string \<Rightarrow> string" where
  "before_colons (a # b # w) = (if a = CHR '':'' \<and> b = CHR '':'' then [] else a # before_colons (b # w))"
| "before_colons w = w"

fun each_path :: "machine \<Rightarrow> operator_context \<Rightarrow> bool \<Rightarrow> string list \<Rightarrow> op_error + unit" where
  "each_path mc ctx wr [] = Inr ()"
| "each_path mc ctx wr (p # ps) = sbind (guard_path mc ctx wr p) (\<lambda>_. each_path mc ctx wr ps)"

fun ruff_arguments :: "machine \<Rightarrow> operator_context \<Rightarrow> string list \<Rightarrow> op_error + unit" where
  "ruff_arguments mc ctx [] = Inr ()"
| "ruff_arguments mc ctx (a # as) =
     (if take 1 a = ''-'' then Inl (OpCommand ''ruff options are fixed by profile'')
      else sbind (guard_path mc ctx False a) (\<lambda>_. ruff_arguments mc ctx as))"

definition profile_arguments :: "machine \<Rightarrow> operator_context \<Rightarrow> string \<Rightarrow> string list \<Rightarrow> op_error + unit" where
  "profile_arguments mc ctx name args =
     (if name = ''focused_pytest'' then
        (case args of
           [a] \<Rightarrow> sbind (guard_path mc ctx False (before_colons a)) (\<lambda>_. Inr ())
         | _ \<Rightarrow> Inl (OpCommand ''focused pytest accepts exactly one target''))
      else if name = ''full_backend_pytest'' \<and> args \<noteq> [] then Inl (OpCommand ''full suite profile accepts no arguments'')
      else if name = ''ruff_check'' then ruff_arguments mc ctx args
      else if name = ''git_diff_check'' \<and> args \<noteq> [] then Inl (OpCommand ''git diff check profile accepts no arguments'')
      else if name = ''alembic'' then
        (if \<not> oc_disposable_db ctx then Inl (OpAuthorization ''disposable database'')
         else ensure (args \<in> {[''upgrade'', ''head''], [''downgrade'', ''-1'']}) (OpCommand ''alembic arguments''))
      else Inr ())"

text \<open>What the process did to the files stays, whatever the audit answers.\<close>

definition run_profile ::
  "machine \<Rightarrow> call_env \<Rightarrow> operator_context \<Rightarrow> string \<Rightarrow> string list \<Rightarrow> string list \<Rightarrow> string \<Rightarrow> op_state \<Rightarrow>
   (op_error + action_result) \<times> op_state" where
  "run_profile mc env ctx name args environment key s =
     (case sbind (require_context mc (ce_now env) ctx True True s) (\<lambda>_.
           sbind (from_option (OpCommand ''command profile is not allowlisted'') (map_of (command_profiles mc) name)) (\<lambda>p.
           sbind (ensure (set environment \<subseteq> safe_env_names) (OpCommand ''environment variable is not allowlisted'')) (\<lambda>_.
           sbind (ensure (list_all (\<lambda>a. a \<noteq> [] \<and> CHR 0x00 \<notin> set a \<and> py_len a \<le> 512) args)
                    (OpCommand ''command argument is malformed'')) (\<lambda>_.
           sbind (replay mc ctx (cp_capability p) key
                    [(''profile'', JStr name), (''arguments'', JArr (map JStr args))] s) (\<lambda>r. Inr (p, r)))))) of
        Inl e \<Rightarrow> (Inl e, s)
      | Inr (p, Some r) \<Rightarrow> (Inr r, s)
      | Inr (p, None) \<Rightarrow>
          (case profile_arguments mc ctx name args of
             Inl e \<Rightarrow> (Inl e, s)
           | Inr _ \<Rightarrow>
               (case mc_run mc (cp_argv p @ args) (os_files s) of
                  (None, fs) \<Rightarrow>
                    let detail = [(''profile'', JStr name), (''arguments'', JArr (map JStr args)), (''error'', JStr ''timeout'')]
                    in answer mc env ctx (cp_capability p) key detail detail ''timeout'' None (s\<lparr>os_files := fs\<rparr>)
                | (Some (code, out), fs) \<Rightarrow>
                    let detail = [(''profile'', JStr name), (''arguments'', JArr (map JStr args)), (''returncode'', JInt code),
                          (''output'', JStr (mc_redact mc (py_last (cp_output p) out)))]
                    in answer mc env ctx (cp_capability p) key detail detail
                         (if code = 0 then ''succeeded'' else ''failed'') None (s\<lparr>os_files := fs\<rparr>))))"

definition capability_missing ::
  "machine \<Rightarrow> call_env \<Rightarrow> operator_context \<Rightarrow> string \<Rightarrow> string \<Rightarrow> bool \<Rightarrow> string \<Rightarrow> op_state \<Rightarrow>
   (op_error + action_result) \<times> op_state" where
  "capability_missing mc env ctx cap why goes_on key s =
     (case require_context mc (ce_now env) ctx False False s of
        Inl e \<Rightarrow> (Inl e, s)
      | Inr _ \<Rightarrow>
          let detail = [(''requested_capability'', JStr cap), (''why_needed'', JStr why),
                        (''unrelated_work_can_continue'', JBool goes_on)]
          in (case answer mc env ctx ''capability_missing'' key detail detail ''deferred'' None s of
                (Inl e, s1) \<Rightarrow> (Inl e, s1)
              | (Inr r, s1) \<Rightarrow> (Inr (r\<lparr>ar_result := ''capability_missing''\<rparr>), s1)))"

section \<open>Staging and committing\<close>

text \<open>A command that changes the index or the history: \<open>mc_git\<close> answers it, and later answers know of it.\<close>

definition git_change :: "machine \<Rightarrow> path \<Rightarrow> string list \<Rightarrow> op_state \<Rightarrow> (op_error + string) \<times> op_state" where
  "git_change mc root args s = (git_out mc root args s, s\<lparr>os_git := os_git s @ [(root, args, os_files s)]\<rparr>)"

definition as_posix :: "string \<Rightarrow> string" where
  "as_posix p =
     (case path_parts p of [] \<Rightarrow> ''.'' | w # ws \<Rightarrow> w @ concat (map (\<lambda>x. ''/'' @ x) ws))"

definition stage_scoped_changes ::
  "machine \<Rightarrow> call_env \<Rightarrow> operator_context \<Rightarrow> string list \<Rightarrow> string \<Rightarrow> op_state \<Rightarrow> (op_error + action_result) \<times> op_state" where
  "stage_scoped_changes mc env ctx ps key s =
     (let normalized = sort (remdups (map as_posix ps));
          detail = [(''paths'', JArr (map JStr normalized))]
      in case sbind (require_context mc (ce_now env) ctx True True s) (\<lambda>_.
              sbind (ensure (ps \<noteq> [] \<and> length ps \<le> 100) (OpPath ''one to 100 scoped paths are required'')) (\<lambda>_.
              sbind (each_path mc ctx True ps) (\<lambda>_.
              replay mc ctx ''stage_scoped_changes'' key detail s))) of
           Inl e \<Rightarrow> (Inl e, s)
         | Inr (Some r) \<Rightarrow> (Inr r, s)
         | Inr None \<Rightarrow>
             (case git_change mc (oc_root ctx) ([''add'', ''--''] @ normalized) s of
                (Inl e, s1) \<Rightarrow> (Inl e, s1)
              | (Inr _, s1) \<Rightarrow> answer mc env ctx ''stage_scoped_changes'' key detail detail ''succeeded'' None s1))"

definition split_lines :: "string \<Rightarrow> string list" where
  "split_lines w = filter (\<lambda>l. l \<noteq> []) (split_on CHR 0x0A w)"

definition verification_passed :: "uuid \<Rightarrow> uuid \<Rightarrow> db \<Rightarrow> bool" where
  "verification_passed tid jid d =
     (case latest_checkpoint_for_step tid jid ''verification'' d of
        None \<Rightarrow> False
      | Some c \<Rightarrow> (case jget (c_state c) ''verification'' of JObj v \<Rightarrow> truthy (jget v ''passed'') | _ \<Rightarrow> False))"

text \<open>The conditions of a commit: message, verified work, staged paths in scope, no secret in the diff.\<close>

definition commit_allowed :: "machine \<Rightarrow> operator_context \<Rightarrow> string \<Rightarrow> op_state \<Rightarrow> op_error + unit" where
  "commit_allowed mc ctx msg s =
     (if strip_chars is_space msg = [] \<or> 200 < py_len msg \<or> CHR 0x0A \<in> set msg then Inl (OpCommand ''commit message is invalid'')
      else if \<not> verification_passed (oc_task ctx) (oc_job ctx) (op_db s) then Inl OpVerificationRequired
      else sbind (git_out mc (oc_root ctx) [''diff'', ''--check'', ''--cached''] s) (\<lambda>_.
           sbind (git_out mc (oc_root ctx) [''diff'', ''--cached'', ''--name-only'', ''--diff-filter=ACMRD''] s) (\<lambda>names.
           if split_lines names = [] then Inl (OpAuthorization ''no explicitly staged changes exist'')
           else sbind (each_path mc ctx True (split_lines names)) (\<lambda>_.
                sbind (git_out mc (oc_root ctx) [''diff'', ''--cached'', ''--no-ext-diff''] s) (\<lambda>diff.
                ensure (\<not> mc_secret mc diff) (OpAuthorization ''secret-like content detected in diff''))))))"

definition set_commit :: "task_worktree option \<Rightarrow> string \<Rightarrow> op_state \<Rightarrow> op_state" where
  "set_commit w sha s =
     (case w of
        None \<Rightarrow> s
      | Some w \<Rightarrow>
          s\<lparr>os_workspace := (os_workspace s)\<lparr>ws_rows :=
              update_rows (\<lambda>x. wt_id x = wt_id w) (\<lambda>x. x\<lparr>wt_current_commit := Some sha\<rparr>) (ws_rows (os_workspace s))\<rparr>\<rparr>)"

definition commit_changes ::
  "machine \<Rightarrow> call_env \<Rightarrow> operator_context \<Rightarrow> string \<Rightarrow> string \<Rightarrow> op_state \<Rightarrow> (op_error + action_result) \<times> op_state" where
  "commit_changes mc env ctx msg key s =
     (let hash = mc_sha mc msg
      in case sbind (require_context mc (ce_now env) ctx True True s) (\<lambda>(_, _, _, w).
              sbind (replay mc ctx ''commit_scoped_changes'' key [(''message_sha256'', JStr hash)] s) (\<lambda>r. Inr (w, r))) of
           Inl e \<Rightarrow> (Inl e, s)
         | Inr (w, Some r) \<Rightarrow> (Inr r, s)
         | Inr (w, None) \<Rightarrow>
             (case commit_allowed mc ctx msg s of
                Inl e \<Rightarrow> (Inl e, s)
              | Inr _ \<Rightarrow>
                  (case git_change mc (oc_root ctx) [''commit'', ''-q'', ''-m'', msg] s of
                     (Inl e, s1) \<Rightarrow> (Inl e, s1)
                   | (Inr _, s1) \<Rightarrow>
                       (case git_line mc (oc_root ctx) [''rev-parse'', ''HEAD''] s1 of
                          Inl e \<Rightarrow> (Inl e, s1)
                        | Inr sha \<Rightarrow>
                            answer mc env ctx ''commit_scoped_changes'' key
                              [(''commit_sha'', JStr sha), (''message_sha256'', JStr hash)] [(''commit_sha'', JStr sha)]
                              ''succeeded'' None (set_commit w sha s1)))))"

text \<open>
  \<open>checkpoint_operator_progress\<close>. The caller passes what the checkpoint says of its own progress.
\<close>

definition checkpoint_operator_progress ::
  "machine \<Rightarrow> time \<Rightarrow> operator_context \<Rightarrow> uuid list \<Rightarrow> string \<Rightarrow> string list \<Rightarrow> op_state \<Rightarrow> op_error + op_state" where
  "checkpoint_operator_progress mc now ctx done_ids phase failures s =
     sbind (require_context mc now ctx (write_identity_present ctx) False s) (\<lambda>(t, _, _, w).
       case find_row (\<lambda>g. g_id g = t_goal t \<and> g_owner g = oc_owner ctx) (goals (op_db s)) of
         None \<Rightarrow> Inl (OpRaised ''NoResultFound'')
       | Some g \<Rightarrow>
           sbind (git_out mc (oc_root ctx) [''status'', ''--porcelain''] s) (\<lambda>status.
           sbind (git_line mc (oc_root ctx) [''rev-parse'', ''HEAD''] s) (\<lambda>head.
           Inr (set_op_db (record_checkpoint now t g (oc_job ctx) ''development_operator''
             [(''repository'', JStr (path_str (oc_root ctx))), (''base_sha'', JStr (oc_base ctx)),
              (''branch'', JStr (oc_branch ctx)), (''worktree_id'', json_id (map_option wt_id w)),
              (''supervisor_goal_id'', json_id (oc_goal ctx)),
              (''completed_action_ids'', JArr (map (\<lambda>i. JStr (uuid_str i)) done_ids)), (''next_phase'', JStr phase),
              (''unresolved_failures'', JArr (map JStr failures)),
              (''dirty'', JBool (strip_chars is_space status \<noteq> [])), (''head_sha'', JStr head)] (op_db s)) s))))"

section \<open>What the fence and the path guard give\<close>

lemma require_context_Inr:
  "require_context mc now ctx wr rc s = Inr (t, j, b, w) \<longleftrightarrow>
     require_governed_ceiling ctx = Inr () \<and> find_row (own_task ctx) (tasks (op_db s)) = Some t \<and>
     find_row (own_job ctx) (jobs (op_db s)) = Some j \<and> find_row (own_binding ctx) (os_bindings s) = Some b \<and>
     require_live_authority ctx t s = Inr () \<and> require_linked now ctx rc t j b s = Inr () \<and>
     require_repository mc now ctx wr t s = Inr w"
  by (auto simp: require_context_def sbind_Inr_iff split: option.splits)

lemma require_context_cong:
  assumes "os_leases s1 = os_leases s" "os_bindings s1 = os_bindings s" "os_executions s1 = os_executions s"
    "os_workspace s1 = os_workspace s" and "\<And>root args. git_out mc root args s1 = git_out mc root args s"
  shows "require_context mc now ctx wr rc s1 = require_context mc now ctx wr rc s"
proof -
  have line: "git_line mc root args s1 = git_line mc root args s" for root args
    unfolding git_line_def assms(5) ..
  have job: "verify_job_worktree mc ctx wid root s1 = verify_job_worktree mc ctx wid root s" for wid root
    unfolding verify_job_worktree_def assms(4) ..
  have goal: "verify_supervisor_goal_worktree mc now ctx t s1 = verify_supervisor_goal_worktree mc now ctx t s" for t
    unfolding verify_supervisor_goal_worktree_def assms(1) ..
  have rep: "require_repository mc now ctx wr t s1 = require_repository mc now ctx wr t s" for t
    unfolding require_repository_def line job goal ..
  have live: "require_live_authority ctx t s1 = require_live_authority ctx t s" for t
    unfolding require_live_authority_def assms(1) ..
  have linked: "require_linked now ctx rc t j b s1 = require_linked now ctx rc t j b s" for t j b
    unfolding require_linked_def assms(3) ..
  show ?thesis unfolding require_context_def op_db_def assms(1,2) rep live linked ..
qed

text \<open>The job is held, unexpired and, where asked, not cancelled.\<close>

definition held_job :: "time \<Rightarrow> operator_context \<Rightarrow> mainai_job \<Rightarrow> bool" where
  "held_job now ctx j \<longleftrightarrow>
     j_id j = oc_job ctx \<and> j_owner j = oc_owner ctx \<and> j_status j = JRunning \<and> j_locked_by j = Some (oc_worker ctx) \<and>
     j_lease_generation j = oc_generation ctx \<and> (\<forall>at. j_lease_expires_at j = Some at \<longrightarrow> now < at)"

lemma require_linked_Inr:
  assumes "require_linked now ctx rc t j b s = Inr u" and "own_job ctx j"
  shows "held_job now ctx j \<and> t_job t = Some (j_id j) \<and> (rc \<longrightarrow> \<not> j_cancel_requested j)"
  using assms by (auto simp: require_linked_def held_job_def own_job_def ensure_Inr_iff not_le split: option.splits if_splits)

definition authorized_by :: "operator_context \<Rightarrow> mainai_task \<Rightarrow> op_state \<Rightarrow> envelope \<Rightarrow> bool" where
  "authorized_by ctx t s e \<longleftrightarrow>
     oc_envelope ctx = Some (en_id e) \<and>
     get_current_execution_envelope (oc_owner ctx) (t_goal t) (ld_authority (os_leases s)) = Inr (Some e) \<and>
     (\<forall>p\<in>set (oc_paths ctx). path_within_authorized p (en_paths e)) \<and> set (oc_caps ctx) \<subseteq> set (en_capabilities e)"

lemma require_live_authority_Inr:
  assumes "require_live_authority ctx t s = Inr u" and "oc_envelope ctx = Some eid"
  shows "\<exists>e. en_id e = eid \<and> authorized_by ctx t s e"
  using assms
  by (auto simp: require_live_authority_def authorized_by_def list_all_iff subset_iff split: sum.splits option.splits if_splits)

lemma within_path_trans: "within_path a b \<Longrightarrow> within_path b c \<Longrightarrow> within_path a c"
  unfolding within_path_def using prefix_order.trans by auto

lemma within_authorized_trans:
  assumes "path_within_authorized p ceiling" and "\<forall>q\<in>set ceiling. path_within_authorized q authorized"
  shows "path_within_authorized p authorized"
  using assms within_path_trans unfolding path_within_authorized_def list_ex_iff by blast

lemma guard_path_Inr:
  "guard_path mc ctx wr p = Inr r \<Longrightarrow>
     p \<noteq> [] \<and> \<not> is_absolute p \<and> ''..'' \<notin> set (path_parts p) \<and> ''.git'' \<notin> set (lowered_parts p) \<and>
     (\<forall>w\<in>set (lowered_parts p). w \<notin> sensitive_parts) \<and>
     (oc_paths ctx = [] \<or> path_within_authorized p (oc_paths ctx)) \<and>
     mc_resolve mc (oc_root ctx @ path_parts p) = Some r \<and> prefix (oc_root ctx) r \<and> (wr \<longrightarrow> r \<noteq> oc_root ctx)"
  by (auto simp: guard_path_def list_ex_iff split: if_splits option.splits)

lemma lower_git: "map lower_char ''.git'' = ''.git''"
  by (simp add: lower_char_def)

lemma record_trace_files:
  "record_trace_event e s = Inr (s1, x) \<Longrightarrow> os_files s1 = os_files s \<and> os_leases s1 = os_leases s \<and> os_intents s1 = os_intents s"
  by (auto simp: record_trace_event_def Let_def split: option.splits if_splits)

lemma answer_files:
  "answer mc env ctx cap key logged detail result intent s = (r, s1) \<Longrightarrow> os_files s1 = os_files s \<and> os_leases s1 = os_leases s"
  by (auto simp: answer_def audit_def clear_write_intent_def dest!: record_trace_files split: sum.splits option.splits)

lemma map_of_filter_key: "map_of (filter (\<lambda>x. fst x \<noteq> at) fs) p = (if p = at then None else map_of fs p)"
  by (induction fs) auto

lemma file_updates [simp]:
  "map_of (os_files (put_file at c s)) p = (if p = at then Some c else map_of (os_files s) p)"
  "map_of (os_files (remove_file at s)) p = (if p = at then None else map_of (os_files s) p)"
  "os_leases (put_file at c s) = os_leases s" "os_files (put_intent i v s) = os_files s"
  by (simp_all add: put_file_def remove_file_def put_intent_def map_of_filter_key)

lemma apply_write_files:
  assumes "apply_write mc env ctx q key target s = (r, s1)"
  shows "os_files s1 = os_files s \<or> (\<forall>p. p \<noteq> target \<longrightarrow> map_of (os_files s1) p = map_of (os_files s) p)"
proof -
  have "os_files s1 = os_files s \<or> os_files s1 = os_files (remove_file target s) \<or>
      (\<exists>c i v. os_files s1 = os_files (put_file target c (put_intent i v s)))"
    using assms by (auto simp: apply_write_def Let_def dest!: answer_files split: if_splits option.splits)
  then show ?thesis by auto
qed

lemma write_file_effect:
  assumes "write_file mc env ctx q key s = (r, s1)" and "os_files s1 \<noteq> os_files s"
  shows "\<exists>t j b w target. require_context mc (ce_now env) ctx True True s = Inr (t, j, b, w) \<and>
    guard_path mc ctx True (wq_path q) = Inr target \<and>
    (\<forall>p. p \<noteq> target \<longrightarrow> map_of (os_files s1) p = map_of (os_files s) p)"
  using assms by (auto simp: write_file_def dest!: answer_files apply_write_files split: sum.splits option.splits bool.splits)

section \<open>Properties\<close>


text \<open>A write whose process died after the file was written and before the transaction committed.\<close>

definition crashed_write :: "machine \<Rightarrow> operator_context \<Rightarrow> write_request \<Rightarrow> string \<Rightarrow> path \<Rightarrow> op_state \<Rightarrow> op_state" where
  "crashed_write mc ctx q key target s =
     (let cap = (if map_of (os_files s) target = None then ''create_file'' else ''patch_file'')
      in put_file target (the (wq_content q))
           (put_intent (write_intent_path mc ctx key (wq_path q))
              (JObj (write_intent_payload ctx key (wq_path q) cap (wq_expected q) (requested_after mc q))) s))"

definition crashed_delete :: "path \<Rightarrow> op_state \<Rightarrow> op_state" where
  "crashed_delete target s = remove_file target s"

lemma intent_matches:
  assumes "requested_capability q = cap"
  shows "list_all (\<lambda>k. jget (write_intent_payload ctx key p cap before after) k =
      jget (write_intent_payload (ctx\<lparr>oc_worker := w, oc_generation := gen\<rparr>) key p (requested_capability q) before after) k) intent_identity"
  using assms by (simp add: write_intent_payload_def intent_identity_def jget_def)

lemma write_intent_path_worker [simp]:
  "write_intent_path mc (ctx\<lparr>oc_worker := w, oc_generation := gen\<rparr>) key p = write_intent_path mc ctx key p"
  by (simp add: write_intent_path_def)

lemma guard_path_worker [simp]:
  "guard_path mc (ctx\<lparr>oc_worker := w, oc_generation := gen\<rparr>) wr p = guard_path mc ctx wr p"
  by (cases "mc_resolve mc (oc_root ctx @ path_parts p)") (simp_all add: guard_path_def)

lemma audit_fresh:
  assumes "find_row (keyed_trace (oc_owner ctx) (oc_strategy ctx) key) (os_traces s) = None"
    and "find_row (own_binding ctx) (os_bindings s) = Some b"
  shows "\<exists>s2 e. audit mc env ctx cap key detail result s = Inr (s2, e) \<and> os_files s2 = os_files s \<and>
    length (os_traces s2) = length (os_traces s) + 1"
  using assms by (auto simp: audit_def record_trace_event_def own_binding_def [abs_def] Let_def)

lemma answer_fresh:
  assumes "find_row (keyed_trace (oc_owner ctx) (oc_strategy ctx) key) (os_traces s) = None"
    and "find_row (own_binding ctx) (os_bindings s) = Some b"
  shows "\<exists>res s2. answer mc env ctx cap key logged detail result (Some at) s = (Inr res, s2) \<and> ar_result res = result \<and>
    os_files s2 = os_files s \<and> length (os_traces s2) = length (os_traces s) + 1 \<and> map_of (os_intents s2) at = None"
proof -
  obtain s2 e where "audit mc env ctx cap key logged result s = Inr (s2, e)" "os_files s2 = os_files s"
    "length (os_traces s2) = length (os_traces s) + 1"
    using audit_fresh [OF assms] by blast
  then show ?thesis by (simp add: answer_def clear_write_intent_def map_of_filter_key)
qed

text \<open>C21: A write survives a crash between its effect on the file and its commit. Repeated under the same key, even by
  another worker under a later lease, it is recognized by its intent, changes no file again, records its one
  missing trace event and clears the intent.\<close>

theorem crashed_write_heals:
  assumes "find_row (keyed_trace (oc_owner ctx) (oc_strategy ctx) key) (os_traces s) = None"
    and "\<not> wq_delete q" and "wq_content q = Some c"
    and "map_option (mc_sha mc) (map_of (os_files s) target) = wq_expected q"
    and "guard_path mc ctx True (wq_path q) = Inr target"
    and "require_context mc (ce_now env) (ctx\<lparr>oc_worker := w, oc_generation := gen\<rparr>) True True
      (crashed_write mc ctx q key target s) = Inr x"
  shows "\<exists>res s2. write_file mc env (ctx\<lparr>oc_worker := w, oc_generation := gen\<rparr>) q key (crashed_write mc ctx q key target s) =
      (Inr res, s2) \<and> ar_result res = ''succeeded'' \<and> os_files s2 = os_files (crashed_write mc ctx q key target s) \<and>
    length (os_traces s2) = length (os_traces s) + 1 \<and>
    map_of (os_intents s2) (write_intent_path mc ctx key (wq_path q)) = None"
proof -
  let ?ctx = "ctx\<lparr>oc_worker := w, oc_generation := gen\<rparr>" and ?s = "crashed_write mc ctx q key target s"
  let ?at = "write_intent_path mc ctx key (wq_path q)"
  have cap: "requested_capability q = (if map_of (os_files s) target = None then ''create_file'' else ''patch_file'')"
    using assms(2,4) by (auto simp: requested_capability_def)
  have at: "map_of (os_files ?s) target = Some c" "os_traces ?s = os_traces s" "os_bindings ?s = os_bindings s"
    "map_of (os_intents ?s) ?at = Some (JObj (write_intent_payload ctx key (wq_path q) (requested_capability q)
       (wq_expected q) (requested_after mc q)))"
    using assms(3) cap by (simp_all add: crashed_write_def put_file_def put_intent_def Let_def)
  have after: "requested_after mc q = Some (mc_sha mc c)" using assms(2,3) by (simp add: requested_after_def)
  have "healable mc ?ctx q key target ?s = Inr True"
    using assms(2,3) at after intent_matches [OF refl, where q = q]
    by (simp add: healable_def matching_write_intent_def)
  moreover have "replay mc ?ctx (requested_capability q) key (hash_detail (wq_path q) (wq_expected q) (requested_after mc q)) ?s = Inr None"
    using assms(1) at by (simp add: replay_def)
  moreover obtain b where b: "find_row (own_binding ?ctx) (os_bindings ?s) = Some b"
    using assms(6) by (cases x) (auto simp: require_context_Inr)
  moreover have "find_row (keyed_trace (oc_owner ?ctx) (oc_strategy ?ctx) key) (os_traces ?s) = None"
    using assms(1) at by simp
  note answer_fresh [OF this b, of mc env "requested_capability q" "hash_detail (wq_path q) (wq_expected q) (requested_after mc q) @
      [(''recovered_after_crash_before_audit'', JBool True)]" "hash_detail (wq_path q) (wq_expected q) (requested_after mc q)"
      "''succeeded''" ?at]
  ultimately show ?thesis
    using assms(5,6) at(2) by (simp add: write_file_def)
qed

text \<open>A delete leaves no intent: after the same crash its repetition is refused for ever.\<close>

lemma crashed_delete_stuck:
  assumes "find_row (keyed_trace (oc_owner ctx) (oc_strategy ctx) key) (os_traces s) = None" and "wq_delete q"
    and "map_option (mc_sha mc) (map_of (os_files s) target) = wq_expected q" and "map_of (os_files s) target \<noteq> None"
    and "guard_path mc ctx True (wq_path q) = Inr target"
    and "require_context mc (ce_now env) ctx True True (remove_file target s) = Inr x"
  shows "write_file mc env ctx q key (remove_file target s) =
    (Inl (OpAuthorization ''expected-before hash mismatch''), remove_file target s)"
proof -
  have "replay mc ctx (requested_capability q) key (hash_detail (wq_path q) (wq_expected q) (requested_after mc q))
      (remove_file target s) = Inr None"
    using assms(1) by (simp add: replay_def remove_file_def)
  moreover obtain y where "wq_expected q = Some y"
    using assms(3,4) by (cases "map_of (os_files s) target") (simp_all add: eq_commute)
  ultimately show ?thesis
    using assms(2,5,6) by (simp add: write_file_def healable_def apply_write_def Let_def)
qed

section \<open>A concrete repository\<close>

definition op_sample_grant :: grant_values where
  "op_sample_grant = sample_grant\<lparr>gv_paths := [''src''], gv_capabilities := [''patch_file'', ''run_static_check'']\<rparr>"

definition op_sample_leases :: lease_db where
  "op_sample_leases =
     \<lparr>ld_leases = [new_lease 0 90 7 20 60 ''w'' 100],
      ld_authority = \<lparr>au_proposals = [],
        au_envelopes = [new_envelope 4 60 (new_proposal 3 50 7 ''p'' sample_scope) op_sample_grant None],
        au_base = dead_sample_db\<lparr>envelopes := [(7, 20)],
          goals := [sample_goal\<lparr>g_approval_policy := ''autonomous_development_work''\<rparr>], tasks := [(sample_task 1 TRunning)\<lparr>t_job := Some 5\<rparr>]\<rparr>\<rparr>\<rparr>"

definition op_sample :: op_state where
  "op_sample =
     \<lparr>os_leases = op_sample_leases, os_bindings = [\<lparr>sb_id = 30, sb_owner = 7, sb_execution = 31, sb_next = 1\<rparr>],
      os_executions = [\<lparr>ex_id = 31, ex_owner = 7, ex_task = 1, ex_job = Some 5\<rparr>], os_traces = [],
      os_workspace = \<lparr>ws_rows = [], ws_markers = \<lambda>_. None\<rparr>,
      os_files = [(goal_worktree_path 20 @ [''src'', ''a.py''], ''old''), (goal_worktree_path 20 @ [''.git'', ''config''], ''c'')],
      os_git = [], os_intents = []\<rparr>"

definition op_sample_ctx :: operator_context where
  "op_sample_ctx =
     \<lparr>oc_owner = 7, oc_task = 1, oc_job = 5, oc_worker = ''w'', oc_generation = 1, oc_root = goal_worktree_path 20,
      oc_base = ''c0'', oc_branch = goal_branch_name 20, oc_strategy = 30, oc_worktree = None, oc_goal = Some 20,
      oc_lease = Some 90, oc_lease_generation = Some 1, oc_envelope = Some 60, oc_paths = [''src''],
      oc_caps = [''patch_file'', ''run_static_check''], oc_remote = False, oc_remote_sha = None, oc_disposable_db = False\<rparr>"

text \<open>\<open>src/link\<close> is a symbolic link to \<open>.git/config\<close>; nothing else is one.\<close>

definition op_sample_machine :: machine where
  "op_sample_machine =
     \<lparr>mc_resolve = (\<lambda>p. Some (if p = goal_worktree_path 20 @ [''src'', ''link''] then goal_worktree_path 20 @ [''.git'', ''config''] else p)),
      mc_is_dir = (\<lambda>_. True),
      mc_git = (\<lambda>root args _ _. Inr (if args = [''rev-parse'', ''--show-toplevel''] then path_str root
        else if args = [''branch'', ''--show-current''] then goal_branch_name 20 else [])),
      mc_run = (\<lambda>_ fs. (Some (0, []), fs)), mc_tree = (\<lambda>root fs. filter (prefix root) (map fst fs)),
      mc_search = (\<lambda>_ _ _. SearchDone 1 [] []), mc_executable = ''python'', mc_sha = (\<lambda>w. w), mc_redact = (\<lambda>v. v),
      mc_secret = (\<lambda>_. False)\<rparr>"

lemma sample_uuid_str: "uuid_str 20 = ''00000000-0000-0000-0000-000000000014''"
  by code_simp

lemma sample_lines:
  "strip_chars is_space (path_str (goal_worktree_path 20)) = path_str (goal_worktree_path 20)"
  "strip_chars is_space (goal_branch_name 20) = goal_branch_name 20"
  by (rule strip_chars_none, simp add: path_str_def goal_worktree_path_def goal_worktree_root_def goal_branch_name_def
      sample_uuid_str is_space_def)+

lemma op_sample_live: "require_live_authority op_sample_ctx ((sample_task 1 TRunning)\<lparr>t_job := Some 5\<rparr>) op_sample = Inr ()"
  by (simp add: require_live_authority_def op_sample_ctx_def op_sample_def op_sample_leases_def
      get_current_execution_envelope_def active_envelope_def scalar_one_or_none_def new_envelope_def new_proposal_def
      sample_scope_def op_sample_grant_def sample_grant_def sample_task_def path_within_authorized_def within_path_def)

lemma op_sample_linked:
  "require_linked 3 op_sample_ctx rc ((sample_task 1 TRunning)\<lparr>t_job := Some 5\<rparr>) dead_sample_job
     \<lparr>sb_id = 30, sb_owner = 7, sb_execution = 31, sb_next = 1\<rparr> op_sample = Inr ()"
  by (simp add: require_linked_def own_execution_def op_sample_ctx_def op_sample_def dead_sample_job_def dispatch_job_def
      new_job_def ensure_def sample_task_def)

lemma op_sample_repository:
  "require_repository op_sample_machine 3 op_sample_ctx True ((sample_task 1 TRunning)\<lparr>t_job := Some 5\<rparr>) op_sample = Inr None"
proof -
  have "verify_supervisor_goal_worktree op_sample_machine 3 op_sample_ctx ((sample_task 1 TRunning)\<lparr>t_job := Some 5\<rparr>) op_sample = Inr ()"
    by (simp add: verify_supervisor_goal_worktree_def op_sample_ctx_def op_sample_machine_def op_sample_def
        op_sample_leases_def sample_task_def lease_of_context_def new_lease_def resolved_def from_option_def
        goal_worktree_path_def ensure_def)
  moreover have "oc_root op_sample_ctx = goal_worktree_path 20" "oc_branch op_sample_ctx = goal_branch_name 20"
    "oc_worktree op_sample_ctx = None" "supervisor_binding_claimed op_sample_ctx"
    by (simp_all add: op_sample_ctx_def supervisor_binding_claimed_def)
  moreover have "resolved op_sample_machine (goal_worktree_path 20) = Inr (goal_worktree_path 20)"
    "mc_is_dir op_sample_machine p" "git_line op_sample_machine root [''rev-parse'', ''--show-toplevel''] op_sample = Inr (strip_chars is_space (path_str root))"
    "git_line op_sample_machine root [''branch'', ''--show-current''] op_sample = Inr (strip_chars is_space (goal_branch_name 20))" for p root
    by (simp_all add: resolved_def from_option_def op_sample_machine_def git_line_def git_out_def goal_worktree_path_def)
  ultimately show ?thesis by (simp add: require_repository_def sample_lines write_identity_present_def)
qed

lemma op_sample_context:
  "require_context op_sample_machine 3 op_sample_ctx True rc op_sample =
     Inr ((sample_task 1 TRunning)\<lparr>t_job := Some 5\<rparr>, dead_sample_job,
       \<lparr>sb_id = 30, sb_owner = 7, sb_execution = 31, sb_next = 1\<rparr>, None)"
proof -
  have rows: "find_row (own_task op_sample_ctx) (tasks (op_db op_sample)) = Some ((sample_task 1 TRunning)\<lparr>t_job := Some 5\<rparr>)"
    "find_row (own_job op_sample_ctx) (jobs (op_db op_sample)) = Some dead_sample_job"
    "find_row (own_binding op_sample_ctx) (os_bindings op_sample) = Some \<lparr>sb_id = 30, sb_owner = 7, sb_execution = 31, sb_next = 1\<rparr>"
    by (simp_all add: own_task_def own_job_def own_binding_def op_sample_ctx_def op_sample_def op_sample_leases_def op_db_def
        sample_task_def dead_sample_db_def dead_sample_job_def dispatch_job_def new_job_def)
  have "require_governed_ceiling op_sample_ctx = Inr ()" by (simp add: require_governed_ceiling_def ensure_def op_sample_ctx_def)
  with rows op_sample_live op_sample_linked op_sample_repository
  show ?thesis by (simp add: require_context_def)
qed

definition sample_write :: "string \<Rightarrow> string \<Rightarrow> write_request" where
  "sample_write p old = \<lparr>wq_path = p, wq_content = Some ''new'', wq_expected = Some old, wq_delete = False\<rparr>"

definition sample_env :: call_env where
  "sample_env = \<lparr>ce_now = 3, ce_duration = 1, ce_id = 80\<rparr>"

lemma sample_guard:
  "guard_path op_sample_machine op_sample_ctx True ''src/a.py'' = Inr (goal_worktree_path 20 @ [''src'', ''a.py''])"
  "guard_path op_sample_machine op_sample_ctx True ''src/link'' = Inr (goal_worktree_path 20 @ [''.git'', ''config''])"
  by (simp_all add: guard_path_def op_sample_ctx_def op_sample_machine_def path_parts_def lowered_parts_def lower_char_def
      sensitive_parts_def path_within_authorized_def within_path_def path_root_def is_absolute_def)

lemma sample_files:
  "map_of (os_files op_sample) (goal_worktree_path 20 @ [''src'', ''a.py'']) = Some ''old''"
  "map_of (os_files op_sample) (goal_worktree_path 20 @ [''.git'', ''config'']) = Some ''c''"
  "os_traces op_sample = []" "os_intents op_sample = []" "mc_sha op_sample_machine w = w"
  "find_row (own_binding op_sample_ctx) (os_bindings op_sample) \<noteq> None"
  by (simp_all add: op_sample_def op_sample_machine_def own_binding_def op_sample_ctx_def)

lemma apply_write_runs:
  assumes "map_of (os_files s) target = Some old" and "find_row (own_binding ctx) (os_bindings s) \<noteq> None"
    and "os_traces s = []" and "mc_sha mc old = old" and "\<not> write_blocked target (os_files s)"
  shows "\<exists>res s1. apply_write mc env ctx (sample_write p old) key target s = (Inr res, s1) \<and>
    map_of (os_files s1) target = Some ''new''"
proof -
  let ?i = "write_intent_path mc ctx key p"
  let ?s = "put_file target ''new'' (put_intent ?i (JObj (write_intent_payload ctx key p ''patch_file'' (Some old)
      (Some (mc_sha mc ''new'')))) s)"
  obtain b where b: "find_row (own_binding ctx) (os_bindings ?s) = Some b"
    using assms(2) by (auto simp: put_file_def put_intent_def)
  have "find_row (keyed_trace (oc_owner ctx) (oc_strategy ctx) key) (os_traces ?s) = None"
    using assms(3) by (simp add: put_file_def put_intent_def)
  from answer_fresh [OF this b] obtain res s2 where
    "answer mc env ctx ''patch_file'' key (hash_detail p (Some old) (Some (mc_sha mc ''new'')))
       (hash_detail p (Some old) (Some (mc_sha mc ''new''))) ''succeeded'' (Some ?i) ?s = (Inr res, s2)"
    "os_files s2 = os_files ?s" by blast
  then show ?thesis
    using assms(1,4,5) by (simp add: apply_write_def sample_write_def requested_after_def Let_def)
qed

lemma sample_write_runs:
  assumes "p = ''src/a.py'' \<and> old = ''old'' \<and> target = goal_worktree_path 20 @ [''src'', ''a.py''] \<or>
    p = ''src/link'' \<and> old = ''c'' \<and> target = goal_worktree_path 20 @ [''.git'', ''config'']"
  shows "\<exists>res s1. write_file op_sample_machine sample_env op_sample_ctx (sample_write p old) ''k'' op_sample = (Inr res, s1) \<and>
    map_of (os_files s1) target = Some ''new''"
proof -
  have "\<not> write_blocked target (os_files op_sample)" "map_of (os_files op_sample) target = Some old"
    "guard_path op_sample_machine op_sample_ctx True p = Inr target"
    using assms sample_guard sample_files by (auto simp: write_blocked_def op_sample_def strict_prefix_def)
  moreover obtain res s1 where "apply_write op_sample_machine sample_env op_sample_ctx (sample_write p old) ''k'' target op_sample = (Inr res, s1)"
    "map_of (os_files s1) target = Some ''new''"
    using apply_write_runs [of op_sample target old op_sample_ctx op_sample_machine sample_env p "''k''"]
      sample_files calculation by auto
  moreover obtain x where "require_context op_sample_machine 3 op_sample_ctx True True op_sample = Inr x"
    using op_sample_context by blast
  moreover have "old \<noteq> ''new''" using assms by auto
  ultimately show ?thesis
    using sample_files by (auto simp: write_file_def sample_env_def sample_write_def replay_def healable_def
        requested_after_def matching_write_intent_def)
qed

text \<open>
  The path guard looks at the path as written: through a symbolic link inside an authorized directory a
  write reaches any file of the repository, also \<open>.git/config\<close>.
\<close>

lemma symlink_leaves_scope:
  "\<exists>res s1. write_file op_sample_machine sample_env op_sample_ctx (sample_write ''src/link'' ''c'') ''k'' op_sample = (Inr res, s1) \<and>
     map_of (os_files s1) (goal_worktree_path 20 @ [''.git'', ''config'']) = Some ''new'' \<and>
     oc_paths op_sample_ctx = [''src'']"
  using sample_write_runs [of "''src/link''" "''c''" "goal_worktree_path 20 @ [''.git'', ''config'']"]
  by (simp add: op_sample_ctx_def)


theorem crashed_write_heals_witness:
  "\<exists>res s2. write_file op_sample_machine sample_env op_sample_ctx (sample_write ''src/a.py'' ''old'') ''k''
       (crashed_write op_sample_machine op_sample_ctx (sample_write ''src/a.py'' ''old'') ''k''
          (goal_worktree_path 20 @ [''src'', ''a.py'']) op_sample) = (Inr res, s2) \<and>
     ar_result res = ''succeeded'' \<and> length (os_traces s2) = 1"
proof -
  let ?q = "sample_write ''src/a.py'' ''old''" and ?t = "goal_worktree_path 20 @ [''src'', ''a.py'']"
  have same: "op_sample_ctx\<lparr>oc_worker := ''w'', oc_generation := 1\<rparr> = op_sample_ctx" by (simp add: op_sample_ctx_def)
  have "require_context op_sample_machine 3 op_sample_ctx True True (crashed_write op_sample_machine op_sample_ctx ?q ''k'' ?t op_sample) =
      require_context op_sample_machine 3 op_sample_ctx True True op_sample"
  proof (rule require_context_cong)
    have "mc_git op_sample_machine root args h f = mc_git op_sample_machine root args h' f'" for root args h f h' f'
      by (simp add: op_sample_machine_def)
    then show "git_out op_sample_machine root args (crashed_write op_sample_machine op_sample_ctx ?q ''k'' ?t op_sample) =
        git_out op_sample_machine root args op_sample" for root args
      unfolding git_out_def by metis
  qed (simp_all add: crashed_write_def put_file_def put_intent_def Let_def)
  then obtain x where "require_context op_sample_machine (ce_now sample_env) (op_sample_ctx\<lparr>oc_worker := ''w'', oc_generation := 1\<rparr>) True True
      (crashed_write op_sample_machine op_sample_ctx ?q ''k'' ?t op_sample) = Inr x"
    using op_sample_context same by (auto simp: sample_env_def)
  note ctx_run = this
  have facts: "find_row (keyed_trace (oc_owner op_sample_ctx) (oc_strategy op_sample_ctx) ''k'') (os_traces op_sample) = None"
    "\<not> wq_delete ?q" "wq_content ?q = Some ''new''" 
    "map_option (mc_sha op_sample_machine) (map_of (os_files op_sample) ?t) = wq_expected ?q"
    "guard_path op_sample_machine op_sample_ctx True (wq_path ?q) = Inr ?t"
    using sample_files sample_guard by (simp_all add: sample_write_def)
  from crashed_write_heals [OF facts ctx_run] obtain res s2 where
    "write_file op_sample_machine sample_env (op_sample_ctx\<lparr>oc_worker := ''w'', oc_generation := 1\<rparr>) ?q ''k''
       (crashed_write op_sample_machine op_sample_ctx ?q ''k'' ?t op_sample) = (Inr res, s2)"
    "ar_result res = ''succeeded''" "length (os_traces s2) = length (os_traces op_sample) + 1" by blast
  then show ?thesis unfolding same using sample_files(3) by simp
qed

end
