(* ===== verification/Driver.thy ===== *)
theory Driver
  imports Operator
begin

text \<open>
  The bounded work driver of \<open>app/development_driver/service.py\<close>: it validates a development plan, carries out
  its steps through the operator one by one, records where it is in a checkpoint after which a later invocation
  goes on, and completes the task and its job once the plan is through and verified. What other sessions commit
  while it runs (a cancel, a takeover, a new envelope) is the parameter \<open>dv_world\<close>, applied before each effect
  and before each progress checkpoint.
\<close>

section \<open>Plans and results\<close>

record driver_step =
  dp_capability :: string
  dp_purpose :: string
  dp_expected :: string
  dp_arguments :: jdict
  dp_risk :: string
  dp_evidence :: string
  dp_verify :: bool
  dp_on_failure :: string
  dp_independent :: bool

record development_plan =
  pn_id :: string
  pn_steps :: "driver_step list"
  pn_strategy :: uuid
  pn_max_failures :: int

datatype driver_error = DrPlan string | DrOperator op_error | DrRuntime error | DrRaised string

datatype driver_phase =
  PhAssess | PhPlan | PhExecute | PhVerify | PhReview | PhLearn | PhReEvaluate | PhWait | PhBlocked | PhComplete |
  PhFailed | PhCancelled

datatype driver_class =
  ClSuccess | ClFailedRetryable | ClFailedNonretryable | ClCapabilityMissing | ClWaitingExternal |
  ClWaitingProvider | ClWaitingApproval | ClExternalReview | ClVerificationRequired | ClBlocked | ClCancelled |
  ClActionBound | ClComplete | ClNeedsSelection | ClStaleAuthority

primrec phase_value :: "driver_phase \<Rightarrow> string" where
  "phase_value PhAssess = ''ASSESS''"
| "phase_value PhPlan = ''PLAN''"
| "phase_value PhExecute = ''EXECUTE''"
| "phase_value PhVerify = ''VERIFY''"
| "phase_value PhReview = ''REVIEW''"
| "phase_value PhLearn = ''LEARN''"
| "phase_value PhReEvaluate = ''RE_EVALUATE''"
| "phase_value PhWait = ''WAIT''"
| "phase_value PhBlocked = ''BLOCKED''"
| "phase_value PhComplete = ''COMPLETE''"
| "phase_value PhFailed = ''FAILED''"
| "phase_value PhCancelled = ''CANCELLED''"

primrec class_value :: "driver_class \<Rightarrow> string" where
  "class_value ClSuccess = ''SUCCESS''"
| "class_value ClFailedRetryable = ''FAILED_RETRYABLE''"
| "class_value ClFailedNonretryable = ''FAILED_NONRETRYABLE''"
| "class_value ClCapabilityMissing = ''CAPABILITY_MISSING''"
| "class_value ClWaitingExternal = ''WAITING_EXTERNAL''"
| "class_value ClWaitingProvider = ''WAITING_PROVIDER''"
| "class_value ClWaitingApproval = ''WAITING_APPROVAL''"
| "class_value ClExternalReview = ''EXTERNAL_REVIEW_REQUIRED''"
| "class_value ClVerificationRequired = ''VERIFICATION_REQUIRED''"
| "class_value ClBlocked = ''BLOCKED''"
| "class_value ClCancelled = ''CANCELLED''"
| "class_value ClActionBound = ''ACTION_BOUND_REACHED''"
| "class_value ClComplete = ''COMPLETE''"
| "class_value ClNeedsSelection = ''NEEDS_SELECTION''"
| "class_value ClStaleAuthority = ''STALE_AUTHORITY''"

record driver_result =
  dr_phase :: driver_phase
  dr_class :: driver_class
  dr_completed :: nat
  dr_detail :: jdict

definition driver_directives :: "string set" where
  "driver_directives = {''verification_evaluate'', ''external_review'', ''provider_step''}"

definition forbidden_capabilities :: "string set" where
  "forbidden_capabilities = {''shell'', ''raw_shell'', ''merge'', ''deploy'', ''production_mutation'', ''force_push''}"

primrec risk_rank :: "risk_class \<Rightarrow> nat" where
  "risk_rank ReadOnly = 0"
| "risk_rank LocalWrite = 1"
| "risk_rank LocalExecution = 2"
| "risk_rank RemoteWrite = 3"

definition risk_of_value :: "string \<Rightarrow> risk_class option" where
  "risk_of_value v =
     map_of [(''READ_ONLY'', ReadOnly), (''LOCAL_WRITE'', LocalWrite), (''LOCAL_EXECUTION'', LocalExecution),
             (''REMOTE_WRITE'', RemoteWrite)] v"

text \<open>What the driver keeps between invocations, as the checkpoint stores it.\<close>

record driver_item =
  di_index :: nat
  di_capability :: string
  di_result :: string
  di_trace :: "uuid option"
  di_verify :: bool

record driver_state =
  ds_plan :: string
  ds_hash :: string
  ds_strategy :: string
  ds_completed :: "driver_item list"
  ds_failures :: int
  ds_next :: nat
  ds_attempts :: "(string \<times> nat) list"
  ds_pending :: "(nat \<times> string) option"
  ds_extra :: jdict

record driver_env =
  dv_machine :: machine
  dv_outcome :: outcome_env
  dv_dumps :: "json \<Rightarrow> string"
  dv_call :: "nat \<Rightarrow> call_env"
  dv_elapsed :: "nat \<Rightarrow> int"
  dv_world :: "nat \<Rightarrow> op_state \<Rightarrow> op_state"

section \<open>Identity of a plan\<close>

definition step_json :: "driver_step \<Rightarrow> json" where
  "step_json st =
     JObj [(''capability'', JStr (dp_capability st)), (''purpose'', JStr (dp_purpose st)),
           (''expected_result'', JStr (dp_expected st)), (''arguments'', JObj (dp_arguments st)),
           (''required_risk'', JStr (dp_risk st)), (''expected_evidence'', JStr (dp_evidence st)),
           (''verification_required'', JBool (dp_verify st)), (''on_failure'', JStr (dp_on_failure st)),
           (''independent_of_provider'', JBool (dp_independent st))]"

definition semantic_plan :: "development_plan \<Rightarrow> json" where
  "semantic_plan p =
     JObj [(''plan_id'', JStr (pn_id p)), (''strategy_execution_id'', JStr (uuid_str (pn_strategy p))),
           (''max_failures'', JInt (pn_max_failures p)), (''steps'', JArr (map step_json (pn_steps p)))]"

definition plan_hash :: "driver_env \<Rightarrow> development_plan \<Rightarrow> string" where
  "plan_hash env p = mc_sha (dv_machine env) (dv_dumps env (semantic_plan p))"

definition initial_state :: "driver_env \<Rightarrow> development_plan \<Rightarrow> driver_state" where
  "initial_state env p =
     \<lparr>ds_plan = pn_id p, ds_hash = plan_hash env p, ds_strategy = uuid_str (pn_strategy p), ds_completed = [],
      ds_failures = 0, ds_next = 0, ds_attempts = [], ds_pending = None, ds_extra = []\<rparr>"

section \<open>The driver state in a checkpoint\<close>

definition item_json :: "driver_item \<Rightarrow> json" where
  "item_json x =
     JObj ([(''index'', JInt (int (di_index x))), (''capability'', JStr (di_capability x)), (''result'', JStr (di_result x))] @
       (case di_trace x of
          None \<Rightarrow> []
        | Some i \<Rightarrow> [(''trace_event_id'', JStr (uuid_str i)), (''verification_required'', JBool (di_verify x))]))"

definition driver_keys :: "string list" where
  "driver_keys =
     [''plan_id'', ''plan_hash'', ''strategy_execution_id'', ''completed'', ''failures'', ''next_step'', ''step_attempts'',
      ''pending_provider'']"

definition state_dict :: "driver_state \<Rightarrow> jdict" where
  "state_dict ds =
     [(''plan_id'', JStr (ds_plan ds)), (''plan_hash'', JStr (ds_hash ds)),
      (''strategy_execution_id'', JStr (ds_strategy ds)), (''completed'', JArr (map item_json (ds_completed ds))),
      (''failures'', JInt (ds_failures ds)), (''next_step'', JInt (int (ds_next ds))),
      (''step_attempts'', JObj (map (\<lambda>(k, n). (k, JInt (int n))) (ds_attempts ds)))] @
     (case ds_pending ds of
        None \<Rightarrow> []
      | Some (i, w) \<Rightarrow> [(''pending_provider'', JObj [(''index'', JInt (int i)), (''unresolved'', JStr w)])]) @
     ds_extra ds"

definition json_nat :: "json \<Rightarrow> nat option" where
  "json_nat v = (case v of JInt i \<Rightarrow> if 0 \<le> i then Some (nat i) else None | _ \<Rightarrow> None)"

definition json_str :: "json \<Rightarrow> string option" where
  "json_str v = (case v of JStr w \<Rightarrow> Some w | _ \<Rightarrow> None)"

fun all_some :: "'a option list \<Rightarrow> 'a list option" where
  "all_some [] = Some []"
| "all_some (None # xs) = None"
| "all_some (Some x # xs) = map_option (Cons x) (all_some xs)"

definition item_of_json :: "json \<Rightarrow> driver_item option" where
  "item_of_json v =
     (case v of
        JObj d \<Rightarrow>
          (case (json_nat (jget d ''index''), json_str (jget d ''capability''), json_str (jget d ''result'')) of
             (Some i, Some c, Some r) \<Rightarrow>
               Some \<lparr>di_index = i, di_capability = c, di_result = r, di_trace = json_uuid (jget d ''trace_event_id''),
                     di_verify = truthy (jget d ''verification_required'')\<rparr>
           | _ \<Rightarrow> None)
      | _ \<Rightarrow> None)"

definition or_else :: "'a \<Rightarrow> 'a option \<Rightarrow> 'a" where
  "or_else d x = (case x of None \<Rightarrow> d | Some v \<Rightarrow> v)"

definition json_list :: "json \<Rightarrow> json list" where
  "json_list v = (case v of JArr xs \<Rightarrow> xs | _ \<Rightarrow> [])"

definition json_dict :: "json \<Rightarrow> jdict" where
  "json_dict v = (case v of JObj d \<Rightarrow> d | _ \<Rightarrow> [])"

text \<open>How the next invocation reads it; \<open>None\<close> is an exception on a state the driver does not write.\<close>

definition driver_state_of :: "jdict \<Rightarrow> driver_state option" where
  "driver_state_of d =
     (case (all_some (map item_of_json (json_list (jget d ''completed''))), json_nat (jget d ''next_step''),
            jget d ''failures'',
            all_some (map (\<lambda>(k, v). map_option (Pair k) (json_nat v)) (json_dict (jget d ''step_attempts'')))) of
        (Some items, Some nxt, JInt failures, Some attempts) \<Rightarrow>
          Some \<lparr>ds_plan = or_else [] (json_str (jget d ''plan_id'')), ds_hash = or_else [] (json_str (jget d ''plan_hash'')),
                ds_strategy = or_else [] (json_str (jget d ''strategy_execution_id'')), ds_completed = items,
                ds_failures = failures, ds_next = nxt, ds_attempts = attempts,
                ds_pending = (case jget d ''pending_provider'' of
                    JObj q \<Rightarrow> Some (or_else 0 (json_nat (jget q ''index'')), or_else [] (json_str (jget q ''unresolved'')))
                  | _ \<Rightarrow> None),
                ds_extra = filter (\<lambda>x. fst x \<notin> set driver_keys) d\<rparr>
      | _ \<Rightarrow> None)"

section \<open>Validation of a plan\<close>

definition check_step :: "driver_step \<Rightarrow> driver_error + unit" where
  "check_step st =
     (if strip_chars is_space (dp_purpose st) = [] \<or> strip_chars is_space (dp_expected st) = []
      then Inl (DrPlan ''step lacks purpose/expected result'')
      else if dp_capability st \<in> forbidden_capabilities then Inl (DrPlan ''forbidden capability'')
      else if list_ex (\<lambda>(k, v). k \<in> {''command'', ''shell'', ''argv''}) (dp_arguments st)
      then Inl (DrPlan ''raw command-shaped arguments are forbidden'')
      else if dp_capability st \<in> driver_directives then Inr ()
      else case map_of development_capabilities (dp_capability st) of
             None \<Rightarrow> Inr ()
           | Some actual \<Rightarrow>
               (case risk_of_value (dp_risk st) of
                  None \<Rightarrow> Inl (DrPlan ''step understates capability risk'')
                | Some stated \<Rightarrow>
                    ensure (\<not> risk_rank stated < risk_rank actual) (DrPlan ''step understates capability risk'')))"

fun check_steps :: "driver_step list \<Rightarrow> driver_error + unit" where
  "check_steps [] = Inr ()"
| "check_steps (st # sts) = sbind (check_step st) (\<lambda>_. check_steps sts)"

definition validate_plan ::
  "machine \<Rightarrow> time \<Rightarrow> operator_context \<Rightarrow> development_plan \<Rightarrow> op_state \<Rightarrow> driver_error + (mainai_task \<times> mainai_goal)" where
  "validate_plan mc now ctx p s =
     (if strip_chars is_space (pn_id p) = [] \<or> 128 < py_len (pn_id p)
      then Inl (DrPlan ''plan identity is missing or too long'')
      else if \<not> (1 \<le> length (pn_steps p) \<and> length (pn_steps p) \<le> 50) \<or>
              \<not> (0 \<le> pn_max_failures p \<and> pn_max_failures p \<le> 10)
      then Inl (DrPlan ''plan/action bounds are invalid'')
      else if pn_strategy p \<noteq> oc_strategy ctx
      then Inl (DrPlan ''plan strategy attribution differs from operator context'')
      else case require_context mc now ctx (list_ex (\<lambda>st. dp_risk st \<noteq> ''READ_ONLY'') (pn_steps p)) False s of
             Inl e \<Rightarrow> Inl (DrOperator e)
           | Inr (t, j, b, w) \<Rightarrow>
               if t_status t \<noteq> TRunning then Inl (DrPlan ''not the current running task'')
               else (case find_row (\<lambda>g. g_id g = t_goal t \<and> g_owner g = oc_owner ctx) (goals (op_db s)) of
                       None \<Rightarrow> Inl (DrRaised ''NoResultFound'')
                     | Some g \<Rightarrow>
                         if g_approval_policy g \<noteq> ''autonomous_development_work''
                         then Inl (DrPlan ''approval policy not scoped for unattended execution'')
                         else (case require_task_approval (op_db s) t (g_approval_policy g) of
                                 Inl e \<Rightarrow> Inl (DrRuntime e)
                               | Inr _ \<Rightarrow>
                                   if sb_id b \<noteq> pn_strategy p then Inl (DrPlan ''strategy binding is not canonical'')
                                   else sbind (check_steps (pn_steps p)) (\<lambda>_. Inr (t, g)))))"

section \<open>Calling the operator\<close>

text \<open>
  A step's arguments are passed as keywords: a missing or unknown one is a \<open>TypeError\<close> before the call. A value
  of another JSON type than the parameter's raises after the fence; strings and objects in place of a list,
  which Python would iterate, are treated alike.
\<close>

definition keywords_ok :: "string list \<Rightarrow> string list \<Rightarrow> jdict \<Rightarrow> bool" where
  "keywords_ok required optional args \<longleftrightarrow>
     set required \<subseteq> fst ` set args \<and> fst ` set args \<subseteq> set required \<union> set optional"

definition opt_arg :: "(json \<Rightarrow> 'a option) \<Rightarrow> 'a \<Rightarrow> jdict \<Rightarrow> string \<Rightarrow> 'a option" where
  "opt_arg read dflt args k = (case map_of args k of None \<Rightarrow> Some dflt | Some v \<Rightarrow> read v)"

definition text_or_null :: "json \<Rightarrow> string option option" where
  "text_or_null v = (case v of JNull \<Rightarrow> Some None | JStr w \<Rightarrow> Some (Some w) | _ \<Rightarrow> None)"

definition json_int :: "json \<Rightarrow> int option" where
  "json_int v = (case v of JInt i \<Rightarrow> Some i | JBool b \<Rightarrow> Some (of_bool b) | _ \<Rightarrow> None)"

definition text_list :: "json \<Rightarrow> string list option" where
  "text_list v = (case v of JArr xs \<Rightarrow> all_some (map json_str xs) | _ \<Rightarrow> None)"

definition environment_names :: "json \<Rightarrow> string list option" where
  "environment_names v = (case v of JObj d \<Rightarrow> Some (map fst d) | _ \<Rightarrow> if truthy v then None else Some [])"

type_synonym op_outcome = "(op_error + action_result) \<times> op_state"

definition after_fence ::
  "machine \<Rightarrow> call_env \<Rightarrow> operator_context \<Rightarrow> bool \<Rightarrow> bool \<Rightarrow> op_state \<Rightarrow> 'a option \<Rightarrow> ('a \<Rightarrow> op_outcome) \<Rightarrow> op_outcome" where
  "after_fence mc env ctx wr rc s x f =
     (case x of
        Some a \<Rightarrow> f a
      | None \<Rightarrow>
          (case require_context mc (ce_now env) ctx wr rc s of
             Inl e \<Rightarrow> (Inl e, s)
           | Inr _ \<Rightarrow> (Inl (OpRaised ''TypeError''), s)))"

definition both :: "'a option \<Rightarrow> 'b option \<Rightarrow> ('a \<times> 'b) option" where
  "both x y = (case (x, y) of (Some a, Some b) \<Rightarrow> Some (a, b) | _ \<Rightarrow> None)"

definition type_error :: "op_state \<Rightarrow> op_outcome" where
  "type_error s = (Inl (OpRaised ''TypeError''), s)"

definition invoke_read :: "machine \<Rightarrow> call_env \<Rightarrow> operator_context \<Rightarrow> string \<Rightarrow> jdict \<Rightarrow> string \<Rightarrow> op_state \<Rightarrow> op_outcome" where
  "invoke_read mc env ctx cap args key s =
     (if take 5 cap = ''repo_'' then
        (if \<not> keywords_ok [] [''other_ref''] args then type_error s
         else after_fence mc env ctx False False s (opt_arg text_or_null None args ''other_ref'')
                (\<lambda>r. inspect_repository mc env ctx cap r key s))
      else if cap = ''list_files'' then
        (if \<not> keywords_ok [] [''scope'', ''limit''] args then type_error s
         else after_fence mc env ctx False False s
                (both (opt_arg json_str ''.'' args ''scope'') (opt_arg json_int 1000 args ''limit''))
                (\<lambda>(scope, limit). list_files mc env ctx scope limit key s))
      else if cap = ''search_text'' then
        (if \<not> keywords_ok [''query''] [''scope'', ''limit''] args then type_error s
         else after_fence mc env ctx False False s
                (both (json_str (jget args ''query''))
                   (both (opt_arg json_str ''.'' args ''scope'') (opt_arg json_int 200 args ''limit'')))
                (\<lambda>(query, scope, limit). search_text mc env ctx query scope limit key s))
      else
        (if \<not> keywords_ok [''path''] [''max_bytes''] args then type_error s
         else after_fence mc env ctx False False s
                (both (json_str (jget args ''path'')) (opt_arg json_int 128000 args ''max_bytes''))
                (\<lambda>(p, n). read_file mc env ctx p (nat n) key s)))"

text \<open>A deletion does not look at the content.\<close>

definition write_of_arguments :: "bool \<Rightarrow> jdict \<Rightarrow> write_request option" where
  "write_of_arguments del args =
     map_option (\<lambda>(p, c, x). \<lparr>wq_path = p, wq_content = c, wq_expected = x, wq_delete = del\<rparr>)
       (both (json_str (jget args ''path''))
          (both (if del then Some None else text_or_null (jget args ''content'')) (text_or_null (jget args ''expected_sha256''))))"

definition invoke_effect :: "machine \<Rightarrow> call_env \<Rightarrow> operator_context \<Rightarrow> string \<Rightarrow> jdict \<Rightarrow> string \<Rightarrow> op_state \<Rightarrow> op_outcome" where
  "invoke_effect mc env ctx cap args key s =
     (if cap \<in> {''create_file'', ''patch_file'', ''delete_file''} then
        (if \<not> keywords_ok [''path'', ''content'', ''expected_sha256''] [] args then type_error s
         else after_fence mc env ctx True True s (write_of_arguments (cap = ''delete_file'') args)
                (\<lambda>q. write_file mc env ctx q key s))
      else if take 4 cap = ''run_'' then
        (if \<not> keywords_ok [''profile_name'', ''arguments''] [''environment''] args then type_error s
         else after_fence mc env ctx True True s
                (both (json_str (jget args ''profile_name''))
                   (both (text_list (jget args ''arguments'')) (environment_names (jget args ''environment''))))
                (\<lambda>(name, as, vars). run_profile mc env ctx name as vars key s))
      else if cap = ''stage_scoped_changes'' then
        (if \<not> keywords_ok [''paths''] [] args then type_error s
         else after_fence mc env ctx True True s (text_list (jget args ''paths''))
                (\<lambda>ps. stage_scoped_changes mc env ctx ps key s))
      else
        (if \<not> keywords_ok [''message''] [] args then type_error s
         else after_fence mc env ctx True True s (json_str (jget args ''message''))
                (\<lambda>msg. commit_changes mc env ctx msg key s)))"

definition lift_outcome :: "op_outcome \<Rightarrow> (driver_error + action_result) \<times> op_state" where
  "lift_outcome x = (case fst x of Inl e \<Rightarrow> Inl (DrOperator e) | Inr r \<Rightarrow> Inr r, snd x)"

definition read_capability :: "string \<Rightarrow> bool" where
  "read_capability cap \<longleftrightarrow> take 5 cap = ''repo_'' \<or> cap \<in> {''list_files'', ''search_text'', ''read_file''}"

definition effect_capability :: "string \<Rightarrow> bool" where
  "effect_capability cap \<longleftrightarrow>
     cap \<in> {''create_file'', ''patch_file'', ''delete_file'', ''stage_scoped_changes'', ''commit_scoped_changes''} \<or>
     take 4 cap = ''run_''"

definition invoke_operator ::
  "machine \<Rightarrow> call_env \<Rightarrow> operator_context \<Rightarrow> driver_step \<Rightarrow> string \<Rightarrow> op_state \<Rightarrow>
   (driver_error + action_result) \<times> op_state" where
  "invoke_operator mc env ctx st key s =
     (let cap = dp_capability st; args = dp_arguments st
      in case require_operator_capability ctx cap of
           Inl e \<Rightarrow> (Inl (DrOperator e), s)
         | Inr _ \<Rightarrow>
             if read_capability cap then lift_outcome (invoke_read mc env ctx cap args key s)
             else if effect_capability cap then lift_outcome (invoke_effect mc env ctx cap args key s)
             else if cap = ''push_branch'' then (Inl (DrPlan ''async remote push is outside this synchronous driver slice''), s)
             else lift_outcome (capability_missing mc env ctx cap (dp_purpose st) (dp_independent st) key s))"

section \<open>The loop\<close>

record driver_run =
  rn_env :: driver_env
  rn_ctx :: operator_context
  rn_plan :: development_plan
  rn_goal :: mainai_goal
  rn_max_actions :: nat
  rn_max_elapsed :: int

datatype turn = Returned "driver_error + driver_result" | Goes_on mainai_task driver_state nat

definition driver_checkpoint ::
  "driver_run \<Rightarrow> time \<Rightarrow> mainai_task \<Rightarrow> driver_phase \<Rightarrow> driver_class \<Rightarrow> driver_state \<Rightarrow> op_state \<Rightarrow> op_state" where
  "driver_checkpoint rn now t phase cls ds s =
     set_op_db (record_checkpoint now t (rn_goal rn) (oc_job (rn_ctx rn)) ''development_driver''
       [(''phase'', JStr (phase_value phase)), (''classification'', JStr (class_value cls)),
        (''driver_state'', JObj (state_dict ds))] (op_db s)) s"

definition stop ::
  "driver_run \<Rightarrow> nat \<Rightarrow> mainai_task \<Rightarrow> driver_phase \<Rightarrow> driver_class \<Rightarrow> jdict \<Rightarrow> driver_state \<Rightarrow> op_state \<Rightarrow>
   (driver_error + driver_result) \<times> op_state" where
  "stop rn n t phase cls detail ds s =
     (Inr \<lparr>dr_phase = phase, dr_class = cls, dr_completed = length (ds_completed ds), dr_detail = detail\<rparr>,
      driver_checkpoint rn (ce_now (dv_call (rn_env rn) n)) t phase cls ds s)"

definition returned :: "(driver_error + driver_result) \<times> op_state \<Rightarrow> turn \<times> op_state" where
  "returned x = (Returned (fst x), snd x)"

definition extended :: "jdict \<Rightarrow> driver_state \<Rightarrow> driver_state" where
  "extended kvs ds = ds\<lparr>ds_extra := kvs @ filter (\<lambda>x. fst x \<notin> fst ` set kvs) (ds_extra ds)\<rparr>"

text \<open>Waiting for a provider: the step counts as done, and what follows goes on if it can.\<close>

definition provider_turn ::
  "driver_run \<Rightarrow> nat \<Rightarrow> mainai_task \<Rightarrow> driver_step \<Rightarrow> driver_state \<Rightarrow> nat \<Rightarrow> op_state \<Rightarrow> turn \<times> op_state" where
  "provider_turn rn n t st ds actions s =
     (let i = ds_next ds;
          remaining = list_ex dp_independent (drop (Suc i) (pn_steps (rn_plan rn)));
          ds1 = ds\<lparr>ds_pending := Some (i, dp_purpose st), ds_next := Suc i\<rparr>
      in if remaining then (Goes_on t ds1 actions, s)
         else returned (stop rn n t PhWait ClWaitingProvider [(''independent_work_remains'', JBool False)]
                (extended [(''unresolved'', JStr (dp_purpose st)), (''independent_work_remains'', JBool False)] ds1) s))"

definition required_items :: "driver_state \<Rightarrow> driver_item list" where
  "required_items ds = filter di_verify (ds_completed ds)"

definition items_passed :: "driver_state \<Rightarrow> bool" where
  "items_passed ds \<longleftrightarrow>
     required_items ds \<noteq> [] \<and> list_all (\<lambda>x. di_result x = ''succeeded'') (required_items ds)"

definition item_ids :: "driver_item list \<Rightarrow> uuid list" where
  "item_ids xs = concat (map (\<lambda>x. case di_trace x of None \<Rightarrow> [] | Some i \<Rightarrow> [i]) xs)"

definition id_array :: "uuid list \<Rightarrow> json" where
  "id_array ids = JArr (map (\<lambda>i. JStr (uuid_str i)) ids)"

definition evaluate_turn ::
  "driver_run \<Rightarrow> nat \<Rightarrow> mainai_task \<Rightarrow> driver_step \<Rightarrow> driver_state \<Rightarrow> nat \<Rightarrow> op_state \<Rightarrow> turn \<times> op_state" where
  "evaluate_turn rn n t st ds actions s =
     (let ids = id_array (item_ids (required_items ds));
          s1 = set_op_db (record_checkpoint (ce_now (dv_call (rn_env rn) n)) t (rn_goal rn) (oc_job (rn_ctx rn)) ''verification''
                 [(''verification'', JObj [(''passed'', JBool (items_passed ds))]), (''operator_action_ids'', ids)] (op_db s)) s
      in if \<not> items_passed ds
         then returned (stop rn n t PhVerify ClVerificationRequired
                [(''verification_passed'', JBool False), (''failed_capability'', JStr ''verification_evaluate''),
                 (''capability'', JStr ''verification_evaluate''), (''verification_required'', JBool True),
                 (''operator_action_ids'', ids)] ds s1)
         else (Goes_on t (ds\<lparr>ds_completed := ds_completed ds @
                   [\<lparr>di_index = ds_next ds, di_capability = dp_capability st, di_result = ''succeeded'', di_trace = None,
                     di_verify = False\<rparr>],
                 ds_next := Suc (ds_next ds)\<rparr>) (Suc actions), s1))"

definition attempts_of :: "driver_state \<Rightarrow> nat" where
  "attempts_of ds = or_else 0 (map_of (ds_attempts ds) (nat_str (ds_next ds)))"

definition step_key :: "driver_run \<Rightarrow> driver_state \<Rightarrow> string" where
  "step_key rn ds =
     ''driver:'' @ uuid_str (oc_task (rn_ctx rn)) @ '':'' @ pn_id (rn_plan rn) @ '':'' @ nat_str (ds_next ds) @ '':'' @
     nat_str (attempts_of ds) @ '':'' @ take 16 (plan_hash (rn_env rn) (rn_plan rn))"

definition item_of_result :: "driver_step \<Rightarrow> driver_state \<Rightarrow> action_result \<Rightarrow> driver_item" where
  "item_of_result st ds r =
     \<lparr>di_index = ds_next ds, di_capability = dp_capability st, di_result = ar_result r, di_trace = Some (ar_trace r),
      di_verify = dp_verify st\<rparr>"

definition after_step :: "driver_step \<Rightarrow> driver_state \<Rightarrow> action_result \<Rightarrow> driver_state" where
  "after_step st ds r =
     ds\<lparr>ds_completed := ds_completed ds @ [item_of_result st ds r],
        ds_attempts := (nat_str (ds_next ds), Suc (attempts_of ds)) #
           filter (\<lambda>x. fst x \<noteq> nat_str (ds_next ds)) (ds_attempts ds),
        ds_next := Suc (ds_next ds)\<rparr>"

text \<open>\<open>d.setdefault(k, v)\<close>\<close>

definition set_default :: "string \<times> json \<Rightarrow> jdict \<Rightarrow> jdict" where
  "set_default kv d = (if fst kv \<in> fst ` set d then d else d @ [kv])"

definition failure_detail :: "driver_step \<Rightarrow> action_result \<Rightarrow> jdict" where
  "failure_detail st r =
     fold set_default
       ([(''capability'', JStr (dp_capability st)), (''failed_capability'', JStr (dp_capability st)),
         (''verification_required'', JBool (dp_verify st)), (''result'', JStr (ar_result r)),
         (''trace_event_id'', JStr (uuid_str (ar_trace r))), (''step_arguments'', JObj (dp_arguments st))] @
        filter (\<lambda>(k, v). k \<in> {''path'', ''paths''}) (dp_arguments st)) (ar_detail r)"

definition step_failed :: "action_result \<Rightarrow> bool" where
  "step_failed r \<longleftrightarrow> ar_result r \<notin> {''succeeded'', ''no_result''}"

definition failed_state :: "development_plan \<Rightarrow> driver_step \<Rightarrow> driver_state \<Rightarrow> driver_state \<times> bool" where
  "failed_state p st ds =
     (let again = ds_failures ds + 1 \<le> pn_max_failures p \<and> dp_on_failure st = ''retry''
      in (ds\<lparr>ds_failures := ds_failures ds + 1, ds_next := (if again then ds_next ds - 1 else ds_next ds)\<rparr>, again))"

definition own_row :: "driver_run \<Rightarrow> mainai_task \<Rightarrow> op_state \<Rightarrow> mainai_task" where
  "own_row rn t s = or_else t (find_row (own_task (rn_ctx rn)) (tasks (op_db s)))"

definition settle_step ::
  "driver_run \<Rightarrow> nat \<Rightarrow> mainai_task \<Rightarrow> driver_step \<Rightarrow> driver_state \<Rightarrow> nat \<Rightarrow> action_result \<Rightarrow> op_state \<Rightarrow> turn \<times> op_state" where
  "settle_step rn n t st ds actions r s =
     (let env = rn_env rn; ctx = rn_ctx rn; s1 = dv_world env (2 * n + 1) s; ds1 = after_step st ds r
      in case checkpoint_operator_progress (dv_machine env) (ce_now (dv_call env n)) ctx (item_ids (ds_completed ds1))
                ''execute'' [] s1 of
           Inl (OpTransition why) \<Rightarrow>
             returned (stop rn n t PhBlocked ClStaleAuthority [(''reason'', JStr why)] ds1 s1)
         | Inl e \<Rightarrow> (Returned (Inl (DrOperator e)), s1)
         | Inr s2 \<Rightarrow>
             if ar_result r = ''capability_missing'' then
               returned (stop rn n t PhBlocked ClCapabilityMissing (ar_detail r)
                 (extended [(''capability_gap'', JObj (ar_detail r))] ds1) s2)
             else if step_failed r then
               (let (ds2, again) = failed_state (rn_plan rn) st ds1
                in returned (stop rn n t PhFailed (if again then ClFailedRetryable else ClFailedNonretryable)
                     (failure_detail st r) ds2 s2))
             else (Goes_on (own_row rn t s1) ds1 (Suc actions), s2))"

definition operator_turn ::
  "driver_run \<Rightarrow> nat \<Rightarrow> mainai_task \<Rightarrow> driver_step \<Rightarrow> driver_state \<Rightarrow> nat \<Rightarrow> op_state \<Rightarrow> turn \<times> op_state" where
  "operator_turn rn n t st ds actions s =
     (let env = rn_env rn; ctx = rn_ctx rn; mc = dv_machine env; ce = dv_call env n; s0 = dv_world env (2 * n) s;
          key = step_key rn ds
      in case find_row (\<lambda>j. j_id j = oc_job ctx) (jobs (op_db s0)) of
           None \<Rightarrow> (Returned (Inl (DrRaised ''InvalidRequestError'')), s0)
         | Some j \<Rightarrow>
             if j_cancel_requested j then
               returned (stop rn n t PhCancelled ClCancelled
                 [(''reason'', JStr ''job cancel requested before further operator effects'')] ds s0)
             else (case invoke_operator mc ce ctx st key s0 of
                     (Inr r, s1) \<Rightarrow> settle_step rn n t st ds actions r s1
                   | (Inl (DrOperator (OpCapabilityMissing c why goes_on)), s1) \<Rightarrow>
                       (case capability_missing mc ce ctx c why goes_on key s1 of
                          (Inr r, s2) \<Rightarrow> settle_step rn n t st ds actions r s2
                        | (Inl e, s2) \<Rightarrow> (Returned (Inl (DrOperator e)), s2))
                   | (Inl (DrOperator (OpTransition why)), s1) \<Rightarrow>
                       returned (stop rn n t PhBlocked ClStaleAuthority [(''reason'', JStr why)] ds s1)
                   | (Inl e, s1) \<Rightarrow> (Returned (Inl e), s1)))"

definition driver_turn ::
  "driver_run \<Rightarrow> nat \<Rightarrow> mainai_task \<Rightarrow> driver_state \<Rightarrow> nat \<Rightarrow> op_state \<Rightarrow> turn \<times> op_state" where
  "driver_turn rn n t ds actions s =
     (let st = pn_steps (rn_plan rn) ! ds_next ds
      in if rn_max_actions rn \<le> actions \<or> rn_max_elapsed rn \<le> dv_elapsed (rn_env rn) n
         then returned (stop rn n t PhExecute ClActionBound [] ds s)
         else if ds_pending ds \<noteq> None \<and> \<not> dp_independent st
         then returned (stop rn n t PhWait ClWaitingProvider [(''independent_work_remains'', JBool False)] ds s)
         else if dp_capability st = ''provider_step'' then provider_turn rn n t st ds actions s
         else if dp_capability st = ''external_review''
         then returned (stop rn n t PhReview ClExternalReview (dp_arguments st)
                (extended [(''unresolved'', JStr (dp_purpose st)), (''review_context'', JObj (dp_arguments st))] ds) s)
         else if dp_capability st = ''verification_evaluate'' then evaluate_turn rn n t st ds actions s
         else operator_turn rn n t st ds actions s)"

text \<open>Every turn that does not return moves to the next step, so the loop ends.\<close>

lemma settle_step_next:
  "settle_step rn n t st ds actions r s = (Goes_on t1 ds1 a1, s1) \<Longrightarrow>
     ds1 = after_step st ds r \<and> a1 = Suc actions \<and> \<not> step_failed r"
  by (auto simp: settle_step_def Let_def returned_def stop_def failed_state_def split: sum.splits op_error.splits if_splits)

lemma operator_turn_next:
  "operator_turn rn n t st ds actions s = (Goes_on t1 ds1 a1, s1) \<Longrightarrow>
     \<exists>r s2. settle_step rn n t st ds actions r s2 = (Goes_on t1 ds1 a1, s1)"
  by (auto simp: operator_turn_def Let_def returned_def stop_def
      split: option.splits if_splits prod.splits sum.splits driver_error.splits op_error.splits)

lemma driver_turn_next:
  assumes "driver_turn rn n t ds actions s = (Goes_on t1 ds1 a1, s1)"
  shows "ds_next ds1 = Suc (ds_next ds)"
  using assms
  by (auto simp: driver_turn_def Let_def provider_turn_def evaluate_turn_def returned_def stop_def after_step_def
      dest!: operator_turn_next settle_step_next split: if_splits)

datatype drive_end = Ended "driver_error + driver_result" | Through mainai_task driver_state nat

function drive ::
  "driver_run \<Rightarrow> nat \<Rightarrow> mainai_task \<Rightarrow> driver_state \<Rightarrow> nat \<Rightarrow> op_state \<Rightarrow> drive_end \<times> op_state" where
  "drive rn n t ds actions s =
     (if ds_next ds < length (pn_steps (rn_plan rn)) then
        (case driver_turn rn n t ds actions s of
           (Returned r, s1) \<Rightarrow> (Ended r, s1)
         | (Goes_on t1 ds1 a1, s1) \<Rightarrow> drive rn (Suc n) t1 ds1 a1 s1)
      else (Through t ds n, s))"
  by pat_completeness auto
termination
  by (relation "measure (\<lambda>(rn, n, t, ds, actions, s). length (pn_steps (rn_plan rn)) - ds_next ds)")
    (auto dest!: driver_turn_next [OF sym])

declare drive.simps [simp del]

section \<open>Completion\<close>

text \<open>
  What follows the last step. \<open>others\<close> is what other sessions commit between the test of the cancel flag and
  the completion gate.
\<close>

definition finish_drive ::
  "driver_run \<Rightarrow> nat \<Rightarrow> mainai_task \<Rightarrow> driver_state \<Rightarrow> op_state \<times> learning \<Rightarrow>
   (driver_error + driver_result) \<times> op_state \<times> learning" where
  "finish_drive rn n t ds = (\<lambda>(s, lrn).
     let env = rn_env rn; ctx = rn_ctx rn; now = ce_now (dv_call env n);
         lift = (\<lambda>(r, s1). (r, s1, lrn))
     in if ds_pending ds \<noteq> None
        then lift (stop rn n t PhWait ClWaitingProvider [(''independent_work_remains'', JBool False)] ds s)
        else if t_verification_plan t \<noteq> [] \<and> \<not> verification_passed (t_id t) (oc_job ctx) (op_db s)
        then lift (stop rn n t PhVerify ClVerificationRequired
               [(''verification_passed'', JBool False), (''failed_capability'', JStr ''verification_evaluate''),
                (''capability'', JStr ''verification_evaluate''), (''verification_required'', JBool True)] ds s)
        else let s0 = dv_world env (2 * n) s
             in case find_row (\<lambda>j. j_id j = oc_job ctx) (jobs (op_db s0)) of
                  None \<Rightarrow> (Inl (DrRaised ''AttributeError''), s0, lrn)
                | Some j \<Rightarrow>
                    if j_cancel_requested j then
                      (let (r, s1) = stop rn n t PhCancelled ClCancelled
                             [(''reason'', JStr ''job cancel requested after verify before task finalize'')] ds s0
                       in case sbind (finalize_cancelled_task (dv_outcome env) now t
                                 ''cooperative_cancel_after_verify_before_finalize'' (op_db s1))
                               (\<lambda>d. mark_cancelled now j (oc_worker ctx) (oc_generation ctx) d) of
                            Inl e \<Rightarrow> (Inl (DrRuntime e), s0, lrn)
                          | Inr d \<Rightarrow> (r, set_op_db d s1, lrn))
                    else
                      (let s1 = dv_world env (2 * n + 1) s0
                       in case finalize_task_outcome (dv_outcome env) now t True
                                 [(''development_driver_plan'', JStr (pn_id (rn_plan rn))),
                                  (''plan_hash'', JStr (plan_hash env (rn_plan rn)))] None (op_db s1, lrn) of
                            Inl e \<Rightarrow> (Inl (DrRuntime e), s1, lrn)
                          | Inr (d, lrn1) \<Rightarrow>
                              (let (r, s2) = stop rn n t PhComplete ClComplete [] ds (set_op_db d s1)
                               in case mark_completed now j (oc_worker ctx) (oc_generation ctx)
                                         (Some ''Development Driver completed verified bounded work.'') (op_db s2) of
                                    Inl e \<Rightarrow> (Inl (DrRuntime e), s1, lrn)
                                  | Inr d2 \<Rightarrow> (r, set_op_db d2 s2, lrn1))))"

definition resume_state :: "driver_env \<Rightarrow> operator_context \<Rightarrow> development_plan \<Rightarrow> db \<Rightarrow> driver_error + driver_state" where
  "resume_state env ctx p d =
     (case latest_checkpoint_for_step (oc_task ctx) (oc_job ctx) ''development_driver'' d of
        None \<Rightarrow> Inr (initial_state env p)
      | Some c \<Rightarrow>
          let old = json_dict (jget (c_state c) ''driver_state'')
          in if jget old ''plan_hash'' \<noteq> JStr (plan_hash env p)
             then Inl (DrPlan ''checkpoint plan identity conflicts with supplied plan'')
             else from_option (DrRaised ''malformed driver state'') (driver_state_of old))"

definition run_driver ::
  "driver_env \<Rightarrow> operator_context \<Rightarrow> development_plan \<Rightarrow> int \<Rightarrow> int \<Rightarrow> op_state \<times> learning \<Rightarrow>
   (driver_error + driver_result) \<times> op_state \<times> learning" where
  "run_driver env ctx p max_actions max_elapsed = (\<lambda>(s, lrn).
     case validate_plan (dv_machine env) (ce_now (dv_call env 0)) ctx p s of
       Inl e \<Rightarrow> (Inl e, s, lrn)
     | Inr (t, g) \<Rightarrow>
         let rn = \<lparr>rn_env = env, rn_ctx = ctx, rn_plan = p, rn_goal = g, rn_max_actions = nat max_actions,
                   rn_max_elapsed = max_elapsed\<rparr>
         in if max_actions < 1 \<or> 50 < max_actions \<or> max_elapsed < 1
            then (Inl (DrPlan ''invocation bounds are invalid''), s, lrn)
            else (case find_row (own_job ctx) (jobs (op_db s)) of
                    None \<Rightarrow> (Inl (DrPlan ''job is missing or cross-owner''), s, lrn)
                  | Some j \<Rightarrow>
                      if j_cancel_requested j
                      then (let (r, s1) = stop rn 0 t PhCancelled ClCancelled [] (initial_state env p) s in (r, s1, lrn))
                      else (case resume_state env ctx p (op_db s) of
                              Inl e \<Rightarrow> (Inl e, s, lrn)
                            | Inr ds \<Rightarrow>
                                (case drive rn 1 t ds 0 s of
                                   (Ended r, s1) \<Rightarrow> (r, s1, lrn)
                                 | (Through t1 ds1 n, s1) \<Rightarrow> finish_drive rn n t1 ds1 (s1, lrn)))))"

section \<open>Resuming\<close>

definition wf_state :: "driver_state \<Rightarrow> bool" where
  "wf_state ds \<longleftrightarrow>
     (\<forall>x\<in>set (ds_completed ds). di_trace x = None \<longrightarrow> \<not> di_verify x) \<and>
     (\<forall>k\<in>set driver_keys. map_of (ds_extra ds) k = None)"

lemma jget_simps [simp]:
  "jget [] k = JNull" "jget ((k', v) # d) k = (if k' = k then v else jget d k)"
  by (simp_all add: jget_def)

lemma item_of_item_json: "di_trace x = None \<longrightarrow> \<not> di_verify x \<Longrightarrow> item_of_json (item_json x) = Some x"
  by (cases x) (auto simp: item_of_json_def item_json_def json_nat_def json_str_def json_uuid_def jget_def uuid_parse_str
      split: option.splits)

lemma all_some_map: "(\<And>x. x \<in> set xs \<Longrightarrow> f x = Some (g x)) \<Longrightarrow> all_some (map f xs) = Some (map g xs)"
  by (induction xs) auto

lemma items_roundtrip:
  assumes "wf_state ds"
  shows "all_some (map item_of_json (map item_json (ds_completed ds))) = Some (ds_completed ds)"
proof -
  have "all_some (map (\<lambda>x. item_of_json (item_json x)) (ds_completed ds)) = Some (map (\<lambda>x. x) (ds_completed ds))"
    using assms by (intro all_some_map item_of_item_json) (auto simp: wf_state_def)
  then show ?thesis by (simp add: comp_def)
qed

lemma attempts_roundtrip:
  "all_some (map (\<lambda>(k, v). map_option (Pair k) (json_nat v)) (map (\<lambda>(k, n). (k, JInt (int n))) xs)) = Some xs"
  by (induction xs) (auto simp: json_nat_def)

lemma driver_state_roundtrip:
  assumes wf: "wf_state ds"
  shows "driver_state_of (state_dict ds) = Some ds"
proof -
  let ?d = "state_dict ds"
  have extra: "map_of (ds_extra ds) ''pending_provider'' = None"
    using wf by (simp add: wf_state_def driver_keys_def)
  have keep: "filter (\<lambda>x. fst x \<notin> set driver_keys) (ds_extra ds) = ds_extra ds"
    using wf by (auto simp: wf_state_def map_of_eq_None_iff intro!: filter_True)
  have f: "jget ?d ''completed'' = JArr (map item_json (ds_completed ds))" "jget ?d ''next_step'' = JInt (int (ds_next ds))"
    "jget ?d ''failures'' = JInt (ds_failures ds)" "jget ?d ''plan_id'' = JStr (ds_plan ds)"
    "jget ?d ''plan_hash'' = JStr (ds_hash ds)" "jget ?d ''strategy_execution_id'' = JStr (ds_strategy ds)"
    "jget ?d ''step_attempts'' = JObj (map (\<lambda>(k, n). (k, JInt (int n))) (ds_attempts ds))"
    by (simp_all add: state_dict_def)
  have p: "jget ?d ''pending_provider'' =
      (case ds_pending ds of None \<Rightarrow> JNull | Some (i, w) \<Rightarrow> JObj [(''index'', JInt (int i)), (''unresolved'', JStr w)])"
    using extra by (simp add: state_dict_def jget_def split: option.splits prod.splits)
  have k: "''plan_id'' \<in> set driver_keys" "''plan_hash'' \<in> set driver_keys" "''strategy_execution_id'' \<in> set driver_keys"
    "''completed'' \<in> set driver_keys" "''failures'' \<in> set driver_keys" "''next_step'' \<in> set driver_keys"
    "''step_attempts'' \<in> set driver_keys" "''pending_provider'' \<in> set driver_keys"
    by (simp_all add: driver_keys_def)
  have e: "filter (\<lambda>x. fst x \<notin> set driver_keys) ?d = ds_extra ds"
    by (simp add: state_dict_def keep k split: option.splits prod.splits)
  show ?thesis
    unfolding driver_state_of_def f p e
    using items_roundtrip [OF wf] attempts_roundtrip [of "ds_attempts ds"]
    by (cases ds) (simp add: json_list_def json_dict_def json_nat_def json_str_def or_else_def split: option.splits prod.splits)
qed

lemma insort_key_last: "f x \<le> f c \<Longrightarrow> insort_key f x (ys @ [c]) = insort_key f x ys @ [c]"
  by (induction ys) auto

lemma sort_key_last: "\<forall>x\<in>set xs. f x \<le> f c \<Longrightarrow> sort_key f (xs @ [c]) = sort_key f xs @ [c]"
  by (induction xs) (auto simp: insort_key_last)

lemma latest_of_new:
  assumes "\<forall>c\<in>set (checkpoints d). c_created_at c \<le> now" and "t_id t = tid"
    and "\<not> {''job_id'', ''step''} \<inter> fst ` set data \<noteq> {}"
  shows "latest_checkpoint_for_step tid job step (record_checkpoint now t g job step data d) =
    Some \<lparr>c_goal = t_goal t, c_task = Some tid, c_owner = t_owner t, c_plan_version = g_current_plan_version g,
          c_state = executor_state job step data, c_created_at = now\<rparr>"
proof -
  have "sort_key c_created_at (filter (\<lambda>c. c_task c = Some tid) (checkpoints d) @ [c]) =
      sort_key c_created_at (filter (\<lambda>c. c_task c = Some tid) (checkpoints d)) @ [c]" if "c_created_at c = now" for c
    using assms(1) that by (intro sort_key_last) auto
  then show ?thesis
    using assms(2,3)
    by (auto simp: latest_checkpoint_for_step_def record_checkpoint_def executor_state_def)
qed

lemma checkpoint_resumes:
  assumes "wf_state ds" and "ds_hash ds = plan_hash env p" and "t_id t = oc_task ctx" and "rn_ctx rn = ctx"
    and "\<forall>c\<in>set (checkpoints (op_db s)). c_created_at c \<le> now"
  shows "resume_state env ctx p (op_db (driver_checkpoint rn now t ph cl ds s)) = Inr ds"
proof -
  have "jget (state_dict ds) ''plan_hash'' = JStr (ds_hash ds)" by (simp add: state_dict_def)
  then show ?thesis
    using assms driver_state_roundtrip [OF assms(1)]
    by (simp add: resume_state_def driver_checkpoint_def latest_of_new op_db_def set_op_db_def executor_state_def
        json_dict_def from_option_def)
qed

section \<open>What the operator's operations leave alone\<close>

definition op_frame :: "op_state \<Rightarrow> 'e + 'a \<Rightarrow> op_state \<Rightarrow> bool" where
  "op_frame s r s1 \<longleftrightarrow>
     os_leases s1 = os_leases s \<and>
     length (os_traces s1) \<le> length (os_traces s) + (case r of Inl _ \<Rightarrow> 0 | Inr _ \<Rightarrow> 1)"

definition read_frame :: "op_state \<Rightarrow> 'e + 'a \<Rightarrow> op_state \<Rightarrow> bool" where
  "read_frame s r s1 \<longleftrightarrow> op_frame s r s1 \<and> os_files s1 = os_files s \<and> os_git s1 = os_git s"

lemma read_frame_refl [simp]: "read_frame s r s" "op_frame s r s"
  by (simp_all add: read_frame_def op_frame_def split: sum.split)

lemma op_frame_Inl:
  "op_frame s (Inl e) s1 \<longleftrightarrow> os_leases s1 = os_leases s \<and> length (os_traces s1) \<le> length (os_traces s)"
  by (simp add: op_frame_def)

lemma read_frame_op: "read_frame s r s1 \<Longrightarrow> op_frame s r s1"
  by (simp add: read_frame_def)

lemma op_frame_from:
  "os_leases s' = os_leases s \<Longrightarrow> os_traces s' = os_traces s \<Longrightarrow> op_frame s' r s1 \<Longrightarrow> op_frame s r s1"
  by (simp add: op_frame_def)

lemma audit_frame:
  "audit mc env ctx cap key d res s = Inr (s1, e) \<Longrightarrow> read_frame s (Inr e) s1"
  by (auto simp: audit_def record_trace_event_def read_frame_def op_frame_def Let_def split: option.splits if_splits)

lemma answer_frame:
  "answer mc env ctx cap key logged detail res i s = (r, s1) \<Longrightarrow> read_frame s r s1"
  by (auto simp: answer_def clear_write_intent_def read_frame_def op_frame_def
      dest!: audit_frame split: sum.splits option.splits)

lemmas frame_dests = answer_frame read_frame_op

lemma read_frames:
  "inspect_repository mc env ctx cap other key s = (r, s1) \<Longrightarrow> read_frame s r s1"
  "list_files mc env ctx scope limit key s = (r, s1) \<Longrightarrow> read_frame s r s1"
  "search_text mc env ctx query scope limit key s = (r, s1) \<Longrightarrow> read_frame s r s1"
  "read_file mc env ctx p n key s = (r, s1) \<Longrightarrow> read_frame s r s1"
  by (auto simp: inspect_repository_def list_files_def search_text_def read_file_def Let_def
      dest!: answer_frame split: sum.splits option.splits if_splits)

lemma capability_missing_frame:
  "capability_missing mc env ctx cap why g key s = (r, s1) \<Longrightarrow> read_frame s r s1"
  by (auto simp: capability_missing_def Let_def read_frame_def op_frame_def
      dest!: answer_frame split: sum.splits prod.splits)

lemma moved_frame:
  assumes "answer mc env ctx cap key logged detail res i s' = (r, s1)"
    and "os_leases s' = os_leases s" and "os_traces s' = os_traces s"
  shows "op_frame s r s1"
  using op_frame_from [OF assms(2,3) read_frame_op [OF answer_frame [OF assms(1)]]] .

lemma write_frame:
  assumes "write_file mc env ctx q key s = (r, s1)"
  shows "op_frame s r s1"
proof -
  have "op_frame s r s1" if "apply_write mc env ctx q key target s = (r, s1)" for target
    using that unfolding apply_write_def Let_def
    by (auto simp: put_intent_def put_file_def remove_file_def op_frame_Inl
        elim!: moved_frame split: if_splits option.splits)
  then show ?thesis
    using assms by (auto simp: write_file_def dest!: answer_frame read_frame_op split: sum.splits option.splits bool.splits)
qed

lemma profile_frame:
  "run_profile mc env ctx name as vars key s = (r, s1) \<Longrightarrow> op_frame s r s1"
  by (auto simp: run_profile_def Let_def elim!: moved_frame split: sum.splits prod.splits option.splits)

lemma stage_frame:
  "stage_scoped_changes mc env ctx ps key s = (r, s1) \<Longrightarrow> op_frame s r s1"
  by (auto simp: stage_scoped_changes_def git_change_def Let_def op_frame_Inl
      elim!: moved_frame split: sum.splits prod.splits option.splits)

lemma commit_frame:
  "commit_changes mc env ctx msg key s = (r, s1) \<Longrightarrow> op_frame s r s1"
  by (auto simp: commit_changes_def git_change_def set_commit_def Let_def op_frame_Inl
      elim!: moved_frame split: sum.splits prod.splits option.splits)

definition within_ceiling :: "operator_context \<Rightarrow> string \<Rightarrow> bool" where
  "within_ceiling ctx cap \<longleftrightarrow> cap \<in> set (oc_caps ctx) \<or> oc_caps ctx = [] \<and> \<not> is_governed ctx"

lemma require_operator_capability_Inr:
  "require_operator_capability ctx cap = Inr u \<longleftrightarrow> within_ceiling ctx cap"
  by (auto simp: require_operator_capability_def require_governed_ceiling_def within_ceiling_def sbind_Inr_iff ensure_Inr_iff)

lemma after_fence_cases:
  assumes "after_fence mc env ctx wr rc s x f = (r, s1)"
  shows "(\<exists>a. x = Some a \<and> f a = (r, s1)) \<or> (\<exists>e. r = Inl e) \<and> s1 = s"
  using assms by (auto simp: after_fence_def split: option.splits sum.splits)

lemma invoke_read_frame:
  assumes "invoke_read mc env ctx cap args key s = (r, s1)"
  shows "read_frame s r s1"
  using assms
  by (auto simp: invoke_read_def type_error_def dest!: after_fence_cases read_frames split: if_splits prod.splits)

lemma invoke_effect_frame:
  assumes "invoke_effect mc env ctx cap args key s = (r, s1)"
  shows "op_frame s r s1"
  using assms
  by (auto simp: invoke_effect_def type_error_def
      dest!: after_fence_cases write_frame profile_frame stage_frame commit_frame split: if_splits prod.splits)

lemma lift_outcome_frame:
  assumes "lift_outcome (r0, s0) = (r, s1)"
  shows "s1 = s0 \<and> op_frame s r s1 = op_frame s r0 s1 \<and> read_frame s r s1 = read_frame s r0 s1"
  using assms by (auto simp: lift_outcome_def op_frame_def read_frame_def split: sum.splits)

lemma invoke_operator_frame:
  assumes "invoke_operator mc env ctx st key s = (r, s1)"
  shows "op_frame s r s1 \<and> (read_frame s r s1 \<or> effect_capability (dp_capability st) \<and> within_ceiling ctx (dp_capability st))"
proof (cases "require_operator_capability ctx (dp_capability st)")
  case (Inl e)
  with assms show ?thesis by (auto simp: invoke_operator_def Let_def)
next
  case (Inr u)
  consider (read) "read_capability (dp_capability st)"
    | (eff) "\<not> read_capability (dp_capability st)" "effect_capability (dp_capability st)"
    | (rest) "\<not> read_capability (dp_capability st)" "\<not> effect_capability (dp_capability st)" by blast
  then show ?thesis
  proof cases
    case read
    obtain r0 s0 where x: "invoke_read mc env ctx (dp_capability st) (dp_arguments st) key s = (r0, s0)" by fastforce
    with assms Inr read have "lift_outcome (r0, s0) = (r, s1)" by (simp add: invoke_operator_def Let_def)
    from lift_outcome_frame [OF this, of s] invoke_read_frame [OF x] show ?thesis by (auto intro: read_frame_op)
  next
    case eff
    obtain r0 s0 where x: "invoke_effect mc env ctx (dp_capability st) (dp_arguments st) key s = (r0, s0)" by fastforce
    with assms Inr eff have "lift_outcome (r0, s0) = (r, s1)" by (simp add: invoke_operator_def Let_def)
    from lift_outcome_frame [OF this, of s] invoke_effect_frame [OF x] eff(2) Inr show ?thesis
      unfolding require_operator_capability_Inr by metis
  next
    case rest
    obtain r0 s0 where x: "capability_missing mc env ctx (dp_capability st) (dp_purpose st) (dp_independent st) key s = (r0, s0)"
      by fastforce
    show ?thesis
    proof (cases "dp_capability st = ''push_branch''")
      case True
      with assms Inr rest show ?thesis by (auto simp: invoke_operator_def Let_def)
    next
      case False
      with assms Inr rest x have "lift_outcome (r0, s0) = (r, s1)" by (simp add: invoke_operator_def Let_def)
      from lift_outcome_frame [OF this, of s] capability_missing_frame [OF x] show ?thesis by (auto intro: read_frame_op)
    qed
  qed
qed

section \<open>One turn\<close>

text \<open>
  What a turn does to the trace, the files and the repository, when no other session commits in between:
  at most one trace event, and no effect outside the ceiling.
\<close>

lemma checkpoint_progress_frame:
  "checkpoint_operator_progress mc now ctx ids ph fs s = Inr s1 \<Longrightarrow>
     os_traces s1 = os_traces s \<and> os_files s1 = os_files s \<and> os_git s1 = os_git s"
  by (auto simp: checkpoint_operator_progress_def set_op_db_def sbind_Inr_iff split: option.splits)

lemma stop_frame:
  "stop rn n t ph cl det ds s = (r, s1) \<Longrightarrow>
     os_traces s1 = os_traces s \<and> os_files s1 = os_files s \<and> os_git s1 = os_git s"
  by (auto simp: stop_def driver_checkpoint_def set_op_db_def)

definition untouched :: "op_state \<Rightarrow> op_state \<Rightarrow> bool" where
  "untouched s s1 \<longleftrightarrow> os_files s1 = os_files s \<and> os_git s1 = os_git s"

definition quiet_world :: "driver_env \<Rightarrow> bool" where
  "quiet_world env \<longleftrightarrow>
     (\<forall>n s. os_traces (dv_world env n s) = os_traces s \<and> os_files (dv_world env n s) = os_files s \<and>
            os_git (dv_world env n s) = os_git s)"

lemma settle_step_frame:
  assumes "settle_step rn n t st ds actions r s = (tr, s1)" and "quiet_world (rn_env rn)"
  shows "os_traces s1 = os_traces s \<and> untouched s s1"
  using assms
  by (auto simp: settle_step_def Let_def returned_def untouched_def quiet_world_def failed_state_def
      stop_def driver_checkpoint_def set_op_db_def dest!: checkpoint_progress_frame
      split: sum.splits op_error.splits if_splits)

definition turn_effect :: "driver_run \<Rightarrow> driver_step \<Rightarrow> nat \<Rightarrow> op_state \<Rightarrow> turn \<Rightarrow> op_state \<Rightarrow> bool" where
  "turn_effect rn st actions s tr s1 \<longleftrightarrow>
     length (os_traces s1) \<le> length (os_traces s) + (case tr of Returned _ \<Rightarrow> 1 | Goes_on _ _ a1 \<Rightarrow> a1 - actions) \<and>
     (untouched s s1 \<or> effect_capability (dp_capability st) \<and> within_ceiling (rn_ctx rn) (dp_capability st))"

lemma operator_turn_cases:
  assumes "operator_turn rn n t st ds actions s = (tr, s1)"
    and inv: "invoke_operator (dv_machine (rn_env rn)) (dv_call (rn_env rn) n) (rn_ctx rn) st (step_key rn ds)
      (dv_world (rn_env rn) (2 * n) s) = (r, s2)"
  obtains (before) e where "tr = Returned (Inl e)" "s1 = dv_world (rn_env rn) (2 * n) s"
  | (cancelled) ph det where "returned (stop rn n t ph ClCancelled det ds (dv_world (rn_env rn) (2 * n) s)) = (tr, s1)"
  | (settled) x where "r = Inr x" "settle_step rn n t st ds actions x s2 = (tr, s1)"
  | (stale) e ph det where "r = Inl e" "returned (stop rn n t ph ClStaleAuthority det ds s2) = (tr, s1)"
  | (raised) e e' where "r = Inl e" "tr = Returned (Inl e')" "s1 = s2"
  | (missing) e c why g k x s3 where "r = Inl e"
      "capability_missing (dv_machine (rn_env rn)) (dv_call (rn_env rn) n) (rn_ctx rn) c why g k s2 = (Inr x, s3)"
      "settle_step rn n t st ds actions x s3 = (tr, s1)"
  | (unmissed) e c why g k e' where "r = Inl e"
      "capability_missing (dv_machine (rn_env rn)) (dv_call (rn_env rn) n) (rn_ctx rn) c why g k s2 = (Inl e', s1)"
      "tr = Returned (Inl (DrOperator e'))"
proof (cases "find_row (\<lambda>j. j_id j = oc_job (rn_ctx rn)) (jobs (op_db (dv_world (rn_env rn) (2 * n) s)))")
  case None
  with assms(1) show thesis by (intro before) (auto simp: operator_turn_def Let_def)
next
  case (Some j)
  show thesis
  proof (cases "j_cancel_requested j")
    case True
    with assms(1) Some show thesis by (intro cancelled) (simp add: operator_turn_def Let_def)
  next
    case False
    note run = assms(1) [unfolded operator_turn_def Let_def Some option.case if_not_P [OF False] inv prod.case]
    show thesis
    proof (cases r)
      case (Inr x)
      with run show thesis by (intro settled) simp_all
    next
      case (Inl e)
      consider (stale) why where "e = DrOperator (OpTransition why)"
        | (miss) c why g where "e = DrOperator (OpCapabilityMissing c why g)"
        | (raise) "\<forall>why. e \<noteq> DrOperator (OpTransition why)" "\<forall>c why g. e \<noteq> DrOperator (OpCapabilityMissing c why g)" by blast
      then show thesis
      proof cases
        case stale
        with run Inl show thesis by (intro that(4)) simp_all
      next
        case miss
        obtain x s3 where m: "capability_missing (dv_machine (rn_env rn)) (dv_call (rn_env rn) n) (rn_ctx rn) c why g
            (step_key rn ds) s2 = (x, s3)" by fastforce
        show thesis
        proof (cases x)
          case (Inl e')
          with run \<open>r = Inl e\<close> miss m show thesis by (intro unmissed) auto
        next
          case (Inr y)
          with run \<open>r = Inl e\<close> miss m show thesis by (intro missing) auto
        qed
      next
        case raise
        with run Inl have "tr = Returned (Inl e) \<and> s1 = s2" by (auto split: driver_error.splits op_error.splits)
        with Inl show thesis by (intro raised [of e e]) simp_all
      qed
    qed
  qed
qed

lemma operator_turn_frame:
  assumes "operator_turn rn n t st ds actions s = (tr, s1)" and q: "quiet_world (rn_env rn)"
  shows "turn_effect rn st actions s tr s1"
proof -
  let ?env = "rn_env rn" and ?ctx = "rn_ctx rn" and ?s0 = "dv_world (rn_env rn) (2 * n) s"
  have s0: "os_traces ?s0 = os_traces s" "os_files ?s0 = os_files s" "os_git ?s0 = os_git s"
    using q by (simp_all add: quiet_world_def)
  obtain r s2 where inv: "invoke_operator (dv_machine ?env) (dv_call ?env n) ?ctx st (step_key rn ds) ?s0 = (r, s2)" by fastforce
  note fr = invoke_operator_frame [OF inv]
  define ok where "ok k s3 \<longleftrightarrow> length (os_traces s3) \<le> length (os_traces s) + k \<and>
      (untouched s s3 \<or> effect_capability (dp_capability st) \<and> within_ceiling (rn_ctx rn) (dp_capability st))" for k s3
  have ret: "turn_effect rn st actions s (Returned x) s3" if "ok (Suc 0) s3" for x s3
    using that by (auto simp: ok_def turn_effect_def)
  have weak: "ok (Suc 0) s3" if "ok 0 s3" for s3 using that by (auto simp: ok_def)
  have settled: "turn_effect rn st actions s tr s1"
    if "settle_step rn n t st ds actions x s3 = (tr, s1)" "ok (Suc 0) s3" for x s3
    using settle_step_frame [OF that(1) q] settle_step_next [of rn n t st ds actions x s3] that
    by (cases tr) (auto simp: turn_effect_def untouched_def ok_def)
  have stopped: "turn_effect rn st actions s tr s1"
    if "returned (stop rn n t ph cl det ds s3) = (tr, s1)" "ok 0 s3" for ph cl det s3
    using that ret [OF weak, of s1]
    by (auto simp: ok_def untouched_def returned_def stop_def driver_checkpoint_def set_op_db_def)
  have missing: "ok (case x of Inl _ \<Rightarrow> 0 | Inr _ \<Rightarrow> 1) s3"
    if "capability_missing (dv_machine ?env) (dv_call ?env n) ?ctx c w g k s2 = (x, s3)" "ok 0 s2" for c w g k x s3
    using capability_missing_frame [OF that(1)] that(2)
    by (auto simp: ok_def read_frame_def op_frame_def untouched_def split: sum.splits)
  have start: "ok 0 ?s0" using s0 by (simp add: ok_def untouched_def)
  have op: "ok (case r of Inl _ \<Rightarrow> 0 | Inr _ \<Rightarrow> 1) s2"
    using fr s0 by (auto simp: op_frame_def read_frame_def untouched_def ok_def)
  have un: "ok 0 s3" if "capability_missing (dv_machine ?env) (dv_call ?env n) ?ctx c w g k s2 = (Inl e, s3)" "ok 0 s2" for c w g k e s3
    using missing [OF that] by simp
  have mi: "ok (Suc 0) s3" if "capability_missing (dv_machine ?env) (dv_call ?env n) ?ctx c w g k s2 = (Inr x, s3)" "ok 0 s2" for c w g k x s3
    using missing [OF that] by simp
  from assms(1) inv show ?thesis
    by (cases rule: operator_turn_cases) (use op start in \<open>auto intro: settled stopped mi intro!: ret intro: weak un\<close>)
qed

definition same_rows :: "op_state \<Rightarrow> op_state \<Rightarrow> bool" where
  "same_rows s s1 \<longleftrightarrow> tasks (op_db s1) = tasks (op_db s) \<and> jobs (op_db s1) = jobs (op_db s)"

lemma set_op_db_simps [simp]:
  "op_db (set_op_db d s) = d" "os_traces (set_op_db d s) = os_traces s" "os_files (set_op_db d s) = os_files s"
  "os_git (set_op_db d s) = os_git s"
  by (simp_all add: op_db_def set_op_db_def)

lemma record_checkpoint_rows [simp]:
  "tasks (record_checkpoint now t g job step data d) = tasks d" "jobs (record_checkpoint now t g job step data d) = jobs d"
  by (simp_all add: record_checkpoint_def)

definition still :: "driver_run \<Rightarrow> mainai_task \<Rightarrow> op_state \<Rightarrow> turn \<times> op_state \<Rightarrow> bool" where
  "still rn t s x \<longleftrightarrow>
     os_traces (snd x) = os_traces s \<and> untouched s (snd x) \<and> same_rows s (snd x) \<and>
     (\<forall>t1 ds1 a1. fst x = Goes_on t1 ds1 a1 \<longrightarrow> t1 = t \<and> a1 \<le> rn_max_actions rn)"

lemma still_simps [simp]:
  "still rn t s (returned (stop rn n t ph cl det ds s)) = True"
  "still rn t s (Goes_on t ds1 a1, s) \<longleftrightarrow> a1 \<le> rn_max_actions rn"
  by (auto simp: still_def returned_def stop_def driver_checkpoint_def untouched_def same_rows_def)

lemma still_checkpoint [simp]:
  "still rn t s (returned (stop rn n t ph cl det ds (set_op_db (record_checkpoint now t g job step data (op_db s)) s)))"
  "still rn t s (Goes_on t ds1 a1, set_op_db (record_checkpoint now t g job step data (op_db s)) s) \<longleftrightarrow>
     a1 \<le> rn_max_actions rn"
  by (auto simp: still_def returned_def stop_def driver_checkpoint_def untouched_def same_rows_def)

lemma evaluate_turn_still:
  assumes "actions < rn_max_actions rn"
  shows "still rn t s (evaluate_turn rn n t st ds actions s)"
proof (cases "items_passed ds")
  case True
  with assms show ?thesis unfolding evaluate_turn_def Let_def by simp
next
  case False
  then show ?thesis unfolding evaluate_turn_def Let_def by simp
qed

lemma driver_turn_cases:
  assumes "driver_turn rn n t ds actions s = (tr, s1)"
  obtains (operator) "operator_turn rn n t (pn_steps (rn_plan rn) ! ds_next ds) ds actions s = (tr, s1)" "actions < rn_max_actions rn"
  | (still) "still rn t s (tr, s1)"
proof -
  let ?st = "pn_steps (rn_plan rn) ! ds_next ds"
  have prov: "still rn t s (provider_turn rn n t ?st ds actions s)" if "actions < rn_max_actions rn"
    using that by (simp add: provider_turn_def Let_def)
  have "still rn t s (driver_turn rn n t ds actions s) \<or>
      driver_turn rn n t ds actions s = operator_turn rn n t ?st ds actions s \<and> actions < rn_max_actions rn"
    using prov evaluate_turn_still [of actions rn t s n ?st ds] unfolding driver_turn_def Let_def by (simp add: not_le)
  with assms that show thesis by auto
qed

lemma driver_turn_frame:
  assumes "driver_turn rn n t ds actions s = (tr, s1)" and q: "quiet_world (rn_env rn)"
  shows "turn_effect rn (pn_steps (rn_plan rn) ! ds_next ds) actions s tr s1 \<and>
    (os_traces s1 = os_traces s \<or> actions < rn_max_actions rn) \<and>
    (\<forall>t1 ds1 a1. tr = Goes_on t1 ds1 a1 \<longrightarrow> a1 \<le> rn_max_actions rn)"
  using assms(1)
proof (cases rule: driver_turn_cases)
  case operator
  with operator_turn_frame [OF operator(1) q] show ?thesis
    by (auto dest!: operator_turn_next settle_step_next)
next
  case still
  then show ?thesis by (auto simp: turn_effect_def still_def split: turn.splits)
qed

definition effect_step :: "driver_run \<Rightarrow> bool" where
  "effect_step rn \<longleftrightarrow>
     (\<exists>st\<in>set (pn_steps (rn_plan rn)).
        effect_capability (dp_capability st) \<and> within_ceiling (rn_ctx rn) (dp_capability st))"

lemma untouched_trans: "untouched a b \<Longrightarrow> untouched b c \<Longrightarrow> untouched a c"
  by (simp add: untouched_def)

lemma drive_frame:
  assumes "quiet_world (rn_env rn)" and "actions \<le> rn_max_actions rn"
  shows "drive rn n t ds actions s = (en, s1) \<Longrightarrow>
    length (os_traces s1) \<le> length (os_traces s) + (rn_max_actions rn - actions) \<and> (untouched s s1 \<or> effect_step rn)"
  using assms
proof (induction rn n t ds actions s rule: drive.induct)
  case (1 rn n t ds actions s)
  show ?case
  proof (cases "ds_next ds < length (pn_steps (rn_plan rn))")
    case False
    with 1(2) show ?thesis by (simp add: drive.simps [of rn n t ds actions s] untouched_def)
  next
    case True
    then have st: "pn_steps (rn_plan rn) ! ds_next ds \<in> set (pn_steps (rn_plan rn))" by simp
    obtain tr s2 where turn: "driver_turn rn n t ds actions s = (tr, s2)" by fastforce
    from driver_turn_frame [OF turn 1(3)] have fr: "turn_effect rn (pn_steps (rn_plan rn) ! ds_next ds) actions s tr s2"
      "os_traces s2 = os_traces s \<or> actions < rn_max_actions rn" by blast+
    then have un: "untouched s s2 \<or> effect_step rn" using st by (auto simp: turn_effect_def effect_step_def)
    show ?thesis
    proof (cases tr)
      case (Returned x)
      with 1(2) True turn have "s1 = s2" by (simp add: drive.simps [of rn n t ds actions s])
      with fr un Returned show ?thesis by (auto simp: turn_effect_def)
    next
      case (Goes_on t1 ds1 a1)
      with 1(2) True turn have go: "drive rn (Suc n) t1 ds1 a1 s2 = (en, s1)" by (simp add: drive.simps [of rn n t ds actions s])
      have a1: "a1 \<le> rn_max_actions rn" using driver_turn_frame [OF turn 1(3)] Goes_on by blast
      note ih = 1(1) [OF True turn [symmetric] Goes_on go 1(3) a1]
      have a1': "a1 = actions \<or> a1 = Suc actions"
        using turn Goes_on
        by (auto simp: driver_turn_def Let_def provider_turn_def evaluate_turn_def returned_def stop_def
            dest!: operator_turn_next settle_step_next split: if_splits)
      from ih un fr(1) Goes_on a1' a1 show ?thesis
        by (auto simp: turn_effect_def intro: untouched_trans)
    qed
  qed
qed

lemma finish_drive_frame:
  assumes "finish_drive rn n t ds (s, lrn) = (r, s1, lrn1)" and "quiet_world (rn_env rn)"
  shows "os_traces s1 = os_traces s \<and> untouched s s1"
  using assms
  by (auto simp: finish_drive_def Let_def quiet_world_def untouched_def stop_def driver_checkpoint_def
      split: if_splits option.splits sum.splits)

lemma run_driver_frame:
  assumes "run_driver env ctx p ma me (s, lrn) = (r, s1, lrn1)" and "quiet_world env"
  shows "length (os_traces s1) \<le> length (os_traces s) + nat (min ma 50) \<and>
    (untouched s s1 \<or>
     (\<exists>st\<in>set (pn_steps p). effect_capability (dp_capability st) \<and> within_ceiling ctx (dp_capability st)))"
proof (cases "validate_plan (dv_machine env) (ce_now (dv_call env 0)) ctx p s")
  case (Inl e)
  with assms(1) show ?thesis by (simp add: run_driver_def untouched_def)
next
  case (Inr tg)
  obtain t g where tg: "tg = (t, g)" by fastforce
  define rn where "rn = \<lparr>rn_env = env, rn_ctx = ctx, rn_plan = p, rn_goal = g, rn_max_actions = nat ma, rn_max_elapsed = me\<rparr>"
  note unf = assms(1) [unfolded run_driver_def prod.case Inr sum.case tg Let_def, folded rn_def]
  have q: "quiet_world (rn_env rn)" using assms(2) by (simp add: rn_def)
  show ?thesis
  proof (cases "\<exists>ds. drive rn 1 t ds 0 s = (Ended r, s1) \<and> \<not> 50 < ma \<or>
      (\<exists>t1 ds1 n s2. drive rn 1 t ds 0 s = (Through t1 ds1 n, s2) \<and> finish_drive rn n t1 ds1 (s2, lrn) = (r, s1, lrn1) \<and> \<not> 50 < ma)")
    case True
    then obtain ds en s2 where d: "drive rn 1 t ds 0 s = (en, s2)" "os_traces s1 = os_traces s2 \<and> untouched s2 s1" "\<not> 50 < ma"
      using finish_drive_frame [OF _ q] by (force simp: untouched_def)
    from drive_frame [OF q _ d(1)] d(2,3) show ?thesis
      by (auto simp: effect_step_def rn_def min_def intro: untouched_trans)
  next
    case False
    with unf have "os_traces s1 = os_traces s \<and> untouched s s1"
      by (auto simp: untouched_def stop_def driver_checkpoint_def set_op_db_def
          split: if_splits option.splits sum.splits prod.splits drive_end.splits)
    then show ?thesis by simp
  qed
qed

section \<open>States that never complete\<close>

definition ahead :: "driver_run \<Rightarrow> driver_state \<Rightarrow> string \<Rightarrow> bool" where
  "ahead rn ds cap \<longleftrightarrow>
     list_ex (\<lambda>st. dp_capability st = cap) (drop (ds_next ds) (pn_steps (rn_plan rn)))"

definition failed_item :: "driver_state \<Rightarrow> bool" where
  "failed_item ds \<longleftrightarrow> list_ex (\<lambda>x. di_verify x \<and> di_result x \<noteq> ''succeeded'') (ds_completed ds)"

definition dead_end :: "driver_run \<Rightarrow> driver_state \<Rightarrow> bool" where
  "dead_end rn ds \<longleftrightarrow>
     failed_item ds \<and> ahead rn ds ''verification_evaluate'' \<or> ds_pending ds \<noteq> None \<or> ahead rn ds ''provider_step''"

lemma ahead_Suc:
  assumes "ahead rn ds cap" and "ds_next ds < length (pn_steps (rn_plan rn))"
    and "dp_capability (pn_steps (rn_plan rn) ! ds_next ds) \<noteq> cap" and "ds_next ds1 = Suc (ds_next ds)"
  shows "ahead rn ds1 cap"
  using assms by (simp add: ahead_def Cons_nth_drop_Suc [symmetric])

lemma failed_item_blocks: "failed_item ds \<Longrightarrow> \<not> items_passed ds"
  by (auto simp: failed_item_def items_passed_def required_items_def list_ex_iff list_all_iff)

lemma driver_turn_keeps:
  assumes "driver_turn rn n t ds actions s = (Goes_on t1 ds1 a1, s1)"
  shows "set (ds_completed ds) \<subseteq> set (ds_completed ds1) \<and> (ds_pending ds \<noteq> None \<longrightarrow> ds_pending ds1 \<noteq> None) \<and>
    (dp_capability (pn_steps (rn_plan rn) ! ds_next ds) = ''provider_step'' \<longrightarrow> ds_pending ds1 \<noteq> None) \<and>
    (dp_capability (pn_steps (rn_plan rn) ! ds_next ds) = ''verification_evaluate'' \<longrightarrow> items_passed ds)"
  using assms
  by (auto simp: driver_turn_def Let_def provider_turn_def evaluate_turn_def returned_def stop_def after_step_def
      dest!: operator_turn_next settle_step_next split: if_splits)

lemma dead_end_turn:
  assumes turn: "driver_turn rn n t ds actions s = (Goes_on t1 ds1 a1, s1)" and "dead_end rn ds"
    and lt: "ds_next ds < length (pn_steps (rn_plan rn))"
  shows "dead_end rn ds1"
proof -
  note keeps = driver_turn_keeps [OF turn] and nxt = driver_turn_next [OF turn]
  from assms(2) consider "failed_item ds" "ahead rn ds ''verification_evaluate''" | "ds_pending ds \<noteq> None" | "ahead rn ds ''provider_step''"
    unfolding dead_end_def by blast
  then show ?thesis
  proof cases
    case 1
    have "failed_item ds1" using 1(1) keeps by (auto simp: failed_item_def list_ex_iff)
    moreover have "dp_capability (pn_steps (rn_plan rn) ! ds_next ds) \<noteq> ''verification_evaluate''"
      using keeps failed_item_blocks [OF 1(1)] by blast
    ultimately show ?thesis using ahead_Suc [OF 1(2) lt _ nxt] unfolding dead_end_def by blast
  next
    case 2
    with keeps show ?thesis unfolding dead_end_def by blast
  next
    case 3
    show ?thesis
    proof (cases "dp_capability (pn_steps (rn_plan rn) ! ds_next ds) = ''provider_step''")
      case True
      with keeps show ?thesis unfolding dead_end_def by blast
    next
      case False
      with ahead_Suc [OF 3 lt _ nxt] show ?thesis unfolding dead_end_def by blast
    qed
  qed
qed

lemma dead_end_drive:
  "drive rn n t ds actions s = (Through t1 ds1 m, s1) \<Longrightarrow> dead_end rn ds \<Longrightarrow> ds_pending ds1 \<noteq> None"
proof (induction rn n t ds actions s rule: drive.induct)
  case (1 rn n t ds actions s)
  show ?case
  proof (cases "ds_next ds < length (pn_steps (rn_plan rn))")
    case False
    with 1(2,3) show ?thesis by (simp add: drive.simps [of rn n t ds actions s] dead_end_def ahead_def)
  next
    case True
    obtain tr s2 where turn: "driver_turn rn n t ds actions s = (tr, s2)" by fastforce
    show ?thesis
    proof (cases tr)
      case (Returned x)
      with 1(2) True turn show ?thesis by (simp add: drive.simps [of rn n t ds actions s])
    next
      case (Goes_on t2 ds2 a2)
      with 1(2) True turn have "drive rn (Suc n) t2 ds2 a2 s2 = (Through t1 ds1 m, s1)"
        by (simp add: drive.simps [of rn n t ds actions s])
      moreover have "dead_end rn ds2" using turn Goes_on 1(3) True by (auto intro: dead_end_turn)
      ultimately show ?thesis using 1(1) [OF True turn [symmetric] Goes_on] by blast
    qed
  qed
qed

lemma settle_not_complete:
  "settle_step rn n t st ds actions x s = (Returned (Inr r), s1) \<Longrightarrow> dr_class r \<noteq> ClComplete"
  by (auto simp: settle_step_def Let_def returned_def stop_def failed_state_def split: sum.splits op_error.splits if_splits)

lemma operator_turn_not_complete:
  "operator_turn rn n t st ds actions s = (Returned (Inr r), s1) \<Longrightarrow> dr_class r \<noteq> ClComplete"
  by (auto simp: operator_turn_def Let_def returned_def stop_def
      dest!: settle_not_complete split: option.splits if_splits prod.splits sum.splits driver_error.splits op_error.splits)

lemma driver_turn_not_complete:
  assumes "driver_turn rn n t ds actions s = (Returned (Inr r), s1)"
  shows "dr_class r \<noteq> ClComplete"
  using assms
  by (auto simp: driver_turn_def Let_def provider_turn_def evaluate_turn_def returned_def stop_def
      dest!: operator_turn_not_complete split: if_splits)

lemma drive_not_complete:
  "drive rn n t ds actions s = (Ended (Inr r), s1) \<Longrightarrow> dr_class r \<noteq> ClComplete"
proof (induction rn n t ds actions s rule: drive.induct)
  case (1 rn n t ds actions s)
  show ?case
  proof (cases "ds_next ds < length (pn_steps (rn_plan rn))")
    case False
    with 1(2) show ?thesis by (simp add: drive.simps [of rn n t ds actions s])
  next
    case True
    obtain tr s2 where turn: "driver_turn rn n t ds actions s = (tr, s2)" by fastforce
    with 1 True show ?thesis
      by (cases tr) (auto simp: drive.simps [of rn n t ds actions s] dest: driver_turn_not_complete)
  qed
qed

text \<open>A run that completes went through all steps, to the completion gate.\<close>

lemma run_completes:
  assumes "run_driver env ctx p ma me (s, lrn) = (Inr r, s1, lrn1)" and "dr_class r = ClComplete"
  obtains t g ds0 t1 ds n s2 where
    "validate_plan (dv_machine env) (ce_now (dv_call env 0)) ctx p s = Inr (t, g)"
    "resume_state env ctx p (op_db s) = Inr ds0"
    "drive \<lparr>rn_env = env, rn_ctx = ctx, rn_plan = p, rn_goal = g, rn_max_actions = nat ma, rn_max_elapsed = me\<rparr> 1 t ds0 0 s
       = (Through t1 ds n, s2)"
    "finish_drive \<lparr>rn_env = env, rn_ctx = ctx, rn_plan = p, rn_goal = g, rn_max_actions = nat ma, rn_max_elapsed = me\<rparr> n t1 ds
       (s2, lrn) = (Inr r, s1, lrn1)" "ds_pending ds = None"
proof -
  have pend: "ds_pending ds = None" if "finish_drive rn n t1 ds (s2, lrn) = (Inr r, s1, lrn1)" for rn n t1 ds s2
  proof (rule ccontr)
    assume "ds_pending ds \<noteq> None"
    with that have "dr_class r = ClWaitingProvider" by (auto simp: finish_drive_def stop_def)
    with assms(2) show False by simp
  qed
  show thesis
    using assms that pend
    by (auto simp: run_driver_def Let_def stop_def dest: drive_not_complete
        split: sum.splits prod.splits if_splits option.splits drive_end.splits)
qed

section \<open>An undisturbed run\<close>

definition undisturbed :: "driver_env \<Rightarrow> bool" where
  "undisturbed env \<longleftrightarrow> (\<forall>n s. dv_world env n s = s)"

lemma same_rows_trans: "same_rows a b \<Longrightarrow> same_rows b c \<Longrightarrow> same_rows a c"
  by (simp add: same_rows_def)

lemma op_frame_rows: "op_frame s r s1 \<Longrightarrow> same_rows s s1"
  by (simp add: op_frame_def same_rows_def op_db_def)

lemma checkpoint_progress_rows:
  "checkpoint_operator_progress mc now ctx ids ph fs s = Inr s1 \<Longrightarrow> same_rows s s1"
  by (auto simp: checkpoint_operator_progress_def same_rows_def sbind_Inr_iff split: option.splits)

lemma stop_rows: "stop rn n t ph cl det ds s = (r, s1) \<Longrightarrow> same_rows s s1"
  by (auto simp: stop_def driver_checkpoint_def same_rows_def)

definition turn_rows :: "driver_run \<Rightarrow> mainai_task \<Rightarrow> op_state \<Rightarrow> turn \<Rightarrow> op_state \<Rightarrow> bool" where
  "turn_rows rn t s tr s1 \<longleftrightarrow>
     same_rows s s1 \<and> (\<forall>t1 ds1 a1. tr = Goes_on t1 ds1 a1 \<longrightarrow> own_row rn t s = t \<longrightarrow> t1 = t)"

lemma settle_step_rows:
  assumes "settle_step rn n t st ds actions r s = (tr, s1)" and "undisturbed (rn_env rn)"
  shows "turn_rows rn t s tr s1"
  using assms
  by (auto simp: settle_step_def Let_def undisturbed_def returned_def failed_state_def turn_rows_def
      stop_def driver_checkpoint_def same_rows_def
      dest!: checkpoint_progress_rows split: sum.splits op_error.splits if_splits)

lemma turn_rows_from: "same_rows s s2 \<Longrightarrow> turn_rows rn t s2 tr s1 \<Longrightarrow> turn_rows rn t s tr s1"
  by (auto simp: turn_rows_def same_rows_def own_row_def)

lemma operator_turn_rows:
  assumes "operator_turn rn n t st ds actions s = (tr, s1)" and q: "undisturbed (rn_env rn)"
  shows "turn_rows rn t s tr s1"
proof -
  let ?env = "rn_env rn" and ?ctx = "rn_ctx rn"
  have w: "dv_world ?env k u = u" for k u using q by (simp add: undisturbed_def)
  obtain r s2 where inv: "invoke_operator (dv_machine ?env) (dv_call ?env n) ?ctx st (step_key rn ds) (dv_world ?env (2 * n) s) =
      (r, s2)" by fastforce
  have s2: "same_rows s s2" using invoke_operator_frame [OF inv] op_frame_rows unfolding w by blast
  have ret: "turn_rows rn t s (Returned x) s3" if "same_rows s s3" for x s3 using that by (simp add: turn_rows_def)
  have stopped: "turn_rows rn t s tr s1"
    if "returned (stop rn n t ph cl det ds s3) = (tr, s1)" "same_rows s s3" for ph cl det s3
    using that by (auto simp: turn_rows_def returned_def stop_def driver_checkpoint_def same_rows_def)
  have settled_rows: "turn_rows rn t s tr s1"
    if "settle_step rn n t st ds actions x s3 = (tr, s1)" "same_rows s s3" for x s3
    using settle_step_rows [OF that(1) q] that(2) by (blast intro: turn_rows_from)
  have gap: "same_rows s s3"
    if "capability_missing (dv_machine ?env) (dv_call ?env n) ?ctx c why g k s2 = (x, s3)" for c why g k x s3
    by (rule same_rows_trans [OF s2 op_frame_rows [OF read_frame_op [OF capability_missing_frame [OF that]]]])
  have refl: "same_rows s s" by (simp add: same_rows_def)
  from assms(1) inv show ?thesis
  proof (cases rule: operator_turn_cases)
    case before
    then show ?thesis using ret [OF refl] by (simp add: w)
  next
    case cancelled
    then show ?thesis using stopped refl by (simp add: w)
  next
    case settled
    then show ?thesis using settled_rows s2 by blast
  next
    case stale
    then show ?thesis using stopped s2 by blast
  next
    case raised
    then show ?thesis using ret [OF s2] by simp
  next
    case missing
    then show ?thesis using settled_rows gap by blast
  next
    case unmissed
    then show ?thesis using ret gap by blast
  qed
qed

lemma driver_turn_rows:
  assumes "driver_turn rn n t ds actions s = (tr, s1)" and "undisturbed (rn_env rn)"
  shows "turn_rows rn t s tr s1"
  using assms(1)
proof (cases rule: driver_turn_cases)
  case operator
  with assms(2) show ?thesis by (blast intro: operator_turn_rows)
next
  case still
  then show ?thesis by (simp add: still_def turn_rows_def)
qed

lemma drive_rows:
  assumes "undisturbed (rn_env rn)"
  shows "drive rn n t ds actions s = (en, s1) \<Longrightarrow>
    same_rows s s1 \<and> (\<forall>t1 ds1 m. en = Through t1 ds1 m \<longrightarrow> own_row rn t s = t \<longrightarrow> t1 = t)"
  using assms
proof (induction rn n t ds actions s rule: drive.induct)
  case (1 rn n t ds actions s)
  show ?case
  proof (cases "ds_next ds < length (pn_steps (rn_plan rn))")
    case False
    with 1(2) show ?thesis by (auto simp: drive.simps [of rn n t ds actions s] same_rows_def)
  next
    case True
    obtain tr s2 where turn: "driver_turn rn n t ds actions s = (tr, s2)" by fastforce
    note tr = driver_turn_rows [OF turn 1(3)]
    show ?thesis
    proof (cases tr)
      case (Returned x)
      with 1(2) True turn tr show ?thesis by (auto simp: drive.simps [of rn n t ds actions s] turn_rows_def)
    next
      case (Goes_on t2 ds2 a2)
      with 1(2) True turn have "drive rn (Suc n) t2 ds2 a2 s2 = (en, s1)" by (simp add: drive.simps [of rn n t ds actions s])
      from 1(1) [OF True turn [symmetric] Goes_on this 1(3)] tr Goes_on show ?thesis
        by (auto simp: turn_rows_def same_rows_def own_row_def)
    qed
  qed
qed

lemma find_filter: "find_row P xs = (case filter P xs of [] \<Rightarrow> None | x # _ \<Rightarrow> Some x)"
  by (induction xs) auto

lemma latest_other_step:
  assumes "step \<noteq> step'" and "{''job_id'', ''step''} \<inter> fst ` set data = {}"
  shows "latest_checkpoint_for_step tid job step (record_checkpoint now t g job' step' data d) =
    latest_checkpoint_for_step tid job step d"
  using assms
  by (auto simp: latest_checkpoint_for_step_def record_checkpoint_def executor_state_def find_filter filter_sort
      rev_filter [symmetric])

lemma verification_passed_cong:
  "checkpoints d1 = checkpoints d \<Longrightarrow> verification_passed tid jid d1 = verification_passed tid jid d"
  by (simp add: verification_passed_def latest_checkpoint_for_step_def)

lemma rollup_checkpoints:
  assumes "rollup_goal_after_task_boundary env now t d = Inr d'"
  shows "checkpoints d' = checkpoints d"
  using assms
  by (auto simp: rollup_goal_after_task_boundary_def Let_def record_final_report_def write_goal_def recompute_task_readiness_def
      elim!: sbind_InrE split: if_splits option.splits)

lemma write_task_checkpoints: "write_task tid f evs d = Inr d1 \<Longrightarrow> checkpoints d1 = checkpoints d"
  by (auto simp: write_task_def split: if_splits)

lemma mark_completed_effect:
  assumes "mark_completed now j w gen msg d = Inr d1"
  shows "holder d (j_id j) w gen \<and> tasks d1 = tasks d \<and> checkpoints d1 = checkpoints d \<and>
    (\<forall>x\<in>set (jobs d). holds_claim (j_id j) w gen x \<longrightarrow> (\<exists>y\<in>set (jobs d1). j_id y = j_id x \<and> j_status y = JCompleted))"
proof -
  define f :: "mainai_job \<Rightarrow> mainai_job" where "f = (\<lambda>r. r\<lparr>j_status := JCompleted, j_completed_at := Some now,
    j_public_message := Some (case msg of None \<Rightarrow> ''Completed.'' | Some m \<Rightarrow> if m = [] then ''Completed.'' else m)\<rparr>)"
  have f: "j_id (f x) = j_id x \<and> j_status (f x) = JCompleted" for x by (simp add: f_def)
  obtain d0 where g: "guarded_job_write (j_id j) w gen f d = Inr d0"
    and d1: "d1 = record_audit (Some (j_owner j)) ''mainai_job_completed'' (j_id j) None (record_event now j EvCompleted [] d0)"
    using assms unfolding mark_completed_def f_def [symmetric] by (auto elim!: sbind_InrE)
  from g have h: "holder d (j_id j) w gen" "d0 = d\<lparr>jobs := update_rows (holds_claim (j_id j) w gen) f (jobs d)\<rparr>"
    by (simp_all add: guarded_Inr_iff)
  have same: "tasks d1 = tasks d" "checkpoints d1 = checkpoints d" "jobs d1 = update_rows (holds_claim (j_id j) w gen) f (jobs d)"
    by (simp_all add: d1 h(2) record_event_def record_audit_def)
  have "\<exists>y\<in>set (jobs d1). j_id y = j_id x \<and> j_status y = JCompleted" if "x \<in> set (jobs d)" "holds_claim (j_id j) w gen x" for x
    using that f [of x] unfolding same(3) by (intro bexI [of _ "f x"]) (auto simp: in_update_rows_iff)
  with h(1) same show ?thesis by blast
qed

lemma validate_plan_Inr:
  assumes "validate_plan mc now ctx p s = Inr (t, g)"
  shows "find_row (own_task ctx) (tasks (op_db s)) = Some t \<and> t_status t = TRunning \<and>
    (\<exists>j. find_row (own_job ctx) (jobs (op_db s)) = Some j \<and> held_job now ctx j \<and> t_job t = Some (j_id j)) \<and>
    require_live_authority ctx t s = Inr () \<and> g_approval_policy g = ''autonomous_development_work''"
  using assms
  by (auto simp: validate_plan_def sbind_Inr_iff require_context_Inr ensure_Inr_iff
      dest!: require_linked_Inr find_row_SomeD split: if_splits sum.splits option.splits prod.splits)

lemma finish_completes:
  assumes "finish_drive rn n t ds (s, lrn) = (Inr r, s1, lrn1)" and "dr_class r = ClComplete"
    and un: "undisturbed (rn_env rn)" and t: "t \<in> set (tasks (op_db s))" "t_status t = TRunning"
      "t_job t = Some (oc_job (rn_ctx rn))"
  shows "(t_verification_plan t = [] \<or> verification_passed (t_id t) (oc_job (rn_ctx rn)) (op_db s1)) \<and>
    (\<exists>j. find_row (\<lambda>j. j_id j = oc_job (rn_ctx rn)) (jobs (op_db s)) = Some j \<and> \<not> j_cancel_requested j \<and>
      holder (op_db s) (j_id j) (oc_worker (rn_ctx rn)) (oc_generation (rn_ctx rn))) \<and>
    (\<exists>t'\<in>set (tasks (op_db s1)). t_id t' = t_id t \<and> t_status t' = TCompleted) \<and>
    (\<exists>j'\<in>set (jobs (op_db s1)). j_id j' = oc_job (rn_ctx rn) \<and> j_status j' = JCompleted) \<and>
    (\<exists>c. c \<in> set (checkpoints (op_db s1)) \<and> jget (c_state c) ''classification'' = JStr ''COMPLETE'' \<and>
      jget (c_state c) ''driver_state'' = JObj (state_dict ds))"
proof -
  let ?env = "rn_env rn" and ?ctx = "rn_ctx rn" and ?now = "ce_now (dv_call (rn_env rn) n)"
  let ?ev = "[(''development_driver_plan'', JStr (pn_id (rn_plan rn))), (''plan_hash'', JStr (plan_hash (rn_env rn) (rn_plan rn)))]"
  have w: "dv_world ?env k u = u" for k u using un by (simp add: undisturbed_def)
  have "ds_pending ds \<noteq> None \<Longrightarrow> dr_class r = ClWaitingProvider" using assms(1) by (auto simp: finish_drive_def stop_def)
  then have pend1: "ds_pending ds = None" using assms(2) by (cases "ds_pending ds") auto
  have "t_verification_plan t \<noteq> [] \<and> \<not> verification_passed (t_id t) (oc_job ?ctx) (op_db s) \<Longrightarrow>
      dr_class r = ClVerificationRequired"
    using assms(1) pend1 by (auto simp: finish_drive_def stop_def Let_def)
  then have pend2: "t_verification_plan t = [] \<or> verification_passed (t_id t) (oc_job ?ctx) (op_db s)" using assms(2) by auto
  note pend = pend1 pend2
  have guard: "\<not> (t_verification_plan t \<noteq> [] \<and> \<not> verification_passed (t_id t) (oc_job ?ctx) (op_db s))" using pend(2) by blast
  note run = assms(1) [unfolded finish_drive_def Let_def prod.case w if_not_P [OF guard] pend(1)]
  obtain j where j: "find_row (\<lambda>j. j_id j = oc_job ?ctx) (jobs (op_db s)) = Some j"
    using run by (auto split: option.splits)
  have nc: "\<not> j_cancel_requested j"
    using run assms(2) by (auto simp: j stop_def split: if_splits sum.splits)
  obtain d lrn2 where fin: "finalize_task_outcome (dv_outcome ?env) ?now t True ?ev None (op_db s, lrn) = Inr (d, lrn2)"
    using run nc by (auto simp: j split: sum.splits)
  obtain d2 where mark: "mark_completed ?now j (oc_worker ?ctx) (oc_generation ?ctx)
      (Some ''Development Driver completed verified bounded work.'')
      (op_db (driver_checkpoint rn ?now t PhComplete ClComplete ds (set_op_db d s))) = Inr d2"
    and s1: "op_db s1 = d2"
    using run nc fin by (auto simp: j stop_def split: sum.splits)
  have nocancel: "\<not> cancel_was_requested t (op_db s)"
    using t(3) j nc by (simp add: cancel_was_requested_def job_of_task_def)
  from fin obtain d1 where wt: "write_task (t_id t) (completed_task ?now)
      [task_event_row ?now t TeVerificationPassed ?ev, task_event_row ?now t TeCompleted ?ev] (op_db s) = Inr d1"
    and roll: "rollup_goal_after_task_boundary (dv_outcome ?env) ?now (completed_task ?now t) d1 = Inr d"
    using nocancel t(2) by (cases rule: finalize_passed_InrE) auto
  note row = write_task_row [OF wt t(1) refl]
  have row_done: "completed_task ?now t \<in> set (tasks d)"
    using rollup_keeps_row [OF roll] row by (simp add: completed_task_def)
  have jobs: "jobs d = jobs (op_db s)" using rollup_frame [OF roll] row by simp
  have cps: "checkpoints d = checkpoints (op_db s)" using rollup_checkpoints [OF roll] write_task_checkpoints [OF wt] by simp
  let ?d3 = "op_db (driver_checkpoint rn ?now t PhComplete ClComplete ds (set_op_db d s))"
  have d3: "tasks ?d3 = tasks d" "jobs ?d3 = jobs d" by (simp_all add: driver_checkpoint_def)
  note eff = mark_completed_effect [OF mark]
  have "verification_passed tid jid d2 = verification_passed tid jid (op_db s)" for tid jid
  proof -
    have "checkpoints d2 = checkpoints ?d3" using eff by (elim conjE)
    then have "verification_passed tid jid d2 = verification_passed tid jid ?d3" by (rule verification_passed_cong)
    also have "\<dots> = verification_passed tid jid d"
      by (simp add: verification_passed_def driver_checkpoint_def latest_other_step)
    also have "\<dots> = verification_passed tid jid (op_db s)" using cps by (rule verification_passed_cong)
    finally show ?thesis .
  qed
  then have ver: "t_verification_plan t = [] \<or> verification_passed (t_id t) (oc_job ?ctx) (op_db s1)"
    using pend(2) unfolding s1 by metis
  have jid: "j_id j = oc_job ?ctx" using j by (blast dest: find_row_SomeD)
  have hold: "holder (op_db s) (j_id j) (oc_worker ?ctx) (oc_generation ?ctx)"
    using eff d3 jobs by (simp add: holder_def)
  then obtain x where "x \<in> set (jobs ?d3)" "holds_claim (j_id j) (oc_worker ?ctx) (oc_generation ?ctx) x"
    using d3 jobs by (auto simp: holder_def list_ex_iff)
  then have jdone: "\<exists>y\<in>set (jobs (op_db s1)). j_id y = oc_job ?ctx \<and> j_status y = JCompleted"
    using eff jid unfolding s1 by (fastforce simp: holds_claim_def)
  have "completed_task ?now t \<in> set (tasks d2)" using eff d3 row_done by simp
  then have tdone: "\<exists>t'\<in>set (tasks (op_db s1)). t_id t' = t_id t \<and> t_status t' = TCompleted"
    unfolding s1 by (intro bexI) (auto simp: completed_task_def)
  have "\<exists>c. c \<in> set (checkpoints ?d3) \<and> jget (c_state c) ''classification'' = JStr ''COMPLETE'' \<and>
      jget (c_state c) ''driver_state'' = JObj (state_dict ds)"
    unfolding driver_checkpoint_def record_checkpoint_def set_op_db_simps
    by (rule exI [of _ "\<lparr>c_goal = t_goal t, c_task = Some (t_id t), c_owner = t_owner t,
      c_plan_version = g_current_plan_version (rn_goal rn),
      c_state = executor_state (oc_job ?ctx) ''development_driver''
        [(''phase'', JStr (phase_value PhComplete)), (''classification'', JStr (class_value ClComplete)),
         (''driver_state'', JObj (state_dict ds))], c_created_at = ?now\<rparr>"]) (simp add: executor_state_def)
  then have stored: "\<exists>c. c \<in> set (checkpoints (op_db s1)) \<and> jget (c_state c) ''classification'' = JStr ''COMPLETE'' \<and>
      jget (c_state c) ''driver_state'' = JObj (state_dict ds)"
    using eff unfolding s1 by simp
  show ?thesis by (intro conjI exI [of _ j]; fact)
qed

lemma drive_through_next:
  "drive rn n t ds actions s = (Through t1 ds1 m, s1) \<Longrightarrow> length (pn_steps (rn_plan rn)) \<le> ds_next ds1"
proof (induction rn n t ds actions s rule: drive.induct)
  case (1 rn n t ds actions s)
  obtain tr s2 where turn: "driver_turn rn n t ds actions s = (tr, s2)" by fastforce
  with 1 show ?case
    by (cases tr) (auto simp: drive.simps [of rn n t ds actions s] split: if_splits)
qed

section \<open>What the next invocation resumes from\<close>

definition timely :: "time \<Rightarrow> op_state \<Rightarrow> bool" where
  "timely now s \<longleftrightarrow> (\<forall>c\<in>set (checkpoints (op_db s)). c_created_at c \<le> now)"

definition resumable :: "driver_run \<Rightarrow> mainai_task \<Rightarrow> driver_state \<Rightarrow> bool" where
  "resumable rn t ds \<longleftrightarrow>
     wf_state ds \<and> ds_hash ds = plan_hash (rn_env rn) (rn_plan rn) \<and> t_id t = oc_task (rn_ctx rn)"

text \<open>Going from \<open>ds\<close> to \<open>ds1\<close> in a turn that ends with a class.\<close>

definition moved :: "driver_state \<Rightarrow> driver_class \<Rightarrow> driver_state \<Rightarrow> bool" where
  "moved ds cl ds1 \<longleftrightarrow>
     prefix (ds_completed ds) (ds_completed ds1) \<and>
     (cl \<in> {ClFailedNonretryable, ClCapabilityMissing} \<longrightarrow> ds_next ds1 = Suc (ds_next ds)) \<and>
     (cl \<in> {ClFailedRetryable, ClActionBound, ClCancelled, ClExternalReview, ClVerificationRequired} \<longrightarrow>
        ds_next ds1 = ds_next ds)"

definition resumes :: "driver_run \<Rightarrow> driver_state \<Rightarrow> driver_result \<Rightarrow> op_state \<Rightarrow> bool" where
  "resumes rn ds r s1 \<longleftrightarrow>
     (\<exists>ds1. resume_state (rn_env rn) (rn_ctx rn) (rn_plan rn) (op_db s1) = Inr ds1 \<and>
        dr_completed r = length (ds_completed ds1) \<and> moved ds (dr_class r) ds1)"

lemma stop_resumes:
  assumes "returned (stop rn n t ph cl det dsn s) = (Returned (Inr r), s1)" and "resumable rn t dsn"
    and "timely (ce_now (dv_call (rn_env rn) n)) s" and "moved ds cl dsn"
  shows "resumes rn ds r s1"
  using assms checkpoint_resumes [of dsn "rn_env rn" "rn_plan rn" t "rn_ctx rn" rn s]
  by (auto simp: returned_def stop_def resumes_def resumable_def timely_def)

lemma resumable_changes [simp]:
  "resumable rn t (after_step st ds x) = resumable rn t ds"
  "resumable rn t (fst (failed_state p st ds)) = resumable rn t ds"
  "resumable rn t (ds\<lparr>ds_pending := q, ds_next := k\<rparr>) = resumable rn t ds"
  by (auto simp: resumable_def wf_state_def after_step_def item_of_result_def failed_state_def Let_def)

lemma resumable_extended:
  assumes "resumable rn t ds" and "fst ` set kvs \<inter> set driver_keys = {}"
  shows "resumable rn t (extended kvs ds)"
proof -
  have "map_of (filter (\<lambda>x. fst x \<notin> K) d) k = (if k \<in> K then None else map_of d k)" for d :: jdict and k K
    by (induction d) auto
  with assms show ?thesis
    by (auto simp: resumable_def wf_state_def extended_def map_add_def map_of_eq_None_iff split: option.splits)
qed

lemma timely_progress:
  assumes "checkpoint_operator_progress mc now ctx ids ph fs s = Inr s1" and "timely now s"
  shows "timely now s1"
  using assms
  by (auto simp: checkpoint_operator_progress_def timely_def record_checkpoint_def sbind_Inr_iff split: option.splits)

lemma timely_frame: "op_frame s r s1 \<Longrightarrow> timely now s \<Longrightarrow> timely now s1"
  by (simp add: op_frame_def timely_def op_db_def)

lemma settle_step_resumes:
  assumes "settle_step rn n t st ds actions x s = (Returned (Inr r), s1)" and un: "undisturbed (rn_env rn)"
    and ok: "resumable rn t ds" and now: "timely (ce_now (dv_call (rn_env rn) n)) s"
  shows "resumes rn ds r s1"
proof -
  let ?env = "rn_env rn" and ?ds1 = "after_step st ds x"
  let ?cp = "checkpoint_operator_progress (dv_machine ?env) (ce_now (dv_call ?env n)) (rn_ctx rn)
      (item_ids (ds_completed ?ds1)) ''execute'' [] s"
  have w: "dv_world ?env k u = u" for k u using un by (simp add: undisturbed_def)
  note run = assms(1) [unfolded settle_step_def Let_def w]
  have pre: "prefix (ds_completed ds) (ds_completed ?ds1)" "ds_next ?ds1 = Suc (ds_next ds)"
    by (simp_all add: after_step_def)
  show ?thesis
  proof (cases ?cp)
    case (Inl e)
    then obtain why where "e = OpTransition why" using run by (cases e) auto
    with run Inl ok now pre show ?thesis
      by (auto intro!: stop_resumes [where cl = ClStaleAuthority and dsn = ?ds1] simp: moved_def)
  next
    case (Inr s2)
    note t2 = timely_progress [OF Inr now]
    consider (gap) "ar_result x = ''capability_missing''" | (failed) "ar_result x \<noteq> ''capability_missing''" "step_failed x"
      using run Inr by (auto split: if_splits)
    then show ?thesis
    proof cases
      case gap
      have "resumable rn t (extended [(''capability_gap'', JObj (ar_detail x))] ?ds1)"
        using ok by (intro resumable_extended) (simp_all add: driver_keys_def)
      with run Inr gap t2 pre show ?thesis
        by (auto intro!: stop_resumes [where cl = ClCapabilityMissing] simp: moved_def extended_def)
    next
      case failed
      obtain ds2 again where fs: "failed_state (rn_plan rn) st ?ds1 = (ds2, again)" by fastforce
      have ok2: "resumable rn t ds2" using ok resumable_changes(2) [of rn t "rn_plan rn" st ?ds1] by (simp add: fs)
      have mv: "moved ds (if again then ClFailedRetryable else ClFailedNonretryable) ds2"
        using fs pre by (auto simp: failed_state_def Let_def moved_def)
      from run Inr failed fs have "returned (stop rn n t PhFailed (if again then ClFailedRetryable else ClFailedNonretryable)
          (failure_detail st x) ds2 s2) = (Returned (Inr r), s1)" by simp
      from stop_resumes [OF this ok2 t2 mv] show ?thesis .
    qed
  qed
qed

lemma operator_turn_resumes:
  assumes "operator_turn rn n t st ds actions s = (Returned (Inr r), s1)" and un: "undisturbed (rn_env rn)"
    and ok: "resumable rn t ds" and now: "timely (ce_now (dv_call (rn_env rn) n)) s"
  shows "resumes rn ds r s1"
proof -
  let ?env = "rn_env rn" and ?ctx = "rn_ctx rn"
  have w: "dv_world ?env k u = u" for k u using un by (simp add: undisturbed_def)
  obtain x s2 where inv: "invoke_operator (dv_machine ?env) (dv_call ?env n) ?ctx st (step_key rn ds) (dv_world ?env (2 * n) s) =
      (x, s2)" by fastforce
  have t2: "timely (ce_now (dv_call ?env n)) s2"
    using invoke_operator_frame [OF inv] timely_frame now unfolding w by blast
  have stay: "moved ds ClCancelled ds" "moved ds ClStaleAuthority ds" by (simp_all add: moved_def)
  from assms(1) inv show ?thesis
  proof (cases rule: operator_turn_cases)
    case cancelled
    then show ?thesis using stop_resumes [OF _ ok now stay(1)] unfolding w by blast
  next
    case settled
    then show ?thesis using settle_step_resumes [OF _ un ok t2] by blast
  next
    case stale
    then show ?thesis using stop_resumes [OF _ ok t2 stay(2)] by blast
  next
    case (missing e c why g k y s3)
    have "timely (ce_now (dv_call ?env n)) s3"
      by (rule timely_frame [OF read_frame_op [OF capability_missing_frame [OF missing(2)]] t2])
    with missing(3) show ?thesis using settle_step_resumes [OF _ un ok] by blast
  qed simp_all
qed

lemma driver_turn_resumes:
  assumes turn: "driver_turn rn n t ds actions s = (Returned (Inr r), s1)" and un: "undisturbed (rn_env rn)"
    and ok: "resumable rn t ds" and now: "timely (ce_now (dv_call (rn_env rn) n)) s"
  shows "resumes rn ds r s1"
proof -
  let ?st = "pn_steps (rn_plan rn) ! ds_next ds"
  have stay: "moved ds cl ds" if "cl \<notin> {ClFailedNonretryable, ClCapabilityMissing}" for cl
    using that by (simp add: moved_def)
  note stops = stop_resumes [OF _ ok now stay]
  consider (bound) "rn_max_actions rn \<le> actions \<or> rn_max_elapsed rn \<le> dv_elapsed (rn_env rn) n"
    | (wait) "\<not> (rn_max_actions rn \<le> actions \<or> rn_max_elapsed rn \<le> dv_elapsed (rn_env rn) n)"
        "ds_pending ds \<noteq> None \<and> \<not> dp_independent ?st"
    | (go) "\<not> (rn_max_actions rn \<le> actions \<or> rn_max_elapsed rn \<le> dv_elapsed (rn_env rn) n)"
        "\<not> (ds_pending ds \<noteq> None \<and> \<not> dp_independent ?st)" by blast
  then show ?thesis
  proof cases
    case bound
    then show ?thesis using turn stops unfolding driver_turn_def Let_def by auto
  next
    case wait
    then show ?thesis using turn stops unfolding driver_turn_def Let_def by auto
  next
    case go
    note run = turn [unfolded driver_turn_def Let_def if_not_P [OF go(1)] if_not_P [OF go(2)]]
    consider (provider) "dp_capability ?st = ''provider_step''" | (review) "dp_capability ?st = ''external_review''"
      | (evaluate) "dp_capability ?st = ''verification_evaluate''"
      | (operator) "operator_turn rn n t ?st ds actions s = (Returned (Inr r), s1)"
      using run by (auto split: if_splits)
    then show ?thesis
    proof cases
      case provider
      let ?ds1 = "ds\<lparr>ds_pending := Some (ds_next ds, dp_purpose ?st), ds_next := Suc (ds_next ds)\<rparr>"
      let ?dsn = "extended [(''unresolved'', JStr (dp_purpose ?st)), (''independent_work_remains'', JBool False)] ?ds1"
      have "resumable rn t ?dsn" using ok by (intro resumable_extended) (simp_all add: driver_keys_def)
      moreover have "moved ds ClWaitingProvider ?dsn" by (simp add: moved_def extended_def)
      moreover have "returned (stop rn n t PhWait ClWaitingProvider [(''independent_work_remains'', JBool False)] ?dsn s) =
          (Returned (Inr r), s1)"
        using run provider by (simp add: provider_turn_def Let_def split: if_splits)
      ultimately show ?thesis using stop_resumes now by blast
    next
      case review
      let ?dsn = "extended [(''unresolved'', JStr (dp_purpose ?st)), (''review_context'', JObj (dp_arguments ?st))] ds"
      have "resumable rn t ?dsn" using ok by (intro resumable_extended) (simp_all add: driver_keys_def)
      moreover have "moved ds ClExternalReview ?dsn" by (simp add: moved_def extended_def)
      moreover have "returned (stop rn n t PhReview ClExternalReview (dp_arguments ?st) ?dsn s) = (Returned (Inr r), s1)"
        using run review by simp
      ultimately show ?thesis using stop_resumes now by blast
    next
      case evaluate
      let ?s1 = "set_op_db (record_checkpoint (ce_now (dv_call (rn_env rn) n)) t (rn_goal rn) (oc_job (rn_ctx rn)) ''verification''
        [(''verification'', JObj [(''passed'', JBool (items_passed ds))]),
         (''operator_action_ids'', id_array (item_ids (required_items ds)))] (op_db s)) s"
      have "timely (ce_now (dv_call (rn_env rn) n)) ?s1" using now by (auto simp: timely_def record_checkpoint_def)
      then show ?thesis
        using run evaluate stop_resumes [OF _ ok _ stay, where cl = ClVerificationRequired]
        by (auto simp: evaluate_turn_def Let_def split: if_splits)
    next
      case operator
      then show ?thesis by (rule operator_turn_resumes [OF _ un ok now])
    qed
  qed
qed

section \<open>Properties\<close>





section \<open>The statements at work\<close>

lemma require_context_rows:
  assumes "tasks d = tasks (op_db s)" and "jobs d = jobs (op_db s)"
  shows "require_context mc now ctx wr rc (set_op_db d s) = require_context mc now ctx wr rc s"
proof -
  let ?s = "set_op_db d s"
  have f: "os_bindings ?s = os_bindings s" "os_executions ?s = os_executions s" "os_workspace ?s = os_workspace s"
    "ld_leases (os_leases ?s) = ld_leases (os_leases s)"
    "get_current_execution_envelope w g (ld_authority (os_leases ?s)) = get_current_execution_envelope w g (ld_authority (os_leases s))"
    for w g
    by (simp_all add: set_op_db_def get_current_execution_envelope_def)
  have git: "git_out mc root args ?s = git_out mc root args s" for root args by (simp add: git_out_def)
  have line: "git_line mc root args ?s = git_line mc root args s" for root args unfolding git_line_def git ..
  have job: "verify_job_worktree mc ctx wid root ?s = verify_job_worktree mc ctx wid root s" for wid root
    unfolding verify_job_worktree_def f(3) ..
  have goal: "verify_supervisor_goal_worktree mc now ctx t ?s = verify_supervisor_goal_worktree mc now ctx t s" for t
    unfolding verify_supervisor_goal_worktree_def f(4) ..
  have rep: "require_repository mc now ctx wr t ?s = require_repository mc now ctx wr t s" for t
    unfolding require_repository_def line job goal ..
  have live: "require_live_authority ctx t ?s = require_live_authority ctx t s" for t
    unfolding require_live_authority_def f(5) ..
  have linked: "require_linked now ctx rc t j b ?s = require_linked now ctx rc t j b s" for t j b
    unfolding require_linked_def f(2) ..
  show ?thesis unfolding require_context_def rep live linked f(1) set_op_db_simps(1) assms ..
qed

definition drv_sample_env :: driver_env where
  "drv_sample_env =
     \<lparr>dv_machine = op_sample_machine, dv_outcome = Outcome.sample_env, dv_dumps = (\<lambda>_. ''h''),
      dv_call = (\<lambda>_. Operator.sample_env), dv_elapsed = (\<lambda>_. 0), dv_world = (\<lambda>_ s. s)\<rparr>"

definition drv_sample_plan :: "string list \<Rightarrow> development_plan" where
  "drv_sample_plan caps =
     \<lparr>pn_id = ''p'', pn_steps = map (\<lambda>c. \<lparr>dp_capability = c, dp_purpose = ''why'', dp_expected = ''what'', dp_arguments = [],
        dp_risk = ''LOCAL_EXECUTION'', dp_evidence = ''operator_trace'', dp_verify = True, dp_on_failure = ''stop'',
        dp_independent = True\<rparr>) caps,
      pn_strategy = 30, pn_max_failures = 0\<rparr>"

text \<open>The state a failed check leaves behind, as the only step or before the evaluation.\<close>

definition drv_left :: driver_state where
  "drv_left =
     \<lparr>ds_plan = ''p'', ds_hash = ''h'', ds_strategy = uuid_str 30,
      ds_completed = [\<lparr>di_index = 0, di_capability = ''run_static_check'', di_result = ''failed'', di_trace = Some 80,
        di_verify = True\<rparr>],
      ds_failures = 1, ds_next = 1, ds_attempts = [(''0'', 1)], ds_pending = None, ds_extra = []\<rparr>"

definition drv_sample_run :: "string list \<Rightarrow> driver_run" where
  "drv_sample_run caps =
     \<lparr>rn_env = drv_sample_env, rn_ctx = op_sample_ctx, rn_plan = drv_sample_plan caps,
      rn_goal = sample_goal\<lparr>g_approval_policy := ''autonomous_development_work''\<rparr>, rn_max_actions = 10, rn_max_elapsed = 300\<rparr>"

definition drv_sample_task :: mainai_task where
  "drv_sample_task = (sample_task 1 TRunning)\<lparr>t_job := Some 5\<rparr>"

definition drv_failed :: "string list \<Rightarrow> op_state" where
  "drv_failed caps = driver_checkpoint (drv_sample_run caps) 3 drv_sample_task PhFailed ClFailedNonretryable drv_left op_sample"

lemma drv_hash: "plan_hash drv_sample_env p = ''h''"
  by (simp add: plan_hash_def drv_sample_env_def op_sample_machine_def)

lemma drv_resume:
  "resume_state drv_sample_env op_sample_ctx (drv_sample_plan caps) (op_db (drv_failed caps)) = Inr drv_left"
  unfolding drv_failed_def
proof (rule checkpoint_resumes)
  show "\<forall>c\<in>set (checkpoints (op_db op_sample)). c_created_at c \<le> 3"
    by (simp add: op_sample_def op_sample_leases_def op_db_def dead_sample_db_def empty_db_def)
qed (simp_all add: wf_state_def drv_left_def driver_keys_def drv_hash drv_sample_task_def sample_task_def op_sample_ctx_def
      drv_sample_run_def)

lemma drv_failed_rows:
  "require_context op_sample_machine 3 op_sample_ctx True rc (drv_failed caps) =
     Inr (drv_sample_task, dead_sample_job, \<lparr>sb_id = 30, sb_owner = 7, sb_execution = 31, sb_next = 1\<rparr>, None)"
  "tasks (op_db (drv_failed caps)) = [drv_sample_task]" "jobs (op_db (drv_failed caps)) = [dead_sample_job]"
  "goals (op_db (drv_failed caps)) = [sample_goal\<lparr>g_approval_policy := ''autonomous_development_work''\<rparr>]"
  "plans (op_db (drv_failed caps)) = []"
  using op_sample_context [of rc]
  by (simp_all add: drv_failed_def driver_checkpoint_def require_context_rows drv_sample_task_def)
    (simp_all add: record_checkpoint_def op_sample_def op_sample_leases_def op_db_def dead_sample_db_def empty_db_def)

lemma drv_task_facts [simp]:
  "t_status drv_sample_task = TRunning" "t_goal drv_sample_task = 20" "t_id drv_sample_task = 1" "t_owner drv_sample_task = 7"
  "t_job drv_sample_task = Some 5" "t_verification_plan drv_sample_task = []" "t_type drv_sample_task = ''run_tests''"
  "\<not> t_approval_required drv_sample_task"
  by (simp_all add: drv_sample_task_def sample_task_def)

lemma drv_plan_facts:
  "pn_id (drv_sample_plan caps) = ''p''" "pn_strategy (drv_sample_plan caps) = 30" "pn_max_failures (drv_sample_plan caps) = 0"
  "length (pn_steps (drv_sample_plan caps)) = length caps"
  "list_ex (\<lambda>st. dp_risk st \<noteq> ''READ_ONLY'') (pn_steps (drv_sample_plan caps)) \<longleftrightarrow> caps \<noteq> []"
  "oc_strategy op_sample_ctx = 30" "oc_owner op_sample_ctx = 7" "oc_job op_sample_ctx = 5" "oc_task op_sample_ctx = 1"
  "oc_worker op_sample_ctx = ''w''" "oc_generation op_sample_ctx = 1" "oc_root op_sample_ctx = goal_worktree_path 20"
  by (induction caps) (auto simp: drv_sample_plan_def op_sample_ctx_def)

lemma drv_steps_ok: "check_steps (pn_steps (drv_sample_plan [''run_static_check''])) = Inr ()"
  by (simp add: drv_sample_plan_def check_step_def strip_chars_def is_space_def forbidden_capabilities_def driver_directives_def
      development_capabilities_def risk_of_value_def ensure_def)

lemma drv_validates:
  "validate_plan op_sample_machine 3 op_sample_ctx (drv_sample_plan [''run_static_check'']) (drv_failed caps) =
     Inr (drv_sample_task, sample_goal\<lparr>g_approval_policy := ''autonomous_development_work''\<rparr>)"
proof -
  have "require_task_approval d drv_sample_task ''autonomous_development_work'' = Inr ()" for d
    by (simp add: require_task_approval_def requires_approval_def approval_policies_def)
  moreover have "strip_chars is_space ''p'' \<noteq> [] \<and> \<not> 128 < py_len ''p''"
    by (simp add: strip_chars_def is_space_def py_len_def continuation_def)
  ultimately show ?thesis
    unfolding validate_plan_def drv_plan_facts drv_failed_rows
    by (simp add: drv_plan_facts drv_failed_rows drv_steps_ok sample_goal_def)
qed

lemma drv_rollup_runs:
  assumes "goals d = [sample_goal\<lparr>g_approval_policy := ap\<rparr>]" and "tasks d = [t]" and "plans d = []" and "t_status t = TCompleted"
    and "t_goal t = 20" and "t_owner t = 7"
  shows "\<exists>d'. rollup_goal_after_task_boundary env now t d = Inr d'"
proof -
  let ?g = "sample_goal\<lparr>g_approval_policy := ap\<rparr>"
  have out: "tr_outcome (make_task_report now d t) = t_status t" for now d t
    by (simp add: make_task_report_def Let_def)
  have rows: "goals (after_recompute now (t_goal t) d) = goals d" "tasks (after_recompute now (t_goal t) d) = tasks d"
    "plans (after_recompute now (t_goal t) d) = plans d"
    using assms(2,4) by (simp_all add: recompute_task_readiness_def Let_def pending_in_def update_rows_def)
  have "\<exists>d2 rep. record_final_report dumps now ?g d2' = Inr (d2, rep)"
    if "goals d2' = [?g]" "tasks d2' = [t]" "plans d2' = []" for d2' dumps
    using that assms(4,5)
    by (auto simp: record_final_report_def generate_goal_report_def get_goal_def previous_active_def out sample_goal_def
        write_goal_def goal_checks_def terminal_goal_statuses_def terminal_task_statuses_def Let_def comp_def from_option_def)
  from this [of "after_recompute now (t_goal t) d" "oe_dumps env"] assms(1-3) rows
  obtain d2 rep where "record_final_report (oe_dumps env) now ?g (after_recompute now (t_goal t) d) = Inr (d2, rep)" by auto
  with assms rows have "rollup_goal_after_task_boundary env now t d = Inr d2"
    unfolding rollup_goal_after_task_boundary_def Let_def by (simp add: sample_goal_def)
  then show ?thesis by blast
qed

lemma drv_completes:
  "\<exists>r s1 lrn1. run_driver drv_sample_env op_sample_ctx (drv_sample_plan [''run_static_check'']) 10 300
     (drv_failed [''run_static_check''], sample_learning) = (Inr r, s1, lrn1) \<and> dr_class r = ClComplete"
proof -
  let ?c = "[''run_static_check'']" and ?t = drv_sample_task
  let ?s = "drv_failed ?c" and ?rn = "drv_sample_run ?c"
  let ?ev = "[(''development_driver_plan'', JStr ''p''), (''plan_hash'', JStr ''h'')]"
  have env: "dv_machine drv_sample_env = op_sample_machine" "dv_call drv_sample_env n = Operator.sample_env"
    "ce_now Operator.sample_env = 3" "dv_world drv_sample_env n s = s" "dv_outcome drv_sample_env = Outcome.sample_env" for n s
    by (simp_all add: drv_sample_env_def Operator.sample_env_def)
  have rn: "\<lparr>rn_env = drv_sample_env, rn_ctx = op_sample_ctx, rn_plan = drv_sample_plan ?c,
      rn_goal = sample_goal\<lparr>g_approval_policy := ''autonomous_development_work''\<rparr>, rn_max_actions = 10, rn_max_elapsed = 300\<rparr> = ?rn"
    "rn_env ?rn = drv_sample_env" "rn_ctx ?rn = op_sample_ctx" "rn_plan ?rn = drv_sample_plan ?c"
    by (simp_all add: drv_sample_run_def)
  have job: "find_row (own_job op_sample_ctx) (jobs (op_db ?s)) = Some dead_sample_job"
    "find_row (\<lambda>j. j_id j = 5) (jobs (op_db ?s)) = Some dead_sample_job" "\<not> j_cancel_requested dead_sample_job"
    by (simp_all add: drv_failed_rows own_job_def drv_plan_facts dead_sample_job_def dispatch_job_def new_job_def sample_task_def)
  have left: "ds_next drv_left = 1" "ds_pending drv_left = None" by (simp_all add: drv_left_def)
  have nocancel: "\<not> cancel_was_requested ?t (op_db ?s)"
    using job by (simp add: cancel_was_requested_def job_of_task_def)
  have wt: "\<exists>d1. write_task 1 (completed_task 3) evs (op_db ?s) = Inr d1 \<and> tasks d1 = [completed_task 3 ?t] \<and>
      goals d1 = goals (op_db ?s) \<and> plans d1 = [] \<and> jobs d1 = jobs (op_db ?s)" for evs
    by (simp add: write_task_def drv_failed_rows completed_task_def task_checks_def terminal_task_statuses_def update_rows_def)
      (simp add: drv_sample_task_def sample_task_def)
  obtain d1 where d1: "write_task 1 (completed_task 3) [task_event_row 3 ?t TeVerificationPassed ?ev, task_event_row 3 ?t TeCompleted ?ev]
      (op_db ?s) = Inr d1" "tasks d1 = [completed_task 3 ?t]" "goals d1 = goals (op_db ?s)" "plans d1 = []" "jobs d1 = jobs (op_db ?s)"
    using wt by blast
  have c: "t_status (completed_task 3 ?t) = TCompleted" "t_goal (completed_task 3 ?t) = 20" "t_owner (completed_task 3 ?t) = 7"
    by (simp_all add: completed_task_def)
  have g1: "goals d1 = [sample_goal\<lparr>g_approval_policy := ''autonomous_development_work''\<rparr>]" using d1(3) drv_failed_rows(4) by simp
  obtain d where roll: "rollup_goal_after_task_boundary Outcome.sample_env 3 (completed_task 3 ?t) d1 = Inr d"
    using drv_rollup_runs [OF g1 d1(2) d1(4) c] by blast
  obtain lrn2 where fin: "finalize_task_outcome Outcome.sample_env 3 ?t True ?ev None (op_db ?s, sample_learning) = Inr (d, lrn2)"
    using nocancel d1(1) roll
    by (simp add: finalize_task_outcome_def observe_and_roll_up_def Let_def cancel_was_requested_def job_of_task_def)
  have jobs: "jobs d = [dead_sample_job]" using rollup_frame [OF roll] d1(5) drv_failed_rows(3) by simp
  have "\<exists>d2. mark_completed 3 dead_sample_job ''w'' 1 msg (op_db (driver_checkpoint ?rn 3 ?t PhComplete ClComplete drv_left (set_op_db d ?s))) = Inr d2" for msg
  proof -
    let ?d = "op_db (driver_checkpoint ?rn 3 ?t PhComplete ClComplete drv_left (set_op_db d ?s))"
    define f :: "mainai_job \<Rightarrow> mainai_job" where "f = (\<lambda>r. r\<lparr>j_status := JCompleted, j_completed_at := Some 3,
      j_public_message := Some (case msg of None \<Rightarrow> ''Completed.'' | Some m \<Rightarrow> if m = [] then ''Completed.'' else m)\<rparr>)"
    have "jobs ?d = [dead_sample_job]" using jobs by (simp add: driver_checkpoint_def)
    moreover have "holds_claim 5 ''w'' 1 dead_sample_job" "j_id dead_sample_job = 5"
      "job_update_ok e dead_sample_job (f dead_sample_job)" "superseded_fk_ok e (f dead_sample_job)" for e
      by (simp_all add: f_def holds_claim_def dead_sample_job_def dispatch_job_def new_job_def job_update_ok_def progress_trigger_ok_def
          job_checks_def checks_0026_def checks_0028_def checks_0034_def terminal_job_status_def superseded_fk_ok_def)
    ultimately have "\<exists>d0. guarded_job_write (j_id dead_sample_job) ''w'' 1 f ?d = Inr d0"
      by (simp add: guarded_Inr_iff holder_def)
    then show ?thesis unfolding mark_completed_def f_def [symmetric] by auto
  qed
  then obtain d2 where mark: "mark_completed 3 dead_sample_job ''w'' 1 (Some ''Development Driver completed verified bounded work.'')
      (op_db (driver_checkpoint ?rn 3 ?t PhComplete ClComplete drv_left (set_op_db d ?s))) = Inr d2" by blast
  have drive: "drive ?rn (Suc 0) ?t drv_left 0 ?s = (Through ?t drv_left (Suc 0), ?s)"
    by (simp add: drive.simps [of ?rn] left rn drv_plan_facts)
  have "finish_drive ?rn (Suc 0) ?t drv_left (?s, sample_learning) =
      (Inr \<lparr>dr_phase = PhComplete, dr_class = ClComplete, dr_completed = length (ds_completed drv_left), dr_detail = []\<rparr>,
       set_op_db d2 (driver_checkpoint ?rn 3 ?t PhComplete ClComplete drv_left (set_op_db d ?s)), lrn2)"
    unfolding finish_drive_def Let_def rn env drv_plan_facts left drv_hash
    using fin mark job by (simp add: stop_def rn env)
  then show ?thesis
    unfolding run_driver_def by (simp add: env drv_validates job drv_resume Let_def rn(1) drive)
qed





text \<open>
  The ceiling is compared with the capability a step names; a profile carries a capability of its own, which
  nothing compares with the ceiling. Here the full test suite runs in a context that allows static checks only.
\<close>

definition suite_as_check :: driver_step where
  "suite_as_check =
     \<lparr>dp_capability = ''run_static_check'', dp_purpose = ''why'', dp_expected = ''what'',
      dp_arguments = [(''profile_name'', JStr ''full_backend_pytest''), (''arguments'', JArr [])], dp_risk = ''LOCAL_EXECUTION'',
      dp_evidence = ''operator_trace'', dp_verify = True, dp_on_failure = ''stop'', dp_independent = True\<rparr>"

lemma profile_outside_ceiling:
  "\<exists>r s1. invoke_operator op_sample_machine Operator.sample_env op_sample_ctx suite_as_check ''k'' op_sample = (Inr r, s1) \<and>
     ar_capability r = ''run_full_suite'' \<and> ar_result r = ''succeeded'' \<and> ''run_full_suite'' \<notin> set (oc_caps op_sample_ctx) \<and>
     check_step suite_as_check = Inr ()"
proof -
  let ?detail = "[(''profile'', JStr ''full_backend_pytest''), (''arguments'', JArr []), (''returncode'', JInt 0), (''output'', JStr [])]"
  have "find_row (own_binding op_sample_ctx) (os_bindings op_sample) = Some \<lparr>sb_id = 30, sb_owner = 7, sb_execution = 31, sb_next = 1\<rparr>"
    by (simp add: op_sample_def own_binding_def op_sample_ctx_def)
  moreover have "find_row (keyed_trace (oc_owner op_sample_ctx) (oc_strategy op_sample_ctx) ''k'') (os_traces op_sample) = None"
    by (simp add: sample_files)
  ultimately obtain s1 e where "audit op_sample_machine Operator.sample_env op_sample_ctx ''run_full_suite'' ''k'' ?detail ''succeeded''
      op_sample = Inr (s1, e)" using audit_fresh by blast
  then obtain r where ans: "answer op_sample_machine Operator.sample_env op_sample_ctx ''run_full_suite'' ''k'' ?detail ?detail
      ''succeeded'' None op_sample = (Inr r, s1)" "ar_capability r = ''run_full_suite''" "ar_result r = ''succeeded''"
    by (simp add: answer_def)
  have run: "run_profile op_sample_machine Operator.sample_env op_sample_ctx ''full_backend_pytest'' [] [] ''k'' op_sample = (Inr r, s1)"
  proof -
    have "ce_now Operator.sample_env = 3" by (simp add: Operator.sample_env_def)
    moreover have "replay op_sample_machine op_sample_ctx cap ''k'' d op_sample = Inr None" for cap d
      by (simp add: replay_def sample_files)
    moreover have "mc_run op_sample_machine argv fs = (Some (0, []), fs)" "mc_redact op_sample_machine w = w" for argv fs w
      by (simp_all add: op_sample_machine_def)
    ultimately show ?thesis
      using ans(1)
      by (simp add: run_profile_def op_sample_context command_profiles_def from_option_def ensure_def safe_env_names_def
          profile_arguments_def py_last_def Let_def)
  qed
  have "invoke_effect op_sample_machine Operator.sample_env op_sample_ctx ''run_static_check''
      [(''profile_name'', JStr ''full_backend_pytest''), (''arguments'', JArr [])] ''k'' op_sample = (Inr r, s1)"
    using run
    by (simp add: invoke_effect_def keywords_ok_def after_fence_def both_def json_str_def text_list_def environment_names_def)
  moreover have "within_ceiling op_sample_ctx ''run_static_check''" by (simp add: within_ceiling_def op_sample_ctx_def)
  ultimately have "invoke_operator op_sample_machine Operator.sample_env op_sample_ctx suite_as_check ''k'' op_sample = (Inr r, s1)"
    by (simp add: invoke_operator_def suite_as_check_def Let_def require_operator_capability_Inr [of _ _ "()", symmetric]
        read_capability_def effect_capability_def lift_outcome_def)
  moreover have "check_step suite_as_check = Inr ()"
    by (simp add: suite_as_check_def check_step_def strip_chars_def is_space_def forbidden_capabilities_def driver_directives_def
        development_capabilities_def risk_of_value_def ensure_def)
  moreover have "''run_full_suite'' \<notin> set (oc_caps op_sample_ctx)" by (simp add: op_sample_ctx_def)
  ultimately show ?thesis using ans(2,3) by blast
qed

end
