(* ===== verification/SafePlanner.thy ===== *)
theory SafePlanner
  imports Driver Planner Spend
begin

text \<open>
  The planner of \<open>app/safe_planner/service.py\<close>: it parses the candidate plan of a provider, decides whether the
  founder's instruction may be planned at all, and turns a candidate into a development plan only when every step
  passes. The evidence row of an accepted plan is that of \<open>app/intelligence_governance/service.py\<close>. The context
  set that \<open>assemble_context\<close> stores is the parameter \<open>pv_context\<close>, the JSON printer and the clock are parameters
  as well.
\<close>

section \<open>Requests, candidates and results\<close>

record planning_request =
  rq_owner :: uuid
  rq_goal :: uuid
  rq_task :: uuid
  rq_job :: uuid
  rq_instruction :: string
  rq_kind :: string
  rq_basis :: string
  rq_source :: string
  rq_outcome :: string
  rq_constraints :: "string list"
  rq_prohibitions :: "string list"
  rq_superseded :: bool
  rq_ambiguities :: "string list"
  rq_contradictions :: "string list"
  rq_resolutions :: "string list"
  rq_repository :: "string option"
  rq_max_members :: int
  rq_max_steps :: nat
  rq_max_alternatives :: nat
  rq_max_elapsed :: int
  rq_max_attempts :: int

record candidate_step =
  ct_id :: string
  ct_purpose :: string
  ct_expected :: string
  ct_capability :: string
  ct_arguments :: jdict
  ct_depends :: "json list"
  ct_risk :: string
  ct_evidence :: string
  ct_verify :: bool
  ct_on_failure :: string
  ct_independent :: bool

record plan_alternative =
  pa_name :: string
  pa_benefit :: string
  pa_risk :: string
  pa_capabilities :: "json list"
  pa_implications :: "json list"

record plan_candidate =
  pc_interpretation :: string
  pc_outcome :: string
  pc_rationale :: string
  pc_steps :: "candidate_step list"
  pc_assumptions :: "json list"
  pc_unknowns :: "json list"
  pc_facts :: "json list"
  pc_exclusions :: "json list"
  pc_alternatives :: "plan_alternative list"
  pc_strategy_refs :: "json list"
  pc_lesson_refs :: "json list"
  pc_provider :: json
  pc_model :: json
  pc_model_version :: json
  pc_provider_role :: json
  pc_predecessor :: json
  pc_replan_reason :: json

record planning_result =
  pr_class :: string
  pr_detail :: jdict
  pr_plan :: "development_plan option"
  pr_context :: "uuid option"

datatype planner_error =
    CandidateInvalid string
  | PlanCapabilityMissing string string bool
  | PlanOperator op_error
  | PlanDriver driver_error
  | PlanRuntime error
  | PlanConflict
  | PlanRaised string

record evidence_row =
  ie_id :: uuid
  ie_owner :: uuid
  ie_execution :: uuid
  ie_kind :: string
  ie_payload :: jdict
  ie_source_type :: string
  ie_source_ref :: string
  ie_review :: string
  ie_deterministic :: bool
  ie_key :: string

record plan_state =
  pt_op :: op_state
  pt_evidence :: "evidence_row list"

record planner_env =
  pv_machine :: machine
  pv_dumps :: "json \<Rightarrow> string"
  pv_context :: "plan_state \<Rightarrow> planner_error + (uuid \<times> json list)"
  pv_now :: time
  pv_elapsed :: int
  pv_evidence_id :: uuid

abbreviation pt_db :: "plan_state \<Rightarrow> db" where "pt_db s \<equiv> op_db (pt_op s)"

definition set_pt_db :: "db \<Rightarrow> plan_state \<Rightarrow> plan_state" where
  "set_pt_db d s = s\<lparr>pt_op := set_op_db d (pt_op s)\<rparr>"

section \<open>Words in the founder's text\<close>

text \<open>
  The two patterns of the module: whole words, without regard to case. Letters, digits, the underscore and
  every byte of a non-ASCII character are word characters; case is that of the ASCII letters.
\<close>

definition word_char :: "char \<Rightarrow> bool" where
  "word_char c \<longleftrightarrow>
     (let n = of_char c :: nat
      in 48 \<le> n \<and> n \<le> 57 \<or> 65 \<le> n \<and> n \<le> 90 \<or> 97 \<le> n \<and> n \<le> 122 \<or> n = 95 \<or> 128 \<le> n)"

definition starts_word :: "string \<Rightarrow> bool" where
  "starts_word w = (case w of [] \<Rightarrow> False | c # _ \<Rightarrow> word_char c)"

definition word_at :: "string list \<Rightarrow> string \<Rightarrow> string option" where
  "word_at ws text =
     find (\<lambda>w. map lower_char (take (length w) text) = w \<and> \<not> starts_word (drop (length w) text)) ws"

text \<open>\<open>findall\<close>: \<open>prev\<close> says whether a word character comes before, \<open>k\<close> how much of the last match is left.\<close>

fun find_words :: "string list \<Rightarrow> bool \<Rightarrow> nat \<Rightarrow> string \<Rightarrow> string list" where
  "find_words ws prev k [] = []"
| "find_words ws prev (Suc k) (c # cs) = find_words ws (word_char c) k cs"
| "find_words ws prev 0 (c # cs) =
     (case (if prev then None else word_at ws (c # cs)) of
        Some w \<Rightarrow> take (length w) (c # cs) # find_words ws (word_char c) (length w - 1) cs
      | None \<Rightarrow> find_words ws (word_char c) 0 cs)"

definition forbidden_words :: "string list" where
  "forbidden_words =
     [''shell'', ''terminal'', ''merge'', ''deploy'', ''force-push'', ''force push'', ''forcepush'', ''production'',
      ''production database'', ''prod database'']"

definition unbounded_words :: "string list" where
  "unbounded_words =
     [''fix everything'', ''whatever commands'', ''anything needed'', ''keep going forever'', ''no limits'']"

definition says :: "string list \<Rightarrow> string \<Rightarrow> bool" where
  "says ws text \<longleftrightarrow> find_words ws False 0 text \<noteq> []"

definition authorized_kinds :: "string set" where
  "authorized_kinds = {''founder_requirement'', ''founder_decision'', ''founder_correction'', ''authorized_goal''}"

definition non_authoritative_kinds :: "string set" where
  "non_authoritative_kinds =
     {''founder_preference'', ''idea'', ''suggestion'', ''hypothesis'', ''ai_interpretation'', ''unknown''}"

definition path_keys :: "string set" where
  "path_keys = {''path'', ''scope'', ''target''}"

definition max_instruction_chars :: nat where
  "max_instruction_chars = 8000"

section \<open>Parsing a candidate\<close>

text \<open>What iterating over a value gives: the characters of a text, the keys of an object.\<close>

function py_chars :: "string \<Rightarrow> string list" where
  "py_chars [] = []"
| "py_chars (c # w) = (c # takeWhile continuation w) # py_chars (dropWhile continuation w)"
  by pat_completeness auto
termination
  by (relation "measure length") (auto simp: length_dropWhile_le le_imp_less_Suc)

definition json_iter :: "json \<Rightarrow> json list option" where
  "json_iter v =
     (case v of
        JArr xs \<Rightarrow> Some xs
      | JStr w \<Rightarrow> Some (map JStr (py_chars w))
      | JObj d \<Rightarrow> Some (map (\<lambda>x. JStr (fst x)) d)
      | _ \<Rightarrow> None)"

text \<open>\<open>dict(v)\<close>: of an object, or of pairs whose first part is a text (others serve as no argument name).\<close>

definition json_pair :: "json \<Rightarrow> (string \<times> json) option" where
  "json_pair v = (case json_iter v of Some [JStr k, x] \<Rightarrow> Some (k, x) | _ \<Rightarrow> None)"

definition to_dict :: "json \<Rightarrow> jdict option" where
  "to_dict v =
     (case v of
        JObj d \<Rightarrow> Some d
      | _ \<Rightarrow> (case json_iter v of
                None \<Rightarrow> None
              | Some xs \<Rightarrow> map_option (\<lambda>ps. fold (\<lambda>(k, x). dict_put k x) ps []) (all_some (map json_pair xs))))"

definition candidate_fields :: "string list" where
  "candidate_fields =
     [''interpretation'', ''requested_outcome'', ''rationale'', ''steps'', ''assumptions'', ''unknowns'', ''facts'',
      ''exclusions'', ''alternatives'', ''strategy_refs'', ''lesson_refs'', ''provider'', ''model'', ''model_version'',
      ''provider_role'', ''predecessor_plan_id'', ''replan_reason'']"

definition step_fields :: "string list" where
  "step_fields =
     [''step_id'', ''purpose'', ''expected_result'', ''capability'', ''arguments'', ''depends_on'', ''required_risk'',
      ''expected_evidence'', ''verification_required'', ''on_failure'', ''independent_of_provider'']"

definition parse_candidate_step :: "py_conv \<Rightarrow> json \<Rightarrow> planner_error + candidate_step" where
  "parse_candidate_step py raw =
     (case raw of
        JObj d \<Rightarrow>
          if \<not> list_all (\<lambda>x. fst x \<in> set step_fields) d then Inl (CandidateInvalid ''step contains unknown fields'')
          else (case (map_of d ''step_id'', map_of d ''purpose'', map_of d ''expected_result'', map_of d ''capability'',
                      to_dict (get_default d ''arguments'' (JObj [])), json_iter (get_default d ''depends_on'' (JArr []))) of
                  (Some i, Some p, Some x, Some c, Some args, Some deps) \<Rightarrow>
                    Inr \<lparr>ct_id = py_str py i, ct_purpose = py_str py p, ct_expected = py_str py x,
                         ct_capability = py_str py c, ct_arguments = args, ct_depends = deps,
                         ct_risk = py_str py (get_default d ''required_risk'' (JStr ''READ_ONLY'')),
                         ct_evidence = py_str py (get_default d ''expected_evidence'' (JStr ''operator_trace'')),
                         ct_verify = truthy (get_default d ''verification_required'' (JBool False)),
                         ct_on_failure = py_str py (get_default d ''on_failure'' (JStr ''stop'')),
                         ct_independent = truthy (get_default d ''independent_of_provider'' (JBool True))\<rparr>
                | _ \<Rightarrow> Inl (CandidateInvalid ''malformed step''))
      | _ \<Rightarrow> Inl (CandidateInvalid ''step must be an object''))"

text \<open>Outside the steps nothing turns a \<open>KeyError\<close> or \<open>TypeError\<close> into a validation error.\<close>

definition iterated :: "json \<Rightarrow> planner_error + json list" where
  "iterated v = from_option (PlanRaised ''TypeError'') (json_iter v)"

definition parse_alternative :: "py_conv \<Rightarrow> json \<Rightarrow> planner_error + plan_alternative" where
  "parse_alternative py raw =
     (case raw of
        JObj d \<Rightarrow>
          (case (map_of d ''name'', map_of d ''benefit'', map_of d ''risk'') of
             (Some n, Some b, Some r) \<Rightarrow>
               sbind (iterated (get_default d ''required_capabilities'' (JArr []))) (\<lambda>caps.
               sbind (iterated (get_default d ''verification_implications'' (JArr []))) (\<lambda>imps.
               Inr \<lparr>pa_name = py_str py n, pa_benefit = py_str py b, pa_risk = py_str py r, pa_capabilities = caps,
                    pa_implications = imps\<rparr>))
           | _ \<Rightarrow> Inl (PlanRaised ''KeyError''))
      | _ \<Rightarrow> Inl (PlanRaised ''TypeError''))"

fun each :: "('a \<Rightarrow> 'e + 'b) \<Rightarrow> 'a list \<Rightarrow> 'e + 'b list" where
  "each f [] = Inr []"
| "each f (x # xs) = sbind (f x) (\<lambda>y. sbind (each f xs) (\<lambda>ys. Inr (y # ys)))"

definition parse_candidate :: "py_conv \<Rightarrow> json \<Rightarrow> planner_error + plan_candidate" where
  "parse_candidate py payload =
     (case payload of
        JObj d \<Rightarrow>
          (case (map_of d ''interpretation'', map_of d ''requested_outcome'', map_of d ''rationale'', map_of d ''steps'') of
             (Some i, Some out, Some why, Some raw) \<Rightarrow>
               if \<not> list_all (\<lambda>x. fst x \<in> set candidate_fields) d
               then Inl (CandidateInvalid ''plan candidate contains unknown fields'')
               else (case raw of
                       JArr rs \<Rightarrow>
                         sbind (each (parse_candidate_step py) rs) (\<lambda>steps.
                         sbind (iterated (get_default d ''alternatives'' (JArr []))) (\<lambda>as.
                         sbind (each (parse_alternative py) as) (\<lambda>alts.
                         sbind (iterated (get_default d ''assumptions'' (JArr []))) (\<lambda>assumptions.
                         sbind (iterated (get_default d ''unknowns'' (JArr []))) (\<lambda>unknowns.
                         sbind (iterated (get_default d ''facts'' (JArr []))) (\<lambda>facts.
                         sbind (iterated (get_default d ''exclusions'' (JArr []))) (\<lambda>exclusions.
                         sbind (iterated (get_default d ''strategy_refs'' (JArr []))) (\<lambda>strategies.
                         sbind (iterated (get_default d ''lesson_refs'' (JArr []))) (\<lambda>lessons.
                         Inr \<lparr>pc_interpretation = py_str py i, pc_outcome = py_str py out, pc_rationale = py_str py why,
                              pc_steps = steps, pc_assumptions = assumptions, pc_unknowns = unknowns, pc_facts = facts,
                              pc_exclusions = exclusions, pc_alternatives = alts, pc_strategy_refs = strategies,
                              pc_lesson_refs = lessons, pc_provider = jget d ''provider'', pc_model = jget d ''model'',
                              pc_model_version = jget d ''model_version'', pc_provider_role = jget d ''provider_role'',
                              pc_predecessor = jget d ''predecessor_plan_id'',
                              pc_replan_reason = jget d ''replan_reason''\<rparr>)))))))))
                     | _ \<Rightarrow> Inl (CandidateInvalid ''plan candidate steps must be a list''))
           | _ \<Rightarrow> Inl (CandidateInvalid ''plan candidate lacks required fields''))
      | _ \<Rightarrow> Inl (CandidateInvalid ''plan candidate must be an object''))"

section \<open>Order of the steps\<close>

definition known_dependency :: "string list \<Rightarrow> json \<Rightarrow> planner_error + unit" where
  "known_dependency ids v =
     (case v of
        JArr _ \<Rightarrow> Inl (PlanRaised ''TypeError'')
      | JObj _ \<Rightarrow> Inl (PlanRaised ''TypeError'')
      | _ \<Rightarrow> ensure (v \<in> JStr ` set ids) (CandidateInvalid ''step dependency references an unknown step''))"

definition ready_steps :: "candidate_step list \<Rightarrow> string list \<Rightarrow> candidate_step list" where
  "ready_steps steps finished =
     filter (\<lambda>st. ct_id st \<notin> set finished \<and> list_all (\<lambda>v. v \<in> JStr ` set finished) (ct_depends st)) steps"

function order_from :: "candidate_step list \<Rightarrow> string list \<Rightarrow> candidate_step list \<Rightarrow> planner_error + candidate_step list" where
  "order_from steps finished result =
     (if length steps \<le> length result then Inr result
      else if ready_steps steps finished = [] then Inl (CandidateInvalid ''plan dependency graph contains a cycle'')
      else order_from steps (finished @ map ct_id (ready_steps steps finished)) (result @ ready_steps steps finished))"
  by pat_completeness auto
termination
  by (relation "measure (\<lambda>(steps, _, result). length steps - length result)") (auto simp: length_greater_0_conv intro: diff_less_mono2)

definition ordered_steps :: "plan_candidate \<Rightarrow> planner_error + candidate_step list" where
  "ordered_steps c =
     (let ids = map ct_id (pc_steps c)
      in if \<not> distinct ids \<or> \<not> list_all (\<lambda>i. strip_chars is_space i \<noteq> []) ids
         then Inl (CandidateInvalid ''step identities must be non-empty and unique'')
         else sbind (each (known_dependency ids) (concat (map ct_depends (pc_steps c)))) (\<lambda>_.
              order_from (pc_steps c) [] []))"

section \<open>Authority\<close>

definition source_sha :: "planner_env \<Rightarrow> planning_request \<Rightarrow> string" where
  "source_sha env rq = mc_sha (pv_machine env) (rq_instruction rq)"

definition load_scope :: "planning_request \<Rightarrow> db \<Rightarrow> planner_error + (mainai_goal \<times> mainai_task \<times> mainai_job)" where
  "load_scope rq d =
     (case (find_row (\<lambda>g. g_id g = rq_goal rq \<and> g_owner g = rq_owner rq) (goals d),
            find_row (\<lambda>t. t_id t = rq_task rq \<and> t_goal t = rq_goal rq \<and> t_owner t = rq_owner rq) (tasks d),
            find_row (\<lambda>j. j_id j = rq_job rq \<and> j_owner j = rq_owner rq) (jobs d)) of
        (Some g, Some t, Some j) \<Rightarrow>
          if t_job t \<noteq> Some (j_id j) then Inl (CandidateInvalid ''goal/task/job scope is missing or cross-owner'')
          else if g_original_instruction g \<noteq> rq_instruction rq
          then Inl (CandidateInvalid ''founder source text differs from canonical MainAI goal instruction'')
          else Inr (g, t, j)
      | _ \<Rightarrow> Inl (CandidateInvalid ''goal/task/job scope is missing or cross-owner''))"

definition planner_checkpoint ::
  "planner_env \<Rightarrow> planning_request \<Rightarrow> mainai_goal \<Rightarrow> mainai_task \<Rightarrow> string \<Rightarrow> jdict \<Rightarrow> plan_state \<Rightarrow> plan_state" where
  "planner_checkpoint env rq g t cls detail s =
     set_pt_db (record_checkpoint (pv_now env) t g (rq_job rq) ''safe_planner''
       [(''classification'', JStr cls), (''planning'', JObj detail)] (pt_db s)) s"

definition unresolved :: "planning_request \<Rightarrow> string list \<Rightarrow> string list" where
  "unresolved rq refs = sort (remdups (filter (\<lambda>r. r \<notin> set (rq_resolutions rq)) refs))"

text \<open>Why an instruction is not planned, or nothing.\<close>

definition authority_objection :: "planning_request \<Rightarrow> (string \<times> string) option" where
  "authority_objection rq =
     (if rq_superseded rq then Some (''NEEDS_AUTHORIZATION'', ''the referenced founder instruction is superseded'')
      else if rq_kind rq \<in> non_authoritative_kinds
      then Some (''NEEDS_AUTHORIZATION'', rq_kind rq @ '' is not execution authority'')
      else if rq_kind rq \<notin> authorized_kinds then Some (''NEEDS_AUTHORIZATION'', ''unknown authority kind fails closed'')
      else if unresolved rq (rq_contradictions rq) \<noteq> []
      then Some (''CONTRADICTION_UNRESOLVED'', ''current authority references conflict'')
      else if unresolved rq (rq_ambiguities rq) \<noteq> []
      then Some (''NEEDS_CLARIFICATION'', ''materially different interpretations remain'')
      else if says unbounded_words (rq_instruction rq)
      then Some (''NEEDS_CLARIFICATION'', ''instruction has no deterministic bounded scope'')
      else None)"

definition assess_authority ::
  "planner_env \<Rightarrow> planning_request \<Rightarrow> plan_state \<Rightarrow> planner_error + (planning_result option \<times> plan_state)" where
  "assess_authority env rq s =
     sbind (load_scope rq (pt_db s)) (\<lambda>(g, t, j).
     if strip_chars is_space (rq_instruction rq) = [] \<or> max_instruction_chars < py_len (rq_instruction rq)
     then Inl (CandidateInvalid ''founder instruction is empty or exceeds planning bounds'')
     else case authority_objection rq of
            None \<Rightarrow> Inr (None, s)
          | Some (cls, reason) \<Rightarrow>
              let detail = [(''reason'', JStr reason), (''authority_kind'', JStr (rq_kind rq)),
                    (''source_ref'', JStr (mc_redact (pv_machine env) (rq_source rq))),
                    (''ambiguities'', JArr (map JStr (unresolved rq (rq_ambiguities rq)))),
                    (''contradictions'', JArr (map JStr (unresolved rq (rq_contradictions rq)))),
                    (''question'', JStr ''Which bounded outcome and repository scope should Life use?''),
                    (''source_sha256'', JStr (source_sha env rq))]
              in Inr (Some \<lparr>pr_class = cls, pr_detail = detail, pr_plan = None, pr_context = None\<rparr>,
                      planner_checkpoint env rq g t cls detail s))"

definition assemble_planning_context ::
  "planner_env \<Rightarrow> planning_request \<Rightarrow> plan_state \<Rightarrow> planner_error + (uuid \<times> json list)" where
  "assemble_planning_context env rq s =
     (if \<not> (1 \<le> rq_max_members rq \<and> rq_max_members rq \<le> 100)
      then Inl (CandidateInvalid ''context-member bound is invalid'')
      else pv_context env s)"

section \<open>Validation of a step\<close>

definition validate_path_value :: "machine \<Rightarrow> operator_context \<Rightarrow> string \<Rightarrow> planner_error + unit" where
  "validate_path_value mc ctx v =
     (case guard_path mc ctx False v of
        Inr _ \<Rightarrow> Inr ()
      | Inl (OpPath m) \<Rightarrow> Inl (CandidateInvalid m)
      | Inl e \<Rightarrow> Inl (PlanOperator e))"

fun before_colons :: "string \<Rightarrow> string" where
  "before_colons [] = []"
| "before_colons (c # cs) = (if take 2 (c # cs) = ''::'' then [] else c # before_colons cs)"

definition validate_listed_path :: "machine \<Rightarrow> operator_context \<Rightarrow> json \<Rightarrow> planner_error + unit" where
  "validate_listed_path mc ctx v =
     (case v of JStr w \<Rightarrow> validate_path_value mc ctx w | _ \<Rightarrow> Inl (PlanRaised ''TypeError''))"

definition validate_argument :: "machine \<Rightarrow> operator_context \<Rightarrow> string \<times> json \<Rightarrow> planner_error + unit" where
  "validate_argument mc ctx = (\<lambda>(k, v).
     if k \<in> path_keys
     then (case v of
             JStr w \<Rightarrow> validate_path_value mc ctx (if k = ''target'' then before_colons w else w)
           | _ \<Rightarrow> Inr ())
     else if k = ''paths''
     then (case v of
             JArr xs \<Rightarrow> sbind (each (validate_listed_path mc ctx) xs) (\<lambda>_. Inr ())
           | _ \<Rightarrow> Inl (CandidateInvalid ''paths must be a list''))
     else Inr ())"

definition raw_argument_keys :: "string set" where
  "raw_argument_keys = {''command'', ''shell'', ''argv'', ''executable''}"

definition validate_step :: "machine \<Rightarrow> operator_context \<Rightarrow> candidate_step \<Rightarrow> planner_error + unit" where
  "validate_step mc ctx st =
     (if ct_capability st \<in> driver_directives
      then (if ct_capability st \<noteq> ''verification_evaluate''
            then Inl (CandidateInvalid ''provider/review directives require an explicit planning wait, not execution'')
            else ensure (ct_arguments st = []) (CandidateInvalid ''verification directive accepts no arguments''))
      else if ct_capability st \<in> forbidden_capabilities then Inl (CandidateInvalid ''forbidden capability'')
      else case map_of development_capabilities (ct_capability st) of
             None \<Rightarrow> Inl (PlanCapabilityMissing (ct_capability st) (ct_purpose st) (ct_independent st))
           | Some actual \<Rightarrow>
               if ct_capability st = ''push_branch''
               then Inl (CandidateInvalid ''remote-write planning is outside this foundation'')
               else if list_ex (\<lambda>x. fst x \<in> raw_argument_keys) (ct_arguments st)
               then Inl (CandidateInvalid ''raw command-shaped plan arguments are forbidden'')
               else if ct_on_failure st \<notin> {''stop'', ''retry''} then Inl (CandidateInvalid ''unknown failure behavior'')
               else if (case risk_of_value (ct_risk st) of
                          None \<Rightarrow> True | Some stated \<Rightarrow> risk_rank stated < risk_rank actual)
               then Inl (CandidateInvalid ''candidate understates capability risk'')
               else sbind (each (validate_argument mc ctx) (ct_arguments st)) (\<lambda>_.
                    ensure (redact_value mc (JObj (ct_arguments st)) = JObj (ct_arguments st))
                      (CandidateInvalid ''secret-like material is forbidden in plan arguments'')))"

section \<open>Validation of a candidate\<close>

definition step_to_json :: "candidate_step \<Rightarrow> json" where
  "step_to_json st =
     JObj [(''step_id'', JStr (ct_id st)), (''purpose'', JStr (ct_purpose st)), (''expected_result'', JStr (ct_expected st)),
           (''capability'', JStr (ct_capability st)), (''arguments'', JObj (ct_arguments st)),
           (''depends_on'', JArr (ct_depends st)), (''required_risk'', JStr (ct_risk st)),
           (''expected_evidence'', JStr (ct_evidence st)), (''verification_required'', JBool (ct_verify st)),
           (''on_failure'', JStr (ct_on_failure st)), (''independent_of_provider'', JBool (ct_independent st))]"

definition alternative_json :: "plan_alternative \<Rightarrow> json" where
  "alternative_json a =
     JObj [(''name'', JStr (pa_name a)), (''benefit'', JStr (pa_benefit a)), (''risk'', JStr (pa_risk a)),
           (''required_capabilities'', JArr (pa_capabilities a)), (''verification_implications'', JArr (pa_implications a))]"

definition candidate_json :: "plan_candidate \<Rightarrow> json" where
  "candidate_json c =
     JObj [(''interpretation'', JStr (pc_interpretation c)), (''requested_outcome'', JStr (pc_outcome c)),
           (''rationale'', JStr (pc_rationale c)), (''steps'', JArr (map step_to_json (pc_steps c))),
           (''assumptions'', JArr (pc_assumptions c)), (''unknowns'', JArr (pc_unknowns c)), (''facts'', JArr (pc_facts c)),
           (''exclusions'', JArr (pc_exclusions c)), (''alternatives'', JArr (map alternative_json (pc_alternatives c))),
           (''strategy_refs'', JArr (pc_strategy_refs c)), (''lesson_refs'', JArr (pc_lesson_refs c)),
           (''provider'', pc_provider c), (''model'', pc_model c), (''model_version'', pc_model_version c),
           (''provider_role'', pc_provider_role c), (''predecessor_plan_id'', pc_predecessor c),
           (''replan_reason'', pc_replan_reason c)]"

definition candidate_hash :: "planner_env \<Rightarrow> plan_candidate \<Rightarrow> string" where
  "candidate_hash env c = mc_sha (pv_machine env) (pv_dumps env (candidate_json c))"

definition driver_step_of :: "candidate_step \<Rightarrow> driver_step" where
  "driver_step_of st =
     \<lparr>dp_capability = ct_capability st, dp_purpose = ct_purpose st, dp_expected = ct_expected st,
      dp_arguments = ct_arguments st, dp_risk = ct_risk st, dp_evidence = ct_evidence st, dp_verify = ct_verify st,
      dp_on_failure = ct_on_failure st, dp_independent = ct_independent st\<rparr>"

definition plan_of :: "planner_env \<Rightarrow> operator_context \<Rightarrow> plan_candidate \<Rightarrow> candidate_step list \<Rightarrow> development_plan" where
  "plan_of env ctx c steps =
     \<lparr>pn_id = ''safe-'' @ py_take 24 (candidate_hash env c), pn_steps = map driver_step_of steps,
      pn_strategy = oc_strategy ctx, pn_max_failures = 2\<rparr>"

definition text_array :: "string list \<Rightarrow> json" where
  "text_array ws = JArr (map JStr ws)"

text \<open>What the checkpoint of an accepted plan says about it.\<close>

definition plan_detail ::
  "planner_env \<Rightarrow> planning_request \<Rightarrow> plan_candidate \<Rightarrow> candidate_step list \<Rightarrow> development_plan \<Rightarrow> uuid \<Rightarrow> json list \<Rightarrow> jdict" where
  "plan_detail env rq c steps p cid refs =
     [(''source_ref'', JStr (mc_redact (pv_machine env) (rq_source rq))), (''source_sha256'', JStr (source_sha env rq)),
      (''authority_kind'', JStr (rq_kind rq)), (''authority_basis'', JStr (rq_basis rq)),
      (''interpretation'', JStr (pc_interpretation c)), (''requested_outcome'', JStr (pc_outcome c)),
      (''problem_framing'',
         JObj [(''facts'', JArr (pc_facts c)), (''assumptions'', JArr (pc_assumptions c)), (''unknowns'', JArr (pc_unknowns c)),
               (''constraints'', text_array (rq_constraints rq)), (''prohibitions'', text_array (rq_prohibitions rq))]),
      (''candidate_hash'', JStr (candidate_hash env c)), (''plan_id'', JStr (pn_id p)),
      (''ordered_step_ids'', text_array (map ct_id steps)), (''capabilities'', text_array (map ct_capability steps)),
      (''verification_required'', text_array (map ct_id (filter ct_verify steps))),
      (''alternatives'', JArr (map alternative_json (pc_alternatives c))),
      (''strategy_refs'', JArr (pc_strategy_refs c)), (''lesson_refs'', JArr (pc_lesson_refs c)),
      (''provider_attribution'',
         JObj [(''provider'', pc_provider c), (''model'', pc_model c), (''model_version'', pc_model_version c),
               (''role'', pc_provider_role c),
               (''disposition'', JStr (if truthy (pc_provider c) then ''accepted_with_deterministic_validation''
                                     else ''not_used''))]),
      (''predecessor_plan_id'', pc_predecessor c), (''replan_reason'', pc_replan_reason c),
      (''context_set_id'', JStr (uuid_str cid)), (''context_refs'', JArr refs),
      (''stop_conditions'',
         text_array [''capability_missing'', ''approval_required'', ''verification_failed'', ''lease_lost'',
                     ''workspace_changed'', ''action_bound'', ''ambiguity''])]"

text \<open>\<open>record_evidence\<close>: the same record again is the record, another one under its key a conflict.\<close>

definition keyed_evidence :: "evidence_row \<Rightarrow> evidence_row \<Rightarrow> bool" where
  "keyed_evidence r e \<longleftrightarrow> ie_owner e = ie_owner r \<and> ie_execution e = ie_execution r \<and> ie_key e = ie_key r"

definition record_evidence :: "evidence_row \<Rightarrow> plan_state \<Rightarrow> planner_error + (evidence_row \<times> plan_state)" where
  "record_evidence r s =
     (case find_row (keyed_evidence r) (pt_evidence s) of
        Some e \<Rightarrow> if e = r\<lparr>ie_id := ie_id e\<rparr> then Inr (e, s) else Inl PlanConflict
      | None \<Rightarrow> Inr (r, s\<lparr>pt_evidence := pt_evidence s @ [r]\<rparr>))"

definition plan_evidence ::
  "planner_env \<Rightarrow> planning_request \<Rightarrow> plan_candidate \<Rightarrow> candidate_step list \<Rightarrow> development_plan \<Rightarrow> strategy_binding \<Rightarrow> evidence_row" where
  "plan_evidence env rq c steps p b =
     \<lparr>ie_id = pv_evidence_id env, ie_owner = rq_owner rq, ie_execution = sb_execution b, ie_kind = ''safe_plan_accepted'',
      ie_payload =
        [(''candidate_hash'', JStr (candidate_hash env c)), (''plan_id'', JStr (pn_id p)),
         (''capabilities'', text_array (map ct_capability steps)),
         (''required_verification_steps'', text_array (map ct_id (filter ct_verify steps))),
         (''provider_used'', JBool (truthy (pc_provider c)))],
      ie_source_type = ''mainai_goal'', ie_source_ref = uuid_str (rq_goal rq), ie_review = ''deterministic_tool'',
      ie_deterministic = True, ie_key = ''safe-planner:'' @ candidate_hash env c\<rparr>"

definition same_repository :: "planner_env \<Rightarrow> planning_request \<Rightarrow> operator_context \<Rightarrow> planner_error + unit" where
  "same_repository env rq ctx =
     (case rq_repository rq of
        None \<Rightarrow> Inr ()
      | Some r \<Rightarrow>
          if r = [] then Inr ()
          else (case resolved (pv_machine env) (oc_root ctx) of
                  Inl e \<Rightarrow> Inl (PlanOperator e)
                | Inr root \<Rightarrow>
                    ensure (r = path_str root) (CandidateInvalid ''repository identity differs from authorized workspace'')))"

text \<open>The checks of the candidate as a whole, before its steps.\<close>

definition candidate_bounds :: "planning_request \<Rightarrow> plan_candidate \<Rightarrow> planner_error + unit" where
  "candidate_bounds rq c =
     (if \<not> (1 \<le> length (pc_steps c) \<and> length (pc_steps c) \<le> min (rq_max_steps rq) 50)
      then Inl (CandidateInvalid ''plan exceeds bounded step count'')
      else if rq_max_alternatives rq < length (pc_alternatives c)
      then Inl (CandidateInvalid ''plan exceeds bounded alternative count'')
      else if truthy (pc_predecessor c) \<noteq> truthy (pc_replan_reason c)
      then Inl (CandidateInvalid ''plan revision requires predecessor and reason together'')
      else ensure (\<not> says forbidden_words (pc_rationale c) \<and> \<not> says forbidden_words (pc_interpretation c))
        (CandidateInvalid ''candidate interpretation contains forbidden action''))"

definition prior_planning :: "planning_request \<Rightarrow> mainai_task \<Rightarrow> db \<Rightarrow> jdict" where
  "prior_planning rq t d =
     (case latest_checkpoint_for_step (t_id t) (rq_job rq) ''safe_planner'' d of
        None \<Rightarrow> [] | Some c \<Rightarrow> json_dict (jget (c_state c) ''planning''))"

definition is_revision :: "plan_candidate \<Rightarrow> jdict \<Rightarrow> bool" where
  "is_revision c prior \<longleftrightarrow> pc_predecessor c = jget prior ''plan_id'' \<and> truthy (pc_replan_reason c)"

text \<open>The plan of a candidate whose checks have passed: it is stored once, and refused beside another one.\<close>

definition accept_plan ::
  "planner_env \<Rightarrow> planning_request \<Rightarrow> operator_context \<Rightarrow> plan_candidate \<Rightarrow> candidate_step list \<Rightarrow> mainai_goal \<Rightarrow>
   mainai_task \<Rightarrow> plan_state \<Rightarrow> planner_error + (planning_result \<times> plan_state)" where
  "accept_plan env rq ctx c steps g t s =
     (let p = plan_of env ctx c steps;
          prior = prior_planning rq t (pt_db s);
          same_source = (jget prior ''source_sha256'' = JStr (source_sha env rq));
          same_plan = (jget prior ''candidate_hash'' = JStr (candidate_hash env c))
      in case validate_plan (pv_machine env) (pv_now env) ctx p (pt_op s) of
           Inl e \<Rightarrow> Inl (PlanDriver e)
         | Inr _ \<Rightarrow>
             sbind (assemble_planning_context env rq s) (\<lambda>(cid, refs).
             if same_source \<and> jget prior ''candidate_hash'' \<noteq> JNull \<and> \<not> same_plan \<and> \<not> is_revision c prior
             then Inl (CandidateInvalid ''equivalent planning identity conflicts with prior candidate'')
             else case find_row (\<lambda>b. sb_id b = oc_strategy ctx \<and> sb_owner b = rq_owner rq) (os_bindings (pt_op s)) of
                    None \<Rightarrow> Inl (PlanRaised ''NoResultFound'')
                  | Some b \<Rightarrow>
                      sbind (record_evidence (plan_evidence env rq c steps p b) s) (\<lambda>(e, s1).
                      if same_source \<and> same_plan
                      then Inr (\<lparr>pr_class = ''ACCEPTED'', pr_detail = prior, pr_plan = Some p, pr_context = Some cid\<rparr>, s1)
                      else let detail = plan_detail env rq c steps p cid refs @
                                 [(''intelligence_evidence_id'', JStr (uuid_str (ie_id e)))]
                           in Inr (\<lparr>pr_class = ''ACCEPTED'', pr_detail = detail, pr_plan = Some p, pr_context = Some cid\<rparr>,
                                   planner_checkpoint env rq g t ''ACCEPTED'' detail s1))))"

definition validate_candidate ::
  "planner_env \<Rightarrow> planning_request \<Rightarrow> operator_context \<Rightarrow> plan_candidate \<Rightarrow> plan_state \<Rightarrow>
   planner_error + (planning_result \<times> plan_state)" where
  "validate_candidate env rq ctx c s =
     sbind (load_scope rq (pt_db s)) (\<lambda>(g, t, j).
     sbind (assess_authority env rq s) (\<lambda>(refused, s0).
     case refused of
       Some r \<Rightarrow> Inr (r, s0)
     | None \<Rightarrow>
         if oc_owner ctx \<noteq> rq_owner rq \<or> oc_task ctx \<noteq> rq_task rq \<or> oc_job ctx \<noteq> rq_job rq
         then Inl (CandidateInvalid ''operator context differs from planning scope'')
         else sbind (same_repository env rq ctx) (\<lambda>_.
              sbind (candidate_bounds rq c) (\<lambda>_.
              sbind (ordered_steps c) (\<lambda>steps.
              sbind (each (validate_step (pv_machine env) ctx) steps) (\<lambda>_.
              if rq_max_elapsed rq < pv_elapsed env
              then Inl (CandidateInvalid ''planning elapsed-time bound exceeded'')
              else if g_approval_policy g \<noteq> ''autonomous_development_work''
              then Inl (CandidateInvalid ''approval policy not scoped for unattended execution'')
              else case require_task_approval (pt_db s) t (g_approval_policy g) of
                     Inl e \<Rightarrow> Inl (PlanRuntime e)
                   | Inr _ \<Rightarrow> accept_plan env rq ctx c steps g t s))))))"

section \<open>Recipes\<close>

definition recipe_step :: "string \<Rightarrow> string \<Rightarrow> string \<Rightarrow> string \<Rightarrow> jdict \<Rightarrow> string list \<Rightarrow> string \<Rightarrow> bool \<Rightarrow> candidate_step" where
  "recipe_step i purpose expected cap args deps risk verify =
     \<lparr>ct_id = i, ct_purpose = purpose, ct_expected = expected, ct_capability = cap, ct_arguments = args,
      ct_depends = map JStr deps, ct_risk = risk, ct_evidence = ''operator_trace'', ct_verify = verify,
      ct_on_failure = ''stop'', ct_independent = True\<rparr>"

definition recipe :: "string \<Rightarrow> string \<Rightarrow> string \<Rightarrow> string list \<Rightarrow> string list \<Rightarrow> string list \<Rightarrow> candidate_step list \<Rightarrow> plan_candidate" where
  "recipe interpretation outcome rationale facts assumptions exclusions steps =
     \<lparr>pc_interpretation = interpretation, pc_outcome = outcome, pc_rationale = rationale, pc_steps = steps,
      pc_assumptions = map JStr assumptions, pc_unknowns = [], pc_facts = map JStr facts,
      pc_exclusions = map JStr exclusions, pc_alternatives = [], pc_strategy_refs = [], pc_lesson_refs = [],
      pc_provider = JNull, pc_model = JNull, pc_model_version = JNull, pc_provider_role = JNull, pc_predecessor = JNull,
      pc_replan_reason = JNull\<rparr>"

definition newline :: string where "newline = [char_of (10 :: nat)]"

definition expected_hash :: "string option \<Rightarrow> json" where
  "expected_hash h = (case h of None \<Rightarrow> JNull | Some w \<Rightarrow> JStr w)"

definition edit_arguments :: "string \<Rightarrow> string \<Rightarrow> string option \<Rightarrow> jdict" where
  "edit_arguments path content before =
     [(''path'', JStr path), (''content'', JStr content), (''expected_sha256'', expected_hash before)]"

definition focused_arguments :: jdict where
  "focused_arguments =
     [(''profile_name'', JStr ''focused_pytest''), (''arguments'', JArr [JStr ''test_calculator.py''])]"

definition subtract_source :: string where
  "subtract_source = ''def subtract(left, right):'' @ newline @ ''    return left - right'' @ newline"

definition subtract_test :: string where
  "subtract_test =
     ''from calculator import subtract'' @ newline @ newline @ ''def test_subtract():'' @ newline @
     ''    assert subtract(7, 2) == 5'' @ newline"

definition subtract_candidate :: plan_candidate where
  "subtract_candidate =
     recipe ''Add one deterministic integer subtraction helper and its focused test.''
       ''A verified subtract helper in the authorized disposable repository.''
       ''Use the registered bounded calculator recipe; change only source and focused test.''
       [''The requested behavior is deterministic integer subtraction.'']
       [''calculator.py and test_calculator.py are authorized new paths.'']
       [''No merge, deploy, push, dependency installation, or unrelated edits.'']
       [recipe_step ''source'' ''create subtraction helper'' ''source hash'' ''create_file''
          (edit_arguments ''calculator.py'' subtract_source None) [] ''LOCAL_WRITE'' False,
        recipe_step ''test'' ''create focused subtraction test'' ''test hash'' ''create_file''
          (edit_arguments ''test_calculator.py'' subtract_test None) [''source''] ''LOCAL_WRITE'' False,
        recipe_step ''verify'' ''run focused subtraction test'' ''pytest exit zero'' ''run_focused_test''
          focused_arguments [''test''] ''LOCAL_EXECUTION'' True,
        recipe_step ''verification-gate'' ''evaluate required deterministic evidence'' ''verification checkpoint''
          ''verification_evaluate'' [] [''verify''] ''READ_ONLY'' False]"

text \<open>\<open>" ".join(text.lower().split())\<close> only matters through the words it contains.\<close>

function split_words :: "string \<Rightarrow> string list" where
  "split_words w =
     (let v = dropWhile is_space w
      in if v = [] then [] else takeWhile (\<lambda>c. \<not> is_space c) v # split_words (dropWhile (\<lambda>c. \<not> is_space c) v))"
  by pat_completeness auto
termination
proof (relation "measure length")
  fix w v assume v: "v = dropWhile is_space w" "v \<noteq> []"
  then have "\<not> is_space (hd v)" using hd_dropWhile [of is_space w] by simp
  with v(2) obtain c x where "v = c # x" "\<not> is_space c" by (cases v) simp_all
  then have "length (dropWhile (\<lambda>c. \<not> is_space c) v) < length v" by (auto simp: length_dropWhile_le le_imp_less_Suc)
  also have "length v \<le> length w" using v(1) by (simp add: length_dropWhile_le)
  finally show "(dropWhile (\<lambda>c. \<not> is_space c) v, w) \<in> measure length" by simp
qed simp

declare split_words.simps [simp del]

fun joined :: "string list \<Rightarrow> string" where
  "joined [] = []"
| "joined [w] = w"
| "joined (w # ws) = w @ '' '' @ joined ws"

definition deterministic_candidate :: "string \<Rightarrow> plan_candidate option" where
  "deterministic_candidate instruction =
     (let normalized = joined (split_words (map lower_char instruction))
      in if sublist ''calculator'' normalized \<and> sublist ''subtract'' normalized \<and> sublist ''focused test'' normalized
         then Some subtract_candidate else None)"

text \<open>The repair of the multiplication: the context decides which files it may name, the files what it writes.\<close>

definition rstrip :: "string \<Rightarrow> string" where
  "rstrip w = rev (dropWhile is_space (rev w))"

fun before_sub :: "string \<Rightarrow> string \<Rightarrow> string" where
  "before_sub pat [] = []"
| "before_sub pat (c # cs) = (if prefix pat (c # cs) then [] else c # before_sub pat cs)"

definition multiply_source :: string where
  "multiply_source = ''def multiply(left, right):'' @ newline @ ''    return left * right'' @ newline"

definition repaired_source :: "string \<Rightarrow> string" where
  "repaired_source original =
     (if sublist ''def multiply'' original \<and> sublist ''return left * right'' original then original
      else if sublist ''def multiply'' original
      then rstrip (before_sub ''def multiply'' original) @ newline @ newline @ multiply_source
      else rstrip original @ newline @ newline @ multiply_source)"

definition multiply_test :: string where
  "multiply_test =
     ''from calculator import multiply'' @ newline @ newline @ ''def test_multiply():'' @ newline @
     ''    assert multiply(3, 4) == 12'' @ newline"

definition file_at :: "machine \<Rightarrow> operator_context \<Rightarrow> string \<Rightarrow> op_state \<Rightarrow> string option" where
  "file_at mc ctx name s =
     (case mc_resolve mc (oc_root ctx @ [name]) of None \<Rightarrow> None | Some p \<Rightarrow> map_of (os_files s) p)"

text \<open>Reading a file as text turns its line ends into one character; bytes that are no UTF-8 raise.\<close>

fun universal_newlines :: "string \<Rightarrow> string" where
  "universal_newlines [] = []"
| "universal_newlines (c # cs) =
     (if of_char c = (13 :: nat)
      then newline @ (case cs of [] \<Rightarrow> [] | d # ds \<Rightarrow> if of_char d = (10 :: nat) then universal_newlines ds else universal_newlines cs)
      else c # universal_newlines cs)"

definition repair_steps :: "machine \<Rightarrow> string \<Rightarrow> string option \<Rightarrow> candidate_step list" where
  "repair_steps mc original test_before =
     [recipe_step ''patch'' ''append or repair multiplication helper'' ''source hash'' ''patch_file''
        (edit_arguments ''calculator.py'' (repaired_source original) (Some (mc_sha mc original))) [] ''LOCAL_WRITE'' False,
      recipe_step ''test'' ''create or repair focused multiplication test'' ''test hash''
        (if test_before \<noteq> None then ''patch_file'' else ''create_file'')
        (edit_arguments ''test_calculator.py'' multiply_test test_before) [''patch''] ''LOCAL_WRITE'' False,
      recipe_step ''verify'' ''run focused multiplication test'' ''pytest exit zero'' ''run_focused_test''
        focused_arguments [''test''] ''LOCAL_EXECUTION'' True,
      recipe_step ''gate'' ''evaluate required deterministic evidence'' ''verification checkpoint'' ''verification_evaluate''
        [] [''verify''] ''READ_ONLY'' False,
      recipe_step ''stage'' ''stage scoped changes'' ''staged diff'' ''stage_scoped_changes''
        [(''paths'', JArr [JStr ''calculator.py'', JStr ''test_calculator.py''])] [''gate''] ''LOCAL_WRITE'' False,
      recipe_step ''commit'' ''commit scoped changes'' ''commit sha'' ''commit_scoped_changes''
        [(''message'', JStr ''Add multiplication helper'')] [''stage''] ''LOCAL_WRITE'' False]"

definition build_multiplication_repair_candidate ::
  "machine \<Rightarrow> operator_context \<Rightarrow> op_state \<Rightarrow> planner_error + plan_candidate" where
  "build_multiplication_repair_candidate mc ctx s =
     (if oc_paths ctx \<noteq> [] \<and> \<not> {''calculator.py'', ''test_calculator.py''} \<subseteq> set (oc_paths ctx)
      then Inl (CandidateInvalid ''multiplication_repair requires calculator.py and test_calculator.py'')
      else if (case file_at mc ctx ''calculator.py'' s of None \<Rightarrow> False | Some w \<Rightarrow> \<not> utf8_ok (map of_char w))
      then Inl (PlanRaised ''UnicodeDecodeError'')
      else
        let original = (case file_at mc ctx ''calculator.py'' s of
              Some w \<Rightarrow> universal_newlines w
            | None \<Rightarrow> ''def add(left, right):'' @ newline @ ''    return left + right'' @ newline)
        in Inr (recipe ''Add one deterministic integer multiplication helper and its focused test.''
             ''A verified multiply helper in the authorized disposable repository.''
             ''Use the registered bounded calculator multiplication recipe.''
             [''The requested behavior is deterministic integer multiplication.'']
             [''calculator.py already exists; test_calculator.py is an authorized path.'']
             [''No merge, deploy, push, dependency installation, or unrelated edits.'']
             (repair_steps mc original (map_option (mc_sha mc) (file_at mc ctx ''test_calculator.py'' s)))))"

section \<open>Planning a request\<close>

definition record_capability_gap ::
  "planner_env \<Rightarrow> planning_request \<Rightarrow> operator_context \<Rightarrow> string \<Rightarrow> string \<Rightarrow> bool \<Rightarrow> plan_state \<Rightarrow>
   planner_error + (planning_result \<times> plan_state)" where
  "record_capability_gap env rq ctx cap why can_continue s =
     sbind (load_scope rq (pt_db s)) (\<lambda>(g, t, j).
     let detail = [(''requested_capability'', JStr cap), (''why_needed'', JStr why),
           (''unrelated_work_can_continue'', JBool can_continue), (''task_id'', JStr (uuid_str (rq_task rq))),
           (''job_id'', JStr (uuid_str (rq_job rq))), (''repository'', JStr (path_str (oc_root ctx)))]
     in Inr (\<lparr>pr_class = ''CAPABILITY_MISSING'', pr_detail = detail, pr_plan = None, pr_context = None\<rparr>,
             planner_checkpoint env rq g t ''CAPABILITY_MISSING'' detail s))"

definition planner_stops ::
  "planner_env \<Rightarrow> planning_request \<Rightarrow> string \<Rightarrow> jdict \<Rightarrow> plan_state \<Rightarrow> planner_error + (planning_result \<times> plan_state)" where
  "planner_stops env rq cls detail s =
     sbind (load_scope rq (pt_db s)) (\<lambda>(g, t, j).
     Inr (\<lparr>pr_class = cls, pr_detail = detail, pr_plan = None, pr_context = None\<rparr>,
          planner_checkpoint env rq g t cls detail s))"

definition plan_founder_request ::
  "planner_env \<Rightarrow> planning_request \<Rightarrow> operator_context \<Rightarrow> plan_candidate option \<Rightarrow> plan_state \<Rightarrow>
   planner_error + (planning_result \<times> plan_state)" where
  "plan_founder_request env rq ctx candidate s =
     sbind (assess_authority env rq s) (\<lambda>(refused, s0).
     case refused of
       Some r \<Rightarrow> Inr (r, s0)
     | None \<Rightarrow>
         if says forbidden_words (rq_instruction rq)
         then planner_stops env rq ''UNSAFE_REQUEST''
                [(''reason'', JStr ''founder text requests forbidden operational effects''),
                 (''forbidden'', text_array (find_words forbidden_words False 0 (rq_instruction rq))),
                 (''safe_subset'', JNull)] s
         else case (case candidate of None \<Rightarrow> deterministic_candidate (rq_instruction rq) | Some c \<Rightarrow> Some c) of
                None \<Rightarrow>
                  planner_stops env rq ''WAITING_PROVIDER''
                    [(''reason'', JStr ''deterministic planning recipe is unavailable''),
                     (''unresolved'', JStr (if rq_outcome rq = [] then py_take 500 (rq_instruction rq) else rq_outcome rq))] s
              | Some c \<Rightarrow>
                  (case validate_candidate env rq ctx c s of
                     Inl (PlanCapabilityMissing cap why can_continue) \<Rightarrow>
                       record_capability_gap env rq ctx cap why can_continue s
                   | r \<Rightarrow> r))"

section \<open>The order of the steps\<close>

declare order_from.simps [simp del]

text \<open>Every step comes after those it depends on.\<close>

definition dependencies_first :: "candidate_step list \<Rightarrow> bool" where
  "dependencies_first steps \<longleftrightarrow>
     (\<forall>k<length steps. set (ct_depends (steps ! k)) \<subseteq> JStr ` ct_id ` set (take k steps))"

lemma dependencies_first_append:
  assumes "dependencies_first xs" and "\<forall>y\<in>set ys. set (ct_depends y) \<subseteq> JStr ` ct_id ` set xs"
  shows "dependencies_first (xs @ ys)"
  unfolding dependencies_first_def
proof (intro allI impI)
  fix k assume k: "k < length (xs @ ys)"
  show "set (ct_depends ((xs @ ys) ! k)) \<subseteq> JStr ` ct_id ` set (take k (xs @ ys))"
  proof (cases "k < length xs")
    case True
    then show ?thesis using assms(1) by (simp add: dependencies_first_def nth_append)
  next
    case False
    with k have "(xs @ ys) ! k \<in> set ys" by (simp add: nth_append)
    with assms(2) have "set (ct_depends ((xs @ ys) ! k)) \<subseteq> JStr ` ct_id ` set xs" by blast
    also have "\<dots> \<subseteq> JStr ` ct_id ` set (take k (xs @ ys))" using False by auto
    finally show ?thesis .
  qed
qed

lemma ready_steps_iff:
  "st \<in> set (ready_steps steps ids) \<longleftrightarrow>
     st \<in> set steps \<and> ct_id st \<notin> set ids \<and> set (ct_depends st) \<subseteq> JStr ` set ids"
  by (auto simp: ready_steps_def list_all_iff)

lemma distinct_same_length:
  assumes "distinct xs" and "distinct ys" and "set xs \<subseteq> set ys" and "length ys \<le> length xs"
  shows "mset xs = mset ys"
proof -
  have "card (set ys) \<le> card (set xs)" using assms by (simp add: distinct_card)
  with assms(3) have "set xs = set ys" by (simp add: card_seteq)
  with assms(1,2) show ?thesis by (simp add: set_eq_iff_mset_eq_distinct)
qed

lemma order_from_sound:
  assumes "order_from steps ids result = Inr ordered"
    and "distinct (map ct_id steps)" and "ids = map ct_id result" and "distinct result" and "set result \<subseteq> set steps"
    and "dependencies_first result"
  shows "mset ordered = mset steps \<and> dependencies_first ordered"
  using assms
proof (induction steps ids result rule: order_from.induct)
  case (1 steps ids result)
  let ?ready = "ready_steps steps ids"
  show ?case
  proof (cases "length steps \<le> length result")
    case True
    with "1.prems" show ?thesis
      using distinct_same_length [of result steps] by (auto simp: order_from.simps [of _ _ result] distinct_map)
  next
    case False
    with "1.prems"(1) have ne: "?ready \<noteq> []"
      and go: "order_from steps (ids @ map ct_id ?ready) (result @ ?ready) = Inr ordered"
      by (auto simp: order_from.simps [of steps ids result] split: if_splits)
    have new: "set ?ready \<inter> set result = {}" using "1.prems"(3) by (auto simp: ready_steps_iff)
    have "distinct ?ready" using "1.prems"(2) by (simp add: ready_steps_def distinct_map)
    moreover have "set ?ready \<subseteq> set steps" by (auto simp: ready_steps_iff)
    moreover have "dependencies_first (result @ ?ready)"
      using "1.prems"(3,6) by (intro dependencies_first_append) (auto simp: ready_steps_iff)
    ultimately show ?thesis
      using "1.IH" [OF False ne go "1.prems"(2)] "1.prems"(3-5) new by auto
  qed
qed

text \<open>Where the steps have such an order at all, the loop is never stuck: the first step of it that is missing is ready.\<close>

lemma some_step_ready:
  assumes "dependencies_first order" and "set order = set steps" and "distinct (map ct_id steps)"
    and "ids = map ct_id result" and "set result \<subseteq> set steps" and "distinct result" and "length result < length steps"
  shows "ready_steps steps ids \<noteq> []"
proof -
  have "\<not> set order \<subseteq> set result"
  proof
    assume "set order \<subseteq> set result"
    with assms(2) have "card (set steps) \<le> card (set result)" by (simp add: card_mono)
    with assms(3,6,7) show False by (simp add: distinct_map distinct_card)
  qed
  then obtain i where i: "i < length order \<and> order ! i \<notin> set result" by (metis in_set_conv_nth subsetI)
  define k where "k = (LEAST k. k < length order \<and> order ! k \<notin> set result)"
  have k: "k < length order" "order ! k \<notin> set result"
    using LeastI [of "\<lambda>k. k < length order \<and> order ! k \<notin> set result" i, OF i] by (simp_all add: k_def)
  have least: "order ! i \<in> set result" if "i < k" for i
  proof -
    have "\<not> (i < length order \<and> order ! i \<notin> set result)" using that unfolding k_def by (rule not_less_Least)
    moreover have "i < length order" using that k(1) by (rule less_trans)
    ultimately show ?thesis by blast
  qed
  have mem: "order ! k \<in> set steps" using nth_mem [OF k(1)] unfolding assms(2) .
  moreover have "ct_id (order ! k) \<notin> set ids"
  proof
    assume "ct_id (order ! k) \<in> set ids"
    then obtain st where st: "st \<in> set result" "ct_id (order ! k) = ct_id st" unfolding assms(4) by auto
    with assms(5) have "st \<in> set steps" by blast
    with st(2) mem assms(3) have "order ! k = st" by (auto simp: distinct_map dest: inj_onD)
    with st(1) k(2) show False by simp
  qed
  moreover have "set (take k order) \<subseteq> set result"
    using least k(1) by (auto simp: in_set_conv_nth simp del: assms)
  then have "JStr ` ct_id ` set (take k order) \<subseteq> JStr ` set ids" unfolding assms(4) by auto
  with assms(1) k(1) have "set (ct_depends (order ! k)) \<subseteq> JStr ` set ids"
    unfolding dependencies_first_def by (metis subset_trans)
  ultimately have "order ! k \<in> set (ready_steps steps ids)" by (simp add: ready_steps_iff)
  then show ?thesis by auto
qed

lemma order_from_complete:
  assumes "dependencies_first order" and "set order = set steps" and "distinct (map ct_id steps)"
    and "ids = map ct_id result" and "set result \<subseteq> set steps" and "distinct result"
  shows "\<exists>ordered. order_from steps ids result = Inr ordered"
  using assms
proof (induction steps ids result rule: order_from.induct)
  case (1 steps ids result)
  let ?ready = "ready_steps steps ids"
  show ?case
  proof (cases "length steps \<le> length result")
    case True
    then show ?thesis by (simp add: order_from.simps [of steps ids result])
  next
    case False
    then have ne: "?ready \<noteq> []" using some_step_ready [OF "1.prems"] by simp
    have "distinct ?ready" "set ?ready \<inter> set result = {}" "set ?ready \<subseteq> set steps"
      using "1.prems"(3,4) by (auto simp: ready_steps_iff ready_steps_def distinct_map)
    then have "\<exists>ordered. order_from steps (ids @ map ct_id ?ready) (result @ ?ready) = Inr ordered"
      using "1.IH" [OF False ne "1.prems"(1-3)] "1.prems"(4-6) by auto
    with False ne show ?thesis by (simp add: order_from.simps [of steps ids result])
  qed
qed

lemma each_unit: "(\<exists>us. each f xs = Inr us) \<longleftrightarrow> (\<forall>x\<in>set xs. \<exists>u. f x = Inr u)"
  by (induction xs) (auto simp: sbind_Inr_iff)

lemma known_dependency_ok: "(\<exists>u. known_dependency ids v = Inr u) \<longleftrightarrow> v \<in> JStr ` set ids"
  by (cases v) (auto simp: known_dependency_def ensure_Inr_iff)

lemma dependencies_known:
  assumes "dependencies_first order" and "mset order = mset steps" and "v \<in> set (concat (map ct_depends steps))"
  shows "v \<in> JStr ` set (map ct_id steps)"
proof -
  have same: "set order = set steps" using assms(2) by (rule mset_eq_setD)
  from assms(3) obtain st where "st \<in> set order" "v \<in> set (ct_depends st)" unfolding same by auto
  then obtain k where k: "k < length order" "v \<in> set (ct_depends (order ! k))" by (auto simp: in_set_conv_nth)
  with assms(1) have "v \<in> JStr ` ct_id ` set (take k order)" by (auto simp: dependencies_first_def)
  also have "\<dots> \<subseteq> JStr ` ct_id ` set order" by (intro image_mono set_take_subset)
  finally show ?thesis by (simp add: same)
qed

lemma ordered_steps_Inr:
  assumes "ordered_steps c = Inr steps"
  shows "mset steps = mset (pc_steps c) \<and> dependencies_first steps \<and> distinct (map ct_id (pc_steps c)) \<and>
    (\<forall>st\<in>set (pc_steps c). strip_chars is_space (ct_id st) \<noteq> [])"
proof -
  have "order_from (pc_steps c) [] [] = Inr steps" and ids: "distinct (map ct_id (pc_steps c))"
    and blank: "\<forall>st\<in>set (pc_steps c). strip_chars is_space (ct_id st) \<noteq> []"
    using assms by (auto simp: ordered_steps_def Let_def sbind_Inr_iff list_all_iff split: if_splits)
  with order_from_sound [of "pc_steps c" "[]" "[]" steps] show ?thesis by (simp add: dependencies_first_def)
qed

text \<open>C24: The planner orders the steps of a candidate exactly when they can be ordered: it gives the same steps, each
  after all it depends on, or an error when identities are blank or repeated or no such order exists. The loop
  always ends.\<close>

theorem ordered_steps_decides:
  "case ordered_steps c of
     Inr steps \<Rightarrow> mset steps = mset (pc_steps c) \<and> dependencies_first steps \<and> distinct (map ct_id steps)
   | Inl e \<Rightarrow>
       \<not> (distinct (map ct_id (pc_steps c)) \<and> list_all (\<lambda>st. strip_chars is_space (ct_id st) \<noteq> []) (pc_steps c) \<and>
          (\<exists>order. mset order = mset (pc_steps c) \<and> dependencies_first order))"
proof (cases "ordered_steps c")
  case (Inr steps)
  note ok = ordered_steps_Inr [OF Inr]
  then have "distinct (map ct_id steps)" by (metis mset_eq_imp_distinct_iff mset_map)
  with Inr ok show ?thesis by simp
next
  case (Inl e)
  have False if ids: "distinct (map ct_id (pc_steps c))" and blank: "\<forall>st\<in>set (pc_steps c). strip_chars is_space (ct_id st) \<noteq> []"
    and order: "mset order = mset (pc_steps c)" "dependencies_first order" for order
  proof -
    have "\<forall>v\<in>set (concat (map ct_depends (pc_steps c))). \<exists>u. known_dependency (map ct_id (pc_steps c)) v = Inr u"
      using dependencies_known [OF order(2,1)] known_dependency_ok by blast
    then obtain us where "each (known_dependency (map ct_id (pc_steps c))) (concat (map ct_depends (pc_steps c))) = Inr us"
      using each_unit by blast
    moreover obtain steps where "order_from (pc_steps c) [] [] = Inr steps"
      using order_from_complete [OF order(2) mset_eq_setD [OF order(1)] ids, of "[]" "[]"] by auto
    ultimately show False using Inl ids blank by (simp add: ordered_steps_def Let_def list_all_iff)
  qed
  then show ?thesis by (auto simp: Inl list_all_iff)
qed

section \<open>The stored form of a candidate\<close>

lemma each_map: "(\<And>x. x \<in> set xs \<Longrightarrow> f (g x) = Inr x) \<Longrightarrow> each f (map g xs) = Inr xs"
  by (induction xs) simp_all

lemma parse_stored_step:
  assumes "\<And>w. py_str py (JStr w) = w"
  shows "parse_candidate_step py (step_to_json st) = Inr st"
  by (cases st) (simp add: parse_candidate_step_def step_to_json_def step_fields_def to_dict_def json_iter_def get_default_def assms)

lemma parse_stored_alternative:
  assumes "\<And>w. py_str py (JStr w) = w"
  shows "parse_alternative py (alternative_json a) = Inr a"
  by (cases a) (simp add: parse_alternative_def alternative_json_def iterated_def json_iter_def get_default_def assms)

text \<open>C25: What is stored of a candidate reads back as the same candidate: a replay after a crash plans exactly what the
  provider had proposed.\<close>

theorem stored_candidate_reads_back:
  assumes "\<And>w. py_str py (JStr w) = w"
  shows "parse_candidate py (candidate_json c) = Inr c"
proof -
  have steps: "each (parse_candidate_step py) (map step_to_json (pc_steps c)) = Inr (pc_steps c)"
    by (rule each_map) (rule parse_stored_step [OF assms])
  have alts: "each (parse_alternative py) (map alternative_json (pc_alternatives c)) = Inr (pc_alternatives c)"
    by (rule each_map) (rule parse_stored_alternative [OF assms])
  show ?thesis
    by (cases c)
      (use steps alts in \<open>simp add: parse_candidate_def candidate_json_def candidate_fields_def iterated_def json_iter_def
         get_default_def jget_def assms\<close>)
qed

section \<open>What an accepted plan has passed\<close>

lemma assess_authority_Inr:
  assumes "assess_authority env rq s = Inr (refused, s0)"
  shows "(\<exists>g t j. load_scope rq (pt_db s) = Inr (g, t, j)) \<and>
    (case refused of
       None \<Rightarrow> authority_objection rq = None \<and> s0 = s
     | Some r \<Rightarrow> pr_class r \<in> {''NEEDS_AUTHORIZATION'', ''CONTRADICTION_UNRESOLVED'', ''NEEDS_CLARIFICATION''})"
proof -
  obtain g t j where l: "load_scope rq (pt_db s) = Inr (g, t, j)"
    using assms by (auto simp: assess_authority_def sbind_Inr_iff)
  show ?thesis
  proof (cases "authority_objection rq")
    case None
    with assms l show ?thesis by (auto simp: assess_authority_def split: if_splits)
  next
    case (Some cr)
    obtain cls reason where cr: "cr = (cls, reason)" by (cases cr)
    have "cls \<in> {''NEEDS_AUTHORIZATION'', ''CONTRADICTION_UNRESOLVED'', ''NEEDS_CLARIFICATION''}"
      using Some unfolding cr authority_objection_def by (auto split: if_splits)
    with assms l Some cr show ?thesis by (auto simp: assess_authority_def Let_def split: if_splits)
  qed
qed

lemma gap_class:
  "record_capability_gap env rq ctx cap why b s = Inr (r, s1) \<Longrightarrow> pr_class r = ''CAPABILITY_MISSING''"
  "planner_stops env rq cls d s = Inr (r, s1) \<Longrightarrow> pr_class r = cls"
  by (auto simp: record_capability_gap_def planner_stops_def Let_def sbind_Inr_iff)

lemma each_Inr_all: "each f xs = Inr us \<Longrightarrow> x \<in> set xs \<Longrightarrow> \<exists>u. f x = Inr u"
  using each_unit [of f xs] by blast

lemma validate_candidate_accepts:
  assumes "validate_candidate env rq ctx c s = Inr (r, s1)" and "pr_class r = ''ACCEPTED''"
  shows "\<exists>g t j steps. load_scope rq (pt_db s) = Inr (g, t, j) \<and> candidate_bounds rq c = Inr () \<and>
    oc_owner ctx = rq_owner rq \<and> oc_task ctx = rq_task rq \<and> oc_job ctx = rq_job rq \<and>
    ordered_steps c = Inr steps \<and> (\<forall>st\<in>set steps. validate_step (pv_machine env) ctx st = Inr ()) \<and>
    accept_plan env rq ctx c steps g t s = Inr (r, s1)"
proof -
  obtain g t j refused s0 where l: "load_scope rq (pt_db s) = Inr (g, t, j)" and a: "assess_authority env rq s = Inr (refused, s0)"
    using assms(1) by (auto simp: validate_candidate_def sbind_Inr_iff)
  have "refused = None"
    using assms l a assess_authority_Inr [OF a] by (cases refused) (auto simp: validate_candidate_def)
  with a have a: "assess_authority env rq s = Inr (None, s)" using assess_authority_Inr [OF a] by simp
  from assms(1) l a obtain steps us where st: "ordered_steps c = Inr steps"
    "each (validate_step (pv_machine env) ctx) steps = Inr us" "candidate_bounds rq c = Inr ()"
    "oc_owner ctx = rq_owner rq" "oc_task ctx = rq_task rq" "oc_job ctx = rq_job rq"
    "accept_plan env rq ctx c steps g t s = Inr (r, s1)"
    by (auto simp: validate_candidate_def sbind_Inr_iff split: if_splits sum.splits)
  have "validate_step (pv_machine env) ctx x = Inr ()" if "x \<in> set steps" for x
    using each_Inr_all [OF st(2) that] by simp
  with st l show ?thesis by (intro exI conjI ballI) simp_all
qed

definition chosen_candidate :: "planning_request \<Rightarrow> plan_candidate option \<Rightarrow> plan_candidate option" where
  "chosen_candidate rq candidate =
     (case candidate of None \<Rightarrow> deterministic_candidate (rq_instruction rq) | Some c \<Rightarrow> Some c)"

lemma plan_founder_request_accepts:
  assumes "plan_founder_request env rq ctx candidate s = Inr (r, s1)" and "pr_class r = ''ACCEPTED''"
  shows "\<exists>c. chosen_candidate rq candidate = Some c \<and> authority_objection rq = None \<and>
    \<not> says forbidden_words (rq_instruction rq) \<and> validate_candidate env rq ctx c s = Inr (r, s1)"
proof -
  obtain refused s0 where a: "assess_authority env rq s = Inr (refused, s0)"
    using assms(1) by (auto simp: plan_founder_request_def sbind_Inr_iff)
  have "refused = None"
    using assms a assess_authority_Inr [OF a] by (cases refused) (auto simp: plan_founder_request_def)
  with a have a: "assess_authority env rq s = Inr (None, s)" "authority_objection rq = None"
    using assess_authority_Inr [OF a] by simp_all
  have safe: "\<not> says forbidden_words (rq_instruction rq)"
    using assms a(1) by (auto simp: plan_founder_request_def dest!: gap_class)
  obtain c where c: "chosen_candidate rq candidate = Some c"
    using assms a(1) safe
    by (cases "chosen_candidate rq candidate") (auto simp: plan_founder_request_def chosen_candidate_def dest!: gap_class)
  have "validate_candidate env rq ctx c s = Inr (r, s1)"
    using assms a(1) safe c
    by (auto simp: plan_founder_request_def chosen_candidate_def dest!: gap_class split: sum.splits planner_error.splits)
  with a(2) safe c show ?thesis by blast
qed

text \<open>The paths a step names, and what the planner has checked of a step of a plan.\<close>

definition names_path :: "jdict \<Rightarrow> string \<Rightarrow> bool" where
  "names_path args w \<longleftrightarrow>
     (\<exists>v. (''path'', JStr v) \<in> set args \<and> w = v \<or> (''scope'', JStr v) \<in> set args \<and> w = v \<or>
          (''target'', JStr v) \<in> set args \<and> w = before_colons v) \<or>
     (\<exists>xs. (''paths'', JArr xs) \<in> set args \<and> JStr w \<in> set xs)"

definition checked_step :: "machine \<Rightarrow> operator_context \<Rightarrow> driver_step \<Rightarrow> bool" where
  "checked_step mc ctx st \<longleftrightarrow>
     dp_capability st = ''verification_evaluate'' \<and> dp_arguments st = [] \<or>
     (\<exists>actual stated. map_of development_capabilities (dp_capability st) = Some actual \<and>
        dp_capability st \<notin> forbidden_capabilities \<and> dp_capability st \<noteq> ''push_branch'' \<and>
        risk_of_value (dp_risk st) = Some stated \<and> risk_rank actual \<le> risk_rank stated \<and>
        (\<forall>x\<in>set (dp_arguments st). fst x \<notin> raw_argument_keys) \<and>
        (\<forall>w. names_path (dp_arguments st) w \<longrightarrow>
           \<not> is_absolute w \<and> ''..'' \<notin> set (path_parts w) \<and> ''.git'' \<notin> set (lowered_parts w) \<and>
           (oc_paths ctx = [] \<or> path_within_authorized w (oc_paths ctx))) \<and>
        redact_value mc (JObj (dp_arguments st)) = JObj (dp_arguments st))"

lemma validated_path:
  assumes "validate_argument mc ctx (k, v) = Inr u"
  shows "k \<in> {''path'', ''scope''} \<Longrightarrow> v = JStr w \<Longrightarrow> \<exists>r. guard_path mc ctx False w = Inr r"
    and "k = ''target'' \<Longrightarrow> v = JStr w \<Longrightarrow> \<exists>r. guard_path mc ctx False (before_colons w) = Inr r"
    and "k = ''paths'' \<Longrightarrow> v = JArr xs \<Longrightarrow> JStr w \<in> set xs \<Longrightarrow> \<exists>r. guard_path mc ctx False w = Inr r"
proof -
  have g: "\<exists>r. guard_path mc ctx False x = Inr r" if "validate_path_value mc ctx x = Inr y" for x y
    using that by (auto simp: validate_path_value_def split: sum.splits op_error.splits)
  show "k \<in> {''path'', ''scope''} \<Longrightarrow> v = JStr w \<Longrightarrow> \<exists>r. guard_path mc ctx False w = Inr r"
    using assms g by (auto simp: validate_argument_def path_keys_def)
  show "k = ''target'' \<Longrightarrow> v = JStr w \<Longrightarrow> \<exists>r. guard_path mc ctx False (before_colons w) = Inr r"
    using assms g by (auto simp: validate_argument_def path_keys_def)
  assume k: "k = ''paths''" "v = JArr xs" "JStr w \<in> set xs"
  then obtain us where "each (validate_listed_path mc ctx) xs = Inr us"
    using assms by (auto simp: validate_argument_def path_keys_def sbind_Inr_iff)
  from each_Inr_all [OF this k(3)] show "\<exists>r. guard_path mc ctx False w = Inr r"
    using g by (auto simp: validate_listed_path_def)
qed

lemma validate_step_checked:
  assumes "validate_step mc ctx st = Inr ()"
  shows "checked_step mc ctx (driver_step_of st)"
proof (cases "ct_capability st \<in> driver_directives")
  case True
  with assms show ?thesis by (auto simp: validate_step_def checked_step_def driver_step_of_def ensure_Inr_iff split: if_splits)
next
  case False
  with assms obtain actual stated us where f: "map_of development_capabilities (ct_capability st) = Some actual"
    "ct_capability st \<notin> forbidden_capabilities" "ct_capability st \<noteq> ''push_branch''"
    "\<forall>x\<in>set (ct_arguments st). fst x \<notin> raw_argument_keys"
    "risk_of_value (ct_risk st) = Some stated" "risk_rank actual \<le> risk_rank stated"
    "each (validate_argument mc ctx) (ct_arguments st) = Inr us"
    "redact_value mc (JObj (ct_arguments st)) = JObj (ct_arguments st)"
    by (auto simp del: redact_value.simps
        simp: validate_step_def sbind_Inr_iff ensure_Inr_iff list_ex_iff split: if_splits option.splits)
  have "\<exists>r. guard_path mc ctx False w = Inr r" if "names_path (ct_arguments st) w" for w
  proof -
    have arg: "\<exists>u. validate_argument mc ctx x = Inr u" if "x \<in> set (ct_arguments st)" for x
      using each_Inr_all [OF f(7) that] .
    from that show ?thesis
      unfolding names_path_def using arg validated_path(1) [of mc ctx "''path''"] validated_path(1) [of mc ctx "''scope''"]
        validated_path(2) [of mc ctx "''target''"] validated_path(3) [of mc ctx "''paths''"] by blast
  qed
  then have "\<not> is_absolute w \<and> ''..'' \<notin> set (path_parts w) \<and> ''.git'' \<notin> set (lowered_parts w) \<and>
      (oc_paths ctx = [] \<or> path_within_authorized w (oc_paths ctx))" if "names_path (ct_arguments st) w" for w
    using that guard_path_Inr by blast
  with f show ?thesis by (simp add: checked_step_def driver_step_of_def del: redact_value.simps)
qed

lemma record_evidence_state:
  assumes "record_evidence e s = Inr (x, s1)"
  shows "pt_op s1 = pt_op s \<and> x = e\<lparr>ie_id := ie_id x\<rparr> \<and> find_row (keyed_evidence e) (pt_evidence s1) = Some x"
proof (cases "find_row (keyed_evidence e) (pt_evidence s)")
  case None
  then have "\<forall>y\<in>set (pt_evidence s). \<not> keyed_evidence e y" by (simp add: find_None_iff)
  with assms None show ?thesis
    by (auto simp: record_evidence_def keyed_evidence_def find_row_snoc)
next
  case (Some y)
  with assms show ?thesis by (auto simp: record_evidence_def split: if_splits)
qed

lemma planner_checkpoint_state [simp]:
  "os_files (pt_op (planner_checkpoint env rq g t cls detail s)) = os_files (pt_op s)"
  "os_git (pt_op (planner_checkpoint env rq g t cls detail s)) = os_git (pt_op s)"
  "os_traces (pt_op (planner_checkpoint env rq g t cls detail s)) = os_traces (pt_op s)"
  "pt_evidence (planner_checkpoint env rq g t cls detail s) = pt_evidence s"
  by (simp_all add: planner_checkpoint_def set_pt_db_def)

text \<open>Accepting writes the evidence and, unless the same plan is stored already, a checkpoint of it.\<close>

lemma accept_plan_Inr:
  assumes "accept_plan env rq ctx c steps g t s = Inr (r, s1)"
  shows "pr_plan r = Some (plan_of env ctx c steps) \<and>
    (\<exists>x. validate_plan (pv_machine env) (pv_now env) ctx (plan_of env ctx c steps) (pt_op s) = Inr x) \<and>
    (\<exists>b e s2 cid refs. find_row (\<lambda>b. sb_id b = oc_strategy ctx \<and> sb_owner b = rq_owner rq) (os_bindings (pt_op s)) = Some b \<and>
       record_evidence (plan_evidence env rq c steps (plan_of env ctx c steps) b) s = Inr (e, s2) \<and>
       (s1 = s2 \<and> jget (prior_planning rq t (pt_db s)) ''source_sha256'' = JStr (source_sha env rq) \<and>
          jget (prior_planning rq t (pt_db s)) ''candidate_hash'' = JStr (candidate_hash env c) \<or>
        s1 = planner_checkpoint env rq g t ''ACCEPTED''
               (plan_detail env rq c steps (plan_of env ctx c steps) cid refs @
                  [(''intelligence_evidence_id'', JStr (uuid_str (ie_id e)))]) s2)) \<and>
    (jget (prior_planning rq t (pt_db s)) ''source_sha256'' = JStr (source_sha env rq) \<and>
       jget (prior_planning rq t (pt_db s)) ''candidate_hash'' \<notin> {JNull, JStr (candidate_hash env c)} \<longrightarrow>
     is_revision c (prior_planning rq t (pt_db s)))"
  using assms
  by (auto simp: accept_plan_def Let_def sbind_Inr_iff split: sum.splits if_splits option.splits)

text \<open>C22: Whatever candidate a provider proposes, a plan is accepted only under a kind of authority the founder has, for an
  instruction that asks for nothing forbidden or unbounded, with at most the allowed number of steps in the order
  of their dependencies, each a known capability at no more than its stated risk, with no raw command among its
  arguments and every path it names inside the authorized ones. Planning itself touches no file, no repository and
  no operator event.\<close>

theorem accepted_plan_is_checked:
  assumes "plan_founder_request env rq ctx candidate s = Inr (r, s1)" and "pr_class r = ''ACCEPTED''"
  shows "\<exists>c steps p. chosen_candidate rq candidate = Some c \<and> ordered_steps c = Inr steps \<and> pr_plan r = Some p \<and>
    p = plan_of env ctx c steps \<and> rq_kind rq \<in> authorized_kinds \<and> \<not> rq_superseded rq \<and>
    \<not> says forbidden_words (rq_instruction rq) \<and> \<not> says unbounded_words (rq_instruction rq) \<and>
    1 \<le> length (pn_steps p) \<and> length (pn_steps p) \<le> min (rq_max_steps rq) 50 \<and>
    (\<forall>st\<in>set (pn_steps p). checked_step (pv_machine env) ctx st) \<and>
    oc_owner ctx = rq_owner rq \<and> oc_task ctx = rq_task rq \<and> oc_job ctx = rq_job rq \<and>
    os_files (pt_op s1) = os_files (pt_op s) \<and> os_git (pt_op s1) = os_git (pt_op s) \<and>
    os_traces (pt_op s1) = os_traces (pt_op s)"
proof -
  obtain c where c: "chosen_candidate rq candidate = Some c" "authority_objection rq = None"
    "\<not> says forbidden_words (rq_instruction rq)" "validate_candidate env rq ctx c s = Inr (r, s1)"
    using plan_founder_request_accepts [OF assms] by blast
  from validate_candidate_accepts [OF c(4) assms(2)] obtain g t j steps where v:
    "candidate_bounds rq c = Inr ()" "ordered_steps c = Inr steps" "oc_owner ctx = rq_owner rq" "oc_task ctx = rq_task rq"
    "oc_job ctx = rq_job rq"
    "\<forall>st\<in>set steps. validate_step (pv_machine env) ctx st = Inr ()" "accept_plan env rq ctx c steps g t s = Inr (r, s1)"
    by blast
  note acc = accept_plan_Inr [OF v(7)]
  have len: "length steps = length (pc_steps c)" using ordered_steps_Inr [OF v(2)] by (metis size_mset)
  have "1 \<le> length (pc_steps c) \<and> length (pc_steps c) \<le> min (rq_max_steps rq) 50"
    using v(1) by (auto simp: candidate_bounds_def split: if_splits)
  moreover have "rq_kind rq \<in> authorized_kinds" "\<not> rq_superseded rq" "\<not> says unbounded_words (rq_instruction rq)"
    using c(2) by (simp_all add: authority_objection_def split: if_splits)
  moreover have "\<forall>st\<in>set steps. checked_step (pv_machine env) ctx (driver_step_of st)"
    using v(6) validate_step_checked by blast
  moreover have "pt_op s2 = pt_op s" if "record_evidence e s = Inr (x, s2)" for e x s2
    using record_evidence_state [OF that] by simp
  with acc have "os_files (pt_op s1) = os_files (pt_op s)" "os_git (pt_op s1) = os_git (pt_op s)"
    "os_traces (pt_op s1) = os_traces (pt_op s)" by auto
  ultimately show ?thesis
    using c(1,3) v(2-5) acc len
    by (intro exI [of _ c] exI [of _ steps] exI [of _ "plan_of env ctx c steps"] conjI) (auto simp: plan_of_def)
qed

section \<open>Planning again\<close>

text \<open>Two states that differ in checkpoints and evidence only.\<close>

definition same_inputs :: "plan_state \<Rightarrow> plan_state \<Rightarrow> bool" where
  "same_inputs s s1 \<longleftrightarrow>
     pt_op s1 = set_op_db (pt_db s1) (pt_op s) \<and> tasks (pt_db s1) = tasks (pt_db s) \<and> jobs (pt_db s1) = jobs (pt_db s) \<and>
     goals (pt_db s1) = goals (pt_db s) \<and> task_events (pt_db s1) = task_events (pt_db s)"

lemma set_op_db_self: "set_op_db (op_db s) s = s"
  by (simp add: set_op_db_def op_db_def)

lemma set_op_db_twice: "set_op_db d (set_op_db e s) = set_op_db d s"
  by (simp add: set_op_db_def)

lemma validate_plan_rows:
  assumes "same_inputs s s1"
  shows "validate_plan mc now ctx p (pt_op s1) = validate_plan mc now ctx p (pt_op s)"
proof -
  have goals: "goals (pt_db s1) = goals (pt_db s)" using assms by (simp add: same_inputs_def)
  have ctx: "require_context mc now ctx w b (pt_op s1) = require_context mc now ctx w b (pt_op s)" for w b
    using assms require_context_rows [of "pt_db s1" "pt_op s" mc now ctx w b] unfolding same_inputs_def by metis
  have app: "require_task_approval (pt_db s1) t policy = require_task_approval (pt_db s) t policy" for t policy
    using assms by (simp add: same_inputs_def require_task_approval_def approval_granted_def)
  show ?thesis
    unfolding validate_plan_def ctx app goals ..
qed

lemma load_scope_rows: "same_inputs s s1 \<Longrightarrow> load_scope rq (pt_db s1) = load_scope rq (pt_db s)"
  by (simp add: load_scope_def same_inputs_def)

lemma accept_same_inputs:
  assumes "accept_plan env rq ctx c steps g t s = Inr (r, s1)"
  shows "same_inputs s s1"
proof -
  have "same_inputs s s2" if "record_evidence e s = Inr (x, s2)" for e x s2
    using record_evidence_state [OF that] by (simp add: same_inputs_def set_op_db_self)
  moreover have "same_inputs s (planner_checkpoint env rq g t cls d s2)" if "same_inputs s s2" for cls d s2
  proof -
    let ?d = "record_checkpoint (pv_now env) t g (rq_job rq) ''safe_planner''
        [(''classification'', JStr cls), (''planning'', JObj d)] (pt_db s2)"
    have "set_op_db ?d (pt_op s2) = set_op_db ?d (pt_op s)" using that set_op_db_twice unfolding same_inputs_def by metis
    with that show ?thesis by (simp add: same_inputs_def planner_checkpoint_def set_pt_db_def) (simp add: record_checkpoint_def)
  qed
  ultimately show ?thesis using accept_plan_Inr [OF assms] by auto
qed

lemma prior_of_checkpoint:
  assumes "\<forall>c\<in>set (checkpoints (pt_db s)). c_created_at c \<le> pv_now env"
  shows "prior_planning rq t (pt_db (planner_checkpoint env rq g t cls detail s)) = detail"
  using assms by (simp add: prior_planning_def planner_checkpoint_def set_pt_db_def latest_of_new executor_state_def json_dict_def)

lemma accepted_prior:
  assumes "accept_plan env rq ctx c steps g t s = Inr (r, s1)" and "\<forall>x\<in>set (checkpoints (pt_db s)). c_created_at x \<le> pv_now env"
  shows "jget (prior_planning rq t (pt_db s1)) ''source_sha256'' = JStr (source_sha env rq) \<and>
    jget (prior_planning rq t (pt_db s1)) ''candidate_hash'' = JStr (candidate_hash env c)"
proof -
  have db: "pt_db s2 = pt_db s" if "record_evidence e s = Inr (x, s2)" for e x s2
    using record_evidence_state [OF that] by simp
  have "jget (plan_detail env rq c steps p cid refs @ y) ''source_sha256'' = JStr (source_sha env rq)"
    "jget (plan_detail env rq c steps p cid refs @ y) ''candidate_hash'' = JStr (candidate_hash env c)" for p cid refs y
    by (simp_all add: plan_detail_def jget_def)
  with accept_plan_Inr [OF assms(1)] show ?thesis
    using assms(2) by (auto simp: prior_of_checkpoint db)
qed

lemma accept_again:
  assumes "accept_plan env rq ctx c steps g t s = Inr (r, s1)" and "\<forall>x\<in>set (checkpoints (pt_db s)). c_created_at x \<le> pv_now env"
    and "pv_context env s1 = Inr x"
  shows "\<exists>r'. accept_plan env rq ctx c steps g t s1 = Inr (r', s1) \<and> pr_class r' = ''ACCEPTED'' \<and> pr_plan r' = pr_plan r"
proof -
  note acc = accept_plan_Inr [OF assms(1)]
  note same = accept_same_inputs [OF assms(1)]
  obtain b e s2 where b: "find_row (\<lambda>b. sb_id b = oc_strategy ctx \<and> sb_owner b = rq_owner rq) (os_bindings (pt_op s)) = Some b"
    "record_evidence (plan_evidence env rq c steps (plan_of env ctx c steps) b) s = Inr (e, s2)" "pt_evidence s1 = pt_evidence s2"
    using acc by fastforce
  have "os_bindings (set_op_db d o1) = os_bindings o1" for d o1 by (simp add: set_op_db_def)
  then have bindings: "os_bindings (pt_op s1) = os_bindings (pt_op s)" using same unfolding same_inputs_def by metis
  have evidence: "record_evidence (plan_evidence env rq c steps (plan_of env ctx c steps) b) s1 = Inr (e, s1)"
    using record_evidence_state [OF b(2)] b(3) by (auto simp: record_evidence_def)
  have "\<exists>y. assemble_planning_context env rq s1 = Inr y"
    using assms(1,3) by (auto simp: accept_plan_def assemble_planning_context_def Let_def sbind_Inr_iff split: sum.splits if_splits)
  then obtain cid refs where "assemble_planning_context env rq s1 = Inr (cid, refs)" by auto
  moreover obtain y where "validate_plan (pv_machine env) (pv_now env) ctx (plan_of env ctx c steps) (pt_op s1) = Inr y"
    using acc validate_plan_rows [OF same] by auto
  ultimately show ?thesis
    using accepted_prior [OF assms(1,2)] evidence acc b(1)
    by (simp add: accept_plan_def Let_def bindings)
qed

lemma assess_again:
  assumes "plan_founder_request env rq ctx candidate s = Inr y" and "authority_objection rq = None" and "same_inputs s s1"
  shows "assess_authority env rq s1 = Inr (None, s1)"
  using assms load_scope_rows [OF assms(3), of rq]
  by (auto simp: plan_founder_request_def assess_authority_def sbind_Inr_iff split: if_splits)

lemma validate_again:
  assumes "validate_candidate env rq ctx c s = Inr (r, s1)" and "authority_objection rq = None"
    and "load_scope rq (pt_db s) = Inr (g, t, j)" and "ordered_steps c = Inr steps" and "same_inputs s s2"
    and "pr_class r = ''ACCEPTED''"
  shows "validate_candidate env rq ctx c s2 = accept_plan env rq ctx c steps g t s2"
proof -
  have scope: "load_scope rq (pt_db s2) = Inr (g, t, j)" using load_scope_rows [OF assms(5)] assms(3) by simp
  have app: "require_task_approval (pt_db s2) t policy = require_task_approval (pt_db s) t policy" for policy
    using assms(5) by (simp add: same_inputs_def require_task_approval_def approval_granted_def)
  have len: "\<not> (strip_chars is_space (rq_instruction rq) = [] \<or> max_instruction_chars < py_len (rq_instruction rq))"
    using assms(1) by (auto simp: validate_candidate_def assess_authority_def sbind_Inr_iff split: if_splits)
  have a: "assess_authority env rq s = Inr (None, s)" "assess_authority env rq s2 = Inr (None, s2)"
    using len assms(2,3) scope by (simp_all add: assess_authority_def)
  show ?thesis
    using assms(1,3,4) scope a app
    by (auto simp: validate_candidate_def sbind_Inr_iff split: if_splits sum.splits)
qed


section \<open>The statements at work\<close>

definition sample_step :: candidate_step where
  "sample_step =
     recipe_step ''edit'' ''why'' ''what'' ''patch_file'' (edit_arguments ''src/a.py'' ''new'' (Some ''old'')) [] ''LOCAL_WRITE'' False"

definition sample_candidate :: plan_candidate where
  "sample_candidate = recipe ''edit a file'' ''edited'' ''as asked'' [] [] [] [sample_step]"

definition sample_request :: planning_request where
  "sample_request =
     \<lparr>rq_owner = 7, rq_goal = 20, rq_task = 1, rq_job = 5, rq_instruction = ''do it'', rq_kind = ''authorized_goal'',
      rq_basis = ''manual'', rq_source = ''goal'', rq_outcome = ''done'', rq_constraints = [], rq_prohibitions = [],
      rq_superseded = False, rq_ambiguities = [], rq_contradictions = [], rq_resolutions = [], rq_repository = None,
      rq_max_members = 30, rq_max_steps = 20, rq_max_alternatives = 3, rq_max_elapsed = 60,
      rq_max_attempts = 1\<rparr>"

lemma sample_request_fields [simp]:
  "rq_owner sample_request = 7" "rq_task sample_request = 1" "rq_job sample_request = 5" "rq_max_elapsed sample_request = 60"
  "rq_instruction sample_request = ''do it''" "rq_max_members sample_request = 30"
  by (simp_all add: sample_request_def)

definition plan_sample_env :: planner_env where
  "plan_sample_env =
     \<lparr>pv_machine = op_sample_machine, pv_dumps = (\<lambda>_. ''h''), pv_context = (\<lambda>_. Inr (40, [])), pv_now = 3, pv_elapsed = 0,
      pv_evidence_id = 41\<rparr>"

definition plan_sample :: plan_state where
  "plan_sample = \<lparr>pt_op = op_sample, pt_evidence = []\<rparr>"

lemma sample_scope: "load_scope sample_request (pt_db plan_sample) =
    Inr (sample_goal\<lparr>g_approval_policy := ''autonomous_development_work''\<rparr>, drv_sample_task, dead_sample_job)"
  by (simp add: load_scope_def sample_request_def plan_sample_def op_sample_def op_sample_leases_def op_db_def dead_sample_db_def
      dead_sample_job_def dispatch_job_def new_job_def sample_goal_def drv_sample_task_def sample_task_def)

lemma sample_words: "\<not> says forbidden_words ''do it''" "\<not> says unbounded_words ''do it''"
  "\<not> says forbidden_words ''edit a file''" "\<not> says forbidden_words ''as asked''"
  by code_simp+

lemma sample_assessed: "assess_authority plan_sample_env sample_request plan_sample = Inr (None, plan_sample)"
proof -
  have "authority_objection sample_request = None"
    by (simp add: authority_objection_def sample_request_def non_authoritative_kinds_def authorized_kinds_def unresolved_def sample_words)
  moreover have "strip_chars is_space (rq_instruction sample_request) \<noteq> []" "py_len (rq_instruction sample_request) = 5"
    by (simp_all add: sample_request_def strip_chars_def is_space_def py_len_def continuation_def)
  ultimately show ?thesis by (simp add: assess_authority_def sample_scope max_instruction_chars_def)
qed

lemma sample_ordered: "ordered_steps sample_candidate = Inr [sample_step]"
  by (simp add: ordered_steps_def sample_candidate_def recipe_def sample_step_def recipe_step_def Let_def strip_chars_def is_space_def
      order_from.simps ready_steps_def)

lemma sample_step_valid: "validate_step op_sample_machine op_sample_ctx sample_step = Inr ()"
proof -
  have "redact_value op_sample_machine v = v" for v
    by (induction op_sample_machine v rule: redact_value.induct) (simp_all add: op_sample_machine_def map_idI)
  moreover have "\<exists>r. guard_path op_sample_machine op_sample_ctx False ''src/a.py'' = Inr r"
    by (simp add: guard_path_def op_sample_ctx_def op_sample_machine_def path_parts_def lowered_parts_def lower_char_def
        sensitive_parts_def path_within_authorized_def within_path_def path_root_def is_absolute_def)
  ultimately show ?thesis
    by (auto simp: validate_step_def sample_step_def recipe_step_def edit_arguments_def expected_hash_def driver_directives_def
        forbidden_capabilities_def development_capabilities_def raw_argument_keys_def risk_of_value_def validate_argument_def
        path_keys_def validate_path_value_def ensure_def)
qed

abbreviation sample_plan :: development_plan where
  "sample_plan \<equiv> plan_of plan_sample_env op_sample_ctx sample_candidate [sample_step]"

lemma sample_plan_validates:
  "validate_plan op_sample_machine 3 op_sample_ctx sample_plan op_sample =
     Inr (drv_sample_task, sample_goal\<lparr>g_approval_policy := ''autonomous_development_work''\<rparr>)"
proof -
  have app: "require_task_approval d drv_sample_task ''autonomous_development_work'' = Inr ()" for d
    by (simp add: require_task_approval_def requires_approval_def approval_policies_def)
  have hash: "candidate_hash plan_sample_env sample_candidate = ''h''"
    by (simp add: candidate_hash_def plan_sample_env_def op_sample_machine_def)
  have steps: "check_step (driver_step_of sample_step) = Inr ()"
    by (simp add: driver_step_of_def sample_step_def recipe_step_def edit_arguments_def check_step_def strip_chars_def is_space_def
        forbidden_capabilities_def driver_directives_def development_capabilities_def risk_of_value_def ensure_def)
  have p: "pn_id sample_plan = ''safe-h''" "pn_steps sample_plan = [driver_step_of sample_step]"
    "pn_strategy sample_plan = 30" "pn_max_failures sample_plan = 2" "dp_risk (driver_step_of sample_step) = ''LOCAL_WRITE''"
    by (simp_all add: plan_of_def hash drv_plan_facts continuation_def driver_step_of_def sample_step_def recipe_step_def)
  have goals: "goals (op_db op_sample) = [sample_goal\<lparr>g_approval_policy := ''autonomous_development_work''\<rparr>]"
    by (simp add: op_sample_def op_sample_leases_def op_db_def dead_sample_db_def)
  have "strip_chars is_space ''safe-h'' \<noteq> [] \<and> \<not> 128 < py_len ''safe-h''"
    by (simp add: strip_chars_def is_space_def py_len_def continuation_def)
  moreover have "require_context op_sample_machine 3 op_sample_ctx True False op_sample =
      Inr (drv_sample_task, dead_sample_job, \<lparr>sb_id = 30, sb_owner = 7, sb_execution = 31, sb_next = 1\<rparr>, None)"
    using op_sample_context [of False] unfolding drv_sample_task_def .
  ultimately show ?thesis
    unfolding validate_plan_def p goals
    by (simp add: p drv_plan_facts app steps sample_goal_def)
qed

lemma sample_planned:
  "\<exists>r s1. plan_founder_request plan_sample_env sample_request op_sample_ctx (Some sample_candidate) plan_sample = Inr (r, s1) \<and>
     pr_class r = ''ACCEPTED''"
proof -
  have app: "require_task_approval d drv_sample_task ''autonomous_development_work'' = Inr ()" for d
    by (simp add: require_task_approval_def requires_approval_def approval_policies_def)
  have env: "pv_machine plan_sample_env = op_sample_machine" "pv_now plan_sample_env = 3" "pv_context plan_sample_env s = Inr (40, [])"
    for s by (simp_all add: plan_sample_env_def)
  have op: "pt_op plan_sample = op_sample" by (simp add: plan_sample_def)
  have elapsed: "pv_elapsed plan_sample_env = 0" by (simp add: plan_sample_env_def)
  have "prior_planning sample_request drv_sample_task (op_db op_sample) = []"
    by (simp add: prior_planning_def latest_checkpoint_for_step_def op_sample_def op_sample_leases_def op_db_def dead_sample_db_def
        empty_db_def)
  moreover have "find_row (\<lambda>b. sb_id b = oc_strategy op_sample_ctx \<and> sb_owner b = rq_owner sample_request) (os_bindings op_sample) =
      Some \<lparr>sb_id = 30, sb_owner = 7, sb_execution = 31, sb_next = 1\<rparr>"
    by (simp add: drv_plan_facts sample_request_def op_sample_def)
  ultimately obtain r s1 where acc: "accept_plan plan_sample_env sample_request op_sample_ctx sample_candidate [sample_step]
      (sample_goal\<lparr>g_approval_policy := ''autonomous_development_work''\<rparr>) drv_sample_task plan_sample = Inr (r, s1) \<and>
      pr_class r = ''ACCEPTED''"
    by (simp add: accept_plan_def Let_def env op sample_plan_validates assemble_planning_context_def record_evidence_def plan_sample_def
        jget_def)
  have "same_repository plan_sample_env sample_request op_sample_ctx = Inr ()"
    by (simp add: same_repository_def sample_request_def)
  moreover have "candidate_bounds sample_request sample_candidate = Inr ()"
    by (simp add: candidate_bounds_def sample_request_def sample_candidate_def recipe_def sample_words ensure_def)
  ultimately have "validate_candidate plan_sample_env sample_request op_sample_ctx sample_candidate plan_sample = Inr (r, s1)"
    using acc
    by (simp add: validate_candidate_def sample_scope sample_assessed sample_ordered env sample_step_valid app drv_plan_facts elapsed)
  then show ?thesis
    using acc sample_words by (simp add: plan_founder_request_def sample_assessed)
qed

theorem accepted_plan_is_checked_witness:
  "\<exists>p :: development_plan. (\<forall>st\<in>set (pn_steps p). checked_step op_sample_machine op_sample_ctx st) \<and> 1 \<le> length (pn_steps p)"
proof -
  obtain r s1 where "plan_founder_request plan_sample_env sample_request op_sample_ctx (Some sample_candidate) plan_sample = Inr (r, s1)"
    "pr_class r = ''ACCEPTED''" using sample_planned by blast
  from accepted_plan_is_checked [OF this] show ?thesis
  proof (elim exE conjE)
    fix p :: development_plan
    assume "\<forall>st\<in>set (pn_steps p). checked_step (pv_machine plan_sample_env) op_sample_ctx st" "1 \<le> length (pn_steps p)"
    then show ?thesis by (intro exI [of _ p]) (simp add: plan_sample_env_def)
  qed
qed


theorem stored_candidate_reads_back_witness:
  "parse_candidate \<lparr>loads = (\<lambda>_. None), py_str = (\<lambda>v. case v of JStr w \<Rightarrow> w | _ \<Rightarrow> []), py_int = (\<lambda>_. None)\<rparr>
     (candidate_json subtract_candidate) = Inr subtract_candidate"
  by (rule stored_candidate_reads_back) simp

end
