(* ===== verification/ProviderPlanning.thy ===== *)
theory ProviderPlanning
  imports SafePlanner Egress
begin

text \<open>
  Planning with the help of a provider, \<open>app/provider_planning/service.py\<close>: the bounded and redacted request, the
  spend hold and the egress gate before the call, the one call, its settlement, the strict reading of the answer,
  and the planner's verdict on the candidate. The adapter that talks to the provider is a function of the payload;
  \<open>px_calls\<close> is what has left the process, which no rollback takes back. The governance records of
  \<open>_record_participation\<close> are the parameter \<open>pp_participation\<close>.
\<close>

section \<open>Requests and answers\<close>

record planning_limits =
  pm_max_candidates :: int
  pm_max_payload :: nat
  pm_max_output :: nat
  pm_timeout :: int

record provider_response =
  rs_content :: string
  rs_provider :: string
  rs_model :: string
  rs_version :: "string option"
  rs_usage :: jdict

text \<open>What an attempt at the provider gives: an answer, or a failure that left the process or provably did not.\<close>

datatype propose_outcome = Proposed provider_response | ProposeFailed bool string string

record planning_adapter =
  ad_provider :: "string option"
  ad_default_provider :: "string option"
  ad_model :: "string option"
  ad_default_model :: "string option"
  ad_propose :: "json \<Rightarrow> propose_outcome"

record candidate_component =
  cc_id :: string
  cc_kind :: string
  cc_content :: string
  cc_disposition :: string
  cc_reason :: json

record candidate_envelope =
  cv_candidate :: "plan_candidate option"
  cv_clarification :: bool
  cv_question :: "string option"
  cv_gaps :: "string list"
  cv_components :: "candidate_component list"
  cv_confidence :: json

record provider_state =
  px_plan :: plan_state
  px_grants :: "spend_grant list"
  px_usage :: "usage_event list"
  px_disclosures :: "disclosure list"
  px_calls :: "(string \<times> string \<times> string \<times> json) list"

record provider_env =
  pp_planner :: planner_env
  pp_py :: py_conv
  pp_registry :: "string option \<Rightarrow> string option \<Rightarrow> json \<Rightarrow> propose_outcome"
  pp_usage_id :: uuid
  pp_others :: "spend_db \<Rightarrow> spend_db"
  pp_latency :: int
  pp_participation ::
    "provider_response \<Rightarrow> candidate_envelope \<Rightarrow> string \<Rightarrow> json \<Rightarrow> string \<Rightarrow> plan_state \<Rightarrow>
     planner_error + (jdict \<times> plan_state)"

datatype provider_error =
    PvPlanner planner_error
  | PvSpend spend_error
  | PvEgress egress_error
  | PvRefused string
  | PvRaised string

abbreviation pp_machine :: "provider_env \<Rightarrow> machine" where "pp_machine env \<equiv> pv_machine (pp_planner env)"

abbreviation pp_dumps :: "provider_env \<Rightarrow> json \<Rightarrow> string" where "pp_dumps env \<equiv> pv_dumps (pp_planner env)"

abbreviation pp_now :: "provider_env \<Rightarrow> time" where "pp_now env \<equiv> pv_now (pp_planner env)"

abbreviation px_db :: "provider_state \<Rightarrow> db" where "px_db s \<equiv> pt_db (px_plan s)"

definition set_px_db :: "db \<Rightarrow> provider_state \<Rightarrow> provider_state" where
  "set_px_db d s = s\<lparr>px_plan := set_pt_db d (px_plan s)\<rparr>"

text \<open>The spending tables lie over the same authority and database.\<close>

definition spending :: "provider_state \<Rightarrow> spend_db" where
  "spending s =
     \<lparr>sd_grants = px_grants s, sd_usage = px_usage s, sd_authority = ld_authority (os_leases (pt_op (px_plan s)))\<rparr>"

definition with_spending :: "spend_db \<Rightarrow> provider_state \<Rightarrow> provider_state" where
  "with_spending sp s =
     s\<lparr>px_grants := sd_grants sp, px_usage := sd_usage sp,
       px_plan := (px_plan s)\<lparr>pt_op := (pt_op (px_plan s))\<lparr>os_leases := (os_leases (pt_op (px_plan s)))\<lparr>ld_authority := sd_authority sp\<rparr>\<rparr>\<rparr>\<rparr>"

section \<open>The request\<close>

text \<open>\<open>path.split("/")\<close> keeps empty parts, which no pattern matches.\<close>

fun split_slash :: "string \<Rightarrow> string list" where
  "split_slash [] = [[]]"
| "split_slash (c # cs) =
     (if c = CHR ''/'' then [] # split_slash cs
      else case split_slash cs of [] \<Rightarrow> [[c]] | w # ws \<Rightarrow> (c # w) # ws)"

definition sensitive_scope :: "string \<Rightarrow> bool" where
  "sensitive_scope p =
     list_ex (\<lambda>w. map lower_char w \<in> sensitive_parts \<or> prefix ''.env'' (map lower_char w)) (split_slash p)"

definition redact_text :: "machine \<Rightarrow> string \<Rightarrow> json" where
  "redact_text mc w = JStr (mc_redact mc w)"

definition safe_provider_prompt :: "machine \<Rightarrow> planning_request \<Rightarrow> json list \<Rightarrow> jdict" where
  "safe_provider_prompt mc rq refs =
     (let text = mc_redact mc (rq_instruction rq)
      in [(''instruction'',
             JStr (if text \<noteq> rq_instruction rq then ''[FOUNDER INSTRUCTION CONTAINS REDACTED SENSITIVE MATERIAL]'' else text)),
          (''source_ref'', redact_text mc (rq_source rq)),
          (''context_references'', redact_value mc (JArr (take (nat (rq_max_members rq)) refs))),
          (''capabilities'', text_array (sort (map fst development_capabilities))),
          (''forbidden'', text_array [''raw_shell'', ''merge'', ''deploy'', ''force_push'', ''production_mutation'']),
          (''required_output'', JStr ''strict PlanCandidate JSON''),
          (''limits'',
             JObj [(''max_steps'', JInt (int (rq_max_steps rq))), (''max_alternatives'', JInt (int (rq_max_alternatives rq)))])])"

definition envelope_schema :: json where
  "envelope_schema =
     JObj [(''candidate'', JStr ''Safe Planner PlanCandidate object or null''), (''clarification_required'', JStr ''boolean''),
           (''clarification_question'', JStr ''string or null''), (''capability_gaps'', JStr ''array of capability names''),
           (''useful_components'', JStr ''array of {component_id, kind, content, disposition, reason}''),
           (''confidence'', JStr ''number 0..1 or null; never authority'')]"

definition provider_reason :: string where
  "provider_reason = ''No registered deterministic recipe safely decomposes this request.''"

definition provider_payload ::
  "provider_env \<Rightarrow> planning_request \<Rightarrow> operator_context \<Rightarrow> planning_limits \<Rightarrow> json list \<Rightarrow> string \<Rightarrow> json" where
  "provider_payload env rq ctx lim refs root =
     (let mc = pp_machine env
      in JObj (safe_provider_prompt mc rq refs @
           [(''authority_kind'', JStr (rq_kind rq)), (''requested_outcome'', redact_text mc (rq_outcome rq)),
            (''constraints'', redact_value mc (text_array (rq_constraints rq))),
            (''prohibitions'', redact_value mc (text_array (rq_prohibitions rq))),
            (''repository_scope'',
               JObj [(''identity'', JStr (mc_sha mc root)), (''allowed_paths'', text_array (oc_paths ctx)),
                     (''expected_branch'', JStr (oc_branch ctx)), (''expected_base_sha'', JStr (oc_base ctx))]),
            (''candidate_envelope_schema'', envelope_schema), (''provider_reason'', JStr provider_reason),
            (''max_candidates'', JInt (pm_max_candidates lim))]))"

definition build_provider_request ::
  "provider_env \<Rightarrow> planning_request \<Rightarrow> operator_context \<Rightarrow> planning_limits \<Rightarrow> plan_state \<Rightarrow> provider_error + (uuid \<times> json)" where
  "build_provider_request env rq ctx lim s =
     (if \<not> (1 \<le> rq_max_attempts rq \<and> rq_max_attempts rq \<le> 3) then Inl (PvRefused ''provider-attempt bound is invalid'')
      else if \<not> (1 \<le> pm_max_candidates lim \<and> pm_max_candidates lim \<le> 5)
      then Inl (PvRefused ''candidate-count bound is invalid'')
      else if list_ex sensitive_scope (oc_paths ctx)
      then Inl (PvRefused ''sensitive credential paths cannot enter provider planning scope'')
      else case assemble_planning_context (pp_planner env) rq s of
             Inl e \<Rightarrow> Inl (PvPlanner e)
           | Inr (cid, refs) \<Rightarrow>
               (case resolved (pp_machine env) (oc_root ctx) of
                  Inl e \<Rightarrow> Inl (PvPlanner (PlanOperator e))
                | Inr root \<Rightarrow>
                    let payload = redact_value (pp_machine env) (provider_payload env rq ctx lim refs (path_str root))
                    in if pm_max_payload lim < length (pp_dumps env payload)
                       then Inl (PvRefused ''provider planning payload exceeds byte bound'')
                       else Inr (cid, payload)))"

definition json_opt :: "string option \<Rightarrow> json" where
  "json_opt v = (case v of None \<Rightarrow> JNull | Some w \<Rightarrow> JStr w)"

definition request_hash ::
  "provider_env \<Rightarrow> planning_request \<Rightarrow> json \<Rightarrow> string option \<Rightarrow> string option \<Rightarrow> string" where
  "request_hash env rq payload provider model =
     mc_sha (pp_machine env) (pp_dumps env
       (JObj [(''task_id'', JStr (uuid_str (rq_task rq))), (''source_sha256'', JStr (source_sha (pp_planner env) rq)),
              (''payload'', payload), (''provider_hint'', json_opt provider), (''model_hint'', json_opt model)]))"

section \<open>Reading the answer\<close>

definition invalid :: "string \<Rightarrow> provider_error + 'a" where
  "invalid why = Inl (PvPlanner (CandidateInvalid why))"

definition strict_strings :: "json \<Rightarrow> provider_error + string list" where
  "strict_strings v =
     (case v of
        JArr xs \<Rightarrow>
          if length xs \<le> 50 \<and> list_all (\<lambda>x. json_str x \<noteq> None) xs then Inr (map (\<lambda>x. the (json_str x)) xs)
          else invalid ''must be a bounded string array''
      | _ \<Rightarrow> invalid ''must be a bounded string array'')"

definition component_dispositions :: "string set" where
  "component_dispositions = {''accepted'', ''rejected'', ''deferred'', ''unknown''}"

definition component_ok :: "string list \<Rightarrow> candidate_component \<Rightarrow> bool" where
  "component_ok seen c \<longleftrightarrow>
     strip_chars is_space (cc_id c) \<noteq> [] \<and> cc_id c \<notin> set seen \<and> strip_chars is_space (cc_kind c) \<noteq> [] \<and>
     cc_disposition c \<in> component_dispositions \<and>
     (cc_disposition c \<in> {''accepted'', ''rejected''} \<longrightarrow> truthy (cc_reason c)) \<and> py_len (cc_content c) \<le> 2000"

definition parse_component :: "py_conv \<Rightarrow> string list \<Rightarrow> json \<Rightarrow> provider_error + candidate_component" where
  "parse_component py seen raw =
     (case raw of
        JObj d \<Rightarrow>
          if \<not> list_all (\<lambda>x. fst x \<in> {''component_id'', ''kind'', ''content'', ''disposition'', ''reason''}) d
          then invalid ''provider component is malformed''
          else (case (map_of d ''component_id'', map_of d ''kind'', map_of d ''content'') of
                  (Some i, Some k, Some c) \<Rightarrow>
                    let x = \<lparr>cc_id = py_str py i, cc_kind = py_str py k, cc_content = py_str py c,
                          cc_disposition = py_str py (get_default d ''disposition'' (JStr ''unknown'')),
                          cc_reason = jget d ''reason''\<rparr>
                    in if component_ok seen x then Inr x else invalid ''provider component identity/content is invalid''
                | _ \<Rightarrow> invalid ''provider component lacks required field'')
      | _ \<Rightarrow> invalid ''provider component is malformed'')"

fun parse_components :: "py_conv \<Rightarrow> string list \<Rightarrow> json list \<Rightarrow> provider_error + candidate_component list" where
  "parse_components py seen [] = Inr []"
| "parse_components py seen (x # xs) =
     sbind (parse_component py seen x) (\<lambda>c.
     sbind (parse_components py (cc_id c # seen) xs) (\<lambda>cs. Inr (c # cs)))"

definition is_bool :: "json \<Rightarrow> bool" where
  "is_bool v = (case v of JBool _ \<Rightarrow> True | _ \<Rightarrow> False)"

definition provider_step_ok :: "json \<Rightarrow> provider_error + unit" where
  "provider_step_ok v =
     (case v of
        JObj d \<Rightarrow>
          if (case get_default d ''arguments'' (JObj []) of JObj _ \<Rightarrow> False | _ \<Rightarrow> True)
          then invalid ''provider candidate step is malformed''
          else if list_ex (\<lambda>k. map_of d k \<noteq> None \<and> \<not> is_bool (jget d k)) [''verification_required'', ''independent_of_provider'']
          then invalid ''must be boolean''
          else Inr ()
      | _ \<Rightarrow> invalid ''provider candidate step is malformed'')"

text \<open>A candidate that is no object is refused; steps that cannot be iterated raise, which nothing catches.\<close>

definition parse_provider_candidate :: "py_conv \<Rightarrow> json \<Rightarrow> provider_error + plan_candidate option" where
  "parse_provider_candidate py v =
     (case v of
        JNull \<Rightarrow> Inr None
      | JObj d \<Rightarrow>
          (case json_iter (get_default d ''steps'' (JArr [])) of
             None \<Rightarrow> Inl (PvRaised ''TypeError'')
           | Some steps \<Rightarrow>
               sbind (each provider_step_ok steps) (\<lambda>_.
               case parse_candidate py v of Inl e \<Rightarrow> Inl (PvPlanner e) | Inr c \<Rightarrow> Inr (Some c)))
      | _ \<Rightarrow> invalid ''candidate must be an object'')"

definition envelope_fields :: "string list" where
  "envelope_fields =
     [''candidate'', ''clarification_required'', ''clarification_question'', ''capability_gaps'', ''useful_components'',
      ''confidence'']"

definition question_ok :: "json \<Rightarrow> bool" where
  "question_ok v = (case v of JNull \<Rightarrow> True | JStr w \<Rightarrow> py_len w \<le> 1000 | _ \<Rightarrow> False)"

text \<open>JSON values of the model have no fractions, so a confidence is absent, zero or one.\<close>

definition confidence_ok :: "json \<Rightarrow> bool" where
  "confidence_ok v \<longleftrightarrow> v \<in> {JNull, JInt 0, JInt 1}"

definition parse_provider_envelope ::
  "provider_env \<Rightarrow> string \<Rightarrow> nat \<Rightarrow> provider_error + candidate_envelope" where
  "parse_provider_envelope env content max_output =
     (let py = pp_py env
      in if max_output < length content then invalid ''provider output is missing or exceeds byte bound''
         else case loads py content of
                None \<Rightarrow> invalid ''provider output is not valid JSON''
              | Some (JObj d) \<Rightarrow>
                  if \<not> list_all (\<lambda>x. fst x \<in> set envelope_fields) d then invalid ''provider envelope has unknown shape''
                  else if \<not> is_bool (get_default d ''clarification_required'' (JBool False))
                  then invalid ''clarification_required must be boolean''
                  else if \<not> question_ok (jget d ''clarification_question'') then invalid ''clarification question is malformed''
                  else if \<not> confidence_ok (jget d ''confidence'') then invalid ''confidence must be between zero and one''
                  else
                    sbind (strict_strings (get_default d ''capability_gaps'' (JArr []))) (\<lambda>gaps.
                    sbind (case get_default d ''useful_components'' (JArr []) of
                             JArr xs \<Rightarrow> if length xs \<le> 20 then parse_components py [] xs
                                        else invalid ''useful_components exceeds bounds''
                           | _ \<Rightarrow> invalid ''useful_components exceeds bounds'') (\<lambda>components.
                    sbind (parse_provider_candidate py (jget d ''candidate'')) (\<lambda>candidate.
                    if (case candidate of
                          None \<Rightarrow> False
                        | Some c \<Rightarrow> redact_value (pp_machine env) (candidate_json c) \<noteq> candidate_json c)
                    then invalid ''provider candidate contains secret-like material''
                    else if \<not> truthy (jget d ''clarification_required'') \<and> candidate = None \<and> gaps = []
                    then invalid ''provider envelope contains no actionable result''
                    else Inr \<lparr>cv_candidate = candidate, cv_clarification = truthy (jget d ''clarification_required''),
                              cv_question = json_str (jget d ''clarification_question''), cv_gaps = gaps,
                              cv_components = components, cv_confidence = jget d ''confidence''\<rparr>)))
              | Some _ \<Rightarrow> invalid ''provider envelope has unknown shape'')"

section \<open>Checkpoints and keys\<close>

text \<open>\<open>_checkpoint\<close>: both rows must exist.\<close>

definition provider_checkpoint ::
  "provider_env \<Rightarrow> planning_request \<Rightarrow> string \<Rightarrow> jdict \<Rightarrow> provider_state \<Rightarrow> provider_error + provider_state" where
  "provider_checkpoint env rq cls detail s =
     (case (find_row (\<lambda>g. g_id g = rq_goal rq \<and> g_owner g = rq_owner rq) (goals (px_db s)),
            find_row (\<lambda>t. t_id t = rq_task rq \<and> t_owner t = rq_owner rq) (tasks (px_db s))) of
        (Some g, Some t) \<Rightarrow>
          Inr (set_px_db (record_checkpoint (pp_now env) t g (rq_job rq) ''provider_planning''
                 [(''classification'', JStr cls), (''provider_planning'', JObj detail)] (px_db s)) s)
      | _ \<Rightarrow> Inl (PvRaised ''NoResultFound''))"

definition usage_keyed :: "uuid \<Rightarrow> string \<Rightarrow> provider_state \<Rightarrow> usage_event option" where
  "usage_keyed owner ref s = find_row (keyed_usage owner ref) (px_usage s)"

definition free_or_held :: "uuid \<Rightarrow> provider_state \<Rightarrow> string \<Rightarrow> bool" where
  "free_or_held owner s ref \<longleftrightarrow>
     (case usage_keyed owner ref s of None \<Rightarrow> True | Some e \<Rightarrow> ue_status e = UsageReserved)"

definition allocate_spend_source_ref :: "uuid \<Rightarrow> string \<Rightarrow> provider_state \<Rightarrow> provider_error + string" where
  "allocate_spend_source_ref owner base_ref s =
     (if free_or_held owner s base_ref then Inr base_ref
      else from_option (PvSpend (SpendRefused ''exhausted provider spend source_ref attempt space for this request''))
             (find (free_or_held owner s) (map (\<lambda>n. base_ref @ '':a'' @ nat_str n) [1..<1000])))"

section \<open>After the call\<close>

type_synonym planning_outcome = "(provider_error + planning_result) \<times> provider_state"

definition stop_planning ::
  "provider_env \<Rightarrow> planning_request \<Rightarrow> uuid \<Rightarrow> string \<Rightarrow> jdict \<Rightarrow> provider_state \<Rightarrow> planning_outcome" where
  "stop_planning env rq cid cls detail s =
     (case provider_checkpoint env rq cls detail s of
        Inl e \<Rightarrow> (Inl e, s)
      | Inr s1 \<Rightarrow> (Inr \<lparr>pr_class = cls, pr_detail = detail, pr_plan = None, pr_context = Some cid\<rparr>, s1))"

definition planner_says ::
  "provider_env \<Rightarrow> planning_request \<Rightarrow> operator_context \<Rightarrow> plan_candidate option \<Rightarrow> provider_state \<Rightarrow> planning_outcome" where
  "planner_says env rq ctx candidate s =
     (case plan_founder_request (pp_planner env) rq ctx candidate (px_plan s) of
        Inl e \<Rightarrow> (Inl (PvPlanner e), s)
      | Inr (r, p) \<Rightarrow> (Inr r, s\<lparr>px_plan := p\<rparr>))"

definition unsafe_text :: "string \<Rightarrow> bool" where
  "unsafe_text w = list_ex (\<lambda>m. sublist m w) [''forbidden'', ''raw command'', ''secret'', ''remote-write'']"

text \<open>Disposition, reason and, where the planner was asked, its result.\<close>

definition provider_verdict ::
  "provider_env \<Rightarrow> planning_request \<Rightarrow> operator_context \<Rightarrow> candidate_envelope \<Rightarrow> plan_state \<Rightarrow>
   planner_error + (string \<times> json \<times> planning_result option \<times> plan_state)" where
  "provider_verdict env rq ctx cv s =
     (if cv_clarification cv
      then Inr (''NEEDS_CLARIFICATION'',
                JStr (case cv_question cv of
                        Some w \<Rightarrow> if w = [] then ''provider identified unresolved ambiguity'' else w
                      | None \<Rightarrow> ''provider identified unresolved ambiguity''), None, s)
      else if cv_gaps cv \<noteq> [] \<and> cv_candidate cv = None
      then Inr (''CAPABILITY_MISSING'', JStr (''provider identified unavailable capability: '' @ hd (cv_gaps cv)), None, s)
      else case plan_founder_request (pp_planner env) rq ctx (cv_candidate cv) s of
             Inr (r, s1) \<Rightarrow>
               Inr (pr_class r, get_default (pr_detail r) ''reason'' (JStr ''deterministic validation completed''), Some r, s1)
           | Inl (CandidateInvalid why) \<Rightarrow>
               Inr (if unsafe_text why then ''REJECTED_UNSAFE'' else ''REJECTED_UNSUPPORTED'', JStr why, None, s)
           | Inl e \<Rightarrow> Inl e)"

definition attributed :: "provider_response \<Rightarrow> candidate_envelope \<Rightarrow> candidate_envelope" where
  "attributed resp cv =
     cv\<lparr>cv_candidate := map_option (\<lambda>c. c\<lparr>pc_provider := JStr (rs_provider resp), pc_model := JStr (rs_model resp),
          pc_model_version := json_opt (rs_version resp), pc_provider_role := JStr ''planning_specialist''\<rparr>) (cv_candidate cv)\<rparr>"

definition candidate_payload :: "plan_candidate option \<Rightarrow> json" where
  "candidate_payload c = (case c of None \<Rightarrow> JNull | Some x \<Rightarrow> candidate_json x)"

definition judge_response ::
  "provider_env \<Rightarrow> planning_request \<Rightarrow> operator_context \<Rightarrow> planning_limits \<Rightarrow> uuid \<Rightarrow> string \<Rightarrow> provider_response \<Rightarrow>
   provider_state \<Rightarrow> planning_outcome" where
  "judge_response env rq ctx lim cid hash resp s =
     (case parse_provider_envelope env (rs_content resp) (pm_max_output lim) of
        Inl (PvPlanner (CandidateInvalid why)) \<Rightarrow>
          stop_planning env rq cid ''PROVIDER_FAILED''
            [(''request_hash'', JStr hash), (''disposition'', JStr ''PROVIDER_FAILED''), (''reason'', JStr why),
             (''provider'', JStr (rs_provider resp)), (''model'', JStr (rs_model resp)),
             (''response_sha256'', JStr (mc_sha (pp_machine env) (rs_content resp)))] s
      | Inl e \<Rightarrow> (Inl e, s)
      | Inr cv0 \<Rightarrow>
          let cv = attributed resp cv0
          in case provider_verdict env rq ctx cv (px_plan s) of
               Inl e \<Rightarrow> (Inl (PvPlanner e), s)
             | Inr (disposition, reason, result, p1) \<Rightarrow>
                 (case pp_participation env resp cv disposition reason hash p1 of
                    Inl e \<Rightarrow> (Inl (PvPlanner e), s)
                  | Inr (ids, p2) \<Rightarrow>
                      let detail = [(''request_hash'', JStr hash), (''disposition'', JStr disposition), (''reason'', reason),
                            (''provider'', JStr (rs_provider resp)), (''model'', JStr (rs_model resp)),
                            (''model_version'', json_opt (rs_version resp)), (''confidence'', cv_confidence cv),
                            (''candidate'', candidate_payload (cv_candidate cv)), (''capability_gaps'', text_array (cv_gaps cv))] @
                            ids @ [(''latency_ms'', JInt (pp_latency env)), (''context_set_id'', JStr (uuid_str cid))]
                      in case provider_checkpoint env rq disposition detail (s\<lparr>px_plan := p2\<rparr>) of
                           Inl e \<Rightarrow> (Inl e, s)
                         | Inr s1 \<Rightarrow>
                             (Inr (case result of
                                     Some r \<Rightarrow> r\<lparr>pr_detail := dict_put ''provider_planning'' (JObj detail) (pr_detail r)\<rparr>
                                   | None \<Rightarrow> \<lparr>pr_class = disposition, pr_detail = detail, pr_plan = None, pr_context = Some cid\<rparr>),
                              s1)))"

section \<open>The call\<close>

definition usage_tokens :: "py_conv \<Rightarrow> jdict \<Rightarrow> string \<Rightarrow> int option" where
  "usage_tokens py usage k = (let v = jget usage k in if truthy v then py_int py v else Some 0)"

definition spend_evidence :: "string \<Rightarrow> string \<Rightarrow> jdict" where
  "spend_evidence hash phase = [(''request_hash'', JStr hash), (''phase'', JStr phase)]"

definition hints :: "string option \<Rightarrow> string option \<Rightarrow> uuid \<Rightarrow> jdict" where
  "hints provider model cid =
     [(''provider_hint'', json_opt provider), (''model_hint'', json_opt model), (''context_set_id'', JStr (uuid_str cid)),
      (''unrelated_deterministic_work_preserved'', JBool True)]"

text \<open>The answer is paid for before it is looked at.\<close>

definition settle_response ::
  "provider_env \<Rightarrow> planning_request \<Rightarrow> operator_context \<Rightarrow> planning_limits \<Rightarrow> uuid \<Rightarrow> string \<Rightarrow> string \<Rightarrow>
   provider_response \<Rightarrow> provider_state \<Rightarrow> planning_outcome" where
  "settle_response env rq ctx lim cid hash ref resp s =
     (case (usage_tokens (pp_py env) (rs_usage resp) ''prompt_tokens'',
            usage_tokens (pp_py env) (rs_usage resp) ''completion_tokens'') of
        (Some prompt, Some completion) \<Rightarrow>
          let cost = (case estimate_cost (rs_provider resp) (rs_model resp) prompt completion of None \<Rightarrow> 0 | Some c \<Rightarrow> c)
          in (case settle_provider_spend_call (pp_now env) (rq_owner rq) ref prompt completion cost
                     (spend_evidence hash ''settled'' @
                        [(''provider'', JStr (rs_provider resp)), (''model'', JStr (rs_model resp))]) (spending s) of
                Inl e \<Rightarrow> (Inl (PvSpend e), s)
              | Inr (sp, _) \<Rightarrow> judge_response env rq ctx lim cid hash resp (with_spending sp s))
      | _ \<Rightarrow> (Inl (PvRaised ''ValueError''), s))"

definition called :: "string \<Rightarrow> string \<Rightarrow> string \<Rightarrow> json \<Rightarrow> provider_state \<Rightarrow> provider_state" where
  "called ref provider model payload s = s\<lparr>px_calls := px_calls s @ [(ref, provider, model, payload)]\<rparr>"

definition call_provider ::
  "provider_env \<Rightarrow> planning_request \<Rightarrow> operator_context \<Rightarrow> planning_limits \<Rightarrow> (json \<Rightarrow> propose_outcome) \<Rightarrow> uuid \<Rightarrow> string \<Rightarrow>
   string \<Rightarrow> string \<Rightarrow> string \<Rightarrow> string option \<Rightarrow> string option \<Rightarrow> json \<Rightarrow> provider_state \<Rightarrow> planning_outcome" where
  "call_provider env rq ctx lim propose cid hash ref provider model name_hint model_hint payload s =
     (case propose payload of
        Proposed resp \<Rightarrow> settle_response env rq ctx lim cid hash ref resp (called ref provider model payload s)
      | ProposeFailed left category message \<Rightarrow>
          let detail = [(''request_hash'', JStr hash), (''reason'', JStr ''provider-dependent planning call did not complete''),
                (''failure_category'', JStr category), (''failure_message'', JStr message),
                (''spend_source_ref'', JStr ref), (''spend_released'', JBool (\<not> left))] @ hints name_hint model_hint cid
          in if left then stop_planning env rq cid ''WAITING_PROVIDER'' detail (called ref provider model payload s)
             else (case release_provider_spend_call (pp_now env) (rq_owner rq) ref (spend_evidence hash ''provider_failure'')
                          (spending s) of
                     Inl e \<Rightarrow> (Inl (PvSpend e), s)
                   | Inr (sp, _) \<Rightarrow> stop_planning env rq cid ''WAITING_PROVIDER'' detail (with_spending sp s)))"

definition egress_request_of :: "planning_request \<Rightarrow> string \<Rightarrow> string \<Rightarrow> egress_request" where
  "egress_request_of rq provider model =
     \<lparr>eq_owner = rq_owner rq, eq_provider = provider, eq_model = model, eq_purpose = ''development_planning'',
      eq_requested_by = ''provider_planning.plan_with_provider'', eq_task = Some (rq_task rq), eq_goal = Some (rq_goal rq),
      eq_job = Some (rq_job rq)\<rparr>"

definition gate_and_call ::
  "provider_env \<Rightarrow> planning_request \<Rightarrow> operator_context \<Rightarrow> planning_limits \<Rightarrow> (json \<Rightarrow> propose_outcome) \<Rightarrow> uuid \<Rightarrow> string \<Rightarrow>
   string \<Rightarrow> string \<Rightarrow> string \<Rightarrow> string option \<Rightarrow> string option \<Rightarrow> json \<Rightarrow> provider_state \<Rightarrow> planning_outcome" where
  "gate_and_call env rq ctx lim propose cid hash ref provider model name_hint model_hint payload s =
     (case enforce_egress_policy (pp_machine env) (pp_dumps env) (pp_now env) (egress_request_of rq provider model) payload
             (px_disclosures s) of
        (Inr sent, rows) \<Rightarrow>
          call_provider env rq ctx lim propose cid hash ref provider model name_hint model_hint sent (s\<lparr>px_disclosures := rows\<rparr>)
      | (Inl EgressConstraint, rows) \<Rightarrow> (Inl (PvEgress EgressConstraint), s)
      | (Inl (EgressRefused why), rows) \<Rightarrow>
          (let s1 = s\<lparr>px_disclosures := rows\<rparr>
           in case release_provider_spend_call (pp_now env) (rq_owner rq) ref (spend_evidence hash ''egress_denied'') (spending s1) of
                Inl e \<Rightarrow> (Inl (PvSpend e), s1)
              | Inr (sp, _) \<Rightarrow>
                  stop_planning env rq cid ''EGRESS_DENIED''
                    ([(''request_hash'', JStr hash), (''reason'', JStr why)] @ hints (Some provider) (Some model) cid)
                    (with_spending sp s1)))"

section \<open>Planning with a provider\<close>

text \<open>The first text that is not empty, or the last value.\<close>

fun first_text :: "string option list \<Rightarrow> string option" where
  "first_text [] = None"
| "first_text [v] = v"
| "first_text (v # vs) = (case v of Some (c # w) \<Rightarrow> v | _ \<Rightarrow> first_text vs)"

definition missing_text :: "string option \<Rightarrow> bool" where
  "missing_text v \<longleftrightarrow> v = None \<or> v = Some []"

text \<open>\<open>RegistryPlanningAdapter\<close>: it has the names it was given and no defaults.\<close>

definition registry_adapter :: "provider_env \<Rightarrow> string option \<Rightarrow> string option \<Rightarrow> planning_adapter" where
  "registry_adapter env name model =
     \<lparr>ad_provider = name, ad_default_provider = None, ad_model = model, ad_default_model = None,
      ad_propose = pp_registry env name model\<rparr>"

definition spend_base_ref :: "planning_request \<Rightarrow> string \<Rightarrow> string" where
  "spend_base_ref rq hash =
     ''provider-planning:'' @ uuid_str (rq_owner rq) @ '':'' @ uuid_str (rq_task rq) @ '':'' @ uuid_str (rq_job rq) @ '':'' @ hash"

definition call_request_of :: "planning_request \<Rightarrow> string \<Rightarrow> string \<Rightarrow> string \<Rightarrow> string \<Rightarrow> call_request" where
  "call_request_of rq hash ref provider model =
     \<lparr>cr_goal = rq_goal rq, cr_ref = ref, cr_provider = provider, cr_model = model, cr_task = Some (rq_task rq),
      cr_job = Some (rq_job rq), cr_evidence = spend_evidence hash ''pre_call''\<rparr>"

definition refused_detail :: "string \<Rightarrow> string \<Rightarrow> string option \<Rightarrow> string option \<Rightarrow> uuid \<Rightarrow> jdict" where
  "refused_detail hash why provider model cid =
     [(''request_hash'', JStr hash), (''reason'', JStr why)] @ hints provider model cid"

definition waiting_detail :: "string \<Rightarrow> string \<Rightarrow> string \<Rightarrow> string \<Rightarrow> string \<Rightarrow> string \<Rightarrow> uuid \<Rightarrow> jdict" where
  "waiting_detail hash why category ref provider model cid =
     [(''request_hash'', JStr hash), (''reason'', JStr why), (''failure_category'', JStr category),
      (''spend_source_ref'', JStr ref)] @ hints (Some provider) (Some model) cid"

text \<open>
  The hold. A hold that was there before is settled in full and never called again; one that another session has
  just made is left alone.
\<close>

definition reserve_and_call ::
  "provider_env \<Rightarrow> planning_request \<Rightarrow> operator_context \<Rightarrow> planning_limits \<Rightarrow> (json \<Rightarrow> propose_outcome) \<Rightarrow> uuid \<Rightarrow> string \<Rightarrow>
   string \<Rightarrow> string \<Rightarrow> string \<Rightarrow> string option \<Rightarrow> string option \<Rightarrow> json \<Rightarrow> provider_state \<Rightarrow> planning_outcome" where
  "reserve_and_call env rq ctx lim propose cid hash ref provider model name_hint model_hint payload s =
     (let held = (case usage_keyed (rq_owner rq) ref s of None \<Rightarrow> False | Some e \<Rightarrow> ue_status e = UsageReserved)
      in case reserve_provider_spend_call (pp_now env) (pp_usage_id env) (pp_others env) (rq_owner rq)
                (call_request_of rq hash ref provider model) (spending s) of
           (Inl (SpendRefused why), sp) \<Rightarrow>
             stop_planning env rq cid ''PROVIDER_SPEND_NOT_AUTHORIZED''
               (refused_detail hash why (Some provider) (Some model) cid) (with_spending sp s)
         | (Inl e, sp) \<Rightarrow> (Inl (PvSpend e), with_spending sp s)
         | (Inr (e, created), sp) \<Rightarrow>
             let s1 = with_spending sp s
             in if held \<and> ue_status e = UsageReserved
                then (case settle_provider_spend_call (pp_now env) (rq_owner rq) ref (ue_reserved_prompt e)
                             (ue_reserved_completion e) (ue_reserved_cost e)
                             (spend_evidence hash ''crash_before_settle_reconcile'' @
                                [(''reason'', JStr ''unresolved reservation; refusing re-invoke'')]) (spending s1) of
                        Inl x \<Rightarrow> (Inl (PvSpend x), s1)
                      | Inr (sp1, _) \<Rightarrow>
                          stop_planning env rq cid ''WAITING_PROVIDER''
                            (waiting_detail hash ''prior provider spend reservation was still reserved after a crash window''
                               ''unresolved_reservation'' ref provider model cid) (with_spending sp1 s1))
                else if \<not> created \<and> ue_status e = UsageReserved
                then stop_planning env rq cid ''WAITING_PROVIDER''
                       (waiting_detail hash ''another caller already holds the provider spend reservation''
                          ''concurrent_reservation'' ref provider model cid) s1
                else gate_and_call env rq ctx lim propose cid hash ref provider model name_hint model_hint payload s1)"

definition prior_provider_planning :: "planning_request \<Rightarrow> db \<Rightarrow> jdict" where
  "prior_provider_planning rq d =
     (case latest_checkpoint_for_step (rq_task rq) (rq_job rq) ''provider_planning'' d of
        None \<Rightarrow> [] | Some c \<Rightarrow> json_dict (jget (c_state c) ''provider_planning''))"

definition replayable :: "jdict \<Rightarrow> string \<Rightarrow> bool" where
  "replayable prior hash \<longleftrightarrow>
     jget prior ''request_hash'' = JStr hash \<and>
     (case jget prior ''disposition'' of JStr w \<Rightarrow> prefix ''ACCEPTED'' w | _ \<Rightarrow> False) \<and> truthy (jget prior ''candidate'')"

definition ask_provider ::
  "provider_env \<Rightarrow> planning_request \<Rightarrow> operator_context \<Rightarrow> planning_limits \<Rightarrow> planning_adapter \<Rightarrow> string option \<Rightarrow>
   string option \<Rightarrow> uuid \<Rightarrow> string \<Rightarrow> json \<Rightarrow> provider_state \<Rightarrow> planning_outcome" where
  "ask_provider env rq ctx lim adapter name model cid hash payload s =
     (let provider = first_text [name, ad_provider adapter, ad_default_provider adapter];
          chosen = first_text [model, ad_model adapter, ad_default_model adapter]
      in case allocate_spend_source_ref (rq_owner rq) (spend_base_ref rq hash) s of
           Inl e \<Rightarrow> (Inl e, s)
         | Inr ref \<Rightarrow>
             if missing_text provider \<or> missing_text chosen
             then stop_planning env rq cid ''PROVIDER_SPEND_NOT_AUTHORIZED''
                    (refused_detail hash ''provider-assisted planning requires an explicit provider and model'' provider chosen cid) s
             else reserve_and_call env rq ctx lim (ad_propose adapter) cid hash ref (the provider) (the chosen) name model payload s)"

definition plan_with_provider ::
  "provider_env \<Rightarrow> planning_request \<Rightarrow> operator_context \<Rightarrow> planning_adapter option \<Rightarrow> string option \<Rightarrow> string option \<Rightarrow>
   planning_limits \<Rightarrow> provider_state \<Rightarrow> planning_outcome" where
  "plan_with_provider env rq ctx adapter name model lim s =
     (case assess_authority (pp_planner env) rq (px_plan s) of
        Inl e \<Rightarrow> (Inl (PvPlanner e), s)
      | Inr (Some r, p) \<Rightarrow> (Inr r, s\<lparr>px_plan := p\<rparr>)
      | Inr (None, _) \<Rightarrow>
          if deterministic_candidate (rq_instruction rq) \<noteq> None then planner_says env rq ctx None s
          else case build_provider_request env rq ctx lim (px_plan s) of
                 Inl e \<Rightarrow> (Inl e, s)
               | Inr (cid, payload) \<Rightarrow>
                   let hash = request_hash env rq payload name model;
                       prior = prior_provider_planning rq (px_db s)
                   in if replayable prior hash
                      then (case parse_candidate (pp_py env) (jget prior ''candidate'') of
                              Inl e \<Rightarrow> (Inl (PvPlanner e), s)
                            | Inr c \<Rightarrow> planner_says env rq ctx (Some c) s)
                      else (case provider_checkpoint env rq ''PROVIDER_ASSISTANCE_REQUIRED''
                                   [(''request_hash'', JStr hash), (''reason'', redact_text (pp_machine env) provider_reason),
                                    (''context_set_id'', JStr (uuid_str cid)), (''provider_hint'', json_opt name),
                                    (''model_hint'', json_opt model), (''attempt_limit'', JInt (rq_max_attempts rq))] s of
                              Inl e \<Rightarrow> (Inl e, s)
                            | Inr s1 \<Rightarrow>
                                ask_provider env rq ctx lim
                                  (case adapter of Some a \<Rightarrow> a | None \<Rightarrow> registry_adapter env name model)
                                  name model cid hash payload s1))"

section \<open>What has left the process\<close>

text \<open>No step looks at the calls made before: a run with other calls behind it does the same and makes the same call.\<close>

definition over_calls :: "(string \<times> string \<times> string \<times> json) list \<Rightarrow> planning_outcome \<Rightarrow> planning_outcome" where
  "over_calls cs = (\<lambda>(x, t). (x, t\<lparr>px_calls := cs @ px_calls t\<rparr>))"

definition forgets_calls :: "(provider_state \<Rightarrow> planning_outcome) \<Rightarrow> bool" where
  "forgets_calls f \<longleftrightarrow> (\<forall>s cs. f (s\<lparr>px_calls := cs @ px_calls s\<rparr>) = over_calls cs (f s))"

lemma over_calls_simps [simp]: "over_calls cs (x, t) = (x, t\<lparr>px_calls := cs @ px_calls t\<rparr>)"
  by (simp add: over_calls_def)

lemma calls_fields [simp]:
  "usage_keyed owner ref (s\<lparr>px_calls := cs\<rparr>) = usage_keyed owner ref s"
  "spending (s\<lparr>px_calls := cs\<rparr>) = spending s"
  "with_spending sp (s\<lparr>px_calls := cs\<rparr>) = (with_spending sp s)\<lparr>px_calls := cs\<rparr>"
  "set_px_db d (s\<lparr>px_calls := cs\<rparr>) = (set_px_db d s)\<lparr>px_calls := cs\<rparr>"
  "free_or_held owner (s\<lparr>px_calls := cs\<rparr>) = free_or_held owner s"
  "px_calls (with_spending sp s) = px_calls s" "px_calls (set_px_db d s) = px_calls s"
  by (auto simp: usage_keyed_def spending_def with_spending_def set_px_db_def free_or_held_def fun_eq_iff)

lemma provider_checkpoint_calls:
  "provider_checkpoint env rq cls detail (s\<lparr>px_calls := cs\<rparr>) =
     map_sum id (\<lambda>t. t\<lparr>px_calls := cs\<rparr>) (provider_checkpoint env rq cls detail s)"
  by (simp add: provider_checkpoint_def split: option.splits)

lemma provider_checkpoint_keeps:
  "provider_checkpoint env rq cls detail s = Inr t \<Longrightarrow>
     px_calls t = px_calls s \<and> px_usage t = px_usage s \<and> px_grants t = px_grants s \<and> px_disclosures t = px_disclosures s"
  by (auto simp: provider_checkpoint_def set_px_db_def split: option.splits)

lemma forgets_stop: "forgets_calls (stop_planning env rq cid cls detail)"
  by (auto simp: forgets_calls_def stop_planning_def provider_checkpoint_calls provider_checkpoint_keeps split: sum.splits)

lemma forgets_planner: "forgets_calls (planner_says env rq ctx c)"
  by (auto simp: forgets_calls_def planner_says_def split: sum.splits prod.splits)

lemma forgetsD: "forgets_calls f \<Longrightarrow> f (s\<lparr>px_calls := cs @ px_calls s\<rparr>) = over_calls cs (f s)"
  by (simp add: forgets_calls_def)

lemma forgets_judge: "forgets_calls (judge_response env rq ctx lim cid hash resp)"
  unfolding forgets_calls_def
proof (intro allI)
  fix s cs
  have stop: "stop_planning env rq cid cls detail (s\<lparr>px_calls := cs @ px_calls s\<rparr>) =
      over_calls cs (stop_planning env rq cid cls detail s)" for cls detail
    by (rule forgetsD [OF forgets_stop])
  have upd: "s\<lparr>px_calls := cs @ px_calls s\<rparr>\<lparr>px_plan := p\<rparr> = s\<lparr>px_plan := p\<rparr>\<lparr>px_calls := cs @ px_calls s\<rparr>" for p by simp
  show "judge_response env rq ctx lim cid hash resp (s\<lparr>px_calls := cs @ px_calls s\<rparr>) =
      over_calls cs (judge_response env rq ctx lim cid hash resp s)"
    by (auto simp: judge_response_def stop Let_def upd provider_checkpoint_calls
        dest: provider_checkpoint_keeps split: sum.splits prod.splits provider_error.splits planner_error.splits)
qed


lemma forgets_with_spending:
  assumes "forgets_calls f"
  shows "f ((with_spending sp s)\<lparr>px_calls := cs @ px_calls s\<rparr>) = over_calls cs (f (with_spending sp s))"
  using forgetsD [OF assms, where s = "with_spending sp s" and cs = cs] by simp

lemma forgets_settle: "forgets_calls (settle_response env rq ctx lim cid hash ref resp)"
  unfolding forgets_calls_def
  by (intro allI)
    (simp add: settle_response_def Let_def forgets_with_spending [OF forgets_judge] split: option.splits sum.splits prod.splits)

lemma forgets_called:
  assumes "forgets_calls f"
  shows "f (called ref provider model payload (s\<lparr>px_calls := cs @ px_calls s\<rparr>)) =
    over_calls cs (f (called ref provider model payload s))"
  using forgetsD [OF assms, where s = "called ref provider model payload s" and cs = cs] by (simp add: called_def)

lemma forgets_call: "forgets_calls (call_provider env rq ctx lim propose cid hash ref provider model nh mh payload)"
  unfolding forgets_calls_def
  by (intro allI)
    (simp add: call_provider_def Let_def forgets_called [OF forgets_settle] forgets_called [OF forgets_stop]
      forgets_with_spending [OF forgets_stop] split: propose_outcome.splits sum.splits prod.splits)

lemma forgets_disclosures:
  assumes "forgets_calls f"
  shows "f (s\<lparr>px_disclosures := rows, px_calls := cs @ px_calls s\<rparr>) = over_calls cs (f (s\<lparr>px_disclosures := rows\<rparr>))"
  using forgetsD [OF assms, where s = "s\<lparr>px_disclosures := rows\<rparr>" and cs = cs] by simp

lemma forgets_gate: "forgets_calls (gate_and_call env rq ctx lim propose cid hash ref provider model nh mh payload)"
  unfolding forgets_calls_def
proof (intro allI)
  fix s :: provider_state and cs
  have swap: "s\<lparr>px_calls := c, px_disclosures := rows\<rparr> = s\<lparr>px_disclosures := rows, px_calls := c\<rparr>" for c rows by simp
  have stop: "stop_planning env rq cid cls detail ((with_spending sp (s\<lparr>px_disclosures := rows\<rparr>))\<lparr>px_calls := cs @ px_calls s\<rparr>) =
      over_calls cs (stop_planning env rq cid cls detail (with_spending sp (s\<lparr>px_disclosures := rows\<rparr>)))" for cls detail sp rows
    using forgets_with_spending [OF forgets_stop, where s = "s\<lparr>px_disclosures := rows\<rparr>" and cs = cs] by simp
  show "gate_and_call env rq ctx lim propose cid hash ref provider model nh mh payload (s\<lparr>px_calls := cs @ px_calls s\<rparr>) =
      over_calls cs (gate_and_call env rq ctx lim propose cid hash ref provider model nh mh payload s)"
    by (simp add: gate_and_call_def Let_def swap stop forgets_disclosures [OF forgets_call]
        split: sum.splits prod.splits egress_error.splits)
qed

lemma forgets_reserve: "forgets_calls (reserve_and_call env rq ctx lim propose cid hash ref provider model nh mh payload)"
  unfolding forgets_calls_def
proof (intro allI)
  fix s :: provider_state and cs
  have stop2: "stop_planning env rq cid cls detail ((with_spending sp1 (with_spending sp s))\<lparr>px_calls := cs @ px_calls s\<rparr>) =
      over_calls cs (stop_planning env rq cid cls detail (with_spending sp1 (with_spending sp s)))" for cls detail sp sp1
    using forgets_with_spending [OF forgets_stop, where s = "with_spending sp s" and cs = cs] by simp
  show "reserve_and_call env rq ctx lim propose cid hash ref provider model nh mh payload (s\<lparr>px_calls := cs @ px_calls s\<rparr>) =
      over_calls cs (reserve_and_call env rq ctx lim propose cid hash ref provider model nh mh payload s)"
    by (simp add: reserve_and_call_def Let_def forgets_with_spending [OF forgets_gate] forgets_with_spending [OF forgets_stop]
        stop2 split: option.splits sum.splits prod.splits spend_error.splits)
qed


lemma forgets_ask: "forgets_calls (ask_provider env rq ctx lim adapter nh mh cid hash payload)"
  unfolding forgets_calls_def
  by (intro allI)
    (simp add: ask_provider_def allocate_spend_source_ref_def Let_def forgetsD [OF forgets_stop] forgetsD [OF forgets_reserve]
      split: sum.splits)

lemma forgets_plan: "forgets_calls (plan_with_provider env rq ctx adapter nh mh lim)"
  unfolding forgets_calls_def
proof (intro allI)
  fix s :: provider_state and cs
  have ask: "ask_provider env rq ctx lim ad nh mh cid hash payload (u\<lparr>px_calls := cs @ px_calls s\<rparr>) =
      over_calls cs (ask_provider env rq ctx lim ad nh mh cid hash payload u)"
    if "provider_checkpoint env rq cls detail s = Inr u" for ad cid hash payload u cls detail
    using forgetsD [OF forgets_ask, where s = u and cs = cs] provider_checkpoint_keeps [OF that] by simp
  show "plan_with_provider env rq ctx adapter nh mh lim (s\<lparr>px_calls := cs @ px_calls s\<rparr>) =
      over_calls cs (plan_with_provider env rq ctx adapter nh mh lim s)"
    by (auto simp: plan_with_provider_def Let_def provider_checkpoint_calls ask forgetsD [OF forgets_planner]
        split: sum.splits option.splits prod.splits)
qed

section \<open>One call, on a hold\<close>

lemma stop_keeps:
  "stop_planning env rq cid cls detail s = (r, t) \<Longrightarrow>
     px_calls t = px_calls s \<and> px_usage t = px_usage s \<and> px_disclosures t = px_disclosures s"
  by (auto simp: stop_planning_def split: sum.splits dest: provider_checkpoint_keeps)

lemma planner_keeps:
  "planner_says env rq ctx c s = (r, t) \<Longrightarrow>
     px_calls t = px_calls s \<and> px_usage t = px_usage s \<and> px_disclosures t = px_disclosures s"
  by (auto simp: planner_says_def split: sum.splits prod.splits)

lemma judge_keeps:
  "judge_response env rq ctx lim cid hash resp s = (r, t) \<Longrightarrow>
     px_calls t = px_calls s \<and> px_usage t = px_usage s \<and> px_disclosures t = px_disclosures s"
  by (auto simp: judge_response_def Let_def split: sum.splits prod.splits provider_error.splits planner_error.splits
      dest!: stop_keeps provider_checkpoint_keeps)

lemma find_row_put:
  assumes "find_row P xs = Some e" and "P e1" and "Q e"
  shows "find_row P (update_rows Q (\<lambda>_. e1) xs) = Some e1"
  using assms by (induction xs) (auto split: if_splits)

lemma settled_row:
  assumes "settle_provider_spend_call now owner ref p c m ev s = Inr (t, e)"
  shows "find_row (keyed_usage owner ref) (sd_usage t) = Some e \<and> ue_status e = UsageSettled"
proof -
  from assms obtain u where u: "settle_provider_spend_usage now owner ref p c m ev s = Inr u"
    and e: "find_row (keyed_usage owner ref) (sd_usage u) = Some e" "sd_usage t = sd_usage u"
    by (auto simp: settle_provider_spend_call_def elim!: sbind_InrE split: option.splits)
  from u obtain x where x: "find_row (keyed_usage owner ref) (sd_usage s) = Some x"
    by (auto simp: settle_provider_spend_usage_def split: if_splits option.splits)
  have "keyed_usage owner ref x" using find_row_SomeD [OF x] by simp
  then have "ue_status e = UsageSettled"
    using u e(1) x find_row_put [OF x, where Q = "\<lambda>y. ue_id y = ue_id x"]
    by (auto simp: settle_provider_spend_usage_def Let_def put_usage_def keyed_usage_def split: if_splits option.splits)
  with e show ?thesis by simp
qed


text \<open>The reference has a row that is settled or still held.\<close>

definition paid_or_held :: "uuid \<Rightarrow> string \<Rightarrow> provider_state \<Rightarrow> bool" where
  "paid_or_held owner ref s \<longleftrightarrow>
     (\<exists>e. usage_keyed owner ref s = Some e \<and> ue_status e \<in> {UsageSettled, UsageReserved})"

lemma paid_or_held_usage: "px_usage t = px_usage s \<Longrightarrow> paid_or_held owner ref t = paid_or_held owner ref s"
  by (simp add: paid_or_held_def usage_keyed_def)

lemma settle_response_keeps:
  assumes "settle_response env rq ctx lim cid hash ref resp s = (r, t)"
  shows "px_calls t = px_calls s \<and> px_disclosures t = px_disclosures s \<and> (r \<in> range Inr \<longrightarrow> paid_or_held (rq_owner rq) ref t)"
proof (cases "px_usage t = px_usage s \<and> px_calls t = px_calls s \<and> px_disclosures t = px_disclosures s \<and> r \<in> range Inl")
  case False
  then obtain p c m ev sp e where
    settled: "settle_provider_spend_call (pp_now env) (rq_owner rq) ref p c m ev (spending s) = Inr (sp, e)"
    and judged: "judge_response env rq ctx lim cid hash resp (with_spending sp s) = (r, t)"
    using assms by (auto simp: settle_response_def Let_def split: option.splits sum.splits prod.splits)
  have "px_usage (with_spending sp s) = sd_usage sp" "px_disclosures (with_spending sp s) = px_disclosures s"
    by (simp_all add: with_spending_def)
  with judge_keeps [OF judged] settled_row [OF settled] show ?thesis
    by (simp add: paid_or_held_def usage_keyed_def)
qed auto

lemma call_keeps:
  assumes "call_provider env rq ctx lim propose cid hash ref provider model nh mh sent s = (r, t)"
    and "paid_or_held (rq_owner rq) ref s"
  shows "px_disclosures t = px_disclosures s \<and>
    (px_calls t = px_calls s \<or>
     px_calls t = px_calls s @ [(ref, provider, model, sent)] \<and> (r \<in> range Inr \<longrightarrow> paid_or_held (rq_owner rq) ref t))"
proof (cases "propose sent")
  case (Proposed resp)
  with assms(1) have "settle_response env rq ctx lim cid hash ref resp (called ref provider model sent s) = (r, t)"
    by (simp add: call_provider_def)
  from settle_response_keeps [OF this] show ?thesis by (simp add: called_def)
next
  case (ProposeFailed left category message)
  show ?thesis
  proof (cases left)
    case True
    with assms(1) ProposeFailed obtain detail where
      "stop_planning env rq cid ''WAITING_PROVIDER'' detail (called ref provider model sent s) = (r, t)"
      by (auto simp: call_provider_def Let_def)
    from stop_keeps [OF this] assms(2) show ?thesis
      by (simp add: called_def paid_or_held_def usage_keyed_def)
  next
    case False
    with assms(1) ProposeFailed show ?thesis
      by (auto simp: call_provider_def Let_def with_spending_def split: sum.splits prod.splits dest!: stop_keeps)
  qed
qed

text \<open>What the gate let out is on record.\<close>

definition disclosed :: "provider_env \<Rightarrow> planning_request \<Rightarrow> string \<Rightarrow> string \<Rightarrow> json \<Rightarrow> provider_state \<Rightarrow> bool" where
  "disclosed env rq provider model sent s \<longleftrightarrow>
     (\<exists>e\<in>set (px_disclosures s). de_decision e = EgressAllowed \<and> de_owner e = rq_owner rq \<and> de_provider e = provider \<and>
        de_model e = model \<and> de_sent e = Some (payload_hash (pp_machine env) (pp_dumps env) sent))"

lemma gate_keeps:
  assumes "gate_and_call env rq ctx lim propose cid hash ref provider model nh mh payload s = (r, t)"
    and "paid_or_held (rq_owner rq) ref s" and "px_calls t \<noteq> px_calls s"
  shows "\<exists>sent. px_calls t = px_calls s @ [(ref, provider, model, sent)] \<and> sent = redact_value (pp_machine env) payload \<and>
    \<not> contains_marker payload \<and> disclosed env rq provider model sent t \<and>
    (r \<in> range Inr \<longrightarrow> paid_or_held (rq_owner rq) ref t)"
proof -
  obtain v rows where gate: "enforce_egress_policy (pp_machine env) (pp_dumps env) (pp_now env)
      (egress_request_of rq provider model) payload (px_disclosures s) = (v, rows)" by fastforce
  have "v \<in> range Inr"
    using assms(1,3) gate
    by (auto simp: gate_and_call_def Let_def with_spending_def split: sum.splits prod.splits egress_error.splits dest!: stop_keeps)
  then obtain sent where v: "v = Inr sent" by blast
  with assms(1) gate have "call_provider env rq ctx lim propose cid hash ref provider model nh mh sent (s\<lparr>px_disclosures := rows\<rparr>) = (r, t)"
    by (simp add: gate_and_call_def)
  moreover have "paid_or_held (rq_owner rq) ref (s\<lparr>px_disclosures := rows\<rparr>)"
    using assms(2) by (simp add: paid_or_held_def usage_keyed_def)
  ultimately have "px_disclosures t = rows"
    "px_calls t = px_calls s @ [(ref, provider, model, sent)] \<and> (r \<in> range Inr \<longrightarrow> paid_or_held (rq_owner rq) ref t)"
    using call_keeps assms(3) by fastforce+
  then show ?thesis
    using egress_sends [OF gate [unfolded v]]
    by (auto simp: disclosed_def egress_request_of_def)
qed


definition live_grant :: "time \<Rightarrow> uuid \<Rightarrow> uuid \<Rightarrow> string \<Rightarrow> string \<Rightarrow> spend_db \<Rightarrow> bool" where
  "live_grant now owner gid provider model sp \<longleftrightarrow>
     (\<exists>g\<in>set (sd_grants sp). active_grant owner gid g \<and> \<not> expired now g \<and>
        current_envelope_is owner gid (sg_envelope g) sp \<and> provider_allowed g provider model)"

lemma fresh_hold:
  assumes "reserve_provider_spend_call now i others owner q s = (Inr (e, created), t)"
    and "find_row (keyed_usage owner (cr_ref q)) (sd_usage s) = None"
    and "find_row (keyed_usage owner (cr_ref q)) (sd_usage (others s)) = None"
  shows "live_grant now owner (cr_goal q) (cr_provider q) (cr_model q) (others s) \<and> created \<and> ue_status e = UsageReserved \<and>
    find_row (keyed_usage owner (cr_ref q)) (sd_usage t) = Some e"
proof -
  from assms(1,2) have "reserve_locked now i owner q (others s) = (Inr (e, created), t)"
    by (simp add: reserve_provider_spend_call_def)
  then obtain g p c m where cur: "get_current_provider_spend_authorization now owner (cr_goal q) (others s) = (others s, Some g)"
    and al: "provider_allowed g (cr_provider q) (cr_model q)"
    and ins: "insert_reservation now (reserved_event now i owner g q p c m) g (others s) = (Inr (e, created), t)"
    by (auto elim: reserve_locked_cases)
  have "live_grant now owner (cr_goal q) (cr_provider q) (cr_model q) (others s)"
    using current_grant_Some [OF cur] al by (auto simp: live_grant_def active_grant_def)
  moreover have "created \<and> ue_status e = UsageReserved \<and> sd_usage t = sd_usage (others s) @ [e] \<and> keyed_usage owner (cr_ref q) e"
    using ins assms(3)
    by (auto simp: insert_reservation_def reserved_event_def keyed_usage_def Let_def split: if_splits option.splits)
  ultimately show ?thesis using assms(3) by (simp add: find_row_snoc)
qed

lemma reserve_keeps:
  assumes "reserve_and_call env rq ctx lim propose cid hash ref provider model nh mh payload s = (r, t)"
    and "px_calls t \<noteq> px_calls s" and "free_or_held (rq_owner rq) s ref"
    and "\<And>x. find_row (keyed_usage (rq_owner rq) ref) (sd_usage (pp_others env x)) =
      find_row (keyed_usage (rq_owner rq) ref) (sd_usage x)"
  shows "usage_keyed (rq_owner rq) ref s = None \<and>
    live_grant (pp_now env) (rq_owner rq) (rq_goal rq) provider model (pp_others env (spending s)) \<and>
    (\<exists>sent. px_calls t = px_calls s @ [(ref, provider, model, sent)] \<and> sent = redact_value (pp_machine env) payload \<and>
       \<not> contains_marker payload \<and> disclosed env rq provider model sent t \<and>
       (r \<in> range Inr \<longrightarrow> paid_or_held (rq_owner rq) ref t))"
proof -
  let ?q = "call_request_of rq hash ref provider model"
  obtain v sp where res: "reserve_provider_spend_call (pp_now env) (pp_usage_id env) (pp_others env) (rq_owner rq) ?q
      (spending s) = (v, sp)" by fastforce
  have ref: "cr_ref ?q = ref" and usage: "sd_usage (spending s) = px_usage s"
    by (simp_all add: call_request_of_def spending_def)
  have free: "usage_keyed (rq_owner rq) ref s = None"
  proof (rule ccontr)
    assume "usage_keyed (rq_owner rq) ref s \<noteq> None"
    then obtain e where e: "usage_keyed (rq_owner rq) ref s = Some e" "ue_status e = UsageReserved"
      using assms(3) by (auto simp: free_or_held_def split: option.splits)
    then have "v = Inr (e, False)" "sp = spending s"
      using res ref usage by (auto simp: reserve_provider_spend_call_def usage_keyed_def)
    with assms(1,2) res e show False
      by (auto simp: reserve_and_call_def Let_def split: sum.splits prod.splits dest!: stop_keeps)
  qed
  obtain e created where v: "v = Inr (e, created)"
    using assms(1,2) res by (auto simp: reserve_and_call_def Let_def split: sum.splits prod.splits spend_error.splits dest!: stop_keeps)
  have hold: "live_grant (pp_now env) (rq_owner rq) (rq_goal rq) provider model (pp_others env (spending s)) \<and> created \<and>
      ue_status e = UsageReserved \<and> find_row (keyed_usage (rq_owner rq) ref) (sd_usage sp) = Some e"
    using fresh_hold [OF res [unfolded v]] free assms(4) [of "spending s"] ref usage
    by (simp add: usage_keyed_def call_request_of_def)
  then have gate: "gate_and_call env rq ctx lim propose cid hash ref provider model nh mh payload (with_spending sp s) = (r, t)"
    using assms(1) res v free by (simp add: reserve_and_call_def)
  moreover have "paid_or_held (rq_owner rq) ref (with_spending sp s)"
    using hold by (simp add: paid_or_held_def usage_keyed_def with_spending_def)
  ultimately show ?thesis using gate_keeps [OF gate] assms(2) free hold by simp
qed


lemma plan_asks:
  assumes "plan_with_provider env rq ctx adapter nh mh lim s = (r, t)" and "px_calls t \<noteq> px_calls s"
  obtains u propose cid hash ref provider model payload where
    "reserve_and_call env rq ctx lim propose cid hash ref provider model nh mh payload u = (r, t)"
    "free_or_held (rq_owner rq) u ref" "px_calls u = px_calls s" "px_usage u = px_usage s" "px_grants u = px_grants s"
proof -
  from assms obtain cls detail cid payload hash u ad where
    u: "provider_checkpoint env rq cls detail s = Inr u"
    and ask: "ask_provider env rq ctx lim ad nh mh cid hash payload u = (r, t)"
    by (auto simp: plan_with_provider_def Let_def split: sum.splits option.splits prod.splits if_splits dest!: planner_keeps)
  note keep = provider_checkpoint_keeps [OF u]
  obtain ref where ref: "allocate_spend_source_ref (rq_owner rq) (spend_base_ref rq hash) u = Inr ref"
    using ask assms(2) keep by (cases "allocate_spend_source_ref (rq_owner rq) (spend_base_ref rq hash) u")
      (auto simp: ask_provider_def Let_def)
  then have "free_or_held (rq_owner rq) u ref"
    by (auto simp: allocate_spend_source_ref_def from_option_Inr_iff find_Some_iff split: if_splits)
  with ask ref assms(2) keep that show ?thesis
    by (auto simp: ask_provider_def Let_def split: if_splits dest!: stop_keeps)
qed


text \<open>
  An error rolls back what the tick wrote. What has left the process stays out.
\<close>

fun failed_ticks :: "(provider_state \<Rightarrow> planning_outcome) \<Rightarrow> nat \<Rightarrow> provider_state \<Rightarrow> provider_state" where
  "failed_ticks f 0 s = s"
| "failed_ticks f (Suc n) s =
     (case f (failed_ticks f n s) of
        (Inl e, t) \<Rightarrow> (failed_ticks f n s)\<lparr>px_calls := px_calls t\<rparr>
      | (Inr r, t) \<Rightarrow> t)"

lemma same_call_again:
  assumes "forgets_calls f" and "f s = (Inl e, t)" and "px_calls t = px_calls s @ [c]"
  shows "failed_ticks f n s = s\<lparr>px_calls := px_calls s @ replicate n c\<rparr>"
proof (induction n)
  case (Suc n)
  let ?b = "s\<lparr>px_calls := []\<rparr>"
  have other: "f (s\<lparr>px_calls := cs\<rparr>) = over_calls cs (f ?b)" for cs
    using forgetsD [OF assms(1), where s = ?b and cs = cs] by simp
  obtain v u where b: "f ?b = (v, u)" by fastforce
  with other [of "px_calls s"] assms(2,3) have "v = Inl e" "px_calls u = [c]" by auto
  with other [of "px_calls s @ replicate n c"] b Suc.IH show ?case by (simp add: replicate_append_same)
qed simp


text \<open>The worker's adapter is the registry's, made without a provider or a model. With it planning never asks a provider
  and never holds or spends anything, and a request that the founder authorized but no recipe decomposes ends as a
  spend not authorized, without a plan.\<close>

theorem registry_without_names_never_calls:
  assumes "plan_with_provider env rq ctx None None None lim s = (r, t)"
  shows "px_calls t = px_calls s \<and> px_usage t = px_usage s \<and> px_grants t = px_grants s \<and>
    (\<forall>x p. assess_authority (pp_planner env) rq (px_plan s) = Inr (None, p) \<and> deterministic_candidate (rq_instruction rq) = None \<and>
       prior_provider_planning rq (px_db s) = [] \<and> r = Inr x \<longrightarrow>
       pr_class x = ''PROVIDER_SPEND_NOT_AUTHORIZED'' \<and> pr_plan x = None)"
proof -
  have ask: "px_calls w = px_calls u \<and> px_usage w = px_usage u \<and> px_grants w = px_grants u \<and>
      (\<forall>x. v = Inr x \<longrightarrow> pr_class x = ''PROVIDER_SPEND_NOT_AUTHORIZED'' \<and> pr_plan x = None)"
    if "ask_provider env rq ctx lim (registry_adapter env None None) None None cid hash payload u = (v, w)" for cid hash payload u v w
    using that
    by (auto simp: ask_provider_def registry_adapter_def missing_text_def stop_planning_def split: sum.splits
        dest!: provider_checkpoint_keeps)
  have planner: "px_calls w = px_calls u \<and> px_usage w = px_usage u \<and> px_grants w = px_grants u"
    if "planner_says env rq ctx c u = (v, w)" for c u v w
    using that by (auto simp: planner_says_def split: sum.splits prod.splits)
  have "\<not> replayable [] hash" for hash by (simp add: replayable_def jget_def)
  then show ?thesis
    using assms
    by (auto simp: plan_with_provider_def Let_def split: sum.splits option.splits prod.splits if_splits
        dest!: ask planner provider_checkpoint_keeps)
qed


section \<open>The statements at work\<close>

definition prov_machine :: machine where
  "prov_machine = op_sample_machine\<lparr>mc_redact := \<lambda>_. ''x''\<rparr>"

definition prov_env :: provider_env where
  "prov_env =
     \<lparr>pp_planner = plan_sample_env\<lparr>pv_machine := prov_machine\<rparr>,
      pp_py = \<lparr>loads = (\<lambda>_. None), py_str = (\<lambda>_. []), py_int = (\<lambda>v. case v of JInt i \<Rightarrow> Some i | _ \<Rightarrow> None)\<rparr>,
      pp_registry = (\<lambda>_ _ _. ProposeFailed False ''no'' ''adapter''), pp_usage_id = 80, pp_others = (\<lambda>x. x), pp_latency = 1,
      pp_participation = (\<lambda>_ _ _ _ _ s. Inr ([], s))\<rparr>"

definition prov_sample :: provider_state where
  "prov_sample = \<lparr>px_plan = plan_sample, px_grants = [sample_spend_grant], px_usage = [], px_disclosures = [], px_calls = []\<rparr>"

text \<open>The answer has 16000 completion tokens, as many as the call asks for; the default hold is 4000.\<close>

definition long_answer :: provider_response where
  "long_answer =
     \<lparr>rs_content = ''{}'', rs_provider = ''openai'', rs_model = ''gpt-4o-mini'', rs_version = None,
      rs_usage = [(''prompt_tokens'', JInt 500), (''completion_tokens'', JInt 16000)]\<rparr>"

definition prov_adapter :: planning_adapter where
  "prov_adapter =
     \<lparr>ad_provider = Some ''openai'', ad_default_provider = None, ad_model = Some ''gpt-4o-mini'', ad_default_model = None,
      ad_propose = (\<lambda>_. Proposed long_answer)\<rparr>"

definition prov_limits :: planning_limits where
  "prov_limits = \<lparr>pm_max_candidates = 3, pm_max_payload = 16000, pm_max_output = 64000, pm_timeout = 60\<rparr>"

lemma redacted_has_no_marker: "\<not> contains_marker (redact_value prov_machine v)"
  by (induction prov_machine v rule: redact_value.induct)
    (auto simp: prov_machine_def never_egress_markers_def list_ex_iff dest!: sublist_length_le)

lemma prov_assessed: "assess_authority (pp_planner prov_env) sample_request plan_sample = Inr (None, plan_sample)"
proof -
  have "authority_objection sample_request = None"
    by (simp add: authority_objection_def sample_request_def non_authoritative_kinds_def authorized_kinds_def unresolved_def sample_words)
  moreover have "strip_chars is_space (rq_instruction sample_request) \<noteq> []" "py_len (rq_instruction sample_request) = 5"
    by (simp_all add: sample_request_def strip_chars_def is_space_def py_len_def continuation_def)
  ultimately show ?thesis by (simp add: assess_authority_def sample_scope max_instruction_chars_def)
qed

lemma prov_no_recipe: "deterministic_candidate ''do it'' = None"
  by code_simp

lemma prov_ref: "length (spend_base_ref sample_request ''h'') \<le> 320"
  by code_simp

lemma prov_checked:
  "\<exists>d. provider_checkpoint prov_env sample_request cls detail prov_sample = Inr (set_px_db d prov_sample)"
  by (simp add: provider_checkpoint_def prov_sample_def sample_request_def plan_sample_def op_sample_def op_sample_leases_def op_db_def
      sample_task_def sample_goal_def) blast

abbreviation prov_event :: "string \<Rightarrow> usage_event" where
  "prov_event ref \<equiv> reserved_event 3 80 7 sample_spend_grant (call_request_of sample_request ''h'' ref ''openai'' ''gpt-4o-mini'') 8000 4000 3600"

lemma prov_hold:
  assumes "length ref \<le> 320"
  shows "reserve_provider_spend_call 3 80 (\<lambda>x. x) 7 (call_request_of sample_request ''h'' ref ''openai'' ''gpt-4o-mini'')
      (spending (set_px_db d prov_sample)) =
    (Inr (prov_event ref, True),
     (spending (set_px_db d prov_sample))\<lparr>sd_grants := [held_grant], sd_usage := [prov_event ref]\<rparr>)"
proof -
  let ?s = "spending (set_px_db d prov_sample)"
  have rows: "sd_grants ?s = [sample_spend_grant]" "sd_usage ?s = []"
    by (simp_all add: spending_def set_px_db_def prov_sample_def)
  have "current_envelope_is 7 20 60 ?s"
    by (simp add: current_envelope_is_def get_current_execution_envelope_def scalar_one_or_none_def spending_def set_px_db_def
        set_pt_db_def set_op_db_def prov_sample_def plan_sample_def op_sample_def op_sample_leases_def new_envelope_def
        new_proposal_def sample_scope_def op_sample_grant_def sample_grant_def active_envelope_def)
  then have cur: "get_current_provider_spend_authorization 3 7 20 ?s = (?s, Some sample_spend_grant)"
    by (simp add: get_current_provider_spend_authorization_def rows sample_live)
  have hold: "bound_reservation sample_spend_grant ''openai'' ''gpt-4o-mini'' = Inr (8000, 4000, 3600)"
    by (simp add: bound_reservation_def token_hold_def sample_spend_grant_def new_grant_def sample_budget_def
        default_reserve_prompt_tokens_def default_reserve_completion_tokens_def estimate_cost_def
        pricing_per_1k_tokens_def round_thousandth_def committed_cost_def Let_def)
  have room: "reservation_refused sample_spend_grant 8000 4000 3600 = None" "committed_requests sample_spend_grant = 0"
    "sg_max_requests sample_spend_grant = 1" "provider_allowed sample_spend_grant ''openai'' ''gpt-4o-mini''"
    by (simp_all add: reservation_refused_def sample_spend_grant_def new_grant_def sample_budget_def committed_cost_def
        committed_requests_def over_ceiling_def provider_allowed_def norm_list_def)
  have on: "hold_on 3 8000 4000 3600 sample_spend_grant = held_grant" "grant_checks held_grant" "sg_id held_grant = sg_id sample_spend_grant"
    by (simp_all add: hold_on_def mark_terminal_if_needed_def expired_def at_ceiling_def held_grant_def sample_spend_grant_def
        new_grant_def sample_budget_def grant_checks_def nonneg_def)
  have "usage_checks (prov_event ref)"
    using assms by (simp add: usage_checks_def reserved_event_def call_request_of_def)
  with cur hold room on rows show ?thesis
    by (simp add: reserve_provider_spend_call_def reserve_locked_def call_request_of_def insert_reservation_def reserved_event_def
        put_grant_def Let_def sample_request_def)
qed

lemma prov_settle_raises:
  assumes "sd_grants sp = [held_grant]" and "sd_usage sp = [prov_event ref]"
  shows "settle_provider_spend_call now 7 ref 500 16000 c ev sp = Inl (SpendRaised (if c < 0 then ''amounts must be non-negative'' else ''actuals exceed reservation hold''))"
  using assms
  by (simp add: settle_provider_spend_call_def settle_provider_spend_usage_def keyed_usage_def reserved_event_def call_request_of_def
      held_grant_def sample_spend_grant_def new_grant_def sample_budget_def)

lemma prov_request:
  "\<exists>payload. build_provider_request prov_env sample_request op_sample_ctx prov_limits plan_sample = Inr (40, payload) \<and>
     payload \<in> range (redact_value prov_machine)"
proof -
  have "\<not> list_ex sensitive_scope (oc_paths op_sample_ctx)" by code_simp
  then show ?thesis
    by (simp add: build_provider_request_def sample_request_def prov_limits_def prov_env_def plan_sample_env_def
        assemble_planning_context_def resolved_def from_option_def prov_machine_def op_sample_machine_def op_sample_ctx_def Let_def)
qed

lemma prov_called:
  "\<exists>t. plan_with_provider prov_env sample_request op_sample_ctx (Some prov_adapter) None None prov_limits prov_sample =
     (Inl (PvSpend (SpendRaised ''actuals exceed reservation hold'')), t) \<and> px_calls t \<noteq> []"
proof -
  obtain payload where req: "build_provider_request prov_env sample_request op_sample_ctx prov_limits plan_sample = Inr (40, payload)"
    and payload: "payload \<in> range (redact_value prov_machine)" using prov_request by blast
  have hash: "request_hash prov_env sample_request payload None None = ''h''"
    by (simp add: request_hash_def prov_env_def plan_sample_env_def prov_machine_def op_sample_machine_def)
  have prior: "prior_provider_planning sample_request (px_db prov_sample) = []"
    by (simp add: prior_provider_planning_def latest_checkpoint_for_step_def prov_sample_def plan_sample_def op_sample_def
        op_sample_leases_def op_db_def dead_sample_db_def empty_db_def)
  obtain d where d: "provider_checkpoint prov_env sample_request ''PROVIDER_ASSISTANCE_REQUIRED''
      [(''request_hash'', JStr ''h''), (''reason'', redact_text (pp_machine prov_env) provider_reason),
       (''context_set_id'', JStr (uuid_str 40)), (''provider_hint'', json_opt None),
       (''model_hint'', json_opt None), (''attempt_limit'', JInt (rq_max_attempts sample_request))] prov_sample =
      Inr (set_px_db d prov_sample)" using prov_checked by blast
  let ?u = "set_px_db d prov_sample" and ?ref = "spend_base_ref sample_request ''h''"
  have none: "usage_keyed 7 r ?u = None" for r by (simp add: usage_keyed_def set_px_db_def prov_sample_def)
  have ref: "allocate_spend_source_ref 7 ?ref ?u = Inr ?ref"
    by (simp add: allocate_spend_source_ref_def free_or_held_def none)
  have env: "pp_now prov_env = 3" "pp_usage_id prov_env = 80" "pp_others prov_env = (\<lambda>x. x)" "pp_machine prov_env = prov_machine"
    by (simp_all add: prov_env_def plan_sample_env_def)
  let ?sp = "(spending ?u)\<lparr>sd_grants := [held_grant], sd_usage := [prov_event ?ref]\<rparr>"
  let ?v = "with_spending ?sp ?u"
  have "\<not> contains_marker payload" using payload redacted_has_no_marker by auto
  then obtain sent rows where gate: "enforce_egress_policy prov_machine (pp_dumps prov_env) 3
      (egress_request_of sample_request ''openai'' ''gpt-4o-mini'') payload (px_disclosures ?v) = (Inr sent, rows)"
    by (simp add: enforce_egress_policy_def Let_def egress_request_of_def record_disclosure_def disclosure_checks_def
        disclosure_row_def or_unknown_def py_len_def continuation_def)
  let ?w = "?v\<lparr>px_disclosures := rows\<rparr>"
  have "spending (called ?ref ''openai'' ''gpt-4o-mini'' sent ?w) = ?sp"
    by (simp add: called_def spending_def with_spending_def set_px_db_def set_pt_db_def set_op_db_def)
  then have settle: "settle_response prov_env sample_request op_sample_ctx prov_limits 40 ''h'' ?ref long_answer
      (called ?ref ''openai'' ''gpt-4o-mini'' sent ?w) =
      (Inl (PvSpend (SpendRaised ''actuals exceed reservation hold'')), called ?ref ''openai'' ''gpt-4o-mini'' sent ?w)"
    using prov_settle_raises [of ?sp ?ref]
    by (simp add: settle_response_def usage_tokens_def prov_env_def long_answer_def jget_def estimate_cost_def
        pricing_per_1k_tokens_def round_thousandth_def Let_def)
  have "ask_provider prov_env sample_request op_sample_ctx prov_limits prov_adapter None None 40 ''h'' payload ?u =
      (Inl (PvSpend (SpendRaised ''actuals exceed reservation hold'')), called ?ref ''openai'' ''gpt-4o-mini'' sent ?w)"
    using ref prov_hold [OF prov_ref, of d] gate settle none
    by (simp add: ask_provider_def prov_adapter_def missing_text_def reserve_and_call_def env reserved_event_def
        gate_and_call_def call_provider_def Let_def)
  moreover have "px_plan prov_sample = plan_sample" by (simp add: prov_sample_def)
  ultimately have "plan_with_provider prov_env sample_request op_sample_ctx (Some prov_adapter) None None prov_limits prov_sample =
      (Inl (PvSpend (SpendRaised ''actuals exceed reservation hold'')), called ?ref ''openai'' ''gpt-4o-mini'' sent ?w)"
    using prior by (simp add: plan_with_provider_def prov_assessed prov_no_recipe req hash replayable_def jget_def d Let_def)
  then show ?thesis by (simp add: called_def)
qed



theorem registry_without_names_never_calls_witness:
  "\<exists>r t. plan_with_provider prov_env sample_request op_sample_ctx None None None prov_limits prov_sample = (r, t) \<and>
     px_calls t = [] \<and> px_usage t = []"
proof -
  obtain r t where "plan_with_provider prov_env sample_request op_sample_ctx None None None prov_limits prov_sample = (r, t)"
    by fastforce
  with registry_without_names_never_calls [OF this] show ?thesis by (auto simp: prov_sample_def)
qed

end
