(* ===== verification/Supervisor.thy ===== *)
theory Supervisor
  imports ProviderPlanning
begin

text \<open>
  The supervisor of one authorized goal, \<open>app/development_supervisor/service.py\<close>, \<open>plan_scope_narrowing.py\<close> and
  \<open>production_entry.py\<close>: what it may do, which task it takes, the plan it makes for it, the boundary it hands to the
  driver, and the loop over its tasks. The gap service, which records problems and inserts repair tasks, is the
  parameter \<open>gap_service\<close>; feasibility of a life intent is \<open>sv_intent\<close>. \<open>ss_drives\<close> lists the plans given to the driver.
\<close>

section \<open>Scope and bindings\<close>

record supervisor_scope =
  sc_owner :: uuid
  sc_goal :: uuid
  sc_kind :: string
  sc_ref :: string
  sc_instruction :: string
  sc_repository :: string
  sc_paths :: "string list"
  sc_caps :: "string list"
  sc_risk :: string
  sc_criteria :: "string list"
  sc_intent :: "uuid option"
  sc_self_work :: bool
  sc_spend :: bool

record supervisor_bounds =
  bd_max_candidates :: int
  bd_max_jobs :: int
  bd_max_elapsed :: int
  bd_max_members :: int

record sup_state =
  ss_prov :: provider_state
  ss_learn :: learning
  ss_drives :: "(operator_context \<times> development_plan) list"

datatype sup_error =
    SvRefused string
  | SvRaised string
  | SvRuntime error
  | SvPlanner planner_error
  | SvProvider provider_error
  | SvDriver driver_error

abbreviation ss_db :: "sup_state \<Rightarrow> db" where "ss_db s \<equiv> px_db (ss_prov s)"

definition set_ss_db :: "db \<Rightarrow> sup_state \<Rightarrow> sup_state" where
  "set_ss_db d s = s\<lparr>ss_prov := set_px_db d (ss_prov s)\<rparr>"

definition set_ss_plan :: "plan_state \<Rightarrow> sup_state \<Rightarrow> sup_state" where
  "set_ss_plan p s = s\<lparr>ss_prov := (ss_prov s)\<lparr>px_plan := p\<rparr>\<rparr>"

record work_binding =
  wb_task :: uuid
  wb_prepare :: "mainai_task \<Rightarrow> mainai_job \<Rightarrow> sup_state \<Rightarrow> (sup_error + operator_context) \<times> sup_state"
  wb_candidate :: "plan_candidate option"
  wb_adapter :: "planning_adapter option"
  wb_required :: "json list"
  wb_contribution :: string
  wb_independent :: bool
  wb_ambiguities :: "string list"
  wb_contradictions :: "string list"
  wb_provider_likely :: bool
  wb_repository :: string
  wb_paths :: "string list"
  wb_fallback :: bool

record assessment =
  as_task :: uuid
  as_purpose :: string
  as_status :: string
  as_actionable :: bool
  as_reason :: string
  as_priority :: int
  as_contribution :: string
  as_code :: "string option"

record sup_result =
  sr_class :: string
  sr_completed :: nat
  sr_selected :: "uuid list"
  sr_candidates :: "assessment list"
  sr_reason :: json
  sr_followup :: "string option"

text \<open>What the supervisor reads and writes of the gap service.\<close>

record gap_problem =
  gp_source :: "uuid option"
  gp_envelope :: json

datatype gap_answer = GapLeaseLost | GapFailed | GapNone | GapHandled string "uuid option" "uuid list"

record gap_service =
  ga_child :: "sup_state \<Rightarrow> uuid \<Rightarrow> mainai_task \<Rightarrow> bool"
  ga_problem :: "sup_state \<Rightarrow> uuid \<Rightarrow> mainai_task \<Rightarrow> gap_problem option"
  ga_binding :: "sup_state \<Rightarrow> supervisor_scope \<Rightarrow> mainai_task \<Rightarrow> work_binding option"
  ga_signal ::
    "supervisor_scope \<Rightarrow> mainai_task \<Rightarrow> string \<Rightarrow> json \<Rightarrow> operator_context \<Rightarrow> string list \<Rightarrow> jdict \<Rightarrow> nat \<times> nat \<times> nat \<Rightarrow>
     sup_state \<Rightarrow> gap_answer \<times> sup_state"
  ga_resume :: "mainai_task \<Rightarrow> sup_state \<Rightarrow> mainai_task option \<times> sup_state"

record sup_env =
  sv_runtime :: runtime_env
  sv_commits :: "db \<Rightarrow> db"
  sv_now :: "nat \<Rightarrow> time"
  sv_elapsed :: "nat \<Rightarrow> int"
  sv_job_id :: "nat \<Rightarrow> uuid"
  sv_evidence_id :: "nat \<Rightarrow> uuid"
  sv_provider :: "nat \<Rightarrow> provider_env"
  sv_limits :: planning_limits
  sv_driver :: "nat \<Rightarrow> driver_env"
  sv_jitter :: "int \<Rightarrow> int"
  sv_intent :: "uuid \<Rightarrow> uuid \<Rightarrow> sup_state \<Rightarrow> sup_error + bool"
  sv_founder :: "nat \<Rightarrow> sup_state \<Rightarrow> sup_state"
  sv_worker :: string
  sv_gap :: gap_service

definition intersect_path_envelopes :: "string list list \<Rightarrow> string list" where
  "intersect_path_envelopes sets =
     (case filter (\<lambda>ps. ps \<noteq> []) sets of
        [] \<Rightarrow> []
      | ps # rest \<Rightarrow> sort (remdups (filter (\<lambda>p. list_all (\<lambda>qs. p \<in> set qs) rest) ps)))"

definition bind_execution_context ::
  "supervisor_scope \<Rightarrow> work_binding \<Rightarrow> operator_context \<Rightarrow> sup_error + operator_context" where
  "bind_execution_context sc b ctx =
     (if wb_paths b = [] then Inl (SvRefused ''WorkBinding.allowed_paths is required for execution'')
      else let effective = intersect_path_envelopes
                 [sc_paths sc, wb_paths b, if oc_paths ctx = [] then sc_paths sc else oc_paths ctx]
           in if effective = [] then Inl (SvRefused ''effective path envelope is empty'')
              else if \<not> set effective \<subseteq> set (wb_paths b)
              then Inl (SvRefused ''effective paths escape WorkBinding.allowed_paths'')
              else if \<not> set effective \<subseteq> set (sc_paths sc)
              then Inl (SvRefused ''effective paths escape SupervisorScope.allowed_paths'')
              else Inr (ctx\<lparr>oc_paths := effective\<rparr>))"

definition reverify_contract :: "gap_problem option \<Rightarrow> jdict option" where
  "reverify_contract problem =
     (case problem of
        None \<Rightarrow> None
      | Some p \<Rightarrow> (case jget (json_dict (gp_envelope p)) ''reverify'' of JObj d \<Rightarrow> Some d | _ \<Rightarrow> None))"

definition reverify_gate :: candidate_step where
  "reverify_gate =
     (recipe_step ''gate'' ''evaluate verification evidence'' ''verification pass'' ''verification_evaluate'' [] [''verify'']
        ''READ_ONLY'' False)"

definition reverify_plan :: "string \<Rightarrow> string \<Rightarrow> candidate_step \<Rightarrow> plan_candidate" where
  "reverify_plan outcome rationale step =
     recipe ''re-verify original work after autonomous repair'' outcome rationale [] [] [] [step, reverify_gate]"

definition reverify_candidate_for_source :: "py_conv \<Rightarrow> gap_problem option \<Rightarrow> sup_error + plan_candidate" where
  "reverify_candidate_for_source py problem =
     (case reverify_contract problem of
        None \<Rightarrow> Inl (SvRefused ''gap envelope lacks a structured reverify contract'')
      | Some d \<Rightarrow>
          if jget d ''capability'' = JStr ''run_focused_test''
          then (case jget d ''arguments'' of
                  JArr (x # xs) \<Rightarrow>
                    let profile = (if truthy (jget d ''profile_name'') then jget d ''profile_name'' else JStr ''focused_pytest'')
                    in Inr (reverify_plan ''original verification passes on the repaired repository''
                         ''run the structured verification contract from the gap envelope only''
                         (recipe_step ''verify'' ''run structured focused verification'' ''pytest pass'' ''run_focused_test''
                            [(''profile_name'', profile), (''arguments'', text_array (map (py_str py) (x # xs)))] []
                            ''LOCAL_EXECUTION'' True))
                | v \<Rightarrow> Inl (SvRefused ''focused-test contract missing arguments''))
          else if jget d ''capability'' = JStr ''run_static_check''
          then Inr (reverify_plan ''original static verification passes''
                 ''run the structured static-check contract from the gap envelope only''
                 (recipe_step ''verify'' ''run structured static check'' ''static pass'' ''run_static_check'' [] []
                    ''LOCAL_EXECUTION'' True))
          else Inl (SvRefused ''unsupported re-verification capability''))"

section \<open>What may be done\<close>

definition supervised_goal :: "supervisor_scope \<Rightarrow> db \<Rightarrow> sup_error + mainai_goal" where
  "supervised_goal sc d =
     from_option (SvRefused ''parent goal is missing or belongs to another owner'')
       (find_row (\<lambda>g. g_id g = sc_goal sc \<and> g_owner g = sc_owner sc) (goals d))"

definition risk_order :: "string \<Rightarrow> nat option" where
  "risk_order w = map_of [(''low'', 0), (''medium'', 1), (''high'', 2)] w"

text \<open>The goal, and the classification and reason that end the invocation, if any.\<close>

definition validate_scope ::
  "sup_env \<Rightarrow> (string \<Rightarrow> string) \<Rightarrow> supervisor_scope \<Rightarrow> sup_state \<Rightarrow> sup_error + (mainai_goal \<times> (string \<times> string) option)" where
  "validate_scope env sha sc s =
     sbind (supervised_goal sc (ss_db s)) (\<lambda>g.
     if sc_kind sc \<notin> authorized_kinds \<or> strip_chars is_space (sc_ref sc) = []
     then Inr (g, Some (''NEEDS_AUTHORIZATION'', ''explicit founder authority is required''))
     else if sha (g_original_instruction g) \<noteq> sc_instruction sc
     then Inr (g, Some (''AUTHORITY_CHANGED'', ''founder instruction changed or was superseded''))
     else if risk_order (sc_risk sc) = None then Inl (SvRefused ''risk envelope is invalid'')
     else if strip_chars is_space (sc_repository sc) = [] \<or> sc_paths sc = []
     then Inl (SvRefused ''bounded repository/path scope is required'')
     else if sc_caps sc = [] \<or> \<not> set (sc_caps sc) \<subseteq> fst ` set development_capabilities
     then Inl (SvRefused ''capability envelope contains missing or unsafe capability'')
     else if g_status g = GCancelled then Inr (g, Some (''CANCELLED'', ''goal is terminal''))
     else if g_status g = GCompleted then Inr (g, Some (''COMPLETE'', ''goal is terminal''))
     else case sc_intent sc of
            None \<Rightarrow> Inr (g, None)
          | Some i \<Rightarrow>
              sbind (sv_intent env (sc_owner sc) i s) (\<lambda>actionable.
              Inr (g, if actionable then None else Some (''BLOCKED'', ''linked Life Intent is not actionable''))))"

definition scoped_tasks :: "supervisor_scope \<Rightarrow> db \<Rightarrow> mainai_task list" where
  "scoped_tasks sc d =
     sort_key (\<lambda>t. (- t_priority t, t_created_at t, t_id t))
       (filter (\<lambda>t. t_owner t = sc_owner sc \<and> t_goal t = sc_goal sc) (tasks d))"

definition ended_statuses :: "task_status set" where
  "ended_statuses = {TCompleted, TFailed, TCancelled}"

definition binding_of :: "work_binding list \<Rightarrow> uuid \<Rightarrow> work_binding option" where
  "binding_of bs i = map_of (rev (map (\<lambda>b. (wb_task b, b)) bs)) i"

definition task_is :: "mainai_task \<Rightarrow> string" where
  "task_is t = ''task is '' @ task_status_value (t_status t)"

definition objection :: "supervisor_scope \<Rightarrow> mainai_task \<Rightarrow> work_binding option \<Rightarrow> string option" where
  "objection sc t b =
     (if t_status t \<in> ended_statuses \<or> t_status t \<in> {TWaitingExternal, TWaitingCi} then Some (task_is t)
      else if t_status t \<in> {TBlocked, TPending}
      then Some (case t_blocker_reason t of Some (c # w) \<Rightarrow> c # w | _ \<Rightarrow> task_is t)
      else case b of
             None \<Rightarrow> Some ''execution binding is unavailable''
           | Some b \<Rightarrow>
               if wb_repository b \<noteq> sc_repository sc \<or> \<not> set (wb_paths b) \<subseteq> set (sc_paths sc)
               then Some ''out_of_scope repository or path binding''
               else if the (risk_order (sc_risk sc)) < the (risk_order (risk_value (t_risk t)))
               then Some ''task exceeds authorized risk envelope''
               else if \<not> set (wb_required b) \<subseteq> JStr ` set (sc_caps sc)
               then Some ''required capability is outside authorized envelope''
               else if wb_ambiguities b \<noteq> [] then Some ''material ambiguity remains''
               else if wb_contradictions b \<noteq> [] then Some ''founder authority contradiction remains''
               else None)"

definition assess_task :: "supervisor_scope \<Rightarrow> work_binding list \<Rightarrow> mainai_task \<Rightarrow> assessment" where
  "assess_task sc bs t =
     (let b = binding_of bs (t_id t); why = objection sc t b
      in \<lparr>as_task = t_id t, as_purpose = t_description t, as_status = task_status_value (t_status t),
          as_actionable = (why = None \<and> t_status t \<in> {TReady, TRunning}),
          as_reason = (case why of None \<Rightarrow> ''canonical task is ready'' | Some w \<Rightarrow> w), as_priority = t_priority t,
          as_contribution = (case b of None \<Rightarrow> [] | Some x \<Rightarrow> wb_contribution x), as_code = None\<rparr>)"

text \<open>The scope has been validated before, so its risk is one of the three.\<close>

definition discover_candidates ::
  "supervisor_scope \<Rightarrow> work_binding list \<Rightarrow> supervisor_bounds \<Rightarrow> db \<Rightarrow> sup_error + assessment list" where
  "discover_candidates sc bs bd d =
     (if \<not> (1 \<le> bd_max_candidates bd \<and> bd_max_candidates bd \<le> 100) then Inl (SvRefused ''candidate bound is invalid'')
      else if bd_max_candidates bd < int (length (scoped_tasks sc d)) then Inl (SvRefused ''candidate discovery bound reached'')
      else Inr (map (assess_task sc bs) (scoped_tasks sc d)))"

definition idle_class :: "assessment list \<Rightarrow> string \<times> string" where
  "idle_class xs =
     (let codes = set (map as_code xs)
      in if list_ex (\<lambda>x. sublist ''out_of_scope'' (as_reason x)) xs
         then (''OUT_OF_SCOPE'', ''candidate repository/path scope is unauthorized'')
         else if Some ''CAPABILITY_MISSING'' \<in> codes
         then (''CAPABILITY_MISSING'', ''a bounded candidate has a durable capability gap'')
         else if Some ''VERIFICATION_REQUIRED'' \<in> codes
         then (''VERIFICATION_REQUIRED'', ''a bounded candidate requires verification repair'')
         else if Some ''PROVIDER_SPEND_NOT_AUTHORIZED'' \<in> codes
         then (''PROVIDER_SPEND_NOT_AUTHORIZED'', ''provider-assisted planning is not authorized for this scope'')
         else if Some ''WAITING_PROVIDER'' \<in> codes
         then (''WAITING_PROVIDER'', ''provider-dependent work is waiting'')
         else if Some ''GAP_GENERATION_ERROR'' \<in> codes
         then (''BLOCKED'', ''gap generation failed closed with no other actionable work'')
         else (''BLOCKED'', ''no bounded candidate is currently actionable''))"

definition select_candidate :: "assessment list \<Rightarrow> assessment option \<times> string \<times> string" where
  "select_candidate xs =
     (let actionable = filter as_actionable xs;
          tied = filter (\<lambda>x. as_priority x = Max (set (map as_priority actionable))) actionable
      in if actionable = [] then (None, idle_class xs)
         else case tied of
                [x] \<Rightarrow> (Some x, ''SELECTED'', ''highest-priority actionable canonical task'')
              | _ \<Rightarrow> (None, ''NEEDS_SELECTION'', ''materially tied tasks have equal canonical priority''))"

definition deferred_message :: "string \<Rightarrow> string" where
  "deferred_message code =
     case_option code id (map_of
       [(''CAPABILITY_MISSING'', ''capability missing; bounded capability child required or authorization pending''),
        (''VERIFICATION_REQUIRED'', ''verification failed or remains incomplete; bounded repair required''),
        (''PROVIDER_SPEND_NOT_AUTHORIZED'', ''provider-assisted planning is not authorized for this scope''),
        (''WAITING_PROVIDER'', ''provider planning is unavailable''),
        (''GAP_GENERATION_ERROR'', ''gap generation failed closed; unrelated work may continue'')] code)"

definition apply_deferred :: "(uuid \<times> string) list \<Rightarrow> assessment list \<Rightarrow> assessment list" where
  "apply_deferred deferred xs =
     map (\<lambda>x. case map_of deferred (as_task x) of
                 None \<Rightarrow> x
               | Some code \<Rightarrow> x\<lparr>as_actionable := False, as_code := Some code, as_reason := deferred_message code\<rparr>) xs"

section \<open>The surface of an accepted plan\<close>

definition stripped :: "string \<Rightarrow> string list" where
  "stripped w = (let v = strip_chars is_space w in if v = [] then [] else [v])"

definition item_paths :: "(string \<Rightarrow> bool) \<Rightarrow> json \<Rightarrow> string list" where
  "item_paths p v = (case v of JStr w \<Rightarrow> if p w then stripped w else [] | _ \<Rightarrow> [])"

definition argument_paths :: "string \<times> json \<Rightarrow> string list" where
  "argument_paths = (\<lambda>(k, v).
     if k \<in> path_keys \<and> item_paths (\<lambda>_. True) v \<noteq> [] then item_paths (\<lambda>_. True) v
     else case v of
            JArr xs \<Rightarrow>
              if k = ''paths'' then concat (map (item_paths (\<lambda>_. True)) xs)
              else if k = ''arguments'' then concat (map (item_paths (\<lambda>w. CHR ''/'' \<in> set w \<or> suffix ''.py'' w)) xs)
              else []
          | _ \<Rightarrow> [])"

definition paths_from_arguments :: "jdict \<Rightarrow> string list" where
  "paths_from_arguments d = concat (map argument_paths d)"

text \<open>\<open>dict.fromkeys\<close>: the first occurrences, in order.\<close>

definition first_occurrences :: "string list \<Rightarrow> string list" where
  "first_occurrences xs = rev (remdups (rev xs))"

definition operator_step :: "driver_step \<Rightarrow> bool" where
  "operator_step st \<longleftrightarrow> dp_capability st \<notin> driver_directives"

definition cited_paths :: "development_plan \<Rightarrow> string list" where
  "cited_paths p = first_occurrences (concat (map (\<lambda>st. paths_from_arguments (dp_arguments st)) (pn_steps p)))"

definition cited_capabilities :: "development_plan \<Rightarrow> string list" where
  "cited_capabilities p =
     first_occurrences (filter (\<lambda>c. c \<noteq> [] \<and> c \<notin> driver_directives) (map dp_capability (pn_steps p)))"

definition narrow_task_scope ::
  "string list \<Rightarrow> string list \<Rightarrow> development_plan \<Rightarrow> string + (string list \<times> string list)" where
  "narrow_task_scope paths caps p =
     (if \<not> set (cited_paths p) \<subseteq> set paths - {[]} then Inl ''accepted plan cites paths outside the founder envelope''
      else if \<not> set (cited_capabilities p) \<subseteq> set caps - {[]}
      then Inl ''accepted plan cites capabilities outside the founder envelope''
      else Inr (cited_paths p, cited_capabilities p))"

text \<open>
  The boundary of the driver: an error of narrowing ends the invocation as out of scope, one of binding is raised.
  A plan of directives only keeps the context it was planned in.
\<close>

definition execution_boundary ::
  "supervisor_scope \<Rightarrow> work_binding \<Rightarrow> operator_context \<Rightarrow> development_plan \<Rightarrow> sup_error + (string + operator_context)" where
  "execution_boundary sc b ctx p =
     (case narrow_task_scope (sc_paths sc) (sc_caps sc) p of
        Inl why \<Rightarrow> Inr (Inl why)
      | Inr (paths, caps) \<Rightarrow>
          if \<not> list_ex operator_step (pn_steps p) then Inr (Inr ctx)
          else if paths = [] then Inr (Inl ''accepted plan cites no paths; refusing to fall back to full envelope'')
          else if caps = [] then Inr (Inl ''accepted plan cites no capabilities; refusing to fall back to full envelope'')
          else map_sum id Inr (bind_execution_context sc b (ctx\<lparr>oc_paths := paths, oc_caps := caps\<rparr>)))"

section \<open>Bindings of gap children and repaired sources\<close>

definition completed_repair_for :: "gap_service \<Rightarrow> uuid \<Rightarrow> mainai_task \<Rightarrow> sup_state \<Rightarrow> gap_problem option" where
  "completed_repair_for ga owner t s =
     (let siblings = filter (\<lambda>x. t_owner x = owner \<and> t_goal x = t_goal t \<and> t_id x \<noteq> t_id t \<and> t_status x = TCompleted)
            (tasks (ss_db s));
          found = (\<lambda>x. case ga_problem ga s owner x of
             None \<Rightarrow> None
           | Some p \<Rightarrow> if gp_source p = Some (t_id t) \<and> reverify_contract (Some p) \<noteq> None then Some p else None)
      in case List.find (\<lambda>x. found x \<noteq> None) siblings of None \<Rightarrow> None | Some x \<Rightarrow> found x)"

definition or_texts :: "json \<Rightarrow> string list \<Rightarrow> json" where
  "or_texts v ws = (if truthy v then v else text_array ws)"

definition reverify_binding ::
  "sup_env \<Rightarrow> py_conv \<Rightarrow> supervisor_scope \<Rightarrow> mainai_task \<Rightarrow>
   (mainai_task \<Rightarrow> mainai_job \<Rightarrow> sup_state \<Rightarrow> (sup_error + operator_context) \<times> sup_state) \<Rightarrow> work_binding \<Rightarrow> sup_state \<Rightarrow>
   sup_error + work_binding option" where
  "reverify_binding env py sc t prepare b s =
     (if wb_candidate b \<noteq> None \<or> wb_fallback b \<or> ga_child (sv_gap env) s (sc_owner sc) t \<or> t_status t \<notin> {TReady, TRunning}
      then Inr None
      else case completed_repair_for (sv_gap env) (sc_owner sc) t s of
             None \<Rightarrow> Inr None
           | Some p \<Rightarrow>
               (case reverify_candidate_for_source py (Some p) of
                  Inl e \<Rightarrow> Inr None
                | Inr c \<Rightarrow>
                    let envelope = json_dict (gp_envelope p)
                    in case (json_iter (or_texts (or_texts (jget envelope ''allowed_paths'') (wb_paths b)) (sc_paths sc)),
                             json_iter (or_texts (jget envelope ''required_capabilities'') [''run_focused_test'', ''run_static_check''])) of
                         (Some paths, Some required) \<Rightarrow>
                           let kept = concat (map (\<lambda>v. case v of JStr w \<Rightarrow> if w \<in> set (sc_paths sc) then [w] else [] | _ \<Rightarrow> []) paths)
                           in Inr (if kept = [] then None
                                   else Some \<lparr>wb_task = t_id t, wb_prepare = prepare, wb_candidate = Some c, wb_adapter = None,
                                          wb_required = required, wb_contribution = ''re-verify original work after repair'',
                                          wb_independent = True, wb_ambiguities = [], wb_contradictions = [],
                                          wb_provider_likely = False, wb_repository = sc_repository sc, wb_paths = kept,
                                          wb_fallback = False\<rparr>)
                       | (None, _) \<Rightarrow> Inl (SvRaised ''TypeError'')
                       | (Some paths, None) \<Rightarrow>
                           if list_ex (\<lambda>v. v \<in> JStr ` set (sc_paths sc)) paths then Inl (SvRaised ''TypeError'') else Inr None))"

text \<open>What replaces or adds to the bindings for one task of the goal.\<close>

definition derived_binding ::
  "sup_env \<Rightarrow> py_conv \<Rightarrow> supervisor_scope \<Rightarrow> work_binding list \<Rightarrow> sup_state \<Rightarrow> mainai_task \<Rightarrow> sup_error + work_binding option" where
  "derived_binding env py sc bs s t =
     (let existing = binding_of bs (t_id t)
      in if ga_child (sv_gap env) s (sc_owner sc) t
         then Inr (case existing of
                     Some b \<Rightarrow> if wb_candidate b \<noteq> None \<or> wb_fallback b then None else ga_binding (sv_gap env) s sc t
                   | None \<Rightarrow> ga_binding (sv_gap env) s sc t)
         else case existing of
                None \<Rightarrow> Inr None
              | Some b \<Rightarrow> reverify_binding env py sc t (wb_prepare (hd bs)) b s)"

definition augment_bindings ::
  "sup_env \<Rightarrow> py_conv \<Rightarrow> supervisor_scope \<Rightarrow> work_binding list \<Rightarrow> sup_state \<Rightarrow> sup_error + work_binding list" where
  "augment_bindings env py sc bs s =
     (if bs = [] then Inr []
      else let ts = filter (\<lambda>t. t_owner t = sc_owner sc \<and> t_goal t = sc_goal sc \<and>
                     t_status t \<in> {TReady, TPending, TRunning, TBlocked}) (tasks (ss_db s))
           in sbind (each (\<lambda>t. map_sum id (\<lambda>b. (t_id t, b)) (derived_binding env py sc bs s t)) ts) (\<lambda>found.
                let derived = List.map_filter (\<lambda>(i, b). map_option (\<lambda>x. (i, x)) b) found
                in Inr (map (\<lambda>b. case map_of derived (wb_task b) of None \<Rightarrow> b | Some x \<Rightarrow> x) bs @
                        map snd (filter (\<lambda>(i, x). binding_of bs i = None) derived))))"

section \<open>Checkpoints\<close>

definition uuid_array :: "uuid list \<Rightarrow> json" where
  "uuid_array is = text_array (map uuid_str is)"

definition sup_checkpoint ::
  "time \<Rightarrow> mainai_goal \<Rightarrow> uuid option \<Rightarrow> uuid option \<Rightarrow> string \<Rightarrow> jdict \<Rightarrow> sup_state \<Rightarrow> sup_state" where
  "sup_checkpoint now g tid job phase state s =
     set_ss_db ((ss_db s)\<lparr>checkpoints := checkpoints (ss_db s) @
        [\<lparr>c_goal = g_id g, c_task = tid, c_owner = g_owner g, c_plan_version = g_current_plan_version g,
          c_state = [(''job_id'', case job of None \<Rightarrow> JNull | Some j \<Rightarrow> JStr (uuid_str j)),
            (''step'', JStr ''development_supervisor''), (''phase'', JStr phase), (''supervisor_state'', JObj state)],
          c_created_at = now\<rparr>]\<rparr>) s"

text \<open>Newest first; among equal times the row written last.\<close>

definition latest_state :: "supervisor_scope \<Rightarrow> db \<Rightarrow> jdict" where
  "latest_state sc d =
     (case find_row (\<lambda>c. jget (c_state c) ''step'' = JStr ''development_supervisor'')
             (rev (sort_key c_created_at (filter (\<lambda>c. c_goal c = sc_goal sc \<and> c_owner c = sc_owner sc) (checkpoints d)))) of
        None \<Rightarrow> [] | Some c \<Rightarrow> json_dict (jget (c_state c) ''supervisor_state''))"

definition completed_before :: "supervisor_scope \<Rightarrow> db \<Rightarrow> sup_error + uuid list" where
  "completed_before sc d =
     (case json_iter (get_default (latest_state sc d) ''completed_task_ids'' (JArr [])) of
        None \<Rightarrow> Inl (SvRaised ''TypeError'')
      | Some xs \<Rightarrow> each (\<lambda>v. from_option (SvRaised ''ValueError'') (json_uuid v)) xs)"

section \<open>One turn\<close>

record sup_run =
  run_bindings :: "work_binding list"
  run_deferred :: "(uuid \<times> string) list"
  run_selected :: "uuid list"
  run_jobs :: nat
  run_last :: "assessment list"
  run_gaps :: "nat \<times> nat \<times> nat"

datatype sup_turn = SupEnds "sup_error + sup_result" | SupGoes sup_run

definition sup_result_of :: "string \<Rightarrow> sup_run \<Rightarrow> json \<Rightarrow> string option \<Rightarrow> sup_result" where
  "sup_result_of cls run reason followup =
     \<lparr>sr_class = cls, sr_completed = length (run_selected run), sr_selected = run_selected run,
      sr_candidates = run_last run, sr_reason = reason, sr_followup = followup\<rparr>"

definition ends :: "string \<Rightarrow> sup_run \<Rightarrow> json \<Rightarrow> string option \<Rightarrow> sup_turn" where
  "ends cls run reason followup = SupEnds (Inr (sup_result_of cls run reason followup))"

definition selected_state :: "sup_run \<Rightarrow> uuid \<Rightarrow> jdict" where
  "selected_state run tid =
     [(''completed_task_ids'', uuid_array (run_selected run)), (''selected_task_id'', JStr (uuid_str tid))]"

definition gap_counts :: "sup_run \<Rightarrow> jdict" where
  "gap_counts run =
     (case run_gaps run of (gaps, children, open_gaps) \<Rightarrow>
        [(''gaps_recorded_this_run'', JInt (int gaps)), (''children_inserted_this_run'', JInt (int children)),
         (''unresolved_gaps_this_run'', JInt (int open_gaps))])"

definition defers :: "uuid \<Rightarrow> string \<Rightarrow> sup_run \<Rightarrow> sup_run" where
  "defers tid code run = run\<lparr>run_deferred := (tid, code) # filter (\<lambda>x. fst x \<noteq> tid) (run_deferred run)\<rparr>"

text \<open>Nothing is selected: the goal is complete, or the reason is recorded.\<close>

fun joined_by :: "string \<Rightarrow> string list \<Rightarrow> string" where
  "joined_by sep [] = []"
| "joined_by sep [w] = w"
| "joined_by sep (w # ws) = w @ sep @ joined_by sep ws"

definition complete_goal :: "time \<Rightarrow> supervisor_scope \<Rightarrow> db \<Rightarrow> db" where
  "complete_goal now sc d =
     d\<lparr>goals := update_rows (\<lambda>g. g_id g = sc_goal sc \<and> g_owner g = sc_owner sc)
         (\<lambda>g. g\<lparr>g_status := GCompleted, g_completed_at := Some now,
                g_final_outcome := Some (JStr (joined_by ''; '' (sc_criteria sc)))\<rparr>) (goals d)\<rparr>"

definition settle_idle ::
  "sup_env \<Rightarrow> nat \<Rightarrow> supervisor_scope \<Rightarrow> sup_run \<Rightarrow> mainai_goal \<Rightarrow> string \<Rightarrow> string \<Rightarrow> sup_state \<Rightarrow> sup_turn \<times> sup_state" where
  "settle_idle env n sc run g cls why s =
     (let finished = list_all (\<lambda>x. as_status x \<in> {''completed'', ''cancelled''}) (run_last run);
          noted = (\<lambda>c w. (ends c run (JStr w) (if c = ''VERIFICATION_REQUIRED'' then Some ''verification_repair'' else None),
            sup_checkpoint (sv_now env n) g None None c
              ([(''completed_task_ids'', uuid_array (run_selected run)),
                (''candidate_task_ids'', uuid_array (map as_task (run_last run))), (''reason'', JStr w)] @ gap_counts run) s))
      in if \<not> finished then noted cls why
         else if sc_criteria sc = [] then noted ''NEEDS_CLARIFICATION'' ''parent completion criteria are not explicit''
         else (ends ''COMPLETE'' run (JStr ''all explicit completion criteria have verified child work'') None,
               sup_checkpoint (sv_now env n) g None None ''COMPLETE''
                 [(''completed_task_ids'', uuid_array (run_selected run))]
                 (set_ss_db (complete_goal (sv_now env n) sc (ss_db s)) s)))"

text \<open>Dispatching the task, or taking up the job it runs under.\<close>

definition job_for ::
  "sup_env \<Rightarrow> nat \<Rightarrow> supervisor_scope \<Rightarrow> mainai_goal \<Rightarrow> mainai_task \<Rightarrow> sup_state \<Rightarrow> error + (mainai_job \<times> sup_state)" where
  "job_for env n sc g t s =
     (if t_status t = TReady
      then sbind (dispatch_ready_task (sv_runtime env) (sv_commits env) (sv_now env n) (sv_job_id env n) (t_id t) g
                    (sv_worker env) (ss_db s)) (\<lambda>(d, j). Inr (j, set_ss_db d s))
      else case find_row (\<lambda>j. t_job t = Some (j_id j) \<and> j_owner j = sc_owner sc) (jobs (ss_db s)) of
             None \<Rightarrow> Inl (RowMissing (t_id t))
           | Some j \<Rightarrow> Inr (j, s))"

definition bound_context ::
  "sup_env \<Rightarrow> nat \<Rightarrow> supervisor_scope \<Rightarrow> work_binding \<Rightarrow> mainai_task \<Rightarrow> mainai_job \<Rightarrow> sup_state \<Rightarrow>
   (sup_error + operator_context) \<times> sup_state" where
  "bound_context env n sc b t j s =
     (case wb_prepare b t j s of
        (Inl e, s1) \<Rightarrow> (Inl e, s1)
      | (Inr ctx, s1) \<Rightarrow>
          (if oc_owner ctx \<noteq> sc_owner sc \<or> oc_task ctx \<noteq> t_id t \<or> oc_job ctx \<noteq> j_id j
           then Inl (SvRefused ''execution context escapes authorized owner/repository scope'')
           else case resolved (pp_machine (sv_provider env n)) (oc_root ctx) of
                  Inl e \<Rightarrow> Inl (SvRaised ''resolve'')
                | Inr root \<Rightarrow>
                    if path_str root \<noteq> sc_repository sc
                    then Inl (SvRefused ''execution context escapes authorized owner/repository scope'')
                    else bind_execution_context sc b ctx, s1))"

definition selection_evidence ::
  "sup_env \<Rightarrow> nat \<Rightarrow> supervisor_scope \<Rightarrow> sup_run \<Rightarrow> work_binding \<Rightarrow> mainai_task \<Rightarrow> uuid \<Rightarrow> evidence_row" where
  "selection_evidence env n sc run b t execution =
     \<lparr>ie_id = sv_evidence_id env n, ie_owner = sc_owner sc, ie_execution = execution, ie_kind = ''supervisor_selection'',
      ie_payload =
        [(''candidate_task_ids'', uuid_array (map as_task (run_last run))), (''selected_task_id'', JStr (uuid_str (t_id t))),
         (''selection_reason'', JStr ''highest-priority actionable canonical task''),
         (''expected_contribution'', JStr (wb_contribution b))],
      ie_source_type = ''mainai_goal'', ie_source_ref = uuid_str (sc_goal sc), ie_review = ''deterministic_tool'',
      ie_deterministic = True, ie_key = ''supervisor-select:'' @ uuid_str (t_id t)\<rparr>"

definition record_selection ::
  "sup_env \<Rightarrow> nat \<Rightarrow> supervisor_scope \<Rightarrow> sup_run \<Rightarrow> work_binding \<Rightarrow> mainai_task \<Rightarrow> operator_context \<Rightarrow> sup_state \<Rightarrow>
   sup_error + sup_state" where
  "record_selection env n sc run b t ctx s =
     (case find_row (\<lambda>x. sb_id x = oc_strategy ctx \<and> sb_owner x = sc_owner sc) (os_bindings (pt_op (px_plan (ss_prov s)))) of
        None \<Rightarrow> Inl (SvRaised ''NoResultFound'')
      | Some x \<Rightarrow>
          (case record_evidence (selection_evidence env n sc run b t (sb_execution x)) (px_plan (ss_prov s)) of
             Inl e \<Rightarrow> Inl (SvPlanner e)
           | Inr (_, p) \<Rightarrow> Inr (set_ss_plan p s)))"

definition founder_request ::
  "supervisor_scope \<Rightarrow> supervisor_bounds \<Rightarrow> work_binding \<Rightarrow> mainai_goal \<Rightarrow> mainai_task \<Rightarrow> mainai_job \<Rightarrow> planning_request" where
  "founder_request sc bd b g t j =
     \<lparr>rq_owner = sc_owner sc, rq_goal = g_id g, rq_task = t_id t, rq_job = j_id j,
      rq_instruction = g_original_instruction g, rq_kind = sc_kind sc, rq_basis = ''manual'', rq_source = sc_ref sc,
      rq_outcome = t_description t, rq_constraints = [], rq_prohibitions = [], rq_superseded = False,
      rq_ambiguities = wb_ambiguities b, rq_contradictions = wb_contradictions b, rq_resolutions = [],
      rq_repository = Some (sc_repository sc), rq_max_members = bd_max_members bd, rq_max_steps = 20,
      rq_max_alternatives = 3, rq_max_elapsed = 60, rq_max_attempts = 1\<rparr>"

section \<open>The plan of a task\<close>

definition live_provider_spend_authorized :: "time \<Rightarrow> supervisor_scope \<Rightarrow> provider_state \<Rightarrow> bool \<times> provider_state" where
  "live_provider_spend_authorized now sc s =
     (if \<not> sc_spend sc then (False, s)
      else if sc_kind sc = ''authorized_goal'' \<and> uuid_parse (sc_ref sc) = None then (False, s)
      else case provider_spend_is_live now (sc_owner sc) (sc_goal sc)
                  (if sc_kind sc = ''authorized_goal'' then uuid_parse (sc_ref sc) else None) (spending s) of
             (sp, live) \<Rightarrow> (live, with_spending sp s))"

text \<open>A planning result, or \<open>None\<close> where a provider may not be paid.\<close>

type_synonym sup_planning = "(sup_error + planning_result option) \<times> sup_state"

definition planned_here :: "planner_env \<Rightarrow> planning_request \<Rightarrow> operator_context \<Rightarrow> plan_candidate option \<Rightarrow> sup_state \<Rightarrow>
    planner_error + (planning_result \<times> sup_state)" where
  "planned_here env rq ctx c s =
     map_sum id (\<lambda>(r, p). (r, set_ss_plan p s)) (plan_founder_request env rq ctx c (px_plan (ss_prov s)))"

definition with_provider ::
  "sup_env \<Rightarrow> nat \<Rightarrow> supervisor_scope \<Rightarrow> planning_request \<Rightarrow> operator_context \<Rightarrow> work_binding \<Rightarrow> sup_state \<Rightarrow> sup_planning" where
  "with_provider env n sc rq ctx b s =
     (let (live, x) = live_provider_spend_authorized (sv_now env n) sc (ss_prov s); s1 = s\<lparr>ss_prov := x\<rparr>
      in if \<not> live then (Inr None, s1)
         else case plan_with_provider (sv_provider env n) rq ctx (wb_adapter b) None None (sv_limits env) (ss_prov s1) of
                (Inl e, y) \<Rightarrow> (Inl (SvProvider e), s1\<lparr>ss_prov := y\<rparr>)
              | (Inr r, y) \<Rightarrow> (Inr (Some r), s1\<lparr>ss_prov := y\<rparr>))"

definition recipe_of :: "gap_problem option \<Rightarrow> json" where
  "recipe_of problem = (case problem of None \<Rightarrow> JNull | Some p \<Rightarrow> jget (json_dict (gp_envelope p)) ''repair_recipe'')"

definition plan_task ::
  "sup_env \<Rightarrow> nat \<Rightarrow> supervisor_scope \<Rightarrow> planning_request \<Rightarrow> operator_context \<Rightarrow> work_binding \<Rightarrow> mainai_task \<Rightarrow> sup_state \<Rightarrow>
   sup_planning" where
  "plan_task env n sc rq ctx b t s =
     (let penv = pp_planner (sv_provider env n)
      in case wb_candidate b of
           Some c \<Rightarrow>
             (case planned_here penv rq ctx (Some c) s of Inl e \<Rightarrow> (Inl (SvPlanner e), s) | Inr (r, s1) \<Rightarrow> (Inr (Some r), s1))
         | None \<Rightarrow>
             if \<not> wb_fallback b then with_provider env n sc rq ctx b s
             else let recipe = recipe_of (ga_problem (sv_gap env) s (sc_owner sc) t);
                      candidate = (if recipe = JStr ''multiplication_repair''
                        then map_sum id Some (build_multiplication_repair_candidate (pv_machine penv) ctx (pt_op (px_plan (ss_prov s))))
                        else Inr None)
                  in (case sbind candidate (\<lambda>c. planned_here penv rq ctx c s) of
                        Inl (CandidateInvalid why) \<Rightarrow>
                          (Inr (Some \<lparr>pr_class = ''OUT_OF_SCOPE'', pr_detail = [(''reason'', JStr why), (''repair_recipe'', recipe)],
                                 pr_plan = None, pr_context = None\<rparr>), s)
                      | Inl e \<Rightarrow> (Inl (SvPlanner e), s)
                      | Inr (r, s1) \<Rightarrow>
                          if pr_class r = ''WAITING_PROVIDER'' then with_provider env n sc rq ctx b s1 else (Inr (Some r), s1)))"

section \<open>Gaps\<close>

definition gap_json :: "string \<Rightarrow> uuid option \<Rightarrow> uuid list \<Rightarrow> json" where
  "gap_json cls problem ids =
     JObj [(''classification'', JStr cls), (''problem_id'', case problem of None \<Rightarrow> JNull | Some i \<Rightarrow> JStr (uuid_str i)),
           (''inserted_task_ids'', uuid_array ids)]"

text \<open>\<open>_invoke_live_gap\<close>: the error code, what was generated, and the counters and bindings of the run.\<close>

definition invoke_gap ::
  "sup_env \<Rightarrow> nat \<Rightarrow> supervisor_scope \<Rightarrow> sup_run \<Rightarrow> mainai_task \<Rightarrow> string \<Rightarrow> json \<Rightarrow> operator_context \<Rightarrow> work_binding \<Rightarrow>
   jdict \<Rightarrow> sup_state \<Rightarrow> (sup_error + (string option \<times> json \<times> sup_run)) \<times> sup_state" where
  "invoke_gap env n sc run t cls cap ctx b detail s =
     (case ga_signal (sv_gap env) sc t cls cap ctx (wb_paths b) detail (run_gaps run) s of
        (GapLeaseLost, s1) \<Rightarrow> (Inr (Some ''GapLeaseLostError'', JNull, run), s1)
      | (GapFailed, s1) \<Rightarrow> (Inr (Some ''GAP_GENERATION_ERROR'', JNull, run), s1)
      | (GapNone, s1) \<Rightarrow> (Inr (None, JNull, run), s1)
      | (GapHandled outcome problem ids, s1) \<Rightarrow>
          (case run_gaps run of (gaps, children, open_gaps) \<Rightarrow>
             if outcome = ''ACCEPTED'' \<and> ids \<noteq> []
             then (map_sum id (\<lambda>bs. (None, gap_json outcome problem ids,
                     run\<lparr>run_gaps := (gaps + 1, children + 1, open_gaps), run_bindings := bs\<rparr>))
                     (augment_bindings env (pp_py (sv_provider env n)) sc (run_bindings run) s1), s1)
             else (Inr (None, gap_json outcome problem ids,
                     run\<lparr>run_gaps := (gaps + 1, children, open_gaps + (if outcome = ''ACCEPTED'' then 0 else 1))\<rparr>), s1)))"

definition json_text :: "string option \<Rightarrow> json" where
  "json_text v = (case v of None \<Rightarrow> JNull | Some w \<Rightarrow> JStr w)"

definition gap_state :: "sup_run \<Rightarrow> uuid \<Rightarrow> json \<Rightarrow> string option \<Rightarrow> jdict" where
  "gap_state run tid gap err =
     selected_state run tid @ gap_counts run @ [(''gap_generation'', gap), (''gap_generation_error'', json_text err)]"

text \<open>A change of the database that may raise ends the invocation then.\<close>

definition on_db :: "(db \<Rightarrow> error + db) \<Rightarrow> (sup_state \<Rightarrow> sup_turn \<times> sup_state) \<Rightarrow> sup_state \<Rightarrow> sup_turn \<times> sup_state" where
  "on_db f k s = (case f (ss_db s) of Inl e \<Rightarrow> (SupEnds (Inl (SvRuntime e)), s) | Inr d \<Rightarrow> k (set_ss_db d s))"

section \<open>After planning\<close>

definition spend_refused ::
  "sup_env \<Rightarrow> nat \<Rightarrow> sup_run \<Rightarrow> mainai_goal \<Rightarrow> work_binding \<Rightarrow> mainai_task \<Rightarrow> mainai_job \<Rightarrow> operator_context \<Rightarrow> sup_state \<Rightarrow>
   sup_turn \<times> sup_state" where
  "spend_refused env n run g b t j ctx s =
     on_db (park_provider_spend_defer_midflight (sv_now env n) t j (oc_worker ctx) (oc_generation ctx))
       (\<lambda>s1. (if wb_independent b then SupGoes (defers (t_id t) ''PROVIDER_SPEND_NOT_AUTHORIZED'' run)
              else ends ''PROVIDER_SPEND_NOT_AUTHORIZED'' run
                     (JStr ''provider-assisted planning requires a still-live founder spend grant'') None, s1))
       (sup_checkpoint (sv_now env n) g (Some (t_id t)) (Some (j_id j)) ''PROVIDER_SPEND_NOT_AUTHORIZED''
          (selected_state run (t_id t)) s)"

text \<open>The identifiers of checkpoints that a checkpoint mentions are left out: the rows of the model have none.\<close>

definition unplanned ::
  "sup_env \<Rightarrow> nat \<Rightarrow> supervisor_scope \<Rightarrow> sup_run \<Rightarrow> mainai_goal \<Rightarrow> work_binding \<Rightarrow> mainai_task \<Rightarrow> mainai_job \<Rightarrow>
   operator_context \<Rightarrow> planning_result \<Rightarrow> sup_state \<Rightarrow> sup_turn \<times> sup_state" where
  "unplanned env n sc run g b t j ctx r s =
     (case (if pr_class r = ''CAPABILITY_MISSING''
            then invoke_gap env n sc run t ''CAPABILITY_MISSING'' (jget (pr_detail r) ''requested_capability'') ctx b (pr_detail r) s
            else (Inr (None, JNull, run), s)) of
        (Inl e, s1) \<Rightarrow> (SupEnds (Inl e), s1)
      | (Inr (err, gap, run1), s1) \<Rightarrow>
          let s2 = sup_checkpoint (sv_now env n) g (Some (t_id t)) (Some (j_id j)) (pr_class r) (gap_state run1 (t_id t) gap err) s1;
              release = release_provider_wait_midflight (sv_now env n) (sv_jitter env) t j (oc_worker ctx) (oc_generation ctx)
                ''WAITING_PROVIDER'';
              finish = ends (pr_class r) run1
                (get_default (pr_detail r) ''reason'' (JStr ''planning did not produce an executable plan'')) None
          in if err = Some ''GapLeaseLostError'' then (SupGoes (defers (t_id t) ''GAP_GENERATION_ERROR'' run1), s2)
             else if pr_class r = ''WAITING_PROVIDER''
             then on_db release (\<lambda>s3. (if wb_independent b then SupGoes (defers (t_id t) ''WAITING_PROVIDER'' run1) else finish, s3)) s2
             else if pr_class r = ''CAPABILITY_MISSING'' \<and> wb_independent b
             then (SupGoes (defers (t_id t) ''CAPABILITY_MISSING'' run1), s2)
             else if err = Some ''GAP_GENERATION_ERROR'' \<and> wb_independent b
             then (SupGoes (defers (t_id t) ''GAP_GENERATION_ERROR'' run1), s2)
             else (finish, s2))"

section \<open>The driver\<close>

definition block_reason :: "uuid \<Rightarrow> string \<Rightarrow> sup_state \<Rightarrow> sup_state" where
  "block_reason tid why s =
     set_ss_db ((ss_db s)\<lparr>tasks := update_rows (\<lambda>t. t_id t = tid) (\<lambda>t. t\<lparr>t_blocker_reason := Some why\<rparr>) (tasks (ss_db s))\<rparr>) s"

definition needs_repair :: "driver_class \<Rightarrow> bool" where
  "needs_repair c \<longleftrightarrow> c \<in> {ClVerificationRequired, ClFailedNonretryable}"

definition incomplete ::
  "sup_env \<Rightarrow> nat \<Rightarrow> supervisor_scope \<Rightarrow> sup_run \<Rightarrow> mainai_goal \<Rightarrow> work_binding \<Rightarrow> mainai_task \<Rightarrow> mainai_job \<Rightarrow>
   operator_context \<Rightarrow> driver_result \<Rightarrow> sup_state \<Rightarrow> sup_turn \<times> sup_state" where
  "incomplete env n sc run g b t j ctx r s =
     (let cls = class_value (dr_class r); repair = needs_repair (dr_class r);
          followup = (if repair then Some ''verification_repair'' else None)
      in case invoke_gap env n sc run t cls
                (if dr_class r = ClCapabilityMissing then jget (dr_detail r) ''requested_capability'' else JNull) ctx b (dr_detail r)
                (if repair then block_reason (t_id t) (deferred_message ''VERIFICATION_REQUIRED'') s else s) of
           (Inl e, s1) \<Rightarrow> (SupEnds (Inl e), s1)
         | (Inr (err, gap, run1), s1) \<Rightarrow>
             let s2 = sup_checkpoint (sv_now env n) g (Some (t_id t)) (Some (j_id j)) cls
                    (gap_state run1 (t_id t) gap err @ [(''followup'', json_text followup)]) s1
             in if (repair \<or> dr_class r = ClCapabilityMissing \<or> err \<noteq> None) \<and> wb_independent b
                then (SupGoes (defers (t_id t)
                        (if err \<noteq> None then ''GAP_GENERATION_ERROR''
                         else if dr_class r = ClCapabilityMissing then ''CAPABILITY_MISSING'' else ''VERIFICATION_REQUIRED'') run1), s2)
                else (ends cls run1 (JStr ''child work did not reach verified completion'') followup, s2))"

definition texts_of :: "json list \<Rightarrow> string list" where
  "texts_of vs = concat (map (\<lambda>v. case v of JStr w \<Rightarrow> [w] | _ \<Rightarrow> []) vs)"

text \<open>After a repair the task it was for goes on, with the check its gap asks for.\<close>

definition resume_bindings ::
  "py_conv \<Rightarrow> supervisor_scope \<Rightarrow> work_binding list \<Rightarrow> uuid \<Rightarrow> gap_problem option \<Rightarrow> sup_error + work_binding list" where
  "resume_bindings py sc bs i problem =
     sbind (reverify_candidate_for_source py problem) (\<lambda>c.
     case (case problem of
             None \<Rightarrow> Some (map JStr (sc_paths sc))
           | Some p \<Rightarrow> json_iter (or_texts (jget (json_dict (gp_envelope p)) ''allowed_paths'') (sc_paths sc))) of
       None \<Rightarrow> Inl (SvRaised ''TypeError'')
     | Some vs \<Rightarrow>
         let paths = texts_of vs
         in Inr (case binding_of bs i of
                   Some b \<Rightarrow>
                     map (\<lambda>x. if wb_task x = i
                       then b\<lparr>wb_candidate := Some c, wb_paths := (if wb_paths b = [] then paths else wb_paths b)\<rparr>
                       else the (binding_of bs (wb_task x))) bs
                 | None \<Rightarrow>
                     bs @ [\<lparr>wb_task = i, wb_prepare = wb_prepare (hd bs), wb_candidate = Some c, wb_adapter = None,
                            wb_required = map JStr [''run_focused_test'', ''run_static_check''],
                            wb_contribution = ''re-verify original work after repair'', wb_independent = True,
                            wb_ambiguities = [], wb_contradictions = [], wb_provider_likely = False,
                            wb_repository = sc_repository sc, wb_paths = (if paths = [] then sc_paths sc else paths),
                            wb_fallback = False\<rparr>]))"

definition after_repair ::
  "sup_env \<Rightarrow> nat \<Rightarrow> supervisor_scope \<Rightarrow> mainai_task \<Rightarrow> sup_run \<Rightarrow> sup_state \<Rightarrow> (sup_error + sup_run) \<times> sup_state" where
  "after_repair env n sc t run s =
     (if \<not> ga_child (sv_gap env) s (sc_owner sc) t then (Inr run, s)
      else let py = pp_py (sv_provider env n)
           in case ga_resume (sv_gap env) t s of
                (None, s1) \<Rightarrow>
                  (map_sum id (\<lambda>bs. run\<lparr>run_bindings := bs\<rparr>) (augment_bindings env py sc (run_bindings run) s1), s1)
              | (Some resumed, s1) \<Rightarrow>
                  (sbind (resume_bindings py sc (run_bindings run) (t_id resumed)
                            (ga_problem (sv_gap env) s1 (sc_owner sc) t)) (\<lambda>bs.
                   sbind (augment_bindings env py sc bs s1) (\<lambda>bs1.
                   Inr (run\<lparr>run_bindings := bs1,
                          run_deferred := filter (\<lambda>x. fst x \<noteq> t_id resumed) (run_deferred run)\<rparr>))), s1))"

definition verified ::
  "sup_env \<Rightarrow> nat \<Rightarrow> supervisor_scope \<Rightarrow> sup_run \<Rightarrow> mainai_goal \<Rightarrow> mainai_task \<Rightarrow> mainai_job \<Rightarrow> sup_state \<Rightarrow>
   sup_turn \<times> sup_state" where
  "verified env n sc run g t j s =
     (case after_repair env n sc t (run\<lparr>run_selected := run_selected run @ [t_id t], run_jobs := run_jobs run + 1\<rparr>) s of
        (Inl e, s1) \<Rightarrow> (SupEnds (Inl e), s1)
      | (Inr run1, s1) \<Rightarrow>
          (SupGoes run1,
           sup_checkpoint (sv_now env n) g (Some (t_id t)) (Some (j_id j)) ''REASSESS''
             ([(''completed_task_ids'', uuid_array (run_selected run1)), (''last_verified_task_id'', JStr (uuid_str (t_id t))),
               (''selection_reason'', JStr ''highest-priority actionable canonical task'')] @ gap_counts run1) s1))"

definition drive_plan ::
  "sup_env \<Rightarrow> nat \<Rightarrow> operator_context \<Rightarrow> development_plan \<Rightarrow> sup_state \<Rightarrow> (driver_error + driver_result) \<times> sup_state" where
  "drive_plan env n ctx p s =
     (case run_driver (sv_driver env n) ctx p 10 300 (pt_op (px_plan (ss_prov s)), ss_learn s) of
        (r, op, lrn) \<Rightarrow>
          (r, (set_ss_plan ((px_plan (ss_prov s))\<lparr>pt_op := op\<rparr>) s)\<lparr>ss_learn := lrn, ss_drives := ss_drives s @ [(ctx, p)]\<rparr>))"

text \<open>\<open>sv_founder\<close> is what other sessions have committed when the job is read again.\<close>

definition execute_plan ::
  "sup_env \<Rightarrow> nat \<Rightarrow> supervisor_scope \<Rightarrow> sup_run \<Rightarrow> mainai_goal \<Rightarrow> work_binding \<Rightarrow> mainai_task \<Rightarrow> mainai_job \<Rightarrow>
   operator_context \<Rightarrow> development_plan \<Rightarrow> sup_state \<Rightarrow> sup_turn \<times> sup_state" where
  "execute_plan env n sc run g b t j ctx p s =
     (case execution_boundary sc b ctx p of
        Inl e \<Rightarrow> (SupEnds (Inl e), s)
      | Inr (Inl why) \<Rightarrow>
          (ends ''OUT_OF_SCOPE'' run (JStr why) None,
           sup_checkpoint (sv_now env n) g (Some (t_id t)) (Some (j_id j)) ''OUT_OF_SCOPE''
             (selected_state run (t_id t) @ [(''narrowing_error'', JStr why)]) s)
      | Inr (Inr exec) \<Rightarrow>
          let s1 = sv_founder env n s
          in if list_ex (\<lambda>x. j_id x = j_id j \<and> j_cancel_requested x) (jobs (ss_db s1))
             then (ends ''CANCELLED'' run (JStr ''job cancel requested after accepted plan; refusing driver effects'') None,
                   sup_checkpoint (sv_now env n) g (Some (t_id t)) (Some (j_id j)) ''CANCELLED''
                     (selected_state run (t_id t) @
                       [(''reason'', JStr ''job cancel requested after accepted plan before driver'')]) s1)
             else (case drive_plan env n exec p s1 of
                     (Inl e, s2) \<Rightarrow> (SupEnds (Inl (SvDriver e)), s2)
                   | (Inr r, s2) \<Rightarrow>
                       if dr_class r = ClComplete then verified env n sc run g t j s2
                       else incomplete env n sc run g b t j ctx r s2))"

section \<open>The loop\<close>

definition work_on ::
  "sup_env \<Rightarrow> nat \<Rightarrow> supervisor_scope \<Rightarrow> supervisor_bounds \<Rightarrow> sup_run \<Rightarrow> mainai_goal \<Rightarrow> mainai_task \<Rightarrow> work_binding \<Rightarrow>
   sup_state \<Rightarrow> sup_turn \<times> sup_state" where
  "work_on env n sc bd run g t b s =
     (case job_for env n sc g t s of
        Inl (ApprovalRequired i) \<Rightarrow>
          (ends ''WAITING_APPROVAL'' run (JStr ''selected task requires founder approval'') None,
           sup_checkpoint (sv_now env n) g (Some (t_id t)) None ''WAITING_APPROVAL''
             (selected_state run (t_id t) @ gap_counts run @ [(''gap_generation'', JNull)]) s)
      | Inl e \<Rightarrow> (SupEnds (Inl (SvRuntime e)), s)
      | Inr (j, s1) \<Rightarrow>
          (case bound_context env n sc b t j s1 of
             (Inl e, s2) \<Rightarrow> (SupEnds (Inl e), s2)
           | (Inr ctx, s2) \<Rightarrow>
               (case record_selection env n sc run b t ctx s2 of
                  Inl e \<Rightarrow> (SupEnds (Inl e), s2)
                | Inr s3 \<Rightarrow>
                    (case plan_task env n sc (founder_request sc bd b g t j) ctx b t s3 of
                       (Inl e, s4) \<Rightarrow> (SupEnds (Inl e), s4)
                     | (Inr None, s4) \<Rightarrow> spend_refused env n run g b t j ctx s4
                     | (Inr (Some r), s4) \<Rightarrow>
                         (case pr_plan r of
                            Some p \<Rightarrow>
                              if pr_class r = ''ACCEPTED'' then execute_plan env n sc run g b t j ctx p s4
                              else unplanned env n sc run g b t j ctx r s4
                          | None \<Rightarrow> unplanned env n sc run g b t j ctx r s4)))))"

definition supervise_turn ::
  "sup_env \<Rightarrow> nat \<Rightarrow> supervisor_scope \<Rightarrow> supervisor_bounds \<Rightarrow> sup_run \<Rightarrow> sup_state \<Rightarrow> sup_turn \<times> sup_state" where
  "supervise_turn env n sc bd run s =
     (case validate_scope env (mc_sha (pp_machine (sv_provider env n))) sc s of
        Inl e \<Rightarrow> (SupEnds (Inl e), s)
      | Inr (g, Some (cls, why)) \<Rightarrow> (ends cls run (JStr why) None, s)
      | Inr (g, None) \<Rightarrow>
          (case augment_bindings env (pp_py (sv_provider env n)) sc (run_bindings run) s of
             Inl e \<Rightarrow> (SupEnds (Inl e), s)
           | Inr bs \<Rightarrow>
               (case discover_candidates sc bs bd (ss_db s) of
                  Inl e \<Rightarrow> (SupEnds (Inl e), s)
                | Inr found \<Rightarrow>
                    let xs = apply_deferred (run_deferred run) found;
                        run1 = run\<lparr>run_bindings := bs, run_last := xs\<rparr>
                    in case select_candidate xs of
                         (None, cls, why) \<Rightarrow> settle_idle env n sc run1 g cls why s
                       | (Some x, _) \<Rightarrow>
                           (case (find_row (\<lambda>t. t_id t = as_task x \<and> t_owner t = sc_owner sc \<and> t_goal t = sc_goal sc)
                                    (tasks (ss_db s)), binding_of bs (as_task x)) of
                              (Some t, Some b) \<Rightarrow> work_on env n sc bd run1 g t b s
                            | _ \<Rightarrow> (SupEnds (Inl (SvRaised ''NoResultFound'')), s)))))"

text \<open>The loop, with the number of turns as fuel; the clock ends it.\<close>

fun supervise ::
  "sup_env \<Rightarrow> supervisor_scope \<Rightarrow> supervisor_bounds \<Rightarrow> nat \<Rightarrow> nat \<Rightarrow> sup_run \<Rightarrow> sup_state \<Rightarrow>
   ((sup_error + sup_result) \<times> sup_state) option" where
  "supervise env sc bd 0 n run s = None"
| "supervise env sc bd (Suc fuel) n run s =
     (if int (run_jobs run) < bd_max_jobs bd \<and> sv_elapsed env n < bd_max_elapsed bd
      then (case supervise_turn env n sc bd run s of
              (SupEnds r, s1) \<Rightarrow> Some (r, s1)
            | (SupGoes run1, s1) \<Rightarrow> supervise env sc bd fuel (n + 1) run1 s1)
      else Some (Inr (sup_result_of ''RUN_BOUND_REACHED'' run
             (JStr ''supervisor invocation bound reached; state is resumable'') None), s))"

definition run_supervisor ::
  "sup_env \<Rightarrow> supervisor_scope \<Rightarrow> work_binding list \<Rightarrow> supervisor_bounds \<Rightarrow> nat \<Rightarrow> sup_state \<Rightarrow>
   ((sup_error + sup_result) \<times> sup_state) option" where
  "run_supervisor env sc bs bd fuel s =
     (if \<not> (1 \<le> bd_max_jobs bd \<and> bd_max_jobs bd \<le> 20) \<or> bd_max_elapsed bd < 1
      then Some (Inl (SvRefused ''supervisor execution bounds are invalid''), s)
      else let start = \<lparr>run_bindings = bs, run_deferred = [], run_selected = [], run_jobs = 0, run_last = [], run_gaps = (0, 0, 0)\<rparr>
           in case validate_scope env (mc_sha (pp_machine (sv_provider env 0))) sc s of
                Inl e \<Rightarrow> Some (Inl e, s)
              | Inr (g, Some (cls, why)) \<Rightarrow> Some (Inr (sup_result_of cls start (JStr why) None), s)
              | Inr (g, None) \<Rightarrow>
                  (case completed_before sc (ss_db s) of
                     Inl e \<Rightarrow> Some (Inl e, s)
                   | Inr before \<Rightarrow>
                       (case augment_bindings env (pp_py (sv_provider env 0)) sc bs s of
                          Inl e \<Rightarrow> Some (Inl e, s)
                        | Inr bs1 \<Rightarrow> supervise env sc bd fuel 0 (start\<lparr>run_bindings := bs1, run_selected := before\<rparr>) s)))"

section \<open>Within the scope\<close>

lemma drives_kept [simp]:
  "ss_drives (set_ss_db d s) = ss_drives s" "ss_drives (set_ss_plan p s) = ss_drives s"
  "ss_drives (sup_checkpoint now g i j ph st s) = ss_drives s" "ss_drives (block_reason tid w s) = ss_drives s"
  by (simp_all add: set_ss_db_def set_ss_plan_def sup_checkpoint_def block_reason_def)

text \<open>Only the supervisor writes the list of drives: the code behind the parameters does not call the driver.\<close>

definition keeps_drives :: "work_binding \<Rightarrow> bool" where
  "keeps_drives b \<longleftrightarrow> (\<forall>t j s. ss_drives (snd (wb_prepare b t j s)) = ss_drives s)"

definition quiet :: "sup_env \<Rightarrow> bool" where
  "quiet env \<longleftrightarrow>
     (\<forall>s sc t b. ga_binding (sv_gap env) s sc t = Some b \<longrightarrow> keeps_drives b) \<and>
     (\<forall>sc t c cap ctx ps d k s. ss_drives (snd (ga_signal (sv_gap env) sc t c cap ctx ps d k s)) = ss_drives s) \<and>
     (\<forall>t s. ss_drives (snd (ga_resume (sv_gap env) t s)) = ss_drives s) \<and>
     (\<forall>n s. ss_drives (sv_founder env n s) = ss_drives s)"

lemma quietD:
  assumes "quiet env"
  shows "ga_binding (sv_gap env) s sc t = Some b \<Longrightarrow> keeps_drives b"
    "ga_signal (sv_gap env) sc t c cap ctx ps d k s = (a, s1) \<Longrightarrow> ss_drives s1 = ss_drives s"
    "ga_resume (sv_gap env) t s = (x, s1) \<Longrightarrow> ss_drives s1 = ss_drives s"
    "ss_drives (sv_founder env n s) = ss_drives s"
  using assms unfolding quiet_def by (metis snd_conv)+

lemma each_Inr: "each f xs = Inr ys \<Longrightarrow> y \<in> set ys \<Longrightarrow> \<exists>x\<in>set xs. f x = Inr y"
  by (induction xs arbitrary: ys) (auto elim!: sbind_InrE)

lemma binding_of_in: "binding_of bs i = Some b \<Longrightarrow> b \<in> set bs \<and> wb_task b = i"
  by (auto simp: binding_of_def dest!: map_of_SomeD)

lemma derived_keeps:
  assumes "derived_binding env py sc bs s t = Inr (Some b)" and "quiet env" and "\<forall>b\<in>set bs. keeps_drives b" and "bs \<noteq> []"
  shows "keeps_drives b"
proof -
  have "keeps_drives (hd bs)" using assms(3,4) by simp
  then show ?thesis
    using assms(1) quietD(1) [OF assms(2)]
    by (auto simp: derived_binding_def Let_def reverify_binding_def keeps_drives_def split: if_splits option.splits sum.splits)
qed

lemma augment_keeps:
  assumes "augment_bindings env py sc bs s = Inr bs1" and "quiet env" and "\<forall>b\<in>set bs. keeps_drives b"
  shows "\<forall>b\<in>set bs1. keeps_drives b"
proof (cases "bs = []")
  case False
  with assms(1) obtain ts found where
    found: "each (\<lambda>t. map_sum id (\<lambda>b. (t_id t, b)) (derived_binding env py sc bs s t)) ts = Inr found" and
    bs1: "bs1 = map (\<lambda>b. case map_of (List.map_filter (\<lambda>(i, b). map_option (\<lambda>x. (i, x)) b) found) (wb_task b) of
        None \<Rightarrow> b | Some x \<Rightarrow> x) bs @
      map snd (filter (\<lambda>(i, x). binding_of bs i = None) (List.map_filter (\<lambda>(i, b). map_option (\<lambda>x. (i, x)) b) found))"
    by (auto simp: augment_bindings_def Let_def elim!: sbind_InrE)
  have "keeps_drives x" if mem: "(i, Some x) \<in> set found" for i x
  proof -
    obtain t where "map_sum id (\<lambda>b. (t_id t, b)) (derived_binding env py sc bs s t) = Inr (i, Some x)"
      using each_Inr [OF found mem] by blast
    then have "derived_binding env py sc bs s t = Inr (Some x)"
      by (cases "derived_binding env py sc bs s t") simp_all
    from derived_keeps [OF this assms(2,3) False] show ?thesis .
  qed
  then have "keeps_drives x" if "(i, x) \<in> set (List.map_filter (\<lambda>(i, b). map_option (\<lambda>x. (i, x)) b) found)" for i x
    using that by (auto simp: map_filter_def split: option.splits prod.splits)
  with assms(3) show ?thesis
    unfolding bs1 by (fastforce split: option.splits dest!: map_of_SomeD)
qed (use assms in \<open>simp add: augment_bindings_def\<close>)

lemma resume_keeps:
  assumes "resume_bindings py sc bs i p = Inr bs1" and "\<forall>b\<in>set bs. keeps_drives b" and "bs \<noteq> []"
  shows "\<forall>b\<in>set bs1. keeps_drives b"
proof -
  have hd: "keeps_drives (hd bs)" using assms(2,3) by simp
  have other: "keeps_drives (the (binding_of bs (wb_task x)))" if "x \<in> set bs" for x
  proof -
    have "map_of (rev (map (\<lambda>b. (wb_task b, b)) bs)) (wb_task x) \<noteq> None" using that by (auto simp: map_of_eq_None_iff image_image)
    then obtain y where "binding_of bs (wb_task x) = Some y" by (auto simp: binding_of_def)
    with binding_of_in [OF this] assms(2) show ?thesis by simp
  qed
  show ?thesis
    using assms(1,2) hd other binding_of_in [of bs i]
    by (auto simp: resume_bindings_def Let_def keeps_drives_def elim!: sbind_InrE split: option.splits if_splits)
qed

text \<open>What a call of the driver may do: the owner, paths of the scope, and with a plan of operator steps only what it cites.\<close>

definition drive_ok :: "supervisor_scope \<Rightarrow> operator_context \<times> development_plan \<Rightarrow> bool" where
  "drive_ok sc = (\<lambda>(ctx, p).
     oc_owner ctx = sc_owner sc \<and> oc_paths ctx \<noteq> [] \<and> set (oc_paths ctx) \<subseteq> set (sc_paths sc) \<and>
     (list_ex operator_step (pn_steps p) \<longrightarrow>
        set (oc_paths ctx) \<subseteq> set (cited_paths p) \<and> set (cited_paths p) \<subseteq> set (sc_paths sc) \<and>
        set (oc_caps ctx) \<subseteq> set (sc_caps sc) \<and>
        (\<forall>st\<in>set (pn_steps p). operator_step st \<and> dp_capability st \<noteq> [] \<longrightarrow> dp_capability st \<in> set (oc_caps ctx))))"

lemma intersect_subset:
  assumes "ps \<in> set sets" and "ps \<noteq> []"
  shows "set (intersect_path_envelopes sets) \<subseteq> set ps"
proof -
  obtain q rest where q: "filter (\<lambda>ps. ps \<noteq> []) sets = q # rest"
    using assms by (metis (mono_tags, lifting) filter_empty_conv neq_Nil_conv)
  have "ps \<in> set (filter (\<lambda>ps. ps \<noteq> []) sets)" using assms by simp
  then have "ps = q \<or> ps \<in> set rest" by (simp add: q)
  then show ?thesis by (auto simp: intersect_path_envelopes_def q list_all_iff)
qed

lemma bound_within:
  assumes "bind_execution_context sc b ctx = Inr ctx1"
  shows "\<exists>ps. ctx1 = ctx\<lparr>oc_paths := ps\<rparr> \<and> ps \<noteq> [] \<and> set ps \<subseteq> set (sc_paths sc) \<and> set ps \<subseteq> set (wb_paths b) \<and>
    (oc_paths ctx \<noteq> [] \<longrightarrow> set ps \<subseteq> set (oc_paths ctx))"
proof -
  let ?sets = "[sc_paths sc, wb_paths b, if oc_paths ctx = [] then sc_paths sc else oc_paths ctx]"
  from assms have eq: "ctx1 = ctx\<lparr>oc_paths := intersect_path_envelopes ?sets\<rparr>"
    and ok: "intersect_path_envelopes ?sets \<noteq> []" "set (intersect_path_envelopes ?sets) \<subseteq> set (wb_paths b)"
      "set (intersect_path_envelopes ?sets) \<subseteq> set (sc_paths sc)"
    by (auto simp: bind_execution_context_def Let_def split: if_splits)
  have "set (intersect_path_envelopes ?sets) \<subseteq> set (oc_paths ctx)" if "oc_paths ctx \<noteq> []"
    using intersect_subset [of "oc_paths ctx" ?sets] that by simp
  with eq ok show ?thesis by blast
qed

lemma set_first_occurrences [simp]: "set (first_occurrences xs) = set xs"
  by (simp add: first_occurrences_def)

lemma boundary_within:
  assumes "execution_boundary sc b ctx p = Inr (Inr exec)" and "oc_owner ctx = sc_owner sc"
    and "oc_paths ctx \<noteq> []" "set (oc_paths ctx) \<subseteq> set (sc_paths sc)"
  shows "drive_ok sc (exec, p)"
proof (cases "list_ex operator_step (pn_steps p)")
  case False
  with assms show ?thesis by (auto simp: execution_boundary_def drive_ok_def split: sum.splits)
next
  case True
  with assms(1) have narrow: "set (cited_paths p) \<subseteq> set (sc_paths sc)" "set (cited_capabilities p) \<subseteq> set (sc_caps sc)"
    "cited_paths p \<noteq> []"
    and "bind_execution_context sc b (ctx\<lparr>oc_paths := cited_paths p, oc_caps := cited_capabilities p\<rparr>) = Inr exec"
    by (auto simp: execution_boundary_def narrow_task_scope_def map_sum_def split: sum.splits if_splits)
  from bound_within [OF this(4)] obtain ps where
    "exec = ctx\<lparr>oc_caps := cited_capabilities p, oc_paths := ps\<rparr>" "ps \<noteq> []" "set ps \<subseteq> set (sc_paths sc)" "set ps \<subseteq> set (cited_paths p)"
    using narrow(3) by auto
  with narrow assms(2) show ?thesis
    by (auto simp: drive_ok_def cited_capabilities_def operator_step_def)
qed

lemma planning_keeps:
  "plan_task env n sc rq ctx b t s = (r, s1) \<Longrightarrow> ss_drives s1 = ss_drives s"
  by (auto simp: plan_task_def with_provider_def planned_here_def map_sum_def Let_def elim!: sbind_InrE
      split: option.splits sum.splits prod.splits if_splits planner_error.splits)

text \<open>
  What a turn leaves behind: its drives, and when the loop goes on, one more completed task or one task deferred
  that was not.
\<close>

definition progressed :: "uuid \<Rightarrow> sup_run \<Rightarrow> sup_run \<Rightarrow> bool" where
  "progressed i run run1 \<longleftrightarrow>
     run_jobs run1 = run_jobs run \<and> run_selected run1 = run_selected run \<and>
       fst ` set (run_deferred run1) = insert i (fst ` set (run_deferred run)) \<or>
     run_jobs run1 = run_jobs run + 1 \<and> run_selected run1 = run_selected run @ [i] \<and>
       fst ` set (run_deferred run1) \<subseteq> fst ` set (run_deferred run)"

definition left_behind ::
  "supervisor_scope \<Rightarrow> uuid \<Rightarrow> sup_run \<Rightarrow> sup_state \<Rightarrow> sup_turn \<Rightarrow> sup_state \<Rightarrow> bool" where
  "left_behind sc i run s v s1 \<longleftrightarrow>
     (\<exists>new. ss_drives s1 = ss_drives s @ new \<and> list_all (drive_ok sc) new \<and> length new \<le> 1) \<and>
     (case v of
        SupGoes run1 \<Rightarrow> (\<forall>b\<in>set (run_bindings run1). keeps_drives b) \<and> progressed i run run1
      | SupEnds (Inr r) \<Rightarrow> sr_selected r = run_selected run
      | SupEnds (Inl e) \<Rightarrow> True)"

lemma left_behind_ends [simp]:
  "left_behind sc i run s (SupEnds (Inl e)) s1 \<longleftrightarrow>
     (\<exists>new. ss_drives s1 = ss_drives s @ new \<and> list_all (drive_ok sc) new \<and> length new \<le> 1)"
  "left_behind sc i run s (ends c run1 why f) s1 \<longleftrightarrow>
     (\<exists>new. ss_drives s1 = ss_drives s @ new \<and> list_all (drive_ok sc) new \<and> length new \<le> 1) \<and> run_selected run1 = run_selected run"
  by (simp_all add: left_behind_def ends_def sup_result_of_def)

lemma left_behind_defers:
  assumes "ss_drives s1 = ss_drives s @ new" "list_all (drive_ok sc) new" "length new \<le> 1"
    and "\<forall>b\<in>set (run_bindings run1). keeps_drives b"
    and "run_jobs run1 = run_jobs run" "run_selected run1 = run_selected run" "run_deferred run1 = run_deferred run"
  shows "left_behind sc i run s (SupGoes (defers i c run1)) s1"
proof -
  have "fst ` set (run_deferred (defers i c run1)) = insert i (fst ` set (run_deferred run))"
    using assms(7) by (force simp: defers_def)
  with assms(1-6) show ?thesis by (auto simp: left_behind_def progressed_def defers_def)
qed

lemma left_behind_from:
  assumes "left_behind sc i run s0 v s1" and "ss_drives s0 = ss_drives s"
  shows "left_behind sc i run s v s1"
  using assms by (simp add: left_behind_def)

lemma gap_keeps:
  assumes "invoke_gap env n sc run t cls cap ctx b d s = (r, s1)" and "quiet env" and "\<forall>b\<in>set (run_bindings run). keeps_drives b"
  shows "ss_drives s1 = ss_drives s \<and>
    (case r of
       Inl e \<Rightarrow> True
     | Inr (err, gap, run1) \<Rightarrow> (\<forall>b\<in>set (run_bindings run1). keeps_drives b) \<and> run_jobs run1 = run_jobs run \<and>
         run_selected run1 = run_selected run \<and> run_deferred run1 = run_deferred run)"
  using assms(1,3) augment_keeps [OF _ assms(2,3)] quietD(2) [OF assms(2)]
  by (auto simp: invoke_gap_def map_sum_def split: prod.splits gap_answer.splits sum.splits if_splits)

lemma on_db_behind:
  assumes "on_db f k s = (v, s1)" and "\<And>s2 v s1. ss_drives s2 = ss_drives s \<Longrightarrow> k s2 = (v, s1) \<Longrightarrow> left_behind sc i run s v s1"
  shows "left_behind sc i run s v s1"
proof (cases "f (ss_db s)")
  case (Inl e)
  with assms(1) show ?thesis by (auto simp: on_db_def)
next
  case (Inr d)
  with assms(1) have "k (set_ss_db d s) = (v, s1)" by (simp add: on_db_def)
  from assms(2) [OF drives_kept(1) this] show ?thesis .
qed

lemma refused_behind:
  assumes "spend_refused env n run g b t j ctx s = (v, s1)" and "\<forall>b\<in>set (run_bindings run). keeps_drives b"
  shows "left_behind sc (t_id t) run s v s1"
proof -
  let ?s = "sup_checkpoint (sv_now env n) g (Some (t_id t)) (Some (j_id j)) ''PROVIDER_SPEND_NOT_AUTHORIZED''
          (selected_state run (t_id t)) s"
  have "left_behind sc (t_id t) run ?s v s1"
    using assms(1) unfolding spend_refused_def
    by (rule on_db_behind) (use assms(2) in \<open>auto intro!: left_behind_defers [where new = "[]"] split: if_splits\<close>)
  then show ?thesis by (rule left_behind_from) simp
qed

lemma unplanned_behind:
  assumes "unplanned env n sc run g b t j ctx r s = (v, s1)" and "quiet env" and "\<forall>b\<in>set (run_bindings run). keeps_drives b"
  shows "left_behind sc (t_id t) run s v s1"
proof -
  obtain x s2 where gap: "(if pr_class r = ''CAPABILITY_MISSING''
            then invoke_gap env n sc run t ''CAPABILITY_MISSING'' (jget (pr_detail r) ''requested_capability'') ctx b (pr_detail r) s
            else (Inr (None, JNull, run), s)) = (x, s2)" by fastforce
  then have kept: "ss_drives s2 = ss_drives s \<and>
      (case x of
         Inl e \<Rightarrow> True
       | Inr (err, gap, run1) \<Rightarrow> (\<forall>b\<in>set (run_bindings run1). keeps_drives b) \<and> run_jobs run1 = run_jobs run \<and>
           run_selected run1 = run_selected run \<and> run_deferred run1 = run_deferred run)"
    using gap_keeps [OF _ assms(2,3)] assms(3) by (fastforce split: if_splits)
  show ?thesis
  proof (cases x)
    case (Inl e)
    with assms(1) gap kept show ?thesis by (auto simp: unplanned_def)
  next
    case (Inr y)
    obtain err gp run1 where y: "y = (err, gp, run1)" by (cases y)
    have "left_behind sc (t_id t) run (sup_checkpoint (sv_now env n) g (Some (t_id t)) (Some (j_id j)) (pr_class r)
        (gap_state run1 (t_id t) gp err) s2) v s1"
      using assms(1) gap kept
      by (auto simp: unplanned_def Inr y Let_def split: if_splits elim!: on_db_behind intro!: left_behind_defers [where new = "[]"])
    then show ?thesis by (rule left_behind_from) (use kept in simp)
  qed
qed

lemma incomplete_behind:
  assumes "incomplete env n sc run g b t j ctx r s = (v, s1)" and "quiet env" and "\<forall>b\<in>set (run_bindings run). keeps_drives b"
    and "ss_drives s = ss_drives s0 @ new" "list_all (drive_ok sc) new" "length new \<le> 1"
  shows "left_behind sc (t_id t) run s0 v s1"
proof -
  let ?s = "if needs_repair (dr_class r) then block_reason (t_id t) (deferred_message ''VERIFICATION_REQUIRED'') s else s"
  have start: "ss_drives ?s = ss_drives s0 @ new" using assms(4) by simp
  obtain x s2 where gap: "invoke_gap env n sc run t (class_value (dr_class r))
      (if dr_class r = ClCapabilityMissing then jget (dr_detail r) ''requested_capability'' else JNull) ctx b (dr_detail r) ?s = (x, s2)"
    by fastforce
  note kept = gap_keeps [OF gap assms(2,3)]
  show ?thesis
  proof (cases x)
    case (Inl e)
    with assms(1,5,6) gap kept start show ?thesis by (auto simp: incomplete_def Let_def)
  next
    case (Inr y)
    obtain err gp run1 where y: "y = (err, gp, run1)" by (cases y)
    from assms(1,5,6) gap kept start show ?thesis
      by (auto simp: incomplete_def Inr y Let_def split: if_splits intro!: left_behind_defers [where new = new])
  qed
qed

lemma after_repair_keeps:
  assumes "after_repair env n sc t run s = (r, s1)" and "quiet env" and "\<forall>b\<in>set (run_bindings run). keeps_drives b"
    and "run_bindings run \<noteq> []"
  shows "ss_drives s1 = ss_drives s \<and>
    (case r of
       Inl e \<Rightarrow> True
     | Inr run1 \<Rightarrow> (\<forall>b\<in>set (run_bindings run1). keeps_drives b) \<and> run_jobs run1 = run_jobs run \<and>
         run_selected run1 = run_selected run \<and> fst ` set (run_deferred run1) \<subseteq> fst ` set (run_deferred run))"
proof (cases "ga_child (sv_gap env) s (sc_owner sc) t")
  case True
  obtain x s2 where res: "ga_resume (sv_gap env) t s = (x, s2)" by fastforce
  have s2: "ss_drives s2 = ss_drives s" by (rule quietD(3) [OF assms(2) res])
  let ?py = "pp_py (sv_provider env n)"
  show ?thesis
  proof (cases x)
    case None
    with assms(1) True res have r: "r = map_sum id (\<lambda>bs. run\<lparr>run_bindings := bs\<rparr>) (augment_bindings env ?py sc (run_bindings run) s2)"
      and s1: "s1 = s2" by (auto simp: after_repair_def Let_def)
    show ?thesis
      using s2 s1 augment_keeps [OF _ assms(2,3)]
      by (cases "augment_bindings env ?py sc (run_bindings run) s2") (simp_all add: r)
  next
    case (Some resumed)
    let ?bs = "resume_bindings ?py sc (run_bindings run) (t_id resumed) (ga_problem (sv_gap env) s2 (sc_owner sc) t)"
    from assms(1) True res Some have s1: "s1 = s2"
      and r: "r = sbind ?bs (\<lambda>bs. sbind (augment_bindings env ?py sc bs s2) (\<lambda>bs1.
         Inr (run\<lparr>run_bindings := bs1, run_deferred := filter (\<lambda>x. fst x \<noteq> t_id resumed) (run_deferred run)\<rparr>)))"
      by (auto simp: after_repair_def Let_def)
    show ?thesis
    proof (cases ?bs)
      case (Inr bs)
      from resume_keeps [OF this assms(3,4)] have "\<forall>b\<in>set bs. keeps_drives b" .
      from augment_keeps [OF _ assms(2) this] s2 s1 show ?thesis
        by (cases "augment_bindings env ?py sc bs s2") (auto simp: r Inr)
    qed (simp add: r s1 s2)
  qed
qed (use assms in \<open>auto simp: after_repair_def\<close>)

lemma execute_behind:
  assumes "execute_plan env n sc run g b t j ctx p s = (v, s1)" and "quiet env" and "\<forall>b\<in>set (run_bindings run). keeps_drives b"
    and "run_bindings run \<noteq> []" and "oc_owner ctx = sc_owner sc" and "oc_paths ctx \<noteq> []" "set (oc_paths ctx) \<subseteq> set (sc_paths sc)"
  shows "left_behind sc (t_id t) run s v s1"
proof (cases "execution_boundary sc b ctx p")
  case (Inl e)
  with assms(1) show ?thesis by (auto simp: execute_plan_def)
next
  case (Inr y)
  note founder = quietD(4) [OF assms(2)]
  show ?thesis
  proof (cases y)
    case (Inl why)
    with assms(1) Inr show ?thesis by (auto simp: execute_plan_def)
  next
    case (Inr exec)
    with \<open>execution_boundary sc b ctx p = Inr y\<close> have b: "execution_boundary sc b ctx p = Inr (Inr exec)" by simp
    obtain x s2 where d: "drive_plan env n exec p (sv_founder env n s) = (x, s2)" by fastforce
    have ok: "drive_ok sc (exec, p)" by (rule boundary_within [OF b assms(5-7)])
    have s2: "ss_drives s2 = ss_drives s @ [(exec, p)]"
      using d founder by (auto simp: drive_plan_def split: prod.splits)
    consider (cancelled) "list_ex (\<lambda>x. j_id x = j_id j \<and> j_cancel_requested x) (jobs (ss_db (sv_founder env n s)))"
      | (failed) e where "v = SupEnds (Inl (SvDriver e))" "s1 = s2"
      | (complete) "verified env n sc run g t j s2 = (v, s1)"
      | (open_work) r where "incomplete env n sc run g b t j ctx r s2 = (v, s1)"
      using assms(1) b d by (cases x) (auto simp: execute_plan_def Let_def split: if_splits)
    then show ?thesis
    proof cases
      case cancelled
      with assms(1) b founder show ?thesis by (auto simp: execute_plan_def)
    next
      case failed
      with s2 ok show ?thesis by simp
    next
      case complete
      let ?run = "run\<lparr>run_selected := run_selected run @ [t_id t], run_jobs := run_jobs run + 1\<rparr>"
      obtain z s3 where rep: "after_repair env n sc t ?run s2 = (z, s3)" by fastforce
      from after_repair_keeps [OF rep assms(2)] assms(3,4) s2 ok complete rep show ?thesis
        by (cases z) (auto simp: verified_def left_behind_def progressed_def)
    next
      case (open_work r)
      from incomplete_behind [OF this assms(2,3) s2] ok show ?thesis by simp
    qed
  qed
qed

lemma job_for_keeps: "job_for env n sc g t s = Inr (j, s1) \<Longrightarrow> ss_drives s1 = ss_drives s"
  by (auto simp: job_for_def elim!: sbind_InrE split: if_splits option.splits)

lemma bound_context_within:
  assumes "bound_context env n sc b t j s = (r, s1)" and "keeps_drives b"
  shows "ss_drives s1 = ss_drives s \<and>
    (case r of Inl e \<Rightarrow> True | Inr ctx \<Rightarrow> oc_owner ctx = sc_owner sc \<and> oc_paths ctx \<noteq> [] \<and> set (oc_paths ctx) \<subseteq> set (sc_paths sc))"
proof -
  obtain x s2 where prep: "wb_prepare b t j s = (x, s2)" by fastforce
  have "ss_drives s2 = ss_drives s" using assms(2) prep unfolding keeps_drives_def by (metis snd_conv)
  with assms(1) prep show ?thesis
    by (auto simp: bound_context_def split: sum.splits if_splits dest!: bound_within)
qed

lemma selection_keeps: "record_selection env n sc run b t ctx s = Inr s1 \<Longrightarrow> ss_drives s1 = ss_drives s"
  by (auto simp: record_selection_def split: option.splits sum.splits prod.splits)

lemma work_behind:
  assumes "work_on env n sc bd run g t b s = (v, s1)" and "quiet env" and "\<forall>b\<in>set (run_bindings run). keeps_drives b"
    and "b \<in> set (run_bindings run)"
  shows "left_behind sc (t_id t) run s v s1"
proof (cases "job_for env n sc g t s")
  case (Inl e)
  with assms(1) show ?thesis by (cases e) (auto simp: work_on_def)
next
  case (Inr y)
  obtain j s2 where y: "job_for env n sc g t s = Inr (j, s2)" using Inr by (cases y) simp
  note k1 = job_for_keeps [OF y]
  obtain x s3 where ctx: "bound_context env n sc b t j s2 = (x, s3)" by fastforce
  note k2 = bound_context_within [OF ctx] and keeps = bspec [OF assms(3,4)]
  show ?thesis
  proof (cases x)
    case (Inl e)
    with assms(1) y ctx k1 k2 keeps show ?thesis by (auto simp: work_on_def)
  next
    case (Inr c)
    show ?thesis
    proof (cases "record_selection env n sc run b t c s3")
      case (Inl e)
      with assms(1) y ctx k1 k2 keeps \<open>x = Inr c\<close> show ?thesis by (auto simp: work_on_def)
    next
      case (Inr s4)
      note k3 = selection_keeps [OF Inr]
      obtain p s5 where plan: "plan_task env n sc (founder_request sc bd b g t j) c b t s4 = (p, s5)" by fastforce
      have kept: "ss_drives s5 = ss_drives s"
        using k1 k2 k3 planning_keeps [OF plan] keeps by simp
      have c: "oc_owner c = sc_owner sc" "oc_paths c \<noteq> []" "set (oc_paths c) \<subseteq> set (sc_paths sc)"
        using k2 keeps \<open>x = Inr c\<close> by simp_all
      have ne: "run_bindings run \<noteq> []" using assms(4) by auto
      consider (raised) e where "v = SupEnds (Inl e)" "s1 = s5"
        | (refused) "spend_refused env n run g b t j c s5 = (v, s1)"
        | (unplanned) r where "unplanned env n sc run g b t j c r s5 = (v, s1)"
        | (executed) q where "execute_plan env n sc run g b t j c q s5 = (v, s1)"
        using assms(1) y ctx \<open>x = Inr c\<close> Inr plan
        by (auto simp: work_on_def split: sum.splits option.splits if_splits)
      then have "left_behind sc (t_id t) run s5 v s1"
      proof cases
        case refused
        from refused_behind [OF this assms(3)] show ?thesis .
      next
        case unplanned
        from unplanned_behind [OF this assms(2,3)] show ?thesis .
      next
        case executed
        from execute_behind [OF this assms(2,3) ne c] show ?thesis .
      qed simp
      then show ?thesis using kept by (rule left_behind_from)
    qed
  qed
qed

text \<open>A turn that goes on has worked on a task that was open and not deferred.\<close>

lemma selected_in:
  assumes "select_candidate xs = (Some x, c)"
  shows "x \<in> set xs \<and> as_actionable x \<and> (\<forall>y\<in>set xs. as_actionable y \<and> y \<noteq> x \<longrightarrow> as_priority y < as_priority x) \<and>
    c = (''SELECTED'', ''highest-priority actionable canonical task'')"
proof -
  let ?act = "filter as_actionable xs"
  let ?top = "Max (set (map as_priority ?act))"
  from assms have ne: "?act \<noteq> []" and one: "filter (\<lambda>y. as_priority y = ?top) ?act = [x]"
    and c: "c = (''SELECTED'', ''highest-priority actionable canonical task'')"
    by (auto simp: select_candidate_def Let_def split: if_splits list.splits)
  have "x \<in> set (filter (\<lambda>y. as_priority y = ?top) ?act)" by (simp only: one) simp
  then have x: "x \<in> set ?act" "as_priority x = ?top" by simp_all
  have "as_priority y < as_priority x" if "y \<in> set ?act" "y \<noteq> x" for y
  proof -
    have "as_priority y \<le> ?top" using that(1) by (intro Max_ge) auto
    moreover have "as_priority y \<noteq> ?top"
    proof
      assume "as_priority y = ?top"
      then have "y \<in> set (filter (\<lambda>y. as_priority y = ?top) ?act)" using that(1) by simp
      then have "y \<in> set [x]" by (simp only: one)
      then show False using that(2) by simp
    qed
    ultimately show ?thesis using x(2) by simp
  qed
  with x(1) c show ?thesis by auto
qed

lemma turn_cases:
  assumes "supervise_turn env n sc bd run s = (v, s1)"
  obtains (ended) y where "v = SupEnds y" "ss_drives s1 = ss_drives s" "\<And>r. y = Inr r \<Longrightarrow> sr_selected r = run_selected run"
  | (worked) g bs found x t b where
      "validate_scope env (mc_sha (pp_machine (sv_provider env n))) sc s = Inr (g, None)"
      "augment_bindings env (pp_py (sv_provider env n)) sc (run_bindings run) s = Inr bs"
      "discover_candidates sc bs bd (ss_db s) = Inr found"
      "select_candidate (apply_deferred (run_deferred run) found) =
        (Some x, ''SELECTED'', ''highest-priority actionable canonical task'')"
      "find_row (\<lambda>t. t_id t = as_task x \<and> t_owner t = sc_owner sc \<and> t_goal t = sc_goal sc) (tasks (ss_db s)) = Some t"
      "binding_of bs (as_task x) = Some b"
      "work_on env n sc bd (run\<lparr>run_bindings := bs, run_last := apply_deferred (run_deferred run) found\<rparr>) g t b s = (v, s1)"
proof -
  let ?val = "validate_scope env (mc_sha (pp_machine (sv_provider env n))) sc s"
  let ?aug = "augment_bindings env (pp_py (sv_provider env n)) sc (run_bindings run) s"
  show ?thesis
  proof (cases ?val)
    case (Inl e)
    with assms show ?thesis by (intro ended) (auto simp: supervise_turn_def)
  next
    case (Inr y)
    show ?thesis
    proof (cases "snd y")
      case (Some z)
      with assms Inr show ?thesis
        by (intro ended [of "case v of SupEnds y \<Rightarrow> y"]) (auto simp: supervise_turn_def ends_def sup_result_of_def split: prod.splits)
    next
      case None
      with Inr obtain g where g: "?val = Inr (g, None)" by (cases y) simp
      show ?thesis
      proof (cases ?aug)
        case (Inl e)
        with assms g show ?thesis by (intro ended) (auto simp: supervise_turn_def)
      next
        case (Inr bs)
        note bs = Inr
        show ?thesis
        proof (cases "discover_candidates sc bs bd (ss_db s)")
          case (Inl e)
          with assms g bs show ?thesis by (intro ended) (auto simp: supervise_turn_def)
        next
          case (Inr found)
          let ?xs = "apply_deferred (run_deferred run) found"
          obtain c rest where sel: "select_candidate ?xs = (c, rest)" by (cases "select_candidate ?xs") auto
          show ?thesis
          proof (cases c)
            case None
            with assms g bs Inr sel show ?thesis
              by (intro ended [of "case v of SupEnds y \<Rightarrow> y"])
                (auto simp: supervise_turn_def settle_idle_def Let_def ends_def sup_result_of_def split: prod.splits if_splits)
          next
            case (Some x)
            note one = selected_in [OF sel [unfolded Some]]
            let ?row = "find_row (\<lambda>t. t_id t = as_task x \<and> t_owner t = sc_owner sc \<and> t_goal t = sc_goal sc) (tasks (ss_db s))"
            show ?thesis
            proof (cases "?row = None \<or> binding_of bs (as_task x) = None")
              case True
              with assms g bs Inr sel Some show ?thesis
                by (intro ended) (auto simp: supervise_turn_def Let_def split: option.splits)
            next
              case False
              then obtain t b where "?row = Some t" "binding_of bs (as_task x) = Some b" by auto
              with assms g bs Inr sel Some one show ?thesis
                by (intro worked [of g bs found x t b]) (auto simp: supervise_turn_def Let_def)
            qed
          qed
        qed
      qed
    qed
  qed
qed

lemma turn_behind:
  assumes "supervise_turn env n sc bd run s = (v, s1)" and "quiet env" and "\<forall>b\<in>set (run_bindings run). keeps_drives b"
  shows "\<exists>i. left_behind sc i run s v s1 \<and>
    (\<forall>run1. v = SupGoes run1 \<longrightarrow> i \<notin> fst ` set (run_deferred run) \<and> i \<in> t_id ` set (scoped_tasks sc (ss_db s)))"
  using assms(1)
proof (cases rule: turn_cases)
  case (ended y)
  then show ?thesis by (auto simp: left_behind_def split: sum.splits)
next
  case (worked g bs found x t b)
  let ?run = "run\<lparr>run_bindings := bs, run_last := apply_deferred (run_deferred run) found\<rparr>"
  have t: "t_id t = as_task x" using find_row_SomeD [OF worked(5)] by simp
  have keeps: "\<forall>b\<in>set (run_bindings ?run). keeps_drives b" using augment_keeps [OF worked(2) assms(2,3)] by simp
  have "left_behind sc (t_id t) ?run s v s1"
    using work_behind [OF worked(7) assms(2) keeps] binding_of_in [OF worked(6)] by simp
  then have "left_behind sc (t_id t) run s v s1"
    by (auto simp: left_behind_def progressed_def split: sup_turn.splits sum.splits)
  moreover have "t_id t \<notin> fst ` set (run_deferred run)"
  proof -
    have act: "as_actionable x" "x \<in> set (apply_deferred (run_deferred run) found)" using selected_in [OF worked(4)] by simp_all
    then obtain y where "x = (case map_of (run_deferred run) (as_task y) of None \<Rightarrow> y
        | Some code \<Rightarrow> y\<lparr>as_actionable := False, as_code := Some code, as_reason := deferred_message code\<rparr>)"
      by (auto simp: apply_deferred_def)
    with act(1) have "map_of (run_deferred run) (as_task x) = None" by (auto split: option.splits)
    then show ?thesis by (simp add: t map_of_eq_None_iff)
  qed
  moreover have "t_id t \<in> t_id ` set (scoped_tasks sc (ss_db s))"
    using find_row_SomeD [OF worked(5)] by (intro imageI) (simp add: scoped_tasks_def)
  ultimately show ?thesis by (intro exI [of _ "t_id t"] conjI) simp_all
qed

lemma supervise_behind:
  assumes "supervise env sc bd fuel n run s = Some (r, s1)" and "quiet env" and "\<forall>b\<in>set (run_bindings run). keeps_drives b"
  shows "\<exists>new. ss_drives s1 = ss_drives s @ new \<and> list_all (drive_ok sc) new \<and>
    (\<forall>x. r = Inr x \<longrightarrow> (\<exists>sel. sr_selected x = run_selected run @ sel \<and>
       int (run_jobs run + length sel) \<le> max (int (run_jobs run)) (bd_max_jobs bd)))"
  using assms(1,3)
proof (induction fuel arbitrary: n run s)
  case (Suc fuel)
  show ?case
  proof (cases "int (run_jobs run) < bd_max_jobs bd \<and> sv_elapsed env n < bd_max_elapsed bd")
    case True
    obtain v s2 where turn: "supervise_turn env n sc bd run s = (v, s2)" by fastforce
    obtain i where left: "left_behind sc i run s v s2" using turn_behind [OF turn assms(2) Suc.prems(2)] by blast
    then obtain new where new: "ss_drives s2 = ss_drives s @ new" "list_all (drive_ok sc) new" by (auto simp: left_behind_def)
    show ?thesis
    proof (cases v)
      case (SupEnds y)
      with Suc.prems(1) True turn have "r = y" "s1 = s2" by simp_all
      with left new SupEnds show ?thesis by (auto simp: left_behind_def)
    next
      case (SupGoes run1)
      with Suc.prems(1) True turn have "supervise env sc bd fuel (n + 1) run1 s2 = Some (r, s1)" by simp
      moreover have go: "\<forall>b\<in>set (run_bindings run1). keeps_drives b" "progressed i run run1"
        using left SupGoes by (simp_all add: left_behind_def)
      ultimately obtain more where more: "ss_drives s1 = ss_drives s2 @ more" "list_all (drive_ok sc) more"
        "\<forall>x. r = Inr x \<longrightarrow> (\<exists>sel. sr_selected x = run_selected run1 @ sel \<and>
           int (run_jobs run1 + length sel) \<le> max (int (run_jobs run1)) (bd_max_jobs bd))"
        using Suc.IH by blast
      have "\<exists>sel. sr_selected x = run_selected run @ sel \<and>
          int (run_jobs run + length sel) \<le> max (int (run_jobs run)) (bd_max_jobs bd)" if x: "r = Inr x" for x
      proof -
        obtain sel where sel: "sr_selected x = run_selected run1 @ sel"
          "int (run_jobs run1 + length sel) \<le> max (int (run_jobs run1)) (bd_max_jobs bd)" using more(3) x by blast
        from go(2) show ?thesis
          unfolding progressed_def
        proof
          assume "run_jobs run1 = run_jobs run \<and> run_selected run1 = run_selected run \<and>
            fst ` set (run_deferred run1) = insert i (fst ` set (run_deferred run))"
          with sel show ?thesis by auto
        next
          assume "run_jobs run1 = run_jobs run + 1 \<and> run_selected run1 = run_selected run @ [i] \<and>
            fst ` set (run_deferred run1) \<subseteq> fst ` set (run_deferred run)"
          with sel True show ?thesis by (intro exI [of _ "i # sel"]) auto
        qed
      qed
      with new more(1,2) show ?thesis by (intro exI [of _ "new @ more"]) simp
    qed
  qed (use Suc.prems(1) in \<open>auto simp: sup_result_of_def\<close>)
qed simp


section \<open>The number of turns\<close>

text \<open>The states a run passes through.\<close>

inductive supervised ::
  "sup_env \<Rightarrow> supervisor_scope \<Rightarrow> supervisor_bounds \<Rightarrow> sup_run \<Rightarrow> sup_state \<Rightarrow> nat \<Rightarrow> sup_run \<Rightarrow> sup_state \<Rightarrow> bool"
  for env sc bd run0 s0 where
  first: "supervised env sc bd run0 s0 0 run0 s0"
| turn: "supervised env sc bd run0 s0 n run s \<Longrightarrow> int (run_jobs run) < bd_max_jobs bd \<Longrightarrow> sv_elapsed env n < bd_max_elapsed bd \<Longrightarrow>
    supervise_turn env n sc bd run s = (SupGoes run1, s1) \<Longrightarrow> supervised env sc bd run0 s0 (n + 1) run1 s1"

definition turn_weight :: "nat \<Rightarrow> sup_run \<Rightarrow> nat" where
  "turn_weight k run = run_jobs run * (k + 1) + card (fst ` set (run_deferred run))"

text \<open>A turn that goes on has worked on a task of the goal that was not deferred.\<close>

lemma turn_goes:
  assumes "supervise_turn env n sc bd run s = (SupGoes run1, s1)" and "quiet env" and "\<forall>b\<in>set (run_bindings run). keeps_drives b"
  shows "\<exists>i. i \<in> t_id ` set (scoped_tasks sc (ss_db s)) \<and> i \<notin> fst ` set (run_deferred run) \<and>
    (\<forall>b\<in>set (run_bindings run1). keeps_drives b) \<and>
    (run_jobs run1 = run_jobs run \<and> fst ` set (run_deferred run1) = insert i (fst ` set (run_deferred run)) \<or>
     run_jobs run1 = run_jobs run + 1 \<and> fst ` set (run_deferred run1) \<subseteq> fst ` set (run_deferred run))"
  using turn_behind [OF assms] by (auto simp: left_behind_def progressed_def)

lemma supervised_weight:
  assumes "supervised env sc bd run0 s0 n run s" and "quiet env" and "\<forall>b\<in>set (run_bindings run0). keeps_drives b"
    and "run_jobs run0 = 0" "run_deferred run0 = []"
    and "\<And>n run s. supervised env sc bd run0 s0 n run s \<Longrightarrow> t_id ` set (scoped_tasks sc (ss_db s)) \<subseteq> ids" and "finite ids"
  shows "n \<le> turn_weight (card ids) run \<and> fst ` set (run_deferred run) \<subseteq> ids \<and> (\<forall>b\<in>set (run_bindings run). keeps_drives b) \<and>
    int (run_jobs run) \<le> max 0 (bd_max_jobs bd)"
  using assms(1)
proof induction
  case first
  then show ?case using assms(3-5) by simp
next
  case (turn n run s run1 s1)
  let ?k = "card ids" and ?D = "fst ` set (run_deferred run)" and ?D1 = "fst ` set (run_deferred run1)"
  obtain i where i: "i \<in> t_id ` set (scoped_tasks sc (ss_db s))" "i \<notin> ?D" "\<forall>b\<in>set (run_bindings run1). keeps_drives b"
    "run_jobs run1 = run_jobs run \<and> ?D1 = insert i ?D \<or> run_jobs run1 = run_jobs run + 1 \<and> ?D1 \<subseteq> ?D"
    using turn_goes [OF turn.hyps(4) assms(2) turn.IH [THEN conjunct2, THEN conjunct2, THEN conjunct1]] by (elim exE conjE)
  have "i \<in> ids" using i(1) assms(6) [OF turn.hyps(1)] by blast
  have small: "card ?D \<le> ?k" using turn.IH assms(7) by (intro card_mono) auto
  have "turn_weight ?k run + 1 \<le> turn_weight ?k run1"
    using i(4)
  proof
    assume "run_jobs run1 = run_jobs run \<and> ?D1 = insert i ?D"
    then show ?thesis using i(2) by (simp add: turn_weight_def)
  next
    assume "run_jobs run1 = run_jobs run + 1 \<and> ?D1 \<subseteq> ?D"
    then show ?thesis using small by (simp add: turn_weight_def)
  qed
  moreover have "n \<le> turn_weight ?k run" and D: "?D \<subseteq> ids" using turn.IH by simp_all
  ultimately have "n + 1 \<le> turn_weight ?k run1" by linarith
  moreover from i(4) have "?D1 \<subseteq> ids" using D \<open>i \<in> ids\<close> by (elim disjE) (simp, meson subset_trans)
  moreover from i(4) have "int (run_jobs run1) \<le> max 0 (bd_max_jobs bd)" using turn.hyps(2) by (elim disjE) simp_all
  ultimately show ?case using i(3) by simp
qed

lemma supervise_ends:
  assumes "\<And>m run s. supervised env sc bd run0 s0 m run s \<Longrightarrow> m < turns" and "supervised env sc bd run0 s0 n run s"
    and "turns \<le> n + fuel"
  shows "supervise env sc bd fuel n run s \<noteq> None"
  using assms(2,3)
proof (induction fuel arbitrary: n run s)
  case 0
  then show ?case using assms(1) by fastforce
next
  case (Suc fuel)
  show ?case
  proof (cases "int (run_jobs run) < bd_max_jobs bd \<and> sv_elapsed env n < bd_max_elapsed bd")
    case True
    obtain v s2 where turn: "supervise_turn env n sc bd run s = (v, s2)" by fastforce
    show ?thesis
    proof (cases v)
      case (SupGoes run1)
      have "supervised env sc bd run0 s0 (n + 1) run1 s2"
        using supervised.turn [OF Suc.prems(1)] True turn SupGoes by simp
      with Suc.IH [of "n + 1" run1 s2] Suc.prems(2) True turn SupGoes show ?thesis by simp
    qed (use True turn in simp)
  qed auto
qed

text \<open>C30: The loop ends without help of the clock: if the goal never has more than \<open>k\<close> tasks, counted over the whole run,
  then \<open>(max_jobs + 1) * (k + 1)\<close> turns are enough, because a turn that goes on completes a task or defers one that was
  not deferred.\<close>

theorem supervisor_ends:
  assumes "quiet env" and "\<And>b. b \<in> set bs \<Longrightarrow> keeps_drives b" and "finite ids"
    and "\<And>before bs1 n run t. augment_bindings env (pp_py (sv_provider env 0)) sc bs s = Inr bs1 \<Longrightarrow>
      supervised env sc bd \<lparr>run_bindings = bs1, run_deferred = [], run_selected = before, run_jobs = 0,
        run_last = [], run_gaps = (0, 0, 0)\<rparr> s n run t \<Longrightarrow> t_id ` set (scoped_tasks sc (ss_db t)) \<subseteq> ids"
  shows "\<exists>y. run_supervisor env sc bs bd ((nat (bd_max_jobs bd) + 1) * (card ids + 1)) s = Some y"
proof (rule ccontr)
  define fuel where "fuel = (nat (bd_max_jobs bd) + 1) * (card ids + 1)"
  assume "\<nexists>y. run_supervisor env sc bs bd ((nat (bd_max_jobs bd) + 1) * (card ids + 1)) s = Some y"
  then have "run_supervisor env sc bs bd fuel s = None" unfolding fuel_def [symmetric] by (metis not_None_eq)
  then obtain before bs1 where bs1: "augment_bindings env (pp_py (sv_provider env 0)) sc bs s = Inr bs1"
    and out: "supervise env sc bd fuel 0 \<lparr>run_bindings = bs1, run_deferred = [], run_selected = before, run_jobs = 0,
        run_last = [], run_gaps = (0, 0, 0)\<rparr> s = None"
    by (auto simp: run_supervisor_def Let_def simp del: supervise.simps split: if_splits sum.splits prod.splits option.splits)
  let ?run = "\<lparr>run_bindings = bs1, run_deferred = [], run_selected = before, run_jobs = 0, run_last = [], run_gaps = (0, 0, 0)\<rparr>"
  have keeps: "\<forall>b\<in>set (run_bindings ?run). keeps_drives b" using augment_keeps [OF bs1 assms(1)] assms(2) by simp
  have "m < fuel" if run: "supervised env sc bd ?run s m run t" for m run t
  proof -
    have w: "m \<le> turn_weight (card ids) run" "fst ` set (run_deferred run) \<subseteq> ids" "int (run_jobs run) \<le> max 0 (bd_max_jobs bd)"
      using supervised_weight [OF run assms(1) keeps _ _ assms(4) [OF bs1] assms(3)] by simp_all
    have "card (fst ` set (run_deferred run)) \<le> card ids" using w(2) assms(3) by (rule card_mono [rotated])
    moreover have "run_jobs run * (card ids + 1) \<le> nat (bd_max_jobs bd) * (card ids + 1)" using w(3) by (intro mult_le_mono1) linarith
    ultimately show ?thesis using w(1) by (simp add: turn_weight_def fuel_def)
  qed
  then have "supervise env sc bd fuel 0 ?run s \<noteq> None"
    by (rule supervise_ends [OF _ supervised.first]) simp_all
  with out show False by simp
qed

section \<open>Selection\<close>

lemma objection_none:
  assumes "objection sc t b = None"
  shows "\<exists>x. b = Some x \<and> wb_repository x = sc_repository sc \<and> set (wb_paths x) \<subseteq> set (sc_paths sc) \<and>
    the (risk_order (risk_value (t_risk t))) \<le> the (risk_order (sc_risk sc)) \<and> set (wb_required x) \<subseteq> JStr ` set (sc_caps sc) \<and>
    wb_ambiguities x = [] \<and> wb_contradictions x = []"
  using assms by (auto simp: objection_def split: if_splits option.splits)

lemma find_key:
  assumes "t \<in> set ts" and "P t" and "distinct (map f ts)" and "\<And>x. P x \<Longrightarrow> f x = f t"
  shows "find_row P ts = Some t"
  using assms(1-3)
proof (induction ts)
  case (Cons x ts)
  show ?case
  proof (cases "P x")
    case True
    with Cons.prems assms(4) [OF True] have "x = t" by (auto simp: image_iff)
    with True show ?thesis by simp
  next
    case False
    with Cons show ?thesis by auto
  qed
qed simp

text \<open>C31: What is selected may be worked on: it is a ready or running task of the owner's goal, not deferred in this
  invocation, bound to the repository and to paths of the scope, within its risk and capabilities and without open
  questions; and every other task that could be worked on has a lower priority, for a tie is not decided.\<close>

theorem selected_is_authorized:
  assumes "discover_candidates sc bs bd d = Inr found" and "select_candidate (apply_deferred deferred found) = (Some x, c)"
    and "distinct (map t_id (tasks d))"
  shows "\<exists>t b. find_row (\<lambda>t. t_id t = as_task x) (tasks d) = Some t \<and> t_owner t = sc_owner sc \<and> t_goal t = sc_goal sc \<and>
    t_status t \<in> {TReady, TRunning} \<and> t_id t \<notin> fst ` set deferred \<and> binding_of bs (t_id t) = Some b \<and>
    wb_repository b = sc_repository sc \<and> set (wb_paths b) \<subseteq> set (sc_paths sc) \<and>
    the (risk_order (risk_value (t_risk t))) \<le> the (risk_order (sc_risk sc)) \<and> set (wb_required b) \<subseteq> JStr ` set (sc_caps sc) \<and>
    wb_ambiguities b = [] \<and> wb_contradictions b = [] \<and>
    (\<forall>u\<in>set (tasks d). u \<noteq> t \<and> t_owner u = sc_owner sc \<and> t_goal u = sc_goal sc \<and> t_status u \<in> {TReady, TRunning} \<and>
       objection sc u (binding_of bs (t_id u)) = None \<and> t_id u \<notin> fst ` set deferred \<longrightarrow> t_priority u < t_priority t)"
proof -
  have found: "found = map (assess_task sc bs) (scoped_tasks sc d)"
    using assms(1) by (auto simp: discover_candidates_def split: if_splits)
  have open_task: "assess_task sc bs u \<in> set (apply_deferred deferred found)"
    if "u \<in> set (scoped_tasks sc d)" "t_id u \<notin> fst ` set deferred" for u
  proof -
    have "map_of deferred (t_id u) = None" using that(2) by (simp add: map_of_eq_None_iff)
    with that(1) show ?thesis
      by (auto simp: apply_deferred_def found assess_task_def Let_def image_iff intro!: bexI [of _ u])
  qed
  note sel = selected_in [OF assms(2)]
  then obtain t where t: "t \<in> set (scoped_tasks sc d)" and x: "x = assess_task sc bs t" and new: "t_id t \<notin> fst ` set deferred"
    by (auto simp: apply_deferred_def found map_of_eq_None_iff assess_task_def Let_def split: option.splits)
  have id: "as_task x = t_id t" by (simp add: x assess_task_def Let_def)
  from sel x have ready: "t_status t \<in> {TReady, TRunning}" and obj: "objection sc t (binding_of bs (t_id t)) = None"
    by (auto simp: assess_task_def Let_def)
  have own: "t \<in> set (tasks d)" "t_owner t = sc_owner sc" "t_goal t = sc_goal sc" using t by (auto simp: scoped_tasks_def)
  have row: "find_row (\<lambda>u. t_id u = as_task x) (tasks d) = Some t"
    by (rule find_key [where f = t_id]) (simp_all only: own(1) assms(3) id)
  have lower: "t_priority u < t_priority t"
    if "u \<in> set (tasks d)" "u \<noteq> t" "t_owner u = sc_owner sc" "t_goal u = sc_goal sc" "t_status u \<in> {TReady, TRunning}"
      "objection sc u (binding_of bs (t_id u)) = None" "t_id u \<notin> fst ` set deferred" for u
  proof -
    have "u \<in> set (scoped_tasks sc d)" using that by (simp add: scoped_tasks_def)
    note mem = open_task [OF this that(7)]
    have act: "as_actionable (assess_task sc bs u)" using that(5,6) by (simp add: assess_task_def Let_def)
    have "assess_task sc bs u \<noteq> x"
    proof
      assume "assess_task sc bs u = x"
      then have "t_id u = t_id t" by (simp add: x assess_task_def Let_def)
      with that(1,2) own(1) assms(3) show False by (auto simp: distinct_map inj_on_def)
    qed
    with mem act sel have "as_priority (assess_task sc bs u) < as_priority x" by blast
    then show ?thesis by (simp add: x assess_task_def Let_def)
  qed
  obtain b where "binding_of bs (t_id t) = Some b" and ok: "wb_repository b = sc_repository sc \<and> set (wb_paths b) \<subseteq> set (sc_paths sc) \<and>
    the (risk_order (risk_value (t_risk t))) \<le> the (risk_order (sc_risk sc)) \<and> set (wb_required b) \<subseteq> JStr ` set (sc_caps sc) \<and>
    wb_ambiguities b = [] \<and> wb_contradictions b = []" using objection_none [OF obj] by blast
  have "\<forall>u\<in>set (tasks d). u \<noteq> t \<and> t_owner u = sc_owner sc \<and> t_goal u = sc_goal sc \<and> t_status u \<in> {TReady, TRunning} \<and>
      objection sc u (binding_of bs (t_id u)) = None \<and> t_id u \<notin> fst ` set deferred \<longrightarrow> t_priority u < t_priority t"
    by (intro ballI impI) (elim conjE, rule lower)
  with row own ready new ok \<open>binding_of bs (t_id t) = Some b\<close> show ?thesis
    by (intro exI [of _ t] exI [of _ b] conjI) simp_all
qed

section \<open>Where tasks get stuck\<close>

lemma uuid_array_inject [simp]: "uuid_array is = uuid_array js \<longleftrightarrow> is = js"
proof -
  have "inj (\<lambda>i. JStr (uuid_str i))" by (simp add: inj_def uuid_str_inject)
  then show ?thesis by (simp add: uuid_array_def text_array_def comp_def inj_map_eq_map)
qed

lemma find_row_append_Some: "find_row P xs = Some e \<Longrightarrow> find_row P (xs @ ys) = Some e"
  by (induction xs) (auto split: if_splits)

text \<open>C32: Once a selection is on record, selecting the same task again under the same execution, with other candidates beside
  it, raises: a task that was interrupted while running cannot be resumed after the tasks of its goal have changed.\<close>

theorem changed_candidates_stop_a_task:
  assumes "record_selection env n sc run b t ctx s = Inr s1" and "pt_evidence (px_plan (ss_prov s2)) = pt_evidence (px_plan (ss_prov s1)) @ later"
    and "os_bindings (pt_op (px_plan (ss_prov s2))) = os_bindings (pt_op (px_plan (ss_prov s)))" and "oc_strategy ctx2 = oc_strategy ctx"
    and "map as_task (run_last run2) \<noteq> map as_task (run_last run)"
  shows "record_selection env2 m sc run2 b2 t ctx2 s2 = Inl (SvPlanner PlanConflict)"
proof -
  obtain x where x: "find_row (\<lambda>x. sb_id x = oc_strategy ctx \<and> sb_owner x = sc_owner sc) (os_bindings (pt_op (px_plan (ss_prov s)))) = Some x"
    using assms(1) by (auto simp: record_selection_def split: option.splits)
  let ?e = "selection_evidence env n sc run b t (sb_execution x)" and ?e2 = "selection_evidence env2 m sc run2 b2 t (sb_execution x)"
  from assms(1) x obtain e p where rec: "record_evidence ?e (px_plan (ss_prov s)) = Inr (e, p)" and s1: "s1 = set_ss_plan p s"
    by (auto simp: record_selection_def split: sum.splits prod.splits)
  have key: "keyed_evidence ?e2 = keyed_evidence ?e" by (simp add: fun_eq_iff keyed_evidence_def selection_evidence_def)
  have found: "find_row (keyed_evidence ?e) (pt_evidence p) = Some e" and pay: "ie_payload e = ie_payload ?e"
    using rec by (auto simp: record_evidence_def keyed_evidence_def find_row_snoc split: option.splits if_splits
        dest: arg_cong [where f = ie_payload])
  have "pt_evidence (px_plan (ss_prov s1)) = pt_evidence p" by (simp add: s1 set_ss_plan_def)
  then have again: "find_row (keyed_evidence ?e2) (pt_evidence (px_plan (ss_prov s2))) = Some e"
    using found assms(2) by (simp add: key find_row_append_Some)
  have "uuid_array (map as_task (run_last run2)) \<noteq> uuid_array (map as_task (run_last run))"
    using assms(5) by simp
  then have "ie_payload ?e2 \<noteq> ie_payload e" by (simp add: pay) (simp add: selection_evidence_def)
  moreover have "ie_payload (?e2\<lparr>ie_id := ie_id e\<rparr>) = ie_payload ?e2" by simp
  ultimately have "e \<noteq> ?e2\<lparr>ie_id := ie_id e\<rparr>" by metis
  with again x assms(3,4) show ?thesis by (simp add: record_selection_def record_evidence_def)
qed

lemma accepted_steps:
  assumes "plan_founder_request env rq ctx (Some c) s = Inr (r, s1)" and "pr_class r = ''ACCEPTED''" and "pr_plan r = Some p"
  shows "\<exists>steps. mset steps = mset (pc_steps c) \<and> pn_steps p = map driver_step_of steps"
proof -
  have "validate_candidate env rq ctx c s = Inr (r, s1)"
    using plan_founder_request_accepts [OF assms(1,2)] by (simp add: chosen_candidate_def)
  from validate_candidate_accepts [OF this assms(2)] obtain g t steps where
    "ordered_steps c = Inr steps" "accept_plan env rq ctx c steps g t s = Inr (r, s1)" by blast
  with ordered_steps_Inr accept_plan_Inr assms(3) show ?thesis by (fastforce simp: plan_of_def)
qed

lemma uncited_plan_refused:
  assumes "\<forall>st\<in>set (pn_steps p). paths_from_arguments (dp_arguments st) = []" and "\<exists>st\<in>set (pn_steps p). operator_step st"
  shows "\<exists>why. execution_boundary sc b ctx p = Inr (Inl why)"
proof -
  have none: "cited_paths p = []" using assms(1) by (simp add: cited_paths_def first_occurrences_def)
  have op: "list_ex operator_step (pn_steps p)" using assms(2) by (simp add: list_ex_iff)
  show ?thesis
    by (cases "narrow_task_scope (sc_paths sc) (sc_caps sc) p")
      (auto simp: execution_boundary_def op none narrow_task_scope_def split: if_splits)
qed

text \<open>C33: The static re-verification of a repaired task never runs. Its plan names no path, so when it is accepted the
  boundary of the driver refuses it: the invocation ends as out of scope with no call of the driver, and the task and
  its job are left as they were.\<close>

theorem static_reverify_never_runs:
  assumes "reverify_contract problem = Some d" and "jget d ''capability'' = JStr ''run_static_check''"
    and "reverify_candidate_for_source py problem = Inr c" and "wb_candidate b = Some c"
    and "plan_task env n sc rq ctx b t s = (Inr (Some r), s1)" and "pr_class r = ''ACCEPTED''" and "pr_plan r = Some p"
  shows "\<exists>why s2. execute_plan env n sc run g b t j ctx p s1 = (ends ''OUT_OF_SCOPE'' run (JStr why) None, s2) \<and>
    ss_drives s2 = ss_drives s1 \<and> tasks (ss_db s2) = tasks (ss_db s1) \<and> jobs (ss_db s2) = jobs (ss_db s1)"
proof -
  have "c = reverify_plan ''original static verification passes''
      ''run the structured static-check contract from the gap envelope only''
      (recipe_step ''verify'' ''run structured static check'' ''static pass'' ''run_static_check'' [] [] ''LOCAL_EXECUTION'' True)"
    using assms(1-3) by (simp add: reverify_candidate_for_source_def)
  then have steps: "pc_steps c = [recipe_step ''verify'' ''run structured static check'' ''static pass'' ''run_static_check'' [] []
      ''LOCAL_EXECUTION'' True, reverify_gate]" by (simp add: reverify_plan_def recipe_def)
  obtain st where "plan_founder_request (pp_planner (sv_provider env n)) rq ctx (Some c) (px_plan (ss_prov s)) = Inr (r, st)"
    using assms(4,5) by (auto simp: plan_task_def planned_here_def map_sum_def Let_def split: sum.splits prod.splits)
  from accepted_steps [OF this assms(6,7)] obtain xs where xs: "mset xs = mset (pc_steps c)" "pn_steps p = map driver_step_of xs" by blast
  have set: "set xs = set (pc_steps c)" using xs(1) by (metis set_mset_mset)
  have "\<forall>x\<in>set (pn_steps p). paths_from_arguments (dp_arguments x) = []"
    by (simp add: xs(2) set steps driver_step_of_def recipe_step_def reverify_gate_def paths_from_arguments_def)
  moreover have "\<exists>x\<in>set (pn_steps p). operator_step x"
    by (simp add: xs(2) set steps driver_step_of_def recipe_step_def reverify_gate_def operator_step_def driver_directives_def)
  ultimately obtain why where "execution_boundary sc b ctx p = Inr (Inl why)" using uncited_plan_refused by blast
  then show ?thesis
    by (intro exI [of _ why] exI [of _ "sup_checkpoint (sv_now env n) g (Some (t_id t)) (Some (j_id j)) ''OUT_OF_SCOPE''
        (selected_state run (t_id t) @ [(''narrowing_error'', JStr why)]) s1"])
      (simp add: execute_plan_def sup_checkpoint_def set_ss_db_def set_px_db_def set_pt_db_def set_op_db_def op_db_def)
qed

section \<open>The statements at work\<close>

definition sup_scope :: supervisor_scope where
  "sup_scope =
     \<lparr>sc_owner = 7, sc_goal = 20, sc_kind = ''authorized_goal'', sc_ref = ''goal'', sc_instruction = ''do it'',
      sc_repository = path_str (goal_worktree_path 20), sc_paths = [''src''], sc_caps = [''patch_file'', ''run_static_check''],
      sc_risk = ''low'', sc_criteria = [''done''], sc_intent = None, sc_self_work = False, sc_spend = False\<rparr>"

definition sup_bounds :: supervisor_bounds where
  "sup_bounds = \<lparr>bd_max_candidates = 20, bd_max_jobs = 1, bd_max_elapsed = 900, bd_max_members = 50\<rparr>"

definition no_gaps :: gap_service where
  "no_gaps =
     \<lparr>ga_child = (\<lambda>_ _ _. False), ga_problem = (\<lambda>_ _ _. None), ga_binding = (\<lambda>_ _ _. None),
      ga_signal = (\<lambda>_ _ _ _ _ _ _ _ s. (GapNone, s)), ga_resume = (\<lambda>_ s. (None, s))\<rparr>"

definition sup_sample_env :: sup_env where
  "sup_sample_env =
     \<lparr>sv_runtime = \<lparr>role_configured = (\<lambda>_. True), in_production = False\<rparr>, sv_commits = (\<lambda>d. d), sv_now = (\<lambda>_. 3),
      sv_elapsed = (\<lambda>_. 0), sv_job_id = (\<lambda>_. 95), sv_evidence_id = (\<lambda>_. 96),
      sv_provider = (\<lambda>_. prov_env\<lparr>pp_planner := plan_sample_env\<rparr>), sv_limits = prov_limits, sv_driver = (\<lambda>_. drv_sample_env),
      sv_jitter = (\<lambda>_. 0), sv_intent = (\<lambda>_ _ _. Inr True), sv_founder = (\<lambda>_ s. s), sv_worker = ''w'', sv_gap = no_gaps\<rparr>"

definition sup_binding :: "plan_candidate \<Rightarrow> work_binding" where
  "sup_binding c =
     \<lparr>wb_task = 1, wb_prepare = (\<lambda>_ _ s. (Inr op_sample_ctx, s)), wb_candidate = Some c, wb_adapter = None, wb_required = [],
      wb_contribution = ''advance'', wb_independent = False, wb_ambiguities = [], wb_contradictions = [],
      wb_provider_likely = False, wb_repository = path_str (goal_worktree_path 20), wb_paths = [''src''], wb_fallback = False\<rparr>"

definition sup_sample :: sup_state where
  "sup_sample = \<lparr>ss_prov = prov_sample, ss_learn = sample_learning, ss_drives = []\<rparr>"

lemma sup_quiet: "quiet sup_sample_env" "keeps_drives (sup_binding c)"
  by (simp_all add: quiet_def keeps_drives_def sup_sample_env_def no_gaps_def sup_binding_def)

definition check_candidate :: plan_candidate where
  "check_candidate =
     recipe ''check the sources'' ''checked'' ''as asked'' [] [] []
       [recipe_step ''check'' ''run a check'' ''pass'' ''run_static_check'' [(''scope'', JStr ''src'')] [] ''LOCAL_EXECUTION'' True]"

definition sup_request :: planning_request where
  "sup_request = founder_request sup_scope sup_bounds (sup_binding check_candidate)
     (sample_goal\<lparr>g_approval_policy := ''autonomous_development_work''\<rparr>) drv_sample_task dead_sample_job"

lemma sup_request_fields:
  "founder_request sup_scope sup_bounds (sup_binding c) (sample_goal\<lparr>g_approval_policy := ''autonomous_development_work''\<rparr>)
     drv_sample_task dead_sample_job = sup_request"
  "rq_owner sup_request = 7" "rq_goal sup_request = 20" "rq_task sup_request = 1" "rq_job sup_request = 5" "rq_instruction sup_request = ''do it''"
  "rq_max_steps sup_request = 20" "rq_max_alternatives sup_request = 3" "rq_max_elapsed sup_request = 60"
  "rq_repository sup_request = Some (path_str (goal_worktree_path 20))" "rq_max_members sup_request = 50"
  "authority_objection sup_request = None"
  by (simp_all add: sup_request_def founder_request_def sup_scope_def sup_bounds_def sup_binding_def sample_goal_def drv_sample_task_def
      sample_task_def dead_sample_job_def dispatch_job_def new_job_def authority_objection_def non_authoritative_kinds_def
      authorized_kinds_def unresolved_def sample_words)

lemma check_ordered: "ordered_steps check_candidate = Inr (pc_steps check_candidate)"
  by (simp add: ordered_steps_def check_candidate_def recipe_def recipe_step_def Let_def strip_chars_def is_space_def
      order_from.simps ready_steps_def)

lemma sample_no_secret: "redact_value op_sample_machine v = v"
  by (induction op_sample_machine v rule: redact_value.induct) (simp_all add: op_sample_machine_def map_idI)

lemma check_valid:
  "st \<in> set (pc_steps check_candidate) \<Longrightarrow> validate_step op_sample_machine op_sample_ctx st = Inr () \<and> check_step (driver_step_of st) = Inr ()"
proof -
  have "\<exists>r. guard_path op_sample_machine op_sample_ctx False ''src'' = Inr r"
    by (simp add: guard_path_def op_sample_ctx_def op_sample_machine_def path_parts_def lowered_parts_def lower_char_def
        sensitive_parts_def path_within_authorized_def within_path_def path_root_def is_absolute_def)
  then show "st \<in> set (pc_steps check_candidate) \<Longrightarrow>
      validate_step op_sample_machine op_sample_ctx st = Inr () \<and> check_step (driver_step_of st) = Inr ()"
    by (auto simp: validate_step_def check_candidate_def recipe_def recipe_step_def driver_directives_def
        forbidden_capabilities_def development_capabilities_def raw_argument_keys_def risk_of_value_def validate_argument_def
        path_keys_def validate_path_value_def ensure_def sample_no_secret check_step_def driver_step_of_def strip_chars_def is_space_def)
qed

lemma check_words: "\<not> says forbidden_words ''check the sources''"
  by code_simp

lemma check_bounds: "candidate_bounds sup_request check_candidate = Inr ()"
  by (simp add: candidate_bounds_def sup_request_fields check_candidate_def recipe_def sample_words check_words ensure_def)

lemma sup_context_sample: "pt_op st = op_sample \<Longrightarrow> load_scope sup_request (pt_db st) =
    Inr (sample_goal\<lparr>g_approval_policy := ''autonomous_development_work''\<rparr>, drv_sample_task, dead_sample_job)"
  by (simp add: load_scope_def sup_request_fields op_sample_def op_sample_leases_def op_db_def dead_sample_db_def
      dead_sample_job_def dispatch_job_def new_job_def sample_goal_def drv_sample_task_def sample_task_def)

lemma sup_assessed:
  assumes "pt_op st = op_sample"
  shows "assess_authority plan_sample_env sup_request st = Inr (None, st)"
proof -
  have "strip_chars is_space ''do it'' \<noteq> []" "py_len ''do it'' = 5"
    by (simp_all add: strip_chars_def is_space_def py_len_def continuation_def)
  then show ?thesis by (simp add: assess_authority_def sup_context_sample [OF assms] sup_request_fields max_instruction_chars_def)
qed

lemma check_steps_all: "(\<And>st. st \<in> set sts \<Longrightarrow> check_step st = Inr ()) \<Longrightarrow> check_steps sts = Inr ()"
  by (induction sts) auto

lemma sup_plan_validates:
  assumes "ordered_steps c = Inr steps" and "\<And>st. st \<in> set steps \<Longrightarrow> check_step (driver_step_of st) = Inr ()"
    and "list_ex (\<lambda>st. ct_risk st \<noteq> ''READ_ONLY'') steps" and "length steps \<le> 50"
  shows "validate_plan op_sample_machine 3 op_sample_ctx (plan_of plan_sample_env op_sample_ctx c steps) op_sample =
     Inr (drv_sample_task, sample_goal\<lparr>g_approval_policy := ''autonomous_development_work''\<rparr>)"
proof -
  let ?p = "plan_of plan_sample_env op_sample_ctx c steps"
  have app: "require_task_approval d drv_sample_task ''autonomous_development_work'' = Inr ()" for d
    by (simp add: require_task_approval_def requires_approval_def approval_policies_def)
  have hash: "candidate_hash plan_sample_env c = ''h''"
    by (simp add: candidate_hash_def plan_sample_env_def op_sample_machine_def)
  have steps: "check_steps (map driver_step_of steps) = Inr ()" using assms(2) by (intro check_steps_all) auto
  have risk: "list_ex (\<lambda>st. dp_risk st \<noteq> ''READ_ONLY'') (map driver_step_of steps)"
    using assms(3) by (simp add: list_ex_iff driver_step_of_def)
  have len: "1 \<le> length steps" using assms(3) by (cases steps) auto
  have p: "pn_id ?p = ''safe-h''" "pn_steps ?p = map driver_step_of steps" "pn_strategy ?p = 30" "pn_max_failures ?p = 2"
    by (simp_all add: plan_of_def hash drv_plan_facts continuation_def)
  have goals: "goals (op_db op_sample) = [sample_goal\<lparr>g_approval_policy := ''autonomous_development_work''\<rparr>]"
    by (simp add: op_sample_def op_sample_leases_def op_db_def dead_sample_db_def)
  have "strip_chars is_space ''safe-h'' \<noteq> [] \<and> \<not> 128 < py_len ''safe-h''"
    by (simp add: strip_chars_def is_space_def py_len_def continuation_def)
  moreover have "require_context op_sample_machine 3 op_sample_ctx True False op_sample =
      Inr (drv_sample_task, dead_sample_job, \<lparr>sb_id = 30, sb_owner = 7, sb_execution = 31, sb_next = 1\<rparr>, None)"
    using op_sample_context [of False] unfolding drv_sample_task_def .
  ultimately show ?thesis
    using risk len assms(4)
    unfolding validate_plan_def p goals
    by (simp add: p drv_plan_facts app steps sample_goal_def)
qed

lemma accept_plan_fresh:
  assumes "validate_plan (pv_machine env) (pv_now env) ctx (plan_of env ctx c steps) (pt_op s) = Inr x"
    and "assemble_planning_context env rq s = Inr (cid, refs)" and "prior_planning rq t (pt_db s) = []"
    and "find_row (\<lambda>b. sb_id b = oc_strategy ctx \<and> sb_owner b = rq_owner rq) (os_bindings (pt_op s)) = Some b"
    and "find_row (keyed_evidence (plan_evidence env rq c steps (plan_of env ctx c steps) b)) (pt_evidence s) = None"
  shows "\<exists>r s1. accept_plan env rq ctx c steps g t s = Inr (r, s1) \<and> pr_class r = ''ACCEPTED'' \<and>
    pr_plan r = Some (plan_of env ctx c steps)"
  by (simp add: accept_plan_def Let_def assms record_evidence_def jget_def)

lemma sup_accepts:
  assumes "ordered_steps c = Inr steps" and "candidate_bounds sup_request c = Inr ()"
    and "\<And>st. st \<in> set steps \<Longrightarrow> validate_step op_sample_machine op_sample_ctx st = Inr () \<and> check_step (driver_step_of st) = Inr ()"
    and "list_ex (\<lambda>st. ct_risk st \<noteq> ''READ_ONLY'') steps" and "length steps \<le> 50"
    and "pt_op s = op_sample" and "\<forall>e\<in>set (pt_evidence s). ie_key e \<noteq> ''safe-planner:h''"
  shows "\<exists>r s1. plan_founder_request plan_sample_env sup_request op_sample_ctx (Some c) s = Inr (r, s1) \<and> pr_class r = ''ACCEPTED'' \<and>
    pr_plan r = Some (plan_of plan_sample_env op_sample_ctx c steps)"
proof -
  have app: "require_task_approval d drv_sample_task ''autonomous_development_work'' = Inr ()" for d
    by (simp add: require_task_approval_def requires_approval_def approval_policies_def)
  have env: "pv_machine plan_sample_env = op_sample_machine" "pv_now plan_sample_env = 3" "pv_context plan_sample_env s = Inr (40, [])"
    "pv_elapsed plan_sample_env = 0" by (simp_all add: plan_sample_env_def)
  have hash: "candidate_hash plan_sample_env c = ''h''"
    by (simp add: candidate_hash_def plan_sample_env_def op_sample_machine_def)
  note valid = sup_plan_validates [OF assms(1) _ assms(4,5)]
  have prior: "prior_planning sup_request drv_sample_task (op_db op_sample) = []"
    by (simp add: prior_planning_def latest_checkpoint_for_step_def op_sample_def op_sample_leases_def op_db_def dead_sample_db_def
        empty_db_def)
  have bind: "find_row (\<lambda>b. sb_id b = oc_strategy op_sample_ctx \<and> sb_owner b = rq_owner sup_request) (os_bindings op_sample) =
      Some \<lparr>sb_id = 30, sb_owner = 7, sb_execution = 31, sb_next = 1\<rparr>"
    by (simp add: drv_plan_facts sup_request_fields op_sample_def)
  let ?p = "plan_of plan_sample_env op_sample_ctx c steps"
  have none: "find_row (keyed_evidence (plan_evidence plan_sample_env sup_request c steps ?p b)) (pt_evidence s) = None" for b
    using assms(7) by (auto simp: find_row_None_iff keyed_evidence_def plan_evidence_def hash)
  have v: "validate_plan op_sample_machine 3 op_sample_ctx ?p op_sample =
      Inr (drv_sample_task, sample_goal\<lparr>g_approval_policy := ''autonomous_development_work''\<rparr>)"
    using valid assms(3) by blast
  have cid: "assemble_planning_context plan_sample_env sup_request s = Inr (40, [])"
    by (simp add: assemble_planning_context_def env sup_request_fields)
  obtain r s1 where acc: "accept_plan plan_sample_env sup_request op_sample_ctx c steps
      (sample_goal\<lparr>g_approval_policy := ''autonomous_development_work''\<rparr>) drv_sample_task s = Inr (r, s1) \<and>
      pr_class r = ''ACCEPTED'' \<and> pr_plan r = Some ?p"
    using accept_plan_fresh [where env = plan_sample_env and ctx = op_sample_ctx and s = s, unfolded env assms(6), OF v cid prior bind none]
    by blast
  have root: "same_repository plan_sample_env sup_request op_sample_ctx = Inr ()"
    by (simp add: same_repository_def sup_request_fields env resolved_def from_option_def op_sample_machine_def drv_plan_facts ensure_def
        goal_worktree_path_def)
  have "\<exists>us. each (validate_step op_sample_machine op_sample_ctx) steps = Inr us"
    unfolding each_unit using assms(3) by (intro ballI) simp
  then obtain us where "each (validate_step op_sample_machine op_sample_ctx) steps = Inr us" ..
  then have "validate_candidate plan_sample_env sup_request op_sample_ctx c s = Inr (r, s1)"
    using acc assms(1,2) root
    by (simp add: validate_candidate_def sup_context_sample [OF assms(6)] sup_assessed [OF assms(6)] env app drv_plan_facts
        sup_request_fields)
  then show ?thesis
    using acc sample_words by (simp add: plan_founder_request_def sup_assessed [OF assms(6)] sup_request_fields)
qed

definition sup_problem :: gap_problem where
  "sup_problem = \<lparr>gp_source = Some 1,
     gp_envelope = JObj [(''reverify'', JObj [(''capability'', JStr ''run_static_check'')])]\<rparr>"

definition static_step :: candidate_step where
  "static_step =
     (recipe_step ''verify'' ''run structured static check'' ''static pass'' ''run_static_check'' [] [] ''LOCAL_EXECUTION'' True)"

definition static_plan :: plan_candidate where
  "static_plan = reverify_plan ''original static verification passes''
     ''run the structured static-check contract from the gap envelope only'' static_step"

lemma static_plan_is: "reverify_candidate_for_source py (Some sup_problem) = Inr static_plan"
  by (simp add: reverify_candidate_for_source_def reverify_contract_def sup_problem_def static_plan_def static_step_def jget_def json_dict_def)

lemma ordered_pair:
  assumes "pc_steps c = [x, y]" and "ct_depends x = []" and "ct_depends y = [JStr (ct_id x)]" and "ct_id x \<noteq> ct_id y"
    and "strip_chars is_space (ct_id x) \<noteq> []" and "strip_chars is_space (ct_id y) \<noteq> []"
  shows "ordered_steps c = Inr (pc_steps c)"
proof -
  have "ready_steps [x, y] [] = [x]" "ready_steps [x, y] [ct_id x] = [y]"
    using assms by (simp_all add: ready_steps_def)
  then have "order_from [x, y] [] [] = Inr [x, y]"
    by (subst order_from.simps, simp, subst order_from.simps, simp, subst order_from.simps, simp)
  with assms show ?thesis by (simp add: ordered_steps_def Let_def known_dependency_def)
qed

lemma static_ordered: "ordered_steps static_plan = Inr (pc_steps static_plan)"
    by (rule ordered_pair [where x = static_step and y = reverify_gate]) (simp_all add: static_plan_def static_step_def reverify_plan_def reverify_gate_def recipe_def recipe_step_def
      strip_chars_def is_space_def)

lemma static_valid:
  assumes "st \<in> set (pc_steps static_plan)"
  shows "validate_step op_sample_machine op_sample_ctx st = Inr () \<and> check_step (driver_step_of st) = Inr ()"
proof -
  have "st = static_step \<or> st = reverify_gate" using assms by (simp add: static_plan_def reverify_plan_def recipe_def)
  moreover have "validate_step op_sample_machine op_sample_ctx static_step = Inr ()"
    by (simp add: validate_step_def static_step_def recipe_step_def driver_directives_def forbidden_capabilities_def
        development_capabilities_def raw_argument_keys_def risk_of_value_def ensure_def sample_no_secret)
  moreover have "check_step (driver_step_of static_step) = Inr ()"
    by (simp add: check_step_def static_step_def driver_step_of_def recipe_step_def driver_directives_def forbidden_capabilities_def
        development_capabilities_def raw_argument_keys_def risk_of_value_def ensure_def strip_chars_def is_space_def)
  moreover have "validate_step op_sample_machine op_sample_ctx reverify_gate = Inr ()"
    by (simp add: validate_step_def reverify_gate_def recipe_step_def driver_directives_def forbidden_capabilities_def
        development_capabilities_def raw_argument_keys_def risk_of_value_def ensure_def sample_no_secret)
  moreover have "check_step (driver_step_of reverify_gate) = Inr ()"
    by (simp add: check_step_def reverify_gate_def driver_step_of_def recipe_step_def driver_directives_def forbidden_capabilities_def
        development_capabilities_def raw_argument_keys_def risk_of_value_def ensure_def strip_chars_def is_space_def)
  ultimately show ?thesis by blast
qed

lemma static_words:
  "\<not> says forbidden_words ''re-verify original work after autonomous repair''"
  "\<not> says forbidden_words ''run the structured static-check contract from the gap envelope only''"
  by code_simp+

lemma static_bounds: "candidate_bounds sup_request static_plan = Inr ()"
  using static_words
  by (simp add: candidate_bounds_def sup_request_fields static_plan_def reverify_plan_def recipe_def sample_words ensure_def)

lemma static_accepted:
  "\<exists>r s1. plan_founder_request plan_sample_env sup_request op_sample_ctx (Some static_plan) (px_plan prov_sample) = Inr (r, s1) \<and>
     pr_class r = ''ACCEPTED'' \<and> pr_plan r = Some (plan_of plan_sample_env op_sample_ctx static_plan (pc_steps static_plan))"
proof (rule sup_accepts [OF static_ordered static_bounds static_valid])
  show "list_ex (\<lambda>st. ct_risk st \<noteq> ''READ_ONLY'') (pc_steps static_plan)" "length (pc_steps static_plan) \<le> 50"
    by (simp_all add: static_plan_def static_step_def reverify_plan_def recipe_def recipe_step_def)
  show "pt_op (px_plan prov_sample) = op_sample" "\<forall>e\<in>set (pt_evidence (px_plan prov_sample)). ie_key e \<noteq> ''safe-planner:h''"
    by (simp_all add: prov_sample_def plan_sample_def)
qed

theorem static_reverify_never_runs_witness:
  "\<exists>(r :: planning_result) s1 why s2. pr_class r = ''ACCEPTED'' \<and> 
     execute_plan sup_sample_env 0 sup_scope (\<lparr>run_bindings = [], run_deferred = [], run_selected = [], run_jobs = 0, run_last = [],
         run_gaps = (0, 0, 0)\<rparr>) (sample_goal\<lparr>g_approval_policy := ''autonomous_development_work''\<rparr>) (sup_binding static_plan)
       drv_sample_task dead_sample_job op_sample_ctx (the (pr_plan r)) s1 =
     (ends ''OUT_OF_SCOPE'' (\<lparr>run_bindings = [], run_deferred = [], run_selected = [], run_jobs = 0, run_last = [],
         run_gaps = (0, 0, 0)\<rparr>) (JStr why) None, s2)"
proof -
  obtain r st where plan: "plan_founder_request plan_sample_env sup_request op_sample_ctx (Some static_plan) (px_plan prov_sample) = Inr (r, st)"
    and acc: "pr_class r = ''ACCEPTED''" "pr_plan r = Some (plan_of plan_sample_env op_sample_ctx static_plan (pc_steps static_plan))"
    using static_accepted by blast
  have "plan_task sup_sample_env 0 sup_scope sup_request op_sample_ctx (sup_binding static_plan) drv_sample_task sup_sample =
      (Inr (Some r), set_ss_plan st sup_sample)"
    using plan by (simp add: plan_task_def planned_here_def sup_binding_def sup_sample_env_def sup_sample_def)
  moreover have "reverify_contract (Some sup_problem) = Some [(''capability'', JStr ''run_static_check'')]"
    by (simp add: reverify_contract_def sup_problem_def jget_def json_dict_def)
  moreover have "wb_candidate (sup_binding static_plan) = Some static_plan" by (simp add: sup_binding_def)
  moreover have "jget [(''capability'', JStr ''run_static_check'')] ''capability'' = JStr ''run_static_check''" by (simp add: jget_def)
  ultimately show ?thesis
    using static_reverify_never_runs [OF _ _ static_plan_is _ _ acc] acc by (metis option.sel)
qed

abbreviation sup_start :: "work_binding list \<Rightarrow> uuid list \<Rightarrow> sup_run" where
  "sup_start bs before \<equiv> \<lparr>run_bindings = bs, run_deferred = [], run_selected = before, run_jobs = 0, run_last = [], run_gaps = (0, 0, 0)\<rparr>"

lemma sup_sample_scoped: "scoped_tasks sup_scope (ss_db sup_sample) = [drv_sample_task]"
  by (simp add: scoped_tasks_def sup_scope_def sup_sample_def prov_sample_def plan_sample_def op_sample_def op_sample_leases_def op_db_def
      dead_sample_db_def drv_sample_task_def sample_task_def)

lemma sup_sample_found:
  "discover_candidates sup_scope [sup_binding c] sup_bounds (ss_db sup_sample) =
     Inr [assess_task sup_scope [sup_binding c] drv_sample_task]"
  by (simp add: discover_candidates_def sup_sample_scoped sup_bounds_def)

lemma sup_sample_open: "objection sup_scope drv_sample_task (binding_of [sup_binding c] (t_id drv_sample_task)) = None"
  by (simp add: objection_def binding_of_def sup_binding_def sup_scope_def drv_sample_task_def sample_task_def ended_statuses_def
      risk_order_def)

lemma sup_sample_selected:
  "select_candidate (apply_deferred [] [assess_task sup_scope [sup_binding c] drv_sample_task]) =
     (Some (assess_task sup_scope [sup_binding c] drv_sample_task), ''SELECTED'', ''highest-priority actionable canonical task'')"
  using sup_sample_open [of c]
  by (simp add: apply_deferred_def select_candidate_def assess_task_def Let_def drv_sample_task_def sample_task_def)

theorem selected_is_authorized_witness:
  "\<exists>t. t_id t = 1 \<and> t_owner t = 7 \<and> t_status t \<in> {TReady, TRunning} \<and>
     find_row (\<lambda>u. t_id u = 1) (tasks (ss_db sup_sample)) = Some t"
proof -
  have "distinct (map t_id (tasks (ss_db sup_sample)))" and "as_task (assess_task sup_scope [sup_binding check_candidate] drv_sample_task) = 1"
    and "sc_owner sup_scope = 7"
    by (simp_all add: sup_sample_def prov_sample_def plan_sample_def op_sample_def op_sample_leases_def op_db_def dead_sample_db_def
        assess_task_def Let_def drv_sample_task_def sample_task_def sup_scope_def)
  with selected_is_authorized [OF sup_sample_found sup_sample_selected, of check_candidate]
  obtain t where t: "find_row (\<lambda>u. t_id u = 1) (tasks (ss_db sup_sample)) = Some t" "t_owner t = 7" "t_status t \<in> {TReady, TRunning}"
    by auto
  then have "t_id t = 1" by (auto dest: find_row_SomeD)
  with t show ?thesis by blast
qed

abbreviation sup_goal_row :: mainai_goal where
  "sup_goal_row \<equiv> sample_goal\<lparr>g_approval_policy := ''autonomous_development_work''\<rparr>"

lemmas sup_sample_defs = sup_sample_def prov_sample_def plan_sample_def op_sample_def op_sample_leases_def op_db_def dead_sample_db_def

lemma sup_sample_valid: "validate_scope sup_sample_env (\<lambda>w. w) sup_scope sup_sample = Inr (sup_goal_row, None)"
proof -
  have "strip_chars is_space (path_str (goal_worktree_path 20)) \<noteq> []"
    unfolding sample_lines by (simp add: path_str_def goal_worktree_path_def)
  moreover have "strip_chars is_space ''goal'' \<noteq> []" by (simp add: strip_chars_def is_space_def)
  moreover have "supervised_goal sup_scope (ss_db sup_sample) = Inr sup_goal_row"
    by (simp add: supervised_goal_def sup_scope_def sup_sample_defs sample_goal_def from_option_def)
  ultimately show ?thesis
    by (simp add: validate_scope_def sup_scope_def authorized_kinds_def risk_order_def development_capabilities_def sample_goal_def)
qed

lemma sup_sample_fresh: "completed_before sup_scope (ss_db sup_sample) = Inr []"
  by (simp add: completed_before_def latest_state_def sup_sample_defs empty_db_def get_default_def json_iter_def)

lemma sup_sample_augment: "augment_bindings sup_sample_env py sup_scope [sup_binding c] sup_sample = Inr [sup_binding c]"
  by (simp add: augment_bindings_def Let_def sup_sample_defs sample_task_def sup_scope_def derived_binding_def reverify_binding_def
      sup_sample_env_def no_gaps_def completed_repair_for_def binding_of_def sup_binding_def map_filter_def)

lemma sup_sample_job: "job_for sup_sample_env n sup_scope g drv_sample_task sup_sample = Inr (dead_sample_job, sup_sample)"
  by (simp add: job_for_def drv_sample_task_def sample_task_def sup_sample_defs dead_sample_job_def dispatch_job_def new_job_def
      sup_scope_def)

lemma op_sample_bound: "bind_execution_context sup_scope (sup_binding c) op_sample_ctx = Inr op_sample_ctx"
  by (simp add: bind_execution_context_def sup_binding_def sup_scope_def op_sample_ctx_def intersect_path_envelopes_def Let_def)

lemma sup_sample_context:
  "bound_context sup_sample_env n sup_scope (sup_binding c) drv_sample_task dead_sample_job sup_sample = (Inr op_sample_ctx, sup_sample)"
  using op_sample_bound [of c]
  by (simp add: bound_context_def sup_binding_def drv_plan_facts sup_sample_env_def plan_sample_env_def op_sample_machine_def resolved_def
      from_option_def sup_scope_def drv_sample_task_def sample_task_def dead_sample_job_def dispatch_job_def new_job_def goal_worktree_path_def)

lemma sup_sample_recorded:
  "\<exists>s1. record_selection sup_sample_env n sup_scope run b drv_sample_task op_sample_ctx sup_sample = Inr s1 \<and>
     pt_op (px_plan (ss_prov s1)) = op_sample \<and> pt_evidence (px_plan (ss_prov s1)) = [selection_evidence sup_sample_env n sup_scope run b drv_sample_task 31] \<and>
     ss_drives s1 = []"
  by (simp add: record_selection_def drv_plan_facts sup_scope_def sup_sample_def prov_sample_def plan_sample_def op_sample_def
      record_evidence_def set_ss_plan_def)

lemma check_plan_cites:
  "cited_paths (plan_of env ctx check_candidate (pc_steps check_candidate)) = [''src'']"
  "cited_capabilities (plan_of env ctx check_candidate (pc_steps check_candidate)) = [''run_static_check'']"
  by (simp_all add: plan_of_def check_candidate_def recipe_def recipe_step_def driver_step_of_def cited_paths_def cited_capabilities_def
      paths_from_arguments_def argument_paths_def item_paths_def stripped_def path_keys_def first_occurrences_def strip_chars_def
      is_space_def driver_directives_def)

lemma sup_sample_boundary:
  "execution_boundary sup_scope (sup_binding c) op_sample_ctx (plan_of env ctx check_candidate (pc_steps check_candidate)) =
     Inr (Inr (op_sample_ctx\<lparr>oc_paths := [''src''], oc_caps := [''run_static_check'']\<rparr>))"
proof -
  have "list_ex operator_step (pn_steps (plan_of env ctx check_candidate (pc_steps check_candidate)))"
    by (simp add: plan_of_def check_candidate_def recipe_def recipe_step_def driver_step_of_def operator_step_def driver_directives_def)
  then show ?thesis
    by (simp add: execution_boundary_def narrow_task_scope_def check_plan_cites sup_scope_def bind_execution_context_def sup_binding_def
        op_sample_ctx_def intersect_path_envelopes_def Let_def)
qed

lemma accepted_keeps_jobs:
  assumes "plan_founder_request env rq ctx (Some c) s = Inr (r, s1)" and "pr_class r = ''ACCEPTED''"
  shows "jobs (pt_db s1) = jobs (pt_db s)"
proof -
  have "validate_candidate env rq ctx c s = Inr (r, s1)"
    using plan_founder_request_accepts [OF assms] by (simp add: chosen_candidate_def)
  from validate_candidate_accepts [OF this assms(2)] obtain steps g t where "accept_plan env rq ctx c steps g t s = Inr (r, s1)"
    by blast
  then show ?thesis
    by (auto simp: accept_plan_def Let_def sbind_Inr_iff record_evidence_def planner_checkpoint_def record_checkpoint_def set_pt_db_def
        set_op_db_def op_db_def split: sum.splits if_splits option.splits)
qed

lemma sup_sample_planned:
  assumes "pt_op (px_plan (ss_prov s)) = op_sample" and "\<forall>e\<in>set (pt_evidence (px_plan (ss_prov s))). ie_key e \<noteq> ''safe-planner:h''"
  shows "\<exists>r s1. plan_task sup_sample_env n sc sup_request op_sample_ctx (sup_binding check_candidate) t s = (Inr (Some r), s1) \<and>
    pr_class r = ''ACCEPTED'' \<and> pr_plan r = Some (plan_of plan_sample_env op_sample_ctx check_candidate (pc_steps check_candidate)) \<and>
    ss_drives s1 = ss_drives s \<and> (\<forall>x\<in>set (jobs (ss_db s1)). \<not> j_cancel_requested x)"
proof -
  have "list_ex (\<lambda>st. ct_risk st \<noteq> ''READ_ONLY'') (pc_steps check_candidate)" "length (pc_steps check_candidate) \<le> 50"
    by (simp_all add: check_candidate_def recipe_def recipe_step_def)
  from sup_accepts [OF check_ordered check_bounds check_valid this assms] obtain r p
    where plan: "plan_founder_request plan_sample_env sup_request op_sample_ctx (Some check_candidate) (px_plan (ss_prov s)) = Inr (r, p)"
      and acc: "pr_class r = ''ACCEPTED''" "pr_plan r = Some (plan_of plan_sample_env op_sample_ctx check_candidate (pc_steps check_candidate))"
    by blast
  have "jobs (pt_db p) = jobs (pt_db (px_plan (ss_prov s)))"
    by (rule accepted_keeps_jobs [OF plan acc(1)])
  then have "\<forall>x\<in>set (jobs (pt_db p)). \<not> j_cancel_requested x"
    by (simp add: assms(1) op_sample_def op_sample_leases_def op_db_def dead_sample_db_def dead_sample_job_def dispatch_job_def new_job_def)
  with plan acc show ?thesis
    by (simp add: plan_task_def planned_here_def sup_binding_def sup_sample_env_def set_ss_plan_def)
qed

text \<open>One invocation on the sample: the task is selected and planned, and the driver is called once.\<close>

lemma sup_sample_executes:
  assumes "ss_drives s = []" and "\<forall>x\<in>set (jobs (ss_db s)). \<not> j_cancel_requested x"
  shows "\<exists>t s1. execute_plan sup_sample_env 0 sup_scope run g (sup_binding check_candidate) drv_sample_task dead_sample_job op_sample_ctx
      (plan_of env ctx check_candidate (pc_steps check_candidate)) s = (t, s1) \<and>
    ss_drives s1 = [(op_sample_ctx\<lparr>oc_paths := [''src''], oc_caps := [''run_static_check'']\<rparr>,
      plan_of env ctx check_candidate (pc_steps check_candidate))] \<and>
    (\<forall>run1. t = SupGoes run1 \<longrightarrow> run_jobs run1 = run_jobs run + 1)"
proof -
  have env: "sv_founder sup_sample_env 0 s = s" "sv_gap sup_sample_env = no_gaps" by (simp_all add: sup_sample_env_def)
  have nc: "\<not> list_ex (\<lambda>x. j_id x = j_id dead_sample_job \<and> j_cancel_requested x) (jobs (ss_db s))"
    using assms(2) by (auto simp: list_ex_iff)
  have dep: "wb_independent (sup_binding check_candidate) = False" by (simp add: sup_binding_def)
  show ?thesis
    by (simp add: execute_plan_def sup_sample_boundary env nc Let_def drive_plan_def)
      (auto simp: verified_def after_repair_def incomplete_def invoke_gap_def dep env no_gaps_def assms(1) ends_def Let_def
        split: prod.splits sum.splits)
qed

lemma sup_sample_runs:
  "\<exists>r s1 x. run_supervisor sup_sample_env sup_scope [sup_binding check_candidate] sup_bounds 2 sup_sample = Some (r, s1) \<and>
     ss_drives s1 = [x]"
proof -
  let ?b = "sup_binding check_candidate"
  let ?run = "(sup_start [?b] [])\<lparr>run_last := [assess_task sup_scope [?b] drv_sample_task]\<rparr>"
  obtain s1 where rec: "record_selection sup_sample_env 0 sup_scope ?run ?b drv_sample_task op_sample_ctx sup_sample = Inr s1"
    and s1: "pt_op (px_plan (ss_prov s1)) = op_sample" "ss_drives s1 = []"
      "pt_evidence (px_plan (ss_prov s1)) = [selection_evidence sup_sample_env 0 sup_scope ?run ?b drv_sample_task 31]"
    using sup_sample_recorded by blast
  have "\<forall>e\<in>set (pt_evidence (px_plan (ss_prov s1))). ie_key e \<noteq> ''safe-planner:h''"
    by (simp add: s1(3) selection_evidence_def)
  from sup_sample_planned [OF s1(1) this] obtain r s2 where
    plan: "plan_task sup_sample_env 0 sup_scope sup_request op_sample_ctx ?b drv_sample_task s1 = (Inr (Some r), s2)"
      "pr_class r = ''ACCEPTED''" "pr_plan r = Some (plan_of plan_sample_env op_sample_ctx check_candidate (pc_steps check_candidate))"
    and s2: "ss_drives s2 = []" "\<forall>x\<in>set (jobs (ss_db s2)). \<not> j_cancel_requested x"
    using s1(2) by metis
  from sup_sample_executes [OF s2] obtain t s3 x where
    exec: "execute_plan sup_sample_env 0 sup_scope ?run sup_goal_row ?b drv_sample_task dead_sample_job op_sample_ctx
      (plan_of plan_sample_env op_sample_ctx check_candidate (pc_steps check_candidate)) s2 = (t, s3)"
    and s3: "ss_drives s3 = [x]" "\<And>run1. t = SupGoes run1 \<Longrightarrow> run_jobs run1 = 1" by fastforce
  have work: "work_on sup_sample_env 0 sup_scope sup_bounds ?run sup_goal_row drv_sample_task ?b sup_sample = (t, s3)"
    by (simp only: work_on_def sup_sample_job sup_sample_context rec sup_request_fields(1) plan exec sum.case prod.case option.case simp_thms if_True)
  have row: "find_row (\<lambda>t. t_id t = 1 \<and> t_owner t = sc_owner sup_scope \<and> t_goal t = sc_goal sup_scope) (tasks (ss_db sup_sample)) =
      Some drv_sample_task"
    by (simp add: sup_sample_defs sup_scope_def drv_sample_task_def sample_task_def)
  have mine: "as_task (assess_task sup_scope [?b] drv_sample_task) = 1" "binding_of [?b] 1 = Some ?b"
    by (simp_all add: assess_task_def Let_def drv_sample_task_def sample_task_def binding_of_def sup_binding_def)
  have sha: "mc_sha (pp_machine (sv_provider sup_sample_env 0)) = (\<lambda>w. w)"
    by (simp add: sup_sample_env_def plan_sample_env_def op_sample_machine_def)
  have turn: "supervise_turn sup_sample_env 0 sup_scope sup_bounds (sup_start [?b] []) sup_sample = (t, s3)"
    using work
    by (simp add: supervise_turn_def sha sup_sample_valid sup_sample_augment sup_sample_found Let_def row mine apply_deferred_def)
      (use sup_sample_selected in \<open>simp add: apply_deferred_def row mine\<close>)
  have bounds: "bd_max_jobs sup_bounds = 1" "bd_max_elapsed sup_bounds = 900" "sv_elapsed sup_sample_env n = 0" for n
    by (simp_all add: sup_bounds_def sup_sample_env_def)
  have "\<exists>r. supervise sup_sample_env sup_scope sup_bounds 2 0 (sup_start [?b] []) sup_sample = Some (r, s3)"
    using turn s3(2) by (cases t) (simp_all add: numeral_2_eq_2 bounds)
  then obtain out where "supervise sup_sample_env sup_scope sup_bounds 2 0 (sup_start [?b] []) sup_sample = Some (out, s3)" ..
  then have "run_supervisor sup_sample_env sup_scope [?b] sup_bounds 2 sup_sample = Some (out, s3)"
    by (simp add: run_supervisor_def bounds Let_def sha sup_sample_valid sup_sample_fresh sup_sample_augment del: supervise.simps)
  with s3(1) show ?thesis by blast
qed


lemma sup_sample_idle:
  "\<exists>r s1. supervise_turn sup_sample_env 0 sup_scope sup_bounds (sup_start [] before) sup_sample = (SupEnds r, s1)"
proof -
  have sha: "mc_sha (pp_machine (sv_provider sup_sample_env 0)) = (\<lambda>w. w)"
    by (simp add: sup_sample_env_def plan_sample_env_def op_sample_machine_def)
  have "\<not> as_actionable (assess_task sup_scope [] drv_sample_task)"
    by (simp add: assess_task_def objection_def binding_of_def Let_def drv_sample_task_def sample_task_def ended_statuses_def)
  then have "fst (select_candidate [assess_task sup_scope [] drv_sample_task]) = None"
    by (simp add: select_candidate_def)
  then obtain cls why where "select_candidate [assess_task sup_scope [] drv_sample_task] = (None, cls, why)"
    by (metis prod.collapse)
  then show ?thesis
    by (simp add: supervise_turn_def sha sup_sample_valid augment_bindings_def discover_candidates_def sup_sample_scoped sup_bounds_def
        apply_deferred_def settle_idle_def ends_def Let_def)
qed

theorem supervisor_ends_witness:
  "\<exists>y. run_supervisor sup_sample_env sup_scope [] sup_bounds 4 sup_sample = Some y"
proof -
  have only: "n = 0 \<and> run = sup_start [] before \<and> t = sup_sample"
    if "supervised sup_sample_env sup_scope sup_bounds (sup_start [] before) sup_sample n run t" for before n run t
    using that
  proof induction
    case (turn n run s run1 s1)
    then show ?case using sup_sample_idle [of before] by simp
  qed simp
  have "\<exists>y. run_supervisor sup_sample_env sup_scope [] sup_bounds ((nat (bd_max_jobs sup_bounds) + 1) * (card {1 :: uuid} + 1)) sup_sample
      = Some y"
  proof (rule supervisor_ends)
    fix before bs1 n run t
    assume "augment_bindings sup_sample_env (pp_py (sv_provider sup_sample_env 0)) sup_scope [] sup_sample = Inr bs1"
      and run: "supervised sup_sample_env sup_scope sup_bounds (sup_start bs1 before) sup_sample n run t"
    then have "bs1 = []" by (simp add: augment_bindings_def)
    with run only have "t = sup_sample" by blast
    then show "t_id ` set (scoped_tasks sup_scope (ss_db t)) \<subseteq> {1}"
      by (simp add: sup_sample_scoped drv_sample_task_def sample_task_def)
  qed (simp_all add: sup_quiet)
  moreover have "(nat (bd_max_jobs sup_bounds) + 1) * (card {1 :: uuid} + 1) = 4" by (simp add: sup_bounds_def)
  ultimately show ?thesis by simp
qed

theorem changed_candidates_stop_a_task_witness:
  "\<exists>s1. record_selection sup_sample_env 0 sup_scope ((sup_start [] [])\<lparr>run_last := []\<rparr>) (sup_binding check_candidate) drv_sample_task
      op_sample_ctx sup_sample = Inr s1 \<and>
    record_selection sup_sample_env 1 sup_scope ((sup_start [] [])\<lparr>run_last := [assess_task sup_scope [] drv_sample_task]\<rparr>)
      (sup_binding check_candidate) drv_sample_task op_sample_ctx s1 = Inl (SvPlanner PlanConflict)"
proof -
  obtain s1 where rec: "record_selection sup_sample_env 0 sup_scope ((sup_start [] [])\<lparr>run_last := []\<rparr>) (sup_binding check_candidate)
      drv_sample_task op_sample_ctx sup_sample = Inr s1" and op: "pt_op (px_plan (ss_prov s1)) = op_sample"
    using sup_sample_recorded by blast
  have "os_bindings (pt_op (px_plan (ss_prov s1))) = os_bindings (pt_op (px_plan (ss_prov sup_sample)))"
    by (simp add: op) (simp add: sup_sample_def prov_sample_def plan_sample_def)
  with rec changed_candidates_stop_a_task [OF rec, where later = "[]"] show ?thesis by simp
qed

end
