(* ===== verification/PlanInsertion.thy ===== *)
theory PlanInsertion
  imports Planner SafePlanner
begin

text \<open>
  \<open>app/mainai_execution/plan_insertion.py\<close>: adding tasks to the active plan of a goal. The goal and the plan are read
  again under the advisory lock of the plan, so the operation is one step on the state found there. \<open>sha\<close> and \<open>dumps\<close>
  are SHA-256 of a text and the canonical JSON text of a value. A refusal carries a short tag instead of the message.
\<close>

section \<open>A request\<close>

datatype spec_dependency = OnNew int | OnExisting uuid

record inserted_spec =
  in_description :: string
  in_type :: string
  in_depends :: "spec_dependency list"
  in_risk :: risk_level
  in_approval_required :: bool
  in_verification_plan :: "json list"
  in_priority :: int
  in_max_attempts :: int

record prerequisite =
  pe_task :: uuid
  pe_on :: int

record insertion =
  ir_kind :: string
  ir_instruction_sha :: string
  ir_key :: string
  ir_tasks :: "inserted_spec list"
  ir_prerequisites :: "prerequisite list"
  ir_source_type :: string
  ir_source_ref :: string
  ir_reason :: string
  ir_requested_by :: string

datatype insertion_error =
    InsertionAuthority string
  | InsertionInvalid string
  | InsertionConflict string
  | InsertionRaised string
  | InsertionRow error

definition max_new_tasks :: nat where "max_new_tasks = 20"

definition max_prerequisites :: nat where "max_prerequisites = 20"

definition dependency_json :: "spec_dependency \<Rightarrow> json" where
  "dependency_json dp = (case dp of OnNew i \<Rightarrow> JInt i | OnExisting u \<Rightarrow> JStr (uuid_str u))"

definition inserted_json :: "inserted_spec \<Rightarrow> json" where
  "inserted_json sp =
     JObj [(''description'', JStr (in_description sp)), (''task_type'', JStr (in_type sp)),
           (''depends_on'', JArr (map dependency_json (in_depends sp))), (''risk_level'', JStr (risk_value (in_risk sp))),
           (''approval_required'', JBool (in_approval_required sp)), (''verification_plan'', JArr (in_verification_plan sp)),
           (''priority'', JInt (in_priority sp)), (''max_attempts'', JInt (in_max_attempts sp))]"

definition semantic_hash :: "(string \<Rightarrow> string) \<Rightarrow> (json \<Rightarrow> string) \<Rightarrow> insertion \<Rightarrow> string" where
  "semantic_hash sha dumps r =
     sha (dumps (JObj
       [(''authority_kind'', JStr (ir_kind r)), (''source_type'', JStr (ir_source_type r)), (''source_ref'', JStr (ir_source_ref r)),
        (''tasks'', JArr (map inserted_json (ir_tasks r))),
        (''existing_task_dependencies'',
           JArr (map (\<lambda>e. JObj [(''existing_task_id'', JStr (uuid_str (pe_task e))), (''depends_on_new_task_index'', JInt (pe_on e))])
             (ir_prerequisites r)))]))"

text \<open>What is refused before the lock is taken.\<close>

definition admissible :: "insertion \<Rightarrow> insertion_error + unit" where
  "admissible r =
     (if ir_tasks r = [] then Inl (InsertionInvalid ''empty'')
      else if max_new_tasks < length (ir_tasks r) then Inl (InsertionInvalid ''too many tasks'')
      else if max_prerequisites < length (ir_prerequisites r) then Inl (InsertionInvalid ''too many edges'')
      else if strip_chars is_space (ir_key r) = [] then Inl (InsertionInvalid ''idempotency_key'')
      else if strip_chars is_space (ir_reason r) = [] then Inl (InsertionInvalid ''reason'')
      else if ir_source_type r = [] \<or> ir_source_ref r = [] then Inl (InsertionInvalid ''provenance'')
      else ensure (ir_kind r \<notin> non_authoritative_kinds \<and> ir_kind r \<in> authorized_kinds) (InsertionAuthority ''authority_kind''))"

section \<open>A replay\<close>

definition insertion_event :: "uuid \<Rightarrow> string \<Rightarrow> db \<Rightarrow> task_event \<Rightarrow> bool" where
  "insertion_event pid key d e \<longleftrightarrow>
     te_type e = TeCreated \<and> map_of (te_detail e) ''insertion_idempotency_key'' = Some (JStr key) \<and>
     list_ex (\<lambda>t. t_id t = te_task e \<and> t_plan t = pid) (tasks d)"

definition find_replay :: "uuid \<Rightarrow> string \<Rightarrow> db \<Rightarrow> task_event list" where
  "find_replay pid key d = filter (insertion_event pid key d) (task_events d)"

definition event_position :: "task_event \<Rightarrow> insertion_error + int" where
  "event_position e =
     (case get_default (te_detail e) ''insertion_task_index'' (JInt 0) of JInt i \<Rightarrow> Inr i | _ \<Rightarrow> Inl (InsertionRaised ''TypeError''))"

definition event_task :: "task_event \<Rightarrow> insertion_error + uuid" where
  "event_task e =
     (case map_of (te_detail e) ''insertion_task_id'' of
        None \<Rightarrow> Inl (InsertionRaised ''KeyError'')
      | Some v \<Rightarrow> from_option (InsertionRaised ''ValueError'') (json_uuid v))"

definition replayed :: "string \<Rightarrow> task_event list \<Rightarrow> db \<Rightarrow> insertion_error + mainai_task list" where
  "replayed hash events d =
     (if jget (te_detail (hd events)) ''insertion_semantic_hash'' \<noteq> JStr hash
      then Inl (InsertionConflict ''different content'')
      else sbind (each (\<lambda>e. sbind (event_task e) (\<lambda>i. sbind (event_position e) (\<lambda>k. Inr (k, i)))) events) (\<lambda>found.
           each (\<lambda>(_, i). from_option (InsertionConflict ''unresolved'') (find_row (\<lambda>t. t_id t = i) (tasks d)))
             (sort_key fst found)))"

section \<open>Validation\<close>

definition never_completes :: "task_status set" where "never_completes = {TFailed, TCancelled}"

definition takes_prerequisites :: "task_status set" where "takes_prerequisites = {TPending, TBlocked}"

definition check_dependency :: "mainai_task list \<Rightarrow> nat \<Rightarrow> nat \<Rightarrow> spec_dependency \<Rightarrow> insertion_error + unit" where
  "check_dependency existing n i dp =
     (case dp of
        OnNew k \<Rightarrow>
          if \<not> (0 \<le> k \<and> k < int n) then Inl (InsertionInvalid ''depends_on index'')
          else ensure (k \<noteq> int i) (InsertionInvalid ''self dependency'')
      | OnExisting u \<Rightarrow>
          (case find_row (\<lambda>t. t_id t = u) existing of
             None \<Rightarrow> Inl (InsertionInvalid ''depends_on task'')
           | Some t \<Rightarrow> ensure (t_status t \<notin> never_completes) (InsertionInvalid ''never completes'')))"

definition check_inserted :: "mainai_task list \<Rightarrow> nat \<Rightarrow> nat \<times> inserted_spec \<Rightarrow> insertion_error + unit" where
  "check_inserted existing n = (\<lambda>(i, sp).
     if strip_chars is_space (in_description sp) = [] then Inl (InsertionInvalid ''description'')
     else if in_type sp \<notin> known_task_types then Inl (InsertionInvalid ''task_type'')
     else if \<not> (0 \<le> in_max_attempts sp \<and> in_max_attempts sp \<le> 20) then Inl (InsertionInvalid ''max_attempts'')
     else case check_plan_steps (in_verification_plan sp) of
            Inl _ \<Rightarrow> Inl (InsertionInvalid ''verification_plan'')
          | Inr _ \<Rightarrow> map_sum id (\<lambda>_. ()) (each (check_dependency existing n i) (in_depends sp)))"

definition check_prerequisite :: "mainai_task list \<Rightarrow> nat \<Rightarrow> prerequisite \<Rightarrow> insertion_error + mainai_task" where
  "check_prerequisite existing n e =
     (if \<not> (0 \<le> pe_on e \<and> pe_on e < int n) then Inl (InsertionInvalid ''edge index'')
      else case find_row (\<lambda>t. t_id t = pe_task e) existing of
             None \<Rightarrow> Inl (InsertionInvalid ''edge task'')
           | Some t \<Rightarrow> if t_status t \<in> takes_prerequisites then Inr t else Inl (InsertionInvalid ''edge status''))"

text \<open>The combined graph: the tasks of the plan in their order, then the new ones.\<close>

fun position :: "'a \<Rightarrow> 'a list \<Rightarrow> nat option" where
  "position x [] = None"
| "position x (y # ys) = (if x = y then Some 0 else map_option Suc (position x ys))"

definition node_of :: "uuid list \<Rightarrow> spec_dependency \<Rightarrow> nat" where
  "node_of ids dp = (case dp of OnNew k \<Rightarrow> length ids + nat k | OnExisting u \<Rightarrow> the (position u ids))"

definition existing_edges :: "uuid list \<Rightarrow> db \<Rightarrow> (nat \<times> nat) list" where
  "existing_edges ids d =
     List.map_filter (\<lambda>p. case (position (dep_task p) ids, position (dep_on p) ids) of
       (Some a, Some b) \<Rightarrow> Some (a, b) | _ \<Rightarrow> None) (task_deps d)"

definition insertion_edges :: "uuid list \<Rightarrow> insertion \<Rightarrow> (nat \<times> nat) list" where
  "insertion_edges ids r =
     concat (map (\<lambda>(i, sp). map (\<lambda>dp. (length ids + i, node_of ids dp)) (in_depends sp)) (enumerate 0 (ir_tasks r))) @
     map (\<lambda>e. (the (position (pe_task e) ids), length ids + nat (pe_on e))) (ir_prerequisites r)"

definition validate_insertion :: "uuid \<Rightarrow> insertion \<Rightarrow> db \<Rightarrow> insertion_error + unit" where
  "validate_insertion pid r d =
     (let existing = filter (\<lambda>t. t_plan t = pid) (tasks d); ids = map t_id existing; n = length (ir_tasks r)
      in sbind (each (check_inserted existing n) (enumerate 0 (ir_tasks r))) (\<lambda>_.
         sbind (each (check_prerequisite existing n) (ir_prerequisites r)) (\<lambda>_.
         case detect_cycle (length ids + n) (existing_edges ids d @ insertion_edges ids r) of
           Inr None \<Rightarrow> Inr ()
         | _ \<Rightarrow> Inl (InsertionInvalid ''cycle''))))"

section \<open>The writes\<close>

text \<open>The row of a new task has the fields of a planned one.\<close>

definition as_planned :: "inserted_spec \<Rightarrow> planned_task" where
  "as_planned sp =
     \<lparr>ps_description = in_description sp, ps_type = in_type sp, ps_depends_on = [], ps_risk = in_risk sp,
      ps_approval_required = in_approval_required sp, ps_verification_plan = in_verification_plan sp,
      ps_priority = in_priority sp, ps_max_attempts = in_max_attempts sp\<rparr>"

definition inserted_dependencies :: "(nat \<Rightarrow> uuid) \<Rightarrow> uuid \<Rightarrow> insertion \<Rightarrow> task_dependency list" where
  "inserted_dependencies fresh owner r =
     concat (map (\<lambda>(i, sp). map (\<lambda>dp. \<lparr>dep_task = fresh i,
         dep_on = (case dp of OnNew k \<Rightarrow> fresh (nat k) | OnExisting u \<Rightarrow> u), dep_owner = owner\<rparr>) (in_depends sp))
       (enumerate 0 (ir_tasks r))) @
     map (\<lambda>e. \<lparr>dep_task = pe_task e, dep_on = fresh (nat (pe_on e)), dep_owner = owner\<rparr>) (ir_prerequisites r)"

definition inserted_event ::
  "time \<Rightarrow> lesson list \<Rightarrow> int \<Rightarrow> string \<Rightarrow> insertion \<Rightarrow> nat \<times> mainai_task \<times> inserted_spec \<Rightarrow> task_event" where
  "inserted_event now lessons v hash r = (\<lambda>(i, t, sp).
     let ids = snd (apply_lessons_to_verification_plan lessons (in_type sp) (in_verification_plan sp))
     in task_event_row now t TeCreated
          ([(''plan_version'', JInt v), (''insertion_idempotency_key'', JStr (ir_key r)), (''insertion_semantic_hash'', JStr hash),
            (''insertion_task_id'', JStr (uuid_str (t_id t))), (''insertion_task_index'', JInt (int i)),
            (''authority_kind'', JStr (ir_kind r)), (''source_type'', JStr (ir_source_type r)),
            (''source_ref'', JStr (ir_source_ref r)), (''reason'', JStr (ir_reason r)),
            (''requested_by'', JStr (ir_requested_by r)), (''kind'', JStr ''partial_plan_insertion'')] @
           (if ids = [] then [] else [(''lessons_applied'', JArr (map (\<lambda>i. JStr (uuid_str i)) ids))])))"

definition prerequisite_event :: "time \<Rightarrow> (nat \<Rightarrow> uuid) \<Rightarrow> insertion \<Rightarrow> db \<Rightarrow> prerequisite \<Rightarrow> task_event list" where
  "prerequisite_event now fresh r d e =
     (case find_row (\<lambda>t. t_id t = pe_task e) (tasks d) of
        None \<Rightarrow> []
      | Some t \<Rightarrow>
          [task_event_row now t TeProgressUpdated
             [(''reason'', JStr ''partial_plan_insertion_new_prerequisite''),
              (''new_prerequisite_task_id'', JStr (uuid_str (fresh (nat (pe_on e))))),
              (''insertion_idempotency_key'', JStr (ir_key r)), (''requested_by'', JStr (ir_requested_by r))]])"

definition inserted_rows ::
  "time \<Rightarrow> lesson list \<Rightarrow> mainai_goal \<Rightarrow> uuid \<Rightarrow> (nat \<Rightarrow> uuid) \<Rightarrow> insertion \<Rightarrow> mainai_task list" where
  "inserted_rows now lessons g pid fresh r =
     map (\<lambda>(i, sp). planned_row now lessons g pid (fresh i) (as_planned sp)) (enumerate 0 (ir_tasks r))"

definition rows_at :: "uuid list \<Rightarrow> db \<Rightarrow> mainai_task list" where
  "rows_at ids d = List.map_filter (\<lambda>i. find_row (\<lambda>t. t_id t = i) (tasks d)) ids"

definition write_insertion ::
  "time \<Rightarrow> lesson list \<Rightarrow> (nat \<Rightarrow> uuid) \<Rightarrow> string \<Rightarrow> mainai_goal \<Rightarrow> mainai_plan \<Rightarrow> insertion \<Rightarrow> db \<Rightarrow>
   error + (db \<times> mainai_task list)" where
  "write_insertion now lessons fresh hash g p r d =
     (let rows = inserted_rows now lessons g (pl_id p) fresh r
      in sbind (insert_tasks rows d) (\<lambda>d1.
         sbind (insert_dependencies (inserted_dependencies fresh (g_owner g) r) d1) (\<lambda>d2.
         let d3 = d2\<lparr>task_events := task_events d2 @
                 map (inserted_event now lessons (pl_version p) hash r) (enumerate 0 (zip rows (ir_tasks r))) @
                 concat (map (prerequisite_event now fresh r d) (ir_prerequisites r))\<rparr>;
             d4 = after_recompute now (g_id g) d3
         in Inr (d4, rows_at (map t_id rows) d4))))"

text \<open>\<open>fresh i\<close> is the id of the new task at position \<open>i\<close>; the rows returned are read after the readiness pass.\<close>

definition insert_plan_tasks ::
  "(string \<Rightarrow> string) \<Rightarrow> (json \<Rightarrow> string) \<Rightarrow> time \<Rightarrow> lesson list \<Rightarrow> (nat \<Rightarrow> uuid) \<Rightarrow> uuid \<Rightarrow> uuid \<Rightarrow> insertion \<Rightarrow> db \<Rightarrow>
   insertion_error + (db \<times> mainai_task list)" where
  "insert_plan_tasks sha dumps now lessons fresh gid pid r d =
     sbind (admissible r) (\<lambda>_.
     sbind (from_option (InsertionRaised ''NoResultFound'') (find_row (\<lambda>g. g_id g = gid) (goals d))) (\<lambda>g.
     sbind (from_option (InsertionRaised ''NoResultFound'') (find_row (\<lambda>p. pl_id p = pid) (plans d))) (\<lambda>p.
     if pl_goal p \<noteq> gid then Inl (InsertionInvalid ''plan of another goal'')
     else if pl_owner p \<noteq> g_owner g then Inl (InsertionInvalid ''owner mismatch'')
     else if pl_status p \<noteq> PlanActive then Inl (InsertionInvalid ''plan is not active'')
     else if sha (g_original_instruction g) \<noteq> ir_instruction_sha r then Inl (InsertionAuthority ''instruction changed'')
     else let events = find_replay pid (ir_key r) d; hash = semantic_hash sha dumps r
          in if events \<noteq> [] then sbind (replayed hash events d) (\<lambda>ts. Inr (d, ts))
             else sbind (validate_insertion pid r d) (\<lambda>_.
                  map_sum InsertionRow id (write_insertion now lessons fresh hash g p r d)))))"

section \<open>What validation guarantees\<close>

lemma position_Some: "position x xs = Some k \<Longrightarrow> k < length xs \<and> xs ! k = x"
  by (induction xs arbitrary: k) (auto split: if_splits)

lemma position_in: "x \<in> set xs \<Longrightarrow> \<exists>k. position x xs = Some k"
  by (induction xs) auto

lemma check_dependency_Inr:
  "check_dependency existing n i dp = Inr u \<longleftrightarrow>
     (case dp of OnNew k \<Rightarrow> 0 \<le> k \<and> k < int n \<and> k \<noteq> int i
      | OnExisting v \<Rightarrow> \<exists>t. find_row (\<lambda>t. t_id t = v) existing = Some t \<and> t_status t \<notin> never_completes)"
  by (auto simp: check_dependency_def ensure_def split: spec_dependency.splits option.splits)

definition spec_ok :: "mainai_task list \<Rightarrow> nat \<Rightarrow> nat \<Rightarrow> inserted_spec \<Rightarrow> bool" where
  "spec_ok existing n i sp \<longleftrightarrow>
     strip_chars is_space (in_description sp) \<noteq> [] \<and> in_type sp \<in> known_task_types \<and>
     0 \<le> in_max_attempts sp \<and> in_max_attempts sp \<le> 20 \<and> check_plan_steps (in_verification_plan sp) = Inr () \<and>
     (\<forall>dp\<in>set (in_depends sp). check_dependency existing n i dp = Inr ())"

lemma each_unit_Inr: "each f xs = Inr ys \<Longrightarrow> x \<in> set xs \<Longrightarrow> \<exists>y. f x = Inr y"
  by (induction xs arbitrary: ys) (auto elim!: sbind_InrE)

lemma check_inserted_Inr:
  assumes "check_inserted existing n (i, sp) = Inr u"
  shows "spec_ok existing n i sp"
proof -
  from assms obtain us where us: "each (check_dependency existing n i) (in_depends sp) = Inr us"
    and rest: "strip_chars is_space (in_description sp) \<noteq> []" "in_type sp \<in> known_task_types" "0 \<le> in_max_attempts sp"
      "in_max_attempts sp \<le> 20" "check_plan_steps (in_verification_plan sp) = Inr ()"
    by (auto simp: check_inserted_def map_sum_def split: if_splits sum.splits)
  then show ?thesis using each_unit_Inr [OF us] by (auto simp: spec_ok_def)
qed

lemma insertion_edges_iff:
  "(a, b) \<in> set (insertion_edges ids r) \<longleftrightarrow>
     (\<exists>i<length (ir_tasks r). \<exists>dp\<in>set (in_depends (ir_tasks r ! i)). a = length ids + i \<and> b = node_of ids dp) \<or>
     (\<exists>e\<in>set (ir_prerequisites r). a = the (position (pe_task e) ids) \<and> b = length ids + nat (pe_on e))"
  by (force simp: insertion_edges_def in_set_enumerate_eq)

lemma existing_edges_iff:
  "(a, b) \<in> set (existing_edges ids d) \<longleftrightarrow>
     (\<exists>p\<in>set (task_deps d). position (dep_task p) ids = Some a \<and> position (dep_on p) ids = Some b)"
  by (force simp: existing_edges_def map_filter_def split: option.splits)

lemma validate_insertion_Inr:
  assumes "validate_insertion pid r d = Inr u"
  defines "existing \<equiv> filter (\<lambda>t. t_plan t = pid) (tasks d)"
  defines "ids \<equiv> map t_id existing" and "n \<equiv> length (ir_tasks r)"
  shows "(\<forall>i<n. spec_ok existing n i (ir_tasks r ! i)) \<and>
    (\<forall>e\<in>set (ir_prerequisites r). 0 \<le> pe_on e \<and> pe_on e < int n \<and>
       (\<exists>t. find_row (\<lambda>t. t_id t = pe_task e) existing = Some t \<and> t_status t \<in> takes_prerequisites)) \<and>
    (\<forall>(a, b)\<in>set (existing_edges ids d @ insertion_edges ids r). a < length ids + n \<and> b < length ids + n) \<and>
    acyclic (set (existing_edges ids d @ insertion_edges ids r))"
proof -
  let ?es = "existing_edges ids d @ insertion_edges ids r"
  obtain us vs where specs: "each (check_inserted existing n) (enumerate 0 (ir_tasks r)) = Inr us"
    and edges: "each (check_prerequisite existing n) (ir_prerequisites r) = Inr vs"
    and none: "detect_cycle (length ids + n) ?es = Inr None"
    using assms(1) unfolding validate_insertion_def Let_def existing_def [symmetric] ids_def [symmetric] n_def [symmetric]
    by (auto elim!: sbind_InrE split: sum.splits option.splits)
  have s: "spec_ok existing n i (ir_tasks r ! i)" if "i < n" for i
  proof -
    have "(i, ir_tasks r ! i) \<in> set (enumerate 0 (ir_tasks r))" using that by (simp add: n_def in_set_enumerate_eq)
    from each_unit_Inr [OF specs this] check_inserted_Inr show ?thesis by blast
  qed
  have e: "0 \<le> pe_on e \<and> pe_on e < int n \<and>
      (\<exists>t. find_row (\<lambda>t. t_id t = pe_task e) existing = Some t \<and> t_status t \<in> takes_prerequisites)"
    if "e \<in> set (ir_prerequisites r)" for e
    using each_unit_Inr [OF edges that] by (auto simp: check_prerequisite_def split: if_splits option.splits)
  have known: "\<exists>k<length ids. position v ids = Some k" if "find_row (\<lambda>t. t_id t = v) existing = Some t" for v t
  proof -
    from find_row_SomeD [OF that] have "v \<in> set ids" unfolding ids_def by (elim conjE) (simp add: rev_image_eqI)
    then obtain k where "position v ids = Some k" using position_in by fastforce
    with position_Some [OF this] show ?thesis by blast
  qed
  have range: "a < length ids + n \<and> b < length ids + n" if mem: "(a, b) \<in> set ?es" for a b
  proof -
    from mem consider "(a, b) \<in> set (existing_edges ids d)"
      | i dp where "i < n" "dp \<in> set (in_depends (ir_tasks r ! i))" "a = length ids + i" "b = node_of ids dp"
      | p where "p \<in> set (ir_prerequisites r)" "a = the (position (pe_task p) ids)" "b = length ids + nat (pe_on p)"
      by (auto simp: insertion_edges_iff n_def)
    then show ?thesis
    proof cases
      case 1
      then show ?thesis by (auto simp: existing_edges_iff dest!: position_Some)
    next
      case 2
      from s [OF 2(1)] 2(2) have dp: "check_dependency existing n i dp = Inr ()" by (simp add: spec_ok_def)
      show ?thesis
      proof (cases dp)
        case (OnNew k)
        with dp have "0 \<le> k" "k < int n" by (simp_all add: check_dependency_Inr)
        with OnNew 2 show ?thesis by (simp add: node_of_def)
      next
        case (OnExisting v)
        with dp obtain t where "find_row (\<lambda>t. t_id t = v) existing = Some t" by (auto simp: check_dependency_Inr)
        from known [OF this] OnExisting 2 show ?thesis by (auto simp: node_of_def)
      qed
    next
      case 3
      from e [OF 3(1)] obtain t where t: "find_row (\<lambda>t. t_id t = pe_task p) existing = Some t" and k: "0 \<le> pe_on p" "pe_on p < int n"
        by blast
      from known [OF t] 3 k show ?thesis by auto
    qed
  qed
  then have range: "\<forall>(a, b)\<in>set ?es. a < length ids + n \<and> b < length ids + n" by blast
  with detect_cycle_correct [OF this] none have "acyclic (set ?es)" by simp
  with s e range show ?thesis by blast
qed

section \<open>The graph of the plan\<close>

text \<open>Every dependency joins two stored tasks of one plan.\<close>

definition deps_in_plan :: "db \<Rightarrow> bool" where
  "deps_in_plan d \<longleftrightarrow>
     (\<forall>p\<in>set (task_deps d). \<exists>s\<in>set (tasks d). \<exists>t\<in>set (tasks d). t_id s = dep_task p \<and> t_id t = dep_on p \<and> t_plan s = t_plan t)"

lemma inserted_dependencies_iff:
  "p \<in> set (inserted_dependencies fresh owner r) \<longleftrightarrow>
     (\<exists>i<length (ir_tasks r). \<exists>dp\<in>set (in_depends (ir_tasks r ! i)).
        p = \<lparr>dep_task = fresh i, dep_on = (case dp of OnNew k \<Rightarrow> fresh (nat k) | OnExisting u \<Rightarrow> u), dep_owner = owner\<rparr>) \<or>
     (\<exists>e\<in>set (ir_prerequisites r). p = \<lparr>dep_task = pe_task e, dep_on = fresh (nat (pe_on e)), dep_owner = owner\<rparr>)"
  by (force simp: inserted_dependencies_def in_set_enumerate_eq)

lemma existing_position:
  assumes "find_row (\<lambda>t. t_id t = v) existing = Some t"
  shows "\<exists>k<length (map t_id existing). position v (map t_id existing) = Some k \<and> map t_id existing ! k = v"
proof -
  from find_row_SomeD [OF assms] have "v \<in> set (map t_id existing)" by auto
  then obtain k where "position v (map t_id existing) = Some k" using position_in by fastforce
  with position_Some [OF this] show ?thesis by auto
qed

text \<open>Where an inserted dependency stands among the edges the check has seen.\<close>

lemma inserted_edge:
  assumes valid: "validate_insertion pid r d = Inr u" and p: "p \<in> set (inserted_dependencies fresh owner r)"
  defines "ids \<equiv> map t_id (filter (\<lambda>t. t_plan t = pid) (tasks d))" and "n \<equiv> length (ir_tasks r)"
  shows "\<exists>a b. (a, b) \<in> set (insertion_edges ids r) \<and> a < length ids + n \<and> b < length ids + n \<and>
    (ids @ map fresh [0..<n]) ! a = dep_task p \<and> (ids @ map fresh [0..<n]) ! b = dep_on p"
proof -
  let ?ex = "filter (\<lambda>t. t_plan t = pid) (tasks d)"
  note V = validate_insertion_Inr [OF valid, folded ids_def n_def]
  have new: "(ids @ map fresh [0..<n]) ! (length ids + i) = fresh i" if "i < n" for i
    using that by (simp add: nth_append)
  have old: "\<exists>k<length ids. position v ids = Some k \<and> (ids @ map fresh [0..<n]) ! k = v"
    if "find_row (\<lambda>t. t_id t = v) ?ex = Some t" for v t
  proof -
    from existing_position [OF that, folded ids_def] obtain k where "k < length ids" "position v ids = Some k" "ids ! k = v"
      by blast
    then show ?thesis by (intro exI [of _ k]) (simp add: nth_append)
  qed
  from p consider i dp where "i < n" "dp \<in> set (in_depends (ir_tasks r ! i))"
        "p = \<lparr>dep_task = fresh i, dep_on = (case dp of OnNew k \<Rightarrow> fresh (nat k) | OnExisting u \<Rightarrow> u), dep_owner = owner\<rparr>"
    | e where "e \<in> set (ir_prerequisites r)" "p = \<lparr>dep_task = pe_task e, dep_on = fresh (nat (pe_on e)), dep_owner = owner\<rparr>"
    unfolding inserted_dependencies_iff n_def by blast
  then show ?thesis
  proof cases
    case 1
    have mem: "(length ids + i, node_of ids dp) \<in> set (insertion_edges ids r)"
      unfolding insertion_edges_iff using 1(1,2) unfolding n_def by blast
    from V 1(1,2) have ok: "check_dependency ?ex n i dp = Inr ()" by (simp add: spec_ok_def)
    have "node_of ids dp < length ids + n \<and> (ids @ map fresh [0..<n]) ! node_of ids dp = dep_on p"
    proof (cases dp)
      case (OnNew k)
      with ok have "nat k < n" by (auto simp: check_dependency_Inr)
      with OnNew 1(3) new show ?thesis by (simp add: node_of_def)
    next
      case (OnExisting v)
      with ok obtain t where "find_row (\<lambda>t. t_id t = v) ?ex = Some t" by (auto simp: check_dependency_Inr)
      from old [OF this] OnExisting 1(3) show ?thesis by (auto simp: node_of_def)
    qed
    moreover have "length ids + i < length ids + n" "(ids @ map fresh [0..<n]) ! (length ids + i) = dep_task p"
      using 1(1,3) new by simp_all
    ultimately show ?thesis using mem by blast
  next
    case 2
    let ?a = "the (position (pe_task e) ids)" and ?b = "length ids + nat (pe_on e)"
    have mem: "(?a, ?b) \<in> set (insertion_edges ids r)" unfolding insertion_edges_iff using 2(1) by blast
    from V 2(1) obtain t where "find_row (\<lambda>t. t_id t = pe_task e) ?ex = Some t" and k: "nat (pe_on e) < n" by auto
    from old [OF this(1)] have "?a < length ids \<and> (ids @ map fresh [0..<n]) ! ?a = pe_task e" by auto
    with mem 2(2) new [OF k] k show ?thesis by (intro exI [of _ ?a] exI [of _ ?b]) simp
  qed
qed

lemma insertion_acyclic:
  assumes valid: "validate_insertion pid r d = Inr u" and uniq: "distinct (map t_id (tasks d) @ map fresh [0..<length (ir_tasks r)])"
    and inplan: "deps_in_plan d" and acy: "acyclic (depends_rel d)"
    and deps: "task_deps d5 = task_deps d @ inserted_dependencies fresh owner r"
  shows "acyclic (depends_rel d5)"
proof -
  define ids where "ids = map t_id (filter (\<lambda>t. t_plan t = pid) (tasks d))"
  define n where "n = length (ir_tasks r)"
  define ns where "ns = ids @ map fresh [0..<n]"
  let ?G = "set (existing_edges ids d @ insertion_edges ids r)"
  note V = validate_insertion_Inr [OF valid, folded ids_def n_def]
  have dist: "distinct ns"
  proof -
    have "distinct ids" unfolding ids_def by (rule distinct_map_filter) (use uniq in simp)
    moreover have "set ids \<subseteq> t_id ` set (tasks d)" unfolding ids_def by auto
    ultimately show ?thesis using uniq unfolding ns_def n_def by (simp only: distinct_append set_map) blast
  qed
  have inj: "inj_on ((!) ns) {0..<length ns}" using dist by (auto simp: inj_on_def nth_eq_iff_index_eq)
  have field: "Field ?G \<subseteq> {0..<length ns}" using V by (fastforce simp: Field_def ns_def)
  have "wf ?G" using V by (intro finite_acyclic_wf) simp_all
  then have new: "wf ((\<lambda>(a, b). (ns ! a, ns ! b)) ` ?G)"
    by (rule wf_image_inj_on) (rule inj_on_subset [OF inj field])
  let ?rest = "{(a, b) \<in> depends_rel d. a \<notin> set ids}"
  have fin: "finite (depends_rel d)" by (auto simp: depends_rel_def setcompr_eq_image)
  have "wf (depends_rel d)" by (rule finite_acyclic_wf [OF fin acy])
  then have rest: "wf ?rest" by (rule wf_subset) auto
  have dom: "Domain ?rest \<subseteq> t_id ` set (tasks d) - set ids"
  proof
    fix a assume "a \<in> Domain ?rest"
    then obtain p where p: "p \<in> set (task_deps d)" "a = dep_task p" "a \<notin> set ids" by (auto simp: depends_rel_def)
    with inplan obtain s where "s \<in> set (tasks d)" "t_id s = a" unfolding deps_in_plan_def by metis
    with p(3) show "a \<in> t_id ` set (tasks d) - set ids" by blast
  qed
  have "Range ((\<lambda>(a, b). (ns ! a, ns ! b)) ` ?G) \<subseteq> set ns" using field by (force simp: Field_def)
  moreover have "set ns \<inter> (t_id ` set (tasks d) - set ids) = {}" using uniq by (auto simp: ns_def n_def)
  ultimately have "Domain ?rest \<inter> Range ((\<lambda>(a, b). (ns ! a, ns ! b)) ` ?G) = {}" using dom by blast
  then have wf: "wf (?rest \<union> (\<lambda>(a, b). (ns ! a, ns ! b)) ` ?G)" by (rule wf_Un [OF rest new])
  have "depends_rel d5 \<subseteq> ?rest \<union> (\<lambda>(a, b). (ns ! a, ns ! b)) ` ?G"
  proof
    fix x assume "x \<in> depends_rel d5"
    then obtain p where x: "x = (dep_task p, dep_on p)" and p: "p \<in> set (task_deps d) \<or> p \<in> set (inserted_dependencies fresh owner r)"
      by (auto simp: depends_rel_def deps)
    from p show "x \<in> ?rest \<union> (\<lambda>(a, b). (ns ! a, ns ! b)) ` ?G"
    proof
      assume old: "p \<in> set (task_deps d)"
      show ?thesis
      proof (cases "dep_task p \<in> set ids")
        case True
        then obtain s' where s': "s' \<in> set (tasks d)" "t_id s' = dep_task p" "t_plan s' = pid" by (auto simp: ids_def)
        from inplan old obtain s t where st: "s \<in> set (tasks d)" "t \<in> set (tasks d)" "t_id s = dep_task p" "t_id t = dep_on p"
          "t_plan s = t_plan t" by (fastforce simp: deps_in_plan_def)
        have "s = s'" using uniq s' st(1,3) by (auto simp: distinct_map inj_on_def)
        with st s' have "t_plan t = pid" by simp
        with st(2,4) have "dep_on p \<in> set ids" by (force simp: ids_def)
        then obtain a b where ab: "position (dep_task p) ids = Some a" "position (dep_on p) ids = Some b"
          using position_in [OF True] position_in by fastforce
        then have "(a, b) \<in> ?G" using old by (auto simp: existing_edges_iff)
        moreover have "ns ! a = dep_task p" "ns ! b = dep_on p"
          using position_Some [OF ab(1)] position_Some [OF ab(2)] by (auto simp: ns_def nth_append)
        ultimately show ?thesis by (force simp: x)
      next
        case False
        with old show ?thesis by (auto simp: x depends_rel_def)
      qed
    next
      assume "p \<in> set (inserted_dependencies fresh owner r)"
      from inserted_edge [OF valid this, folded ids_def n_def, folded ns_def] obtain a b where
        "(a, b) \<in> ?G" "ns ! a = dep_task p" "ns ! b = dep_on p" by auto
      then show ?thesis by (force simp: x)
    qed
  qed
  with wf show ?thesis by (intro wf_acyclic wf_subset [OF wf])
qed

section \<open>What an insertion does\<close>

lemma inserted_rows_ids: "map t_id (inserted_rows now lessons g pid fresh r) = map fresh [0..<length (ir_tasks r)]"
  by (rule nth_equalityI) (simp_all add: inserted_rows_def nth_enumerate_eq planned_row_def)

lemma inserted_rows_plan:
  "t \<in> set (inserted_rows now lessons g pid fresh r) \<Longrightarrow>
     t_plan t = pid \<and> t_goal t = g_id g \<and> t_owner t = g_owner g \<and> t_status t = TPending \<and> t_attempts t = 0"
  by (auto simp: inserted_rows_def planned_row_def)

lemma insert_plan_tasks_InrE:
  assumes "insert_plan_tasks sha dumps now lessons fresh gid pid r d = Inr (d', ts)"
  obtains g p where "admissible r = Inr ()" "find_row (\<lambda>g. g_id g = gid) (goals d) = Some g"
      "find_row (\<lambda>p. pl_id p = pid) (plans d) = Some p" "pl_goal p = gid" "pl_owner p = g_owner g" "pl_status p = PlanActive"
      "sha (g_original_instruction g) = ir_instruction_sha r"
    and "find_replay pid (ir_key r) d \<noteq> [] \<Longrightarrow>
      d' = d \<and> replayed (semantic_hash sha dumps r) (find_replay pid (ir_key r) d) d = Inr ts"
    and "find_replay pid (ir_key r) d = [] \<Longrightarrow>
      validate_insertion pid r d = Inr () \<and> write_insertion now lessons fresh (semantic_hash sha dumps r) g p r d = Inr (d', ts)"
  using assms unfolding insert_plan_tasks_def
  by (auto simp: sbind_Inr_iff from_option_Inr_iff Let_def map_sum_def split: if_splits sum.splits)

lemma write_insertion_InrE:
  assumes "write_insertion now lessons fresh hash g p r d = Inr (d', ts)"
  defines "rows \<equiv> inserted_rows now lessons g (pl_id p) fresh r"
  obtains d3 where "distinct (map t_id (tasks d @ rows))" "list_all task_checks rows"
    and "distinct (map (\<lambda>p. (dep_task p, dep_on p)) (task_deps d @ inserted_dependencies fresh (g_owner g) r))"
    and "d3 = d\<lparr>tasks := tasks d @ rows, task_deps := task_deps d @ inserted_dependencies fresh (g_owner g) r,
      task_events := task_events d @ map (inserted_event now lessons (pl_version p) hash r) (enumerate 0 (zip rows (ir_tasks r))) @
        concat (map (prerequisite_event now fresh r d) (ir_prerequisites r))\<rparr>"
    and "d' = after_recompute now (g_id g) d3" and "ts = rows_at (map t_id rows) d'"
  using assms(1) unfolding write_insertion_def rows_def [symmetric] Let_def
  by (auto simp: sbind_Inr_iff insert_tasks_def insert_dependencies_def split: if_splits)

lemma deps_in_plan_closed: "deps_in_plan d \<Longrightarrow> deps_closed d"
  unfolding deps_in_plan_def deps_closed_def by (metis image_eqI)

text \<open>The dependencies of an insertion are within the plan.\<close>

lemma inserted_in_plan:
  assumes valid: "validate_insertion pid r d = Inr u" and inplan: "deps_in_plan d"
    and t5: "tasks d5 = tasks d @ inserted_rows now lessons g pid fresh r"
    and deps: "task_deps d5 = task_deps d @ inserted_dependencies fresh owner r"
  shows "deps_in_plan d5"
  unfolding deps_in_plan_def
proof
  let ?ids = "map t_id (filter (\<lambda>t. t_plan t = pid) (tasks d))" and ?n = "length (ir_tasks r)"
  fix p assume "p \<in> set (task_deps d5)"
  then consider "p \<in> set (task_deps d)" | "p \<in> set (inserted_dependencies fresh owner r)" by (auto simp: deps)
  then show "\<exists>s\<in>set (tasks d5). \<exists>t\<in>set (tasks d5). t_id s = dep_task p \<and> t_id t = dep_on p \<and> t_plan s = t_plan t"
  proof cases
    case 1
    with inplan show ?thesis by (force simp: deps_in_plan_def t5)
  next
    case 2
    from inserted_edge [OF valid this] obtain a b where ab: "a < length ?ids + ?n" "b < length ?ids + ?n"
      "(?ids @ map fresh [0..<?n]) ! a = dep_task p" "(?ids @ map fresh [0..<?n]) ! b = dep_on p" by blast
    have ours: "\<exists>s\<in>set (tasks d5). t_id s = v \<and> t_plan s = pid" if "(?ids @ map fresh [0..<?n]) ! k = v" "k < length ?ids + ?n" for k v
    proof -
      have "v \<in> set (?ids @ map fresh [0..<?n])" using that nth_mem [of k "?ids @ map fresh [0..<?n]"] by simp
      then consider "v \<in> set ?ids" | "v \<in> set (map t_id (inserted_rows now lessons g pid fresh r))"
        unfolding inserted_rows_ids by auto
      then show ?thesis by cases (auto simp: t5 dest: inserted_rows_plan)
    qed
    from ours [OF ab(3,1)] ours [OF ab(4,2)] show ?thesis by metis
  qed
qed

lemma recompute_in_plan: "deps_in_plan d \<Longrightarrow> deps_in_plan (after_recompute now gid d)"
  unfolding deps_in_plan_def
proof (intro ballI)
  fix p assume all: "\<forall>p\<in>set (task_deps d). \<exists>s\<in>set (tasks d). \<exists>t\<in>set (tasks d). t_id s = dep_task p \<and> t_id t = dep_on p \<and> t_plan s = t_plan t"
    and "p \<in> set (task_deps (after_recompute now gid d))"
  then obtain s t where st: "s \<in> set (tasks d)" "t \<in> set (tasks d)" "t_id s = dep_task p" "t_id t = dep_on p" "t_plan s = t_plan t"
    by auto
  let ?f = "\<lambda>t. if pending_in gid t then apply_readiness (readiness_of d t) t else t"
  have "?f s \<in> set (tasks (after_recompute now gid d))" "?f t \<in> set (tasks (after_recompute now gid d))"
    using st(1,2) unfolding recompute_tasks in_update_rows_iff by blast+
  moreover have "t_id (?f s) = dep_task p" "t_id (?f t) = dep_on p" "t_plan (?f s) = t_plan (?f t)" using st(3-5) by simp_all
  ultimately show "\<exists>s\<in>set (tasks (after_recompute now gid d)). \<exists>t\<in>set (tasks (after_recompute now gid d)).
      t_id s = dep_task p \<and> t_id t = dep_on p \<and> t_plan s = t_plan t"
    by (intro bexI [of _ "?f s"] bexI [of _ "?f t"] conjI)
qed

text \<open>C11: An insertion adds to a plan and keeps it a graph that can be worked off. The dependencies stay acyclic and within
  their plan; every task that was there is still there, unchanged unless it is a pending task of the goal whose readiness
  the pass at the end decides; every dependency is kept; goals, plans and jobs are not touched.\<close>

theorem insertion_keeps_dag:
  assumes "insert_plan_tasks sha dumps now lessons fresh gid pid r d = Inr (d', ts)"
    and "tasks_ok d" and "deps_in_plan d" and "acyclic (depends_rel d)"
  shows "tasks_ok d' \<and> deps_in_plan d' \<and> acyclic (depends_rel d') \<and>
    (\<forall>t\<in>set (tasks d). t \<in> set (tasks d') \<or> pending_in gid t \<and> (\<exists>x. apply_readiness x t \<in> set (tasks d'))) \<and>
    set (task_deps d) \<subseteq> set (task_deps d') \<and> goals d' = goals d \<and> plans d' = plans d \<and> jobs d' = jobs d"
proof -
  obtain g p where g: "find_row (\<lambda>g. g_id g = gid) (goals d) = Some g" and p: "find_row (\<lambda>p. pl_id p = pid) (plans d) = Some p"
    and replay: "find_replay pid (ir_key r) d \<noteq> [] \<Longrightarrow> d' = d"
    and fresh: "find_replay pid (ir_key r) d = [] \<Longrightarrow>
      validate_insertion pid r d = Inr () \<and> write_insertion now lessons fresh (semantic_hash sha dumps r) g p r d = Inr (d', ts)"
    by (rule insert_plan_tasks_InrE [OF assms(1)]) simp
  show ?thesis
  proof (cases "find_replay pid (ir_key r) d = []")
    case False
    with replay assms(2-4) show ?thesis by simp
  next
    case True
    let ?rows = "inserted_rows now lessons g pid fresh r"
    have ids: "g_id g = gid" "pl_id p = pid" using find_row_SomeD [OF g] find_row_SomeD [OF p] by simp_all
    from True fresh have valid: "validate_insertion pid r d = Inr ()"
      and w: "write_insertion now lessons fresh (semantic_hash sha dumps r) g p r d = Inr (d', ts)" by simp_all
    obtain d3 where uniq: "distinct (map t_id (tasks d @ ?rows))" and checks: "list_all task_checks ?rows"
      and pairs: "distinct (map (\<lambda>p. (dep_task p, dep_on p)) (task_deps d @ inserted_dependencies fresh (g_owner g) r))"
      and d3: "d3 = d\<lparr>tasks := tasks d @ ?rows, task_deps := task_deps d @ inserted_dependencies fresh (g_owner g) r,
        task_events := task_events d @ map (inserted_event now lessons (pl_version p) (semantic_hash sha dumps r) r)
            (enumerate 0 (zip ?rows (ir_tasks r))) @ concat (map (prerequisite_event now fresh r d) (ir_prerequisites r))\<rparr>"
      and d': "d' = after_recompute now gid d3"
      by (rule write_insertion_InrE [OF w, unfolded ids])
    have t3: "tasks d3 = tasks d @ ?rows" and deps: "task_deps d3 = task_deps d @ inserted_dependencies fresh (g_owner g) r"
      and frame: "goals d3 = goals d" "plans d3 = plans d" "jobs d3 = jobs d" by (simp_all add: d3)
    have new: "distinct (map t_id (tasks d) @ map fresh [0..<length (ir_tasks r)])"
      using uniq unfolding map_append inserted_rows_ids .
    have "tasks_ok d3"
      using assms(2) uniq pairs checks by (auto simp: tasks_ok_def unique_key_def t3 deps list_all_iff)
    then have "tasks_ok d'" unfolding d' by (rule recompute_ok)
    moreover have "deps_in_plan d'"
      unfolding d' by (rule recompute_in_plan) (rule inserted_in_plan [OF valid assms(3) t3 deps])
    moreover have "acyclic (depends_rel d')"
      using insertion_acyclic [OF valid new assms(3,4) deps] by (simp add: d' depends_rel_def)
    moreover have "t \<in> set (tasks d') \<or> pending_in gid t \<and> (\<exists>x. apply_readiness x t \<in> set (tasks d'))" if "t \<in> set (tasks d)" for t
    proof -
      have "(if pending_in gid t then apply_readiness (readiness_of d3 t) t else t) \<in> set (tasks d')"
        using that unfolding d' recompute_tasks in_update_rows_iff by (intro bexI [of _ t]) (simp_all add: t3)
      then show ?thesis by (auto split: if_splits)
    qed
    ultimately show ?thesis using frame by (simp add: d' deps)
  qed
qed

section \<open>Repeating an insertion\<close>

text \<open>The foreign key of \<open>mainai_task_events\<close>.\<close>

definition events_closed :: "db \<Rightarrow> bool" where
  "events_closed d \<longleftrightarrow> (\<forall>e\<in>set (task_events d). te_task e \<in> t_id ` set (tasks d))"

definition of_plan :: "uuid \<Rightarrow> uuid \<Rightarrow> db \<Rightarrow> bool" where
  "of_plan pid i d \<longleftrightarrow> (\<exists>t\<in>set (tasks d). t_id t = i \<and> t_plan t = pid)"

lemma of_plan_recompute [simp]: "of_plan pid i (after_recompute now gid d) = of_plan pid i d"
proof -
  have "map (\<lambda>t. (t_id t, t_plan t)) (tasks (after_recompute now gid d)) = map (\<lambda>t. (t_id t, t_plan t)) (tasks d)"
    by (simp add: recompute_tasks map_key_update_rows)
  then have "(\<lambda>t. (t_id t, t_plan t)) ` set (tasks (after_recompute now gid d)) = (\<lambda>t. (t_id t, t_plan t)) ` set (tasks d)"
    by (rule list_key_image)
  moreover have "of_plan pid i e \<longleftrightarrow> (i, pid) \<in> (\<lambda>t. (t_id t, t_plan t)) ` set (tasks e)" for e
    by (auto simp: of_plan_def)
  ultimately show ?thesis by simp
qed

lemma insertion_event_of_plan:
  "insertion_event pid key d e \<longleftrightarrow>
     te_type e = TeCreated \<and> map_of (te_detail e) ''insertion_idempotency_key'' = Some (JStr key) \<and> of_plan pid (te_task e) d"
  by (auto simp: insertion_event_def of_plan_def list_ex_iff)

lemma inserted_event_fields:
  "te_type (inserted_event now lessons v hash r (i, t, sp)) = TeCreated"
  "te_task (inserted_event now lessons v hash r (i, t, sp)) = t_id t"
  "te_owner (inserted_event now lessons v hash r (i, t, sp)) = t_owner t"
  "map_of (te_detail (inserted_event now lessons v hash r (i, t, sp))) ''insertion_idempotency_key'' = Some (JStr (ir_key r))"
  "jget (te_detail (inserted_event now lessons v hash r (i, t, sp))) ''insertion_semantic_hash'' = JStr hash"
  "event_task (inserted_event now lessons v hash r (i, t, sp)) = Inr (t_id t)"
  "event_position (inserted_event now lessons v hash r (i, t, sp)) = Inr (int i)"
  by (simp_all add: inserted_event_def task_event_row_def Let_def jget_def event_task_def event_position_def get_default_def
      json_uuid_def uuid_parse_str from_option_def)

lemma later_events:
  "te_type e \<noteq> TeCreated" if "e \<in> set (concat (map (prerequisite_event now fresh r d) es))"
  using that by (auto simp: prerequisite_event_def task_event_row_def split: option.splits)

lemma readiness_no_created: "e \<in> set (readiness_events now x t) \<Longrightarrow> te_type e \<noteq> TeCreated"
  by (auto simp: readiness_events_def task_event_row_def split: readiness.splits)

lemma recompute_events: "\<exists>es. task_events (after_recompute now gid d) = task_events d @ es \<and> (\<forall>e\<in>set es. te_type e \<noteq> TeCreated)"
  using readiness_no_created by (fastforce simp: recompute_task_readiness_def Let_def)

lemma insertion_events:
  assumes "write_insertion now lessons fresh hash g p r d = Inr (d', ts)" and "find_replay (pl_id p) (ir_key r) d = []"
    and "events_closed d"
  shows "find_replay (pl_id p) (ir_key r) d' = map (inserted_event now lessons (pl_version p) hash r)
    (enumerate 0 (zip (inserted_rows now lessons g (pl_id p) fresh r) (ir_tasks r)))"
proof -
  let ?rows = "inserted_rows now lessons g (pl_id p) fresh r"
  let ?new = "map (inserted_event now lessons (pl_version p) hash r) (enumerate 0 (zip ?rows (ir_tasks r)))"
  let ?later = "concat (map (prerequisite_event now fresh r d) (ir_prerequisites r))"
  obtain d3 where uniq: "distinct (map t_id (tasks d @ ?rows))"
    and d3: "d3 = d\<lparr>tasks := tasks d @ ?rows, task_deps := task_deps d @ inserted_dependencies fresh (g_owner g) r,
      task_events := task_events d @ ?new @ ?later\<rparr>" and d': "d' = after_recompute now (g_id g) d3"
    by (rule write_insertion_InrE [OF assms(1)])
  obtain es where es: "task_events d' = task_events d @ ?new @ ?later @ es" and ready: "\<forall>e\<in>set es. te_type e \<noteq> TeCreated"
    using recompute_events [of now "g_id g" d3] by (auto simp: d' d3)
  let ?P = "insertion_event (pl_id p) (ir_key r) d'"
  have old: "filter ?P (task_events d) = []"
  proof -
    have "\<not> ?P e" if e: "e \<in> set (task_events d)" for e
    proof -
      from e assms(3) obtain t where t: "t \<in> set (tasks d)" "t_id t = te_task e" by (auto simp: events_closed_def)
      have "t_id x \<noteq> te_task e" if "x \<in> set ?rows" for x 
        using uniq imageI [OF t(1), of t_id] imageI [OF that, of t_id] t(2)
        unfolding map_append distinct_append set_map by (metis IntI empty_iff)
      then have "of_plan (pl_id p) (te_task e) d3 \<longleftrightarrow> of_plan (pl_id p) (te_task e) d"
        by (auto simp: of_plan_def d3)
      then have "?P e \<longleftrightarrow> insertion_event (pl_id p) (ir_key r) d e" by (simp add: insertion_event_of_plan d')
      with assms(2) e show ?thesis by (auto simp: find_replay_def filter_empty_conv)
    qed
    then show ?thesis by (simp add: filter_empty_conv)
  qed
  have new: "filter ?P ?new = ?new"
  proof (rule filter_True, rule ballI)
    fix e assume "e \<in> set ?new"
    then obtain i t sp where e: "e = inserted_event now lessons (pl_version p) hash r (i, t, sp)" and t: "t \<in> set ?rows"
      by (auto simp: in_set_enumerate_eq dest: in_set_zipE)
    from inserted_rows_plan [OF t] t have "of_plan (pl_id p) (t_id t) d3" by (auto simp: of_plan_def d3)
    then show "?P e" by (simp add: insertion_event_of_plan e inserted_event_fields d')
  qed
  have "filter ?P ?later = []" "filter ?P es = []"
    using later_events [of _ now fresh r d] ready by (auto simp: filter_empty_conv insertion_event_of_plan)
  with old new show ?thesis by (simp add: find_replay_def es)
qed

lemma each_Inr_map: "(\<And>x. x \<in> set xs \<Longrightarrow> f x = Inr (g x)) \<Longrightarrow> each f xs = Inr (map g xs)"
  by (induction xs) auto

lemma rows_at_each:
  assumes "\<forall>x\<in>set xs. find_row (\<lambda>t. t_id t = snd x) (tasks d) \<noteq> None"
  shows "each (\<lambda>(_, i). from_option e (find_row (\<lambda>t. t_id t = i) (tasks d))) xs = Inr (rows_at (map snd xs) d)"
  using assms by (induction xs) (auto simp: rows_at_def map_filter_simps from_option_def)

lemma insertion_replayed:
  assumes "write_insertion now lessons fresh hash g p r d = Inr (d', ts)" and "find_replay (pl_id p) (ir_key r) d = []"
    and "events_closed d"
  shows "replayed hash2 (find_replay (pl_id p) (ir_key r) d') d' =
    (if hash2 \<noteq> hash \<and> ir_tasks r \<noteq> [] then Inl (InsertionConflict ''different content'')
     else if ir_tasks r = [] then replayed hash2 [] d' else Inr ts)"
proof (cases "ir_tasks r = []")
  case True
  then show ?thesis by (simp add: insertion_events [OF assms] inserted_rows_def)
next
  case False
  let ?rows = "inserted_rows now lessons g (pl_id p) fresh r" and ?n = "length (ir_tasks r)"
  let ?xs = "enumerate 0 (zip ?rows (ir_tasks r))" and ?ev = "inserted_event now lessons (pl_version p) hash r"
  have len: "length ?rows = ?n" by (simp add: inserted_rows_def)
  have hd: "jget (te_detail (hd (map ?ev ?xs))) ''insertion_semantic_hash'' = JStr hash"
  proof -
    have "?xs \<noteq> []" using False len by (cases "ir_tasks r"; cases ?rows) auto
    then obtain i t sp where "hd ?xs = (i, t, sp)" by (metis prod_cases3)
    with \<open>?xs \<noteq> []\<close> show ?thesis by (simp add: hd_map inserted_event_fields)
  qed
  have "each (\<lambda>e. sbind (event_task e) (\<lambda>i. sbind (event_position e) (\<lambda>k. Inr (k, i)))) (map ?ev ?xs) =
      Inr (map (\<lambda>(i, t, sp). (int i, t_id t)) ?xs)"
  proof -
    have "each (\<lambda>e. sbind (event_task e) (\<lambda>i. sbind (event_position e) (\<lambda>k. Inr (k, i)))) (map ?ev ys) =
        Inr (map (\<lambda>(i, t, sp). (int i, t_id t)) ys)" for ys
      by (induction ys) (auto simp: inserted_event_fields)
    then show ?thesis .
  qed
  moreover have "sort_key fst (map (\<lambda>(i, t, sp). (int i, t_id t)) ?xs) = map (\<lambda>(i, t, sp). (int i, t_id t)) ?xs"
  proof (rule sort_key_id_if_sorted)
    have "map fst (map (\<lambda>(i, t, sp). (int i, t_id t)) ?xs) = map int [0..<length (zip ?rows (ir_tasks r))]"
      by (rule nth_equalityI) (auto simp: nth_enumerate_eq split: prod.splits)
    then show "sorted (map fst (map (\<lambda>(i, t, sp). (int i, t_id t)) ?xs))" by (simp add: sorted_map sorted_wrt_map)
  qed
  moreover have ids: "map snd (map (\<lambda>(i, t, sp). (int i, t_id t)) ?xs) = map t_id ?rows"
    by (rule nth_equalityI) (auto simp: nth_enumerate_eq len split: prod.splits)
  moreover have "each (\<lambda>(_, i). from_option e (find_row (\<lambda>t. t_id t = i) (tasks d'))) (map (\<lambda>(i, t, sp). (int i, t_id t)) ?xs) = Inr ts"
    for e :: insertion_error
  proof -
    obtain d3 where d3: "d3 = d\<lparr>tasks := tasks d @ ?rows, task_deps := task_deps d @ inserted_dependencies fresh (g_owner g) r,
        task_events := task_events d @ map ?ev ?xs @ concat (map (prerequisite_event now fresh r d) (ir_prerequisites r))\<rparr>"
      and d': "d' = after_recompute now (g_id g) d3" and ts: "ts = rows_at (map t_id ?rows) d'"
      by (rule write_insertion_InrE [OF assms(1)])
    have "t_id ` set (tasks d') = t_id ` set (tasks d3)"
      by (rule list_key_image) (simp add: d' recompute_tasks map_key_update_rows)
    then have sub: "set (map t_id ?rows) \<subseteq> t_id ` set (tasks d')" by (auto simp: d3)
    have "find_row (\<lambda>t. t_id t = i) (tasks d') \<noteq> None" if "i \<in> t_id ` set (tasks d')" for i
      using that by (auto simp: find_row_None_iff)
    with sub have "\<forall>i\<in>set (map t_id ?rows). find_row (\<lambda>t. t_id t = i) (tasks d') \<noteq> None" by blast
    then have "\<forall>x\<in>set (map (\<lambda>(i, t, sp). (int i, t_id t)) ?xs). find_row (\<lambda>t. t_id t = snd x) (tasks d') \<noteq> None"
      unfolding ids [symmetric] by simp
    from rows_at_each [OF this] show ?thesis by (simp only: ids ts)
  qed
  ultimately show ?thesis using hd False by (simp add: insertion_events [OF assms] replayed_def)
qed

text \<open>C12: An insertion happens once. Repeating the request, also at another time and with other identifiers at hand, gives the
  same tasks and writes nothing, and the same key with other content is refused.\<close>

theorem insertion_happens_once:
  assumes "insert_plan_tasks sha dumps now lessons fresh gid pid r d = Inr (d1, ts)" and "events_closed d"
  shows "insert_plan_tasks sha dumps now2 lessons2 fresh2 gid pid r d1 = Inr (d1, ts) \<and>
    (\<forall>r2. ir_key r2 = ir_key r \<and> semantic_hash sha dumps r2 \<noteq> semantic_hash sha dumps r \<longrightarrow>
       (\<exists>e. insert_plan_tasks sha dumps now2 lessons2 fresh2 gid pid r2 d1 = Inl e))"
proof -
  obtain g p where adm: "admissible r = Inr ()" and g: "find_row (\<lambda>g. g_id g = gid) (goals d) = Some g"
    and p: "find_row (\<lambda>p. pl_id p = pid) (plans d) = Some p" "pl_goal p = gid" "pl_owner p = g_owner g" "pl_status p = PlanActive"
      "sha (g_original_instruction g) = ir_instruction_sha r"
    and replay: "find_replay pid (ir_key r) d \<noteq> [] \<Longrightarrow>
      d1 = d \<and> replayed (semantic_hash sha dumps r) (find_replay pid (ir_key r) d) d = Inr ts"
    and fresh: "find_replay pid (ir_key r) d = [] \<Longrightarrow>
      validate_insertion pid r d = Inr () \<and> write_insertion now lessons fresh (semantic_hash sha dumps r) g p r d = Inr (d1, ts)"
 
    by (rule insert_plan_tasks_InrE [OF assms(1)]) (rule that; (assumption | blast))
  have ids: "pl_id p = pid" "g_id g = gid" using find_row_SomeD [OF p(1)] find_row_SomeD [OF g] by simp_all
  have some: "ir_tasks r \<noteq> []" using adm by (auto simp: admissible_def)
  have key: "find_replay pid (ir_key r) d1 \<noteq> [] \<and> goals d1 = goals d \<and> plans d1 = plans d \<and>
    (\<forall>hash. replayed hash (find_replay pid (ir_key r) d1) d1 =
       (if hash = semantic_hash sha dumps r then Inr ts else Inl (InsertionConflict ''different content'')))"
  proof (cases "find_replay pid (ir_key r) d = []")
    case True
    with fresh have w: "write_insertion now lessons fresh (semantic_hash sha dumps r) g p r d = Inr (d1, ts)" by simp
    have none: "find_replay (pl_id p) (ir_key r) d = []" using True ids by simp
    have "goals d1 = goals d \<and> plans d1 = plans d" by (rule write_insertion_InrE [OF w]) simp
    moreover have "find_replay pid (ir_key r) d1 \<noteq> []"
    proof -
      have "length (find_replay pid (ir_key r) d1) = length (ir_tasks r)"
        using insertion_events [OF w none assms(2)] ids by (simp add: inserted_rows_def)
      with some show ?thesis by auto
    qed
    moreover have "replayed hash (find_replay pid (ir_key r) d1) d1 =
        (if hash = semantic_hash sha dumps r then Inr ts else Inl (InsertionConflict ''different content''))" for hash
      using insertion_replayed [OF w none assms(2), of hash] some ids by simp
    ultimately show ?thesis by blast
  next
    case False
    with replay have same: "d1 = d" and old: "replayed (semantic_hash sha dumps r) (find_replay pid (ir_key r) d) d = Inr ts" by simp_all
    have "replayed hash (find_replay pid (ir_key r) d) d = Inl (InsertionConflict ''different content'')"
      if "hash \<noteq> semantic_hash sha dumps r" for hash
      using old that by (auto simp: replayed_def split: if_splits)
    with False same old show ?thesis by simp
  qed
  have again: "insert_plan_tasks sha dumps now2 lessons2 fresh2 gid pid r d1 = Inr (d1, ts)"
    using key g p adm by (simp add: insert_plan_tasks_def from_option_def Let_def)
  have "\<exists>e. insert_plan_tasks sha dumps now2 lessons2 fresh2 gid pid r2 d1 = Inl e"
    if "ir_key r2 = ir_key r" "semantic_hash sha dumps r2 \<noteq> semantic_hash sha dumps r" for r2
  proof (cases "insert_plan_tasks sha dumps now2 lessons2 fresh2 gid pid r2 d1")
    case (Inr x)
    then obtain d2 us where "insert_plan_tasks sha dumps now2 lessons2 fresh2 gid pid r2 d1 = Inr (d2, us)" by (cases x) simp
    then have "replayed (semantic_hash sha dumps r2) (find_replay pid (ir_key r2) d1) d1 = Inr us"
      by (rule insert_plan_tasks_InrE) (use key that in simp)
    with key that show ?thesis by simp
  qed blast
  with again show ?thesis by blast
qed

section \<open>The statements at work\<close>

definition insertion_db :: db where
  "insertion_db = empty_db\<lparr>goals := [planner_goal],
     plans := [\<lparr>pl_id = 10, pl_goal = 20, pl_owner = 7, pl_version = 1, pl_status = PlanActive, pl_rationale = [], pl_created_by = []\<rparr>],
     tasks := [(sample_task 1 TCompleted)\<lparr>t_plan := 10\<rparr>, (sample_task 2 TPending)\<lparr>t_plan := 10\<rparr>],
     task_deps := [\<lparr>dep_task = 2, dep_on = 1, dep_owner = 7\<rparr>]\<rparr>"

definition sample_insertion :: insertion where
  "sample_insertion =
     \<lparr>ir_kind = ''authorized_goal'', ir_instruction_sha = g_original_instruction planner_goal, ir_key = ''k'',
      ir_tasks = [\<lparr>in_description = ''fix'', in_type = ''repo_edit'', in_depends = [OnExisting 1], in_risk = RiskLow,
        in_approval_required = False, in_verification_plan = [], in_priority = 0, in_max_attempts = 3\<rparr>],
      ir_prerequisites = [\<lparr>pe_task = 2, pe_on = 0\<rparr>], ir_source_type = ''s'', ir_source_ref = ''r'', ir_reason = ''why'', ir_requested_by = ''w''\<rparr>"

definition fixed_text :: "json \<Rightarrow> string" where "fixed_text v = ''j''"

lemma sample_insertion_acyclic: "detect_cycle 3 [(1, 0), (2, 0), (1, 2)] = Inr None"
  by code_simp

lemma sample_insertion_valid: "validate_insertion 10 sample_insertion insertion_db = Inr ()"
proof -
  have "existing_edges [1, 2] insertion_db @ insertion_edges [1, 2] sample_insertion = [(1, 0), (2, 0), (1, 2)]"
    by (simp add: existing_edges_def insertion_edges_def insertion_db_def sample_insertion_def node_of_def map_filter_simps)
  moreover have "map t_id (filter (\<lambda>t. t_plan t = 10) (tasks insertion_db)) = [1, 2]"
    by (simp add: insertion_db_def sample_task_def)
  moreover have "length (ir_tasks sample_insertion) = 1" by (simp add: sample_insertion_def)
  moreover have "\<exists>us. each (check_inserted (filter (\<lambda>t. t_plan t = 10) (tasks insertion_db)) 1) (enumerate 0 (ir_tasks sample_insertion)) = Inr us"
    by (simp add: sample_insertion_def check_inserted_def check_dependency_def insertion_db_def sample_task_def
        strip_chars_def is_space_def known_task_types_def never_completes_def)
  moreover have "\<exists>us. each (check_prerequisite (filter (\<lambda>t. t_plan t = 10) (tasks insertion_db)) 1) (ir_prerequisites sample_insertion) = Inr us"
    by (simp add: sample_insertion_def check_prerequisite_def insertion_db_def sample_task_def takes_prerequisites_def)
  moreover have "length [1 :: uuid, 2] + 1 = 3" by simp
  ultimately show ?thesis
    unfolding validate_insertion_def Let_def by (elim exE) (simp only: sum.case option.case sample_insertion_acyclic sbind_simps)
qed

lemma sample_inserted:
  "\<exists>d' ts. insert_plan_tasks (\<lambda>w. w) fixed_text 9 [] (\<lambda>i. 50) 20 10 sample_insertion insertion_db = Inr (d', ts)"
proof -
  have "admissible sample_insertion = Inr ()"
    by (simp add: admissible_def sample_insertion_def max_new_tasks_def max_prerequisites_def strip_chars_def is_space_def
        non_authoritative_kinds_def authorized_kinds_def)
  moreover have "find_replay 10 (ir_key sample_insertion) insertion_db = []"
    by (simp add: find_replay_def insertion_db_def empty_db_def)
  moreover have "\<exists>x. write_insertion 9 [] (\<lambda>i. 50) hash planner_goal (hd (plans insertion_db)) sample_insertion insertion_db = Inr x" for hash
    by (simp add: write_insertion_def Let_def inserted_rows_def insert_tasks_def insert_dependencies_def sample_insertion_def insertion_db_def
        sample_task_def planned_row_def as_planned_def task_checks_def terminal_task_statuses_def inserted_dependencies_def
        apply_lessons_to_verification_plan_def lookup_lessons_def conflicted_ids_def find_conflict_candidate_pairs_def planner_goal_def)
  moreover have "plans insertion_db = [\<lparr>pl_id = 10, pl_goal = 20, pl_owner = 7, pl_version = 1, pl_status = PlanActive, pl_rationale = [], pl_created_by = []\<rparr>]"
    "goals insertion_db = [planner_goal]" by (simp_all add: insertion_db_def)
  moreover have "g_id planner_goal = 20" "g_owner planner_goal = 7" "ir_instruction_sha sample_insertion = g_original_instruction planner_goal"
    by (simp_all add: planner_goal_def sample_insertion_def)
  ultimately show ?thesis
    using sample_insertion_valid by (simp add: insert_plan_tasks_def from_option_def Let_def) (metis map_sum.simps(2) id_apply old.prod.exhaust)
qed

lemma insertion_db_ok: "tasks_ok insertion_db" "deps_in_plan insertion_db" "acyclic (depends_rel insertion_db)" "events_closed insertion_db"
proof -
  have "depends_rel insertion_db = {(2, 1)}" by (simp add: depends_rel_def insertion_db_def)
  then show "acyclic (depends_rel insertion_db)" by (simp add: acyclic_def trancl_insert2)
qed (simp_all add: tasks_ok_def unique_key_def insertion_db_def sample_task_def task_checks_def terminal_task_statuses_def deps_in_plan_def
    events_closed_def empty_db_def)

theorem insertion_keeps_dag_witness:
  "\<exists>d' ts. insert_plan_tasks (\<lambda>w. w) fixed_text 9 [] (\<lambda>i. 50) 20 10 sample_insertion insertion_db = Inr (d', ts) \<and>
     acyclic (depends_rel d') \<and> set (task_deps insertion_db) \<subseteq> set (task_deps d')"
proof -
  from sample_inserted obtain d' ts where
    r: "insert_plan_tasks (\<lambda>w. w) fixed_text 9 [] (\<lambda>i. 50) 20 10 sample_insertion insertion_db = Inr (d', ts)" by blast
  from insertion_keeps_dag [OF r insertion_db_ok(1-3)] r show ?thesis by blast
qed

theorem insertion_happens_once_witness:
  "\<exists>d' ts. insert_plan_tasks (\<lambda>w. w) fixed_text 9 [] (\<lambda>i. 50) 20 10 sample_insertion insertion_db = Inr (d', ts) \<and>
     insert_plan_tasks (\<lambda>w. w) fixed_text 11 [] (\<lambda>i. 51) 20 10 sample_insertion d' = Inr (d', ts)"
proof -
  from sample_inserted obtain d' ts where
    r: "insert_plan_tasks (\<lambda>w. w) fixed_text 9 [] (\<lambda>i. 50) 20 10 sample_insertion insertion_db = Inr (d', ts)" by blast
  from insertion_happens_once [OF r insertion_db_ok(4)] r show ?thesis by blast
qed

end
