(* ===== verification/Spec2Isabelle.thy ===== *)
theory Spec2Isabelle
  imports JobClaims Liveness CiWait Executor Planner Outcome GoalLease Spend ProviderPlanning Supervisor PlanInsertion
begin

text \<open>
  A verification library for the job and execution runtime of the backend, \<open>src/backend/app\<close>.

  The program stores founder goals, plans each as a graph of tasks, runs the tasks as durable jobs on
  workers, verifies their results, recovers what a dead worker left behind, and lets a supervisor act on
  its own only inside what the founder has authorized. All state is in PostgreSQL: a model state is a
  record of tables, a table a list of rows, an operation a function from the state to an error or the new
  state. An error on the left is a raised exception, so the caller's transaction is rolled back; where the
  code flushes before it raises and the caller goes on, the operation returns the state on both branches.
  Concurrency is between transactions: the row locks and guarded updates of the code make each operation
  one step, and the properties quantify over all sequences of steps. Where code reads before it locks, the
  model takes what other sessions commit in between as an argument \<open>others\<close>.

  Theories, in the order of the code's layers.

  \<^item> \<open>Prelude\<close>, \<open>PyData\<close>: sequencing of fallible steps, lookup and update of rows, unique keys; Python
    strings, JSON values and UUIDs (a 128-bit word and its text).
  \<^item> \<open>Store\<close>: the rows and closed vocabularies of \<open>app/models\<close> and the state record \<open>db\<close>.
  \<^item> \<open>JobLease\<close> (\<open>jobs/mainai_job_lease.py\<close>, migrations 0026 to 0034), \<open>Capability\<close>, \<open>Approval\<close>,
    \<open>JobService\<close> (\<open>jobs/service.py\<close>), \<open>JobFacts\<close>, \<open>JobRuntime\<close>, \<open>JobClaims\<close>: the durable job runtime. The
    lemmas show that each write keeps the table constraints and evolves rows only along allowed
    transitions; \<open>JobRuntime\<close> states fencing once as the locale \<open>lease_fencing\<close>, which the job lease and
    the supervisor lease both interpret.
  \<^item> \<open>TaskGraph\<close>, \<open>Liveness\<close>, \<open>Executor\<close>: readiness of tasks, dispatch, cancellation with its cascade.
  \<^item> \<open>CycleCheck\<close>, \<open>Lessons\<close>, \<open>Planner\<close>: plan validation and storage, lessons, replanning.
  \<^item> \<open>Verify\<close>, \<open>CiWait\<close>, \<open>LessonFeedback\<close>, \<open>FinalReport\<close>, \<open>Outcome\<close>: what decides a task and a goal.
  \<^item> \<open>Worktree\<close>, \<open>Tables\<close>, \<open>Recovery\<close>, \<open>Takeover\<close>: the recovery pipeline for dead jobs.
  \<^item> \<open>Envelopes\<close>, \<open>GoalLease\<close>, \<open>ProviderWait\<close>, \<open>Spend\<close>: founder authority, the supervisor's lease with its
    refinement of an abstract lock, parked tasks, and the provider budget as a ledger.
  \<^item> \<open>Operator\<close> (\<open>development_operator/service.py\<close>): the fence before every effect of an autonomous step, the
    path guard, reads, file writes with their intent record, checks, staging and commits. The files, git and
    subprocesses of the machine are the functions of the record \<open>machine\<close>; the lemmas bound what a call can
    change and show that a crashed write is healed by its intent.
  \<^item> \<open>Driver\<close> (\<open>development_driver/service.py\<close>): the plan driver above the operator, one turn per step, its
    checkpoints and resumption; what other sessions commit meanwhile is the function \<open>dv_world\<close>.
  \<^item> \<open>SafePlanner\<close> (\<open>safe_planner/service.py\<close>): parsing and validation of a candidate plan, the order of its
    steps, and the one plan of an attempt. \<open>Egress\<close> (\<open>egress_policy/service.py\<close>): the gate before content leaves.
    \<open>ProviderPlanning\<close> (\<open>provider_planning/service.py\<close>): request, hold, gate, call, settlement and verdict; what has
    left the process is kept in \<open>px_calls\<close>, which a rollback does not take back.
  \<^item> \<open>Supervisor\<close> (\<open>development_supervisor/service.py\<close>, \<open>plan_scope_narrowing.py\<close>): an invocation of the supervisor,
    from the scope and the selection of a task to its plan, the narrowed boundary and the call of the driver. A turn
    of the loop is \<open>supervise_turn\<close>, the loop has the number of turns as fuel, and \<open>supervisor_ends\<close> says how many are
    enough. \<open>ss_drives\<close> lists the calls of the driver. The gap service is the record \<open>gap_service\<close>.
  \<^item> \<open>PlanInsertion\<close> (\<open>mainai_execution/plan_insertion.py\<close>): adding tasks to the active plan of a goal, with edges in both
    directions between new and stored tasks. The combined graph is checked with the cycle check of the planner; an
    insertion is found again by its key in the events it wrote.
  Bounds and fuel. Times are integers in seconds, money is in micro-dollars, the scale of the columns.
  Recursion is structural or has a measure: the cycle check by the unvisited nodes, the cancellation
  cascade by the open tasks, polling of a wait by its deadline. Column widths that a CHECK or a type
  enforces are conditions of the insert.

  Parameters. What lies outside the repository enters as an argument with no assumption on its answers:
  the chat model, git and the GitHub API, the file system of a worktree, jitter of a backoff, fresh UUIDs
  and the clock. Fresh identifiers are assumed unused where a property needs it, as \<open>uuid4\<close> promises.

  Not modelled. HTTP routers and schemas, authentication and row level security, document import,
  embeddings and storage, memory and knowledge records, agent coordination and workforce, and the
  executive and school loops: request plumbing, third-party formats, or layers beside the runtime. The
  worker's polling loop, its logging and process control are left out; its ticks are calls of the
  operations modelled here. The chat loop of \<open>execution_job.py\<close> is left out; what it may do to a task is
  the outcome of an attempt in \<open>Outcome\<close>.
\<close>

end
